(* ===== verification/Prelude.thy ===== *)
theory Prelude
  imports Main "HOL-Library.Multiset"
begin

text \<open>
  What every component shares: Rust's three-valued \<open>Ordering\<close> with \<open>then_with\<close>,
  the stable \<open>sort_by\<close>, \<open>dedup\<close>, saturating and checked conversions between the
  machine integers the code uses, and the locale of comparators under which a sort is
  canonical. The collection \<open>model_simps\<close> gathers the unfolding lemmas that
  the components' proofs share.
\<close>

named_theorems model_simps

subsection \<open>Machine integers\<close>

text \<open>
  Sizes and counters are \<open>nat\<close>. Where the width matters it is written out: the
  largest value of each type is named here, and a conversion that can fail
  (\<open>u32::try_from\<close>) is an option. On \<open>nat\<close>, \<open>-\<close> is \<open>saturating_sub\<close>.
\<close>

definition u16_max :: nat where "u16_max = 65535"
definition u32_max :: nat where "u32_max = 4294967295"
definition u64_max :: nat where "u64_max = 18446744073709551615"
definition usize_max :: nat where "usize_max = 18446744073709551615"

definition try_u32 :: "nat \<Rightarrow> nat option" where
  "try_u32 n = (if n \<le> u32_max then Some n else None)"

definition clamp_u32 :: "nat \<Rightarrow> nat" where
  "clamp_u32 n = (case try_u32 n of Some v \<Rightarrow> v | None \<Rightarrow> u32_max)"

lemma clamp_u32_min: "clamp_u32 n = min n u32_max"
  by (simp add: clamp_u32_def try_u32_def)

lemma try_u32_Some [simp]: "try_u32 n = Some m \<longleftrightarrow> m = n \<and> n \<le> u32_max"
  by (auto simp: try_u32_def)

definition saturating_add :: "nat \<Rightarrow> nat \<Rightarrow> nat \<Rightarrow> nat" where
  "saturating_add mx a b = min mx (a + b)"

definition checked_add :: "nat \<Rightarrow> nat \<Rightarrow> nat \<Rightarrow> nat option" where
  "checked_add mx a b = (if a + b \<le> mx then Some (a + b) else None)"

definition checked_mul :: "nat \<Rightarrow> nat \<Rightarrow> nat \<Rightarrow> nat option" where
  "checked_mul mx a b = (if a * b \<le> mx then Some (a * b) else None)"

lemma checked_add_Some [simp]:
  "checked_add mx a b = Some c \<longleftrightarrow> c = a + b \<and> a + b \<le> mx"
  by (auto simp: checked_add_def)

lemma checked_mul_Some [simp]:
  "checked_mul mx a b = Some c \<longleftrightarrow> c = a * b \<and> a * b \<le> mx"
  by (auto simp: checked_mul_def)

definition div_ceil :: "nat \<Rightarrow> nat \<Rightarrow> nat" where
  "div_ceil a b = (a + b - 1) div b"

lemma div_ceil_le: "0 < b \<Longrightarrow> div_ceil a b \<le> n \<longleftrightarrow> a \<le> n * b"
  unfolding div_ceil_def
  by (subst less_Suc_eq_le [symmetric], subst div_less_iff_less_mult) (auto simp: algebra_simps)

subsection \<open>Ordering\<close>

datatype ordering = Less | Equal | Greater

definition then_with :: "ordering \<Rightarrow> ordering \<Rightarrow> ordering" where
  "then_with a b = (case a of Equal \<Rightarrow> b | _ \<Rightarrow> a)"

definition cmp_ord :: "'a::linorder \<Rightarrow> 'a \<Rightarrow> ordering" where
  "cmp_ord a b = (if a < b then Less else if b < a then Greater else Equal)"

lemma then_with_simps [simp]:
  "then_with Less b = Less" "then_with Equal b = b" "then_with Greater b = Greater"
  by (simp_all add: then_with_def)

lemma then_with_eq_iff:
  "then_with a b = Equal \<longleftrightarrow> a = Equal \<and> b = Equal"
  "then_with a b = Greater \<longleftrightarrow> a = Greater \<or> a = Equal \<and> b = Greater"
  "then_with a b = Less \<longleftrightarrow> a = Less \<or> a = Equal \<and> b = Less"
  by (cases a; simp)+

lemma cmp_ord_iff [simp]:
  "cmp_ord a b = Less \<longleftrightarrow> a < b"
  "cmp_ord a b = Equal \<longleftrightarrow> a = b"
  "cmp_ord a b = Greater \<longleftrightarrow> b < a"
  by (auto simp: cmp_ord_def)

subsection \<open>The stable sort\<close>

text \<open>
  \<open>slice::sort_by\<close> is a stable sort: equal elements keep their order. The model is
  stable insertion, from the right so that an element lands before its equals.
\<close>

primrec insert_by :: "('a \<Rightarrow> 'a \<Rightarrow> ordering) \<Rightarrow> 'a \<Rightarrow> 'a list \<Rightarrow> 'a list" where
  "insert_by cmp x [] = [x]"
| "insert_by cmp x (y # ys) =
     (if cmp x y = Greater then y # insert_by cmp x ys else x # y # ys)"

primrec sort_by :: "('a \<Rightarrow> 'a \<Rightarrow> ordering) \<Rightarrow> 'a list \<Rightarrow> 'a list" where
  "sort_by cmp [] = []"
| "sort_by cmp (x # xs) = insert_by cmp x (sort_by cmp xs)"

lemma mset_insert_by [simp]: "mset (insert_by cmp x xs) = add_mset x (mset xs)"
  by (induction xs) auto

lemma mset_sort_by [simp]: "mset (sort_by cmp xs) = mset xs"
  by (induction xs) auto

lemma set_sort_by [simp]: "set (sort_by cmp xs) = set xs"
  by (metis mset_sort_by set_mset_mset)

lemma length_sort_by [simp]: "length (sort_by cmp xs) = length xs"
  by (metis mset_sort_by size_mset)

lemma insert_by_cong:
  assumes "\<And>y. y \<in> set ys \<Longrightarrow> cmp x y = cmp' x y"
  shows "insert_by cmp x ys = insert_by cmp' x ys"
  using assms by (induction ys) auto

lemma distinct_map_mset_cong:
  "mset xs = mset ys \<Longrightarrow> distinct (map f xs) \<longleftrightarrow> distinct (map f ys)"
  by (metis mset_eq_imp_distinct_iff mset_map)

text \<open>
  A comparator that is a total preorder on the elements it is used on. Scores compare
  meaningfully only within one domain, so the carrier is a parameter.
\<close>

locale total_cmp =
  fixes cmp :: "'a \<Rightarrow> 'a \<Rightarrow> ordering" and ok :: "'a \<Rightarrow> bool"
  assumes cmp_refl: "ok x \<Longrightarrow> cmp x x = Equal"
    and cmp_swap: "ok x \<Longrightarrow> ok y \<Longrightarrow> cmp x y = Greater \<longleftrightarrow> cmp y x = Less"
    and cmp_trans: "ok x \<Longrightarrow> ok y \<Longrightarrow> ok z \<Longrightarrow> cmp x y \<noteq> Greater \<Longrightarrow> cmp y z \<noteq> Greater \<Longrightarrow>
      cmp x z \<noteq> Greater"
begin

abbreviation in_order :: "'a list \<Rightarrow> bool" where
  "in_order \<equiv> sorted_wrt (\<lambda>x y. cmp x y \<noteq> Greater)"

lemma not_greater_swap: "ok x \<Longrightarrow> ok y \<Longrightarrow> cmp x y = Greater \<Longrightarrow> cmp y x \<noteq> Greater"
  by (simp add: cmp_swap)

lemma insert_by_in_order:
  assumes "ok x" "\<forall>y \<in> set ys. ok y" "in_order ys"
  shows "in_order (insert_by cmp x ys)"
  using assms(2,3)
proof (induction ys)
  case Nil
  then show ?case by simp
next
  case (Cons y ys)
  have set_ins: "set (insert_by cmp x ys) = insert x (set ys)"
    by (metis mset_insert_by set_mset_add_mset_insert set_mset_mset)
  show ?case
  proof (cases "cmp x y = Greater")
    case True
    then have "cmp y x \<noteq> Greater" using Cons.prems assms(1) not_greater_swap by simp
    with True Cons show ?thesis by (auto simp: set_ins)
  next
    case False
    have "cmp x z \<noteq> Greater" if "z \<in> set ys" for z
      using that False Cons.prems assms(1) cmp_trans [of x y z] by auto
    with False Cons.prems show ?thesis by auto
  qed
qed

lemma sort_by_in_order: "\<forall>x \<in> set xs. ok x \<Longrightarrow> in_order (sort_by cmp xs)"
  by (induction xs) (auto intro!: insert_by_in_order)

text \<open>A sorted list is left as it is, so sorting twice changes nothing.\<close>

lemma sort_by_id: "in_order xs \<Longrightarrow> sort_by cmp xs = xs"
proof (induction xs)
  case (Cons x xs)
  then show ?case by (cases xs) auto
qed simp

lemma in_order_unique:
  assumes "mset xs = mset ys" "in_order xs" "in_order ys" "\<forall>x \<in> set xs. ok x"
    and anti: "\<And>x y. x \<in> set xs \<Longrightarrow> y \<in> set xs \<Longrightarrow> cmp x y = Equal \<Longrightarrow> x = y"
  shows "xs = ys"
  using assms
proof (induction xs arbitrary: ys)
  case Nil
  then show ?case by simp
next
  case (Cons x xs)
  obtain y ys' where ys: "ys = y # ys'" using Cons.prems(1) by (cases ys) auto
  have mem: "x \<in> set ys" "y \<in> set (x # xs)" "set ys = set (x # xs)"
    using mset_eq_setD [OF Cons.prems(1)] ys by auto
  have "x = y"
  proof (rule ccontr)
    assume "x \<noteq> y"
    then have le: "cmp x y \<noteq> Greater" "cmp y x \<noteq> Greater"
      using Cons.prems(2,3) mem ys by auto
    then have "cmp x y = Equal"
      using cmp_swap [of x y] cmp_swap [of y x] Cons.prems(4) mem by (cases "cmp x y") auto
    with Cons.prems(5) mem \<open>x \<noteq> y\<close> show False by auto
  qed
  moreover have "xs = ys'"
  proof (rule Cons.IH)
    show "mset xs = mset ys'" using Cons.prems(1) ys \<open>x = y\<close> by simp
  qed (use Cons.prems ys in auto)
  ultimately show ?case using ys by simp
qed

lemma sort_by_canonical:
  assumes "mset xs = mset ys" "\<forall>x \<in> set xs. ok x"
    and anti: "\<And>x y. x \<in> set xs \<Longrightarrow> y \<in> set xs \<Longrightarrow> cmp x y = Equal \<Longrightarrow> x = y"
  shows "sort_by cmp xs = sort_by cmp ys"
proof -
  have "set ys = set xs" using assms(1) by (auto dest: mset_eq_setD)
  then show ?thesis
    using assms by (intro in_order_unique) (auto intro!: sort_by_in_order)
qed

end

text \<open>Chaining two comparators with \<open>then_with\<close> gives a comparator again.\<close>

lemma total_cmp_then_with:
  assumes c: "total_cmp c ok" and d: "total_cmp d ok"
  shows "total_cmp (\<lambda>x y. then_with (c x y) (d x y)) ok"
proof
  fix x y z
  assume x: "ok x"
  show "then_with (c x x) (d x x) = Equal"
    using total_cmp.cmp_refl [OF c x] total_cmp.cmp_refl [OF d x] by simp
  assume y: "ok y"
  note xy = total_cmp.cmp_swap [OF c x y] total_cmp.cmp_swap [OF c y x]
    total_cmp.cmp_swap [OF d x y] total_cmp.cmp_swap [OF d y x]
  show "then_with (c x y) (d x y) = Greater \<longleftrightarrow> then_with (c y x) (d y x) = Less"
    using xy by (cases "c x y"; cases "c y x") auto
  assume z: "ok z"
  note yz = total_cmp.cmp_swap [OF c y z] total_cmp.cmp_swap [OF c z y]
    total_cmp.cmp_swap [OF c x z] total_cmp.cmp_swap [OF c z x]
    total_cmp.cmp_trans [OF c x y z] total_cmp.cmp_trans [OF c y z x]
    total_cmp.cmp_trans [OF c z x y] total_cmp.cmp_trans [OF d x y z]
  assume "then_with (c x y) (d x y) \<noteq> Greater" "then_with (c y z) (d y z) \<noteq> Greater"
  then show "then_with (c x z) (d x z) \<noteq> Greater"
    using xy yz by (cases "c x y"; cases "c y z"; cases "c x z") auto
qed

lemma total_cmp_key: "total_cmp (\<lambda>x y. cmp_ord (f x) (f y)) ok"
  and total_cmp_key_desc: "total_cmp (\<lambda>x y. cmp_ord (f y) (f x)) ok"
  by (unfold_locales, auto)+

subsection \<open>Lists and options\<close>

text \<open>\<open>Vec::dedup\<close> drops repeated neighbours.\<close>

fun dedup :: "'a list \<Rightarrow> 'a list" where
  "dedup [] = []"
| "dedup [x] = [x]"
| "dedup (x # y # zs) = (if x = y then dedup (y # zs) else x # dedup (y # zs))"

lemma set_dedup [simp]: "set (dedup xs) = set xs"
  by (induction xs rule: dedup.induct) auto

lemma distinct_dedup_sorted: "sorted xs \<Longrightarrow> distinct (dedup xs)"
  by (induction xs rule: dedup.induct) (auto simp: less_le)

lemma sorted_dedup: "sorted xs \<Longrightarrow> sorted (dedup xs)"
  by (induction xs rule: dedup.induct) auto

lemma dedup_sorted_list_of_set: "dedup (sort xs) = sorted_list_of_set (set xs)"
  by (rule sorted_distinct_set_unique)
     (simp_all add: distinct_dedup_sorted sorted_dedup)

definition get_at :: "'a list \<Rightarrow> nat \<Rightarrow> 'a option" where
  "get_at xs i = (if i < length xs then Some (xs ! i) else None)"

lemma get_at_Some [simp]: "get_at xs i = Some x \<longleftrightarrow> i < length xs \<and> xs ! i = x"
  by (auto simp: get_at_def)

lemma get_at_None [simp]: "get_at xs i = None \<longleftrightarrow> length xs \<le> i"
  by (auto simp: get_at_def)

lemma sum_list_take_le: "sum_list (take n xs) \<le> sum_list (xs :: nat list)"
  by (metis append_take_drop_id le_add1 sum_list_append)

lemma length_filter_take_le: "length (filter P (take n xs)) \<le> length (filter P xs)"
  by (metis append_take_drop_id filter_append le_add1 length_append)

text \<open>What every step of a fold keeps, the fold keeps.\<close>

lemma fold_keeps: "(\<And>x s. P s \<Longrightarrow> P (f x s)) \<Longrightarrow> P s \<Longrightarrow> P (fold f xs s)"
  by (induction xs arbitrary: s) auto

subsection \<open>Transition systems\<close>

text \<open>What every step keeps, every run keeps.\<close>

locale step_invariant =
  fixes step :: "'s \<Rightarrow> 's \<Rightarrow> bool" and inv :: "'s \<Rightarrow> bool"
  assumes preserved: "inv s \<Longrightarrow> step s t \<Longrightarrow> inv t"
begin

lemma reachable: "step\<^sup>*\<^sup>* s t \<Longrightarrow> inv s \<Longrightarrow> inv t"
  by (induction rule: rtranclp_induct) (auto intro: preserved)

end

end
