(* ===== verification/Rust_Float.thy ===== *)
theory Rust_Float
  imports Prelude "HOL-Library.Log_Nat"
begin

text \<open>
  IEEE 754 binary floating point as Rust's \<open>f32\<close> and \<open>f64\<close> compute it: a value is a
  rational, an infinity or NaN, and every arithmetic operation is the exact result rounded
  to nearest, ties to even, with gradual underflow and overflow to infinity. The two
  signed zeros are one value: the code never divides by a zero or reads a zero's sign.
  Rounding is executable, and monotone, which is what the ranking proofs rest on.
\<close>

datatype rfloat = Fin rat | PosInf | NegInf | NaN

definition pow2 :: "int \<Rightarrow> rat" where
  "pow2 e = (if 0 \<le> e then 2 ^ nat e else 1 / 2 ^ nat (- e))"

definition ilog2 :: "rat \<Rightarrow> int" where
  "ilog2 q = (let (n, d) = quotient_of q; e = bitlen n - bitlen d
              in if pow2 e \<le> q then e else e - 1)"

definition round_half_even :: "rat \<Rightarrow> int" where
  "round_half_even q =
     (let f = \<lfloor>q\<rfloor>; d = q - of_int f
      in if d < 1 / 2 then f else if d > 1 / 2 then f + 1 else if even f then f else f + 1)"

definition ulp_exp :: "nat \<Rightarrow> int \<Rightarrow> rat \<Rightarrow> int" where
  "ulp_exp p emin a = max (ilog2 a - int (p - 1)) emin"

definition round_mag :: "nat \<Rightarrow> int \<Rightarrow> rat \<Rightarrow> rat" where
  "round_mag p emin a =
     (if a = 0 then 0
      else let u = ulp_exp p emin a in of_int (round_half_even (a / pow2 u)) * pow2 u)"

definition round_to :: "nat \<Rightarrow> int \<Rightarrow> int \<Rightarrow> rat \<Rightarrow> rfloat" where
  "round_to p emin emax q =
     (let v = round_mag p emin \<bar>q\<bar>
      in if pow2 emax \<le> v then (if q < 0 then NegInf else PosInf)
         else Fin (if q < 0 then - v else v))"

definition rnd32 :: "rat \<Rightarrow> rfloat" where "rnd32 = round_to 24 (-149) 128"
definition rnd64 :: "rat \<Rightarrow> rfloat" where "rnd64 = round_to 53 (-1074) 1024"

subsection \<open>Arithmetic and comparison\<close>

definition is_finite :: "rfloat \<Rightarrow> bool" where
  "is_finite x = (case x of Fin _ \<Rightarrow> True | _ \<Rightarrow> False)"

fun f_add :: "(rat \<Rightarrow> rfloat) \<Rightarrow> rfloat \<Rightarrow> rfloat \<Rightarrow> rfloat" where
  "f_add rnd (Fin a) (Fin b) = rnd (a + b)"
| "f_add rnd NaN y = NaN"
| "f_add rnd x NaN = NaN"
| "f_add rnd PosInf NegInf = NaN"
| "f_add rnd NegInf PosInf = NaN"
| "f_add rnd PosInf y = PosInf"
| "f_add rnd NegInf y = NegInf"
| "f_add rnd x PosInf = PosInf"
| "f_add rnd x NegInf = NegInf"

definition f_sign :: "rfloat \<Rightarrow> int" where
  "f_sign x = (case x of Fin a \<Rightarrow> (if a < 0 then -1 else if a = 0 then 0 else 1)
                       | PosInf \<Rightarrow> 1 | NegInf \<Rightarrow> -1 | NaN \<Rightarrow> 0)"

definition f_inf :: "int \<Rightarrow> rfloat" where
  "f_inf s = (if s = 0 then NaN else if s < 0 then NegInf else PosInf)"

fun f_mul :: "(rat \<Rightarrow> rfloat) \<Rightarrow> rfloat \<Rightarrow> rfloat \<Rightarrow> rfloat" where
  "f_mul rnd (Fin a) (Fin b) = rnd (a * b)"
| "f_mul rnd NaN y = NaN"
| "f_mul rnd x NaN = NaN"
| "f_mul rnd x y = f_inf (f_sign x * f_sign y)"

fun f_div :: "(rat \<Rightarrow> rfloat) \<Rightarrow> rfloat \<Rightarrow> rfloat \<Rightarrow> rfloat" where
  "f_div rnd (Fin a) (Fin b) = (if b = 0 then f_inf (f_sign (Fin a)) else rnd (a / b))"
| "f_div rnd NaN y = NaN"
| "f_div rnd x NaN = NaN"
| "f_div rnd (Fin a) y = Fin 0"
| "f_div rnd x (Fin b) = (if b = 0 then x else f_inf (f_sign x * f_sign (Fin b)))"
| "f_div rnd x y = NaN"

fun f_lt :: "rfloat \<Rightarrow> rfloat \<Rightarrow> bool" where
  "f_lt (Fin a) (Fin b) \<longleftrightarrow> a < b"
| "f_lt NaN y \<longleftrightarrow> False"
| "f_lt x NaN \<longleftrightarrow> False"
| "f_lt NegInf y \<longleftrightarrow> y \<noteq> NegInf"
| "f_lt x PosInf \<longleftrightarrow> x \<noteq> PosInf"
| "f_lt x y \<longleftrightarrow> False"

definition f_le :: "rfloat \<Rightarrow> rfloat \<Rightarrow> bool" where
  "f_le x y \<longleftrightarrow> f_lt x y \<or> x = y \<and> x \<noteq> NaN"

definition f_partial_cmp :: "rfloat \<Rightarrow> rfloat \<Rightarrow> ordering option" where
  "f_partial_cmp x y =
     (if x = NaN \<or> y = NaN then None
      else Some (if f_lt x y then Less else if f_lt y x then Greater else Equal))"

text \<open>\<open>f32::min\<close> ignores a NaN operand; \<open>clamp\<close> passes one through.\<close>

definition f_min :: "rfloat \<Rightarrow> rfloat \<Rightarrow> rfloat" where
  "f_min x y = (if x = NaN then y else if y = NaN then x else if f_lt y x then y else x)"

definition f_clamp :: "rfloat \<Rightarrow> rfloat \<Rightarrow> rfloat \<Rightarrow> rfloat" where
  "f_clamp x lo hi = (if f_lt x lo then lo else if f_lt hi x then hi else x)"

text \<open>Casts: \<open>as f32\<close> rounds; \<open>as u64\<close> truncates, saturates, and maps NaN to 0.\<close>

definition f_of_nat :: "(rat \<Rightarrow> rfloat) \<Rightarrow> nat \<Rightarrow> rfloat" where
  "f_of_nat rnd n = rnd (of_nat n)"

definition f_to_uint :: "nat \<Rightarrow> rfloat \<Rightarrow> nat" where
  "f_to_uint mx x = (case x of Fin q \<Rightarrow> min mx (nat \<lfloor>q\<rfloor>) | PosInf \<Rightarrow> mx | _ \<Rightarrow> 0)"

definition f_ceil :: "rfloat \<Rightarrow> rfloat" where
  "f_ceil x = (case x of Fin q \<Rightarrow> Fin (of_int \<lceil>q\<rceil>) | _ \<Rightarrow> x)"

subsection \<open>The order\<close>

lemma f_le_simps [simp]:
  "f_le (Fin a) (Fin b) \<longleftrightarrow> a \<le> b"
  "f_le x PosInf \<longleftrightarrow> x \<noteq> NaN" "f_le NegInf x \<longleftrightarrow> x \<noteq> NaN"
  "f_le PosInf x \<longleftrightarrow> x = PosInf" "f_le x NegInf \<longleftrightarrow> x = NegInf"
  "\<not> f_le NaN x" "\<not> f_le x NaN"
  by (cases x; auto simp: f_le_def)+

lemma f_le_refl: "x \<noteq> NaN \<Longrightarrow> f_le x x"
  by (simp add: f_le_def)

lemma f_le_trans: "f_le x y \<Longrightarrow> f_le y z \<Longrightarrow> f_le x z"
  by (cases x; cases y; cases z) auto

lemma f_le_antisym: "f_le x y \<Longrightarrow> f_le y x \<Longrightarrow> x = y"
  by (cases x; cases y) auto

lemma f_le_total: "x \<noteq> NaN \<Longrightarrow> y \<noteq> NaN \<Longrightarrow> f_le x y \<or> f_le y x"
  by (cases x; cases y) auto

lemma f_lt_not_le: "x \<noteq> NaN \<Longrightarrow> y \<noteq> NaN \<Longrightarrow> f_lt x y \<longleftrightarrow> \<not> f_le y x"
  by (cases x; cases y) auto

subsection \<open>Powers of two\<close>

lemma pow2_powi: "pow2 e = 2 powi e"
  by (simp add: pow2_def power_int_def inverse_eq_divide power_one_over)

lemma pow2_pos [simp]: "0 < pow2 e"
  by (simp add: pow2_powi)

lemma pow2_neq_0 [simp]: "pow2 e \<noteq> 0"
  using pow2_pos [of e] by linarith

lemma pow2_add: "pow2 (a + b) = pow2 a * pow2 b"
  by (simp add: pow2_powi power_int_add)

lemma pow2_mono: "a \<le> b \<Longrightarrow> pow2 a \<le> pow2 b"
  by (simp add: pow2_powi power_int_increasing)

lemma pow2_strict_mono: "a < b \<Longrightarrow> pow2 a < pow2 b"
  by (simp add: pow2_powi power_int_strict_increasing)

lemma pow2_less_iff: "pow2 a < pow2 b \<longleftrightarrow> a < b"
  by (meson linorder_not_le pow2_mono pow2_strict_mono)

lemma pow2_split: "a \<le> b \<Longrightarrow> pow2 b = of_int (2 ^ nat (b - a)) * pow2 a"
  using pow2_add [of "b - a" a] by (simp add: pow2_def)

lemma bitlen_bounds_rat:
  assumes "0 < n" shows "pow2 (bitlen n - 1) \<le> of_int n" "of_int n < pow2 (bitlen n)"
proof -
  have b: "2 ^ nat (bitlen n - 1) \<le> n" "n < 2 ^ nat (bitlen n)"
    using bitlen_bounds [of n] assms by auto
  have "1 \<le> bitlen n" using assms bitlen_nonneg [of n] bitlen_eq_zero_iff [of n] by linarith
  then show "pow2 (bitlen n - 1) \<le> of_int n" "of_int n < pow2 (bitlen n)"
    using b by (simp_all add: pow2_def flip: of_int_less_iff of_int_le_iff)
qed

lemma ilog2_bounds:
  assumes "0 < q" shows "pow2 (ilog2 q) \<le> q" "q < pow2 (ilog2 q + 1)"
proof -
  obtain n d where nd: "quotient_of q = (n, d)" by (cases "quotient_of q")
  have d: "0 < d" and q: "q = of_int n / of_int d"
    using nd by (auto simp: quotient_of_denom_pos quotient_of_div)
  have n: "0 < n" using assms d q by (simp add: zero_less_divide_iff)
  let ?e = "bitlen n - bitlen d"
  have up: "q < pow2 (?e + 1)"
  proof -
    have "q * pow2 (bitlen d - 1) \<le> q * of_int d"
      using bitlen_bounds_rat(1) [OF d] assms by simp
    also have "\<dots> = of_int n" using q d by simp
    also have "\<dots> < pow2 (?e + 1 + (bitlen d - 1))" using bitlen_bounds_rat(2) [OF n] by simp
    also have "\<dots> = pow2 (?e + 1) * pow2 (bitlen d - 1)" by (rule pow2_add)
    finally show ?thesis by simp
  qed
  have lo: "pow2 (?e - 1) \<le> q"
  proof -
    have "pow2 (?e - 1) * of_int d \<le> pow2 (?e - 1) * pow2 (bitlen d)"
      using bitlen_bounds_rat(2) [OF d] by simp
    also have "\<dots> = pow2 (bitlen n - 1)" by (simp flip: pow2_add)
    also have "\<dots> \<le> of_int n" using bitlen_bounds_rat(1) [OF n] .
    finally show ?thesis using d q by (simp add: pos_le_divide_eq)
  qed
  show "pow2 (ilog2 q) \<le> q" "q < pow2 (ilog2 q + 1)"
    using up lo by (auto simp: ilog2_def nd Let_def)
qed

lemma ilog2_mono: "0 < a \<Longrightarrow> a \<le> b \<Longrightarrow> ilog2 a \<le> ilog2 b"
  using ilog2_bounds [of a] ilog2_bounds [of b] pow2_less_iff [of "ilog2 a" "ilog2 b + 1"]
  by linarith

subsection \<open>Rounding\<close>

lemma round_half_even_of_int [simp]: "round_half_even (of_int n) = n"
  by (simp add: round_half_even_def)

lemma round_half_even_bounds: "\<lfloor>q\<rfloor> \<le> round_half_even q" "round_half_even q \<le> \<lfloor>q\<rfloor> + 1"
  by (simp_all add: round_half_even_def Let_def)

lemma round_half_even_mono:
  assumes "a \<le> b" shows "round_half_even a \<le> round_half_even b"
proof (cases "\<lfloor>a\<rfloor> = \<lfloor>b\<rfloor>")
  case True
  with assms show ?thesis by (simp add: round_half_even_def Let_def)
next
  case False
  with assms have "\<lfloor>a\<rfloor> + 1 \<le> \<lfloor>b\<rfloor>" using floor_mono [of a b] by linarith
  with round_half_even_bounds [of a] round_half_even_bounds [of b] show ?thesis by linarith
qed

lemma round_half_even_nonneg: "0 \<le> q \<Longrightarrow> 0 \<le> round_half_even q"
  using round_half_even_mono [of 0 q] by (simp add: round_half_even_def)

lemma round_mag_nonneg: "0 \<le> a \<Longrightarrow> 0 \<le> round_mag p emin a"
  by (simp add: round_mag_def Let_def round_half_even_nonneg less_imp_le)

lemma round_mag_at: "0 < a \<Longrightarrow>
  round_mag p emin a = of_int (round_half_even (a / pow2 (ulp_exp p emin a))) * pow2 (ulp_exp p emin a)"
  by (simp add: round_mag_def Let_def)

lemma round_mag_mono:
  assumes "0 \<le> a" "a \<le> b" shows "round_mag p emin a \<le> round_mag p emin b"
proof (cases "a = 0")
  case True
  with assms show ?thesis using round_mag_nonneg [of b] by (simp add: round_mag_def)
next
  case False
  with assms have a: "0 < a" and b: "0 < b" by auto
  let ?ua = "ulp_exp p emin a" and ?ub = "ulp_exp p emin b"
  have le: "?ua \<le> ?ub" using ilog2_mono [OF a assms(2)] by (simp add: ulp_exp_def)
  show ?thesis
  proof (cases "?ua = ?ub")
    case True
    have "round_half_even (a / pow2 ?ub) \<le> round_half_even (b / pow2 ?ub)"
      using assms by (intro round_half_even_mono divide_right_mono) (simp_all add: less_imp_le)
    then show ?thesis
      using a b True by (simp add: round_mag_at less_imp_le mult_right_mono)
  next
    case False
    let ?e = "ilog2 b"
    have e: "ilog2 a + 1 \<le> ?e" "?ub = ?e - int (p - 1)" "?ua \<le> ?e" "?ub \<le> ?e"
      using le False by (auto simp: ulp_exp_def max_def split: if_splits)
    have "a \<le> pow2 ?e" using ilog2_bounds(2) [OF a] pow2_mono [OF e(1)] by linarith
    then have "a / pow2 ?ua \<le> of_int (2 ^ nat (?e - ?ua))"
      using pow2_split [OF e(3)] by (simp add: pos_divide_le_eq)
    from round_half_even_mono [OF this] have "round_half_even (a / pow2 ?ua) \<le> 2 ^ nat (?e - ?ua)"
      by (metis round_half_even_of_int)
    then have "of_int (round_half_even (a / pow2 ?ua)) \<le> (of_int (2 ^ nat (?e - ?ua)) :: rat)"
      by (simp only: of_int_le_iff)
    then have "round_mag p emin a \<le> pow2 ?e"
      using a pow2_split [OF e(3)] by (simp add: round_mag_at less_imp_le mult_right_mono)
    moreover have "pow2 ?e \<le> round_mag p emin b"
    proof -
      have "of_int (2 ^ nat (?e - ?ub)) \<le> b / pow2 ?ub"
        using ilog2_bounds(1) [OF b] pow2_split [OF e(4)] by (simp add: pos_le_divide_eq)
      from round_half_even_mono [OF this] have "2 ^ nat (?e - ?ub) \<le> round_half_even (b / pow2 ?ub)"
        by (metis round_half_even_of_int)
      then have "(of_int (2 ^ nat (?e - ?ub)) :: rat) \<le> of_int (round_half_even (b / pow2 ?ub))"
        by (simp only: of_int_le_iff)
      then show ?thesis
        using b pow2_split [OF e(4)] by (simp add: round_mag_at less_imp_le mult_right_mono)
    qed
    ultimately show ?thesis by linarith
  qed
qed

text \<open>Rounding is monotone on floats: what ranks before rounding never ranks after.\<close>

lemma round_to_not_NaN [simp]: "round_to p emin emax q \<noteq> NaN"
  by (simp add: round_to_def Let_def)

lemma round_to_mono:
  assumes "a \<le> b" shows "f_le (round_to p emin emax a) (round_to p emin emax b)"
proof -
  have pos: "\<not> pow2 emax \<le> - round_mag p emin x" if "0 \<le> x" for x
    using round_mag_nonneg [OF that, of p emin] pow2_pos [of emax] by linarith
  consider "0 \<le> a" | "a < 0" "0 \<le> b" | "b < 0" using assms by linarith
  then show ?thesis
  proof cases
    case 1
    then show ?thesis using assms round_mag_mono [of a b p emin]
      by (auto simp: round_to_def Let_def)
  next
    case 2
    then show ?thesis using round_mag_nonneg [of "- a" p emin] round_mag_nonneg [of b p emin]
      by (auto simp: round_to_def Let_def)
  next
    case 3
    then show ?thesis using assms round_mag_mono [of "- b" "- a" p emin]
      by (auto simp: round_to_def Let_def)
  qed
qed

lemma round_to_nonneg: "0 \<le> q \<Longrightarrow> f_le (Fin 0) (round_to p emin emax q)"
  using round_mag_nonneg [of q] by (auto simp: round_to_def Let_def)

lemma is_finite_iff: "is_finite x \<longleftrightarrow> (\<exists>q. x = Fin q)"
  by (cases x) (auto simp: is_finite_def)

text \<open>
  What the ranking proofs use of a rounding function: it is monotone, never NaN, and
  keeps zero. Both formats the code uses satisfy it.
\<close>

locale rounding =
  fixes rnd :: "rat \<Rightarrow> rfloat"
  assumes rnd_mono: "a \<le> b \<Longrightarrow> f_le (rnd a) (rnd b)"
    and rnd_not_NaN: "rnd a \<noteq> NaN"
    and rnd_zero: "rnd 0 = Fin 0"
begin

lemma rnd_nonneg: "0 \<le> a \<Longrightarrow> f_le (Fin 0) (rnd a)"
  using rnd_mono [of 0 a] rnd_zero by simp

lemma add_mono_nonneg:
  assumes "f_le x x'" "f_le y y'" "f_le (Fin 0) x" "f_le (Fin 0) y"
  shows "f_le (f_add rnd x y) (f_add rnd x' y')"
proof -
  show ?thesis
    using assms rnd_not_NaN
    by (cases x; cases y; cases x'; cases y') (auto intro: rnd_mono)
qed

end

interpretation f32: rounding rnd32
  by unfold_locales
     (simp_all add: rnd32_def round_to_mono, simp add: round_to_def round_mag_def not_le)

interpretation f64: rounding rnd64
  by unfold_locales
     (simp_all add: rnd64_def round_to_mono, simp add: round_to_def round_mag_def not_le)

text \<open>Far from the overflow threshold only the magnitude has to be rounded.\<close>

lemma rnd64_small:
  assumes "0 \<le> q" "round_mag 53 (- 1074) q < 2 ^ 64"
  shows "rnd64 q = Fin (round_mag 53 (- 1074) q)"
proof -
  have "(2 :: rat) ^ 64 \<le> pow2 1024"
    using pow2_mono [of 64 1024] by (simp add: pow2_def)
  with assms(2) have "\<not> pow2 1024 \<le> round_mag 53 (- 1074) q" by simp
  with assms(1) show ?thesis by (simp add: rnd64_def round_to_def Let_def)
qed

end
