(* ===== verification/Rust_Str.thy ===== *)
theory Rust_Str
  imports Prelude
begin

text \<open>
  Rust's \<open>str\<close>: a list of Unicode scalar values, whose \<open>len()\<close> is the number of bytes of
  its UTF-8 encoding. The functions of the standard library that the code uses are defined
  on it: trimming, lines, splitting, searching, number parsing and printing. The Unicode
  property tables behind \<open>is_alphanumeric\<close>, \<open>to_lowercase\<close> and the regex class \<open>\d\<close> are a parameter, the record
  \<open>unicode\<close>, with an ASCII instance that the witnesses evaluate.
\<close>

type_synonym uchar = nat
type_synonym rstr = "nat list"

definition lit :: "string \<Rightarrow> rstr" where
  "lit s = map of_char s"

definition len_utf8 :: "uchar \<Rightarrow> nat" where
  "len_utf8 c = (if c < 128 then 1 else if c < 2048 then 2 else if c < 65536 then 3 else 4)"

definition str_len :: "rstr \<Rightarrow> nat" where
  "str_len s = sum_list (map len_utf8 s)"

definition encode_char :: "uchar \<Rightarrow> nat list" where
  "encode_char c =
     (if c < 128 then [c]
      else if c < 2048 then [192 + c div 64, 128 + c mod 64]
      else if c < 65536 then [224 + c div 4096, 128 + c div 64 mod 64, 128 + c mod 64]
      else [240 + c div 262144, 128 + c div 4096 mod 64, 128 + c div 64 mod 64, 128 + c mod 64])"

definition as_bytes :: "rstr \<Rightarrow> nat list" where
  "as_bytes s = concat (map encode_char s)"

text \<open>\<open>char_indices\<close>, and the slice \<open>get(..n)\<close> that is None inside a character.\<close>

primrec char_indices :: "nat \<Rightarrow> rstr \<Rightarrow> (nat \<times> uchar) list" where
  "char_indices off [] = []"
| "char_indices off (c # cs) = (off, c) # char_indices (off + len_utf8 c) cs"

primrec get_prefix :: "rstr \<Rightarrow> nat \<Rightarrow> rstr option" where
  "get_prefix [] n = (if n = 0 then Some [] else None)"
| "get_prefix (c # cs) n =
     (if n = 0 then Some []
      else if len_utf8 c \<le> n then map_option ((#) c) (get_prefix cs (n - len_utf8 c))
      else None)"

subsection \<open>Character classes\<close>

definition is_ascii_digit :: "uchar \<Rightarrow> bool" where
  "is_ascii_digit c \<longleftrightarrow> 48 \<le> c \<and> c \<le> 57"

text \<open>\<open>char::is_whitespace\<close> is Unicode's \<open>White_Space\<close>, which is this set.\<close>

definition is_whitespace :: "uchar \<Rightarrow> bool" where
  "is_whitespace c \<longleftrightarrow>
     9 \<le> c \<and> c \<le> 13 \<or> c = 32 \<or> c = 133 \<or> c = 160 \<or> c = 5760 \<or>
     8192 \<le> c \<and> c \<le> 8202 \<or> c = 8232 \<or> c = 8233 \<or> c = 8239 \<or> c = 8287 \<or> c = 12288"

record unicode =
  uc_alphanumeric :: "uchar \<Rightarrow> bool"
  uc_lowercase :: "rstr \<Rightarrow> rstr"
  uc_decimal :: "uchar \<Rightarrow> bool"
  uc_alphabetic :: "uchar \<Rightarrow> bool"
  uc_uppercase :: "rstr \<Rightarrow> rstr"

definition ascii_alphanumeric :: "uchar \<Rightarrow> bool" where
  "ascii_alphanumeric c \<longleftrightarrow> is_ascii_digit c \<or> 65 \<le> c \<and> c \<le> 90 \<or> 97 \<le> c \<and> c \<le> 122"

definition ascii_lower_char :: "uchar \<Rightarrow> uchar" where
  "ascii_lower_char c = (if 65 \<le> c \<and> c \<le> 90 then c + 32 else c)"

definition ascii_upper_char :: "uchar \<Rightarrow> uchar" where
  "ascii_upper_char c = (if 97 \<le> c \<and> c \<le> 122 then c - 32 else c)"

definition ascii_tables :: unicode where
  "ascii_tables = \<lparr>uc_alphanumeric = ascii_alphanumeric, uc_lowercase = map ascii_lower_char,
     uc_decimal = is_ascii_digit,
     uc_alphabetic = (\<lambda>c. ascii_alphanumeric c \<and> \<not> is_ascii_digit c),
     uc_uppercase = map ascii_upper_char\<rparr>"

subsection \<open>Trimming, splitting, searching\<close>

definition trim_start :: "rstr \<Rightarrow> rstr" where
  "trim_start s = dropWhile is_whitespace s"

definition trim_end :: "rstr \<Rightarrow> rstr" where
  "trim_end s = rev (dropWhile is_whitespace (rev s))"

definition trim :: "rstr \<Rightarrow> rstr" where
  "trim s = trim_end (trim_start s)"

primrec split_on :: "(uchar \<Rightarrow> bool) \<Rightarrow> rstr \<Rightarrow> rstr list" where
  "split_on P [] = [[]]"
| "split_on P (c # cs) =
     (if P c then [] # split_on P cs
      else (case split_on P cs of [] \<Rightarrow> [[c]] | l # ls \<Rightarrow> (c # l) # ls))"

definition split_whitespace :: "rstr \<Rightarrow> rstr list" where
  "split_whitespace s = filter (\<lambda>w. w \<noteq> []) (split_on is_whitespace s)"

text \<open>
  \<open>str::lines\<close>: pieces ended by a line feed, with one carriage return before it removed;
  a last piece with no line feed is kept as it is, unless empty.
\<close>

definition strip_cr :: "rstr \<Rightarrow> rstr" where
  "strip_cr l = (if l \<noteq> [] \<and> last l = 13 then butlast l else l)"

definition lines :: "rstr \<Rightarrow> rstr list" where
  "lines s = (let ls = split_on (\<lambda>c. c = 10) s in
     map strip_cr (butlast ls) @ (if last ls = [] then [] else [last ls]))"

primrec join :: "rstr \<Rightarrow> rstr list \<Rightarrow> rstr" where
  "join sep [] = []"
| "join sep (p # ps) = (case ps of [] \<Rightarrow> p | _ \<Rightarrow> p @ sep @ join sep ps)"

definition starts_with :: "rstr \<Rightarrow> rstr \<Rightarrow> bool" where
  "starts_with s p \<longleftrightarrow> take (length p) s = p"

definition strip_prefix :: "rstr \<Rightarrow> rstr \<Rightarrow> rstr option" where
  "strip_prefix p s = (if starts_with s p then Some (drop (length p) s) else None)"

primrec str_contains :: "rstr \<Rightarrow> rstr \<Rightarrow> bool" where
  "str_contains [] n = (n = [])"
| "str_contains (c # cs) n = (starts_with (c # cs) n \<or> str_contains cs n)"

subsection \<open>Numbers\<close>

fun show_nat :: "nat \<Rightarrow> rstr" where
  "show_nat n = (if n < 10 then [48 + n] else show_nat (n div 10) @ [48 + n mod 10])"

declare show_nat.simps [simp del]

definition show_int :: "int \<Rightarrow> rstr" where
  "show_int i = (if i < 0 then 45 # show_nat (nat (- i)) else show_nat (nat i))"

primrec digits_value :: "nat \<Rightarrow> rstr \<Rightarrow> nat option" where
  "digits_value acc [] = Some acc"
| "digits_value acc (c # cs) =
     (if is_ascii_digit c then digits_value (10 * acc + (c - 48)) cs else None)"

text \<open>\<open>str::parse\<close> of an unsigned integer whose largest value is \<open>mx\<close>.\<close>

definition parse_uint :: "nat \<Rightarrow> rstr \<Rightarrow> nat option" where
  "parse_uint mx s =
     (let ds = (case s of c # cs \<Rightarrow> if c = 43 then cs else s | [] \<Rightarrow> s) in
      if ds = [] then None
      else (case digits_value 0 ds of
              None \<Rightarrow> None | Some v \<Rightarrow> if v \<le> mx then Some v else None))"

subsection \<open>Laws\<close>

lemma str_len_Nil [simp]: "str_len [] = 0"
  and str_len_Cons [simp]: "str_len (c # cs) = len_utf8 c + str_len cs"
  and str_len_append [simp]: "str_len (s @ t) = str_len s + str_len t"
  by (simp_all add: str_len_def)

lemma len_utf8_pos [simp]: "0 < len_utf8 c"
  by (simp add: len_utf8_def)

lemma len_utf8_bounds: "1 \<le> len_utf8 c" "len_utf8 c \<le> 4"
  by (simp_all add: len_utf8_def)

lemma length_encode_char: "length (encode_char c) = len_utf8 c"
  by (simp add: encode_char_def len_utf8_def)

lemma length_as_bytes: "length (as_bytes s) = str_len s"
  by (induction s) (simp_all add: as_bytes_def length_encode_char)

lemma length_le_str_len: "length s \<le> str_len s"
  by (induction s) (auto simp: len_utf8_def)

lemma str_len_eq_0 [simp]: "str_len s = 0 \<longleftrightarrow> s = []"
  using length_le_str_len [of s] by auto

lemma str_len_ascii: "\<forall>c \<in> set s. c < 128 \<Longrightarrow> str_len s = length s"
  by (induction s) (auto simp: len_utf8_def)

lemma get_prefix_Some: "get_prefix s n = Some p \<Longrightarrow> \<exists>r. s = p @ r \<and> str_len p = n"
  by (induction s arbitrary: n p) (fastforce split: if_splits)+

lemma get_prefix_append [simp]: "get_prefix (p @ r) (str_len p) = Some p"
proof (induction p)
  case Nil
  then show ?case by (cases r) auto
qed auto

lemma split_on_neq_Nil [simp]: "split_on P s \<noteq> []"
  by (cases s) (auto split: list.splits)

lemma split_on_no_sep: "l \<in> set (split_on P s) \<Longrightarrow> c \<in> set l \<Longrightarrow> \<not> P c"
  by (induction s arbitrary: l) (fastforce split: if_splits list.splits)+

lemma split_on_trivial: "\<forall>c \<in> set s. \<not> P c \<Longrightarrow> split_on P s = [s]"
  by (induction s) auto

lemma split_on_subset: "l \<in> set (split_on P s) \<Longrightarrow> set l \<subseteq> set s"
  by (induction s arbitrary: l) (fastforce split: if_splits list.splits)+

lemma split_on_append_sep:
  "\<forall>c \<in> set l. \<not> P c \<Longrightarrow> P x \<Longrightarrow> split_on P (l @ x # s) = l # split_on P s"
  by (induction l) auto

lemma dropWhile_rev_idem: "dropWhile P (rev (dropWhile P (rev s))) = rev (dropWhile P (rev (dropWhile P s)))"
proof (induction s)
  case (Cons c s)
  show ?case
  proof (cases "P c")
    case True
    have "dropWhile P (rev (dropWhile P (rev s @ [c]))) = dropWhile P (rev (dropWhile P (rev s)))"
    proof (cases "\<forall>x \<in> set s. P x")
      case True
      then have "dropWhile P (rev s) = []" "dropWhile P (rev s @ [c]) = []"
        using \<open>P c\<close> by (simp_all add: dropWhile_eq_Nil_conv)
      then show ?thesis by (simp only:)
    next
      case False
      then have "dropWhile P (rev s @ [c]) = dropWhile P (rev s) @ [c]"
        by (auto simp: dropWhile_append1)
      then show ?thesis using \<open>P c\<close> by simp
    qed
    with True Cons show ?thesis by simp
  next
    case False
    then have "dropWhile P (rev s @ [c]) = dropWhile P (rev s) @ [c]"
      by (metis dropWhile_append dropWhile.simps(1,2) dropWhile_eq_Nil_conv append_Nil)
    with False show ?thesis by simp
  qed
qed simp

lemma dropWhile_id_iff: "dropWhile P s = s \<longleftrightarrow> s = [] \<or> \<not> P (hd s)"
  by (cases s) (auto, metis length_dropWhile_le length_Cons not_less_eq_eq order_refl)

lemma dropWhile_idem [simp]: "dropWhile P (dropWhile P s) = dropWhile P s"
  by (simp add: dropWhile_idem)

lemma trim_commute: "trim s = trim_start (trim_end s)"
  by (simp add: trim_def trim_start_def trim_end_def dropWhile_rev_idem)

lemma trim_idem [simp]: "trim (trim s) = trim s"
  by (metis trim_def trim_commute trim_start_def trim_end_def dropWhile_idem rev_rev_ident)

lemma set_trim: "set (trim s) \<subseteq> set s"
  unfolding trim_def trim_end_def trim_start_def
  by (auto dest!: set_dropWhileD)

lemma trim_eq_Nil_iff: "trim s = [] \<longleftrightarrow> (\<forall>c \<in> set s. is_whitespace c)"
proof
  assume "trim s = []"
  then have "\<forall>c \<in> set (dropWhile is_whitespace s). is_whitespace c"
    by (simp add: trim_def trim_end_def trim_start_def dropWhile_eq_Nil_conv)
  then show "\<forall>c \<in> set s. is_whitespace c"
    by (metis dropWhile_eq_Nil_conv hd_dropWhile list.set_sel(1))
next
  assume "\<forall>c \<in> set s. is_whitespace c"
  then show "trim s = []"
    by (auto simp: trim_def trim_end_def trim_start_def dropWhile_eq_Nil_conv dest: set_dropWhileD)
qed

lemma str_len_trim_le: "str_len (trim s) \<le> str_len s"
proof -
  have suf: "str_len (dropWhile P t) \<le> str_len t" for P t by (induction t) auto
  have rv: "str_len (rev t) = str_len t" for t by (induction t) auto
  show ?thesis unfolding trim_def trim_end_def trim_start_def
    by (metis suf rv le_trans)
qed

lemma starts_with_iff: "starts_with s p \<longleftrightarrow> (\<exists>r. s = p @ r)"
  unfolding starts_with_def by (metis append_eq_conv_conj append_take_drop_id)

lemma str_contains_iff: "str_contains s n \<longleftrightarrow> (\<exists>a b. s = a @ n @ b)"
proof (induction s)
  case Nil
  then show ?case by auto
next
  case (Cons c cs)
  have "(\<exists>a b. c # cs = a @ n @ b) \<longleftrightarrow> (\<exists>b. c # cs = n @ b) \<or> (\<exists>a b. cs = a @ n @ b)"
    by (metis append_Nil append_Cons list.exhaust list.inject)
  with Cons show ?case by (simp add: starts_with_iff)
qed

lemma digits_value_append:
  "digits_value a (s @ t) = (case digits_value a s of None \<Rightarrow> None | Some v \<Rightarrow> digits_value v t)"
  by (induction s arbitrary: a) auto

lemma show_nat_neq_Nil [simp]: "show_nat n \<noteq> []"
  by (subst show_nat.simps) simp

lemma show_nat_digits: "c \<in> set (show_nat n) \<Longrightarrow> is_ascii_digit c"
proof (induction n rule: show_nat.induct)
  case (1 n)
  then show ?case
    by (subst (asm) (2) show_nat.simps) (auto simp: is_ascii_digit_def split: if_splits)
qed

lemma digits_value_show_nat: "digits_value 0 (show_nat n) = Some n"
proof (induction n rule: show_nat.induct)
  case (1 n)
  then show ?case
    by (subst show_nat.simps) (auto simp: digits_value_append is_ascii_digit_def)
qed

text \<open>Printing and parsing a number are inverse, as far as the type reaches.\<close>

lemma parse_show_nat: "n \<le> mx \<Longrightarrow> parse_uint mx (show_nat n) = Some n"
proof -
  assume "n \<le> mx"
  have "\<forall>c \<in> set (show_nat n). c \<noteq> 43"
    using show_nat_digits [of _ n] by (fastforce simp: is_ascii_digit_def)
  with \<open>n \<le> mx\<close> show ?thesis
    by (cases "show_nat n") (use digits_value_show_nat [of n] in \<open>auto simp: parse_uint_def\<close>)
qed

end
