(* ===== verification/Errors.thy ===== *)
theory Errors
  imports Rust_Str
begin

text \<open>
  \<open>error.rs\<close>: the domain errors with their messages, the application error, and the RFC 7807
  problem each becomes. The lemmas show that the HTTP status, the problem type and the
  retry hint always belong together, and which failures have their detail masked.
\<close>

subsection \<open>Problem details\<close>

text \<open>The database layer's error, as its printed text.\<close>

type_synonym db_err = rstr

record problem_details =
  pd_type :: rstr
  pd_title :: rstr
  pd_status :: nat
  pd_detail :: rstr
  pd_instance :: "rstr option"
  pd_retry_after :: "nat option"

definition error_type :: "rstr \<Rightarrow> rstr" where
  "error_type slug = lit ''https://openbooklm.dev/errors/'' @ slug"

definition new_problem :: "nat \<Rightarrow> rstr \<Rightarrow> rstr \<Rightarrow> rstr \<Rightarrow> problem_details" where
  "new_problem status ty title detail =
     \<lparr>pd_type = ty, pd_title = title, pd_status = status, pd_detail = detail,
      pd_instance = None, pd_retry_after = None\<rparr>"

definition with_retry :: "problem_details \<Rightarrow> nat \<Rightarrow> problem_details" where
  "with_retry p seconds = p\<lparr>pd_retry_after := Some seconds\<rparr>"

datatype problem_class =
  ValidationP | UnauthorizedP | ForbiddenP | NotFoundP | InternalP | ProviderP
| ServiceUnavailableP | TimeoutP | LimitReachedP

fun class_row :: "problem_class \<Rightarrow> nat \<times> rstr \<times> rstr" where
  "class_row ValidationP = (400, error_type (lit ''validation-error''), lit ''Validation Error'')"
| "class_row UnauthorizedP = (401, error_type (lit ''unauthorized''), lit ''Unauthorized'')"
| "class_row ForbiddenP = (403, error_type (lit ''forbidden''), lit ''Forbidden'')"
| "class_row NotFoundP = (404, error_type (lit ''not-found''), lit ''Not Found'')"
| "class_row InternalP = (500, error_type (lit ''internal-error''), lit ''Internal Server Error'')"
| "class_row ProviderP = (502, error_type (lit ''provider-error''), lit ''Provider Error'')"
| "class_row ServiceUnavailableP =
     (503, error_type (lit ''service-unavailable''), lit ''Service Unavailable'')"
| "class_row TimeoutP = (504, error_type (lit ''timeout''), lit ''Request Timeout'')"
| "class_row LimitReachedP = (403, error_type (lit ''limit-reached''), lit ''Limit Reached'')"

text \<open>The generated constructors return the status beside the problem.\<close>

type_synonym response_parts = "nat \<times> problem_details"

definition problem :: "problem_class \<Rightarrow> rstr \<Rightarrow> response_parts" where
  "problem c detail =
     (let (status, ty, title) = class_row c in (status, new_problem status ty title detail))"

definition rate_limited :: "rstr \<Rightarrow> nat \<Rightarrow> response_parts" where
  "rate_limited detail retry =
     (429, with_retry (new_problem 429 (error_type (lit ''rate-limited''))
        (lit ''Rate Limit Exceeded'') detail) retry)"

definition payload_too_large :: "rstr \<Rightarrow> problem_details" where
  "payload_too_large detail =
     new_problem 413 (error_type (lit ''payload-too-large'')) (lit ''Payload Too Large'') detail"

definition request_timeout :: "rstr \<Rightarrow> problem_details" where
  "request_timeout detail =
     new_problem 408 (error_type (lit ''timeout'')) (lit ''Request Timeout'') detail"

definition internal_error :: "rstr \<Rightarrow> problem_details" where
  "internal_error detail =
     new_problem 500 (error_type (lit ''internal-error'')) (lit ''Internal Server Error'') detail"

subsection \<open>Domain errors\<close>

datatype notebook_error =
  NotebookNotFound rstr
| NotebookAccessDenied rstr
| NotebookLimitReached int
| NotebookCreateFailed rstr
| NotebookUpdateFailed rstr rstr
| NotebookDeleteFailed rstr rstr
| NotebookDatabase db_err

fun notebook_error_text :: "notebook_error \<Rightarrow> rstr" where
  "notebook_error_text (NotebookNotFound i) = lit ''Notebook not found (id='' @ i @ lit '')''"
| "notebook_error_text (NotebookAccessDenied i) =
     lit ''Notebook access denied (id='' @ i @ lit '')''"
| "notebook_error_text (NotebookLimitReached lim) =
     lit ''Notebook limit reached: maximum '' @ show_int lim @
     lit '' notebooks allowed for your plan''"
| "notebook_error_text (NotebookCreateFailed reason) = lit ''Notebook creation failed: '' @ reason"
| "notebook_error_text (NotebookUpdateFailed i reason) =
     lit ''Notebook update failed: '' @ reason @ lit '' (id='' @ i @ lit '')''"
| "notebook_error_text (NotebookDeleteFailed i reason) =
     lit ''Notebook deletion failed: '' @ reason @ lit '' (id='' @ i @ lit '')''"
| "notebook_error_text (NotebookDatabase _) = lit ''Notebook database error''"

datatype source_error =
  SourceNotFound rstr
| SourceAccessDenied rstr
| SourceLimitReached int
| SourceInvalidType rstr
| SourceProcessingFailed rstr
| SourcePdfExtractionFailed rstr
| SourceWebFetchFailed rstr rstr
| SourceEmptyContent
| SourceContentTooLarge nat nat
| SourceDatabase db_err

fun source_error_text :: "source_error \<Rightarrow> rstr" where
  "source_error_text (SourceNotFound i) = lit ''Source not found (id='' @ i @ lit '')''"
| "source_error_text (SourceAccessDenied i) = lit ''Source access denied (id='' @ i @ lit '')''"
| "source_error_text (SourceLimitReached lim) =
     lit ''Source limit reached: maximum '' @ show_int lim @ lit '' sources per notebook''"
| "source_error_text (SourceInvalidType source_type) = lit ''Source invalid type: '' @ source_type"
| "source_error_text (SourceProcessingFailed reason) = lit ''Source processing failed: '' @ reason"
| "source_error_text (SourcePdfExtractionFailed reason) = lit ''PDF extraction failed: '' @ reason"
| "source_error_text (SourceWebFetchFailed url reason) =
     lit ''Web fetch failed for '' @ url @ lit '': '' @ reason"
| "source_error_text SourceEmptyContent = lit ''Source content is empty''"
| "source_error_text (SourceContentTooLarge sz max_size) =
     lit ''Source content too large: '' @ show_nat sz @ lit '' bytes (max: '' @ show_nat max_size @
     lit '')''"
| "source_error_text (SourceDatabase _) = lit ''Source database error''"

datatype rag_error =
  RagInvalidChunkConfig nat nat
| RagChunkingFailed rstr
| RagEmbeddingFailed rstr
| RagEmbeddingTimeout nat
| RagEmbeddingRateLimited rstr nat
| RagEmbeddingFingerprintMismatch rstr rstr int
| RagVectorStoreFailed rstr rstr
| RagNoChunksFound rstr
| RagEmptyQuery
| RagQueryTooLong nat nat
| RagDatabase db_err

fun rag_error_text :: "rag_error \<Rightarrow> rstr" where
  "rag_error_text (RagInvalidChunkConfig chunk_size overlap) =
     lit ''RAG invalid chunk config: size='' @ show_nat chunk_size @ lit '', overlap='' @
     show_nat overlap"
| "rag_error_text (RagChunkingFailed reason) = lit ''RAG chunking failed: '' @ reason"
| "rag_error_text (RagEmbeddingFailed reason) = lit ''RAG embedding failed: '' @ reason"
| "rag_error_text (RagEmbeddingTimeout timeout_secs) =
     lit ''RAG embedding timed out after '' @ show_nat timeout_secs @ lit ''s''"
| "rag_error_text (RagEmbeddingRateLimited reason _) = lit ''Embedding rate limited: '' @ reason"
| "rag_error_text (RagEmbeddingFingerprintMismatch notebook_id expected_fingerprint mismatched_sources) =
     lit ''RAG active index fingerprint mismatch: '' @ show_int mismatched_sources @
     lit '' source(s) in notebook '' @ notebook_id @ lit '' are incompatible with '' @
     expected_fingerprint"
| "rag_error_text (RagVectorStoreFailed source_id reason) =
     lit ''Vector store operation failed: '' @ reason @ lit '' (source_id='' @ source_id @
     lit '')''"
| "rag_error_text (RagNoChunksFound source_id) =
     lit ''No chunks found (source_id='' @ source_id @ lit '')''"
| "rag_error_text RagEmptyQuery = lit ''RAG query is empty''"
| "rag_error_text (RagQueryTooLong len max_length) =
     lit ''RAG query too long: '' @ show_nat len @ lit '' chars (max: '' @ show_nat max_length @
     lit '')''"
| "rag_error_text (RagDatabase _) = lit ''RAG database error''"

datatype llm_error =
  LlmProviderNotConfigured rstr
| LlmApiKeyMissing rstr
| LlmRequestFailed rstr rstr
| LlmResponseParseFailed rstr rstr
| LlmRateLimited rstr nat
| LlmTimeout rstr nat
| LlmStreamError rstr rstr
| LlmInvalidModel rstr
| LlmCitationExtractionFailed rstr

fun llm_error_text :: "llm_error \<Rightarrow> rstr" where
  "llm_error_text (LlmProviderNotConfigured prov) = lit ''LLM provider not configured: '' @ prov"
| "llm_error_text (LlmApiKeyMissing prov) =
     lit ''LLM API key missing (provider='' @ prov @ lit '')''"
| "llm_error_text (LlmRequestFailed prov reason) =
     lit ''LLM request failed for '' @ prov @ lit '': '' @ reason"
| "llm_error_text (LlmResponseParseFailed prov reason) =
     lit ''LLM response parse failed for '' @ prov @ lit '': '' @ reason"
| "llm_error_text (LlmRateLimited prov retry_after) =
     lit ''LLM rate limited for '' @ prov @ lit '', retry after '' @ show_nat retry_after @
     lit ''s''"
| "llm_error_text (LlmTimeout prov timeout_secs) =
     lit ''LLM request timed out for '' @ prov @ lit '' after '' @ show_nat timeout_secs @
     lit ''s''"
| "llm_error_text (LlmStreamError prov reason) =
     lit ''LLM stream error for '' @ prov @ lit '': '' @ reason"
| "llm_error_text (LlmInvalidModel model) = lit ''LLM invalid model: '' @ model"
| "llm_error_text (LlmCitationExtractionFailed reason) =
     lit ''LLM citation extraction failed: '' @ reason"

datatype billing_error =
  BillingSubscriptionNotFound rstr
| BillingInvalidPlan rstr
| BillingCustomerCreationFailed rstr rstr
| BillingCheckoutFailed rstr rstr
| BillingPortalFailed rstr rstr
| BillingWebhookVerificationFailed rstr
| BillingWebhookProcessingFailed rstr rstr
| BillingInvalidCustomerId rstr
| BillingLimitExceeded rstr int int
| BillingDatabase db_err

fun billing_error_text :: "billing_error \<Rightarrow> rstr" where
  "billing_error_text (BillingSubscriptionNotFound user_id) =
     lit ''Subscription not found (user_id='' @ user_id @ lit '')''"
| "billing_error_text (BillingInvalidPlan plan) = lit ''Billing invalid plan: '' @ plan"
| "billing_error_text (BillingCustomerCreationFailed user_id reason) =
     lit ''Stripe customer creation failed: '' @ reason @ lit '' (user_id='' @ user_id @ lit '')''"
| "billing_error_text (BillingCheckoutFailed user_id reason) =
     lit ''Stripe checkout failed: '' @ reason @ lit '' (user_id='' @ user_id @ lit '')''"
| "billing_error_text (BillingPortalFailed user_id reason) =
     lit ''Stripe portal creation failed: '' @ reason @ lit '' (user_id='' @ user_id @ lit '')''"
| "billing_error_text (BillingWebhookVerificationFailed reason) =
     lit ''Stripe webhook verification failed: '' @ reason"
| "billing_error_text (BillingWebhookProcessingFailed event_type reason) =
     lit ''Stripe webhook processing failed: '' @ reason @ lit '' (event_type='' @ event_type @
     lit '')''"
| "billing_error_text (BillingInvalidCustomerId customer_id) =
     lit ''Billing invalid customer ID: '' @ customer_id"
| "billing_error_text (BillingLimitExceeded resource lim current) =
     lit ''Billing limit exceeded: '' @ resource @ lit '' (limit='' @ show_int lim @
     lit '', current='' @ show_int current @ lit '')''"
| "billing_error_text (BillingDatabase _) = lit ''Billing database error''"

datatype chat_error =
  ChatEmptyMessage
| ChatMessageTooLong nat nat
| ChatDailyLimitExceeded int
| ChatSaveFailed rstr rstr
| ChatHistoryRetrievalFailed rstr rstr
| ChatCitationsSerializationFailed rstr rstr
| ChatDatabase db_err

fun chat_error_text :: "chat_error \<Rightarrow> rstr" where
  "chat_error_text ChatEmptyMessage = lit ''Chat message is empty''"
| "chat_error_text (ChatMessageTooLong len max_length) =
     lit ''Chat message too long: '' @ show_nat len @ lit '' chars (max='' @
     show_nat max_length @ lit '')''"
| "chat_error_text (ChatDailyLimitExceeded lim) =
     lit ''Chat daily limit exceeded: '' @ show_int lim @ lit '' messages''"
| "chat_error_text (ChatSaveFailed notebook_id reason) =
     lit ''Chat message save failed: '' @ reason @ lit '' (notebook_id='' @ notebook_id @
     lit '')''"
| "chat_error_text (ChatHistoryRetrievalFailed notebook_id reason) =
     lit ''Chat history retrieval failed: '' @ reason @ lit '' (notebook_id='' @ notebook_id @
     lit '')''"
| "chat_error_text (ChatCitationsSerializationFailed notebook_id reason) =
     lit ''Chat citations serialization failed: '' @ reason @ lit '' (notebook_id='' @
     notebook_id @ lit '')''"
| "chat_error_text (ChatDatabase _) = lit ''Chat database error''"

datatype auth_error =
  AuthMissingAuthHeader
| AuthInvalidAuthHeader
| AuthInvalidToken rstr
| AuthTokenExpired
| AuthJwksFetchFailed rstr
| AuthUserNotFound rstr

fun auth_error_text :: "auth_error \<Rightarrow> rstr" where
  "auth_error_text AuthMissingAuthHeader = lit ''Auth missing authorization header''"
| "auth_error_text AuthInvalidAuthHeader = lit ''Auth invalid header format''"
| "auth_error_text (AuthInvalidToken reason) = lit ''Auth invalid JWT token: '' @ reason"
| "auth_error_text AuthTokenExpired = lit ''Auth token expired''"
| "auth_error_text (AuthJwksFetchFailed reason) = lit ''Auth JWKS fetch failed: '' @ reason"
| "auth_error_text (AuthUserNotFound clerk_id) =
     lit ''Auth user not found (clerk_id='' @ clerk_id @ lit '')''"

datatype settings_error =
  SettingsNotFound rstr
| SettingsInvalidProvider rstr
| SettingsDatabase db_err

fun settings_error_text :: "settings_error \<Rightarrow> rstr" where
  "settings_error_text (SettingsNotFound user_id) =
     lit ''Settings not found (user_id='' @ user_id @ lit '')''"
| "settings_error_text (SettingsInvalidProvider prov) =
     lit ''Settings invalid provider: '' @ prov @ lit ''. Valid: mistral, anthropic, openai''"
| "settings_error_text (SettingsDatabase _) = lit ''Settings database error''"

datatype note_error =
  NoteNotFound rstr
| NoteForbidden rstr
| NoteDatabase db_err

fun note_error_text :: "note_error \<Rightarrow> rstr" where
  "note_error_text (NoteNotFound i) = lit ''Note not found (id='' @ i @ lit '')''"
| "note_error_text (NoteForbidden i) = lit ''Note access denied (id='' @ i @ lit '')''"
| "note_error_text (NoteDatabase _) = lit ''Note database error''"

datatype memory_error =
  MemoryNotFound rstr
| MemoryForbidden rstr
| MemoryDatabase db_err

fun memory_error_text :: "memory_error \<Rightarrow> rstr" where
  "memory_error_text (MemoryNotFound i) = lit ''Memory not found (id='' @ i @ lit '')''"
| "memory_error_text (MemoryForbidden i) = lit ''Memory access denied (id='' @ i @ lit '')''"
| "memory_error_text (MemoryDatabase _) = lit ''Memory database error''"

subsection \<open>The application error\<close>

datatype app_error =
  Validation rstr
| Unauthorized rstr
| Forbidden rstr
| NotFound rstr
| RateLimited rstr nat
| ProviderError rstr
| ServiceUnavailable rstr
| Internal rstr
| Database db_err
| Notebook notebook_error
| Source source_error
| Rag rag_error
| Llm llm_error
| Billing billing_error
| Chat chat_error
| Auth auth_error
| Settings settings_error
| Note note_error
| Memory memory_error

fun app_error_text :: "app_error \<Rightarrow> rstr" where
  "app_error_text (Validation d) = lit ''Validation error: '' @ d"
| "app_error_text (Unauthorized d) = lit ''Unauthorized: '' @ d"
| "app_error_text (Forbidden d) = lit ''Forbidden: '' @ d"
| "app_error_text (NotFound d) = lit ''Not found: '' @ d"
| "app_error_text (RateLimited d _) = lit ''Rate limited: '' @ d"
| "app_error_text (ProviderError d) = lit ''Provider error: '' @ d"
| "app_error_text (ServiceUnavailable d) = lit ''Service unavailable: '' @ d"
| "app_error_text (Internal d) = lit ''Internal error: '' @ d"
| "app_error_text (Database e) = lit ''Database error: '' @ e"
| "app_error_text (Notebook e) = notebook_error_text e"
| "app_error_text (Source e) = source_error_text e"
| "app_error_text (Rag e) = rag_error_text e"
| "app_error_text (Llm e) = llm_error_text e"
| "app_error_text (Billing e) = billing_error_text e"
| "app_error_text (Chat e) = chat_error_text e"
| "app_error_text (Auth e) = auth_error_text e"
| "app_error_text (Settings e) = settings_error_text e"
| "app_error_text (Note e) = note_error_text e"
| "app_error_text (Memory e) = memory_error_text e"

subsection \<open>Responses\<close>

definition notebook_parts :: "notebook_error \<Rightarrow> response_parts" where
  "notebook_parts e = (case e of
     NotebookNotFound _ \<Rightarrow> problem NotFoundP (notebook_error_text e)
   | NotebookAccessDenied _ \<Rightarrow> problem ForbiddenP (notebook_error_text e)
   | NotebookLimitReached _ \<Rightarrow> problem LimitReachedP (notebook_error_text e)
   | _ \<Rightarrow> problem InternalP (notebook_error_text e))"

definition source_parts :: "source_error \<Rightarrow> response_parts" where
  "source_parts e = (case e of
     SourceNotFound _ \<Rightarrow> problem NotFoundP (source_error_text e)
   | SourceAccessDenied _ \<Rightarrow> problem ForbiddenP (source_error_text e)
   | SourceLimitReached _ \<Rightarrow> problem LimitReachedP (source_error_text e)
   | SourceInvalidType _ \<Rightarrow> problem ValidationP (source_error_text e)
   | SourceEmptyContent \<Rightarrow> problem ValidationP (source_error_text e)
   | SourceContentTooLarge _ _ \<Rightarrow> problem ValidationP (source_error_text e)
   | SourceWebFetchFailed _ _ \<Rightarrow> problem ProviderP (source_error_text e)
   | _ \<Rightarrow> problem InternalP (source_error_text e))"

definition rag_parts :: "rag_error \<Rightarrow> response_parts" where
  "rag_parts e = (case e of
     RagEmptyQuery \<Rightarrow> problem ValidationP (rag_error_text e)
   | RagQueryTooLong _ _ \<Rightarrow> problem ValidationP (rag_error_text e)
   | RagInvalidChunkConfig _ _ \<Rightarrow> problem ValidationP (rag_error_text e)
   | RagNoChunksFound _ \<Rightarrow> problem NotFoundP (rag_error_text e)
   | RagEmbeddingTimeout _ \<Rightarrow> problem TimeoutP (rag_error_text e)
   | RagEmbeddingRateLimited _ wait_secs \<Rightarrow> rate_limited (rag_error_text e) wait_secs
   | _ \<Rightarrow> problem InternalP (rag_error_text e))"

definition llm_parts :: "llm_error \<Rightarrow> response_parts" where
  "llm_parts e = (case e of
     LlmRateLimited _ retry \<Rightarrow> rate_limited (llm_error_text e) retry
   | LlmInvalidModel _ \<Rightarrow> problem ValidationP (llm_error_text e)
   | LlmProviderNotConfigured _ \<Rightarrow> problem ServiceUnavailableP (llm_error_text e)
   | LlmApiKeyMissing _ \<Rightarrow> problem ServiceUnavailableP (llm_error_text e)
   | LlmTimeout _ _ \<Rightarrow> problem TimeoutP (llm_error_text e)
   | _ \<Rightarrow> problem ProviderP (llm_error_text e))"

definition billing_parts :: "billing_error \<Rightarrow> response_parts" where
  "billing_parts e = (case e of
     BillingSubscriptionNotFound _ \<Rightarrow> problem NotFoundP (billing_error_text e)
   | BillingInvalidPlan _ \<Rightarrow> problem ValidationP (billing_error_text e)
   | BillingInvalidCustomerId _ \<Rightarrow> problem ValidationP (billing_error_text e)
   | BillingLimitExceeded _ _ _ \<Rightarrow> problem LimitReachedP (billing_error_text e)
   | BillingWebhookVerificationFailed _ \<Rightarrow> problem UnauthorizedP (billing_error_text e)
   | _ \<Rightarrow> problem ProviderP (billing_error_text e))"

text \<open>
  Time is UTC nanoseconds since the epoch, so midnight is a multiple of the day; the
  difference is cut to whole seconds, then raised to at least one.
\<close>

definition nanos_per_day :: nat where "nanos_per_day = 86400 * 10 ^ 9"

definition seconds_until_midnight :: "nat \<Rightarrow> nat" where
  "seconds_until_midnight now =
     max 1 (((now + nanos_per_day) div nanos_per_day * nanos_per_day - now) div 10 ^ 9)"

definition chat_parts :: "nat \<Rightarrow> chat_error \<Rightarrow> response_parts" where
  "chat_parts now e = (case e of
     ChatEmptyMessage \<Rightarrow> problem ValidationP (chat_error_text e)
   | ChatMessageTooLong _ _ \<Rightarrow> problem ValidationP (chat_error_text e)
   | ChatDailyLimitExceeded _ \<Rightarrow> rate_limited (chat_error_text e) (seconds_until_midnight now)
   | _ \<Rightarrow> problem InternalP (chat_error_text e))"

definition auth_parts :: "auth_error \<Rightarrow> response_parts" where
  "auth_parts e = (case e of
     AuthUserNotFound _ \<Rightarrow> problem NotFoundP (auth_error_text e)
   | AuthJwksFetchFailed _ \<Rightarrow> problem ServiceUnavailableP (auth_error_text e)
   | _ \<Rightarrow> problem UnauthorizedP (auth_error_text e))"

definition settings_parts :: "settings_error \<Rightarrow> response_parts" where
  "settings_parts e = (case e of
     SettingsNotFound _ \<Rightarrow> problem NotFoundP (settings_error_text e)
   | SettingsInvalidProvider _ \<Rightarrow> problem ValidationP (settings_error_text e)
   | SettingsDatabase _ \<Rightarrow> problem InternalP (settings_error_text e))"

definition note_parts :: "note_error \<Rightarrow> response_parts" where
  "note_parts e = (case e of
     NoteNotFound _ \<Rightarrow> problem NotFoundP (note_error_text e)
   | NoteForbidden _ \<Rightarrow> problem ForbiddenP (note_error_text e)
   | NoteDatabase _ \<Rightarrow> problem InternalP (note_error_text e))"

definition memory_parts :: "memory_error \<Rightarrow> response_parts" where
  "memory_parts e = (case e of
     MemoryNotFound _ \<Rightarrow> problem NotFoundP (memory_error_text e)
   | MemoryForbidden _ \<Rightarrow> problem ForbiddenP (memory_error_text e)
   | MemoryDatabase _ \<Rightarrow> problem InternalP (memory_error_text e))"

definition masked_detail :: rstr where
  "masked_detail = lit ''An internal error occurred. Please try again later.''"

fun into_response :: "nat \<Rightarrow> app_error \<Rightarrow> response_parts" where
  "into_response now (Validation d) = problem ValidationP d"
| "into_response now (Unauthorized d) = problem UnauthorizedP d"
| "into_response now (Forbidden d) = problem ForbiddenP d"
| "into_response now (NotFound d) = problem NotFoundP d"
| "into_response now (RateLimited d retry) = rate_limited d retry"
| "into_response now (ProviderError d) = problem ProviderP d"
| "into_response now (ServiceUnavailable d) = problem ServiceUnavailableP d"
| "into_response now (Internal _) = problem InternalP masked_detail"
| "into_response now (Database _) = problem InternalP masked_detail"
| "into_response now (Notebook e) = notebook_parts e"
| "into_response now (Source e) = source_parts e"
| "into_response now (Rag e) = rag_parts e"
| "into_response now (Llm e) = llm_parts e"
| "into_response now (Billing e) = billing_parts e"
| "into_response now (Chat e) = chat_parts now e"
| "into_response now (Auth e) = auth_parts e"
| "into_response now (Settings e) = settings_parts e"
| "into_response now (Note e) = note_parts e"
| "into_response now (Memory e) = memory_parts e"

subsection \<open>What every response keeps\<close>

definition well_formed_response :: "response_parts \<Rightarrow> bool" where
  "well_formed_response r \<longleftrightarrow>
     pd_status (snd r) = fst r \<and> 400 \<le> fst r \<and> fst r < 600 \<and> pd_instance (snd r) = None \<and>
     (pd_retry_after (snd r) \<noteq> None) = (fst r = 429)"

lemma problem_status: "fst (problem c d) = fst (class_row c)"
  by (cases c) (simp_all add: problem_def)

lemma problem_detail: "pd_detail (snd (problem c d)) = d"
  by (cases c) (simp_all add: problem_def new_problem_def)

lemma well_formed_problem: "well_formed_response (problem c d)"
  by (cases c) (simp_all add: problem_def new_problem_def well_formed_response_def)

lemma well_formed_rate_limited: "well_formed_response (rate_limited d n)"
  by (simp add: rate_limited_def new_problem_def with_retry_def well_formed_response_def)

lemmas response_shapes = well_formed_problem well_formed_rate_limited

lemma well_formed_domain:
  "well_formed_response (notebook_parts e1)" "well_formed_response (source_parts e2)"
  "well_formed_response (rag_parts e3)" "well_formed_response (llm_parts e4)"
  "well_formed_response (billing_parts e5)" "well_formed_response (chat_parts now e6)"
  "well_formed_response (auth_parts e7)" "well_formed_response (settings_parts e8)"
  "well_formed_response (note_parts e9)" "well_formed_response (memory_parts e10)"
  by (simp_all add: notebook_parts_def source_parts_def rag_parts_def llm_parts_def billing_parts_def
      chat_parts_def auth_parts_def settings_parts_def note_parts_def memory_parts_def response_shapes
      split: notebook_error.split source_error.split rag_error.split llm_error.split billing_error.split
      chat_error.split auth_error.split settings_error.split note_error.split memory_error.split)

lemma seconds_until_midnight_bounds: "1 \<le> seconds_until_midnight now \<and> seconds_until_midnight now \<le> 86400"
proof -
  have pos: "0 < nanos_per_day" by (simp add: nanos_per_day_def)
  have "(now + nanos_per_day) div nanos_per_day * nanos_per_day \<le> now + nanos_per_day"
    by (rule div_times_less_eq_dividend)
  then have "(now + nanos_per_day) div nanos_per_day * nanos_per_day - now \<le> 86400 * 10 ^ 9"
    by (simp add: nanos_per_day_def)
  then have "((now + nanos_per_day) div nanos_per_day * nanos_per_day - now) div 10 ^ 9
      \<le> 86400 * 10 ^ 9 div 10 ^ 9"
    by (rule div_le_mono)
  then show ?thesis by (simp add: seconds_until_midnight_def)
qed

text \<open>
  C20. Every error becomes one well-formed problem: the body's status is the response's, it
  is a client or server error, and it carries a retry hint exactly when it is a 429. The
  hint of a spent daily quota is at least one second and at most a day.
\<close>

theorem error_responses_well_formed:
  "well_formed_response (into_response now e) \<and>
   pd_retry_after (snd (into_response now (Chat (ChatDailyLimitExceeded n)))) \<in> Some ` {1..86400}"
proof
  show "well_formed_response (into_response now e)"
    by (cases e) (simp_all add: response_shapes well_formed_domain)
  show "pd_retry_after (snd (into_response now (Chat (ChatDailyLimitExceeded n)))) \<in> Some ` {1..86400}"
    using seconds_until_midnight_bounds [of now]
    by (simp add: chat_parts_def rate_limited_def with_retry_def image_iff)
qed

text \<open>
  The two masked errors reveal nothing: an internal or database failure answers with
  the same generic problem whatever its text, while a domain failure of the server class
  (here a vector store failure) still sends its reason to the client.
\<close>

theorem masking_of_server_errors:
  "into_response now (Internal d) = into_response now (Database e) \<and>
   pd_detail (snd (into_response now (Internal d))) = masked_detail \<and>
   fst (into_response now (Rag (RagVectorStoreFailed s r))) = 500 \<and>
   pd_detail (snd (into_response now (Rag (RagVectorStoreFailed s r)))) =
     lit ''Vector store operation failed: '' @ r @ lit '' (source_id='' @ s @ lit '')''"
  by (simp add: rag_parts_def problem_detail problem_status)

end
