(* ===== verification/Reasons.thy ===== *)
theory Reasons
  imports Rust_Str
begin

text \<open>
  \<open>services/rag/eval/trace.rs\<close>: the reason codes a retrieval records, the sorted
  duplicate-free \<open>ReasonSet\<close> with its binary-search insertion, and the redacted trace
  payload. A \<open>ReasonSet\<close> is the vector the code keeps; the lemmas show that it is always
  the canonical enumeration of the set of codes inserted.
\<close>

subsection \<open>Reason codes\<close>

datatype reason_code =
    Ok
  | EmptyCorpus
  | NoCandidates
  | UnderfilledTopK
  | StuffingApplied
  | RerankerAbsent
  | RerankerFailed
  | DedupShortfall
  | NonFiniteScore
  | CorrectiveRetrievalTriggered
  | ReformulationSkipped
  | ReformulationTruncated
  | ReformulationApplied
  | ReformulationFailed
  | AnnUnderfilled
  | MissingJudgment
  | IsolationBreach
  | ProviderError
  | TelemetryWriteFailed
  | ContextWindowUnknown
  | StuffingOverBudget
  | EvidenceDroppedForBudget
  | ParentDowngradedToChild
  | MemoryDroppedForBudget
  | PromptOverBudget
  | CitationRejected

text \<open>The derived \<open>Ord\<close> compares by declaration order.\<close>

fun reason_index :: "reason_code \<Rightarrow> nat" where
  "reason_index Ok = 0"
| "reason_index EmptyCorpus = 1"
| "reason_index NoCandidates = 2"
| "reason_index UnderfilledTopK = 3"
| "reason_index StuffingApplied = 4"
| "reason_index RerankerAbsent = 5"
| "reason_index RerankerFailed = 6"
| "reason_index DedupShortfall = 7"
| "reason_index NonFiniteScore = 8"
| "reason_index CorrectiveRetrievalTriggered = 9"
| "reason_index ReformulationSkipped = 10"
| "reason_index ReformulationTruncated = 11"
| "reason_index ReformulationApplied = 12"
| "reason_index ReformulationFailed = 13"
| "reason_index AnnUnderfilled = 14"
| "reason_index MissingJudgment = 15"
| "reason_index IsolationBreach = 16"
| "reason_index ProviderError = 17"
| "reason_index TelemetryWriteFailed = 18"
| "reason_index ContextWindowUnknown = 19"
| "reason_index StuffingOverBudget = 20"
| "reason_index EvidenceDroppedForBudget = 21"
| "reason_index ParentDowngradedToChild = 22"
| "reason_index MemoryDroppedForBudget = 23"
| "reason_index PromptOverBudget = 24"
| "reason_index CitationRejected = 25"

definition all_reasons :: "reason_code list" where
  "all_reasons = [Ok, EmptyCorpus, NoCandidates, UnderfilledTopK, StuffingApplied,
     RerankerAbsent, RerankerFailed, DedupShortfall, NonFiniteScore, CorrectiveRetrievalTriggered,
     ReformulationSkipped, ReformulationTruncated, ReformulationApplied, ReformulationFailed, AnnUnderfilled,
     MissingJudgment, IsolationBreach, ProviderError, TelemetryWriteFailed, ContextWindowUnknown,
     StuffingOverBudget, EvidenceDroppedForBudget, ParentDowngradedToChild, MemoryDroppedForBudget, PromptOverBudget,
     CitationRejected]"

lemma all_reasons_index: "all_reasons ! reason_index r = r"
  by (cases r) (simp_all add: all_reasons_def)

lemma reason_index_inj: "reason_index a = reason_index b \<Longrightarrow> a = b"
  by (metis all_reasons_index)

instantiation reason_code :: linorder
begin

definition less_eq_reason_code :: "reason_code \<Rightarrow> reason_code \<Rightarrow> bool" where
  "less_eq_reason_code a b \<longleftrightarrow> reason_index a \<le> reason_index b"

definition less_reason_code :: "reason_code \<Rightarrow> reason_code \<Rightarrow> bool" where
  "less_reason_code a b \<longleftrightarrow> reason_index a < reason_index b"

instance
  by standard (auto simp: less_eq_reason_code_def less_reason_code_def intro: reason_index_inj)

end

fun reason_as_str :: "reason_code \<Rightarrow> rstr" where
  "reason_as_str Ok = lit ''ok''"
| "reason_as_str EmptyCorpus = lit ''empty_corpus''"
| "reason_as_str NoCandidates = lit ''no_candidates''"
| "reason_as_str UnderfilledTopK = lit ''underfilled_top_k''"
| "reason_as_str StuffingApplied = lit ''stuffing_applied''"
| "reason_as_str RerankerAbsent = lit ''reranker_absent''"
| "reason_as_str RerankerFailed = lit ''reranker_failed''"
| "reason_as_str DedupShortfall = lit ''dedup_shortfall''"
| "reason_as_str NonFiniteScore = lit ''non_finite_score''"
| "reason_as_str CorrectiveRetrievalTriggered = lit ''corrective_retrieval_triggered''"
| "reason_as_str ReformulationSkipped = lit ''reformulation_skipped''"
| "reason_as_str ReformulationTruncated = lit ''reformulation_truncated''"
| "reason_as_str ReformulationApplied = lit ''reformulation_applied''"
| "reason_as_str ReformulationFailed = lit ''reformulation_failed''"
| "reason_as_str AnnUnderfilled = lit ''ann_underfilled''"
| "reason_as_str MissingJudgment = lit ''missing_judgment''"
| "reason_as_str IsolationBreach = lit ''isolation_breach''"
| "reason_as_str ProviderError = lit ''provider_error''"
| "reason_as_str TelemetryWriteFailed = lit ''telemetry_write_failed''"
| "reason_as_str ContextWindowUnknown = lit ''context_window_unknown''"
| "reason_as_str StuffingOverBudget = lit ''stuffing_over_budget''"
| "reason_as_str EvidenceDroppedForBudget = lit ''evidence_dropped_for_budget''"
| "reason_as_str ParentDowngradedToChild = lit ''parent_downgraded_to_child''"
| "reason_as_str MemoryDroppedForBudget = lit ''memory_dropped_for_budget''"
| "reason_as_str PromptOverBudget = lit ''prompt_over_budget''"
| "reason_as_str CitationRejected = lit ''citation_rejected''"

subsection \<open>Binary search\<close>

text \<open>\<open>slice::binary_search\<close> on a sorted slice: \<open>Inr\<close> the index found, \<open>Inl\<close> where it would go.\<close>

function bsearch :: "'a::linorder list \<Rightarrow> 'a \<Rightarrow> nat \<Rightarrow> nat \<Rightarrow> nat + nat" where
  "bsearch xs x lo hi =
     (if lo < hi then
        let mid = (lo + hi) div 2 in
        if xs ! mid = x then Inr mid
        else if xs ! mid < x then bsearch xs x (Suc mid) hi
        else bsearch xs x lo mid
      else Inl lo)"
  by pat_completeness auto
termination
  by (relation "measure (\<lambda>(xs, x, lo, hi). hi - lo)") auto

declare bsearch.simps [simp del]

definition binary_search :: "'a::linorder list \<Rightarrow> 'a \<Rightarrow> nat + nat" where
  "binary_search xs x = bsearch xs x 0 (length xs)"

lemma bsearch_spec:
  assumes "sorted_wrt (<) xs" "hi \<le> length xs" "lo \<le> hi"
    and "\<forall>i < lo. xs ! i < x" "\<forall>i. hi \<le> i \<longrightarrow> i < length xs \<longrightarrow> x < xs ! i"
  shows "case bsearch xs x lo hi of
           Inr i \<Rightarrow> i < length xs \<and> xs ! i = x
         | Inl i \<Rightarrow> i \<le> length xs \<and> (\<forall>j < i. xs ! j < x) \<and>
             (\<forall>j. i \<le> j \<longrightarrow> j < length xs \<longrightarrow> x < xs ! j)"
  using assms
proof (induction xs x lo hi rule: bsearch.induct)
  case (1 xs x lo hi)
  let ?mid = "(lo + hi) div 2"
  show ?case
  proof (cases "lo < hi")
    case False
    with "1.prems" show ?thesis by (subst bsearch.simps) auto
  next
    case True
    then have mid: "lo \<le> ?mid" "?mid < hi" by auto
    have mono: "xs ! i < xs ! j" if "i < j" "j < length xs" for i j
      using that "1.prems"(1) by (simp add: sorted_wrt_iff_nth_less)
    consider "xs ! ?mid = x" | "xs ! ?mid < x" | "x < xs ! ?mid" by (rule linorder_cases)
    then show ?thesis
    proof cases
      case 1
      with True mid "1.prems"(2) show ?thesis by (simp add: bsearch.simps [of xs x lo hi])
    next
      case 2
      then have low: "\<forall>i < Suc ?mid. xs ! i < x"
        using mono [of _ ?mid] mid "1.prems"(2) by (fastforce simp: less_Suc_eq)
      then show ?thesis
        using "1.IH"(1) [OF True refl _ 2 "1.prems"(1,2) _ low "1.prems"(5)] 2 True mid "1.prems"(2)
        by (simp add: bsearch.simps [of xs x lo hi] Let_def Suc_le_eq)
    next
      case 3
      then have high: "\<forall>i. ?mid \<le> i \<longrightarrow> i < length xs \<longrightarrow> x < xs ! i"
        using mono [of ?mid] by (metis order_le_imp_less_or_eq less_trans)
      then show ?thesis
        using "1.IH"(2) [OF True refl _ _ "1.prems"(1) _ mid(1) "1.prems"(4) high] less_not_sym [OF 3] True mid "1.prems"(2)
        by (simp add: bsearch.simps [of xs x lo hi] Let_def)
    qed
  qed
qed

lemma binary_search_Inr:
  "sorted_wrt (<) xs \<Longrightarrow> binary_search xs x = Inr i \<Longrightarrow> i < length xs \<and> xs ! i = x"
  using bsearch_spec [of xs "length xs" 0 x] by (simp add: binary_search_def)

lemma binary_search_Inl:
  assumes "sorted_wrt (<) xs" "binary_search xs x = Inl i"
  shows "\<forall>y \<in> set (take i xs). y < x" "\<forall>y \<in> set (drop i xs). x < y"
  using bsearch_spec [of xs "length xs" 0 x] assms
  by (auto simp: binary_search_def in_set_conv_nth)

lemma binary_search_found:
  assumes "sorted_wrt (<) xs" shows "(\<exists>i. binary_search xs x = Inr i) \<longleftrightarrow> x \<in> set xs"
proof (cases "binary_search xs x")
  case (Inl i)
  then have "x \<notin> set (take i xs) \<union> set (drop i xs)"
    using binary_search_Inl [OF assms Inl] by auto
  then have "x \<notin> set xs" by (metis append_take_drop_id set_append)
  with Inl show ?thesis by simp
next
  case (Inr i)
  with binary_search_Inr [OF assms Inr] show ?thesis by auto
qed

subsection \<open>Reason sets\<close>

type_synonym reason_set = "reason_code list"

definition reason_insert :: "reason_code \<Rightarrow> reason_set \<Rightarrow> reason_set" where
  "reason_insert r s = (case binary_search s r of
     Inl i \<Rightarrow> take i s @ r # drop i s | Inr _ \<Rightarrow> s)"

definition reason_contains :: "reason_set \<Rightarrow> reason_code \<Rightarrow> bool" where
  "reason_contains s r = (case binary_search s r of Inr _ \<Rightarrow> True | Inl _ \<Rightarrow> False)"

definition reason_extend :: "reason_set \<Rightarrow> reason_code list \<Rightarrow> reason_set" where
  "reason_extend s rs = fold reason_insert rs s"

definition reason_from_iter :: "reason_code list \<Rightarrow> reason_set" where
  "reason_from_iter rs = reason_extend [] rs"

definition reason_joined :: "reason_set \<Rightarrow> rstr" where
  "reason_joined s = join (lit '','') (map reason_as_str s)"

definition reason_finish :: "reason_set \<Rightarrow> reason_set" where
  "reason_finish s = (if s = [] then reason_insert Ok s else s)"

abbreviation canonical :: "reason_set \<Rightarrow> bool" where
  "canonical \<equiv> sorted_wrt (<)"

lemma canonical_set: "canonical s \<Longrightarrow> s = sorted_list_of_set (set s)"
  by (simp add: strict_sorted_iff sorted_list_of_set.idem_if_sorted_distinct)

lemma set_reason_insert: "canonical s \<Longrightarrow> set (reason_insert r s) = insert r (set s)"
proof (cases "binary_search s r")
  case (Inl i)
  have "set s = set (take i s) \<union> set (drop i s)" by (metis append_take_drop_id set_append)
  with Inl show ?thesis by (simp add: reason_insert_def)
next
  case (Inr i)
  assume "canonical s"
  with binary_search_Inr [OF this Inr] show ?thesis by (auto simp: reason_insert_def Inr)
qed

lemma canonical_reason_insert: "canonical s \<Longrightarrow> canonical (reason_insert r s)"
proof (cases "binary_search s r")
  case (Inl i)
  assume s: "canonical s"
  then have "canonical (take i s @ drop i s)" by simp
  then show ?thesis
    using binary_search_Inl [OF s Inl] by (auto simp: reason_insert_def Inl sorted_wrt_append simp del: append_take_drop_id)
qed (simp add: reason_insert_def)

lemma reason_extend_canonical:
  "canonical s \<Longrightarrow> canonical (reason_extend s rs) \<and> set (reason_extend s rs) = set s \<union> set rs"
  unfolding reason_extend_def
  by (induction rs arbitrary: s) (simp_all add: canonical_reason_insert set_reason_insert)

lemma reason_contains_iff: "canonical s \<Longrightarrow> reason_contains s r \<longleftrightarrow> r \<in> set s"
  using binary_search_found [of s r]
  by (auto simp: reason_contains_def split: sum.splits)

lemma reason_insert_mem_iff:
  "canonical s \<Longrightarrow> q \<in> set (reason_insert r s) \<longleftrightarrow> q = r \<or> q \<in> set s"
  by (simp add: set_reason_insert)

lemma canonical_Nil [simp]: "canonical []"
  by simp

lemmas reason_set_simps = set_reason_insert canonical_reason_insert reason_extend_canonical

text \<open>
  However reasons are recorded (in any order, any number of times) the set holds
  exactly the recorded codes, once each, in declaration order: its bytes depend on
  nothing but which codes were recorded. A later lookup finds a code exactly when it was
  recorded.
\<close>

lemma reason_set_canonical:
  "reason_from_iter rs = sorted_list_of_set (set rs) \<and>
   (reason_contains (reason_from_iter rs) r \<longleftrightarrow> r \<in> set rs)"
proof -
  have c: "canonical (reason_from_iter rs)" "set (reason_from_iter rs) = set rs"
    using reason_extend_canonical [of "[]" rs] by (simp_all add: reason_from_iter_def)
  show ?thesis
    using canonical_set [OF c(1)] c by (simp add: reason_contains_iff)
qed

end
