(* ===== verification/Scores.thy ===== *)
theory Scores
  imports Rust_Float Errors Reasons
begin

text \<open>
  \<open>types.rs\<close> and the chunk types of \<open>llm/types.rs\<close> and \<open>repositories/traits.rs\<close>: source
  types, score domains, the score that carries its domain, search results and the
  provenance read from a chunk's metadata. The lemmas show that a score can only be built
  from a finite number, and that the descending comparison is a total preorder on the
  scores of one domain, which is what every sort of the pipeline relies on.
\<close>

type_synonym uuid = nat

subsection \<open>Source types\<close>

datatype source_type = Pdf | Text | Markdown | Web | Docx | Epub | Youtube

fun source_type_as_str :: "source_type \<Rightarrow> rstr" where
  "source_type_as_str Pdf = lit ''pdf''"
| "source_type_as_str Text = lit ''text''"
| "source_type_as_str Markdown = lit ''markdown''"
| "source_type_as_str Web = lit ''web''"
| "source_type_as_str Docx = lit ''docx''"
| "source_type_as_str Epub = lit ''epub''"
| "source_type_as_str Youtube = lit ''youtube''"

definition source_type_try_from :: "unicode \<Rightarrow> rstr \<Rightarrow> app_error + source_type" where
  "source_type_try_from U s =
     (let l = uc_lowercase U s in
      if l = lit ''pdf'' then Inr Pdf
      else if l = lit ''text'' \<or> l = lit ''txt'' then Inr Text
      else if l = lit ''markdown'' \<or> l = lit ''md'' then Inr Markdown
      else if l = lit ''web'' \<or> l = lit ''url'' then Inr Web
      else if l = lit ''docx'' then Inr Docx
      else if l = lit ''epub'' then Inr Epub
      else if l = lit ''youtube'' \<or> l = lit ''yt'' then Inr Youtube
      else Inl (Validation (lit ''Unknown source type: '' @ [34] @ s @ [34] @ lit ''. Valid types: '' @
             lit ''pdf, text, txt, markdown, md, web, url, docx, epub, youtube, yt'')))"

subsection \<open>Scores\<close>

datatype score_domain =
  RrfRank | DenseSimilarity | LexicalRank | RerankerRelevance | StuffingUniform

fun domain_as_str :: "score_domain \<Rightarrow> rstr" where
  "domain_as_str RrfRank = lit ''rrf_rank''"
| "domain_as_str DenseSimilarity = lit ''dense_similarity''"
| "domain_as_str LexicalRank = lit ''lexical_rank''"
| "domain_as_str RerankerRelevance = lit ''reranker_relevance''"
| "domain_as_str StuffingUniform = lit ''stuffing_uniform''"

fun is_relevance_scale :: "score_domain \<Rightarrow> bool" where
  "is_relevance_scale DenseSimilarity = True"
| "is_relevance_scale RerankerRelevance = True"
| "is_relevance_scale _ = False"

definition stuffing_uniform_score :: rfloat where
  "stuffing_uniform_score = Fin 1"

datatype retrieval_score =
  Dense rfloat | Lexical rfloat | Rrf rfloat | Reranker rfloat | Stuffed

definition score_new :: "score_domain \<Rightarrow> rfloat \<Rightarrow> retrieval_score option" where
  "score_new d v =
     (if \<not> is_finite v then None
      else Some (case d of
        DenseSimilarity \<Rightarrow> Dense v | LexicalRank \<Rightarrow> Lexical v | RrfRank \<Rightarrow> Rrf v
      | RerankerRelevance \<Rightarrow> Reranker v | StuffingUniform \<Rightarrow> Stuffed))"

fun domain_of :: "retrieval_score \<Rightarrow> score_domain" where
  "domain_of (Dense _) = DenseSimilarity"
| "domain_of (Lexical _) = LexicalRank"
| "domain_of (Rrf _) = RrfRank"
| "domain_of (Reranker _) = RerankerRelevance"
| "domain_of Stuffed = StuffingUniform"

fun score_value :: "retrieval_score \<Rightarrow> rfloat" where
  "score_value (Dense v) = v"
| "score_value (Lexical v) = v"
| "score_value (Rrf v) = v"
| "score_value (Reranker v) = v"
| "score_value Stuffed = stuffing_uniform_score"

text \<open>The release build's comparison: scores of different domains compare equal.\<close>

definition cmp_desc :: "retrieval_score \<Rightarrow> retrieval_score \<Rightarrow> ordering" where
  "cmp_desc a b =
     (if domain_of a \<noteq> domain_of b then Equal
      else (case f_partial_cmp (score_value b) (score_value a) of Some o' \<Rightarrow> o' | None \<Rightarrow> Equal))"

definition finite_score :: "retrieval_score \<Rightarrow> bool" where
  "finite_score s \<longleftrightarrow> is_finite (score_value s)"

lemma score_new_Some:
  "score_new d v = Some s \<longleftrightarrow>
   is_finite v \<and> domain_of s = d \<and> (if d = StuffingUniform then True else score_value s = v)"
  by (cases d; cases s) (auto simp: score_new_def)

lemma score_new_finite: "score_new d v = Some s \<Longrightarrow> finite_score s"
  by (cases d; cases s)
     (auto simp: score_new_def finite_score_def stuffing_uniform_score_def is_finite_def split: if_splits)

lemma score_new_None: "score_new d v = None \<longleftrightarrow> \<not> is_finite v"
  by (simp add: score_new_def)

lemma cmp_desc_finite:
  assumes "finite_score a" "finite_score b" "domain_of a = domain_of b"
  shows "cmp_desc a b = Less \<longleftrightarrow> f_lt (score_value b) (score_value a)"
    and "cmp_desc a b = Greater \<longleftrightarrow> f_lt (score_value a) (score_value b)"
    and "cmp_desc a b = Equal \<longleftrightarrow> score_value a = score_value b"
  using assms by (auto simp: cmp_desc_def f_partial_cmp_def finite_score_def is_finite_iff)

subsection \<open>Search results\<close>

record chunk_metadata =
  section_header :: "rstr option"
  page_number :: "nat option"
  page_end :: "nat option"
  span_start :: "nat option"
  span_end :: "nat option"
  md_position :: nat
  timestamp_start :: "rfloat option"
  timestamp_end :: "rfloat option"
  video_id :: "rstr option"
  citation_url :: "rstr option"

definition default_metadata :: chunk_metadata where
  "default_metadata = \<lparr>section_header = None, page_number = None, page_end = None,
     span_start = None, span_end = None, md_position = 0, timestamp_start = None,
     timestamp_end = None, video_id = None, citation_url = None\<rparr>"

text \<open>
  A stored metadata blob, as far as the code reads it: the unsigned integer under its key
  \<open>position\<close>, if it has one, and what \<open>serde_json::from_value\<close> makes of the whole, if it
  parses.
\<close>

record metadata_blob =
  blob_position :: "nat option"
  blob_parsed :: "chunk_metadata option"

record chunk_row =
  row_id :: uuid
  row_generation_id :: uuid
  row_source_id :: uuid
  row_chunk_index :: int
  row_content :: rstr
  row_parent_content :: "rstr option"
  row_source_title :: rstr
  row_relevance_score :: rfloat
  row_metadata :: "metadata_blob option"

record search_result =
  chunk_id :: uuid
  generation_id :: uuid
  source_id :: uuid
  source_title :: rstr
  chunk_index :: int
  sr_content :: rstr
  parent_content :: "rstr option"
  sr_score :: retrieval_score
  sr_metadata :: "metadata_blob option"
  collapsed_children :: "uuid list"

definition from_chunk :: "chunk_row \<Rightarrow> score_domain \<Rightarrow> search_result option" where
  "from_chunk c d =
     (case score_new d (row_relevance_score c) of
        None \<Rightarrow> None
      | Some s \<Rightarrow> Some \<lparr>chunk_id = row_id c, generation_id = row_generation_id c,
          source_id = row_source_id c, source_title = row_source_title c,
          chunk_index = row_chunk_index c, sr_content = row_content c,
          parent_content = row_parent_content c, sr_score = s, sr_metadata = row_metadata c,
          collapsed_children = []\<rparr>)"

definition relevance :: "search_result \<Rightarrow> rfloat" where
  "relevance r = score_value (sr_score r)"

definition parent_key :: "search_result \<Rightarrow> (uuid \<times> rstr) option" where
  "parent_key r = map_option (\<lambda>p. (source_id r, p)) (parent_content r)"

lemma from_chunk_Some:
  "from_chunk c d = Some r \<Longrightarrow>
   domain_of (sr_score r) = d \<and> finite_score (sr_score r) \<and> chunk_id r = row_id c \<and>
   collapsed_children r = []"
  by (cases "score_new d (row_relevance_score c)")
     (auto simp: from_chunk_def score_new_finite, simp add: score_new_Some)

lemma from_chunk_None: "from_chunk c d = None \<longleftrightarrow> \<not> is_finite (row_relevance_score c)"
  by (simp add: from_chunk_def score_new_None [symmetric, where d = d] split: option.splits)

subsection \<open>Provenance and citable chunks\<close>

record chunk_provenance =
  prov_section_header :: "rstr option"
  prov_page_number :: "nat option"
  prov_page_end :: "nat option"
  prov_span :: "(nat \<times> nat) option"
  prov_position :: "nat option"
  prov_timestamp_start :: "rfloat option"
  prov_timestamp_end :: "rfloat option"
  prov_video_id :: "rstr option"
  prov_citation_url :: "rstr option"

definition default_provenance :: chunk_provenance where
  "default_provenance = \<lparr>prov_section_header = None, prov_page_number = None, prov_page_end = None,
     prov_span = None, prov_position = None, prov_timestamp_start = None,
     prov_timestamp_end = None, prov_video_id = None, prov_citation_url = None\<rparr>"

definition zip_option :: "'a option \<Rightarrow> 'b option \<Rightarrow> ('a \<times> 'b) option" where
  "zip_option a b = (case (a, b) of (Some x, Some y) \<Rightarrow> Some (x, y) | _ \<Rightarrow> None)"

definition provenance_read :: "metadata_blob option \<Rightarrow> chunk_provenance" where
  "provenance_read m =
     (let pos = Option.bind m (\<lambda>b. Option.bind (blob_position b) try_u32) in
      case Option.bind m blob_parsed of
        None \<Rightarrow> default_provenance
      | Some p \<Rightarrow> \<lparr>prov_section_header = section_header p, prov_page_number = page_number p,
          prov_page_end = page_end p, prov_span = zip_option (span_start p) (span_end p),
          prov_position = pos, prov_timestamp_start = timestamp_start p,
          prov_timestamp_end = timestamp_end p, prov_video_id = video_id p,
          prov_citation_url = citation_url p\<rparr>)"

definition is_coherent :: "chunk_provenance \<Rightarrow> bool" where
  "is_coherent p \<longleftrightarrow>
     (case prov_span p of Some (s, e) \<Rightarrow> s < e | None \<Rightarrow> False) \<and>
     (case (prov_page_number p, prov_page_end p) of
        (Some f, Some l) \<Rightarrow> f \<le> l
      | (None, Some _) \<Rightarrow> False
      | _ \<Rightarrow> True)"

definition owns_content :: "chunk_provenance \<Rightarrow> rstr \<Rightarrow> bool" where
  "owns_content p c \<longleftrightarrow>
     (case prov_span p of Some (s, e) \<Rightarrow> s < e \<and> e - s = str_len c | None \<Rightarrow> False) \<and>
     is_coherent p"

definition owns_chunk :: "chunk_provenance \<Rightarrow> int \<Rightarrow> rstr \<Rightarrow> bool" where
  "owns_chunk p idx c \<longleftrightarrow>
     0 \<le> idx \<and> prov_position p = Some (nat idx) \<and> owns_content p c"

record citable_chunk =
  cc_source_id :: uuid
  cc_generation_id :: uuid
  cc_chunk_index :: int
  cc_content :: rstr
  cc_relevance_score :: rfloat
  cc_metadata :: "metadata_blob option"

definition citable_of :: "search_result \<Rightarrow> citable_chunk" where
  "citable_of r = \<lparr>cc_source_id = source_id r, cc_generation_id = generation_id r,
     cc_chunk_index = chunk_index r, cc_content = sr_content r,
     cc_relevance_score = relevance r, cc_metadata  = sr_metadata r\<rparr>"

subsection \<open>The order on results\<close>

definition score_then_id :: "search_result \<Rightarrow> search_result \<Rightarrow> ordering" where
  "score_then_id a b = then_with (cmp_desc (sr_score a) (sr_score b)) (cmp_ord (chunk_id a) (chunk_id b))"

definition scored_on :: "score_domain \<Rightarrow> search_result \<Rightarrow> bool" where
  "scored_on d r \<longleftrightarrow> domain_of (sr_score r) = d \<and> finite_score (sr_score r)"

lemma scored_on_from_chunk: "from_chunk c d = Some r \<Longrightarrow> scored_on d r"
  by (simp add: scored_on_def from_chunk_Some)

lemma scored_onE:
  assumes "scored_on d r" obtains q where "score_value (sr_score r) = Fin q"
  using assms by (auto simp: scored_on_def finite_score_def is_finite_iff)

lemma cmp_desc_scored_on:
  assumes "scored_on d x" "scored_on d y" "score_value (sr_score x) = Fin p" "score_value (sr_score y) = Fin q"
  shows "cmp_desc (sr_score x) (sr_score y) = cmp_ord q p"
  using assms by (simp add: scored_on_def cmp_desc_def f_partial_cmp_def cmp_ord_def)

text \<open>
  Adding any further keys to the score keeps the comparator a total preorder: the same
  locale serves the identity tie-break and the preference ordering.
\<close>

interpretation score_order: total_cmp "\<lambda>a b. cmp_desc (sr_score a) (sr_score b)" "scored_on d" for d
proof
  fix x y z assume "scored_on d x"
  then obtain p where p: "score_value (sr_score x) = Fin p" by (rule scored_onE)
  show "cmp_desc (sr_score x) (sr_score x) = Equal"
    using cmp_desc_scored_on [OF \<open>scored_on d x\<close> \<open>scored_on d x\<close> p p] by simp
  assume "scored_on d y"
  then obtain q where q: "score_value (sr_score y) = Fin q" by (rule scored_onE)
  note xy = cmp_desc_scored_on [OF \<open>scored_on d x\<close> \<open>scored_on d y\<close> p q]
    cmp_desc_scored_on [OF \<open>scored_on d y\<close> \<open>scored_on d x\<close> q p]
  show "cmp_desc (sr_score x) (sr_score y) = Greater \<longleftrightarrow> cmp_desc (sr_score y) (sr_score x) = Less"
    by (simp add: xy)
  assume "scored_on d z"
  then obtain r where r: "score_value (sr_score z) = Fin r" by (rule scored_onE)
  note yz = cmp_desc_scored_on [OF \<open>scored_on d y\<close> \<open>scored_on d z\<close> q r]
    cmp_desc_scored_on [OF \<open>scored_on d x\<close> \<open>scored_on d z\<close> p r]
  assume "cmp_desc (sr_score x) (sr_score y) \<noteq> Greater" "cmp_desc (sr_score y) (sr_score z) \<noteq> Greater"
  then show "cmp_desc (sr_score x) (sr_score z) \<noteq> Greater" by (auto simp: xy yz cmp_ord_def split: if_splits)
qed

end
