(* ===== verification/Fusion.thy ===== *)
theory Fusion
  imports Scores
begin

text \<open>
  \<open>services/rag/search/fusion.rs\<close>: reciprocal rank fusion of the dense and the lexical
  result lists, the canonical order, and the conversion of repository rows. The hash map
  the code fuses in is an association list in insertion order; the order in which the map
  is iterated is a parameter, of which only that it enumerates the map is known. The
  lemmas show that the fused list does not depend on it.
\<close>

subsection \<open>The score table\<close>

type_synonym fusion_entry = "rfloat \<times> search_result"

definition entry_id :: "fusion_entry \<Rightarrow> uuid" where
  "entry_id e = chunk_id (snd e)"

text \<open>\<open>entry(..).and_modify(..).or_insert(..)\<close>: add to the score, or start the entry.\<close>

primrec add_score :: "rfloat \<Rightarrow> search_result \<Rightarrow> fusion_entry list \<Rightarrow> fusion_entry list" where
  "add_score v r [] = [(v, r)]"
| "add_score v r (e # es) =
     (if entry_id e = chunk_id r then (f_add rnd32 (fst e) v, snd e) # es
      else e # add_score v r es)"

definition rrf_term :: "rfloat \<Rightarrow> rfloat \<Rightarrow> nat \<Rightarrow> rfloat" where
  "rrf_term k weight rank = f_div rnd32 weight (f_add rnd32 k (f_of_nat rnd32 (rank + 1)))"

primrec add_scores_from ::
  "nat \<Rightarrow> rfloat \<Rightarrow> rfloat \<Rightarrow> search_result list \<Rightarrow> fusion_entry list \<Rightarrow> fusion_entry list" where
  "add_scores_from rank k weight [] table = table"
| "add_scores_from rank k weight (r # rs) table =
     add_scores_from (rank + 1) k weight rs (add_score (rrf_term k weight rank) r table)"

definition fusion_table ::
  "search_result list \<Rightarrow> search_result list \<Rightarrow> rfloat \<Rightarrow> rfloat \<Rightarrow> rfloat \<Rightarrow> fusion_entry list" where
  "fusion_table dense lexical k dense_weight sparse_weight =
     add_scores_from 0 k sparse_weight lexical (add_scores_from 0 k dense_weight dense [])"

subsection \<open>The fused list\<close>

definition redomain :: "fusion_entry \<Rightarrow> search_result option" where
  "redomain e = map_option (\<lambda>s. (snd e)\<lparr>sr_score := s\<rparr>) (score_new RrfRank (fst e))"

definition sort_by_score_then_id :: "search_result list \<Rightarrow> search_result list" where
  "sort_by_score_then_id rs = sort_by score_then_id rs"

definition reciprocal_rank_fusion ::
  "(fusion_entry list \<Rightarrow> fusion_entry list) \<Rightarrow> search_result list \<Rightarrow> search_result list \<Rightarrow>
   rfloat \<Rightarrow> rfloat \<Rightarrow> rfloat \<Rightarrow> search_result list" where
  "reciprocal_rank_fusion iter_order dense lexical k dense_weight sparse_weight =
     sort_by_score_then_id
       (List.map_filter redomain
         (iter_order (fusion_table dense lexical k dense_weight sparse_weight)))"

primrec filter_and_convert_from ::
  "rfloat \<Rightarrow> score_domain \<Rightarrow> chunk_row list \<Rightarrow> search_result list \<Rightarrow> nat \<Rightarrow> search_result list \<times> nat" where
  "filter_and_convert_from mn d [] results dropped = (results, dropped)"
| "filter_and_convert_from mn d (c # cs) results dropped =
     (case from_chunk c d of
        None \<Rightarrow> filter_and_convert_from mn d cs results (dropped + 1)
      | Some r \<Rightarrow>
          if f_le mn (relevance r) then filter_and_convert_from mn d cs (results @ [r]) dropped
          else filter_and_convert_from mn d cs results dropped)"

definition filter_and_convert ::
  "chunk_row list \<Rightarrow> rfloat option \<Rightarrow> score_domain \<Rightarrow> search_result list \<times> nat" where
  "filter_and_convert chunks min_relevance d =
     filter_and_convert_from (case min_relevance of Some m \<Rightarrow> m | None \<Rightarrow> Fin 0) d chunks [] 0"

subsection \<open>The canonical order\<close>

interpretation result_order: total_cmp score_then_id "scored_on d" for d
  unfolding score_then_id_def
  by (intro total_cmp_then_with score_order.total_cmp_axioms total_cmp_key)

lemma score_then_id_Equal: "score_then_id a b = Equal \<Longrightarrow> chunk_id a = chunk_id b"
  by (simp add: score_then_id_def then_with_eq_iff)

subsection \<open>What the table holds\<close>

lemma ids_add_score:
  "map entry_id (add_score v r t) =
     (if chunk_id r \<in> entry_id ` set t then map entry_id t else map entry_id t @ [chunk_id r])"
  by (induction t) (auto simp: entry_id_def)

lemma distinct_add_score: "distinct (map entry_id t) \<Longrightarrow> distinct (map entry_id (add_score v r t))"
  by (auto simp: ids_add_score)

lemma distinct_add_scores_from:
  "distinct (map entry_id t) \<Longrightarrow> distinct (map entry_id (add_scores_from n k w rs t))"
  by (induction rs arbitrary: n t) (simp_all add: distinct_add_score)

lemma distinct_fusion_table: "distinct (map entry_id (fusion_table dense lexical k dw sw))"
  by (simp add: fusion_table_def distinct_add_scores_from)

lemma set_ids_add_score:
  "entry_id ` set (add_score v r t) = insert (chunk_id r) (entry_id ` set t)"
  using arg_cong [OF ids_add_score [of v r t], of set] by (auto split: if_splits)

lemma set_ids_add_scores_from:
  "entry_id ` set (add_scores_from n k w rs t) = chunk_id ` set rs \<union> entry_id ` set t"
  by (induction rs arbitrary: n t) (auto simp: set_ids_add_score)

lemma set_ids_fusion_table:
  "entry_id ` set (fusion_table dense lexical k dw sw) = chunk_id ` set dense \<union> chunk_id ` set lexical"
  by (auto simp: fusion_table_def set_ids_add_scores_from)

lemma redomain_Some:
  "redomain e = Some r \<Longrightarrow> chunk_id r = entry_id e \<and> scored_on RrfRank r \<and> is_finite (fst e)"
  by (auto simp: redomain_def entry_id_def scored_on_def score_new_finite, auto simp: score_new_Some)

lemma redomain_None: "redomain e = None \<longleftrightarrow> \<not> is_finite (fst e)"
  by (simp add: redomain_def score_new_None)

lemma ids_map_filter_redomain:
  "map chunk_id (List.map_filter redomain es) = map entry_id (filter (\<lambda>e. is_finite (fst e)) es)"
proof (induction es)
  case (Cons e es)
  then show ?case
    by (cases "redomain e")
       (auto simp: map_filter_simps redomain_None [symmetric] dest: redomain_Some simp flip: redomain_None)
qed (simp add: map_filter_simps)

lemma set_map_filter_redomain:
  "r \<in> set (List.map_filter redomain es) \<Longrightarrow> scored_on RrfRank r"
  by (induction es) (auto simp: map_filter_simps dest: redomain_Some split: option.splits)

lemma mset_map_filter: "mset xs = mset ys \<Longrightarrow> mset (List.map_filter f xs) = mset (List.map_filter f ys)"
  unfolding List.map_filter_def by (metis mset_filter mset_map)

text \<open>Fusion's ranking terms fall with the rank, whatever the rounding does.\<close>

lemma f_div_mono:
  assumes "f_le (Fin 0) (Fin w)" "f_le a b" "f_lt (Fin 0) a"
  shows "f_le (f_div rnd32 (Fin w) b) (f_div rnd32 (Fin w) a)"
proof (cases a; cases b)
  fix p q assume pq: "a = Fin p" "b = Fin q"
  then have "w / q \<le> w / p" "0 < p" "0 < q"
    using assms by (auto intro: divide_left_mono)
  then show ?thesis using pq by (auto intro: f32.rnd_mono)
next
  fix p assume "a = Fin p" "b = PosInf"
  then show ?thesis using assms f32.rnd_nonneg [of "w / p"] by (auto simp: divide_nonneg_pos)
qed (use assms in auto)

lemma rrf_term_mono:
  assumes "0 \<le> w" "0 \<le> k" "m \<le> n"
  shows "f_le (rrf_term (Fin k) (Fin w) n) (rrf_term (Fin k) (Fin w) m)"
proof -
  have one: "rnd32 1 = Fin 1" by code_simp
  have le: "f_le (rnd32 (rat_of_nat (m + 1))) (rnd32 (rat_of_nat (n + 1)))"
    using assms(3) by (intro f32.rnd_mono) simp
  have pos: "f_le (Fin 1) (rnd32 (rat_of_nat (m + 1)))"
    using f32.rnd_mono [of 1 "rat_of_nat (m + 1)"] by (simp add: one)
  let ?d = "\<lambda>i. f_add rnd32 (Fin k) (rnd32 (rat_of_nat (i + 1)))"
  have "f_le (?d m) (?d n)"
    using le assms(2) f32.rnd_nonneg [of "rat_of_nat (m + 1)"] by (intro f32.add_mono_nonneg) auto
  moreover have "f_lt (Fin 0) (?d m)"
  proof -
    have "f_le (f_add rnd32 (Fin 0) (Fin 1)) (?d m)"
      using pos assms(2) by (intro f32.add_mono_nonneg) auto
    then show ?thesis using one by (cases "?d m") auto
  qed
  ultimately show ?thesis
    using assms(1) by (simp add: rrf_term_def f_of_nat_def f_div_mono)
qed

lemma set_filter_and_convert_from:
  "set (fst (filter_and_convert_from mn d cs acc n)) =
     set acc \<union> {r. \<exists>c \<in> set cs. from_chunk c d = Some r \<and> f_le mn (relevance r)}"
  by (induction cs arbitrary: acc n) (auto split: option.splits)

lemma set_filter_and_convert:
  "set (fst (filter_and_convert cs mn d)) =
     {r. \<exists>c \<in> set cs. from_chunk c d = Some r \<and> f_le (case mn of Some m \<Rightarrow> m | None \<Rightarrow> Fin 0) (relevance r)}"
  by (simp add: filter_and_convert_def set_filter_and_convert_from)

lemma ids_filter_and_convert: "chunk_id ` set (fst (filter_and_convert cs mn d)) \<subseteq> row_id ` set cs"
  by (auto simp: set_filter_and_convert dest: from_chunk_Some)

lemma fusion_canonical:
  assumes "mset (f t) = mset t" "mset (g t) = mset t" "t = fusion_table dense lexical k dw sw"
  shows "reciprocal_rank_fusion f dense lexical k dw sw = reciprocal_rank_fusion g dense lexical k dw sw \<and>
    sorted_wrt (\<lambda>a b. score_then_id a b \<noteq> Greater) (reciprocal_rank_fusion f dense lexical k dw sw) \<and>
    distinct (map chunk_id (reciprocal_rank_fusion f dense lexical k dw sw)) \<and>
    chunk_id ` set (reciprocal_rank_fusion f dense lexical k dw sw)
      = entry_id ` {e \<in> set t. is_finite (fst e)}"
proof -
  let ?F = "List.map_filter redomain (f t)" and ?G = "List.map_filter redomain (g t)"
  have m: "mset ?F = mset ?G" by (rule mset_map_filter) (simp only: assms(1,2))
  have ok: "\<forall>r \<in> set ?F. scored_on RrfRank r" by (intro ballI) (rule set_map_filter_redomain)
  have "distinct (map entry_id (f t))"
    using distinct_fusion_table [of dense lexical k dw sw] distinct_map_mset_cong [OF assms(1), of entry_id] assms(3)
    by simp
  then have d: "distinct (map chunk_id ?F)"
    by (simp add: ids_map_filter_redomain distinct_map_filter)
  then have "inj_on chunk_id (set ?F)" by (simp add: distinct_map)
  then have anti: "\<And>a b. a \<in> set ?F \<Longrightarrow> b \<in> set ?F \<Longrightarrow> score_then_id a b = Equal \<Longrightarrow> a = b"
    by (meson inj_onD score_then_id_Equal)
  have eq: "sort_by score_then_id ?F = sort_by score_then_id ?G"
    by (rule result_order.sort_by_canonical [OF m ok anti])
  have ids: "chunk_id ` set ?F = entry_id ` {e \<in> set t. is_finite (fst e)}"
    by (simp add: ids_map_filter_redomain mset_eq_setD [OF assms(1)] flip: list.set_map)
  have dist: "distinct (map chunk_id (sort_by score_then_id ?F))"
    using d distinct_map_mset_cong [of "sort_by score_then_id ?F" ?F chunk_id] by simp
  have fold: "reciprocal_rank_fusion h dense lexical k dw sw = sort_by score_then_id (List.map_filter redomain (h t))" for h
    by (simp add: reciprocal_rank_fusion_def sort_by_score_then_id_def assms(3))
  show ?thesis
    unfolding fold set_sort_by
    by (intro conjI eq dist ids result_order.sort_by_in_order [OF ok])
qed

subsection \<open>Properties\<close>

text \<open>
  C12. Fusion is deterministic: whatever order the hash map is iterated in, the fused list
  is the same. It is ordered by score and then identity, holds each chunk once, and holds
  exactly the chunks of the two lists whose fused score is finite.
\<close>

theorem rrf_iteration_order_irrelevant:
  assumes "mset (f t) = mset t" "mset (g t) = mset t" "t = fusion_table dense lexical k dw sw"
  shows "reciprocal_rank_fusion f dense lexical k dw sw = reciprocal_rank_fusion g dense lexical k dw sw \<and>
    sorted_wrt (\<lambda>a b. score_then_id a b \<noteq> Greater) (reciprocal_rank_fusion f dense lexical k dw sw) \<and>
    distinct (map chunk_id (reciprocal_rank_fusion f dense lexical k dw sw)) \<and>
    chunk_id ` set (reciprocal_rank_fusion f dense lexical k dw sw)
      = entry_id ` {e \<in> set t. is_finite (fst e)}"
  by (rule fusion_canonical [where t = t and f = f and g = g, OF assms])

definition sample_result :: "uuid \<Rightarrow> search_result" where
  "sample_result i = \<lparr>chunk_id = i, generation_id = 1, source_id = 1, source_title = lit ''t'',
     chunk_index = 0, sr_content = lit ''c'', parent_content = None, sr_score = Dense (Fin 1),
     sr_metadata = None, collapsed_children = []\<rparr>"

theorem rrf_iteration_order_irrelevant_witness:
  "reciprocal_rank_fusion rev [sample_result 1, sample_result 2] [sample_result 2] (Fin 60) (Fin 1) (Fin (1/4)) =
   reciprocal_rank_fusion id [sample_result 1, sample_result 2] [sample_result 2] (Fin 60) (Fin 1) (Fin (1/4))"
  by (rule rrf_iteration_order_irrelevant [THEN conjunct1, OF _ _ refl]) simp_all

end
