(* ===== verification/Ranking.thy ===== *)
theory Ranking
  imports Fusion "HOL-Library.List_Lexorder" "HOL-Library.Sublist"
begin

text \<open>
  \<open>services/rag/search/\<close>: \<open>transforms.rs\<close> (parent collapsing, selection, sandwich order,
  reranking, counting), \<open>preference.rs\<close>, \<open>stuffing.rs\<close> and \<open>types.rs\<close>. The lemmas show
  which steps keep membership, which keep order, and that collapsing accounts for every
  candidate. The reranker and the Unicode tables are parameters.
\<close>

subsection \<open>Collapsing onto parents\<close>

definition absorb :: "uuid \<Rightarrow> search_result \<Rightarrow> search_result" where
  "absorb i r = r\<lparr>collapsed_children := collapsed_children r @ [i]\<rparr>"

primrec collapse_from ::
  "(uuid \<times> rstr \<Rightarrow> nat option) \<Rightarrow> search_result list \<Rightarrow> search_result list \<Rightarrow> search_result list" where
  "collapse_from reps collapsed [] = collapsed"
| "collapse_from reps collapsed (r # rs) =
     (case parent_key r of
        None \<Rightarrow> collapse_from reps (collapsed @ [r]) rs
      | Some k \<Rightarrow>
          (case reps k of
             Some i \<Rightarrow> collapse_from reps (collapsed[i := absorb (chunk_id r) (collapsed ! i)]) rs
           | None \<Rightarrow> collapse_from (reps(k \<mapsto> length collapsed)) (collapsed @ [r]) rs))"

definition collapse_parents :: "search_result list \<Rightarrow> search_result list" where
  "collapse_parents results = (if results = [] then results else collapse_from Map.empty [] results)"

text \<open>The reference: of each parent, keep the first candidate.\<close>

primrec first_per_parent :: "(uuid \<times> rstr) set \<Rightarrow> search_result list \<Rightarrow> search_result list" where
  "first_per_parent S [] = []"
| "first_per_parent S (r # rs) =
     (case parent_key r of
        None \<Rightarrow> r # first_per_parent S rs
      | Some k \<Rightarrow> if k \<in> S then first_per_parent S rs else r # first_per_parent (insert k S) rs)"

definition select_final :: "search_result list \<Rightarrow> nat \<Rightarrow> search_result list" where
  "select_final results limit = take limit results"

text \<open>\<open>Vec::remove(1)\<close> panics on fewer than two elements: that is \<open>None\<close>.\<close>

fun sandwich_order :: "search_result list \<Rightarrow> search_result list option" where
  "sandwich_order (best # second_best # rest) = Some (best # rest @ [second_best])"
| "sandwich_order _ = None"

definition mean_relevance :: "search_result list \<Rightarrow> rfloat option" where
  "mean_relevance results =
     (case results of [] \<Rightarrow> None
      | r # _ \<Rightarrow>
          if \<not> is_relevance_scale (domain_of (sr_score r)) then None
          else Some (f_div rnd32 (foldl (f_add rnd32) (Fin 0) (map relevance results))
                       (f_of_nat rnd32 (length results))))"

definition unique_parent_count :: "search_result list \<Rightarrow> nat" where
  "unique_parent_count results =
     length (remdups (List.map_filter parent_key results)) +
     length (filter (\<lambda>r. parent_key r = None) results)"

subsection \<open>Reranking\<close>

text \<open>
  The reranker is code outside the repository: given the query and the documents it
  answers with an error or a list of (index, score) pairs.
\<close>

type_synonym 'e reranker = "rstr \<Rightarrow> rstr list \<Rightarrow> nat \<Rightarrow> 'e + (nat \<times> rfloat) list"

definition reranked_result :: "search_result list \<Rightarrow> nat \<times> rfloat \<Rightarrow> search_result option" where
  "reranked_result results p =
     (case get_at results (fst p) of
        None \<Rightarrow> None
      | Some original \<Rightarrow>
          map_option (\<lambda>s. original\<lparr>sr_score := s\<rparr>) (score_new RerankerRelevance (snd p)))"

definition rerank_results ::
  "'e reranker option \<Rightarrow> rstr \<Rightarrow> search_result list \<Rightarrow> 'e + search_result list option" where
  "rerank_results reranker query results =
     (if results = [] then Inr None
      else case reranker of
        None \<Rightarrow> Inr None
      | Some rerank \<Rightarrow>
          (case rerank query (map sr_content results) (length results) of
             Inl e \<Rightarrow> Inl e
           | Inr pairs \<Rightarrow>
               Inr (Some (sort_by_score_then_id (List.map_filter (reranked_result results) pairs)))))"

subsection \<open>Preferences\<close>

record preference_boost =
  preferred_source_ids :: "uuid set"
  preference_keywords :: "rstr list"

definition boost_is_empty :: "preference_boost \<Rightarrow> bool" where
  "boost_is_empty b \<longleftrightarrow> preferred_source_ids b = {} \<and> preference_keywords b = []"

definition has_topic_overlap :: "unicode \<Rightarrow> rstr \<Rightarrow> rstr list \<Rightarrow> bool" where
  "has_topic_overlap U c keywords \<longleftrightarrow> list_ex (str_contains (uc_lowercase U c)) keywords"

definition preference_tier :: "unicode \<Rightarrow> search_result \<Rightarrow> preference_boost \<Rightarrow> nat" where
  "preference_tier U r b =
     (if source_id r \<in> preferred_source_ids b then 2 else 0) +
     (if preference_keywords b \<noteq> [] \<and> has_topic_overlap U (sr_content r) (preference_keywords b)
      then 1 else 0)"

definition preference_cmp ::
  "unicode \<Rightarrow> preference_boost \<Rightarrow> search_result \<Rightarrow> search_result \<Rightarrow> ordering" where
  "preference_cmp U b x y =
     then_with (then_with (cmp_desc (sr_score x) (sr_score y))
                  (cmp_ord (preference_tier U y b) (preference_tier U x b)))
       (cmp_ord (chunk_id x) (chunk_id y))"

definition apply_preference_ordering ::
  "unicode \<Rightarrow> search_result list \<Rightarrow> preference_boost \<Rightarrow> search_result list" where
  "apply_preference_ordering U results b =
     (if boost_is_empty b then results else sort_by (preference_cmp U b) results)"

definition preference_word :: "unicode \<Rightarrow> rstr \<Rightarrow> rstr option" where
  "preference_word U word =
     (let clean = uc_lowercase U (filter (uc_alphanumeric U) word)
      in if 5 \<le> str_len clean then Some clean else None)"

definition extract_preference_keywords :: "unicode \<Rightarrow> rstr list \<Rightarrow> rstr list" where
  "extract_preference_keywords U contents =
     dedup (sort (concat (map (\<lambda>c. List.map_filter (preference_word U) (split_whitespace c)) contents)))"

subsection \<open>Stuffing thresholds and request limits\<close>

definition per_model_threshold :: "rstr \<Rightarrow> rstr \<Rightarrow> int" where
  "per_model_threshold provider model =
     (if provider = lit ''mistral'' \<and> starts_with model (lit ''mistral-small-'') then 95
      else if provider = lit ''openai'' \<and> starts_with model (lit ''gpt-5-mini'') then 150
      else if provider = lit ''mistral'' \<and> starts_with model (lit ''mistral-large-'') then 80
      else if provider = lit ''anthropic'' \<and> starts_with model (lit ''claude-haiku-4-5-'') then 50
      else if provider = lit ''openai'' \<and> starts_with model (lit ''gpt-5.2'') then 30
      else if provider = lit ''anthropic'' \<and> starts_with model (lit ''claude-sonnet-4-6-'') then 30
      else if provider = lit ''anthropic'' \<and> starts_with model (lit ''claude-opus-4-6-'') then 0
      else 0)"

definition max_context_stuffing_chunks :: "rstr \<Rightarrow> rstr \<Rightarrow> int \<Rightarrow> int" where
  "max_context_stuffing_chunks provider model global_override =
     (if global_override = 0 then 0 else min (per_model_threshold provider model) global_override)"

datatype search_mode = Hybrid | DenseMode | LexicalMode

record search_request =
  rq_query :: rstr
  rq_limit :: int
  rq_min_relevance :: "rfloat option"
  rq_mode :: search_mode

definition clamp_i32 :: "int \<Rightarrow> int \<Rightarrow> int \<Rightarrow> int" where
  "clamp_i32 v mn mx = (if v < mn then mn else if v > mx then mx else v)"

definition clamped_limit :: "search_request \<Rightarrow> int" where
  "clamped_limit q = clamp_i32 (rq_limit q) 1 500"

definition validated_query :: "search_request \<Rightarrow> app_error + rstr" where
  "validated_query q =
     (let t = trim (rq_query q) in
      if t = [] then Inl (Validation (lit ''Search query cannot be empty'')) else Inr t)"

definition new_request :: "rstr \<Rightarrow> search_request" where
  "new_request q = \<lparr>rq_query = q, rq_limit = 10, rq_min_relevance = None, rq_mode = Hybrid\<rparr>"

subsection \<open>Collapsing: lemmas\<close>

definition erase_children :: "search_result \<Rightarrow> search_result" where
  "erase_children r = r\<lparr>collapsed_children := []\<rparr>"

definition accounted :: "search_result list \<Rightarrow> uuid multiset" where
  "accounted rs = sum_list (map (\<lambda>r. add_mset (chunk_id r) (mset (collapsed_children r))) rs)"

definition reps_ok :: "('k \<Rightarrow> nat option) \<Rightarrow> 'k option list \<Rightarrow> bool" where
  "reps_ok reps ks \<longleftrightarrow>
     (\<forall>k i. reps k = Some i \<longrightarrow> i < length ks \<and> ks ! i = Some k) \<and>
     (\<forall>k. Some k \<in> set ks \<longrightarrow> reps k \<noteq> None)"

lemma reps_okD: "reps_ok reps ks \<Longrightarrow> reps k = Some i \<Longrightarrow> i < length ks"
  by (auto simp: reps_ok_def)

lemma absorb_simps [simp]:
  "chunk_id (absorb i r) = chunk_id r" "parent_key (absorb i r) = parent_key r"
  "sr_score (absorb i r) = sr_score r" "erase_children (absorb i r) = erase_children r"
  by (simp_all add: absorb_def parent_key_def erase_children_def)

lemma accounted_simps [simp]:
  "accounted [] = {#}"
  "accounted (r # rs) = add_mset (chunk_id r) (mset (collapsed_children r)) + accounted rs"
  "accounted (rs @ ts) = accounted rs + accounted ts"
  by (simp_all add: accounted_def)

lemma accounted_absorb:
  "i < length rs \<Longrightarrow> accounted (rs[i := absorb c (rs ! i)]) = add_mset c (accounted rs)"
  by (induction rs arbitrary: i) (auto simp: absorb_def nth_Cons split: nat.splits)

lemma map_absorb:
  "i < length rs \<Longrightarrow> f (absorb c (rs ! i)) = f (rs ! i) \<Longrightarrow>
   map f (rs[i := absorb c (rs ! i)]) = map f rs"
  by (metis list_update_id map_update nth_map)

lemma reps_ok_push_None: "reps_ok reps ks \<Longrightarrow> reps_ok reps (ks @ [None])"
  unfolding reps_ok_def by (auto simp: nth_append less_SucI)

lemma reps_ok_push_Some: "reps_ok reps ks \<Longrightarrow> reps_ok (reps(k \<mapsto> length ks)) (ks @ [Some k])"
  unfolding reps_ok_def by (auto simp: nth_append less_SucI)

lemma collapse_from_reference:
  assumes "reps_ok reps (map parent_key collapsed)"
  shows "map erase_children (collapse_from reps collapsed rs) =
           map erase_children (collapsed @ first_per_parent (dom reps) rs) \<and>
         accounted (collapse_from reps collapsed rs) = accounted collapsed + mset (map chunk_id rs)
           + sum_list (map (\<lambda>r. mset (collapsed_children r)) (first_per_parent (dom reps) rs))"
  using assms
proof (induction rs arbitrary: reps collapsed)
  case Nil
  then show ?case by simp
next
  case (Cons r rs)
  show ?case
  proof (cases "parent_key r")
    case None
    with Cons.IH [of reps "collapsed @ [r]"] reps_ok_push_None [OF Cons.prems] show ?thesis by simp
  next
    case (Some k)
    show ?thesis
    proof (cases "reps k")
      case None
      then have "k \<notin> dom reps" by auto
      with Cons.IH [of "reps(k \<mapsto> length collapsed)" "collapsed @ [r]"]
        reps_ok_push_Some [OF Cons.prems, of k] Some None
      show ?thesis by (simp del: fun_upd_apply)
    next
      case (Some i)
      then have i: "i < length collapsed" using reps_okD [OF Cons.prems] by simp
      with Cons.IH [of reps "collapsed[i := absorb (chunk_id r) (collapsed ! i)]"] Cons.prems
        Some \<open>parent_key r = Some k\<close>
      show ?thesis by (simp add: domI accounted_absorb map_absorb)
    qed
  qed
qed

lemma collapse_parents_reference:
  "map erase_children (collapse_parents rs) = map erase_children (first_per_parent {} rs)"
  using collapse_from_reference [of Map.empty "[]" rs]
  by (simp add: collapse_parents_def reps_ok_def)

lemma subseq_sorted_wrt: "subseq xs ys \<Longrightarrow> sorted_wrt P ys \<Longrightarrow> sorted_wrt P xs"
  by (induction rule: list_emb.induct) (auto dest: list_emb_set)

lemma subseq_first_per_parent: "subseq (first_per_parent S rs) rs"
  by (induction rs arbitrary: S) (auto split: option.splits)

lemma map_erase_same: "map erase_children xs = map erase_children ys \<Longrightarrow>
  (\<And>r. f (erase_children r) = f r) \<Longrightarrow> map f xs = map f ys"
proof (induction xs arbitrary: ys)
  case (Cons x xs)
  then obtain y ys' where "ys = y # ys'" by (cases ys) auto
  with Cons show ?case by (metis list.inject list.simps(9))
qed simp

lemma erase_simps [simp]:
  "chunk_id (erase_children r) = chunk_id r" "parent_key (erase_children r) = parent_key r"
  "sr_score (erase_children r) = sr_score r"
  by (simp_all add: erase_children_def parent_key_def)

lemma map_collapse_parents:
  "(\<And>r. f (erase_children r) = f r) \<Longrightarrow> map f (collapse_parents rs) = map f (first_per_parent {} rs)"
  by (rule map_erase_same [OF collapse_parents_reference])

lemma collapse_parents_sorted:
  assumes "sorted_wrt (\<lambda>a b. P (sr_score a) (sr_score b)) rs"
  shows "sorted_wrt (\<lambda>a b. P (sr_score a) (sr_score b)) (collapse_parents rs)"
proof -
  have "sorted_wrt P (map sr_score rs)" using assms by (simp add: sorted_wrt_map)
  moreover have "subseq (map sr_score (first_per_parent {} rs)) (map sr_score rs)"
    by (rule subseq_map [OF subseq_first_per_parent])
  ultimately have "sorted_wrt P (map sr_score (first_per_parent {} rs))"
    by (metis subseq_sorted_wrt)
  then have "sorted_wrt P (map sr_score (collapse_parents rs))"
    by (simp add: map_collapse_parents)
  then show ?thesis by (simp add: sorted_wrt_map)
qed

lemma parent_keys_first_per_parent:
  "distinct (List.map_filter parent_key (first_per_parent S rs)) \<and>
   set (List.map_filter parent_key (first_per_parent S rs)) = set (List.map_filter parent_key rs) - S"
  by (induction rs arbitrary: S) (auto simp: map_filter_simps split: option.splits)

lemma length_filter_insert:
  "distinct ks \<Longrightarrow> length (filter (\<lambda>x. x \<noteq> k \<and> x \<notin> S) ks) =
     (if k \<in> set ks \<and> k \<notin> S then length (filter (\<lambda>x. x \<notin> S) ks) - 1
      else length (filter (\<lambda>x. x \<notin> S) ks))"
proof (induction ks)
  case (Cons a ks)
  moreover have "k \<in> set ks \<Longrightarrow> k \<notin> S \<Longrightarrow> 0 < length (filter (\<lambda>x. x \<notin> S) ks)"
    by (auto simp: length_greater_0_conv filter_empty_conv)
  ultimately show ?case by auto
qed simp

lemma length_first_per_parent:
  "length (first_per_parent S rs) =
     length (filter (\<lambda>k. k \<notin> S) (remdups (List.map_filter parent_key rs))) +
     length (filter (\<lambda>r. parent_key r = None) rs)"
proof (induction rs arbitrary: S)
  case (Cons r rs)
  let ?ks = "remdups (List.map_filter parent_key rs)"
  show ?case
  proof (cases "parent_key r")
    case (Some k)
    have ins: "length (filter (\<lambda>x. x \<noteq> k \<and> x \<notin> S) ?ks) =
      (if k \<in> set ?ks \<and> k \<notin> S then length (filter (\<lambda>x. x \<notin> S) ?ks) - 1
       else length (filter (\<lambda>x. x \<notin> S) ?ks))"
      by (rule length_filter_insert) simp
    have pos: "k \<in> set ?ks \<Longrightarrow> k \<notin> S \<Longrightarrow> 0 < length (filter (\<lambda>x. x \<notin> S) ?ks)"
      by (auto simp: length_greater_0_conv filter_empty_conv)
    from Some show ?thesis
      using pos by (auto simp: Cons.IH ins map_filter_simps)
  qed (simp add: Cons.IH map_filter_simps)
qed (simp add: map_filter_simps)

lemma map_filter_of_map: "map parent_key xs = map parent_key ys \<Longrightarrow>
  List.map_filter parent_key xs = List.map_filter parent_key ys"
proof (induction xs arbitrary: ys)
  case (Cons x xs)
  then obtain y ys' where "ys = y # ys'" by (cases ys) auto
  with Cons.IH [of ys'] Cons.prems show ?case by (auto simp: map_filter_simps split: option.splits)
qed simp

lemma collapsed_children_first_per_parent:
  "\<forall>r \<in> set rs. collapsed_children r = [] \<Longrightarrow>
   sum_list (map (\<lambda>r. mset (collapsed_children r)) (first_per_parent S rs)) = {#}"
  by (induction rs arbitrary: S) (auto split: option.splits)

subsection \<open>Preference ordering: lemmas\<close>

interpretation preference_order: total_cmp "preference_cmp U b" "scored_on d" for U b d
  unfolding preference_cmp_def
  by (intro total_cmp_then_with score_order.total_cmp_axioms total_cmp_key total_cmp_key_desc)

lemma preference_cmp_not_Greater:
  "preference_cmp U b x y \<noteq> Greater \<Longrightarrow>
   cmp_desc (sr_score x) (sr_score y) \<noteq> Greater \<and>
   (cmp_desc (sr_score x) (sr_score y) = Equal \<longrightarrow> preference_tier U y b \<le> preference_tier U x b)"
  by (auto simp: preference_cmp_def then_with_eq_iff)

subsection \<open>Reranking: lemmas\<close>

lemma reranked_result_Some:
  "reranked_result rs p = Some r \<Longrightarrow>
   scored_on RerankerRelevance r \<and> fst p < length rs \<and> chunk_id r = chunk_id (rs ! fst p)"
  by (auto simp: reranked_result_def scored_on_def score_new_finite split: option.splits,
      auto simp: score_new_Some)

lemma set_map_filter: "y \<in> set (List.map_filter f xs) \<longleftrightarrow> (\<exists>x \<in> set xs. f x = Some y)"
  by (induction xs) (auto simp: map_filter_simps split: option.splits)

lemma map_filter_all_Some:
  assumes "\<And>x. x \<in> set xs \<Longrightarrow> \<exists>y. f x = Some y \<and> g y = h x"
  shows "map g (List.map_filter f xs) = map h xs"
  using assms
proof (induction xs)
  case (Cons x xs)
  obtain y where "f x = Some y" "g y = h x" using Cons.prems by auto
  with Cons show ?case by (simp add: map_filter_simps)
qed (simp add: map_filter_simps)

lemma ids_reranked:
  assumes "\<forall>p \<in> set pairs. fst p < length rs \<and> is_finite (snd p)"
  shows "map chunk_id (List.map_filter (reranked_result rs) pairs) = map (\<lambda>p. chunk_id (rs ! fst p)) pairs"
proof (rule map_filter_all_Some)
  fix p assume "p \<in> set pairs"
  with assms have "fst p < length rs" "score_new RerankerRelevance (snd p) \<noteq> None"
    by (auto simp: score_new_None)
  then show "\<exists>r. reranked_result rs p = Some r \<and> chunk_id r = chunk_id (rs ! fst p)"
    by (auto simp: reranked_result_def get_at_def)
qed

subsection \<open>Properties\<close>

text \<open>
  C13. Diversification: at most one context per parent survives, each represented by its
  first (hence strongest) child in the order of the pool, the order of scores is kept, and
  every candidate is accounted for exactly once, as a representative or among the
  children one absorbed.
\<close>

theorem collapse_parents_contract:
  assumes "\<forall>r \<in> set rs. collapsed_children r = []"
  shows "distinct (List.map_filter parent_key (collapse_parents rs)) \<and>
    map chunk_id (collapse_parents rs) = map chunk_id (first_per_parent {} rs) \<and>
    accounted (collapse_parents rs) = mset (map chunk_id rs) \<and>
    length (collapse_parents rs) = unique_parent_count rs \<and>
    (sorted_wrt (\<lambda>a b. cmp_desc (sr_score a) (sr_score b) \<noteq> Greater) rs \<longrightarrow>
     sorted_wrt (\<lambda>a b. cmp_desc (sr_score a) (sr_score b) \<noteq> Greater) (collapse_parents rs))"
proof -
  have keys: "map parent_key (collapse_parents rs) = map parent_key (first_per_parent {} rs)"
    by (simp add: map_collapse_parents)
  have count: "length (first_per_parent {} rs) = unique_parent_count rs"
    by (simp add: length_first_per_parent unique_parent_count_def)
  show ?thesis
  proof (intro conjI impI)
    show "distinct (List.map_filter parent_key (collapse_parents rs))"
      using map_filter_of_map [OF keys] parent_keys_first_per_parent [of "{}" rs] by simp
    show "map chunk_id (collapse_parents rs) = map chunk_id (first_per_parent {} rs)"
      by (simp add: map_collapse_parents)
    show "accounted (collapse_parents rs) = mset (map chunk_id rs)"
      using collapse_from_reference [of Map.empty "[]" rs]
        collapsed_children_first_per_parent [OF assms, of "{}"]
      by (simp add: collapse_parents_def reps_ok_def)
    show "length (collapse_parents rs) = unique_parent_count rs"
      using arg_cong [OF keys, of length] count by simp
  qed (rule collapse_parents_sorted)
qed

theorem collapse_parents_contract_witness:
  "accounted (collapse_parents [sample_result 1, (sample_result 2)\<lparr>parent_content := Some (lit ''p'')\<rparr>,
     (sample_result 3)\<lparr>parent_content := Some (lit ''p'')\<rparr>]) = {#1, 2, 3#}"
  using collapse_parents_contract [of "[sample_result 1, (sample_result 2)\<lparr>parent_content := Some (lit ''p'')\<rparr>,
     (sample_result 3)\<lparr>parent_content := Some (lit ''p'')\<rparr>]"]
  by (simp add: sample_result_def)

text \<open>
  A preference is a secondary key: ordering by preference permutes the results, never
  puts a weaker score before a stronger one, and among equal scores puts the higher
  preference tier first.
\<close>

theorem preference_never_overrides_score:
  assumes "\<forall>r \<in> set rs. scored_on d r" "\<not> boost_is_empty b"
  shows "mset (apply_preference_ordering U rs b) = mset rs \<and>
    sorted_wrt (\<lambda>x y. cmp_desc (sr_score x) (sr_score y) \<noteq> Greater \<and>
        (cmp_desc (sr_score x) (sr_score y) = Equal \<longrightarrow>
           preference_tier U y b \<le> preference_tier U x b))
      (apply_preference_ordering U rs b)"
proof -
  have "preference_order.in_order U b (sort_by (preference_cmp U b) rs)"
    by (rule preference_order.sort_by_in_order [OF assms(1)])
  then have "sorted_wrt (\<lambda>x y. cmp_desc (sr_score x) (sr_score y) \<noteq> Greater \<and>
      (cmp_desc (sr_score x) (sr_score y) = Equal \<longrightarrow> preference_tier U y b \<le> preference_tier U x b))
    (sort_by (preference_cmp U b) rs)"
    by (rule sorted_wrt_mono_rel [rotated]) (rule preference_cmp_not_Greater)
  with assms(2) show ?thesis by (simp add: apply_preference_ordering_def)
qed

theorem preference_never_overrides_score_witness:
  "mset (apply_preference_ordering ascii_tables [sample_result 1, (sample_result 2)\<lparr>source_id := 7\<rparr>]
     \<lparr>preferred_source_ids = {7}, preference_keywords = []\<rparr>) =
   mset [sample_result 1, (sample_result 2)\<lparr>source_id := 7\<rparr>]"
  by (rule preference_never_overrides_score [where d = DenseSimilarity, THEN conjunct1])
     (simp_all add: sample_result_def scored_on_def finite_score_def is_finite_def boost_is_empty_def)

text \<open>
  Reranking only re-scores candidates of the pool: every result it returns is a pool
  member with a finite reranker score, in canonical order; an index out of range or a
  non-finite score is dropped; and a reranker that answers each index once with a finite
  score keeps the whole pool.
\<close>

lemma rerank_keeps_pool:
  assumes "rerank_results (Some rerank) query rs = Inr (Some out)"
  shows "chunk_id ` set out \<subseteq> chunk_id ` set rs \<and> (\<forall>r \<in> set out. scored_on RerankerRelevance r) \<and>
    sorted_wrt (\<lambda>a b. score_then_id a b \<noteq> Greater) out \<and>
    (\<forall>pairs. rerank query (map sr_content rs) (length rs) = Inr pairs \<longrightarrow>
       (\<forall>p \<in> set pairs. is_finite (snd p)) \<longrightarrow> mset (map fst pairs) = mset [0..<length rs] \<longrightarrow>
       mset (map chunk_id out) = mset (map chunk_id rs))"
proof -
  obtain pairs where pairs: "rerank query (map sr_content rs) (length rs) = Inr pairs"
    and out: "out = sort_by score_then_id (List.map_filter (reranked_result rs) pairs)"
    using assms by (auto simp: rerank_results_def sort_by_score_then_id_def split: if_splits sum.splits)
  have ok: "\<forall>r \<in> set (List.map_filter (reranked_result rs) pairs).
      scored_on RerankerRelevance r \<and> chunk_id r \<in> chunk_id ` set rs"
    by (auto simp: set_map_filter dest!: reranked_result_Some)
  have perm: "mset (map chunk_id out) = mset (map chunk_id rs)"
    if fin: "\<forall>p \<in> set pairs. is_finite (snd p)" and m: "mset (map fst pairs) = mset [0..<length rs]"
  proof -
    have "fst ` set pairs = {0..<length rs}" using mset_eq_setD [OF m] by simp
    then have "\<forall>p \<in> set pairs. fst p < length rs" by (metis atLeastLessThan_iff image_eqI)
    with fin have "map chunk_id (List.map_filter (reranked_result rs) pairs)
        = map (\<lambda>i. chunk_id (rs ! i)) (map fst pairs)"
      by (simp add: ids_reranked)
    then have "mset (map chunk_id out) = mset (map (\<lambda>i. chunk_id (rs ! i)) [0..<length rs])"
      using m by (metis mset_map mset_sort_by out)
    also have "map (\<lambda>i. chunk_id (rs ! i)) [0..<length rs] = map chunk_id rs"
      by (rule nth_equalityI) simp_all
    finally show ?thesis .
  qed
  have ord: "result_order.in_order out"
    unfolding out by (rule result_order.sort_by_in_order [where d = RerankerRelevance]) (simp add: ok)
  have "set out = set (List.map_filter (reranked_result rs) pairs)" by (simp add: out)
  then have sub: "chunk_id ` set out \<subseteq> chunk_id ` set rs" "\<forall>r \<in> set out. scored_on RerankerRelevance r"
    using ok by auto
  have all: "\<forall>ps. rerank query (map sr_content rs) (length rs) = Inr ps \<longrightarrow>
      (\<forall>p \<in> set ps. is_finite (snd p)) \<longrightarrow> mset (map fst ps) = mset [0..<length rs] \<longrightarrow>
      mset (map chunk_id out) = mset (map chunk_id rs)"
    unfolding pairs sum.inject by (intro allI impI perm) (simp_all only:)
  show ?thesis by (intro conjI sub ord all)
qed

lemma rerank_keeps_pool_witness:
  "chunk_id ` set [(sample_result 2)\<lparr>sr_score := Reranker (Fin 1)\<rparr>] \<subseteq> chunk_id ` set [sample_result 1, sample_result 2]"
  by (rule rerank_keeps_pool [where rerank = "\<lambda>q ds n. Inr [(1, Fin 1), (0, NaN), (7, Fin 1)]"
        and query = "[]", THEN conjunct1])
     (simp add: rerank_results_def map_filter_simps reranked_result_def score_new_def is_finite_def
        sort_by_score_then_id_def get_at_def sample_result_def)

end
