(* ===== verification/Provenance.thy ===== *)
theory Provenance
  imports Errors
begin

text \<open>
  \<open>services/rag/provenance.rs\<close> and \<open>services/rag/embedding_cache.rs\<close>: the fingerprints an
  index generation is built under, the check that refuses unusable provenance, and the
  embedding cache keyed by role, vector space and text. The lemmas show what a fingerprint
  determines, and that two different lookups can only share a cache slot through a
  collision of the hash, never through the way the key is built.
\<close>

subsection \<open>Fingerprints\<close>

datatype normalization = Unit | Unknown

fun normalization_as_str :: "normalization \<Rightarrow> rstr" where
  "normalization_as_str Unit = lit ''unit''"
| "normalization_as_str Unknown = lit ''unknown''"

record embedding_provenance =
  ep_provider :: rstr
  ep_model :: rstr
  ep_dimension :: nat
  ep_normalization :: normalization

definition colon :: rstr where "colon = [58]"

definition embedding_fingerprint :: "embedding_provenance \<Rightarrow> rstr" where
  "embedding_fingerprint p =
     lit ''emb:v1:'' @ ep_provider p @ colon @ ep_model p @ colon @ show_nat (ep_dimension p) @ colon @
     normalization_as_str (ep_normalization p)"

text \<open>A provider of embeddings, as far as its provenance is read: a name, a model, a width.\<close>

definition from_provider :: "rstr \<Rightarrow> rstr \<Rightarrow> nat \<Rightarrow> embedding_provenance" where
  "from_provider name model dimension =
     \<lparr>ep_provider = name, ep_model = model, ep_dimension = dimension, ep_normalization = Unit\<rparr>"

record chunking_provenance =
  cp_schema_version :: int
  cp_size_unit :: rstr
  cp_sizer_identity :: rstr
  cp_parent_size :: nat
  cp_child_size :: nat
  cp_child_overlap :: nat

definition current_chunking :: "nat \<Rightarrow> chunking_provenance" where
  "current_chunking parent_size =
     \<lparr>cp_schema_version = 1, cp_size_unit = lit ''tokens'',
      cp_sizer_identity = lit ''tiktoken:cl100k_base'', cp_parent_size = parent_size,
      cp_child_size = 256, cp_child_overlap = 25\<rparr>"

definition chunking_fingerprint :: "chunking_provenance \<Rightarrow> rstr" where
  "chunking_fingerprint c =
     lit ''chunk:v'' @ show_int (cp_schema_version c) @ colon @ cp_size_unit c @ colon @
     cp_sizer_identity c @ colon @ show_nat (cp_parent_size c) @ lit ''/'' @
     show_nat (cp_child_size c) @ lit ''+'' @ show_nat (cp_child_overlap c)"

record generation_provenance =
  gp_embedding :: embedding_provenance
  gp_chunking :: chunking_provenance

definition embedding_dim :: nat where "embedding_dim = 1024"

definition legacy_prefix :: rstr where "legacy_prefix = lit ''legacy:''"

text \<open>\<open>debug\<close> prints a string the way \<open>{:?}\<close> does.\<close>

definition validate_provenance ::
  "(rstr \<Rightarrow> rstr) \<Rightarrow> generation_provenance \<Rightarrow> app_error + unit" where
  "validate_provenance debug g =
     (let e = gp_embedding g in
      if trim (ep_provider e) = [] \<or> trim (ep_model e) = [] then
        Inl (Internal (lit ''embedding provenance is incomplete (provider='' @ debug (ep_provider e) @
          lit '', model='' @ debug (ep_model e) @ lit '') '' @ [8212] @
          lit '' a generation cannot record which vectors it holds''))
      else if ep_dimension e = 0 then
        Inl (Internal (lit ''embedding provider `'' @ ep_provider e @ lit ''` reports a width of 0''))
      else if ep_dimension e \<noteq> embedding_dim then
        Inl (Internal (lit ''embedding provider `'' @ ep_provider e @ lit ''` (model `'' @ ep_model e @
          lit ''`) reports width '' @ show_nat (ep_dimension e) @ lit '', but the schema stores vector('' @
          show_nat embedding_dim @ lit '') '' @ [8212] @
          lit '' indexing would mix incompatible vector spaces''))
      else if starts_with (embedding_fingerprint e) legacy_prefix \<or>
              starts_with (chunking_fingerprint (gp_chunking g)) legacy_prefix then
        Inl (Internal (lit ''refusing to build a generation under `legacy` provenance: that marker exists '' @
          lit ''only for chunks backfilled by m20260801_000001_index_generations''))
      else Inr ())"

subsection \<open>The query embedding cache\<close>

datatype query_embedding_kind = Direct | Reformulated | HydeDocument | WorkingMemory

fun kind_as_str :: "query_embedding_kind \<Rightarrow> rstr" where
  "kind_as_str Direct = lit ''direct''"
| "kind_as_str Reformulated = lit ''reformulated''"
| "kind_as_str HydeDocument = lit ''hyde''"
| "kind_as_str WorkingMemory = lit ''memory''"

text \<open>
  What the three \<open>hash\<close> calls feed the hasher: the bytes of each string, each ended by the
  byte 255. The hash function itself is a parameter. The cache is a map from hash values;
  the entries that expire or are evicted leave it between operations.
\<close>

definition key_stream :: "query_embedding_kind \<Rightarrow> rstr \<Rightarrow> rstr \<Rightarrow> nat list" where
  "key_stream kind fingerprint text =
     as_bytes (kind_as_str kind) @ [255] @ as_bytes fingerprint @ [255] @ as_bytes text @ [255]"

definition cache_key :: "(nat list \<Rightarrow> nat) \<Rightarrow> query_embedding_kind \<Rightarrow> rstr \<Rightarrow> rstr \<Rightarrow> nat" where
  "cache_key hash kind fingerprint text = hash (key_stream kind fingerprint text)"

type_synonym 'v embedding_cache = "nat \<rightharpoonup> 'v"

definition cache_new :: "'v embedding_cache" where
  "cache_new = Map.empty"

definition cache_get ::
  "(nat list \<Rightarrow> nat) \<Rightarrow> 'v embedding_cache \<Rightarrow> query_embedding_kind \<Rightarrow> rstr \<Rightarrow> rstr \<Rightarrow> 'v option" where
  "cache_get hash c kind fingerprint text = c (cache_key hash kind fingerprint text)"

definition cache_insert ::
  "(nat list \<Rightarrow> nat) \<Rightarrow> 'v embedding_cache \<Rightarrow> query_embedding_kind \<Rightarrow> rstr \<Rightarrow> rstr \<Rightarrow> 'v \<Rightarrow>
   'v embedding_cache" where
  "cache_insert hash c kind fingerprint text v = c(cache_key hash kind fingerprint text \<mapsto> v)"

subsection \<open>Keys\<close>

definition scalar :: "uchar \<Rightarrow> bool" where
  "scalar c \<longleftrightarrow> c < 1114112"

abbreviation valid_str :: "rstr \<Rightarrow> bool" where
  "valid_str s \<equiv> list_all scalar s"

lemma encode_char_bytes: "scalar c \<Longrightarrow> b \<in> set (encode_char c) \<Longrightarrow> b < 255"
  by (auto simp: encode_char_def scalar_def split: if_splits)

lemma as_bytes_below: "valid_str s \<Longrightarrow> 255 \<notin> set (as_bytes s)"
  by (fastforce simp: as_bytes_def list_all_iff dest: encode_char_bytes)

text \<open>UTF-8 is prefix-free: the first byte of a character tells how many follow.\<close>

definition utf8_width :: "nat \<Rightarrow> nat" where
  "utf8_width b = (if b < 128 then 1 else if b < 224 then 2 else if b < 240 then 3 else 4)"

fun decode_char :: "nat list \<Rightarrow> uchar" where
  "decode_char [a] = a"
| "decode_char [a, b] = (a - 192) * 64 + (b - 128)"
| "decode_char [a, b, c] = (a - 224) * 4096 + ((b - 128) * 64 + (c - 128))"
| "decode_char [a, b, c, d] = (a - 240) * 262144 + ((b - 128) * 4096 + ((c - 128) * 64 + (d - 128)))"
| "decode_char _ = 0"

lemma length_encode_char_hd: "scalar c \<Longrightarrow> length (encode_char c) = utf8_width (hd (encode_char c))"
  by (auto simp: encode_char_def scalar_def utf8_width_def div_less_iff_less_mult not_less)

lemma base64_split:
  fixes c :: nat
  shows "c div 4096 * 4096 + (c div 64 mod 64 * 64 + c mod 64) = c"
    and "c div 262144 * 262144 + (c div 4096 mod 64 * 4096 + (c div 64 mod 64 * 64 + c mod 64)) = c"
proof -
  have two: "c div 64 mod 64 * 64 + c mod 64 = c mod 4096"
    using mod_mult2_eq [of c 64 64] by simp
  then show "c div 4096 * 4096 + (c div 64 mod 64 * 64 + c mod 64) = c" by simp
  have "c div 4096 mod 64 * 4096 + c mod 4096 = c mod 262144"
    using mod_mult2_eq [of c 4096 64] by simp
  with two show "c div 262144 * 262144 + (c div 4096 mod 64 * 4096 + (c div 64 mod 64 * 64 + c mod 64)) = c"
    by simp
qed

lemma decode_encode_char: "decode_char (encode_char c) = c"
  using base64_split [of c] by (simp add: encode_char_def)

lemma encode_char_inject:
  assumes "scalar c" "scalar d" "encode_char c @ s = encode_char d @ t"
  shows "c = d \<and> s = t"
proof -
  have "hd (encode_char c @ s) = hd (encode_char d @ t)" using assms(3) by simp
  then have "hd (encode_char c) = hd (encode_char d)" by (simp add: encode_char_def split: if_splits)
  then have "length (encode_char c) = length (encode_char d)"
    using assms(1,2) by (simp add: length_encode_char_hd)
  with assms(3) have "encode_char c = encode_char d" "s = t" by simp_all
  then have "decode_char (encode_char c) = decode_char (encode_char d)" "s = t" by simp_all
  then show ?thesis by (simp only: decode_encode_char)
qed

lemma encode_char_neq_Nil [simp]: "encode_char c \<noteq> []"
  by (simp add: encode_char_def)

lemma as_bytes_Cons [simp]: "as_bytes (c # cs) = encode_char c @ as_bytes cs"
  and as_bytes_Nil [simp]: "as_bytes [] = []"
  by (simp_all add: as_bytes_def)

lemma as_bytes_inject: "valid_str s \<Longrightarrow> valid_str t \<Longrightarrow> as_bytes s = as_bytes t \<Longrightarrow> s = t"
proof (induction s arbitrary: t)
  case Nil
  then show ?case by (cases t) auto
next
  case (Cons c s)
  then obtain d t' where t: "t = d # t'" by (cases t) auto
  with Cons.prems have "encode_char c @ as_bytes s = encode_char d @ as_bytes t'" "scalar c" "scalar d"
    by simp_all
  then have "c = d" "as_bytes s = as_bytes t'" using encode_char_inject [of c d] by auto
  moreover have "s = t'" by (rule Cons.IH) (use Cons.prems t \<open>as_bytes s = as_bytes t'\<close> in simp_all)
  ultimately show ?case by (simp add: t)
qed

lemma append_sep_inject:
  "x \<notin> set a \<Longrightarrow> x \<notin> set b \<Longrightarrow> a @ x # r = b @ x # s \<longleftrightarrow> a = b \<and> r = s"
proof (induction a arbitrary: b)
  case Nil
  then show ?case by (cases b) auto
next
  case (Cons y a)
  then show ?case by (cases b) auto
qed

lemma kind_as_str_inject [simp]: "kind_as_str k = kind_as_str k' \<longleftrightarrow> k = k'"
  by (cases k; cases k') (simp_all add: lit_def)

lemma valid_kind: "valid_str (kind_as_str k)"
  by (cases k) (simp_all add: lit_def scalar_def)

lemma key_stream_inject:
  assumes "valid_str f" "valid_str f'" "valid_str t" "valid_str t'"
  shows "key_stream k f t = key_stream k' f' t' \<longleftrightarrow> k = k' \<and> f = f' \<and> t = t'"
  using assms valid_kind [of k] valid_kind [of k']
  by (auto simp: key_stream_def append_sep_inject as_bytes_below dest: as_bytes_inject)

text \<open>
  The cache never crosses namespaces by construction: with a hash that does not
  collide on the two keys, a lookup is answered by an insertion exactly when role, vector
  space and text are all the same; any other entry is left as it was.
\<close>

lemma cache_namespaces_are_separate:
  assumes "valid_str f" "valid_str f'" "valid_str t" "valid_str t'"
    and "hash (key_stream k f t) = hash (key_stream k' f' t') \<longrightarrow> key_stream k f t = key_stream k' f' t'"
  shows "cache_get hash (cache_insert hash c k f t v) k' f' t' =
    (if k = k' \<and> f = f' \<and> t = t' then Some v else cache_get hash c k' f' t')"
  using assms(5) key_stream_inject [OF assms(1-4), of k k']
  by (auto simp: cache_get_def cache_insert_def cache_key_def)

lemma cache_namespaces_are_separate_witness:
  "cache_get sum_list (cache_insert sum_list cache_new Direct (lit ''m'') (lit ''q'') (1::nat))
     HydeDocument (lit ''m'') (lit ''q'') = None"
proof -
  have "key_stream Direct (lit ''m'') (lit ''q'') \<noteq> key_stream HydeDocument (lit ''m'') (lit ''q'')"
    "sum_list (key_stream Direct (lit ''m'') (lit ''q'')) \<noteq> sum_list (key_stream HydeDocument (lit ''m'') (lit ''q''))"
    by code_simp+
  then show ?thesis
    using cache_namespaces_are_separate [of "lit ''m''" "lit ''m''" "lit ''q''" "lit ''q''" sum_list Direct
        HydeDocument cache_new 1]
    by (simp add: lit_def scalar_def cache_get_def cache_new_def del: One_nat_def)
qed

subsection \<open>Fingerprints: lemmas\<close>

lemma show_nat_inject [simp]: "show_nat m = show_nat n \<longleftrightarrow> m = n"
  by (metis digits_value_show_nat option.inject)

lemma show_nat_no_colon: "58 \<notin> set (show_nat n)"
  using show_nat_digits [of 58 n] by (auto simp: is_ascii_digit_def)

lemma normalization_as_str_inject [simp]:
  "normalization_as_str m = normalization_as_str n \<longleftrightarrow> m = n"
  by (cases m; cases n) (simp_all add: lit_def)

lemma embedding_fingerprint_inject:
  assumes "58 \<notin> set (ep_provider p)" "58 \<notin> set (ep_model p)"
    "58 \<notin> set (ep_provider q)" "58 \<notin> set (ep_model q)"
    "embedding_fingerprint p = embedding_fingerprint q"
  shows "p = q"
proof -
  have "ep_provider p = ep_provider q \<and> ep_model p = ep_model q \<and> ep_dimension p = ep_dimension q \<and>
      ep_normalization p = ep_normalization q"
    using assms by (simp add: embedding_fingerprint_def colon_def append_sep_inject show_nat_no_colon)
  then show ?thesis by (cases p; cases q) simp
qed

lemma not_legacy:
  "\<not> starts_with (embedding_fingerprint e) legacy_prefix"
  "\<not> starts_with (chunking_fingerprint c) legacy_prefix"
  by (simp_all add: starts_with_def embedding_fingerprint_def chunking_fingerprint_def legacy_prefix_def lit_def)

text \<open>
  What provenance admits and what a fingerprint says: a generation is accepted exactly
  when provider and model are named and the width is the schema's, the \<open>legacy\<close> refusal
  never being reached; two vector spaces whose names have no colon get the same
  fingerprint only if they are the same; but a colon in a name makes two different spaces
  indistinguishable.
\<close>

lemma provenance_identifies_vector_space:
  "(validate_provenance debug g = Inr () \<longleftrightarrow>
     trim (ep_provider (gp_embedding g)) \<noteq> [] \<and> trim (ep_model (gp_embedding g)) \<noteq> [] \<and>
     ep_dimension (gp_embedding g) = 1024) \<and>
   (58 \<notin> set (ep_provider p) \<union> set (ep_model p) \<union> set (ep_provider q) \<union> set (ep_model q) \<longrightarrow>
     embedding_fingerprint p = embedding_fingerprint q \<longrightarrow> p = q) \<and>
   embedding_fingerprint (from_provider (lit ''a'') (lit ''b:c'') n) =
     embedding_fingerprint (from_provider (lit ''a:b'') (lit ''c'') n)"
proof (intro conjI impI)
  show "embedding_fingerprint (from_provider (lit ''a'') (lit ''b:c'') n) =
     embedding_fingerprint (from_provider (lit ''a:b'') (lit ''c'') n)"
    by (simp add: embedding_fingerprint_def from_provider_def lit_def colon_def)
qed (auto simp: validate_provenance_def embedding_dim_def not_legacy Let_def intro: embedding_fingerprint_inject)

lemma provenance_identifies_vector_space_witness:
  "embedding_fingerprint (from_provider (lit ''v'') (lit ''m'') 1024) \<noteq>
   embedding_fingerprint (from_provider (lit ''v'') (lit ''n'') 1024)"
  using provenance_identifies_vector_space [of id undefined "from_provider (lit ''v'') (lit ''m'') 1024"
      "from_provider (lit ''v'') (lit ''n'') 1024", THEN conjunct2, THEN conjunct1]
  by (simp add: from_provider_def lit_def)

end
