(* ===== verification/Search.thy ===== *)
theory Search
  imports Ranking Provenance
begin

text \<open>
  \<open>services/rag/search/mod.rs\<close> and \<open>services/rag/hyde.rs\<close>: how a query becomes a vector
  (cache, hypothetical document, provider) and the three searches. The database, the
  embedding provider and the language model are the record \<open>services\<close>; the cache is
  threaded as state. Timings are telemetry and are left out. The lemmas show that an
  embedded query is remembered, and what a hybrid search may return.
\<close>

subsection \<open>What the code calls\<close>

record hybrid_rows =
  hr_dense :: "chunk_row list"
  hr_lexical :: "chunk_row list"

text \<open>
  One notebook as the repository answers for it, the embedding provider, the optional
  language model behind HyDE (its answer is the text of the response, if any) and the
  optional reranker. \<open>sv_hash\<close> is the hasher and \<open>sv_map_order\<close> the iteration order of a
  hash map.
\<close>

record 'v services =
  sv_count_chunks :: "app_error + int"
  sv_count_sources :: "app_error + int"
  sv_all_chunks :: "app_error + chunk_row list"
  sv_similar :: "'v \<Rightarrow> rstr \<Rightarrow> int \<Rightarrow> app_error + chunk_row list"
  sv_lexical :: "rstr \<Rightarrow> int \<Rightarrow> app_error + chunk_row list"
  sv_hybrid :: "'v \<Rightarrow> rstr \<Rightarrow> rstr \<Rightarrow> int \<Rightarrow> app_error + hybrid_rows"
  sv_embed :: "rstr \<Rightarrow> app_error + 'v"
  sv_provider :: embedding_provenance
  sv_hyde :: "(rstr \<Rightarrow> app_error + rstr option) option"
  sv_reranker :: "app_error reranker option"
  sv_hash :: "nat list \<Rightarrow> nat"
  sv_map_order :: "fusion_entry list \<Rightarrow> fusion_entry list"

record hybrid_config =
  hc_enabled :: bool
  hc_rrf_k :: rfloat
  hc_dense_weight :: rfloat
  hc_sparse_weight :: rfloat

record search_outcome =
  so_results :: "search_result list"
  so_dropped_non_finite :: nat
  so_dense_candidates :: nat
  so_lexical_candidates :: nat
  so_cache_hit :: bool

subsection \<open>Hypothetical documents\<close>

definition word_count :: "rstr \<Rightarrow> nat" where
  "word_count s = length (split_whitespace s)"

definition activation_threshold :: nat where "activation_threshold = 20"

definition should_activate :: "rstr \<Rightarrow> bool" where
  "should_activate query \<longleftrightarrow> word_count query < activation_threshold"

definition hyde_call_llm :: "(rstr \<Rightarrow> app_error + rstr option) \<Rightarrow> rstr \<Rightarrow> app_error + rstr" where
  "hyde_call_llm llm query =
     (case llm query of
        Inl e \<Rightarrow> Inl e
      | Inr response \<Rightarrow>
          let document = trim (case response of Some t \<Rightarrow> t | None \<Rightarrow> [])
          in if document = [] then Inl (Internal (lit ''Empty HyDE response'')) else Inr document)"

definition hyde_generate :: "(rstr \<Rightarrow> app_error + rstr option) \<Rightarrow> rstr \<Rightarrow> rstr option" where
  "hyde_generate llm query =
     (if \<not> should_activate query then None
      else (case hyde_call_llm llm query of Inr d \<Rightarrow> Some d | Inl _ \<Rightarrow> None))"

subsection \<open>Embedding a query\<close>

definition lookup_kinds :: "query_embedding_kind \<Rightarrow> bool \<Rightarrow> query_embedding_kind option list" where
  "lookup_kinds kind hyde_configured =
     (if hyde_configured \<and> kind \<noteq> HydeDocument then [Some HydeDocument, Some kind] else [Some kind, None])"

fun first_cached ::
  "(nat list \<Rightarrow> nat) \<Rightarrow> 'v embedding_cache \<Rightarrow> rstr \<Rightarrow> rstr \<Rightarrow> query_embedding_kind option list \<Rightarrow> 'v option" where
  "first_cached h c fingerprint query [] = None"
| "first_cached h c fingerprint query (None # ks) = first_cached h c fingerprint query ks"
| "first_cached h c fingerprint query (Some k # ks) =
     (case cache_get h c k fingerprint query of
        Some v \<Rightarrow> Some v | None \<Rightarrow> first_cached h c fingerprint query ks)"

record 'v embedded_query =
  eq_vector :: 'v
  eq_fingerprint :: rstr
  eq_cache_hit :: bool

definition fresh_embedding ::
  "'v services \<Rightarrow> query_embedding_kind \<Rightarrow> rstr \<Rightarrow> app_error + ('v \<times> query_embedding_kind)" where
  "fresh_embedding S kind query =
     (let plain = map_sum id (\<lambda>v. (v, kind)) (sv_embed S query) in
      case sv_hyde S of
        None \<Rightarrow> plain
      | Some llm \<Rightarrow>
          (case hyde_generate llm query of
             Some document \<Rightarrow> map_sum id (\<lambda>v. (v, HydeDocument)) (sv_embed S document)
           | None \<Rightarrow> plain))"

text \<open>The cache is an option: a direct embedder has none.\<close>

type_synonym 'v cache_state = "'v embedding_cache option"

definition embed_query ::
  "'v services \<Rightarrow> query_embedding_kind \<Rightarrow> rstr \<Rightarrow> 'v cache_state \<Rightarrow>
   (app_error + 'v embedded_query) \<times> 'v cache_state" where
  "embed_query S kind query cache =
     (let fingerprint = embedding_fingerprint (sv_provider S);
          cached = (case cache of
            Some c \<Rightarrow> first_cached (sv_hash S) c fingerprint query (lookup_kinds kind (sv_hyde S \<noteq> None))
          | None \<Rightarrow> None)
      in case cached of
           Some v \<Rightarrow> (Inr \<lparr>eq_vector = v, eq_fingerprint = fingerprint, eq_cache_hit = True\<rparr>, cache)
         | None \<Rightarrow>
             (case fresh_embedding S kind query of
                Inl e \<Rightarrow> (Inl e, cache)
              | Inr (v, stored_kind) \<Rightarrow>
                  (Inr \<lparr>eq_vector = v, eq_fingerprint = fingerprint, eq_cache_hit = False\<rparr>,
                   map_option (\<lambda>c. cache_insert (sv_hash S) c stored_kind fingerprint query v) cache)))"

subsection \<open>The searches\<close>

definition effective_mode :: "hybrid_config \<Rightarrow> search_mode \<Rightarrow> search_mode" where
  "effective_mode cfg requested =
     (if hc_enabled cfg then requested
      else (case requested of Hybrid \<Rightarrow> DenseMode | other \<Rightarrow> other))"

definition semantic_search_with_hyde ::
  "'v services \<Rightarrow> query_embedding_kind \<Rightarrow> search_request \<Rightarrow> 'v cache_state \<Rightarrow>
   (app_error + search_outcome) \<times> 'v cache_state" where
  "semantic_search_with_hyde S kind request cache =
     (case validated_query request of
        Inl e \<Rightarrow> (Inl e, cache)
      | Inr query \<Rightarrow>
          (case embed_query S kind query cache of
             (Inl e, cache') \<Rightarrow> (Inl e, cache')
           | (Inr embedded, cache') \<Rightarrow>
               (case sv_similar S (eq_vector embedded) (eq_fingerprint embedded) (clamped_limit request) of
                  Inl e \<Rightarrow> (Inl e, cache')
                | Inr chunks \<Rightarrow>
                    let (results, dropped) = filter_and_convert chunks (rq_min_relevance request) DenseSimilarity
                    in (Inr \<lparr>so_results = results, so_dropped_non_finite = dropped,
                          so_dense_candidates = length results, so_lexical_candidates = 0,
                          so_cache_hit = eq_cache_hit embedded\<rparr>, cache'))))"

definition semantic_search ::
  "'v services \<Rightarrow> query_embedding_kind \<Rightarrow> search_request \<Rightarrow> 'v cache_state \<Rightarrow>
   (app_error + search_result list) \<times> 'v cache_state" where
  "semantic_search S kind request cache =
     (let (r, cache') = semantic_search_with_hyde S kind request cache in (map_sum id so_results r, cache'))"

definition lexical_search :: "'v services \<Rightarrow> search_request \<Rightarrow> app_error + search_outcome" where
  "lexical_search S request =
     (case validated_query request of
        Inl e \<Rightarrow> Inl e
      | Inr query \<Rightarrow>
          (case sv_lexical S query (clamped_limit request) of
             Inl e \<Rightarrow> Inl e
           | Inr chunks \<Rightarrow>
               let (results, dropped) = filter_and_convert chunks (rq_min_relevance request) LexicalRank
               in Inr \<lparr>so_results = results, so_dropped_non_finite = dropped, so_dense_candidates = 0,
                    so_lexical_candidates = length results, so_cache_hit = False\<rparr>))"

definition fuse_rows ::
  "'v services \<Rightarrow> hybrid_config \<Rightarrow> search_request \<Rightarrow> bool \<Rightarrow> hybrid_rows \<Rightarrow> search_outcome" where
  "fuse_rows S cfg request cache_hit rows =
     (let (dense_results, dense_dropped) = filter_and_convert (hr_dense rows) None DenseSimilarity;
          (lexical_results, lexical_dropped) = filter_and_convert (hr_lexical rows) None LexicalRank;
          fused = reciprocal_rank_fusion (sv_map_order S) dense_results lexical_results
            (hc_rrf_k cfg) (hc_dense_weight cfg) (hc_sparse_weight cfg);
          min_rel = (case rq_min_relevance request of Some m \<Rightarrow> m | None \<Rightarrow> Fin 0);
          results = take (nat (rq_limit request)) (filter (\<lambda>r. f_le min_rel (relevance r)) fused)
      in \<lparr>so_results = results, so_dropped_non_finite = dense_dropped + lexical_dropped,
          so_dense_candidates = length dense_results, so_lexical_candidates = length lexical_results,
          so_cache_hit = cache_hit\<rparr>)"

definition hybrid_search ::
  "'v services \<Rightarrow> hybrid_config \<Rightarrow> query_embedding_kind \<Rightarrow> search_request \<Rightarrow> 'v cache_state \<Rightarrow>
   (app_error + search_outcome) \<times> 'v cache_state" where
  "hybrid_search S cfg kind request cache =
     (case validated_query request of
        Inl e \<Rightarrow> (Inl e, cache)
      | Inr query \<Rightarrow>
          (case embed_query S kind query cache of
             (Inl e, cache') \<Rightarrow> (Inl e, cache')
           | (Inr embedded, cache') \<Rightarrow>
               (case sv_hybrid S (eq_vector embedded) (eq_fingerprint embedded) query (clamped_limit request) of
                  Inl e \<Rightarrow> (Inl e, cache')
                | Inr rows \<Rightarrow> (Inr (fuse_rows S cfg request (eq_cache_hit embedded) rows), cache'))))"

definition search ::
  "'v services \<Rightarrow> hybrid_config \<Rightarrow> query_embedding_kind \<Rightarrow> search_request \<Rightarrow> 'v cache_state \<Rightarrow>
   (app_error + search_outcome) \<times> 'v cache_state" where
  "search S cfg kind request cache =
     (case effective_mode cfg (rq_mode request) of
        Hybrid \<Rightarrow> hybrid_search S cfg kind request cache
      | DenseMode \<Rightarrow> semantic_search_with_hyde S kind request cache
      | LexicalMode \<Rightarrow> (lexical_search S request, cache))"

subsection \<open>Remembering an embedding\<close>

lemma map_sum_id_Inr [simp]: "map_sum id f x = Inr y \<longleftrightarrow> (\<exists>b. x = Inr b \<and> y = f b)"
  by (cases x) auto

lemma map_sum_id_Inl [simp]: "map_sum id f x = Inl e \<longleftrightarrow> x = Inl e"
  by (cases x) auto

text \<open>
  A slot another role hashes to is answered with the vector just stored; so whatever the
  hasher does, the next lookup of a query that missed finds it.
\<close>

lemma first_cached_after_miss:
  assumes "first_cached h c f q ks = None" "Some k \<in> set ks"
  shows "first_cached h (cache_insert h c k f q v) f q ks = Some v"
  using assms
proof (induction h c f q ks rule: first_cached.induct)
  case (3 h c f q k' ks)
  then show ?case
    by (auto simp: cache_get_def cache_insert_def split: option.splits if_splits)
qed auto

lemma fresh_embedding_kind:
  "fresh_embedding S kind query = Inr (v, k) \<Longrightarrow> Some k \<in> set (lookup_kinds kind (sv_hyde S \<noteq> None))"
  by (auto simp: fresh_embedding_def lookup_kinds_def Let_def split: option.splits)

lemma embed_query_cases:
  assumes "embed_query S kind query cache = (Inr e, cache')"
  shows "eq_fingerprint e = embedding_fingerprint (sv_provider S) \<and>
    (if eq_cache_hit e then cache' = cache
     else \<exists>k. fresh_embedding S kind query = Inr (eq_vector e, k) \<and>
       cache' = map_option (\<lambda>c. cache_insert (sv_hash S) c k (eq_fingerprint e) query (eq_vector e)) cache)"
  using assms by (auto simp: embed_query_def Let_def split: option.splits sum.splits)

lemma embed_query_again:
  assumes "embed_query S kind query (Some c) = (Inr e, cache')"
  shows "embed_query S' kind query cache' =
    (if sv_hash S' = sv_hash S \<and> sv_provider S' = sv_provider S \<and> (sv_hyde S' = None) = (sv_hyde S = None)
     then (Inr (e\<lparr>eq_cache_hit := True\<rparr>), cache') else embed_query S' kind query cache')"
proof -
  let ?f = "embedding_fingerprint (sv_provider S)" and ?ks = "lookup_kinds kind (sv_hyde S \<noteq> None)"
  have "case cache' of Some c' \<Rightarrow> first_cached (sv_hash S) c' ?f query ?ks = Some (eq_vector e) | None \<Rightarrow> False"
    using assms
    by (auto simp: embed_query_def Let_def split: option.splits sum.splits
        intro!: first_cached_after_miss dest: fresh_embedding_kind)
  then show ?thesis
    using embed_query_cases [OF assms]
    by (auto simp: embed_query_def Let_def split: option.splits)
qed

subsection \<open>What hybrid search returns\<close>

text \<open>All that is used of a hash map's iteration: it visits each entry once.\<close>

definition fair_map_order :: "'v services \<Rightarrow> bool" where
  "fair_map_order S \<longleftrightarrow> (\<forall>t. mset (sv_map_order S t) = mset t)"

lemma fuse_rows_results:
  assumes "fair_map_order S" "rs = so_results (fuse_rows S cfg request hit rows)"
  shows "length rs \<le> nat (rq_limit request)" "distinct (map chunk_id rs)"
    "sorted_wrt (\<lambda>a b. score_then_id a b \<noteq> Greater) rs" "\<forall>r \<in> set rs. scored_on RrfRank r"
    "chunk_id ` set rs \<subseteq> row_id ` set (hr_dense rows) \<union> row_id ` set (hr_lexical rows)"
proof -
  let ?d = "fst (filter_and_convert (hr_dense rows) None DenseSimilarity)"
  let ?l = "fst (filter_and_convert (hr_lexical rows) None LexicalRank)"
  let ?t = "fusion_table ?d ?l (hc_rrf_k cfg) (hc_dense_weight cfg) (hc_sparse_weight cfg)"
  let ?F = "reciprocal_rank_fusion (sv_map_order S) ?d ?l (hc_rrf_k cfg) (hc_dense_weight cfg) (hc_sparse_weight cfg)"
  obtain m where rs: "rs = take (nat (rq_limit request)) (filter (\<lambda>r. f_le m (relevance r)) ?F)"
    by (simp add: assms(2) fuse_rows_def Let_def split_def)
  have perm: "mset (sv_map_order S ?t) = mset ?t" using assms(1) by (simp add: fair_map_order_def)
  note F = fusion_canonical [where t = ?t and f = "sv_map_order S" and g = "sv_map_order S", OF perm perm refl]
  have sub: "set rs \<subseteq> set ?F" by (auto simp: rs dest: in_set_takeD)
  have filt: "sorted_wrt P (filter Q xs)" if "sorted_wrt P xs" for P Q and xs :: "search_result list"
    using that by (induction xs) auto
  show "length rs \<le> nat (rq_limit request)" by (simp add: rs)
  show "distinct (map chunk_id rs)"
    using F by (simp add: rs distinct_map_filter flip: take_map)
  show "sorted_wrt (\<lambda>a b. score_then_id a b \<noteq> Greater) rs"
    using F by (simp add: rs filt sorted_wrt_take)
  show "\<forall>r \<in> set rs. scored_on RrfRank r"
  proof
    fix r assume "r \<in> set rs"
    then have "r \<in> set (List.map_filter redomain (sv_map_order S ?t))"
      using sub by (auto simp: reciprocal_rank_fusion_def sort_by_score_then_id_def)
    then show "scored_on RrfRank r" by (rule set_map_filter_redomain)
  qed
  have "chunk_id ` set ?F \<subseteq> entry_id ` set ?t" using F by auto
  also have "\<dots> = chunk_id ` set ?d \<union> chunk_id ` set ?l" by (rule set_ids_fusion_table)
  also have "\<dots> \<subseteq> row_id ` set (hr_dense rows) \<union> row_id ` set (hr_lexical rows)"
    using ids_filter_and_convert by blast
  finally show "chunk_id ` set rs \<subseteq> row_id ` set (hr_dense rows) \<union> row_id ` set (hr_lexical rows)"
    using sub by blast
qed

lemma hybrid_search_Inr:
  assumes "hybrid_search S cfg kind request cache = (Inr out, cache')"
  obtains e query rows where "validated_query request = Inr query"
    "embed_query S kind query cache = (Inr e, cache')"
    "sv_hybrid S (eq_vector e) (eq_fingerprint e) query (clamped_limit request) = Inr rows"
    "out = fuse_rows S cfg request (eq_cache_hit e) rows"
  using assms by (auto simp: hybrid_search_def split: sum.splits prod.splits)

text \<open>A notebook with three chunks, every embedding equal, and a map iterated backwards.\<close>

definition sample_row :: "nat \<Rightarrow> rstr option \<Rightarrow> chunk_row" where
  "sample_row i parent = \<lparr>row_id = i, row_generation_id = 1, row_source_id = 1, row_chunk_index = int i,
     row_content = lit ''c'', row_parent_content = parent, row_source_title = lit ''t'',
     row_relevance_score = Fin 1, row_metadata = None\<rparr>"

definition sample_services :: "nat services" where
  "sample_services = \<lparr>sv_count_chunks = Inr 3, sv_count_sources = Inr 1,
     sv_all_chunks = Inr [sample_row 1 None, sample_row 2 (Some (lit ''p'')), sample_row 3 (Some (lit ''p''))],
     sv_similar = (\<lambda>v f n. Inr [sample_row 1 None]), sv_lexical = (\<lambda>q n. Inr []),
     sv_hybrid = (\<lambda>v f q n. Inr \<lparr>hr_dense = [sample_row 1 None, sample_row 2 (Some (lit ''p''))],
        hr_lexical = [sample_row 2 (Some (lit ''p''))]\<rparr>),
     sv_embed = (\<lambda>t. Inr 7), sv_provider = from_provider (lit ''v'') (lit ''m'') 1024,
     sv_hyde = None, sv_reranker = None, sv_hash = sum_list, sv_map_order = rev\<rparr>"

definition sample_hybrid :: hybrid_config where
  "sample_hybrid = \<lparr>hc_enabled = True, hc_rrf_k = Fin 60, hc_dense_weight = Fin 1, hc_sparse_weight = Fin (1/4)\<rparr>"

lemma sample_services_fair: "fair_map_order sample_services"
  by (simp add: fair_map_order_def sample_services_def)

text \<open>
  A query is embedded once: after a lookup that succeeds (from the cache, from a
  hypothetical document or from the provider), the next lookup of the same query in the
  same role is answered from the cache with the same vector and leaves the cache as it
  is, even when the provider meanwhile fails.
\<close>

theorem embedding_is_remembered:
  assumes "embed_query S kind query (Some c) = (Inr e, cache')"
  shows "embed_query (S\<lparr>sv_embed := other\<rparr>) kind query cache' = (Inr (e\<lparr>eq_cache_hit := True\<rparr>), cache')"
  by (subst embed_query_again [OF assms]) simp

theorem embedding_is_remembered_witness:
  "\<exists>cache'. embed_query sample_services Direct (lit ''q'') (Some cache_new) =
       (Inr \<lparr>eq_vector = 7, eq_fingerprint = lit ''emb:v1:v:m:1024:unit'', eq_cache_hit = False\<rparr>, cache') \<and>
     embed_query (sample_services\<lparr>sv_embed := \<lambda>t. Inl (Internal [])\<rparr>) Direct (lit ''q'') cache' =
       (Inr \<lparr>eq_vector = 7, eq_fingerprint = lit ''emb:v1:v:m:1024:unit'', eq_cache_hit = True\<rparr>, cache')"
proof -
  have f: "embedding_fingerprint (sv_provider sample_services) = lit ''emb:v1:v:m:1024:unit''" by code_simp
  have "\<exists>cache'. embed_query sample_services Direct (lit ''q'') (Some cache_new) =
       (Inr \<lparr>eq_vector = 7, eq_fingerprint = lit ''emb:v1:v:m:1024:unit'', eq_cache_hit = False\<rparr>, cache')"
    unfolding embed_query_def f
    by (simp add: sample_services_def cache_new_def cache_get_def lookup_kinds_def fresh_embedding_def Let_def)
  then show ?thesis using embedding_is_remembered by fastforce
qed

text \<open>
  What a hybrid search returns: at most the requested number of results, each chunk
  once, in the canonical order of score then identity, every one with a finite score of
  the fused domain and found by one of the two rankings.
\<close>

lemma hybrid_search_results:
  assumes "fair_map_order S" "hybrid_search S cfg kind request cache = (Inr out, cache')"
  shows "length (so_results out) \<le> nat (rq_limit request) \<and> distinct (map chunk_id (so_results out)) \<and>
    sorted_wrt (\<lambda>a b. score_then_id a b \<noteq> Greater) (so_results out) \<and>
    (\<forall>r \<in> set (so_results out). scored_on RrfRank r) \<and>
    (\<exists>v f q rows. sv_hybrid S v f q (clamped_limit request) = Inr rows \<and>
       chunk_id ` set (so_results out) \<subseteq> row_id ` set (hr_dense rows) \<union> row_id ` set (hr_lexical rows))"
  using assms(2)
proof (rule hybrid_search_Inr)
  fix e query rows
  assume "sv_hybrid S (eq_vector e) (eq_fingerprint e) query (clamped_limit request) = Inr rows"
    and "out = fuse_rows S cfg request (eq_cache_hit e) rows"
  with fuse_rows_results [OF assms(1) refl, of cfg request "eq_cache_hit e" rows] show ?thesis by blast
qed

lemma hybrid_search_results_witness:
  "\<exists>out cache'. hybrid_search sample_services sample_hybrid Direct (new_request (lit ''q'')) None = (Inr out, cache') \<and>
     length (so_results out) \<le> 10"
proof -
  have "\<exists>out cache'. hybrid_search sample_services sample_hybrid Direct (new_request (lit ''q'')) None = (Inr out, cache')"
    by (simp add: hybrid_search_def validated_query_def new_request_def embed_query_def fresh_embedding_def
        sample_services_def trim_def trim_start_def trim_end_def is_whitespace_def lit_def Let_def)
  then obtain out cache' where out:
    "hybrid_search sample_services sample_hybrid Direct (new_request (lit ''q'')) None = (Inr out, cache')" by blast
  with hybrid_search_results [OF sample_services_fair out, THEN conjunct1] show ?thesis
    by (auto simp: new_request_def)
qed

end
