(* ===== verification/Budget.thy ===== *)
theory Budget
  imports Rust_Str
begin

text \<open>
  \<open>llm/budget.rs\<close> with the static model catalog of \<open>clients/models.rs\<close>: the declared
  context windows, the arithmetic of one request's window, the byte meter, per-message
  truncation and the history fitting loop. The lemmas show that truncation never slices
  inside a character, that the fitted history is the longest suffix that fits, and that it
  stays within its budget.
\<close>

subsection \<open>The catalog\<close>

record model_info =
  mi_id :: rstr
  mi_name :: rstr
  mi_description :: "rstr option"
  mi_context_window :: "nat option"

definition anthropic_models :: "model_info list" where
  "anthropic_models =
    [\<lparr>mi_id = lit ''claude-opus-4-6-20260220'', mi_name = lit ''Claude Opus 4.6'',
      mi_description = Some (lit ''Most capable model for complex tasks''), mi_context_window = Some 200000\<rparr>,
     \<lparr>mi_id = lit ''claude-sonnet-4-6-20260220'', mi_name = lit ''Claude Sonnet 4.6'',
      mi_description = Some (lit ''Best for complex agents and coding''), mi_context_window = Some 200000\<rparr>,
     \<lparr>mi_id = lit ''claude-haiku-4-5-20251001'', mi_name = lit ''Claude Haiku 4.5'',
      mi_description = Some (lit ''Fastest model with near-frontier intelligence''),
      mi_context_window = Some 200000\<rparr>]"

definition openai_models :: "model_info list" where
  "openai_models =
    [\<lparr>mi_id = lit ''gpt-5.2'', mi_name = lit ''GPT-5.2'',
      mi_description = Some (lit ''Advanced reasoning''), mi_context_window = Some 400000\<rparr>,
     \<lparr>mi_id = lit ''gpt-5-mini'', mi_name = lit ''GPT-5 mini'',
      mi_description = Some (lit ''Fast and affordable''), mi_context_window = Some 400000\<rparr>]"

definition mistral_models :: "model_info list" where
  "mistral_models =
    [\<lparr>mi_id = lit ''mistral-small-latest'', mi_name = lit ''Mistral Small'',
      mi_description = Some (lit ''Fast and efficient''), mi_context_window = Some 32768\<rparr>,
     \<lparr>mi_id = lit ''mistral-large-latest'', mi_name = lit ''Mistral Large'',
      mi_description = Some (lit ''Advanced reasoning''), mi_context_window = Some 131072\<rparr>]"

definition models_for_provider :: "rstr \<Rightarrow> model_info list option" where
  "models_for_provider provider =
     (if provider = lit ''anthropic'' then Some anthropic_models
      else if provider = lit ''openai'' then Some openai_models
      else if provider = lit ''mistral'' then Some mistral_models
      else None)"

definition catalog_context_window :: "rstr \<Rightarrow> rstr \<Rightarrow> nat option" where
  "catalog_context_window provider model =
     Option.bind (models_for_provider provider)
       (\<lambda>ms. Option.bind (List.find (\<lambda>m. mi_id m = model) ms) mi_context_window)"

definition model_ids_for_provider :: "rstr \<Rightarrow> rstr list" where
  "model_ids_for_provider provider =
     map mi_id (case models_for_provider provider of Some ms \<Rightarrow> ms | None \<Rightarrow> [])"

definition context_window_for_model :: "rstr \<Rightarrow> rstr \<Rightarrow> nat option" where
  "context_window_for_model provider model =
     (if provider = lit ''deterministic'' \<and> model = lit ''deterministic-echo-v1'' then Some 128000
      else catalog_context_window provider model)"

subsection \<open>The meter\<close>

definition meter_write :: "nat \<Rightarrow> rstr \<Rightarrow> nat" where
  "meter_write bytes s = bytes + str_len s"

definition estimate_tokens :: "rstr \<Rightarrow> nat" where
  "estimate_tokens text = meter_write 0 text"

definition message_tokens :: "rstr \<Rightarrow> nat" where
  "message_tokens c = estimate_tokens c + 8"

lemma estimate_tokens_len [model_simps]: "estimate_tokens s = str_len s"
  by (simp add: estimate_tokens_def meter_write_def)

lemma message_tokens_len [model_simps]: "message_tokens s = str_len s + 8"
  by (simp add: message_tokens_def estimate_tokens_len)

subsection \<open>The budget\<close>

datatype role = User | Assistant | System

record llm_message =
  msg_role :: role
  msg_content :: rstr

record prompt_budget =
  pb_window :: nat
  pb_reserve :: nat
  pb_output :: nat

definition budget_new :: "nat \<Rightarrow> nat \<Rightarrow> prompt_budget" where
  "budget_new window output =
     \<lparr>pb_window = window, pb_reserve = max 1024 (window * 5 div 100), pb_output = output\<rparr>"

definition budget_for_model :: "rstr \<Rightarrow> rstr \<Rightarrow> nat \<Rightarrow> prompt_budget option" where
  "budget_for_model provider model output =
     map_option (\<lambda>w. budget_new w output) (context_window_for_model provider model)"

definition prompt_allowance :: "prompt_budget \<Rightarrow> nat" where
  "prompt_allowance b = pb_window b - pb_reserve b - pb_output b - 16"

definition evidence_cap :: "prompt_budget \<Rightarrow> nat" where
  "evidence_cap b = pb_window b * 60 div 100"

definition memory_cap :: "prompt_budget \<Rightarrow> nat" where
  "memory_cap b = pb_window b * 10 div 100"

definition request_tokens :: "rstr \<Rightarrow> llm_message list \<Rightarrow> nat" where
  "request_tokens system_prompt messages =
     16 + estimate_tokens system_prompt + sum_list (map (\<lambda>m. message_tokens (msg_content m)) messages)"

definition admits_with_additional :: "prompt_budget \<Rightarrow> rstr \<Rightarrow> llm_message list \<Rightarrow> nat \<Rightarrow> bool" where
  "admits_with_additional b system_prompt messages additional \<longleftrightarrow>
     saturating_add usize_max
       (saturating_add usize_max
         (saturating_add usize_max (request_tokens system_prompt messages) additional) (pb_output b))
       (pb_reserve b) \<le> pb_window b"

definition admits :: "prompt_budget \<Rightarrow> rstr \<Rightarrow> llm_message list \<Rightarrow> bool" where
  "admits b system_prompt messages = admits_with_additional b system_prompt messages 0"

lemma admits_iff:
  "pb_window b < usize_max \<Longrightarrow>
   admits_with_additional b sys ms extra \<longleftrightarrow>
     request_tokens sys ms + extra + pb_output b + pb_reserve b \<le> pb_window b"
  by (auto simp: admits_with_additional_def saturating_add_def)

subsection \<open>Truncating one message\<close>

definition truncation_marker :: rstr where
  "truncation_marker = [10, 10] @ lit ''[...truncated, full response available in history]''"

fun truncate_scan :: "nat \<Rightarrow> nat \<Rightarrow> nat \<Rightarrow> (nat \<times> uchar) list \<Rightarrow> nat" where
  "truncate_scan target byte_count truncate_at [] = truncate_at"
| "truncate_scan target byte_count truncate_at ((i, c) # rest) =
     (let new_bytes = byte_count + len_utf8 c in
      if new_bytes > target then truncate_at
      else truncate_scan target new_bytes (i + len_utf8 c) rest)"

text \<open>\<open>None\<close> is the panic of a slice that falls inside a character.\<close>

definition truncate_checked :: "rstr \<Rightarrow> nat \<Rightarrow> rstr option" where
  "truncate_checked c max_tokens =
     (if estimate_tokens c \<le> max_tokens then Some c
      else
        let marker_tokens = estimate_tokens truncation_marker;
            target_tokens = max_tokens - marker_tokens;
            truncate_at = truncate_scan target_tokens 0 0 (char_indices 0 c)
        in map_option (\<lambda>p. p @ truncation_marker) (get_prefix c truncate_at))"

definition truncate_message_content :: "rstr \<Rightarrow> nat \<Rightarrow> rstr" where
  "truncate_message_content c max_tokens = (case truncate_checked c max_tokens of Some t \<Rightarrow> t | None \<Rightarrow> [])"

primrec longest_prefix :: "nat \<Rightarrow> rstr \<Rightarrow> rstr" where
  "longest_prefix n [] = []"
| "longest_prefix n (c # cs) =
     (if len_utf8 c \<le> n then c # longest_prefix (n - len_utf8 c) cs else [])"

lemma truncate_scan_eq:
  "off \<le> target \<Longrightarrow>
   truncate_scan target off off (char_indices off s) = off + str_len (longest_prefix (target - off) s)"
proof (induction s arbitrary: off)
  case (Cons c s)
  show ?case
  proof (cases "off + len_utf8 c \<le> target")
    case True
    then have le: "len_utf8 c \<le> target - off" by simp
    from True Cons.IH [OF True] show ?thesis by (simp add: Let_def le)
  next
    case False
    with Cons.prems have "\<not> len_utf8 c \<le> target - off" by linarith
    with False show ?thesis by (simp add: Let_def)
  qed
qed simp

lemma longest_prefix_append: "\<exists>r. s = longest_prefix n s @ r"
  by (induction s arbitrary: n) auto

lemma longest_prefix_le: "str_len (longest_prefix n s) \<le> n"
proof (induction s arbitrary: n)
  case (Cons c s)
  from Cons.IH [of "n - len_utf8 c"] show ?case by auto
qed simp

lemma longest_prefix_maximal:
  "s = longest_prefix n s @ c # r \<Longrightarrow> n < str_len (longest_prefix n s) + len_utf8 c"
proof (induction s arbitrary: n)
  case (Cons d s)
  then show ?case by (auto split: if_splits) fastforce
qed simp

lemma truncate_checked_eq:
  "truncate_checked c m =
     Some (if str_len c \<le> m then c
           else longest_prefix (m - str_len truncation_marker) c @ truncation_marker)"
proof -
  let ?p = "longest_prefix (m - str_len truncation_marker) c"
  obtain r where "c = ?p @ r" using longest_prefix_append by blast
  then have "get_prefix c (str_len ?p) = Some ?p" by (metis get_prefix_append)
  then show ?thesis
    using truncate_scan_eq [of 0 "m - str_len truncation_marker" c]
    by (simp add: truncate_checked_def estimate_tokens_len Let_def)
qed

lemma truncate_message_content_eq:
  "truncate_message_content c m =
     (if str_len c \<le> m then c
      else longest_prefix (m - str_len truncation_marker) c @ truncation_marker)"
  by (simp add: truncate_message_content_def truncate_checked_eq)

lemma str_len_marker [simp]: "str_len truncation_marker = 52"
  by code_simp

subsection \<open>Fitting the history\<close>

record fitted_history =
  fh_messages :: "llm_message list"
  fh_dropped :: "llm_message list"
  fh_was_truncated :: bool
  fh_tokens :: nat

definition truncated_message :: "llm_message \<Rightarrow> llm_message" where
  "truncated_message m = m\<lparr>msg_content := truncate_message_content (msg_content m) 2000\<rparr>"

fun fit_loop :: "nat \<Rightarrow> nat \<Rightarrow> llm_message list \<Rightarrow> llm_message list \<Rightarrow> nat \<times> llm_message list" where
  "fit_loop budget tot kept [] = (tot, kept)"
| "fit_loop budget tot kept (m # ms) =
     (let m' = truncated_message m; t = message_tokens (msg_content m') in
      if tot + t > budget then (tot, kept)
      else fit_loop budget (tot + t) (kept @ [m']) ms)"

definition fit_history :: "llm_message list \<Rightarrow> nat \<Rightarrow> fitted_history" where
  "fit_history history budget_tokens =
     (let (tot, newest_first) = fit_loop budget_tokens 0 [] (rev history);
          kept = rev newest_first;
          was_truncated = length kept < length history
      in \<lparr>fh_messages = kept,
          fh_dropped = (if was_truncated then take (length history - length kept) history else []),
          fh_was_truncated = was_truncated,
          fh_tokens = tot\<rparr>)"

definition messages_tokens :: "llm_message list \<Rightarrow> nat" where
  "messages_tokens ms = sum_list (map (\<lambda>m. message_tokens (msg_content m)) ms)"

lemma messages_tokens_simps [simp]:
  "messages_tokens [] = 0"
  "messages_tokens (m # ms) = message_tokens (msg_content m) + messages_tokens ms"
  "messages_tokens (ms @ ns) = messages_tokens ms + messages_tokens ns"
  "messages_tokens (rev ms) = messages_tokens ms"
  by (simp_all add: messages_tokens_def rev_map [symmetric] sum_list_rev)

lemma fit_loop_spec:
  assumes "fit_loop budget tot kept ms = (tot', kept')" "tot = messages_tokens kept"
    "tot \<le> budget"
  shows "\<exists>n \<le> length ms. kept' = kept @ map truncated_message (take n ms) \<and>
    tot' = messages_tokens kept' \<and> tot' \<le> budget \<and>
    (n < length ms \<longrightarrow> budget < tot' + message_tokens (msg_content (truncated_message (ms ! n))))"
  using assms
proof (induction ms arbitrary: tot kept)
  case (Cons m ms)
  let ?t = "message_tokens (msg_content (truncated_message m))"
  show ?case
  proof (cases "tot + ?t > budget")
    case True
    with Cons.prems show ?thesis by (intro exI [of _ 0]) (auto simp: Let_def)
  next
    case False
    with Cons.prems have step: "fit_loop budget (tot + ?t) (kept @ [truncated_message m]) ms = (tot', kept')"
      and pre: "tot + ?t = messages_tokens (kept @ [truncated_message m])" "tot + ?t \<le> budget"
      by (simp_all add: Let_def)
    from Cons.IH [OF step pre] obtain n where n: "n \<le> length ms"
      "kept' = (kept @ [truncated_message m]) @ map truncated_message (take n ms)"
      "tot' = messages_tokens kept'" "tot' \<le> budget"
      "n < length ms \<longrightarrow> budget < tot' + message_tokens (msg_content (truncated_message (ms ! n)))"
      by blast
    then show ?thesis by (intro exI [of _ "Suc n"]) auto
  qed
qed simp

lemma fit_history_spec:
  fixes history budget
  defines "h \<equiv> fit_history history budget"
  shows "\<exists>k \<le> length history. fh_dropped h = take k history \<and>
    fh_messages h = map truncated_message (drop k history) \<and>
    fh_was_truncated h = (0 < k) \<and>
    fh_tokens h = messages_tokens (fh_messages h) \<and> fh_tokens h \<le> budget \<and>
    (0 < k \<longrightarrow> budget < fh_tokens h + message_tokens (msg_content (truncated_message (history ! (k - 1)))))"
proof -
  obtain tot kept where loop: "fit_loop budget 0 [] (rev history) = (tot, kept)"
    by (cases "fit_loop budget 0 [] (rev history)") auto
  from fit_loop_spec [OF loop] obtain n where n: "n \<le> length history"
    "kept = map truncated_message (take n (rev history))"
    "tot = messages_tokens kept" "tot \<le> budget"
    "n < length history \<longrightarrow> budget < tot + message_tokens (msg_content (truncated_message (rev history ! n)))"
    by auto
  have len: "length kept = n" using n by simp
  have "rev kept = map truncated_message (drop (length history - n) history)"
    using n by (simp add: take_rev rev_map)
  moreover have "messages_tokens (rev kept) = tot" using n(3) by simp
  ultimately have kept: "fh_messages h = map truncated_message (drop (length history - n) history)"
    "messages_tokens (fh_messages h) = fh_tokens h" "fh_tokens h = tot"
    by (simp_all add: h_def fit_history_def loop Let_def)
  have rest: "fh_dropped h = take (length history - n) history" "fh_was_truncated h = (0 < length history - n)"
    using n(1) by (auto simp: h_def fit_history_def loop len Let_def)
  show ?thesis
    using n(1,4,5) kept rest by (intro exI [of _ "length history - n"]) (simp add: rev_nth)
qed

lemma fit_history_tokens_le: "fh_tokens (fit_history history budget) \<le> budget"
  using fit_history_spec [of history budget] by blast

lemma fit_history_messages_tokens:
  "messages_tokens (fh_messages (fit_history history budget)) = fh_tokens (fit_history history budget)"
  using fit_history_spec [of history budget] by metis

text \<open>
  Fitting keeps the longest suffix of the history that fits: the dropped messages and
  the kept ones are the two halves of the history, the kept ones are within the budget,
  and keeping one more (the newest dropped) would exceed it.
\<close>

lemma fit_history_longest_suffix:
  "\<exists>k. k \<le> length history \<and>
     fh_dropped (fit_history history budget) = take k history \<and>
     fh_messages (fit_history history budget) = map truncated_message (drop k history) \<and>
     fh_tokens (fit_history history budget) = messages_tokens (fh_messages (fit_history history budget)) \<and>
     fh_tokens (fit_history history budget) \<le> budget \<and>
     (k = 0 \<or> budget < fh_tokens (fit_history history budget) +
        message_tokens (msg_content (truncated_message (history ! (k - 1)))))"
proof -
  from fit_history_spec [of history budget] obtain k where k: "k \<le> length history"
    "fh_dropped (fit_history history budget) = take k history"
    "fh_messages (fit_history history budget) = map truncated_message (drop k history)"
    "fh_tokens (fit_history history budget) = messages_tokens (fh_messages (fit_history history budget))"
    "fh_tokens (fit_history history budget) \<le> budget"
    "0 < k \<longrightarrow> budget < fh_tokens (fit_history history budget) +
       message_tokens (msg_content (truncated_message (history ! (k - 1))))"
    by blast
  then show ?thesis by (intro exI [of _ k]) auto
qed

text \<open>
  Truncating a message never panics on a character boundary; a message that fits is
  unchanged, a longer one becomes its longest prefix that leaves room for the marker,
  followed by the marker, and the result is within the limit (or is the marker alone,
  when the limit is smaller than the marker).
\<close>

lemma truncate_message_longest_prefix:
  "\<exists>t. truncate_checked c m = Some t \<and> str_len t \<le> max m 52 \<and>
     (if str_len c \<le> m then t = c
      else \<exists>p r. c = p @ r \<and> t = p @ truncation_marker \<and>
        r \<noteq> [] \<and> m - 52 < str_len p + len_utf8 (hd r))"
proof (cases "str_len c \<le> m")
  case False
  let ?p = "longest_prefix (m - 52) c"
  obtain r where r: "c = ?p @ r" using longest_prefix_append by blast
  have le: "str_len ?p \<le> m - 52" by (rule longest_prefix_le)
  have "r \<noteq> []" using r le False by auto
  then have "m - 52 < str_len ?p + len_utf8 (hd r)"
    using r longest_prefix_maximal [of c "m - 52" "hd r" "tl r"] by simp
  with r \<open>r \<noteq> []\<close> have "\<exists>p r. c = p @ r \<and> ?p @ truncation_marker = p @ truncation_marker \<and>
      r \<noteq> [] \<and> m - 52 < str_len p + len_utf8 (hd r)"
    by (intro exI [of _ ?p] exI [of _ r] conjI) simp_all
  moreover have "truncate_checked c m = Some (?p @ truncation_marker)"
    using False by (simp add: truncate_checked_eq)
  ultimately show ?thesis
    using False le by (intro exI [of _ "?p @ truncation_marker"]) simp
qed (simp add: truncate_checked_eq)

end
