(* ===== verification/Formatting.thy ===== *)
theory Formatting
  imports Budget Scores
begin

text \<open>
  \<open>services/rag/search/formatting.rs\<close>: the evidence region and the provider-native
  document list. One renderer writes one source element into a sink; the string sink and
  the token meter are the two sinks, both instances of the locale \<open>fmt_sink\<close>, so the
  price of an element is the size of what is rendered. The lemmas show that escaped text
  cannot contain markup, that escaping loses nothing, and that the region is never larger
  than the sum of the prices.
\<close>

subsection \<open>Escaping\<close>

definition entity :: "uchar \<Rightarrow> rstr option" where
  "entity c =
     (if c = 60 then Some (lit ''&lt;'') else if c = 62 then Some (lit ''&gt;'')
      else if c = 38 then Some (lit ''&amp;'') else if c = 34 then Some (lit ''&quot;'')
      else if c = 39 then Some (lit ''&apos;'') else None)"

text \<open>
  The byte slice \<open>&s[a..b]\<close>; \<open>None\<close> is the panic of an index inside a character or out
  of range.
\<close>

primrec drop_bytes :: "rstr \<Rightarrow> nat \<Rightarrow> rstr option" where
  "drop_bytes [] n = (if n = 0 then Some [] else None)"
| "drop_bytes (c # cs) n =
     (if n = 0 then Some (c # cs)
      else if len_utf8 c \<le> n then drop_bytes cs (n - len_utf8 c)
      else None)"

definition slice_checked :: "rstr \<Rightarrow> nat \<Rightarrow> nat \<Rightarrow> rstr option" where
  "slice_checked s a b =
     (if a \<le> b then Option.bind (drop_bytes s a) (\<lambda>t. get_prefix t (b - a)) else None)"

definition slice :: "rstr \<Rightarrow> nat \<Rightarrow> nat \<Rightarrow> rstr" where
  "slice s a b = (case slice_checked s a b of Some t \<Rightarrow> t | None \<Rightarrow> [])"

text \<open>
  The loop of \<open>escape_into\<close>: \<open>copied\<close> is the offset up to which the input has been
  written; each structural character writes the run before it and its entity.
\<close>

primrec escape_loop ::
  "('w \<Rightarrow> rstr \<Rightarrow> 'w) \<Rightarrow> rstr \<Rightarrow> nat \<Rightarrow> (nat \<times> uchar) list \<Rightarrow> 'w \<Rightarrow> 'w" where
  "escape_loop wr s copied [] out = wr out (slice s copied (str_len s))"
| "escape_loop wr s copied (p # ps) out =
     (case entity (snd p) of
        None \<Rightarrow> escape_loop wr s copied ps out
      | Some e \<Rightarrow> escape_loop wr s (fst p + len_utf8 (snd p)) ps (wr (wr out (slice s copied (fst p))) e))"

definition escape_into :: "('w \<Rightarrow> rstr \<Rightarrow> 'w) \<Rightarrow> rstr \<Rightarrow> 'w \<Rightarrow> 'w" where
  "escape_into wr s out = escape_loop wr s 0 (char_indices 0 s) out"

definition escape_char :: "uchar \<Rightarrow> rstr" where
  "escape_char c = (case entity c of Some e \<Rightarrow> e | None \<Rightarrow> [c])"

definition escape :: "rstr \<Rightarrow> rstr" where
  "escape s = concat (map escape_char s)"

subsection \<open>One source element\<close>

text \<open>A UUID in its hyphenated lower-case form: 8-4-4-4-12 hexadecimal digits.\<close>

definition hex_digit :: "nat \<Rightarrow> uchar" where
  "hex_digit n = (if n < 10 then 48 + n else 87 + n)"

definition hex_range :: "uuid \<Rightarrow> nat \<Rightarrow> nat \<Rightarrow> rstr" where
  "hex_range u a n = map (\<lambda>i. hex_digit (u div 16 ^ (31 - i) mod 16)) [a..<a + n]"

definition uuid_hyphenated :: "uuid \<Rightarrow> rstr" where
  "uuid_hyphenated u = hex_range u 0 8 @ [45] @ hex_range u 8 4 @ [45] @ hex_range u 12 4 @ [45] @
     hex_range u 16 4 @ [45] @ hex_range u 20 12"

definition quote :: rstr where "quote = [34]"
definition newline :: rstr where "newline = [10]"

definition write_entry ::
  "('w \<Rightarrow> rstr \<Rightarrow> 'w) \<Rightarrow> nat \<Rightarrow> search_result \<Rightarrow> rstr \<Rightarrow> 'w \<Rightarrow> 'w" where
  "write_entry wr index r body out0 =
     (let out1 = wr out0 (lit ''<source index='' @ quote @ show_nat index @ quote @ lit '' source_id='' @ quote);
          out2 = escape_into wr (uuid_hyphenated (source_id r)) out1;
          out3 = wr out2 (quote @ lit '' title='' @ quote);
          out4 = escape_into wr (source_title r) out3;
          out5 = wr out4 quote;
          out6 = (case prov_page_number (provenance_read (sr_metadata r)) of
                    Some page \<Rightarrow> wr out5 (lit '' page='' @ quote @ show_nat page @ quote)
                  | None \<Rightarrow> out5);
          out7 = wr out6 (lit ''>'' @ newline @ lit ''<content>'' @ newline);
          out8 = escape_into wr (trim body) out7
      in wr out8 (newline @ lit ''</content>'' @ newline @ lit ''</source>'' @ newline @ newline))"

definition evidence_body :: "search_result \<Rightarrow> rstr" where
  "evidence_body r = (case parent_content r of Some p \<Rightarrow> p | None \<Rightarrow> sr_content r)"

definition push_str :: "rstr \<Rightarrow> rstr \<Rightarrow> rstr" where
  "push_str s t = s @ t"

definition region_open :: rstr where "region_open = lit ''<untrusted_source_data>''"
definition region_close :: rstr where "region_close = lit ''</untrusted_source_data>''"

primrec write_entries :: "nat \<Rightarrow> search_result list \<Rightarrow> rstr \<Rightarrow> rstr" where
  "write_entries i [] ctx = ctx"
| "write_entries i (r # rs) ctx =
     write_entries (i + 1) rs (write_entry push_str (i + 1) r (evidence_body r) ctx)"

definition format_context_for_llm :: "search_result list \<Rightarrow> rstr" where
  "format_context_for_llm results =
     (if results = [] then []
      else write_entries 0 results (region_open @ newline) @ region_close)"

subsection \<open>Native documents and prices\<close>

datatype evidence_format = Inline | NativeDocuments

record rag_document =
  rd_source_id :: uuid
  rd_generation_id :: uuid
  rd_title :: rstr
  rd_content :: rstr
  rd_chunk_index :: int
  rd_relevance_score :: rfloat
  rd_metadata :: "metadata_blob option"

definition build_rag_documents :: "search_result list \<Rightarrow> rag_document list" where
  "build_rag_documents results =
     map (\<lambda>r. \<lparr>rd_source_id = source_id r, rd_generation_id = generation_id r,
        rd_title = source_title r, rd_content = trim (evidence_body r),
        rd_chunk_index = chunk_index r, rd_relevance_score = relevance r,
        rd_metadata = sr_metadata r\<rparr>) results"

record rendered_evidence =
  re_region :: rstr
  re_documents :: "rag_document list"

definition render_evidence :: "evidence_format \<Rightarrow> search_result list \<Rightarrow> rendered_evidence" where
  "render_evidence f results = (case f of
     Inline \<Rightarrow> \<lparr>re_region = format_context_for_llm results, re_documents = []\<rparr>
   | NativeDocuments \<Rightarrow> \<lparr>re_region = [], re_documents = build_rag_documents results\<rparr>)"

definition entry_tokens :: "evidence_format \<Rightarrow> nat \<Rightarrow> search_result \<Rightarrow> rstr \<Rightarrow> nat" where
  "entry_tokens f index r body = (case f of
     Inline \<Rightarrow> write_entry meter_write index r body 0 + 1
   | NativeDocuments \<Rightarrow> meter_write (meter_write 0 (source_title r)) (trim body) + 16)"

definition region_overhead_tokens :: "evidence_format \<Rightarrow> nat" where
  "region_overhead_tokens f = (case f of
     Inline \<Rightarrow> estimate_tokens region_open + estimate_tokens region_close + 2
   | NativeDocuments \<Rightarrow> 0)"

subsection \<open>Sinks\<close>

text \<open>
  \<open>fmt::Write\<close>: writing grows the sink by the bytes written. What the renderer writes is a
  fixed text, whatever the sink.
\<close>

locale fmt_sink =
  fixes wr :: "'w \<Rightarrow> rstr \<Rightarrow> 'w" and size_of :: "'w \<Rightarrow> nat"
  assumes write_size: "size_of (wr w s) = size_of w + str_len s"
    and write_append: "wr (wr w s) t = wr w (s @ t)"
    and write_nil: "wr w [] = w"

interpretation string_sink: fmt_sink push_str str_len
  by unfold_locales (simp_all add: push_str_def)

interpretation meter_sink: fmt_sink meter_write "\<lambda>n. n"
  by unfold_locales (simp_all add: meter_write_def)

lemma drop_bytes_append [simp]: "drop_bytes (p @ r) (str_len p) = Some r"
proof (induction p)
  case Nil
  then show ?case by (cases r) auto
qed auto

lemma slice_middle [simp]: "slice (p @ q @ r) (str_len p) (str_len p + str_len q) = q"
  by (simp add: slice_def slice_checked_def)

context fmt_sink
begin

lemma escape_loop_eq:
  "s = pre @ run @ rest \<Longrightarrow> \<forall>c \<in> set run. entity c = None \<Longrightarrow>
   escape_loop wr s (str_len pre) (char_indices (str_len pre + str_len run) rest) out =
     wr out (run @ escape rest)"
proof (induction rest arbitrary: pre run out)
  case Nil
  then show ?case using slice_middle [of pre run "[]"] by (simp add: escape_def)
next
  case (Cons c rest)
  show ?case
  proof (cases "entity c")
    case None
    have "escape_loop wr s (str_len pre) (char_indices (str_len pre + str_len (run @ [c])) rest) out =
        wr out ((run @ [c]) @ escape rest)"
      using Cons.prems None by (intro Cons.IH) auto
    with None show ?thesis by (simp add: escape_def escape_char_def add.assoc)
  next
    case (Some e)
    have "escape_loop wr s (str_len (pre @ run @ [c])) (char_indices (str_len (pre @ run @ [c]) + str_len []) rest)
        (wr (wr out run) e) = wr (wr (wr out run) e) ([] @ escape rest)"
      using Cons.prems by (intro Cons.IH) auto
    moreover have "slice s (str_len pre) (str_len pre + str_len run) = run"
      using Cons.prems slice_middle [of pre run "c # rest"] by simp
    ultimately show ?thesis
      using Some by (simp add: escape_def escape_char_def write_append add.assoc)
  qed
qed

lemma escape_into_eq: "escape_into wr s out = wr out (escape s)"
  using escape_loop_eq [of s "[]" "[]" s out] by (simp add: escape_into_def)

lemma write_entry_eq: "write_entry wr index r body out = wr out (write_entry push_str index r body [])"
proof -
  have p: "escape_into push_str s out = out @ escape s" for s out
    using fmt_sink.escape_into_eq [OF string_sink.fmt_sink_axioms] by (simp add: push_str_def)
  show ?thesis
    by (simp add: write_entry_def escape_into_eq p write_append push_str_def Let_def split: option.split)
qed

lemma write_entry_size:
  "size_of (write_entry wr index r body out) = size_of out + str_len (write_entry push_str index r body [])"
  by (simp add: write_entry_eq write_size)

end

lemma entry_tokens_inline:
  "entry_tokens Inline index r body = str_len (write_entry push_str index r body []) + 1"
  using meter_sink.write_entry_size [of index r body 0] by (simp add: entry_tokens_def)

lemma write_entries_eq:
  "write_entries i rs ctx =
     ctx @ concat (map (\<lambda>(j, r). write_entry push_str (j + 1) r (evidence_body r) []) (enumerate i rs))"
proof (induction rs arbitrary: i ctx)
  case (Cons r rs)
  have "write_entry push_str (i + 1) r (evidence_body r) ctx =
      ctx @ write_entry push_str (i + 1) r (evidence_body r) []"
    by (subst string_sink.write_entry_eq) (simp only: push_str_def)
  with Cons show ?case by simp
qed simp

definition price :: "evidence_format \<Rightarrow> search_result list \<Rightarrow> nat" where
  "price f rs = (if rs = [] then 0 else region_overhead_tokens f +
     sum_list (map (\<lambda>(j, r). entry_tokens f (j + 1) r (evidence_body r)) (enumerate 0 rs)))"

lemma str_len_concat: "str_len (concat xs) = sum_list (map str_len xs)"
  by (induction xs) auto

lemma price_covers_region: "str_len (format_context_for_llm rs) \<le> price Inline rs"
proof (cases "rs = []")
  case False
  have "sum_list (map (\<lambda>(j, r). str_len (write_entry push_str (j + 1) r (evidence_body r) [])) (enumerate 0 rs))
      \<le> sum_list (map (\<lambda>(j, r). entry_tokens Inline (j + 1) r (evidence_body r)) (enumerate 0 rs))"
    by (rule sum_list_mono) (auto simp: entry_tokens_inline)
  with False show ?thesis
    by (simp add: format_context_for_llm_def write_entries_eq price_def region_overhead_tokens_def
        estimate_tokens_len str_len_concat newline_def len_utf8_def split_def comp_def le_SucI)
qed (simp add: format_context_for_llm_def)

subsection \<open>Escaping loses nothing\<close>

definition markup :: "uchar \<Rightarrow> bool" where
  "markup c \<longleftrightarrow> c = 60 \<or> c = 62 \<or> c = 34 \<or> c = 39"

lemma escape_char_no_markup: "d \<in> set (escape_char c) \<Longrightarrow> \<not> markup d"
  by (auto simp: escape_char_def entity_def markup_def lit_def split: if_splits)

lemma escape_no_markup: "d \<in> set (escape s) \<Longrightarrow> \<not> markup d"
  by (auto simp: escape_def dest: escape_char_no_markup)

text \<open>The inverse reading of the five predefined entities.\<close>

fun unescape :: "rstr \<Rightarrow> rstr" where
  "unescape [] = []"
| "unescape (c # cs) =
     (if c = 38 then
        (if starts_with cs (lit ''lt;'') then 60 # unescape (drop 3 cs)
         else if starts_with cs (lit ''gt;'') then 62 # unescape (drop 3 cs)
         else if starts_with cs (lit ''amp;'') then 38 # unescape (drop 4 cs)
         else if starts_with cs (lit ''quot;'') then 34 # unescape (drop 5 cs)
         else if starts_with cs (lit ''apos;'') then 39 # unescape (drop 5 cs)
         else c # unescape cs)
      else c # unescape cs)"

lemma unescape_escape_char: "unescape (escape_char c @ t) = c # unescape t"
  by (auto simp: escape_char_def entity_def lit_def starts_with_def)

lemma unescape_escape: "unescape (escape s) = s"
  by (induction s) (simp_all add: escape_def unescape_escape_char)

text \<open>
  C14. Retrieved text cannot close its element: whatever the sink, escaping writes a text
  without angle brackets or quotes, and reading its entities back gives the original, so
  no byte of the evidence is lost.
\<close>

theorem escape_neutralises_markup:
  "escape_into push_str s out = out @ escape s \<and> (\<forall>c \<in> set (escape s). \<not> markup c) \<and>
   unescape (escape s) = s"
  using string_sink.escape_into_eq [of s out] escape_no_markup unescape_escape
  by (auto simp: push_str_def)

theorem escape_neutralises_markup_witness:
  "unescape (escape (lit ''</content><b>'')) = lit ''</content><b>''"
  using escape_neutralises_markup [of "lit ''</content><b>''" "[]"] by simp

text \<open>
  The price of evidence is never below what is sent: the rendered region is at most
  the region overhead plus the prices of its entries, and the price of one inline entry
  is exactly one more than its rendered size.
\<close>

lemma evidence_price_is_upper_bound:
  "str_len (re_region (render_evidence Inline rs)) \<le>
     (if rs = [] then 0 else region_overhead_tokens Inline +
       sum_list (map (\<lambda>(j, r). entry_tokens Inline (j + 1) r (evidence_body r)) (enumerate 0 rs))) \<and>
   entry_tokens Inline i r body = str_len (write_entry push_str i r body []) + 1"
  using price_covers_region [of rs] by (simp add: render_evidence_def price_def entry_tokens_inline)

end
