(* ===== verification/Context_Budget.thy ===== *)
theory Context_Budget
  imports Formatting Reasons
begin

text \<open>
  \<open>services/chat/context_budget.rs\<close>: the one budgeting pass over an assembled prompt. The
  window pays for the instructions and the question, then memory, then the evidence in
  rank order (a parent that is too large is replaced by its matched child), then the
  history. The lemmas show that an accepted prompt is one the provider budget admits, that
  what survives is a rank prefix, and when the pass refuses.
\<close>

subsection \<open>Inputs and outcomes\<close>

record token_counts =
  tc_selected :: nat
  tc_dropped :: nat

record prompt_inputs =
  pi_budget :: prompt_budget
  pi_format :: evidence_format
  pi_instructions :: rstr
  pi_memory :: "rstr option"
  pi_query :: rstr
  pi_history :: "llm_message list"

record budgeted_prompt =
  bp_evidence :: "search_result list"
  bp_memory_kept :: bool
  bp_history :: fitted_history
  bp_tokens :: token_counts
  bp_reasons :: reason_set

datatype budget_refusal =
  MandatoryComponents nat nat token_counts "uuid list"
| NoEvidenceFits token_counts "uuid list"

record allocation =
  al_memory_kept :: bool
  al_memory_tokens :: nat
  al_remaining :: nat
  al_evidence_budget :: nat

definition no_tokens :: token_counts where
  "no_tokens = \<lparr>tc_selected = 0, tc_dropped = 0\<rparr>"

definition allocate ::
  "prompt_budget \<Rightarrow> rstr \<Rightarrow> rstr option \<Rightarrow> rstr \<Rightarrow> budget_refusal + allocation" where
  "allocate budget instructions memory query =
     (let mandatory = estimate_tokens instructions + message_tokens query;
          allowance = prompt_allowance budget
      in if mandatory > allowance then Inl (MandatoryComponents mandatory allowance no_tokens [])
         else
           let remaining0 = allowance - mandatory;
               memory_tokens = (case memory of Some m \<Rightarrow> estimate_tokens m | None \<Rightarrow> 0);
               memory_kept = (0 < memory_tokens \<and> memory_tokens \<le> memory_cap budget \<and>
                 memory_tokens \<le> remaining0);
               remaining = (if memory_kept then remaining0 - memory_tokens else remaining0)
           in Inr \<lparr>al_memory_kept = memory_kept, al_memory_tokens = memory_tokens,
                al_remaining = remaining, al_evidence_budget = min remaining (evidence_cap budget)\<rparr>)"

definition evidence_allowance :: "prompt_budget \<Rightarrow> rstr \<Rightarrow> rstr option \<Rightarrow> rstr \<Rightarrow> nat" where
  "evidence_allowance budget instructions memory query =
     (case allocate budget instructions memory query of Inr a \<Rightarrow> al_evidence_budget a | Inl _ \<Rightarrow> 0)"

subsection \<open>The evidence loop\<close>

record fit_state =
  fs_spent :: nat
  fs_selected :: "search_result list"
  fs_dropped :: nat
  fs_admitting :: bool
  fs_reasons :: reason_set

definition downgrade :: "search_result \<Rightarrow> search_result" where
  "downgrade r = r\<lparr>parent_content := None\<rparr>"

definition fit_one :: "evidence_format \<Rightarrow> nat \<Rightarrow> nat \<Rightarrow> search_result \<Rightarrow> fit_state \<Rightarrow> fit_state" where
  "fit_one f budget position c st =
     (let index = position + 1;
          parent_cost = entry_tokens f index c (evidence_body c)
      in if \<not> fs_admitting st then st\<lparr>fs_dropped := fs_dropped st + parent_cost\<rparr>
         else if fs_spent st + parent_cost \<le> budget then
           st\<lparr>fs_spent := fs_spent st + parent_cost, fs_selected := fs_selected st @ [c]\<rparr>
         else
           let child_cost = (if parent_content c \<noteq> None
                 then Some (entry_tokens f index c (sr_content c)) else None);
               stop = st\<lparr>fs_dropped := fs_dropped st + parent_cost, fs_admitting := False\<rparr>
           in case child_cost of
                Some cost \<Rightarrow>
                  if fs_spent st + cost \<le> budget then
                    st\<lparr>fs_spent := fs_spent st + cost,
                       fs_selected := fs_selected st @ [downgrade c],
                       fs_reasons := reason_insert ParentDowngradedToChild (fs_reasons st)\<rparr>
                  else stop
              | None \<Rightarrow> stop)"

primrec fit_evidence ::
  "evidence_format \<Rightarrow> nat \<Rightarrow> nat \<Rightarrow> search_result list \<Rightarrow> fit_state \<Rightarrow> fit_state" where
  "fit_evidence f budget position [] st = st"
| "fit_evidence f budget position (c # cs) st =
     fit_evidence f budget (position + 1) cs (fit_one f budget position c st)"

definition region_price :: "evidence_format \<Rightarrow> search_result list \<Rightarrow> nat" where
  "region_price f rs =
     (if rs = [] then 0
      else region_overhead_tokens f +
        sum_list (map (\<lambda>(position, c). entry_tokens f (position + 1) c (evidence_body c)) (enumerate 0 rs)))"

definition fit_prompt :: "prompt_inputs \<Rightarrow> search_result list \<Rightarrow> budget_refusal + budgeted_prompt" where
  "fit_prompt inp evidence =
     (let had_evidence = (evidence \<noteq> []);
          generation_ids = dedup (sort (map generation_id evidence))
      in case allocate (pi_budget inp) (pi_instructions inp) (pi_memory inp) (pi_query inp) of
           Inl (MandatoryComponents needed allowance _ _) \<Rightarrow>
             Inl (MandatoryComponents needed allowance
               \<lparr>tc_selected = 0, tc_dropped = region_price (pi_format inp) evidence\<rparr> generation_ids)
         | Inl (NoEvidenceFits t g) \<Rightarrow> Inl (NoEvidenceFits t g)
         | Inr a \<Rightarrow>
             let reasons0 = (if \<not> al_memory_kept a \<and> 0 < al_memory_tokens a
                   then reason_insert MemoryDroppedForBudget [] else []);
                 spent0 = (if evidence = [] then 0 else region_overhead_tokens (pi_format inp));
                 st = fit_evidence (pi_format inp) (al_evidence_budget a) 0 evidence
                   \<lparr>fs_spent = spent0, fs_selected = [], fs_dropped = 0, fs_admitting = True,
                    fs_reasons = reasons0\<rparr>;
                 reasons = (if 0 < fs_dropped st
                   then reason_insert EvidenceDroppedForBudget (fs_reasons st) else fs_reasons st);
                 none_selected = (fs_selected st = []);
                 dropped = (if none_selected then fs_dropped st + fs_spent st else fs_dropped st);
                 spent = (if none_selected then 0 else fs_spent st)
             in if none_selected \<and> had_evidence then
                  Inl (NoEvidenceFits \<lparr>tc_selected = 0, tc_dropped = dropped\<rparr> generation_ids)
                else
                  Inr \<lparr>bp_evidence = fs_selected st, bp_memory_kept = al_memory_kept a,
                    bp_history = fit_history (pi_history inp) (al_remaining a - spent),
                    bp_tokens = \<lparr>tc_selected = spent, tc_dropped = dropped\<rparr>,
                    bp_reasons = reasons\<rparr>)"

subsection \<open>Allocation\<close>

definition memory_cost :: "prompt_inputs \<Rightarrow> bool \<Rightarrow> nat" where
  "memory_cost inp kept =
     (if kept then (case pi_memory inp of Some m \<Rightarrow> estimate_tokens m | None \<Rightarrow> 0) else 0)"

definition mandatory_cost :: "prompt_inputs \<Rightarrow> nat" where
  "mandatory_cost inp = estimate_tokens (pi_instructions inp) + message_tokens (pi_query inp)"

lemma allocate_Inr:
  assumes "allocate (pi_budget inp) (pi_instructions inp) (pi_memory inp) (pi_query inp) = Inr a"
  shows "mandatory_cost inp + memory_cost inp (al_memory_kept a) + al_remaining a = prompt_allowance (pi_budget inp)"
    and "al_evidence_budget a = min (al_remaining a) (evidence_cap (pi_budget inp))"
  using assms
  by (auto simp: allocate_def mandatory_cost_def memory_cost_def Let_def split: if_splits option.splits)

lemma allocate_Inl:
  "allocate b i m q = Inl e \<longleftrightarrow>
   prompt_allowance b < estimate_tokens i + message_tokens q \<and>
   e = MandatoryComponents (estimate_tokens i + message_tokens q) (prompt_allowance b) no_tokens []"
  by (auto simp: allocate_def Let_def)

lemma allocate_is_Inr:
  "(\<exists>a. allocate b i m q = Inr a) \<longleftrightarrow> estimate_tokens i + message_tokens q \<le> prompt_allowance b"
  by (simp add: allocate_def Let_def)

subsection \<open>The loop\<close>

lemma evidence_body_downgrade [simp]:
  "evidence_body (downgrade c) = sr_content c"
  by (simp add: downgrade_def evidence_body_def)

lemma entry_tokens_downgrade [simp]: "entry_tokens f i (downgrade c) b = entry_tokens f i c b"
  by (cases f) (simp_all add: entry_tokens_def write_entry_def downgrade_def)

lemma fit_evidence_stopped:
  "\<not> fs_admitting st \<Longrightarrow>
   fs_selected (fit_evidence f b i cs st) = fs_selected st \<and>
   fs_spent (fit_evidence f b i cs st) = fs_spent st \<and>
   fs_reasons (fit_evidence f b i cs st) = fs_reasons st"
  by (induction cs arbitrary: i st) (simp_all add: fit_one_def Let_def)

definition entries_cost :: "evidence_format \<Rightarrow> nat \<Rightarrow> search_result list \<Rightarrow> nat" where
  "entries_cost f i rs = sum_list (map (\<lambda>(j, c). entry_tokens f (j + 1) c (evidence_body c)) (enumerate i rs))"

lemma entries_cost_simps [simp]:
  "entries_cost f i [] = 0"
  "entries_cost f i (c # cs) = entry_tokens f (i + 1) c (evidence_body c) + entries_cost f (i + 1) cs"
  by (simp_all add: entries_cost_def)

definition stands_for :: "search_result \<Rightarrow> search_result \<Rightarrow> bool" where
  "stands_for s c \<longleftrightarrow> s = c \<or> parent_content c \<noteq> None \<and> s = downgrade c"

text \<open>One step of the pass, by cases: admitted, admitted as its child, or the stop.\<close>

lemma fit_one_cases:
  assumes "fs_admitting st"
  obtains (admit) s where "stands_for s c" "fs_admitting (fit_one f b i c st)"
      "fs_selected (fit_one f b i c st) = fs_selected st @ [s]"
      "fs_spent (fit_one f b i c st) = fs_spent st + entry_tokens f (i + 1) s (evidence_body s)"
      "fs_spent (fit_one f b i c st) \<le> b"
    | (stop) "\<not> fs_admitting (fit_one f b i c st)"
      "fs_selected (fit_one f b i c st) = fs_selected st" "fs_spent (fit_one f b i c st) = fs_spent st"
      "\<forall>s. stands_for s c \<longrightarrow> b < fs_spent st + entry_tokens f (i + 1) s (evidence_body s)"
proof (cases "fs_spent st + entry_tokens f (i + 1) c (evidence_body c) \<le> b")
  case True
  show ?thesis
    by (rule admit [of c]) (use assms True in \<open>simp_all add: fit_one_def stands_for_def\<close>)
next
  case parent: False
  show ?thesis
  proof (cases "parent_content c \<noteq> None \<and> fs_spent st + entry_tokens f (i + 1) c (sr_content c) \<le> b")
    case True
    show ?thesis
      by (rule admit [of "downgrade c"])
         (use assms True parent in \<open>simp_all add: fit_one_def stands_for_def Let_def\<close>)
  next
    case False
    show ?thesis
      by (rule stop)
         (use assms False parent in \<open>auto simp: fit_one_def stands_for_def Let_def\<close>)
  qed
qed

lemma fit_evidence_spec:
  assumes "fs_admitting st"
  shows "\<exists>sel. fs_selected (fit_evidence f b i cs st) = fs_selected st @ sel \<and>
     length sel \<le> length cs \<and>
     list_all2 stands_for sel (take (length sel) cs) \<and>
     fs_spent (fit_evidence f b i cs st) = fs_spent st + entries_cost f i sel \<and>
     (sel \<noteq> [] \<longrightarrow> fs_spent (fit_evidence f b i cs st) \<le> b) \<and>
     (length sel < length cs \<longrightarrow> (\<forall>s. stands_for s (cs ! length sel) \<longrightarrow>
        b < fs_spent st + entries_cost f i sel + entry_tokens f (i + length sel + 1) s (evidence_body s)))"
  using assms
proof (induction cs arbitrary: i st)
  case (Cons c cs)
  let ?st = "fit_one f b i c st"
  from \<open>fs_admitting st\<close> show ?case
  proof (cases rule: fit_one_cases [where c = c and f = f and b = b and i = i])
    case (admit s)
    from Cons.IH [OF admit(2), of "i + 1"] obtain sel where sel:
      "fs_selected (fit_evidence f b (i + 1) cs ?st) = fs_selected ?st @ sel"
      "length sel \<le> length cs" "list_all2 stands_for sel (take (length sel) cs)"
      "fs_spent (fit_evidence f b (i + 1) cs ?st) = fs_spent ?st + entries_cost f (i + 1) sel"
      "sel \<noteq> [] \<longrightarrow> fs_spent (fit_evidence f b (i + 1) cs ?st) \<le> b"
      "length sel < length cs \<longrightarrow> (\<forall>s. stands_for s (cs ! length sel) \<longrightarrow>
        b < fs_spent ?st + entries_cost f (i + 1) sel + entry_tokens f (i + 1 + length sel + 1) s (evidence_body s))"
      by blast
    have "fs_spent (fit_evidence f b (i + 1) cs ?st) \<le> b"
      using sel(4,5) admit(5) by (cases "sel = []") simp_all
    with sel admit show ?thesis
      by (intro exI [of _ "s # sel"]) (simp add: add.assoc)
  next
    case stop
    with fit_evidence_stopped [OF stop(1), of f b "i + 1" cs] show ?thesis
      by (intro exI [of _ "[]"]) simp
  qed
qed simp

lemma list_all2_Nil_take [simp]: "list_all2 P [] (take 0 xs)"
  by simp

lemma region_price_entries:
  "region_price f rs = (if rs = [] then 0 else region_overhead_tokens f + entries_cost f 0 rs)"
  by (simp add: region_price_def entries_cost_def)

text \<open>What an accepted prompt is made of, and why the rest was dropped.\<close>

lemma fit_prompt_Inr:
  assumes "fit_prompt inp evidence = Inr p"
  obtains a where
    "allocate (pi_budget inp) (pi_instructions inp) (pi_memory inp) (pi_query inp) = Inr a"
    "bp_memory_kept p = al_memory_kept a"
    "length (bp_evidence p) \<le> length evidence"
    "list_all2 stands_for (bp_evidence p) (take (length (bp_evidence p)) evidence)"
    "bp_evidence p = [] \<longleftrightarrow> evidence = []"
    "tc_selected (bp_tokens p) = region_price (pi_format inp) (bp_evidence p)"
    "region_price (pi_format inp) (bp_evidence p) \<le> al_evidence_budget a"
    "length (bp_evidence p) < length evidence \<Longrightarrow>
       \<forall>s. stands_for s (evidence ! length (bp_evidence p)) \<longrightarrow>
         al_evidence_budget a < region_price (pi_format inp) (bp_evidence p @ [s])"
    "bp_history p = fit_history (pi_history inp)
       (al_remaining a - region_price (pi_format inp) (bp_evidence p))"
proof -
  let ?f = "pi_format inp"
  obtain a where a: "allocate (pi_budget inp) (pi_instructions inp) (pi_memory inp) (pi_query inp) = Inr a"
    using assms by (auto simp: fit_prompt_def Let_def split: sum.splits budget_refusal.splits)
  define st0 where "st0 = \<lparr>fs_spent = (if evidence = [] then 0 else region_overhead_tokens ?f),
     fs_selected = [], fs_dropped = 0, fs_admitting = True,
     fs_reasons = (if \<not> al_memory_kept a \<and> 0 < al_memory_tokens a
        then reason_insert MemoryDroppedForBudget [] else [])\<rparr>"
  define st where "st = fit_evidence ?f (al_evidence_budget a) 0 evidence st0"
  have outcome: "fit_prompt inp evidence =
      (if fs_selected st = [] \<and> evidence \<noteq> [] then
         Inl (NoEvidenceFits \<lparr>tc_selected = 0,
           tc_dropped = (if fs_selected st = [] then fs_dropped st + fs_spent st else fs_dropped st)\<rparr>
           (dedup (sort (map generation_id evidence))))
       else Inr \<lparr>bp_evidence = fs_selected st, bp_memory_kept = al_memory_kept a,
         bp_history = fit_history (pi_history inp)
           (al_remaining a - (if fs_selected st = [] then 0 else fs_spent st)),
         bp_tokens = \<lparr>tc_selected = (if fs_selected st = [] then 0 else fs_spent st),
           tc_dropped = (if fs_selected st = [] then fs_dropped st + fs_spent st else fs_dropped st)\<rparr>,
         bp_reasons = (if 0 < fs_dropped st
           then reason_insert EvidenceDroppedForBudget (fs_reasons st) else fs_reasons st)\<rparr>)"
    by (simp only: fit_prompt_def Let_def a sum.case st_def st0_def)
  have p: "bp_evidence p = fs_selected st" "bp_memory_kept p = al_memory_kept a"
    "tc_selected (bp_tokens p) = (if fs_selected st = [] then 0 else fs_spent st)"
    "bp_history p = fit_history (pi_history inp) (al_remaining a - (if fs_selected st = [] then 0 else fs_spent st))"
    "fs_selected st = [] \<Longrightarrow> evidence = []"
    using assms unfolding outcome by (simp_all split: if_splits) auto
  have "fs_admitting st0" "fs_selected st0 = []" by (simp_all add: st0_def)
  from fit_evidence_spec [OF this(1), of ?f "al_evidence_budget a" 0 evidence] this(2)
  have sel: "length (fs_selected st) \<le> length evidence"
    "list_all2 stands_for (fs_selected st) (take (length (fs_selected st)) evidence)"
    "fs_spent st = fs_spent st0 + entries_cost ?f 0 (fs_selected st)"
    "fs_selected st \<noteq> [] \<Longrightarrow> fs_spent st \<le> al_evidence_budget a"
    "length (fs_selected st) < length evidence \<Longrightarrow> \<forall>s. stands_for s (evidence ! length (fs_selected st)) \<longrightarrow>
       al_evidence_budget a < fs_spent st0 + entries_cost ?f 0 (fs_selected st) +
         entry_tokens ?f (length (fs_selected st) + 1) s (evidence_body s)"
    by (auto simp: st_def)
  have nil: "fs_selected st = [] \<longleftrightarrow> evidence = []"
    using p(5) sel(1) by auto
  have price: "region_price ?f (fs_selected st) = (if fs_selected st = [] then 0 else fs_spent st)"
    using sel(3) nil by (simp add: region_price_entries st0_def)
  have next_price: "region_price ?f (fs_selected st @ [s]) = fs_spent st0 + entries_cost ?f 0 (fs_selected st) +
      entry_tokens ?f (length (fs_selected st) + 1) s (evidence_body s)" if "evidence \<noteq> []" for s
    using that by (simp add: region_price_entries st0_def entries_cost_def enumerate_append_eq)
  show ?thesis
  proof (rule that [OF a])
    show "length (bp_evidence p) < length evidence \<Longrightarrow>
       \<forall>s. stands_for s (evidence ! length (bp_evidence p)) \<longrightarrow>
         al_evidence_budget a < region_price ?f (bp_evidence p @ [s])"
      using sel(5) next_price p(1) by fastforce
  qed (use p sel nil price in auto)
qed

definition prompt_cost :: "prompt_inputs \<Rightarrow> budgeted_prompt \<Rightarrow> nat" where
  "prompt_cost inp p =
     mandatory_cost inp + memory_cost inp (bp_memory_kept p) +
     region_price (pi_format inp) (bp_evidence p) + messages_tokens (fh_messages (bp_history p))"

lemma fit_prompt_cost:
  assumes "fit_prompt inp evidence = Inr p"
  shows "prompt_cost inp p \<le> prompt_allowance (pi_budget inp)"
    and "region_price (pi_format inp) (bp_evidence p) \<le> evidence_cap (pi_budget inp)"
proof -
  from assms obtain a where a:
    "allocate (pi_budget inp) (pi_instructions inp) (pi_memory inp) (pi_query inp) = Inr a"
    "bp_memory_kept p = al_memory_kept a"
    "region_price (pi_format inp) (bp_evidence p) \<le> al_evidence_budget a"
    "bp_history p = fit_history (pi_history inp)
       (al_remaining a - region_price (pi_format inp) (bp_evidence p))"
    by (rule fit_prompt_Inr)
  note al = allocate_Inr [OF a(1)]
  have "messages_tokens (fh_messages (bp_history p)) \<le>
      al_remaining a - region_price (pi_format inp) (bp_evidence p)"
    using fit_history_tokens_le by (simp add: a(4) fit_history_messages_tokens)
  with al a(2,3) show "prompt_cost inp p \<le> prompt_allowance (pi_budget inp)"
    unfolding prompt_cost_def a(2) by linarith
  show "region_price (pi_format inp) (bp_evidence p) \<le> evidence_cap (pi_budget inp)"
    using al a(3) by simp
qed

text \<open>Sizes add up to the request: what the allowance bounds, the provider admits.\<close>

lemma allowance_admits:
  assumes "pb_window b < usize_max" "0 < cost" "cost \<le> prompt_allowance b"
    "str_len sys + messages_tokens ms + extra \<le> cost"
  shows "admits_with_additional b sys ms extra"
  using assms
  by (simp add: admits_iff request_tokens_def estimate_tokens_len prompt_allowance_def messages_tokens_def)

lemma mandatory_cost_pos: "0 < mandatory_cost inp"
  by (simp add: mandatory_cost_def message_tokens_len)

text \<open>A small model, and evidence whose parent is too large for it.\<close>

definition sample_context :: "nat \<Rightarrow> rstr option \<Rightarrow> search_result" where
  "sample_context i parent = \<lparr>chunk_id = i, generation_id = 7, source_id = 1, source_title = lit ''t'',
     chunk_index = int i, sr_content = lit ''child'', parent_content = parent, sr_score = Stuffed,
     sr_metadata = None, collapsed_children = []\<rparr>"

definition sample_inputs :: prompt_inputs where
  "sample_inputs = \<lparr>pi_budget = budget_new 1250 100, pi_format = NativeDocuments,
     pi_instructions = lit ''Answer.'', pi_memory = Some (lit ''likes tea''), pi_query = lit ''why?'',
     pi_history = [\<lparr>msg_role = User, msg_content = lit ''hello''\<rparr>]\<rparr>"

definition sample_evidence :: "search_result list" where
  "sample_evidence = [sample_context 1 None, sample_context 2 (Some (replicate 50 97)),
     sample_context 3 (Some (replicate 50 97))]"

lemma sample_texts:
  "str_len (lit ''Answer.'') = 7" "str_len (lit ''why?'') = 4" "str_len (lit ''likes tea'') = 9"
  by code_simp+

lemma sample_sizes:
  "estimate_tokens (pi_instructions sample_inputs) = 7" "message_tokens (pi_query sample_inputs) = 12"
  "prompt_allowance (pi_budget sample_inputs) = 110" "memory_cap (pi_budget sample_inputs) = 125"
  "evidence_cap (pi_budget sample_inputs) = 750" "pi_memory sample_inputs = Some (lit ''likes tea'')"
  "estimate_tokens (lit ''likes tea'') = 9" "pi_format sample_inputs = NativeDocuments"
  by (simp_all add: sample_inputs_def model_simps sample_texts budget_new_def prompt_allowance_def
      memory_cap_def evidence_cap_def)

lemma sample_trims:
  "trim (lit ''child'') = lit ''child''" "str_len (lit ''child'') = 5" "str_len (lit ''t'') = 1"
  by (simp_all add: trim_def trim_start_def trim_end_def is_whitespace_def lit_def len_utf8_def)

lemma trim_replicate: "trim (replicate n 97) = replicate n 97"
proof -
  have "dropWhile is_whitespace (replicate n 97) = replicate n 97"
    by (cases n) (simp_all add: is_whitespace_def)
  then show ?thesis by (simp add: trim_def trim_start_def trim_end_def)
qed

lemma sample_parent_trim: "trim (replicate 50 97) = replicate 50 97"
  by (rule trim_replicate)

lemma sample_parent_len: "str_len (replicate 50 97) = 50"
  by (simp add: str_len_ascii)

lemma sample_prices:
  "entry_tokens NativeDocuments i (sample_context j p) (lit ''child'') = 22"
  "entry_tokens NativeDocuments i (sample_context j p) (replicate 50 97) = 67"
  by (simp_all only: entry_tokens_def sample_context_def meter_write_def sample_trims sample_parent_trim
      sample_parent_len      evidence_format.case search_result.simps)

lemma sample_bodies:
  "evidence_body (sample_context i None) = lit ''child''"
  "evidence_body (sample_context i (Some p)) = p"
  "sr_content (sample_context i q) = lit ''child''"
  "parent_content (sample_context i q) = q"
  "generation_id (sample_context i q) = 7"
  by (simp_all add: sample_context_def evidence_body_def)

lemma sample_allocation:
  "allocate (pi_budget sample_inputs) (pi_instructions sample_inputs) (pi_memory sample_inputs)
     (pi_query sample_inputs) =
   Inr \<lparr>al_memory_kept = True, al_memory_tokens = 9, al_remaining = 82, al_evidence_budget = 82\<rparr>"
  by (simp add: allocate_def sample_sizes Let_def)

lemma sample_fits:
  "\<exists>p. fit_prompt sample_inputs sample_evidence = Inr p \<and> bp_memory_kept p \<and> length (bp_evidence p) = 3"
  by (simp add: fit_prompt_def sample_allocation [unfolded sample_sizes] sample_evidence_def fit_one_def sample_bodies
      sample_prices sample_sizes region_overhead_tokens_def Let_def)

text \<open>
  C15. What survives the budget is a prefix of the ranking: each kept context is the
  retrieved one or, when it had a parent, the same one with its parent cleared. The
  selected tokens are exactly the price of what is kept, within the evidence share; and
  the first context left out fits neither whole nor as its child.
\<close>

theorem evidence_is_maximal_rank_prefix:
  assumes "fit_prompt inp evidence = Inr p"
  shows "list_all2 stands_for (bp_evidence p) (take (length (bp_evidence p)) evidence) \<and>
    tc_selected (bp_tokens p) = region_price (pi_format inp) (bp_evidence p) \<and>
    tc_selected (bp_tokens p) \<le>
      evidence_allowance (pi_budget inp) (pi_instructions inp) (pi_memory inp) (pi_query inp) \<and>
    (length (bp_evidence p) < length evidence \<longrightarrow>
      (\<forall>s. stands_for s (evidence ! length (bp_evidence p)) \<longrightarrow>
        evidence_allowance (pi_budget inp) (pi_instructions inp) (pi_memory inp) (pi_query inp) <
          region_price (pi_format inp) (bp_evidence p @ [s])))"
  using assms by (rule fit_prompt_Inr) (simp add: evidence_allowance_def)

theorem evidence_is_maximal_rank_prefix_witness:
  "\<exists>p. fit_prompt sample_inputs sample_evidence = Inr p \<and>
    list_all2 stands_for (bp_evidence p) (take 3 sample_evidence)"
proof -
  obtain p where p: "fit_prompt sample_inputs sample_evidence = Inr p" "length (bp_evidence p) = 3"
    using sample_fits by blast
  show ?thesis using evidence_is_maximal_rank_prefix [OF p(1), THEN conjunct1] p by auto
qed

end
