(* ===== verification/Reformulation.thy ===== *)
theory Reformulation
  imports Budget Errors Reasons Rust_Float
begin

text \<open>
  \<open>services/rag/query_reformulation.rs\<close>: the history slice a reformulation call may send,
  and what the call does with the model's answer. The language model is a parameter: it
  answers a list of (role, content) messages with an error or the text of its response and
  the tokens used. The lemmas show that what is sent is the longest recent suffix within
  both limits, and that the question survives every failure.
\<close>

record chat_turn =
  ct_role :: rstr
  ct_content :: rstr

datatype reformulation_outcome = Skipped | Applied | Truncated | Failed

fun outcome_reason_codes :: "reformulation_outcome \<Rightarrow> reason_code list" where
  "outcome_reason_codes Skipped = [ReformulationSkipped]"
| "outcome_reason_codes Applied = [ReformulationApplied]"
| "outcome_reason_codes Truncated = [ReformulationApplied, ReformulationTruncated]"
| "outcome_reason_codes Failed = [ReformulationFailed]"

record reformulation_result =
  rr_query :: rstr
  rr_was_reformulated :: bool
  rr_outcome :: reformulation_outcome
  rr_input_tokens :: nat
  rr_output_tokens :: nat

definition reformulation_unchanged :: "rstr \<Rightarrow> reformulation_outcome \<Rightarrow> reformulation_result" where
  "reformulation_unchanged query o' =
     \<lparr>rr_query = query, rr_was_reformulated = False, rr_outcome = o', rr_input_tokens = 0,
      rr_output_tokens = 0\<rparr>"

definition reformulation_prompt :: rstr where
  "reformulation_prompt =
     lit ''You are a search query reformulator. Given a conversation history and the user'' @ [39] @
     lit ''s latest question, rewrite the question as a standalone, self-contained search query '' @
     lit ''that captures the full intent. Include any relevant entities, dates, or context from '' @
     lit ''the conversation that would help find the answer. Output ONLY the reformulated query, '' @
     lit ''nothing else. If the question is already clear and self-contained, return it unchanged. '' @
     lit ''Write in the same language as the user'' @ [39] @ lit ''s question.''"

text \<open>A fifth of the model's window, in the code's double precision arithmetic.\<close>

definition reformulation_token_budget :: nat where
  "reformulation_token_budget =
     f_to_uint usize_max
       (f_mul rnd64
         (f_of_nat rnd64
           (case context_window_for_model (lit ''anthropic'') (lit ''claude-haiku-4-5-20251001'') of
              Some w \<Rightarrow> w | None \<Rightarrow> 0))
         (rnd64 (20 / 100)))"

fun fit_turns :: "nat \<Rightarrow> nat \<Rightarrow> chat_turn list \<Rightarrow> chat_turn list \<Rightarrow> bool \<Rightarrow> chat_turn list \<times> bool" where
  "fit_turns budget spent kept [] truncated = (kept, truncated)"
| "fit_turns budget spent kept (t # ts) truncated =
     (let cost = estimate_tokens (ct_content t) in
      if spent + cost > budget then (kept, True)
      else fit_turns budget (spent + cost) (kept @ [t]) ts truncated)"

definition fit_chat_history :: "chat_turn list \<Rightarrow> rstr \<Rightarrow> chat_turn list \<times> bool" where
  "fit_chat_history history query =
     (let eligible = min (length history) 5;
          truncated = eligible < length history;
          spent = estimate_tokens reformulation_prompt + estimate_tokens query;
          (kept, truncated') = fit_turns reformulation_token_budget spent []
            (rev (drop (length history - eligible) history)) truncated
      in (rev kept, truncated'))"

type_synonym 'e reformulation_llm = "(rstr \<times> rstr) list \<Rightarrow> 'e + (rstr option \<times> nat \<times> nat)"

definition reformulation_messages :: "rstr \<Rightarrow> chat_turn list \<Rightarrow> (rstr \<times> rstr) list" where
  "reformulation_messages query history =
     map (\<lambda>t. (ct_role t, ct_content t)) history @
     [(lit ''user'', lit ''Reformulate this search query given the conversation above:'' @ [10, 10] @ query)]"

definition reformulate_call_llm ::
  "'e reformulation_llm \<Rightarrow> rstr \<Rightarrow> chat_turn list \<Rightarrow> 'e + reformulation_result" where
  "reformulate_call_llm llm query history =
     (case llm (reformulation_messages query history) of
        Inl e \<Rightarrow> Inl e
      | Inr (response, input, out) \<Rightarrow>
          let reformulated = trim (case response of Some t \<Rightarrow> t | None \<Rightarrow> query)
          in Inr \<lparr>rr_query = reformulated, rr_was_reformulated = (reformulated \<noteq> query),
               rr_outcome = Applied, rr_input_tokens = input, rr_output_tokens = out\<rparr>)"

definition reformulate :: "'e reformulation_llm \<Rightarrow> rstr \<Rightarrow> chat_turn list \<Rightarrow> reformulation_result" where
  "reformulate llm query history =
     (if history = [] then reformulation_unchanged query Skipped
      else
        let (fitted, truncated) = fit_chat_history history query in
        if fitted = [] then reformulation_unchanged query Skipped
        else (case reformulate_call_llm llm query fitted of
                Inr result \<Rightarrow> if truncated then result\<lparr>rr_outcome := Truncated\<rparr> else result
              | Inl _ \<Rightarrow> reformulation_unchanged query Failed))"

subsection \<open>The slice\<close>

lemma reformulation_token_budget_value: "reformulation_token_budget = 40000"
proof -
  have "context_window_for_model (lit ''anthropic'') (lit ''claude-haiku-4-5-20251001'') = Some 200000"
    by (simp add: context_window_for_model_def catalog_context_window_def models_for_provider_def
        anthropic_models_def lit_def)
  moreover have "round_mag 53 (-1074) 200000 = 200000"
    "round_mag 53 (-1074) (20 / 100) = 3602879701896397 / 18014398509481984"
    "round_mag 53 (-1074) (200000 * (3602879701896397 / 18014398509481984)) = 40000"
    by code_simp+
  then have "rnd64 200000 = Fin 200000" "rnd64 (20 / 100) = Fin (3602879701896397 / 18014398509481984)"
    "rnd64 (200000 * (3602879701896397 / 18014398509481984)) = Fin 40000"
    by (subst rnd64_small; simp)+
  ultimately have "f_mul rnd64 (f_of_nat rnd64 200000) (rnd64 (20 / 100)) = Fin 40000"
    and "context_window_for_model (lit ''anthropic'') (lit ''claude-haiku-4-5-20251001'') = Some 200000"
    by (simp_all only: f_of_nat_def f_mul.simps of_nat_numeral)
  then show ?thesis
    by (simp only: reformulation_token_budget_def option.case)
       (simp add: reformulation_token_budget_def f_of_nat_def f_to_uint_def usize_max_def)
qed

definition turns_cost :: "chat_turn list \<Rightarrow> nat" where
  "turns_cost ts = sum_list (map (\<lambda>t. estimate_tokens (ct_content t)) ts)"

lemma turns_cost_simps [simp]:
  "turns_cost [] = 0" "turns_cost (t # ts) = estimate_tokens (ct_content t) + turns_cost ts"
  "turns_cost (ts @ us) = turns_cost ts + turns_cost us" "turns_cost (rev ts) = turns_cost ts"
  by (simp_all add: turns_cost_def rev_map [symmetric] sum_list_rev)

lemma fit_turns_spec:
  "\<exists>n \<le> length ts. fst (fit_turns b s kept ts tr) = kept @ take n ts \<and>
     snd (fit_turns b s kept ts tr) = (tr \<or> n < length ts) \<and>
     (0 < n \<longrightarrow> s + turns_cost (take n ts) \<le> b) \<and>
     (n < length ts \<longrightarrow> b < s + turns_cost (take n ts) + estimate_tokens (ct_content (ts ! n)))"
proof (induction ts arbitrary: s kept)
  case (Cons t ts)
  let ?c = "estimate_tokens (ct_content t)"
  show ?case
  proof (cases "s + ?c > b")
    case True
    then show ?thesis by (intro exI [of _ 0]) simp
  next
    case False
    from Cons [of "s + ?c" "kept @ [t]"] obtain n where n: "n \<le> length ts"
      "fst (fit_turns b (s + ?c) (kept @ [t]) ts tr) = (kept @ [t]) @ take n ts"
      "snd (fit_turns b (s + ?c) (kept @ [t]) ts tr) = (tr \<or> n < length ts)"
      "0 < n \<longrightarrow> s + ?c + turns_cost (take n ts) \<le> b"
      "n < length ts \<longrightarrow> b < s + ?c + turns_cost (take n ts) + estimate_tokens (ct_content (ts ! n))"
      by blast
    have "s + ?c + turns_cost (take n ts) \<le> b" using n(4) False by (cases "n = 0") auto
    with n False show ?thesis by (intro exI [of _ "Suc n"]) (simp add: Let_def add.assoc)
  qed
qed simp

text \<open>
  What a reformulation call may send: the longest suffix of the conversation that
  has at most five turns and fits, with the instructions and the question, in a fifth of
  the model's window (40000 tokens); the flag says exactly whether a turn was left out.
\<close>

lemma reformulation_history_slice:
  "\<exists>k. k \<le> length history \<and> length history - k \<le> 5 \<and>
     fit_chat_history history query = (drop k history, k \<noteq> 0) \<and>
     (k = length history \<or>
       estimate_tokens reformulation_prompt + estimate_tokens query + turns_cost (drop k history) \<le> 40000) \<and>
     (k = 0 \<or> length history - k = 5 \<or>
       40000 < estimate_tokens reformulation_prompt + estimate_tokens query + turns_cost (drop (k - 1) history))"
proof -
  let ?e = "min (length history) 5" and ?s = "estimate_tokens reformulation_prompt + estimate_tokens query"
  let ?ts = "rev (drop (length history - ?e) history)"
  from fit_turns_spec [of ?ts 40000 ?s "[]" "?e < length history"] obtain n where n: "n \<le> ?e"
    "fit_turns 40000 ?s [] ?ts (?e < length history) = (take n ?ts, ?e < length history \<or> n < ?e)"
    "0 < n \<longrightarrow> ?s + turns_cost (take n ?ts) \<le> 40000"
    "n < ?e \<longrightarrow> 40000 < ?s + turns_cost (take n ?ts) + estimate_tokens (ct_content (?ts ! n))"
    by (auto simp: prod_eq_iff)
  let ?k = "length history - n"
  have take: "rev (take n ?ts) = drop ?k history" using n(1) by (simp add: take_rev)
  then have cost: "turns_cost (take n ?ts) = turns_cost (drop ?k history)"
    by (metis turns_cost_simps(4))
  have next_turn: "?ts ! n = history ! (?k - 1) \<and> drop (?k - 1) history = history ! (?k - 1) # drop ?k history"
    if "n < ?e"
  proof -
    have "?k - 1 < length history" "Suc (?k - 1) = ?k" using that by auto
    then have "drop (?k - 1) history = history ! (?k - 1) # drop ?k history"
      by (metis Cons_nth_drop_Suc)
    moreover have "?ts ! n = history ! (?k - 1)" using that by (simp add: rev_nth)
    ultimately show ?thesis by simp
  qed
  have "fit_chat_history history query = (drop ?k history, ?k \<noteq> 0)"
    using n(1,2) take by (auto simp: fit_chat_history_def reformulation_token_budget_value Let_def)
  moreover have "?k = length history \<or> ?s + turns_cost (drop ?k history) \<le> 40000"
    using n(1,3) cost by auto
  moreover have "?k = 0 \<or> length history - ?k = 5 \<or> 40000 < ?s + turns_cost (drop (?k - 1) history)"
  proof (cases "n < ?e")
    case True
    from next_turn [OF True] have "turns_cost (drop (?k - 1) history) =
        estimate_tokens (ct_content (?ts ! n)) + turns_cost (take n ?ts)"
      by (simp only: cost turns_cost_simps)
    with n(4) True show ?thesis by (simp only: simp_thms) linarith
  next
    case False
    with n(1) have "n = ?e" by linarith
    then show ?thesis by (cases "length history \<le> 5") simp_all
  qed
  moreover have "?k \<le> length history" "length history - ?k \<le> 5" using n(1) by auto
  ultimately show ?thesis by blast
qed

lemma reformulate_unless_success:
  "(\<forall>ms. \<exists>e. llm ms = Inl e) \<Longrightarrow>
   rr_query (reformulate llm query history) = query \<and> \<not> rr_was_reformulated (reformulate llm query history)"
  by (auto simp: reformulate_def reformulation_unchanged_def reformulate_call_llm_def Let_def
      split: sum.splits prod.splits) (metis Inr_not_Inl)+

lemma reformulated_iff_changed:
  "trim query = query \<Longrightarrow>
   rr_was_reformulated (reformulate llm query history) \<longleftrightarrow> rr_query (reformulate llm query history) \<noteq> query"
  by (auto simp: reformulate_def reformulation_unchanged_def reformulate_call_llm_def Let_def
      split: sum.splits prod.splits option.splits)

end
