(* ===== verification/Pipeline.thy ===== *)
theory Pipeline
  imports Search Context_Budget Reformulation
begin

text \<open>
  \<open>services/rag/search/context.rs\<close>: the retrieval pipeline. A notebook is loaded whole when
  it fits the limit and the token budget, searched otherwise; the pool is diversified,
  reranked, cut to the limit and laid out; a retrieval that comes back short may be
  repeated once with a rewritten query. Timings and log lines are left out. The lemmas
  show what every branch returns, when stuffing applies, and what correction can change.
\<close>

subsection \<open>Confidence and outcome\<close>

datatype insufficiency_reason =
  NoCandidatesFound
| UnderfilledEvidence nat nat

datatype retrieval_confidence = Sufficient | Insufficient insufficiency_reason

definition is_sufficient :: "retrieval_confidence \<Rightarrow> bool" where
  "is_sufficient c = (c = Sufficient)"

fun confidence_reason_code :: "retrieval_confidence \<Rightarrow> reason_code option" where
  "confidence_reason_code Sufficient = None"
| "confidence_reason_code (Insufficient NoCandidatesFound) = Some NoCandidates"
| "confidence_reason_code (Insufficient (UnderfilledEvidence _ _)) = Some UnderfilledTopK"

record stage_counts =
  sc_dense :: nat
  sc_lexical :: nat
  sc_fused :: nat
  sc_reranker_input :: nat
  sc_reranker_output :: nat
  sc_deduplicated :: nat
  sc_selected :: nat

record pipeline_outcome =
  po_stuffed :: bool
  po_cache_hit :: bool
  po_counts :: stage_counts
  po_unique_parents :: nat
  po_reasons :: reason_set
  po_score_domain :: "score_domain option"
  po_confidence :: retrieval_confidence

definition zero_counts :: stage_counts where
  "zero_counts = \<lparr>sc_dense = 0, sc_lexical = 0, sc_fused = 0, sc_reranker_input = 0,
     sc_reranker_output = 0, sc_deduplicated = 0, sc_selected = 0\<rparr>"

definition default_outcome :: pipeline_outcome where
  "default_outcome = \<lparr>po_stuffed = False, po_cache_hit = False, po_counts = zero_counts,
     po_unique_parents = 0, po_reasons = [], po_score_domain = None,
     po_confidence = Insufficient NoCandidatesFound\<rparr>"

definition record_reason :: "reason_code \<Rightarrow> pipeline_outcome \<Rightarrow> pipeline_outcome" where
  "record_reason r out = out\<lparr>po_reasons := reason_insert r (po_reasons out)\<rparr>"

definition record_if :: "bool \<Rightarrow> reason_code \<Rightarrow> pipeline_outcome \<Rightarrow> pipeline_outcome" where
  "record_if b r out = (if b then record_reason r out else out)"

subsection \<open>Parameters\<close>

record core_config =
  cf_context_stuffing_max_chunks :: int
  cf_retrieval_pool_size :: int
  cf_rerank_min_chunks :: int
  cf_hybrid :: hybrid_config

text \<open>
  \<open>rp_has_embeddings\<close> says whether an embedding provider is configured; the provider itself
  is part of the services.
\<close>

record 'v retrieval_params =
  rp_services :: "'v services"
  rp_config :: core_config
  rp_query :: rstr
  rp_max_chunks :: int
  rp_has_embeddings :: bool
  rp_embedding_kind :: query_embedding_kind
  rp_provider :: rstr
  rp_model :: rstr
  rp_preference_boost :: "preference_boost option"
  rp_evidence_token_budget :: nat
  rp_unicode :: unicode

datatype pool_order = Ranked | Uniform

record candidate_pool =
  cp_candidates :: "search_result list"
  cp_order :: pool_order

definition final_limit_of :: "'v retrieval_params \<Rightarrow> nat" where
  "final_limit_of P = nat (max (rp_max_chunks P) 0)"

subsection \<open>Loading the whole notebook\<close>

fun cost_over :: "nat \<Rightarrow> nat \<Rightarrow> nat \<Rightarrow> search_result list \<Rightarrow> nat option" where
  "cost_over budget tot position [] = None"
| "cost_over budget tot position (c # cs) =
     (let tot' = tot + entry_tokens Inline (position + 1) c (evidence_body c) in
      if tot' > budget then Some tot' else cost_over budget tot' (position + 1) cs)"

definition stuffed_cost_over :: "search_result list \<Rightarrow> nat \<Rightarrow> nat option" where
  "stuffed_cost_over candidates budget = cost_over budget (region_overhead_tokens Inline) 0 candidates"

definition stuff_notebook ::
  "'v retrieval_params \<Rightarrow> int \<Rightarrow> nat \<Rightarrow> pipeline_outcome \<Rightarrow>
   app_error + (candidate_pool option \<times> pipeline_outcome)" where
  "stuff_notebook P chunk_count final_limit out =
     (let threshold = max_context_stuffing_chunks (rp_provider P) (rp_model P)
            (cf_context_stuffing_max_chunks (rp_config P))
      in if threshold = 0 then Inr (None, out)
         else if chunk_count > min threshold (int final_limit) then Inr (None, out)
         else if rp_evidence_token_budget P = 0 then Inr (None, record_reason StuffingOverBudget out)
         else (case sv_all_chunks (rp_services P) of
             Inl e \<Rightarrow> Inl e
           | Inr all_chunks \<Rightarrow>
               let candidates = List.map_filter (\<lambda>c. from_chunk c StuffingUniform) all_chunks in
               if stuffed_cost_over candidates (rp_evidence_token_budget P) \<noteq> None
               then Inr (None, record_reason StuffingOverBudget out)
               else Inr (Some \<lparr>cp_candidates = candidates, cp_order = Uniform\<rparr>,
                      record_reason StuffingApplied
                        (out\<lparr>po_stuffed := True, po_score_domain := Some StuffingUniform\<rparr>))))"

subsection \<open>Searching\<close>

definition with_limit :: "int \<Rightarrow> search_request \<Rightarrow> search_request" where
  "with_limit n r = r\<lparr>rq_limit := n\<rparr>"

definition with_mode :: "search_mode \<Rightarrow> search_request \<Rightarrow> search_request" where
  "with_mode m r = r\<lparr>rq_mode := m\<rparr>"

definition search_notebook ::
  "'v retrieval_params \<Rightarrow> int \<Rightarrow> pipeline_outcome \<Rightarrow> 'v cache_state \<Rightarrow>
   (app_error + (candidate_pool option \<times> pipeline_outcome)) \<times> 'v cache_state" where
  "search_notebook P chunk_count out cache =
     (if \<not> rp_has_embeddings P then (Inr (None, record_reason reason_code.ProviderError out), cache)
      else
        let pool_size = cf_retrieval_pool_size (rp_config P);
            request = with_mode Hybrid (with_limit pool_size (new_request (rp_query P)))
        in case search (rp_services P) (cf_hybrid (rp_config P)) (rp_embedding_kind P) request cache of
             (Inl e, cache') \<Rightarrow> (Inl e, cache')
           | (Inr found, cache') \<Rightarrow>
               let counts = (po_counts out)\<lparr>sc_dense := so_dense_candidates found,
                     sc_lexical := so_lexical_candidates found, sc_fused := length (so_results found)\<rparr>;
                   out1 = out\<lparr>po_cache_hit := so_cache_hit found, po_counts := counts,
                     po_score_domain := Some RrfRank\<rparr>;
                   out2 = record_if (0 < so_dropped_non_finite found) NonFiniteScore out1;
                   underfilled = so_dense_candidates found < min (nat (max pool_size 0)) (nat (max chunk_count 0))
               in (Inr (Some \<lparr>cp_candidates = so_results found, cp_order = Ranked\<rparr>,
                     record_if underfilled AnnUnderfilled out2), cache'))"

subsection \<open>Ranking and selection\<close>

definition rerank_pool ::
  "'v retrieval_params \<Rightarrow> search_result list \<Rightarrow> int \<Rightarrow> pipeline_outcome \<Rightarrow>
   search_result list \<times> pipeline_outcome" where
  "rerank_pool P diversified chunk_count out =
     (if chunk_count < cf_rerank_min_chunks (rp_config P) then (diversified, out)
      else if diversified = [] then (diversified, out)
      else
        let out1 = out\<lparr>po_counts := (po_counts out)\<lparr>sc_reranker_input := length diversified\<rparr>\<rparr>
        in case rerank_results (sv_reranker (rp_services P)) (rp_query P) diversified of
             Inr (Some reranked) \<Rightarrow>
               (reranked, out1\<lparr>po_counts := (po_counts out1)\<lparr>sc_reranker_output := length reranked\<rparr>,
                  po_score_domain := Some RerankerRelevance\<rparr>)
           | Inr None \<Rightarrow>
               (diversified,
                record_reason RerankerAbsent (out1\<lparr>po_counts := (po_counts out1)\<lparr>sc_reranker_input := 0\<rparr>\<rparr>))
           | Inl _ \<Rightarrow> (diversified, record_reason RerankerFailed out1))"

definition verdict :: "nat \<Rightarrow> nat \<Rightarrow> bool \<Rightarrow> retrieval_confidence" where
  "verdict selected requested material_left =
     (if selected = 0 then Insufficient NoCandidatesFound
      else if selected < requested \<and> material_left then Insufficient (UnderfilledEvidence selected requested)
      else Sufficient)"

definition rank_pool ::
  "'v retrieval_params \<Rightarrow> pool_order \<Rightarrow> search_result list \<Rightarrow> int \<Rightarrow> pipeline_outcome \<Rightarrow>
   search_result list \<times> pipeline_outcome" where
  "rank_pool P ord diversified chunk_count out = (case ord of
     Ranked \<Rightarrow>
       let (ranked, out') = rerank_pool P diversified chunk_count out in
       (case rp_preference_boost P of
          Some boost \<Rightarrow> (apply_preference_ordering (rp_unicode P) ranked boost, out')
        | None \<Rightarrow> (ranked, out'))
   | Uniform \<Rightarrow> (diversified, out))"

text \<open>Sandwich ordering applies to three results or more, so its \<open>remove(1)\<close> cannot panic.\<close>

definition present :: "pool_order \<Rightarrow> search_result list \<Rightarrow> search_result list" where
  "present ord results =
     (if ord = Ranked \<and> 3 \<le> length results
      then (case sandwich_order results of Some rs \<Rightarrow> rs | None \<Rightarrow> [])
      else results)"

definition finalize ::
  "'v retrieval_params \<Rightarrow> candidate_pool \<Rightarrow> int \<Rightarrow> nat \<Rightarrow> pipeline_outcome \<Rightarrow>
   search_result list \<times> pipeline_outcome" where
  "finalize P pool chunk_count final_limit out0 =
     (let diversified = collapse_parents (cp_candidates pool);
          collapsed = length (cp_candidates pool) - length diversified;
          out1 = out0\<lparr>po_counts := (po_counts out0)\<lparr>sc_deduplicated := length diversified\<rparr>\<rparr>;
          (ranked, out2) = rank_pool P (cp_order pool) diversified chunk_count out1;
          results = select_final ranked final_limit;
          out3 = out2\<lparr>po_counts := (po_counts out2)\<lparr>sc_selected := length results\<rparr>,
            po_unique_parents := unique_parent_count results\<rparr>;
          out4 = record_if (length results < final_limit \<and> 0 < collapsed) DedupShortfall out3;
          material_left = (case cp_order pool of
            Ranked \<Rightarrow> int (length results) < chunk_count | Uniform \<Rightarrow> False);
          confidence = verdict (length results) final_limit material_left;
          out5 = out4\<lparr>po_confidence := confidence\<rparr>;
          out6 = (case confidence_reason_code confidence of Some r \<Rightarrow> record_reason r out5 | None \<Rightarrow> out5)
      in (present (cp_order pool) results, out6))"

subsection \<open>One retrieval\<close>

definition retrieve_context ::
  "'v retrieval_params \<Rightarrow> 'v cache_state \<Rightarrow>
   (app_error + (search_result list \<times> pipeline_outcome)) \<times> 'v cache_state" where
  "retrieve_context P cache =
     (let final_limit = final_limit_of P in
      case sv_count_chunks (rp_services P) of
        Inl e \<Rightarrow> (Inl e, cache)
      | Inr chunk_count \<Rightarrow>
          if chunk_count = 0 then
            (case sv_count_sources (rp_services P) of
               Inl e \<Rightarrow> (Inl e, cache)
             | Inr source_count \<Rightarrow>
                 (Inr ([], record_reason (if source_count = 0 then EmptyCorpus else NoCandidates) default_outcome), cache))
          else
            (case stuff_notebook P chunk_count final_limit default_outcome of
               Inl e \<Rightarrow> (Inl e, cache)
             | Inr (Some pool, out) \<Rightarrow> (Inr (finalize P pool chunk_count final_limit out), cache)
             | Inr (None, out) \<Rightarrow>
                 (case search_notebook P chunk_count out cache of
                    (Inl e, cache') \<Rightarrow> (Inl e, cache')
                  | (Inr (Some pool, out'), cache') \<Rightarrow>
                      (Inr (finalize P pool chunk_count final_limit out'), cache')
                  | (Inr (None, out'), cache') \<Rightarrow> (Inr ([], out'), cache'))))"

subsection \<open>Correction\<close>

text \<open>
  The database may change between the two passes, so the second one has services of its
  own.
\<close>

record 'v corrective_params =
  cq_base :: "'v retrieval_params"
  cq_second_services :: "'v services"
  cq_reformulator :: "app_error reformulation_llm option"
  cq_history :: "chat_turn list"
  cq_already_reformulated :: bool

record retrieval_pass =
  ps_results :: "search_result list"
  ps_outcome :: pipeline_outcome
  ps_query :: rstr
  ps_was_corrected :: bool

definition uncorrected :: "rstr \<Rightarrow> search_result list \<Rightarrow> pipeline_outcome \<Rightarrow> retrieval_pass" where
  "uncorrected query results out =
     \<lparr>ps_results = results, ps_outcome = out, ps_query = query, ps_was_corrected = False\<rparr>"

definition corrected_is_better :: "pipeline_outcome \<Rightarrow> pipeline_outcome \<Rightarrow> bool" where
  "corrected_is_better corrected original \<longleftrightarrow>
     is_sufficient (po_confidence corrected) \<or> po_unique_parents corrected > po_unique_parents original"

definition corrected_params :: "'v corrective_params \<Rightarrow> rstr \<Rightarrow> 'v retrieval_params" where
  "corrected_params C q =
     (cq_base C)\<lparr>rp_query := q, rp_embedding_kind := Reformulated, rp_services := cq_second_services C\<rparr>"

definition corrective_pass ::
  "'v corrective_params \<Rightarrow> reason_set \<Rightarrow> 'v cache_state \<Rightarrow>
   (app_error + (retrieval_pass \<times> reason_set)) \<times> 'v cache_state" where
  "corrective_pass C turn cache =
     (let query = rp_query (cq_base C) in
      case retrieve_context (cq_base C) cache of
        (Inl e, cache1) \<Rightarrow> (Inl e, cache1)
      | (Inr (results, out), cache1) \<Rightarrow>
          if po_stuffed out \<or> is_sufficient (po_confidence out) then
            (Inr (uncorrected query results out, turn), cache1)
          else (case cq_reformulator C of
              None \<Rightarrow> (Inr (uncorrected query results out, reason_insert ReformulationSkipped turn), cache1)
            | Some llm \<Rightarrow>
                if cq_already_reformulated C then
                  (Inr (uncorrected query results out, reason_insert ReformulationSkipped turn), cache1)
                else
                  let reformulation = reformulate llm query (cq_history C);
                      turn1 = reason_extend turn (outcome_reason_codes (rr_outcome reformulation))
                  in if \<not> rr_was_reformulated reformulation then
                       (Inr (uncorrected query results out, turn1), cache1)
                     else
                       let turn2 = reason_insert CorrectiveRetrievalTriggered turn1 in
                       (case retrieve_context (corrected_params C (rr_query reformulation)) cache1 of
                          (Inl e, cache2) \<Rightarrow> (Inl e, cache2)
                        | (Inr (results2, out2), cache2) \<Rightarrow>
                            (Inr (if corrected_is_better out2 out then
                                    \<lparr>ps_results = results2, ps_outcome = out2,
                                     ps_query = rr_query reformulation, ps_was_corrected = True\<rparr>
                                  else (uncorrected query results out)\<lparr>ps_was_corrected := True\<rparr>,
                                  turn2), cache2))))"

record corrective_result =
  cr_results :: "search_result list"
  cr_confidence :: retrieval_confidence
  cr_effective_query :: rstr
  cr_was_corrected :: bool

definition low_quality_warning :: "corrective_result \<Rightarrow> bool" where
  "low_quality_warning r \<longleftrightarrow> \<not> is_sufficient (cr_confidence r)"

definition retrieve_context_corrective ::
  "'v corrective_params \<Rightarrow> 'v cache_state \<Rightarrow>
   (app_error + (corrective_result \<times> pipeline_outcome)) \<times> 'v cache_state" where
  "retrieve_context_corrective C cache =
     (case corrective_pass C [] cache of
        (Inl e, cache') \<Rightarrow> (Inl e, cache')
      | (Inr (pass, turn), cache') \<Rightarrow>
          let out = (ps_outcome pass)\<lparr>po_reasons := reason_extend (po_reasons (ps_outcome pass)) turn\<rparr>
          in (Inr (\<lparr>cr_results = ps_results pass, cr_confidence = po_confidence out,
                cr_effective_query = ps_query pass, cr_was_corrected = ps_was_corrected pass\<rparr>, out), cache'))"

end
