(* ===== verification/Pipeline_Contract.thy ===== *)
theory Pipeline_Contract
  imports Pipeline
begin

text \<open>
  What the retrieval pipeline of \<open>Pipeline\<close> promises: the cardinality contract of every
  branch, the scale its scores are on, the all-or-nothing rule of context stuffing, and
  what a corrective pass may and may not do. The laws assumed of the outside are that a
  hash map's iteration visits each entry once and that a reranker names each document at
  most once.
\<close>

subsection \<open>Distinct parents\<close>

definition parents_distinct :: "search_result list \<Rightarrow> bool" where
  "parents_distinct rs \<longleftrightarrow> distinct (List.map_filter parent_key rs)"

definition honest_reranker :: "'v services \<Rightarrow> bool" where
  "honest_reranker S \<longleftrightarrow>
     (\<forall>r q ds n ps. sv_reranker S = Some r \<longrightarrow> r q ds n = Inr ps \<longrightarrow> distinct (map fst ps))"

lemma map_filter_append: "List.map_filter f (xs @ ys) = List.map_filter f xs @ List.map_filter f ys"
  by (induction xs) (auto simp: map_filter_simps split: option.splits)

lemma parents_distinct_perm: "mset xs = mset ys \<Longrightarrow> parents_distinct xs = parents_distinct ys"
  unfolding parents_distinct_def using mset_map_filter [of xs ys parent_key]
  by (metis mset_eq_imp_distinct_iff)

lemma parents_distinct_take: "parents_distinct xs \<Longrightarrow> parents_distinct (take n xs)"
proof -
  assume "parents_distinct xs"
  moreover have "List.map_filter parent_key xs =
      List.map_filter parent_key (take n xs) @ List.map_filter parent_key (drop n xs)"
    by (simp flip: map_filter_append)
  ultimately show ?thesis by (simp add: parents_distinct_def)
qed

lemma parents_distinct_collapse: "parents_distinct (collapse_parents rs)"
proof -
  have "map parent_key (collapse_parents rs) = map parent_key (first_per_parent {} rs)"
    by (simp add: map_collapse_parents)
  from map_filter_of_map [OF this] show ?thesis
    using parent_keys_first_per_parent [of "{}" rs] by (simp add: parents_distinct_def)
qed

lemma length_map_filter: "length (List.map_filter f xs) + length (filter (\<lambda>x. f x = None) xs) = length xs"
  by (induction xs) (auto simp: map_filter_simps split: option.splits)

lemma unique_parent_count_distinct: "parents_distinct rs \<Longrightarrow> unique_parent_count rs = length rs"
  using length_map_filter [of parent_key rs]
  by (simp add: parents_distinct_def unique_parent_count_def distinct_remdups_id)

lemma distinct_map_filter_nth:
  assumes "distinct (List.map_filter f xs)" "i < length xs" "j < length xs" "f (xs ! i) = Some k" "f (xs ! j) = Some k"
  shows "i = j"
  using assms
proof (induction xs arbitrary: i j)
  case (Cons x xs)
  have mem: "k \<in> set (List.map_filter f xs)" if "n < length xs" "f (xs ! n) = Some k" for n
    using that by (auto simp: set_map_filter)
  show ?case
    using Cons.prems Cons.IH mem
    by (cases i; cases j) (auto simp: map_filter_simps split: option.splits)
qed simp

lemma parent_key_reranked:
  "reranked_result rs p = Some r \<Longrightarrow>
   fst p < length rs \<and> parent_key r = parent_key (rs ! fst p) \<and> domain_of (sr_score r) = RerankerRelevance"
  by (auto simp: reranked_result_def parent_key_def score_new_Some split: option.splits)

lemma parents_distinct_reranked:
  assumes "parents_distinct rs" "distinct (map fst ps)"
  shows "parents_distinct (List.map_filter (reranked_result rs) ps)"
  using assms(2)
proof (induction ps)
  case (Cons p ps)
  then have IH: "parents_distinct (List.map_filter (reranked_result rs) ps)" by simp
  show ?case
  proof (cases "reranked_result rs p")
    case None
    then show ?thesis using IH by (simp add: map_filter_simps)
  next
    case (Some r)
    have "k \<notin> set (List.map_filter parent_key (List.map_filter (reranked_result rs) ps))"
      if k: "parent_key r = Some k" for k
    proof
      assume "k \<in> set (List.map_filter parent_key (List.map_filter (reranked_result rs) ps))"
      then obtain q s where q: "q \<in> set ps" "reranked_result rs q = Some s" "parent_key s = Some k"
        by (auto simp: set_map_filter)
      have "fst p = fst q"
        using distinct_map_filter_nth [of parent_key rs "fst p" "fst q" k] assms(1) k q
          parent_key_reranked [OF Some] parent_key_reranked [OF q(2)]
        by (auto simp: parents_distinct_def)
      with q(1) Cons.prems show False by force
    qed
    with IH Some show ?thesis
      by (cases "parent_key r") (simp_all add: map_filter_simps parents_distinct_def)
  qed
qed (simp add: parents_distinct_def map_filter_simps)

lemma rerank_results_Some:
  assumes "rerank_results (sv_reranker S) query rs = Inr (Some out)"
  obtains r ps where "sv_reranker S = Some r" "r query (map sr_content rs) (length rs) = Inr ps"
    "out = sort_by score_then_id (List.map_filter (reranked_result rs) ps)"
  using assms
  by (auto simp: rerank_results_def sort_by_score_then_id_def split: if_splits option.splits sum.splits)

subsection \<open>The ranked pool\<close>

definition one_domain :: "score_domain \<Rightarrow> search_result list \<Rightarrow> bool" where
  "one_domain d rs \<longleftrightarrow> (\<forall>r \<in> set rs. domain_of (sr_score r) = d)"

text \<open>
  The scale a reported one stands for: with hybrid search switched off the pool is the
  dense search's, and the trace names it \<open>RrfRank\<close> all the same.
\<close>

definition scale_meant :: "bool \<Rightarrow> score_domain \<Rightarrow> score_domain" where
  "scale_meant hybrid d = (if d = RrfRank \<and> \<not> hybrid then DenseSimilarity else d)"

definition domain_recorded :: "bool \<Rightarrow> pipeline_outcome \<Rightarrow> search_result list \<Rightarrow> bool" where
  "domain_recorded hybrid out rs \<longleftrightarrow>
     (case po_score_domain out of Some d \<Rightarrow> one_domain (scale_meant hybrid d) rs | None \<Rightarrow> rs = [])"

lemma domain_recorded_subset:
  "domain_recorded hybrid out rs \<Longrightarrow> set ts \<subseteq> set rs \<Longrightarrow> domain_recorded hybrid out ts"
  by (auto simp: domain_recorded_def one_domain_def split: option.splits)

lemma record_reason_fields [simp]:
  "po_score_domain (record_reason r out) = po_score_domain out"
  "po_counts (record_reason r out) = po_counts out"
  "po_stuffed (record_reason r out) = po_stuffed out"
  "po_unique_parents (record_reason r out) = po_unique_parents out"
  "po_confidence (record_reason r out) = po_confidence out"
  "po_reasons (record_reason r out) = reason_insert r (po_reasons out)"
  by (simp_all add: record_reason_def)

lemma record_if_fields [simp]:
  "po_score_domain (record_if b r out) = po_score_domain out"
  "po_counts (record_if b r out) = po_counts out"
  "po_stuffed (record_if b r out) = po_stuffed out"
  "po_unique_parents (record_if b r out) = po_unique_parents out"
  "po_confidence (record_if b r out) = po_confidence out"
  by (simp_all add: record_if_def)

lemma po_stuffed_counts [simp]: "po_stuffed (out\<lparr>po_counts := c\<rparr>) = po_stuffed out"
  by simp

lemma domain_recorded_record [simp]:
  "domain_recorded hybrid (record_reason r out) rs = domain_recorded hybrid out rs"
  "domain_recorded hybrid (record_if b r out) rs = domain_recorded hybrid out rs"
  "domain_recorded hybrid (out\<lparr>po_counts := c\<rparr>) rs = domain_recorded hybrid out rs"
  by (simp_all add: domain_recorded_def)

lemma rerank_pool_spec:
  assumes "rerank_pool P rs n out = (ranked, out')" "parents_distinct rs" "honest_reranker (rp_services P)"
    "domain_recorded hybrid out rs"
  shows "parents_distinct ranked \<and> domain_recorded hybrid out' ranked \<and> po_stuffed out' = po_stuffed out"
proof (cases "rerank_results (sv_reranker (rp_services P)) (rp_query P) rs")
  case (Inr r)
  then show ?thesis
  proof (cases r)
    case (Some reranked)
    from rerank_results_Some [OF Inr [unfolded Some]] obtain f ps where
      f: "sv_reranker (rp_services P) = Some f" "f (rp_query P) (map sr_content rs) (length rs) = Inr ps"
      and eq: "reranked = sort_by score_then_id (List.map_filter (reranked_result rs) ps)" by blast
    have "distinct (map fst ps)" using assms(3) f by (auto simp: honest_reranker_def)
    then have "parents_distinct reranked"
      using parents_distinct_reranked [OF assms(2)] parents_distinct_perm [of reranked] by (simp add: eq)
    moreover have "one_domain RerankerRelevance reranked"
      by (auto simp: one_domain_def eq set_map_filter dest: parent_key_reranked)
    ultimately show ?thesis
      using assms Inr Some by (auto simp: rerank_pool_def domain_recorded_def scale_meant_def split: if_splits)
  qed (use assms Inr in \<open>auto simp: rerank_pool_def split: if_splits\<close>)
qed (use assms in \<open>auto simp: rerank_pool_def split: if_splits\<close>)

lemma set_apply_preference_ordering [simp]: "set (apply_preference_ordering U rs b) = set rs"
  and mset_apply_preference_ordering [simp]: "mset (apply_preference_ordering U rs b) = mset rs"
  by (simp_all add: apply_preference_ordering_def)

lemma apply_preference_ordering_Nil [simp]: "apply_preference_ordering U [] b = []"
  by (simp add: apply_preference_ordering_def)

lemma final_limit_of_nat: "final_limit_of P = nat (rp_max_chunks P)"
  by (simp add: final_limit_of_def max_def)

lemma rank_pool_spec:
  assumes "rank_pool P ord rs n out = (ranked, out')" "parents_distinct rs" "honest_reranker (rp_services P)"
    "domain_recorded hybrid out rs"
  shows "parents_distinct ranked \<and> domain_recorded hybrid out' ranked \<and> po_stuffed out' = po_stuffed out"
proof (cases ord)
  case Ranked
  obtain rr out1 where r: "rerank_pool P rs n out = (rr, out1)" by fastforce
  note spec = rerank_pool_spec [OF r assms(2-4)]
  have "ranked = rr \<or> (\<exists>b. ranked = apply_preference_ordering (rp_unicode P) rr b)" "out' = out1"
    using assms(1) Ranked r by (auto simp: rank_pool_def split: option.splits)
  then show ?thesis
    using spec parents_distinct_perm [of ranked rr] domain_recorded_subset [of hybrid out1 rr ranked] by auto
qed (use assms in \<open>auto simp: rank_pool_def\<close>)

lemma present_perm: "mset (present ord rs) = mset rs"
proof (cases "ord = Ranked \<and> 3 \<le> length rs")
  case True
  then obtain a b ts where "rs = a # b # ts" by (auto simp: numeral_3_eq_3 Suc_le_length_iff)
  then show ?thesis using True by (simp add: present_def)
qed (auto simp: present_def)

lemma length_present [simp]: "length (present ord rs) = length rs"
  using present_perm by (metis size_mset)

lemma set_present [simp]: "set (present ord rs) = set rs"
  using present_perm by (metis set_mset_mset)

subsection \<open>The contract of one retrieval\<close>

definition contract :: "bool \<Rightarrow> nat \<Rightarrow> search_result list \<Rightarrow> pipeline_outcome \<Rightarrow> bool" where
  "contract hybrid limit rs out \<longleftrightarrow>
     length rs \<le> limit \<and> parents_distinct rs \<and>
     sc_selected (po_counts out) = length rs \<and> po_unique_parents out = length rs \<and>
     domain_recorded hybrid out rs \<and> (is_sufficient (po_confidence out) \<longrightarrow> rs \<noteq> [])"

lemma verdict_sufficient: "is_sufficient (verdict s r m) \<Longrightarrow> 0 < s \<and> (s < r \<longrightarrow> \<not> m)"
  by (auto simp: verdict_def is_sufficient_def split: if_splits)

lemma collapse_domain: "one_domain d rs \<Longrightarrow> one_domain d (collapse_parents rs)"
proof -
  assume "one_domain d rs"
  moreover have "set (first_per_parent {} rs) \<subseteq> set rs"
    using list_emb_set [OF subseq_first_per_parent [of "{}" rs]] by blast
  moreover have "map sr_score (collapse_parents rs) = map sr_score (first_per_parent {} rs)"
    by (rule map_collapse_parents) simp
  then have "sr_score ` set (collapse_parents rs) = sr_score ` set (first_per_parent {} rs)"
    by (metis list.set_map)
  ultimately show ?thesis unfolding one_domain_def by (metis (no_types, lifting) image_iff subsetD)
qed

lemma collapse_parents_Nil [simp]: "collapse_parents [] = []"
  by (simp add: collapse_parents_def)

lemma finalize_contract:
  assumes "finalize P pool n limit out = (rs, out')" "honest_reranker (rp_services P)"
    "domain_recorded hybrid out (cp_candidates pool)"
  shows "contract hybrid limit rs out' \<and> po_stuffed out' = po_stuffed out"
proof -
  let ?div = "collapse_parents (cp_candidates pool)"
  let ?out1 = "out\<lparr>po_counts := (po_counts out)\<lparr>sc_deduplicated := length ?div\<rparr>\<rparr>"
  obtain ranked out2 where r: "rank_pool P (cp_order pool) ?div n ?out1 = (ranked, out2)" by fastforce
  have "domain_recorded hybrid ?out1 ?div"
    using assms(3) collapse_domain by (auto simp: domain_recorded_def split: option.splits)
  note spec = rank_pool_spec [OF r parents_distinct_collapse assms(2) this]
  let ?sel = "select_final ranked limit"
  have sel: "parents_distinct ?sel" "set ?sel \<subseteq> set ranked" "length ?sel \<le> limit"
    using spec by (auto simp: select_final_def parents_distinct_take dest: in_set_takeD)
  have fin: "rs = present (cp_order pool) ?sel" "po_score_domain out' = po_score_domain out2"
    "sc_selected (po_counts out') = length ?sel" "po_unique_parents out' = unique_parent_count ?sel"
    "po_stuffed out' = po_stuffed out2"
    "\<exists>m. po_confidence out' = verdict (length ?sel) limit m"
    using assms(1) r by (auto simp: finalize_def Let_def split: option.splits)
  have perm: "parents_distinct rs"
    using parents_distinct_perm [OF present_perm] sel(1) fin(1) by simp
  have dom: "domain_recorded hybrid out' rs"
    using spec domain_recorded_subset [of hybrid out2 ranked rs] sel(2) fin(1,2)
    by (simp add: domain_recorded_def)
  have len: "length rs = length ?sel" by (simp add: fin(1))
  from fin(6) obtain m where "po_confidence out' = verdict (length ?sel) limit m" by blast
  then have "is_sufficient (po_confidence out') \<longrightarrow> rs \<noteq> []"
    using verdict_sufficient [of "length ?sel" limit m] len by auto
  then show ?thesis
    using sel perm dom fin(2-5) len spec unique_parent_count_distinct [OF sel(1)]
    by (simp add: contract_def)
qed

subsection \<open>The two sources\<close>

lemma stuff_notebook_Some:
  assumes "stuff_notebook P n limit out = Inr (Some pool, out')"
  obtains rows where "sv_all_chunks (rp_services P) = Inr rows" "cp_order pool = Uniform"
    "cp_candidates pool = List.map_filter (\<lambda>c. from_chunk c StuffingUniform) rows"
    "stuffed_cost_over (cp_candidates pool) (rp_evidence_token_budget P) = None"
    "n \<le> int limit" "po_stuffed out'" "po_score_domain out' = Some StuffingUniform"
  using assms by (auto simp: stuff_notebook_def Let_def split: if_splits sum.splits)

lemma stuff_notebook_None:
  assumes "stuff_notebook P n limit out = Inr (None, out')"
  shows "po_stuffed out' = po_stuffed out \<and> po_score_domain out' = po_score_domain out"
  using assms by (auto simp: stuff_notebook_def Let_def split: if_splits sum.splits)

lemma search_notebook_Inr:
  assumes "search_notebook P n out cache = (Inr (opt, out'), cache')"
  shows "po_stuffed out' = po_stuffed out \<and>
    (case opt of
       None \<Rightarrow> po_score_domain out' = po_score_domain out \<and> po_confidence out' = po_confidence out \<and>
         po_counts out' = po_counts out \<and> po_unique_parents out' = po_unique_parents out
     | Some pool \<Rightarrow> cp_order pool = Ranked \<and> po_score_domain out' = Some RrfRank \<and>
         (\<exists>found. search (rp_services P) (cf_hybrid (rp_config P)) (rp_embedding_kind P)
            (with_mode Hybrid (with_limit (cf_retrieval_pool_size (rp_config P)) (new_request (rp_query P)))) cache
            = (Inr found, cache') \<and> cp_candidates pool = so_results found))"
  using assms by (auto simp: search_notebook_def Let_def split: if_splits sum.splits prod.splits)

lemma search_one_domain:
  assumes "search S cfg kind request cache = (Inr out, cache')" "fair_map_order S" "rq_mode request = Hybrid"
  shows "one_domain (if hc_enabled cfg then RrfRank else DenseSimilarity) (so_results out)"
proof (cases "hc_enabled cfg")
  case True
  then have "hybrid_search S cfg kind request cache = (Inr out, cache')"
    using assms(1,3) by (simp add: search_def effective_mode_def)
  then show ?thesis
  proof (rule hybrid_search_Inr)
    fix e query rows assume "out = fuse_rows S cfg request (eq_cache_hit e) rows"
    then have "\<forall>r \<in> set (so_results out). scored_on RrfRank r"
      using fuse_rows_results(4) [OF assms(2) refl] by simp
    with True show ?thesis by (simp add: one_domain_def scored_on_def)
  qed
next
  case False
  then have "semantic_search_with_hyde S kind request cache = (Inr out, cache')"
    using assms(1,3) by (simp add: search_def effective_mode_def)
  then obtain chunks where
    "so_results out = fst (filter_and_convert chunks (rq_min_relevance request) DenseSimilarity)"
    by (auto simp: semantic_search_with_hyde_def Let_def split_def split: sum.splits prod.splits)
  with False show ?thesis
    by (auto simp: one_domain_def set_filter_and_convert dest: from_chunk_Some)
qed

lemma with_mode_limit [simp]:
  "rq_mode (with_mode m r) = m" "rq_limit (with_mode m r) = rq_limit r" "rq_limit (with_limit n r) = n"
  by (simp_all add: with_mode_def with_limit_def)

lemma default_outcome_fields [simp]:
  "po_score_domain default_outcome = None" "po_counts default_outcome = zero_counts"
  "po_unique_parents default_outcome = 0" "\<not> po_stuffed default_outcome"
  "po_confidence default_outcome = Insufficient NoCandidatesFound" "sc_selected zero_counts = 0"
  by (simp_all add: default_outcome_def zero_counts_def)

lemma contract_empty: 
  "po_score_domain out = None \<Longrightarrow> po_confidence out = Insufficient NoCandidatesFound \<Longrightarrow>
   sc_selected (po_counts out) = 0 \<Longrightarrow> po_unique_parents out = 0 \<Longrightarrow> contract hybrid n [] out"
  by (simp add: contract_def parents_distinct_def map_filter_simps domain_recorded_def is_sufficient_def)

text \<open>The ways a retrieval succeeds.\<close>

lemma retrieve_context_cases:
  assumes "retrieve_context P cache = (Inr (rs, out), cache')"
  obtains (empty) r where "rs = []" "out = record_reason r default_outcome" "cache' = cache"
    | (stuffed) n pool out0 where "sv_count_chunks (rp_services P) = Inr n"
      "stuff_notebook P n (final_limit_of P) default_outcome = Inr (Some pool, out0)"
      "finalize P pool n (final_limit_of P) out0 = (rs, out)" "cache' = cache"
    | (unsearched) n out0 where "stuff_notebook P n (final_limit_of P) default_outcome = Inr (None, out0)"
      "search_notebook P n out0 cache = (Inr (None, out), cache')" "rs = []"
    | (searched) n out0 pool out1 where "sv_count_chunks (rp_services P) = Inr n"
      "stuff_notebook P n (final_limit_of P) default_outcome = Inr (None, out0)"
      "search_notebook P n out0 cache = (Inr (Some pool, out1), cache')"
      "finalize P pool n (final_limit_of P) out1 = (rs, out)"
  using assms unfolding retrieve_context_def Let_def
  by (auto split: sum.splits if_splits prod.splits option.splits)

lemma stuff_notebook_None_fields:
  assumes "stuff_notebook P n limit default_outcome = Inr (None, out')"
  shows "\<exists>rs. out' = default_outcome\<lparr>po_reasons := rs\<rparr>"
proof -
  have "default_outcome = default_outcome\<lparr>po_reasons := []\<rparr>" by (simp add: default_outcome_def)
  with assms show ?thesis
    by (auto simp: stuff_notebook_def Let_def record_reason_def split: if_splits sum.splits)
qed

lemma retrieve_context_contract:
  assumes "retrieve_context P cache = (Inr (rs, out), cache')" "fair_map_order (rp_services P)"
    "honest_reranker (rp_services P)"
  shows "contract (hc_enabled (cf_hybrid (rp_config P))) (final_limit_of P) rs out"
  using assms(1)
proof (cases rule: retrieve_context_cases)
  case (empty r)
  then show ?thesis by (simp add: contract_empty)
next
  case (stuffed n pool out0)
  from stuffed(2) have "domain_recorded (hc_enabled (cf_hybrid (rp_config P))) out0 (cp_candidates pool)"
    by (rule stuff_notebook_Some)
       (auto simp: domain_recorded_def one_domain_def scale_meant_def set_map_filter dest: from_chunk_Some)
  from finalize_contract [OF stuffed(3) assms(3) this] show ?thesis by simp
next
  case (unsearched n out0)
  from stuff_notebook_None_fields [OF unsearched(1)] search_notebook_Inr [OF unsearched(2)] unsearched(3)
  show ?thesis by (auto simp: contract_empty)
next
  case (searched n out0 pool out1)
  from search_notebook_Inr [OF searched(3)] have dom: "po_score_domain out1 = Some RrfRank"
    and found: "\<exists>found. search (rp_services P) (cf_hybrid (rp_config P)) (rp_embedding_kind P)
        (with_mode Hybrid (with_limit (cf_retrieval_pool_size (rp_config P)) (new_request (rp_query P)))) cache
        = (Inr found, cache') \<and> cp_candidates pool = so_results found" by simp_all
  let ?on = "hc_enabled (cf_hybrid (rp_config P))"
  from found search_one_domain [OF _ assms(2)]
  have "one_domain (if ?on then RrfRank else DenseSimilarity) (cp_candidates pool)" by fastforce
  then have "one_domain (scale_meant ?on RrfRank) (cp_candidates pool)" by (simp add: scale_meant_def split: if_splits)
  with dom have "domain_recorded ?on out1 (cp_candidates pool)" by (simp add: domain_recorded_def)
  from finalize_contract [OF searched(4) assms(3) this] show ?thesis by simp
qed

subsection \<open>Stuffing\<close>

lemma cost_over_None:
  "cost_over budget tot i cs = None \<Longrightarrow> cs \<noteq> [] \<Longrightarrow> tot + entries_cost Inline i cs \<le> budget"
proof (induction cs arbitrary: tot i)
  case (Cons c cs)
  then have step: "tot + entry_tokens Inline (i + 1) c (evidence_body c) \<le> budget"
    "cost_over budget (tot + entry_tokens Inline (i + 1) c (evidence_body c)) (i + 1) cs = None"
    by (auto simp: Let_def split: if_splits)
  with Cons.IH [OF step(2)] show ?case by (cases "cs = []") simp_all
qed simp

lemma stuffed_region_fits:
  assumes "stuffed_cost_over cs budget = None"
  shows "str_len (format_context_for_llm cs) \<le> budget"
proof (cases "cs = []")
  case False
  have "str_len (format_context_for_llm cs) \<le> region_price Inline cs"
    using price_covers_region [of cs] by (simp add: price_def region_price_def)
  also have "\<dots> \<le> budget"
    using cost_over_None [OF assms [unfolded stuffed_cost_over_def] False] False
    by (simp add: region_price_entries)
  finally show ?thesis .
qed (simp add: format_context_for_llm_def)

lemma length_collapse_parents: "length (collapse_parents rs) \<le> length rs"
proof -
  have "length (collapse_parents rs) = length (first_per_parent {} rs)"
    using map_collapse_parents [of chunk_id rs] by (metis erase_simps(1) length_map)
  then show ?thesis using list_emb_length [OF subseq_first_per_parent] by (metis)
qed

lemma finalize_uniform:
  assumes "finalize P pool n limit out = (rs, out')" "cp_order pool = Uniform"
  shows "rs = select_final (collapse_parents (cp_candidates pool)) limit"
  using assms by (auto simp: finalize_def rank_pool_def present_def Let_def)

lemma search_not_stuffed:
  assumes "search_notebook P n out0 cache = (Inr (opt, out1), cache')"
    "stuff_notebook P m limit default_outcome = Inr (None, out0)"
  shows "\<not> po_stuffed out1"
  using stuff_notebook_None [OF assms(2)] search_notebook_Inr [OF assms(1)] by simp

lemma finalize_stuffed:
  assumes "finalize P pool n limit out = (rs, out')"
  shows "po_stuffed out' = po_stuffed out"
proof -
  have "po_stuffed (snd (rank_pool P ord ds n o')) = po_stuffed o'" for ord ds o'
    by (auto simp: rank_pool_def rerank_pool_def Let_def split: pool_order.splits option.splits sum.splits prod.splits)
  moreover obtain ranked out2 where r: "rank_pool P (cp_order pool) (collapse_parents (cp_candidates pool)) n
      (out\<lparr>po_counts := (po_counts out)\<lparr>sc_deduplicated := length (collapse_parents (cp_candidates pool))\<rparr>\<rparr>) =
      (ranked, out2)" by fastforce
  ultimately have "po_stuffed out2 = po_stuffed out" by (metis po_stuffed_counts snd_conv)
  with assms r show ?thesis
    by (auto simp: finalize_def Let_def split: option.splits)
qed

lemma retrieve_context_stuffed:
  assumes "retrieve_context P cache = (Inr (rs, out), cache')" "po_stuffed out"
  obtains n pool out0 where "sv_count_chunks (rp_services P) = Inr n"
    "stuff_notebook P n (final_limit_of P) default_outcome = Inr (Some pool, out0)"
    "finalize P pool n (final_limit_of P) out0 = (rs, out)" "cache' = cache"
  using assms(1)
proof (cases rule: retrieve_context_cases)
  case (empty r)
  with assms(2) show ?thesis by simp
next
  case (stuffed n pool out0)
  then show ?thesis by (rule that)
next
  case (unsearched n out0)
  with search_not_stuffed [OF unsearched(2) unsearched(1)] assms(2) show ?thesis by simp
next
  case (searched n out0 pool out1)
  with search_not_stuffed [OF searched(3) searched(2)] finalize_stuffed [OF searched(4)] assms(2)
  show ?thesis by simp
qed

subsection \<open>Samples\<close>

text \<open>
  \<open>sample_params\<close> has no token budget for evidence, so the notebook is searched;
  \<open>stuffing_params\<close> has one, and a single chunk.
\<close>

definition sample_params :: "nat retrieval_params" where
  "sample_params = \<lparr>rp_services = sample_services,
     rp_config = \<lparr>cf_context_stuffing_max_chunks = 100, cf_retrieval_pool_size = 50,
        cf_rerank_min_chunks = 10, cf_hybrid = sample_hybrid\<rparr>,
     rp_query = lit ''q'', rp_max_chunks = 15, rp_has_embeddings = True, rp_embedding_kind = Direct,
     rp_provider = lit ''openai'', rp_model = lit ''gpt-5.2'', rp_preference_boost = None,
     rp_evidence_token_budget = 0, rp_unicode = ascii_tables\<rparr>"

definition stuffing_params :: "nat retrieval_params" where
  "stuffing_params = sample_params\<lparr>rp_evidence_token_budget := 1000,
     rp_services := sample_services\<lparr>sv_count_chunks := Inr 1, sv_all_chunks := Inr [sample_row 1 None]\<rparr>\<rparr>"

lemma sample_threshold: "max_context_stuffing_chunks (lit ''openai'') (lit ''gpt-5.2'') 100 = 30"
  by code_simp

lemma sample_query: "trim (lit ''q'') = lit ''q''" "lit ''q'' \<noteq> []"
  by (simp_all add: trim_def trim_start_def trim_end_def is_whitespace_def lit_def)

lemma sample_params_services:
  "fair_map_order (rp_services sample_params)" "honest_reranker (rp_services sample_params)"
  "fair_map_order (rp_services stuffing_params)" "honest_reranker (rp_services stuffing_params)"
  by (simp_all add: sample_params_def stuffing_params_def honest_reranker_def fair_map_order_def sample_services_def)

lemma sample_retrieval:
  "\<exists>rs out cache'. retrieve_context (sample_params\<lparr>rp_config := (rp_config sample_params)
       \<lparr>cf_hybrid := sample_hybrid\<lparr>hc_enabled := b\<rparr>\<rparr>\<rparr>) None = (Inr (rs, out), cache') \<and> \<not> po_stuffed out"
proof -
  let ?P = "sample_params\<lparr>rp_config := (rp_config sample_params)\<lparr>cf_hybrid := sample_hybrid\<lparr>hc_enabled := b\<rparr>\<rparr>\<rparr>"
  have "\<exists>found. search sample_services (sample_hybrid\<lparr>hc_enabled := b\<rparr>) Direct
      (with_mode Hybrid (with_limit 50 (new_request (lit ''q'')))) None = (Inr found, None)"
    by (cases b)
       (simp_all add: search_def effective_mode_def hybrid_search_def semantic_search_with_hyde_def
        validated_query_def new_request_def with_mode_def with_limit_def embed_query_def fresh_embedding_def
        sample_services_def sample_query Let_def split_def)
  then obtain pool out0 where s: "search_notebook ?P 3 (record_reason StuffingOverBudget default_outcome) None = (Inr (Some pool, out0), None)"
    by (auto simp: search_notebook_def sample_params_def Let_def)
  have t: "stuff_notebook ?P 3 (final_limit_of ?P) default_outcome =
      Inr (None, record_reason StuffingOverBudget default_outcome)"
    by (simp add: stuff_notebook_def sample_params_def sample_threshold final_limit_of_def)
  obtain rs out where f: "finalize ?P pool 3 (final_limit_of ?P) out0 = (rs, out)" by fastforce
  have "retrieve_context ?P None = (Inr (rs, out), None)"
    using s t f by (simp add: retrieve_context_def sample_params_def sample_services_def)
  moreover have "\<not> po_stuffed out"
    using finalize_stuffed [OF f] search_not_stuffed [OF s t] by simp
  ultimately show ?thesis by blast
qed

lemma entity_hex: "entity (hex_digit (n mod 16)) = None" and len_hex: "len_utf8 (hex_digit (n mod 16)) = 1"
proof -
  have "n mod 16 < 16" by simp
  then have "48 \<le> hex_digit (n mod 16) \<and> hex_digit (n mod 16) \<le> 57 \<or> 97 \<le> hex_digit (n mod 16) \<and> hex_digit (n mod 16) \<le> 102"
    by (auto simp: hex_digit_def)
  then show "entity (hex_digit (n mod 16)) = None" "len_utf8 (hex_digit (n mod 16)) = 1"
    by (auto simp: entity_def len_utf8_def)
qed

lemma escape_append: "escape (s @ t) = escape s @ escape t"
  by (simp add: escape_def)

lemma escape_hex_range: "escape (hex_range u a n) = hex_range u a n" "str_len (hex_range u a n) = n"
  by (simp_all add: escape_def hex_range_def escape_char_def entity_hex len_hex comp_def str_len_def sum_list_triv)

lemma escape_Cons: "escape (c # s) = escape_char c @ escape s"
  by (simp add: escape_def)

lemma str_len_escape_uuid: "str_len (escape (uuid_hyphenated u)) = 36"
  by (simp add: uuid_hyphenated_def escape_append escape_Cons escape_hex_range escape_char_def entity_def len_utf8_def)

lemma sample_row_cost:
  "entry_tokens Inline 1 \<lparr>chunk_id = 1, generation_id = 1, source_id = 1, source_title = lit ''t'',
     chunk_index = 1, sr_content = lit ''c'', parent_content = None, sr_score = Stuffed,
     sr_metadata = None, collapsed_children = []\<rparr> (lit ''c'') \<le> 200"
proof -
  have e: "escape_into push_str s out = out @ escape s" for s out
    using string_sink.escape_into_eq [of s out] by (simp add: push_str_def)
  have n: "show_nat (Suc 0) = [49]" by (simp add: show_nat.simps)
  have t: "trim [99] = [99]" "escape [99] = [99]" "escape [116] = [116]"
    by (simp_all add: trim_def trim_start_def trim_end_def is_whitespace_def escape_def escape_char_def entity_def)
  show ?thesis
    by (simp add: entry_tokens_inline write_entry_def Let_def e push_str_def n t str_len_escape_uuid provenance_read_def
      default_provenance_def quote_def newline_def lit_def len_utf8_def)
qed
lemma stuffing_applies:
  "\<exists>rs out. retrieve_context stuffing_params None = (Inr (rs, out), None) \<and> po_stuffed out"
proof -
  have row: "List.map_filter (\<lambda>c. from_chunk c StuffingUniform) [sample_row 1 None] =
     [\<lparr>chunk_id = 1, generation_id = 1, source_id = 1, source_title = lit ''t'',
     chunk_index = 1, sr_content = lit ''c'', parent_content = None, sr_score = Stuffed,
     sr_metadata = None, collapsed_children = []\<rparr>]"
    by (simp add: map_filter_simps from_chunk_def sample_row_def score_new_def is_finite_def)
  have over: "region_overhead_tokens Inline \<le> 100" by code_simp
  have "stuffed_cost_over [\<lparr>chunk_id = 1, generation_id = 1, source_id = 1, source_title = lit ''t'',
     chunk_index = 1, sr_content = lit ''c'', parent_content = None, sr_score = Stuffed,
     sr_metadata = None, collapsed_children = []\<rparr>] 1000 = None"
    using over sample_row_cost by (simp add: stuffed_cost_over_def evidence_body_def)
  then obtain pool out0 where t: "stuff_notebook stuffing_params 1 (final_limit_of stuffing_params) default_outcome =
      Inr (Some pool, out0)" "po_stuffed out0"
    using row by (simp add: stuff_notebook_def stuffing_params_def sample_params_def sample_threshold final_limit_of_def)
  obtain rs out where f: "finalize stuffing_params pool 1 (final_limit_of stuffing_params) out0 = (rs, out)" by fastforce
  have "retrieve_context stuffing_params None = (Inr (rs, out), None)"
    using t(1) f by (simp add: retrieve_context_def) (simp add: stuffing_params_def sample_services_def)
  with finalize_stuffed [OF f] t(2) show ?thesis by blast
qed

text \<open>
  C1. The contract of every branch (stuffed, searched, empty, unconfigured), hybrid search
  on or off: at most the requested number of contexts, no two from the same parent passage,
  the reported counts are those of the result, every context carries a score of one scale
  and a scale is reported unless nothing is returned, and a sufficient verdict means
  evidence was found. The reported scale is the contexts' own, with one exception: while
  hybrid search is off, a report of the fused scale stands for the dense similarity.
\<close>

theorem retrieval_contract:
  assumes "retrieve_context P cache = (Inr (rs, out), cache')" "fair_map_order (rp_services P)"
    "honest_reranker (rp_services P)"
  shows "length rs \<le> nat (rp_max_chunks P) \<and> distinct (List.map_filter parent_key rs) \<and>
    sc_selected (po_counts out) = length rs \<and> po_unique_parents out = length rs \<and>
    (case po_score_domain out of
       None \<Rightarrow> rs = []
     | Some d \<Rightarrow> \<forall>r \<in> set rs. domain_of (sr_score r) =
         (if d = RrfRank \<and> \<not> hc_enabled (cf_hybrid (rp_config P)) then DenseSimilarity else d)) \<and>
    (is_sufficient (po_confidence out) \<longrightarrow> rs \<noteq> [])"
  using retrieve_context_contract [OF assms]
  by (simp add: contract_def parents_distinct_def domain_recorded_def one_domain_def scale_meant_def
      final_limit_of_nat split: option.splits)

theorem retrieval_contract_witness:
  "\<exists>rs out cache'. retrieve_context (sample_params\<lparr>rp_config := (rp_config sample_params)
       \<lparr>cf_hybrid := sample_hybrid\<lparr>hc_enabled := False\<rparr>\<rparr>\<rparr>) None = (Inr (rs, out), cache') \<and>
     length rs \<le> 15 \<and> po_unique_parents out = length rs"
proof -
  let ?P = "sample_params\<lparr>rp_config := (rp_config sample_params)\<lparr>cf_hybrid := sample_hybrid\<lparr>hc_enabled := False\<rparr>\<rparr>\<rparr>"
  obtain rs out cache' where r: "retrieve_context ?P None = (Inr (rs, out), cache')"
    using sample_retrieval [of False] by blast
  have "fair_map_order (rp_services ?P)" "honest_reranker (rp_services ?P)" "rp_max_chunks ?P = 15"
    using sample_params_services by (simp_all add: sample_params_def)
  with retrieval_contract [OF r] r show ?thesis by auto
qed

text \<open>
  Which scale the trace names when hybrid search is switched off: the query is
  answered by the dense search, and every result carries a dense similarity, yet a
  retrieval that searched and did not rerank reports the fused scale.
\<close>

theorem disabled_hybrid_mislabels_scores:
  assumes "retrieve_context P cache = (Inr (rs, out), cache')" "fair_map_order (rp_services P)"
    "\<not> hc_enabled (cf_hybrid (rp_config P))" "sv_reranker (rp_services P) = None"
    "\<not> po_stuffed out" "rs \<noteq> []"
  shows "po_score_domain out = Some RrfRank \<and> (\<forall>r \<in> set rs. domain_of (sr_score r) = DenseSimilarity)"
  using assms(1)
proof (cases rule: retrieve_context_cases)
  case (stuffed n pool out0)
  from stuffed(2) have "po_stuffed out0" by (rule stuff_notebook_Some)
  with finalize_stuffed [OF stuffed(3)] assms(5) show ?thesis by simp
next
  case (searched n out0 pool out1)
  from search_notebook_Inr [OF searched(3)] have dom: "po_score_domain out1 = Some RrfRank"
    and ord: "cp_order pool = Ranked"
    and found: "\<exists>found. search (rp_services P) (cf_hybrid (rp_config P)) (rp_embedding_kind P)
        (with_mode Hybrid (with_limit (cf_retrieval_pool_size (rp_config P)) (new_request (rp_query P)))) cache
        = (Inr found, cache') \<and> cp_candidates pool = so_results found" by simp_all
  from found search_one_domain [OF _ assms(2)] assms(3) have "one_domain DenseSimilarity (cp_candidates pool)"
    by fastforce
  then have div: "one_domain DenseSimilarity (collapse_parents (cp_candidates pool))"
    by (rule collapse_domain)
  have rank: "set (fst (rank_pool P Ranked ds n o')) = set ds \<and>
      po_score_domain (snd (rank_pool P Ranked ds n o')) = po_score_domain o'" for ds o'
    using assms(4)
    by (auto simp: rank_pool_def rerank_pool_def rerank_results_def Let_def split: option.splits)
  obtain ranked out2 where r: "rank_pool P Ranked (collapse_parents (cp_candidates pool)) n
      (out1\<lparr>po_counts := (po_counts out1)\<lparr>sc_deduplicated := length (collapse_parents (cp_candidates pool))\<rparr>\<rparr>) =
      (ranked, out2)" by fastforce
  have "set ranked = set (collapse_parents (cp_candidates pool))" "po_score_domain out2 = Some RrfRank"
    using rank [of "collapse_parents (cp_candidates pool)"
        "out1\<lparr>po_counts := (po_counts out1)\<lparr>sc_deduplicated := length (collapse_parents (cp_candidates pool))\<rparr>\<rparr>"] r dom
    by simp_all
  moreover have "set rs \<subseteq> set ranked" "po_score_domain out = po_score_domain out2"
    using searched(4) r ord by (auto simp: finalize_def select_final_def Let_def dest: in_set_takeD split: option.splits)
  ultimately show ?thesis using div by (auto simp: one_domain_def)
qed (use assms(6) in simp_all)

theorem disabled_hybrid_mislabels_scores_witness:
  "\<exists>rs out cache'. retrieve_context (sample_params\<lparr>rp_config := (rp_config sample_params)
       \<lparr>cf_hybrid := sample_hybrid\<lparr>hc_enabled := False\<rparr>\<rparr>\<rparr>) None = (Inr (rs, out), cache') \<and>
     (rs = [] \<or> po_score_domain out = Some RrfRank)"
proof -
  let ?P = "sample_params\<lparr>rp_config := (rp_config sample_params)\<lparr>cf_hybrid := sample_hybrid\<lparr>hc_enabled := False\<rparr>\<rparr>\<rparr>"
  obtain rs out cache' where r: "retrieve_context ?P None = (Inr (rs, out), cache')" "\<not> po_stuffed out"
    using sample_retrieval [of False] by blast
  have "fair_map_order (rp_services ?P)" "\<not> hc_enabled (cf_hybrid (rp_config ?P))"
    "sv_reranker (rp_services ?P) = None"
    using sample_params_services by (simp_all add: sample_params_def sample_services_def)
  with disabled_hybrid_mislabels_scores [OF r(1) _ _ _ r(2)] r(1) show ?thesis by blast
qed

text \<open>
  Stuffing is all or nothing: when a retrieval reports it, the result is the whole
  notebook (every chunk, in the repository's order, children folded into their parents),
  nothing was embedded or cached, and the region of all its chunks, before folding, is
  within the evidence budget.
\<close>

lemma stuffing_is_all_or_nothing:
  assumes "retrieve_context P cache = (Inr (rs, out), cache')" "po_stuffed out"
    and "sv_count_chunks (rp_services P) = Inr n" "sv_all_chunks (rp_services P) = Inr rows"
    and "int (length rows) \<le> n"
  shows "rs = collapse_parents (List.map_filter (\<lambda>c. from_chunk c StuffingUniform) rows) \<and>
    length (List.map_filter (\<lambda>c. from_chunk c StuffingUniform) rows) +
      length (filter (\<lambda>c. \<not> is_finite (row_relevance_score c)) rows) = length rows \<and>
    cache' = cache \<and>
    str_len (format_context_for_llm (List.map_filter (\<lambda>c. from_chunk c StuffingUniform) rows))
      \<le> rp_evidence_token_budget P"
  using assms(1,2)
proof (rule retrieve_context_stuffed)
  let ?cs = "List.map_filter (\<lambda>c. from_chunk c StuffingUniform) rows"
  fix m pool out0
  assume m: "sv_count_chunks (rp_services P) = Inr m"
    and s: "stuff_notebook P m (final_limit_of P) default_outcome = Inr (Some pool, out0)"
    and f: "finalize P pool m (final_limit_of P) out0 = (rs, out)" and c: "cache' = cache"
  from s have pool: "cp_order pool = Uniform" "cp_candidates pool = ?cs"
    "stuffed_cost_over ?cs (rp_evidence_token_budget P) = None" "m \<le> int (final_limit_of P)"
    using assms(4) by (auto elim!: stuff_notebook_Some)
  have cnt: "length ?cs + length (filter (\<lambda>c. \<not> is_finite (row_relevance_score c)) rows) = length rows"
    using length_map_filter [of "\<lambda>c. from_chunk c StuffingUniform" rows] by (simp add: from_chunk_None)
  have "length rows \<le> final_limit_of P" using m pool(4) assms(3,5) by simp
  then have "length (collapse_parents ?cs) \<le> final_limit_of P"
    using cnt length_collapse_parents [of ?cs] by linarith
  then have "rs = collapse_parents ?cs"
    using finalize_uniform [OF f pool(1)] pool(2) by (simp add: select_final_def)
  with cnt c stuffed_region_fits [OF pool(3)] show ?thesis by simp
qed

lemma stuffing_is_all_or_nothing_witness:
  "\<exists>rs out. retrieve_context stuffing_params None = (Inr (rs, out), None) \<and> po_stuffed out \<and>
     rs = collapse_parents (List.map_filter (\<lambda>c. from_chunk c StuffingUniform) [sample_row 1 None])"
proof -
  obtain rs out where r: "retrieve_context stuffing_params None = (Inr (rs, out), None)" "po_stuffed out"
    using stuffing_applies by blast
  have "sv_count_chunks (rp_services stuffing_params) = Inr 1"
    "sv_all_chunks (rp_services stuffing_params) = Inr [sample_row 1 None]"
    by (simp_all add: stuffing_params_def)
  from stuffing_is_all_or_nothing [OF r this] r show ?thesis by auto
qed

text \<open>
  C21. Correction: the pass that is kept is the first retrieval or one second retrieval of
  the reformulated query; a second one runs only when the first was neither stuffed nor
  sufficient and this turn had not reformulated yet; and it replaces the first only when
  it is sufficient or holds strictly more contexts, so an insufficient answer never holds
  fewer contexts than the first retrieval found.
\<close>

theorem correction_never_loses_evidence:
  assumes "corrective_pass C turn cache = (Inr (pass, turn'), cache')"
  shows "\<exists>rs out cache1. retrieve_context (cq_base C) cache = (Inr (rs, out), cache1) \<and>
    (is_sufficient (po_confidence (ps_outcome pass)) \<or>
       po_unique_parents out \<le> po_unique_parents (ps_outcome pass)) \<and>
    (if ps_was_corrected pass then
       \<not> po_stuffed out \<and> \<not> is_sufficient (po_confidence out) \<and> \<not> cq_already_reformulated C \<and>
       (\<exists>llm q rs2 out2. cq_reformulator C = Some llm \<and>
          q = rr_query (reformulate llm (rp_query (cq_base C)) (cq_history C)) \<and>
          retrieve_context (corrected_params C q) cache1 = (Inr (rs2, out2), cache') \<and>
          (ps_query pass, ps_results pass, ps_outcome pass) \<in>
            {(rp_query (cq_base C), rs, out), (q, rs2, out2)})
     else cache' = cache1 \<and>
       (ps_query pass, ps_results pass, ps_outcome pass) = (rp_query (cq_base C), rs, out))"
proof -
  obtain rs out cache1 where r: "retrieve_context (cq_base C) cache = (Inr (rs, out), cache1)"
    using assms by (auto simp: corrective_pass_def Let_def split: prod.splits sum.splits)
  show ?thesis
    using assms r unfolding corrective_pass_def Let_def
    by (auto simp: uncorrected_def corrected_is_better_def
        split: if_splits option.splits sum.splits prod.splits)
qed

theorem correction_never_loses_evidence_witness:
  "\<exists>pass turn' cache'. corrective_pass \<lparr>cq_base = stuffing_params, cq_second_services = sample_services,
       cq_reformulator = None, cq_history = [], cq_already_reformulated = False\<rparr> [] None
     = (Inr (pass, turn'), cache') \<and> \<not> ps_was_corrected pass \<and> cache' = None"
proof -
  obtain rs out where r: "retrieve_context stuffing_params None = (Inr (rs, out), None)" "po_stuffed out"
    using stuffing_applies by blast
  let ?C = "\<lparr>cq_base = stuffing_params, cq_second_services = sample_services,
       cq_reformulator = None, cq_history = [], cq_already_reformulated = False\<rparr>"
  have "corrective_pass ?C [] None = (Inr (uncorrected (rp_query stuffing_params) rs out, []), None)"
    using r by (simp add: corrective_pass_def)
  with correction_never_loses_evidence [OF this] r show ?thesis by (auto simp: uncorrected_def)
qed

end
