(* ===== verification/Circuit_Breaker.thy ===== *)
theory Circuit_Breaker
  imports Rust_Str "HOL-Library.Word"
begin

text \<open>
  \<open>clients/circuit_breaker.rs\<close>: the breaker in front of every external service. An
  \<open>Instant\<close> and a \<open>Duration\<close> are nanoseconds in \<open>nat\<close>, so that \<open>-\<close> is
  \<open>saturating_sub\<close> and \<open>elapsed\<close>; the consecutive counters are 32-bit words and
  the totals 64-bit words that wrap, as the atomics do. An operation takes the time at which it
  reads the clock. Operations are atomic steps; the one place where that hides something, the
  check and the commit of \<open>maybe_transition_to_half_open\<close>, is kept as two definitions and
  the race between them is stated as a lemma. The lemmas are an invariant of every reachable
  state, when the breaker opens, how long it refuses and that it recovers.
\<close>

subsection \<open>State\<close>

datatype circuit_state = Closed | Open | HalfOpen

fun circuit_state_display :: "circuit_state \<Rightarrow> rstr" where
  "circuit_state_display Closed = lit ''closed''"
| "circuit_state_display Open = lit ''open''"
| "circuit_state_display HalfOpen = lit ''half-open''"

record breaker_config =
  failure_threshold :: "32 word"
  success_threshold :: "32 word"
  open_duration :: nat
  failure_window :: nat

definition nanos_per_sec :: nat where "nanos_per_sec = 1000000000"

definition default_breaker_config :: breaker_config where
  "default_breaker_config =
     \<lparr>failure_threshold = 5, success_threshold = 3,
      open_duration = 30 * nanos_per_sec, failure_window = 60 * nanos_per_sec\<rparr>"

definition breaker_config_new :: "32 word \<Rightarrow> breaker_config" where
  "breaker_config_new threshold = default_breaker_config\<lparr>failure_threshold := threshold\<rparr>"

definition with_success_threshold :: "32 word \<Rightarrow> breaker_config \<Rightarrow> breaker_config" where
  "with_success_threshold threshold cfg = cfg\<lparr>success_threshold := threshold\<rparr>"

definition with_open_duration :: "nat \<Rightarrow> breaker_config \<Rightarrow> breaker_config" where
  "with_open_duration d cfg = cfg\<lparr>open_duration := d\<rparr>"

definition with_failure_window :: "nat \<Rightarrow> breaker_config \<Rightarrow> breaker_config" where
  "with_failure_window d cfg = cfg\<lparr>failure_window := d\<rparr>"

record breaker =
  b_config :: breaker_config
  b_service :: rstr
  b_state :: circuit_state
  b_opened_at :: "nat option"
  b_window_start :: "nat option"
  b_failures :: "32 word"
  b_successes :: "32 word"
  b_total_requests :: "64 word"
  b_total_failures :: "64 word"

record circuit_open_error =
  co_service :: rstr
  co_retry_after :: nat

definition circuit_open_message :: "circuit_open_error \<Rightarrow> rstr" where
  "circuit_open_message e =
     lit ''Circuit breaker open for '' @ [39] @ co_service e @ [39] @ lit ''. Retry after '' @
     show_nat (co_retry_after e div nanos_per_sec) @ lit ''s.''"

definition breaker_new :: "rstr \<Rightarrow> breaker_config \<Rightarrow> breaker" where
  "breaker_new service cfg =
     \<lparr>b_config = cfg, b_service = service, b_state = Closed, b_opened_at = None,
      b_window_start = None, b_failures = 0, b_successes = 0,
      b_total_requests = 0, b_total_failures = 0\<rparr>"

subsection \<open>Operations\<close>

definition should_transition :: "nat \<Rightarrow> breaker \<Rightarrow> bool" where
  "should_transition now b \<longleftrightarrow>
     b_state b = Open \<and>
     (case b_opened_at b of None \<Rightarrow> False | Some t \<Rightarrow> open_duration (b_config b) \<le> now - t)"

definition commit_half_open :: "breaker \<Rightarrow> breaker" where
  "commit_half_open b =
     (if b_state b = Open
      then b\<lparr>b_state := HalfOpen, b_successes := 0, b_failures := 0\<rparr>
      else b)"

definition maybe_transition_to_half_open :: "nat \<Rightarrow> breaker \<Rightarrow> breaker" where
  "maybe_transition_to_half_open now b =
     (if should_transition now b then commit_half_open b else b)"

definition observe_state :: "nat \<Rightarrow> breaker \<Rightarrow> circuit_state \<times> breaker" where
  "observe_state now b =
     (let b' = maybe_transition_to_half_open now b in (b_state b', b'))"

definition allow_request :: "nat \<Rightarrow> breaker \<Rightarrow> (circuit_open_error + unit) \<times> breaker" where
  "allow_request now b =
     (let b' = maybe_transition_to_half_open now (b\<lparr>b_total_requests := b_total_requests b + 1\<rparr>)
      in case b_state b' of
           Open \<Rightarrow>
             (Inl \<lparr>co_service = b_service b',
                   co_retry_after =
                     (case b_opened_at b' of
                        Some t \<Rightarrow> open_duration (b_config b') - (now - t)
                      | None \<Rightarrow> open_duration (b_config b'))\<rparr>, b')
         | _ \<Rightarrow> (Inr (), b'))"

definition transition_to_closed :: "breaker \<Rightarrow> breaker" where
  "transition_to_closed b =
     b\<lparr>b_state := Closed, b_opened_at := None, b_window_start := None,
       b_failures := 0, b_successes := 0\<rparr>"

definition transition_to_open :: "nat \<Rightarrow> breaker \<Rightarrow> breaker" where
  "transition_to_open now b =
     b\<lparr>b_state := Open, b_opened_at := Some now, b_successes := 0\<rparr>"

definition record_success :: "breaker \<Rightarrow> breaker" where
  "record_success b =
     (case b_state b of
        HalfOpen \<Rightarrow>
          let count = b_successes b + 1; b' = b\<lparr>b_successes := count\<rparr>
          in if success_threshold (b_config b) \<le> count then transition_to_closed b' else b'
      | Closed \<Rightarrow> b\<lparr>b_failures := 0, b_window_start := None\<rparr>
      | Open \<Rightarrow> b)"

definition window_expired :: "nat \<Rightarrow> breaker \<Rightarrow> bool" where
  "window_expired now b \<longleftrightarrow>
     (case b_window_start b of
        Some start \<Rightarrow> failure_window (b_config b) < now - start
      | None \<Rightarrow> True)"

definition handle_closed_failure :: "nat \<Rightarrow> breaker \<Rightarrow> breaker" where
  "handle_closed_failure now b =
     (let b1 = (if window_expired now b
                then b\<lparr>b_failures := 0, b_window_start := Some now\<rparr> else b);
          count = b_failures b1 + 1;
          b2 = b1\<lparr>b_failures := count\<rparr>
      in if failure_threshold (b_config b) \<le> count
         then b2\<lparr>b_state := Open, b_opened_at := Some now\<rparr>
         else b2)"

definition record_failure :: "nat \<Rightarrow> breaker \<Rightarrow> breaker" where
  "record_failure now b =
     (let b' = b\<lparr>b_total_failures := b_total_failures b + 1\<rparr>
      in case b_state b' of
           Closed \<Rightarrow> handle_closed_failure now b'
         | HalfOpen \<Rightarrow> transition_to_open now b'
         | Open \<Rightarrow> b')"

lemmas breaker_defs =
  should_transition_def commit_half_open_def maybe_transition_to_half_open_def observe_state_def
  allow_request_def transition_to_closed_def transition_to_open_def record_success_def
  window_expired_def handle_closed_failure_def record_failure_def

lemma breaker_config_kept [simp]:
  "b_config (maybe_transition_to_half_open now b) = b_config b"
  "b_config (snd (allow_request now b)) = b_config b"
  "b_config (record_success b) = b_config b"
  "b_config (record_failure now b) = b_config b"
  by (auto simp: breaker_defs Let_def split: circuit_state.splits)

subsection \<open>Runs of the breaker\<close>

text \<open>
  A run applies the operations in the order they take the lock. The clock of a run never goes
  back: \<open>Instant\<close> is monotonic.
\<close>

inductive breaker_step :: "nat \<times> breaker \<Rightarrow> nat \<times> breaker \<Rightarrow> bool" where
  observe: "t \<le> now \<Longrightarrow> breaker_step (t, b) (now, snd (observe_state now b))"
| allow: "t \<le> now \<Longrightarrow> breaker_step (t, b) (now, snd (allow_request now b))"
| success: "t \<le> now \<Longrightarrow> breaker_step (t, b) (now, record_success b)"
| failure: "t \<le> now \<Longrightarrow> breaker_step (t, b) (now, record_failure now b)"

inductive_cases breaker_stepE: "breaker_step s s'"

inductive breaker_reachable :: "breaker_config \<Rightarrow> nat \<times> breaker \<Rightarrow> bool" for cfg where
  start: "breaker_reachable cfg (t, breaker_new service cfg)"
| step: "breaker_reachable cfg s \<Longrightarrow> breaker_step s s' \<Longrightarrow> breaker_reachable cfg s'"

text \<open>
  The invariant: the counters belong to the state they are counted in and stay below their
  threshold, so that \<open>+ 1\<close> on the 32-bit words cannot wrap; an open circuit knows when it
  opened; no instant lies in the future.
\<close>

definition breaker_inv :: "nat \<times> breaker \<Rightarrow> bool" where
  "breaker_inv s =
     (case s of (t, b) \<Rightarrow>
       (b_failures b = 0 \<or> b_state b = Open \<or> b_failures b < failure_threshold (b_config b)) \<and>
       (b_successes b = 0 \<or> b_state b = HalfOpen \<and> b_successes b < success_threshold (b_config b)) \<and>
       (b_state b = HalfOpen \<longrightarrow> b_failures b = 0) \<and>
       (b_state b = Closed \<longrightarrow> (b_window_start b = None \<longrightarrow> b_failures b = 0)) \<and>
       (b_opened_at b = None \<longleftrightarrow> b_state b = Closed) \<and>
       (\<forall>x. b_opened_at b = Some x \<longrightarrow> x \<le> t) \<and>
       (\<forall>x. b_window_start b = Some x \<longrightarrow> x \<le> t))"

lemma breaker_inv_new [simp]: "breaker_inv (t, breaker_new service cfg)"
  by (simp add: breaker_inv_def breaker_new_def)

lemma breaker_inv_later: "breaker_inv (t, b) \<Longrightarrow> t \<le> t' \<Longrightarrow> breaker_inv (t', b)"
  by (fastforce simp: breaker_inv_def)

lemma breaker_inv_maybe: "breaker_inv (t, b) \<Longrightarrow> breaker_inv (t, maybe_transition_to_half_open now b)"
  by (auto simp: breaker_inv_def breaker_defs)

lemma breaker_inv_total [simp]:
  "breaker_inv (t, b\<lparr>b_total_requests := n\<rparr>) = breaker_inv (t, b)"
  "breaker_inv (t, b\<lparr>b_total_failures := n\<rparr>) = breaker_inv (t, b)"
  by (simp_all add: breaker_inv_def)

lemma snd_allow_request:
  "snd (allow_request now b) =
     maybe_transition_to_half_open now (b\<lparr>b_total_requests := b_total_requests b + 1\<rparr>)"
  by (simp add: allow_request_def Let_def split: circuit_state.splits)

lemma breaker_inv_success: "breaker_inv (t, b) \<Longrightarrow> breaker_inv (t, record_success b)"
  by (auto simp: breaker_inv_def breaker_defs Let_def split: circuit_state.splits)

lemma breaker_inv_closed_failure:
  assumes "breaker_inv (t, b)" "t \<le> now" "b_state b = Closed"
  shows "breaker_inv (now, handle_closed_failure now b)"
  using assms by (auto simp: breaker_inv_def breaker_defs Let_def not_le split: option.splits)

lemma breaker_inv_failure:
  assumes "breaker_inv (t, b)" "t \<le> now"
  shows "breaker_inv (now, record_failure now b)"
  using breaker_inv_closed_failure [of t "b\<lparr>b_total_failures := b_total_failures b + 1\<rparr>" now] assms
    breaker_inv_later [OF assms]
  by (auto simp: record_failure_def Let_def transition_to_open_def breaker_inv_def
      split: circuit_state.splits)

lemma breaker_inv_step: "breaker_step s s' \<Longrightarrow> breaker_inv s \<Longrightarrow> breaker_inv s'"
proof (induction rule: breaker_step.induct)
  case (observe t now b)
  then show ?case
    by (simp add: observe_state_def Let_def breaker_inv_maybe breaker_inv_later)
next
  case (allow t now b)
  then show ?case
    by (simp add: snd_allow_request breaker_inv_maybe breaker_inv_later)
next
  case (success t now b)
  then show ?case
    by (simp add: breaker_inv_success breaker_inv_later)
next
  case (failure t now b)
  then show ?case
    by (simp add: breaker_inv_failure)
qed

lemma breaker_step_config: "breaker_step s s' \<Longrightarrow> b_config (snd s') = b_config (snd s)"
  by (induction rule: breaker_step.induct) (simp_all add: observe_state_def Let_def)

lemma breaker_reachable_inv: "breaker_reachable cfg s \<Longrightarrow> breaker_inv s"
proof (induction rule: breaker_reachable.induct)
  case (start t service)
  show ?case by simp
next
  case (step s s')
  show ?case by (rule breaker_inv_step [OF step.hyps(2) step.IH])
qed

lemma breaker_reachable_config: "breaker_reachable cfg s \<Longrightarrow> b_config (snd s) = cfg"
proof (induction rule: breaker_reachable.induct)
  case (start t service)
  show ?case by (simp add: breaker_new_def)
next
  case (step s s')
  then show ?case by (simp add: breaker_step_config)
qed

subsection \<open>Opening\<close>

lemma record_failure_closed:
  assumes "b_state b = Closed"
  shows "b_state (record_failure now b) =
    (if failure_threshold (b_config b) \<le> (if window_expired now b then 0 else b_failures b) + 1
     then Open else Closed)"
  using assms
  by (cases "b_window_start b")
    (simp_all add: record_failure_def handle_closed_failure_def window_expired_def Let_def)

lemma record_failure_open [simp]: "b_state b = Open \<Longrightarrow> b_state (record_failure now b) = Open"
  by (simp add: record_failure_def)

lemma fold_failure_open: "b_state b = Open \<Longrightarrow> b_state (fold record_failure ts b) = Open"
  by (induction ts arbitrary: b) auto

lemma word_succ_below:
  fixes a b :: "'a::len word"
  assumes "a < b"
  shows "unat (a + 1) = unat a + 1"
proof -
  have "unat b < 2 ^ LENGTH('a)"
    by (rule unsigned_less)
  then have "unat a + 1 < 2 ^ LENGTH('a)"
    using assms unfolding word_less_nat_alt by linarith
  then show ?thesis
    by (simp add: unat_word_ariths)
qed

text \<open>Within a window the counter is the number of failures seen so far.\<close>

lemma failures_within_window:
  assumes "b_state b = Closed" "b_window_start b = Some w"
    and "\<forall>x \<in> set ts. x - w \<le> failure_window (b_config b)"
    and "b_failures b < failure_threshold (b_config b)"
  shows "b_state (fold record_failure ts b) = Open \<longleftrightarrow>
    unat (failure_threshold (b_config b)) \<le> unat (b_failures b) + length ts"
  using assms
proof (induction ts arbitrary: b)
  case Nil
  then show ?case by (simp add: word_less_nat_alt)
next
  case (Cons x ts)
  have ne: "\<not> window_expired x b"
    using Cons.prems by (simp add: window_expired_def)
  have nowrap: "unat (b_failures b + 1) = unat (b_failures b) + 1"
    using Cons.prems(4) by (rule word_succ_below)
  show ?case
  proof (cases "failure_threshold (b_config b) \<le> b_failures b + 1")
    case True
    then have "b_state (record_failure x b) = Open"
      using Cons.prems(1) ne by (simp add: record_failure_closed)
    moreover have "unat (failure_threshold (b_config b)) \<le> unat (b_failures b) + 1"
      using True nowrap by (simp add: word_le_nat_alt)
    ultimately show ?thesis
      by (simp add: fold_failure_open)
  next
    case False
    let ?b = "record_failure x b"
    have "b_state ?b = Closed" "b_window_start ?b = Some w" "b_failures ?b = b_failures b + 1"
      using False Cons.prems(1,2) ne
      by (simp_all add: record_failure_def handle_closed_failure_def window_expired_def Let_def)
    then show ?thesis
      using Cons.IH [of ?b] Cons.prems False nowrap by (simp add: not_le)
  qed
qed


lemma fold_failure_closed_first:
  assumes "b_state b = Closed" "window_expired x b" "0 < failure_threshold (b_config b)"
    and "\<forall>y \<in> set ts. y - x \<le> failure_window (b_config b)"
  shows "b_state (fold record_failure (x # ts) b) = Open \<longleftrightarrow>
    unat (failure_threshold (b_config b)) \<le> Suc (length ts)"
proof (cases "failure_threshold (b_config b) \<le> 1")
  case True
  then have "b_state (record_failure x b) = Open"
    using assms(1,2) by (simp add: record_failure_closed)
  then show ?thesis
    using True by (simp add: fold_failure_open word_le_nat_alt)
next
  case False
  let ?b = "record_failure x b"
  have "b_state ?b = Closed" "b_window_start ?b = Some x" "b_failures ?b = 1"
    using False assms(1,2) by (simp_all add: record_failure_def handle_closed_failure_def
      window_expired_def Let_def split: option.splits)
  then show ?thesis
    using failures_within_window [of ?b x ts] assms(4) False by (simp add: not_le)
qed

subsection \<open>Refusing\<close>

lemma should_transition_total [simp]:
  "should_transition now (b\<lparr>b_total_requests := n\<rparr>) = should_transition now b"
  by (cases "b_opened_at b") (simp_all add: should_transition_def)

lemma allow_request_result:
  "fst (allow_request now b) = Inr () \<longleftrightarrow> b_state b \<noteq> Open \<or> should_transition now b"
proof -
  have "should_transition now b \<Longrightarrow> b_state b = Open"
    by (simp add: should_transition_def)
  then show ?thesis
    by (auto simp: allow_request_def maybe_transition_to_half_open_def commit_half_open_def
        Let_def split: circuit_state.splits)
qed

text \<open>
  Open and not yet due: every operation leaves the circuit open with the instant at which
  it opened.
\<close>

definition refusing_since :: "nat \<Rightarrow> breaker \<Rightarrow> bool" where
  "refusing_since opened b \<longleftrightarrow> b_state b = Open \<and> b_opened_at b = Some opened"

lemma refusing_step:
  assumes "breaker_step s s'" "refusing_since opened (snd s)"
    and "fst s' - opened < open_duration (b_config (snd s))"
  shows "refusing_since opened (snd s')"
  using assms
proof (induction rule: breaker_step.induct)
  case (allow t now b)
  then show ?case
    by (simp add: snd_allow_request refusing_since_def breaker_defs)
qed (auto simp: refusing_since_def breaker_defs Let_def)

lemma refusing_rejects:
  assumes "refusing_since opened b" "now - opened < open_duration (b_config b)"
  shows "fst (allow_request now b) =
    Inl \<lparr>co_service = b_service b, co_retry_after = open_duration (b_config b) - (now - opened)\<rparr>"
  using assms by (simp add: refusing_since_def breaker_defs Let_def)

lemma refusing_run:
  assumes "breaker_step\<^sup>*\<^sup>* s s'" "refusing_since opened (snd s)"
    and "fst s' - opened < open_duration (b_config (snd s))"
  shows "refusing_since opened (snd s') \<and> b_config (snd s') = b_config (snd s)"
  using assms
proof (induction rule: rtranclp_induct)
  case (step s1 s2)
  have "fst s1 \<le> fst s2"
    using step.hyps(2) by (induction rule: breaker_step.induct) simp_all
  then have "fst s1 - opened < open_duration (b_config (snd s))"
    using step.prems(2) by linarith
  then show ?case
    using step refusing_step [OF step.hyps(2)] breaker_step_config [OF step.hyps(2)] by simp
qed simp

subsection \<open>Recovering\<close>

lemma fold_success_closed:
  "b_state b = Closed \<Longrightarrow> b_state ((record_success ^^ n) b) = Closed"
  by (induction n) (auto simp: record_success_def)

lemma successes_close:
  assumes "b_state b = HalfOpen" "b_successes b < success_threshold (b_config b)"
  shows "b_state ((record_success ^^ n) b) =
    (if unat (success_threshold (b_config b)) \<le> unat (b_successes b) + n then Closed else HalfOpen)"
  using assms
proof (induction n arbitrary: b)
  case 0
  then show ?case by (simp add: word_less_nat_alt)
next
  case (Suc n)
  have nowrap: "unat (b_successes b + 1) = unat (b_successes b) + 1"
    by (rule word_succ_below [OF Suc.prems(2)])
  show ?case
  proof (cases "success_threshold (b_config b) \<le> b_successes b + 1")
    case True
    then have "b_state (record_success b) = Closed"
      using Suc.prems by (simp add: record_success_def transition_to_closed_def Let_def)
    moreover have "unat (success_threshold (b_config b)) \<le> unat (b_successes b) + 1"
      using True nowrap by (simp add: word_le_nat_alt)
    ultimately show ?thesis
      by (simp add: funpow_swap1 fold_success_closed)
  next
    case False
    let ?b = "record_success b"
    have "b_state ?b = HalfOpen" "b_successes ?b = b_successes b + 1"
      using False Suc.prems(1) by (simp_all add: record_success_def Let_def)
    then show ?thesis
      using Suc.IH [of ?b] Suc.prems False nowrap
      by (simp add: funpow_Suc_right not_le del: funpow.simps)
  qed
qed


lemma half_open_recovers:
  assumes "breaker_inv (t, b)" "b_state b \<noteq> Open"
    and "0 < n" "unat (success_threshold (b_config b)) \<le> n"
  shows "b_state ((record_success ^^ n) b) = Closed"
proof (cases "b_state b")
  case HalfOpen
  show ?thesis
  proof (cases "b_successes b < success_threshold (b_config b)")
    case True
    then show ?thesis using successes_close [OF HalfOpen True] assms(4) by simp
  next
    case False
    then have "b_state (record_success b) = Closed"
      using assms(1) HalfOpen
      by (auto simp: breaker_inv_def record_success_def transition_to_closed_def Let_def not_less)
    moreover obtain m where "n = Suc m" using assms(3) gr0_conv_Suc by blast
    ultimately show ?thesis by (simp add: funpow_swap1 fold_success_closed)
  qed
qed (use assms fold_success_closed in auto)

subsection \<open>Properties\<close>

text \<open>
  In every state a breaker can reach, the consecutive counters stay below their
  thresholds (so the 32-bit increments never wrap), successes are only counted half open and
  failures never half open, the circuit remembers an opening instant exactly when it is not
  closed, and no remembered instant lies in the future.
\<close>

lemma breaker_counters_bounded:
  assumes "breaker_reachable cfg (t, b)"
  shows "b_config b = cfg \<and>
    (b_state b = Closed \<longrightarrow> b_failures b = 0 \<or> b_failures b < failure_threshold cfg) \<and>
    (b_state b = HalfOpen \<longrightarrow> b_failures b = 0 \<and>
      (b_successes b = 0 \<or> b_successes b < success_threshold cfg)) \<and>
    (b_state b \<noteq> HalfOpen \<longrightarrow> b_successes b = 0) \<and>
    (b_opened_at b = None \<longleftrightarrow> b_state b = Closed) \<and>
    (\<forall>x. b_opened_at b = Some x \<or> b_window_start b = Some x \<longrightarrow> x \<le> t)"
  using breaker_reachable_inv [OF assms] breaker_reachable_config [OF assms]
  by (auto simp: breaker_inv_def)

lemma breaker_counters_bounded_witness:
  "b_opened_at (record_failure 7 (breaker_new [] (breaker_config_new 1))) = Some 7 \<and>
   (b_opened_at (record_failure 7 (breaker_new [] (breaker_config_new 1))) = None \<longleftrightarrow>
    b_state (record_failure 7 (breaker_new [] (breaker_config_new 1))) = Closed)"
proof -
  have "breaker_reachable (breaker_config_new 1)
      (7, record_failure 7 (breaker_new [] (breaker_config_new 1)))"
    by (rule breaker_reachable.step [OF breaker_reachable.start [where t = 3 and service = "[]"]])
      (simp add: breaker_step.failure)
  from breaker_counters_bounded [OF this] show ?thesis
    by (simp add: breaker_defs breaker_new_def breaker_config_new_def Let_def)
qed

text \<open>
  A closed circuit whose window has expired opens with the failure that reaches the
  threshold inside one window, and not before. Once open it stays open, whatever is recorded,
  until the open duration has passed: every request of that time is refused with the time that
  is left, and a request made when that time has passed is admitted.
\<close>

lemma breaker_opens_and_refuses:
  assumes "b_state b = Closed" "window_expired x b" "0 < failure_threshold (b_config b)"
    and "\<forall>y \<in> set ts. y - x \<le> failure_window (b_config b)"
    and "refusing_since opened a" "breaker_step\<^sup>*\<^sup>* (t, a) (now, a')"
    and "opened \<le> now" "now < opened + open_duration (b_config a)"
  shows "(b_state (fold record_failure (x # ts) b) = Open \<longleftrightarrow>
      unat (failure_threshold (b_config b)) \<le> Suc (length ts)) \<and>
    fst (allow_request now a') =
      Inl \<lparr>co_service = b_service a', co_retry_after = opened + open_duration (b_config a) - now\<rparr> \<and>
    fst (allow_request (opened + open_duration (b_config a)) a') = Inr ()"
proof -
  have "refusing_since opened a'" "b_config a' = b_config a"
    using refusing_run [of "(t, a)" "(now, a')" opened] assms(5-8) by simp_all
  then show ?thesis
    using fold_failure_closed_first [OF assms(1-4)] refusing_rejects [of opened a' now] assms(7,8)
    by (auto simp: allow_request_result should_transition_def refusing_since_def)
qed

text \<open>The default breaker opens at the fifth failure of a minute.\<close>

lemma breaker_opens_and_refuses_witness:
  "b_state (fold record_failure [10, 11, 12, 13] (breaker_new [] default_breaker_config)) \<noteq> Open \<and>
   b_state (fold record_failure [10, 11, 12, 13, 14] (breaker_new [] default_breaker_config)) = Open \<and>
   (let a = record_failure 7 (breaker_new [] (breaker_config_new 1)) in
    fst (allow_request 8 a) =
      Inl \<lparr>co_service = [], co_retry_after = 30 * nanos_per_sec - 1\<rparr>)"
proof -
  let ?b = "breaker_new [] default_breaker_config"
  let ?a = "record_failure 7 (breaker_new [] (breaker_config_new 1))"
  have b: "b_state ?b = Closed" "window_expired 10 ?b" "0 < failure_threshold (b_config ?b)"
    "\<forall>y \<in> set [11, 12, 13]. y - 10 \<le> failure_window (b_config ?b)"
    "\<forall>y \<in> set [11, 12, 13, 14]. y - 10 \<le> failure_window (b_config ?b)"
    by (simp_all add: breaker_new_def window_expired_def default_breaker_config_def
        nanos_per_sec_def)
  have a: "refusing_since 7 ?a" "open_duration (b_config ?a) = 30 * nanos_per_sec"
    "b_service ?a = []"
    by (simp_all add: refusing_since_def breaker_defs breaker_new_def breaker_config_new_def
        default_breaker_config_def Let_def)
  have run: "breaker_step\<^sup>*\<^sup>* (8, ?a) (8, ?a)" "7 \<le> (8::nat)"
    "8 < 7 + open_duration (b_config ?a)"
    using a(2) by (simp_all add: nanos_per_sec_def del: breaker_config_kept)
  show ?thesis
    using breaker_opens_and_refuses [OF b(1-4) a(1) run]
      breaker_opens_and_refuses [OF b(1-3,5) a(1) run] a(2,3)
    by (simp add: Let_def) (simp add: default_breaker_config_def breaker_new_def)
qed

text \<open>
  No breaker stays open for ever: from any state it can reach, a request made after the
  open duration is admitted, and then as many successes as the configuration asks for (one at
  least) close the circuit.
\<close>

lemma breaker_recovers:
  assumes "breaker_reachable cfg (t, b)" "t + open_duration cfg \<le> now"
    and "0 < n" "unat (success_threshold cfg) \<le> n"
  shows "fst (allow_request now b) = Inr () \<and>
    b_state ((record_success ^^ n) (snd (allow_request now b))) = Closed"
proof -
  note inv = breaker_reachable_inv [OF assms(1)]
  have cfg: "b_config b = cfg"
    using breaker_reachable_config [OF assms(1)] by simp
  have ok: "fst (allow_request now b) = Inr ()"
    using inv assms(2) by (auto simp: allow_request_result should_transition_def breaker_inv_def cfg)
  then have "b_state (snd (allow_request now b)) \<noteq> Open"
    by (auto simp: allow_request_def Let_def split: circuit_state.splits)
  moreover have "breaker_inv (t, snd (allow_request now b))"
    using inv by (simp add: snd_allow_request breaker_inv_maybe)
  ultimately show ?thesis
    using ok half_open_recovers assms(3,4) cfg by simp
qed

lemma breaker_recovers_witness:
  "fst (allow_request (40 * nanos_per_sec) (record_failure 7 (breaker_new [] (breaker_config_new 1)))) =
     Inr ()"
proof -
  have "breaker_reachable (breaker_config_new 1)
      (7, record_failure 7 (breaker_new [] (breaker_config_new 1)))"
    by (rule breaker_reachable.step [OF breaker_reachable.start [where t = 3 and service = "[]"]])
      (simp add: breaker_step.failure)
  from breaker_recovers [OF this, where now = "40 * nanos_per_sec" and n = 3]
  show ?thesis
    by (simp add: breaker_config_new_def default_breaker_config_def nanos_per_sec_def)
qed

subsection \<open>The race of the two-step transition\<close>

text \<open>
  The check of \<open>maybe_transition_to_half_open\<close> runs under the read lock and the commit under
  the write lock; the commit looks at the state again but not at the instant. When between the
  two another caller has moved the circuit to half open and failed, the commit reopens the door
  although the new open period has just begun.
\<close>

lemma stale_commit_cuts_open_period:
  assumes "should_transition now b" "0 < open_duration (b_config b)"
  shows "\<exists>b'. breaker_step\<^sup>*\<^sup>* (now, b) (now, b') \<and> refusing_since now b' \<and>
    \<not> should_transition now b' \<and> b_state (commit_half_open b') = HalfOpen"
proof -
  let ?b1 = "snd (allow_request now b)"
  let ?b2 = "record_failure now ?b1"
  have "breaker_step (now, b) (now, ?b1)" "breaker_step (now, ?b1) (now, ?b2)"
    by (simp_all add: breaker_step.allow breaker_step.failure)
  then have "breaker_step\<^sup>*\<^sup>* (now, b) (now, ?b2)"
    by simp
  moreover have "b_state ?b1 = HalfOpen"
    using assms(1) by (simp add: snd_allow_request maybe_transition_to_half_open_def
        commit_half_open_def) (simp add: should_transition_def)
  then have "refusing_since now ?b2"
    by (simp add: refusing_since_def record_failure_def transition_to_open_def)
  moreover from this have "\<not> should_transition now ?b2" "b_state (commit_half_open ?b2) = HalfOpen"
    using assms(2) by (simp_all add: refusing_since_def should_transition_def commit_half_open_def)
  ultimately show ?thesis by blast
qed

end
