(* ===== verification/Resilience.thy ===== *)
theory Resilience
  imports Circuit_Breaker Errors Rust_Float
begin

text \<open>
  \<open>clients/retry.rs\<close>, \<open>clients/metrics.rs\<close> and \<open>clients/resilience.rs\<close>: the retry
  configuration and its backoff, the counters of a provider, and the executor that puts the
  circuit breaker, the retry loop and the counters around an operation. The HTTP operation is
  a parameter: what its call number \<open>n\<close> returns and the instant at which it does. Jitter and
  \<open>f64::powi\<close> (whose precision the standard library leaves open) are parameters too. The loop
  is a \<open>partial_function\<close>, so that not returning is None, and the lemmas show that it returns
  what the first decisive call returned, within the configured number of calls.
\<close>

subsection \<open>Retry configuration\<close>

record retry_config =
  rc_max_retries :: "32 word"
  rc_initial_delay :: nat
  rc_max_delay :: nat
  rc_multiplier :: rfloat
  rc_jitter :: bool

definition nanos_per_milli :: nat where "nanos_per_milli = 1000000"

definition jitter_max_factor :: rfloat where "jitter_max_factor = Fin (1 / 4)"
definition default_rate_limit_delay_secs :: nat where "default_rate_limit_delay_secs = 30"

definition default_retry_config :: retry_config where
  "default_retry_config =
     \<lparr>rc_max_retries = 3, rc_initial_delay = 500 * nanos_per_milli,
      rc_max_delay = 30 * nanos_per_sec, rc_multiplier = Fin 2, rc_jitter = True\<rparr>"

definition retry_config_new :: "32 word \<Rightarrow> retry_config" where
  "retry_config_new n = default_retry_config\<lparr>rc_max_retries := n\<rparr>"

definition with_initial_delay :: "nat \<Rightarrow> retry_config \<Rightarrow> retry_config" where
  "with_initial_delay d c = c\<lparr>rc_initial_delay := d\<rparr>"

definition with_max_delay :: "nat \<Rightarrow> retry_config \<Rightarrow> retry_config" where
  "with_max_delay d c = c\<lparr>rc_max_delay := d\<rparr>"

definition with_multiplier :: "rfloat \<Rightarrow> retry_config \<Rightarrow> retry_config" where
  "with_multiplier m c = c\<lparr>rc_multiplier := m\<rparr>"

definition without_jitter :: "retry_config \<Rightarrow> retry_config" where
  "without_jitter c = c\<lparr>rc_jitter := False\<rparr>"

text \<open>
  What the standard library and the random generator answer: \<open>powi\<close>, and the sample of
  \<open>gen_range(0.0..JITTER_MAX_FACTOR)\<close> drawn for an attempt.
\<close>

record retry_env =
  re_powi :: "rfloat \<Rightarrow> int \<Rightarrow> rfloat"
  re_sample :: "32 word \<Rightarrow> rfloat"

definition delay_for_attempt :: "retry_env \<Rightarrow> retry_config \<Rightarrow> 32 word \<Rightarrow> nat" where
  "delay_for_attempt en c attempt =
     (let base_ms = f_of_nat rnd64 (rc_initial_delay c div nanos_per_milli);
          max_ms = f_of_nat rnd64 (rc_max_delay c div nanos_per_milli);
          delay_ms = f_min (f_mul rnd64 base_ms (re_powi en (rc_multiplier c) (sint attempt))) max_ms;
          final_ms = (if rc_jitter c
                      then f_mul rnd64 delay_ms (f_add rnd64 (Fin 1) (re_sample en attempt))
                      else delay_ms)
      in f_to_uint u64_max final_ms * nanos_per_milli)"

definition get_retry_delay :: "nat option \<Rightarrow> rstr option \<Rightarrow> nat option" where
  "get_retry_delay status headers =
     (if status \<noteq> Some 429 then None
      else Some ((case Option.bind headers (parse_uint u64_max) of
                    Some secs \<Rightarrow> secs
                  | None \<Rightarrow> default_rate_limit_delay_secs) * nanos_per_sec))"

subsection \<open>Metrics\<close>

record provider_metrics =
  pm_name :: rstr
  pm_total :: "64 word"
  pm_successful :: "64 word"
  pm_failed :: "64 word"
  pm_rate_limit_hits :: "64 word"
  pm_timeout_errors :: "64 word"
  pm_total_duration_ms :: "64 word"
  pm_duration_count :: "64 word"
  pm_min_latency_ms :: "64 word"
  pm_max_latency_ms :: "64 word"
  pm_last_error :: "rstr option"

definition min_latency_unset :: "64 word" where "min_latency_unset = - 1"

definition metrics_new :: "rstr \<Rightarrow> provider_metrics" where
  "metrics_new name =
     \<lparr>pm_name = name, pm_total = 0, pm_successful = 0, pm_failed = 0, pm_rate_limit_hits = 0,
      pm_timeout_errors = 0, pm_total_duration_ms = 0, pm_duration_count = 0,
      pm_min_latency_ms = min_latency_unset, pm_max_latency_ms = 0, pm_last_error = None\<rparr>"

definition m_record_request :: "provider_metrics \<Rightarrow> provider_metrics" where
  "m_record_request m = m\<lparr>pm_total := pm_total m + 1\<rparr>"

definition m_record_duration :: "nat \<Rightarrow> provider_metrics \<Rightarrow> provider_metrics" where
  "m_record_duration d m =
     (let ms = of_nat (min u64_max (d div nanos_per_milli)) in
      m\<lparr>pm_total_duration_ms := pm_total_duration_ms m + ms,
        pm_duration_count := pm_duration_count m + 1,
        pm_min_latency_ms := min (pm_min_latency_ms m) ms,
        pm_max_latency_ms := max (pm_max_latency_ms m) ms\<rparr>)"

definition m_record_success :: "nat \<Rightarrow> provider_metrics \<Rightarrow> provider_metrics" where
  "m_record_success d m = m_record_duration d (m\<lparr>pm_successful := pm_successful m + 1\<rparr>)"

definition m_record_failure :: "rstr \<Rightarrow> nat \<Rightarrow> provider_metrics \<Rightarrow> provider_metrics" where
  "m_record_failure err d m =
     (m_record_duration d (m\<lparr>pm_failed := pm_failed m + 1\<rparr>))\<lparr>pm_last_error := Some err\<rparr>"

definition m_record_rate_limit :: "provider_metrics \<Rightarrow> provider_metrics" where
  "m_record_rate_limit m =
     m\<lparr>pm_rate_limit_hits := pm_rate_limit_hits m + 1, pm_failed := pm_failed m + 1\<rparr>"

definition m_record_timeout :: "provider_metrics \<Rightarrow> provider_metrics" where
  "m_record_timeout m =
     m\<lparr>pm_timeout_errors := pm_timeout_errors m + 1, pm_failed := pm_failed m + 1\<rparr>"

definition avg_latency_ms :: "provider_metrics \<Rightarrow> 64 word option" where
  "avg_latency_ms m =
     (if 0 < pm_duration_count m then Some (pm_total_duration_ms m div pm_duration_count m) else None)"

definition min_latency_ms :: "provider_metrics \<Rightarrow> 64 word option" where
  "min_latency_ms m =
     (if pm_min_latency_ms m \<noteq> min_latency_unset then Some (pm_min_latency_ms m) else None)"

definition max_latency_ms :: "provider_metrics \<Rightarrow> 64 word option" where
  "max_latency_ms m =
     (if 0 < pm_max_latency_ms m \<or> 0 < pm_duration_count m then Some (pm_max_latency_ms m) else None)"

definition error_rate :: "provider_metrics \<Rightarrow> rfloat" where
  "error_rate m =
     (if pm_total m = 0 then Fin 0
      else f_div rnd64 (f_of_nat rnd64 (unat (pm_failed m))) (f_of_nat rnd64 (unat (pm_total m))))"

record metrics_snapshot =
  ms_provider :: rstr
  ms_total :: "64 word"
  ms_successful :: "64 word"
  ms_failed :: "64 word"
  ms_rate_limit_hits :: "64 word"
  ms_timeout_errors :: "64 word"
  ms_avg :: "64 word option"
  ms_min :: "64 word option"
  ms_max :: "64 word option"
  ms_error_rate :: rfloat

definition snapshot :: "provider_metrics \<Rightarrow> metrics_snapshot" where
  "snapshot m =
     \<lparr>ms_provider = pm_name m, ms_total = pm_total m, ms_successful = pm_successful m,
      ms_failed = pm_failed m, ms_rate_limit_hits = pm_rate_limit_hits m,
      ms_timeout_errors = pm_timeout_errors m, ms_avg = avg_latency_ms m, ms_min = min_latency_ms m,
      ms_max = max_latency_ms m, ms_error_rate = error_rate m\<rparr>"

definition metrics_reset :: "provider_metrics \<Rightarrow> provider_metrics" where
  "metrics_reset m =
     m\<lparr>pm_total := 0, pm_successful := 0, pm_failed := 0, pm_rate_limit_hits := 0,
       pm_timeout_errors := 0, pm_total_duration_ms := 0, pm_duration_count := 0,
       pm_min_latency_ms := min_latency_unset, pm_max_latency_ms := 0, pm_last_error := None\<rparr>"

text \<open>The collector: one entry per provider name, created on first use.\<close>

type_synonym client_metrics = "rstr \<Rightarrow> provider_metrics option"

definition metrics_provider :: "rstr \<Rightarrow> client_metrics \<Rightarrow> provider_metrics \<times> client_metrics" where
  "metrics_provider name ps =
     (case ps name of
        Some m \<Rightarrow> (m, ps)
      | None \<Rightarrow> (metrics_new name, ps(name \<mapsto> metrics_new name)))"

definition metrics_reset_all :: "client_metrics \<Rightarrow> client_metrics" where
  "metrics_reset_all ps = (\<lambda>name. map_option metrics_reset (ps name))"

text \<open>The request timer, whose drop counts a failure unless the outcome was recorded.\<close>

definition timer_start :: "provider_metrics \<Rightarrow> provider_metrics" where
  "timer_start m = m_record_request m"

definition timer_success :: "nat \<Rightarrow> nat \<Rightarrow> provider_metrics \<Rightarrow> provider_metrics" where
  "timer_success start now m = m_record_success (now - start) m"

definition timer_failure :: "rstr \<Rightarrow> nat \<Rightarrow> nat \<Rightarrow> provider_metrics \<Rightarrow> provider_metrics" where
  "timer_failure err start now m = m_record_failure err (now - start) m"

definition timer_drop :: "nat \<Rightarrow> nat \<Rightarrow> provider_metrics \<Rightarrow> provider_metrics" where
  "timer_drop start now m =
     m_record_failure (lit ''Request dropped without recording'') (now - start) m"

subsection \<open>Outcomes of an HTTP call\<close>

text \<open>The error of a call: what to report, the status when there was a response, retryable.\<close>

type_synonym 'a http_result = "(app_error \<times> nat option \<times> bool) + 'a"

definition is_retryable_status :: "nat \<Rightarrow> bool" where
  "is_retryable_status code \<longleftrightarrow> code = 408 \<or> code = 429 \<or> 500 \<le> code \<and> code \<le> 599"

datatype request_error_kind = TimeoutKind | ConnectionFailedKind | OtherKind

text \<open>A \<open>reqwest::Error\<close>, as far as it is asked.\<close>

record request_error =
  rq_is_timeout :: bool
  rq_is_connect :: bool
  rq_text :: rstr

definition handle_request_error ::
  "request_error \<Rightarrow> (request_error_kind \<Rightarrow> rstr \<Rightarrow> app_error) \<Rightarrow> app_error \<times> nat option \<times> bool" where
  "handle_request_error e map_err =
     (let (kind, description) =
        (if rq_is_timeout e then (TimeoutKind, lit ''Request timed out: '' @ rq_text e)
         else if rq_is_connect e then (ConnectionFailedKind, lit ''Connection failed: '' @ rq_text e)
         else (OtherKind, lit ''HTTP request failed: '' @ rq_text e))
      in (map_err kind description, None, kind = TimeoutKind \<or> kind = ConnectionFailedKind))"

text \<open>A response: status, the header when it is text, the body when it can be read.\<close>

record http_response =
  hr_status :: nat
  hr_retry_after :: "rstr option"
  hr_body :: "rstr option"

definition check_response_status ::
  "http_response \<Rightarrow> (nat \<Rightarrow> rstr \<Rightarrow> nat option \<Rightarrow> app_error) \<Rightarrow> http_response http_result" where
  "check_response_status r map_err =
     (if 200 \<le> hr_status r \<and> hr_status r < 300 then Inr r
      else
        let code = hr_status r;
            retry_after_secs =
              (if code = 429 then Option.bind (hr_retry_after r) (parse_uint u64_max) else None);
            body = (case hr_body r of Some b \<Rightarrow> b | None \<Rightarrow> lit ''Unknown error'')
        in Inl (map_err code body retry_after_secs, Some code, is_retryable_status code))"

fun extract_retry_after :: "app_error \<Rightarrow> nat option" where
  "extract_retry_after (RateLimited message retry_after) = Some (retry_after * nanos_per_sec)"
| "extract_retry_after (Llm (LlmRateLimited prov retry_after)) = Some (retry_after * nanos_per_sec)"
| "extract_retry_after _ = None"

subsection \<open>The executor\<close>

record executor =
  ex_retry :: retry_config
  ex_service :: rstr
  ex_timeout_secs :: "nat option"

record exec_state =
  x_breaker :: breaker
  x_metrics :: provider_metrics
  x_calls :: nat
  x_sleeps :: "nat list"

text \<open>
  The state an execution works on: the shared breaker and counters, and what it did so far, the
  number of calls and the delays slept.
\<close>

definition record_stream_error :: "rstr \<Rightarrow> nat \<Rightarrow> exec_state \<Rightarrow> exec_state" where
  "record_stream_error err now s =
     s\<lparr>x_metrics := m_record_failure err 0 (x_metrics s),
       x_breaker := record_failure now (x_breaker s)\<rparr>"

definition looks_like_timeout :: "executor \<Rightarrow> app_error \<times> nat option \<times> bool \<Rightarrow> bool" where
  "looks_like_timeout ex e \<longleftrightarrow>
     (case e of (err, status, is_retryable) \<Rightarrow>
       ex_timeout_secs ex \<noteq> None \<and> status = None \<and> is_retryable \<and>
       (str_contains (app_error_text err) (lit ''timed out'') \<or>
        str_contains (app_error_text err) (lit ''timeout'')))"

text \<open>
  One pass through the loop, after \<open>attempt\<close> was incremented: either the call's result is
  returned, or the loop goes round with the delay it slept.
\<close>

definition attempt_step ::
  "executor \<Rightarrow> retry_env \<Rightarrow> nat \<Rightarrow> 32 word \<Rightarrow> 'a http_result \<Rightarrow> nat \<Rightarrow> exec_state \<Rightarrow>
   ((app_error + 'a) \<times> exec_state) + exec_state" where
  "attempt_step ex en start attempt res now s =
     (let s = s\<lparr>x_calls := x_calls s + 1\<rparr> in
      case res of
        Inr result \<Rightarrow>
          Inl (Inr result,
            s\<lparr>x_metrics := timer_success start now (x_metrics s),
              x_breaker := record_success (x_breaker s)\<rparr>)
      | Inl (err, status, is_retryable) \<Rightarrow>
          let s = (if looks_like_timeout ex (err, status, is_retryable)
                   then s\<lparr>x_metrics := m_record_timeout (x_metrics s)\<rparr> else s)
          in if status = Some 429 then
               let s = s\<lparr>x_metrics := m_record_rate_limit (x_metrics s)\<rparr>
               in if rc_max_retries (ex_retry ex) < attempt
                  then Inl (Inl err,
                    s\<lparr>x_metrics := timer_failure (app_error_text err) start now (x_metrics s)\<rparr>)
                  else
                    let delay = (case extract_retry_after err of
                          Some d \<Rightarrow> d
                        | None \<Rightarrow> delay_for_attempt en (ex_retry ex) (attempt - 1))
                    in Inr (s\<lparr>x_sleeps := x_sleeps s @ [delay]\<rparr>)
             else if \<not> is_retryable \<or> rc_max_retries (ex_retry ex) < attempt then
               Inl (Inl err,
                 s\<lparr>x_metrics := timer_failure (app_error_text err) start now (x_metrics s),
                   x_breaker := record_failure now (x_breaker s)\<rparr>)
             else
               let delay = (case get_retry_delay status None of
                     Some d \<Rightarrow> d
                   | None \<Rightarrow> delay_for_attempt en (ex_retry ex) (attempt - 1))
               in Inr (s\<lparr>x_sleeps := x_sleeps s @ [delay]\<rparr>))"

partial_function (option) execute_loop ::
  "executor \<Rightarrow> retry_env \<Rightarrow> (nat \<Rightarrow> 'a http_result \<times> nat) \<Rightarrow> nat \<Rightarrow> 32 word \<Rightarrow> exec_state \<Rightarrow>
   ((app_error + 'a) \<times> exec_state) option" where
  "execute_loop ex en op start attempt s =
     (case attempt_step ex en start (attempt + 1) (fst (op (x_calls s))) (snd (op (x_calls s))) s of
        Inl done \<Rightarrow> Some done
      | Inr s' \<Rightarrow> execute_loop ex en op start (attempt + 1) s')"

definition execute ::
  "executor \<Rightarrow> retry_env \<Rightarrow> (nat \<Rightarrow> app_error) \<Rightarrow> (nat \<Rightarrow> 'a http_result \<times> nat) \<Rightarrow> nat \<Rightarrow>
   exec_state \<Rightarrow> ((app_error + 'a) \<times> exec_state) option" where
  "execute ex en circuit_open_err op now s =
     (case allow_request now (x_breaker s) of
        (Inl e, b) \<Rightarrow>
          Some (Inl (circuit_open_err (co_retry_after e div nanos_per_sec)), s\<lparr>x_breaker := b\<rparr>)
      | (Inr _, b) \<Rightarrow>
          execute_loop ex en op now 0
            (s\<lparr>x_breaker := b, x_metrics := timer_start (x_metrics s), x_calls := 0, x_sleeps := []\<rparr>))"

subsection \<open>The stream wrapper\<close>

text \<open>
  What polling the byte stream gives: a chunk, a transport error, the end, or nothing within the
  chunk timeout. Each poll starts at an instant, compared with the deadline before waiting, and
  ends at another.
\<close>

datatype 'b poll = Chunk 'b | StreamFault rstr | Finished | Idle

definition stream_error :: "executor \<Rightarrow> rstr \<Rightarrow> app_error" where
  "stream_error ex msg = Llm (LlmStreamError (ex_service ex) msg)"

definition wall_clock_message :: "nat \<Rightarrow> rstr" where
  "wall_clock_message wall =
     lit ''LLM stream exceeded wall-clock timeout of '' @ show_nat (wall div nanos_per_sec) @ lit ''s''"

definition idle_message :: "nat \<Rightarrow> rstr" where
  "idle_message chunk_timeout =
     lit ''No data received for '' @ show_nat (chunk_timeout div nanos_per_sec) @ lit ''s''"

definition min_wall_clock_secs :: nat where "min_wall_clock_secs = 10"

definition stream_wall_clock_timeout :: "rstr option \<Rightarrow> nat" where
  "stream_wall_clock_timeout env =
     max (case env of
            Some v \<Rightarrow> (case parse_uint u64_max v of Some secs \<Rightarrow> secs | None \<Rightarrow> 300)
          | None \<Rightarrow> 300) min_wall_clock_secs * nanos_per_sec"

fun wrap_sse_stream ::
  "executor \<Rightarrow> nat \<Rightarrow> nat \<Rightarrow> nat \<Rightarrow> (nat \<times> 'b poll \<times> nat) list \<Rightarrow> exec_state \<Rightarrow>
   (app_error + 'b) list \<times> exec_state" where
  "wrap_sse_stream ex chunk_timeout wall deadline [] s = ([], s)"
| "wrap_sse_stream ex chunk_timeout wall deadline ((asked, p, got) # ps) s =
     (if deadline \<le> asked then
        ([Inl (stream_error ex (wall_clock_message wall))],
         record_stream_error (wall_clock_message wall) asked s)
      else case p of
        Chunk b \<Rightarrow>
          (let (items, s') = wrap_sse_stream ex chunk_timeout wall deadline ps s in (Inr b # items, s'))
      | StreamFault e \<Rightarrow> ([Inl (stream_error ex e)], record_stream_error e got s)
      | Finished \<Rightarrow> ([], s)
      | Idle \<Rightarrow>
          ([Inl (stream_error ex (idle_message chunk_timeout))],
           record_stream_error (idle_message chunk_timeout) got s))"

subsection \<open>The loop returns what the first decisive call returned\<close>

text \<open>
  A call, counted from zero, is decisive when it succeeded, failed for good, or was the last
  one the configuration allows.
\<close>

definition decisive :: "executor \<Rightarrow> nat \<Rightarrow> 'a http_result \<Rightarrow> bool" where
  "decisive ex i res \<longleftrightarrow>
     (case res of
        Inr _ \<Rightarrow> True
      | Inl (err, status, is_retryable) \<Rightarrow>
          status \<noteq> Some 429 \<and> \<not> is_retryable \<or> unat (rc_max_retries (ex_retry ex)) \<le> i)"

definition throttled :: "'a http_result \<Rightarrow> bool" where
  "throttled res \<longleftrightarrow> (case res of Inr _ \<Rightarrow> False | Inl (err, status, is_retryable) \<Rightarrow> status = Some 429)"

definition timed_out :: "executor \<Rightarrow> 'a http_result \<Rightarrow> bool" where
  "timed_out ex res \<longleftrightarrow> (case res of Inr _ \<Rightarrow> False | Inl e \<Rightarrow> looks_like_timeout ex e)"

text \<open>Failures the counters charge to a call that did not end the execution.\<close>

definition charges :: "executor \<Rightarrow> 'a http_result \<Rightarrow> nat" where
  "charges ex res = of_bool (throttled res) + of_bool (timed_out ex res)"

lemma timed_out_not_throttled: "timed_out ex res \<Longrightarrow> \<not> throttled res"
  by (auto simp: timed_out_def throttled_def looks_like_timeout_def split: sum.splits)

definition after_calls :: "executor \<Rightarrow> (nat \<Rightarrow> 'a http_result \<times> nat) \<Rightarrow> exec_state \<Rightarrow> nat \<Rightarrow> exec_state \<Rightarrow> bool" where
  "after_calls ex op s0 n s \<longleftrightarrow>
     x_calls s = n \<and> x_breaker s = x_breaker s0 \<and> length (x_sleeps s) = n \<and>
     pm_total (x_metrics s) = pm_total (x_metrics s0) \<and>
     pm_successful (x_metrics s) = pm_successful (x_metrics s0) \<and>
     pm_failed (x_metrics s) =
       pm_failed (x_metrics s0) + of_nat (\<Sum>j<n. charges ex (fst (op j))) \<and>
     pm_rate_limit_hits (x_metrics s) =
       pm_rate_limit_hits (x_metrics s0) + of_nat (\<Sum>j<n. of_bool (throttled (fst (op j))))"

text \<open>What is charged when call \<open>n\<close> ends the execution.\<close>

definition ended_with :: "executor \<Rightarrow> (nat \<Rightarrow> 'a http_result \<times> nat) \<Rightarrow> exec_state \<Rightarrow> nat \<Rightarrow> exec_state \<Rightarrow> bool" where
  "ended_with ex op s0 n s \<longleftrightarrow>
     x_calls s = Suc n \<and> length (x_sleeps s) = n \<and>
     x_breaker s =
       (case fst (op n) of
          Inr _ \<Rightarrow> record_success (x_breaker s0)
        | Inl _ \<Rightarrow> if throttled (fst (op n)) then x_breaker s0
                   else record_failure (snd (op n)) (x_breaker s0)) \<and>
     pm_total (x_metrics s) = pm_total (x_metrics s0) \<and>
     pm_successful (x_metrics s) =
       pm_successful (x_metrics s0) + (case fst (op n) of Inr _ \<Rightarrow> 1 | Inl _ \<Rightarrow> 0) \<and>
     pm_failed (x_metrics s) =
       pm_failed (x_metrics s0) + of_nat (\<Sum>j\<le>n. charges ex (fst (op j))) +
         (case fst (op n) of Inr _ \<Rightarrow> 0 | Inl _ \<Rightarrow> 1) \<and>
     pm_rate_limit_hits (x_metrics s) =
       pm_rate_limit_hits (x_metrics s0) + of_nat (\<Sum>j\<le>n. of_bool (throttled (fst (op j))))"

lemma retries_exhausted_iff:
  assumes "i \<le> unat m" "(m :: 32 word) \<noteq> - 1"
  shows "m < of_nat i + 1 \<longleftrightarrow> unat m \<le> i"
proof -
  have "unat m \<noteq> 2 ^ 32 - 1"
  proof
    assume "unat m = 2 ^ 32 - 1"
    then have "m = of_nat (2 ^ 32 - 1)" by (metis of_nat_unat ucast_id)
    with assms(2) show False by simp
  qed
  moreover have "unat m < 2 ^ LENGTH(32)"
    by (rule unsigned_less)
  ultimately have "Suc i < 2 ^ 32"
    using assms(1) by simp
  then have "unat (of_nat (Suc i) :: 32 word) = Suc i"
    by (simp add: unsigned_of_nat take_bit_nat_eq_self del: of_nat_Suc)
  then show ?thesis
    by (simp add: word_less_nat_alt less_Suc_eq_le add.commute)
qed

lemmas metric_defs =
  m_record_request_def m_record_duration_def m_record_success_def m_record_failure_def
  m_record_rate_limit_def m_record_timeout_def timer_start_def timer_success_def timer_failure_def

lemma step_decisive:
  assumes "after_calls ex op s0 i s" "i \<le> unat (rc_max_retries (ex_retry ex))"
    and "rc_max_retries (ex_retry ex) \<noteq> - 1" "decisive ex i (fst (op i))"
  shows "\<exists>s'. attempt_step ex en start (of_nat i + 1) (fst (op i)) (snd (op i)) s =
      Inl (map_sum fst (\<lambda>x. x) (fst (op i)), s') \<and> ended_with ex op s0 i s'"
  using assms(1,4) retries_exhausted_iff [OF assms(2,3)] timed_out_not_throttled [of ex "fst (op i)"]
  by (auto simp: attempt_step_def decisive_def after_calls_def ended_with_def charges_def metric_defs
      throttled_def timed_out_def Let_def lessThan_Suc_atMost [symmetric] split: sum.splits prod.splits)

lemma step_continues:
  assumes "after_calls ex op s0 i s" "i \<le> unat (rc_max_retries (ex_retry ex))"
    and "rc_max_retries (ex_retry ex) \<noteq> - 1" "\<not> decisive ex i (fst (op i))"
  shows "\<exists>s'. attempt_step ex en start (of_nat i + 1) (fst (op i)) (snd (op i)) s = Inr s' \<and>
      after_calls ex op s0 (Suc i) s'"
  using assms(1,4) retries_exhausted_iff [OF assms(2,3)] timed_out_not_throttled [of ex "fst (op i)"]
  by (auto simp: attempt_step_def decisive_def after_calls_def charges_def metric_defs
      throttled_def timed_out_def Let_def split: sum.splits prod.splits)

lemma execute_loop_outcome:
  assumes "after_calls ex op s0 i s" "i \<le> unat (rc_max_retries (ex_retry ex))"
    and "rc_max_retries (ex_retry ex) \<noteq> - 1" "\<forall>j<i. \<not> decisive ex j (fst (op j))"
  shows "\<exists>n s'. execute_loop ex en op start (of_nat i) s =
      Some (map_sum fst (\<lambda>x. x) (fst (op n)), s') \<and> ended_with ex op s0 n s' \<and>
      n \<le> unat (rc_max_retries (ex_retry ex)) \<and> decisive ex n (fst (op n)) \<and>
      (\<forall>j<n. \<not> decisive ex j (fst (op j)))"
  using assms
proof (induction "unat (rc_max_retries (ex_retry ex)) - i" arbitrary: i s)
  case (0 i s)
  then have "decisive ex i (fst (op i))"
    by (auto simp: decisive_def split: sum.splits)
  from step_decisive [OF "0.prems"(1-3) this] obtain s' where
    "attempt_step ex en start (of_nat i + 1) (fst (op i)) (snd (op i)) s =
      Inl (map_sum fst (\<lambda>x. x) (fst (op i)), s')" "ended_with ex op s0 i s'" by blast
  moreover have "x_calls s = i" using "0.prems"(1) by (simp add: after_calls_def)
  ultimately show ?case
    using \<open>decisive ex i (fst (op i))\<close> "0.prems" by (subst execute_loop.simps) auto
next
  case (Suc d i s)
  have calls: "x_calls s = i" using Suc.prems(1) by (simp add: after_calls_def)
  show ?case
  proof (cases "decisive ex i (fst (op i))")
    case True
    from step_decisive [OF Suc.prems(1-3) True] obtain s' where
      "attempt_step ex en start (of_nat i + 1) (fst (op i)) (snd (op i)) s =
        Inl (map_sum fst (\<lambda>x. x) (fst (op i)), s')" "ended_with ex op s0 i s'" by blast
    then show ?thesis
      using True Suc.prems calls by (subst execute_loop.simps) auto
  next
    case False
    from step_continues [OF Suc.prems(1-3) False] obtain s' where
      s': "attempt_step ex en start (of_nat i + 1) (fst (op i)) (snd (op i)) s = Inr s'"
      "after_calls ex op s0 (Suc i) s'" by blast
    have "\<forall>j<Suc i. \<not> decisive ex j (fst (op j))"
      using Suc.prems(4) False by (auto simp: less_Suc_eq)
    moreover have "execute_loop ex en op start (of_nat i) s =
        execute_loop ex en op start (of_nat (Suc i)) s'"
      using s'(1) calls by (subst execute_loop.simps) (simp add: add.commute)
    ultimately show ?thesis
      using Suc.hyps(1) [of "Suc i", OF _ s'(2)] Suc.hyps(2) Suc.prems(3) by auto
  qed
qed

lemma after_no_calls: "after_calls ex op (s\<lparr>x_calls := 0, x_sleeps := []\<rparr>) 0 (s\<lparr>x_calls := 0, x_sleeps := []\<rparr>)"
  by (simp add: after_calls_def)

definition admitted_state :: "nat \<Rightarrow> exec_state \<Rightarrow> exec_state" where
  "admitted_state now s =
     s\<lparr>x_breaker := snd (allow_request now (x_breaker s)), x_metrics := timer_start (x_metrics s),
       x_calls := 0, x_sleeps := []\<rparr>"

lemma execute_outcome:
  assumes "rc_max_retries (ex_retry ex) \<noteq> - 1" "fst (allow_request now (x_breaker s)) = Inr ()"
  shows "\<exists>n s'. execute ex en open_err op now s =
      Some (map_sum fst (\<lambda>x. x) (fst (op n)), s') \<and> ended_with ex op (admitted_state now s) n s' \<and>
      n \<le> unat (rc_max_retries (ex_retry ex)) \<and> decisive ex n (fst (op n)) \<and>
      (\<forall>j<n. \<not> decisive ex j (fst (op j)))"
proof -
  have "execute ex en open_err op now s =
      execute_loop ex en op now (of_nat 0) (admitted_state now s)"
    using assms(2) by (auto simp: execute_def admitted_state_def split: prod.splits)
  moreover have "after_calls ex op (admitted_state now s) 0 (admitted_state now s)"
    by (simp add: after_calls_def admitted_state_def)
  ultimately show ?thesis
    using execute_loop_outcome [of ex op "admitted_state now s" 0 "admitted_state now s" en now]
      assms(1) by simp
qed

subsection \<open>Properties\<close>

text \<open>
  C22. An execution returns: when the circuit refuses, at once and with nothing called;
  otherwise after at most one call more than the configured retries, with the outcome of the
  first call that succeeded, failed for good or was the last one allowed, having slept once
  between two calls. (With the largest 32-bit number of retries the attempt counter would wrap,
  so that value is excluded.)
\<close>

theorem execute_returns_first_decisive:
  assumes "rc_max_retries (ex_retry ex) \<noteq> - 1"
  shows "case allow_request now (x_breaker s) of
      (Inl e, b) \<Rightarrow>
        execute ex en open_err op now s =
          Some (Inl (open_err (co_retry_after e div nanos_per_sec)), s\<lparr>x_breaker := b\<rparr>)
    | (Inr _, b) \<Rightarrow>
        (\<exists>n s'. execute ex en open_err op now s = Some (map_sum fst (\<lambda>x. x) (fst (op n)), s') \<and>
          n \<le> unat (rc_max_retries (ex_retry ex)) \<and> x_calls s' = n + 1 \<and>
          length (x_sleeps s') = n \<and> decisive ex n (fst (op n)) \<and>
          (\<forall>j<n. \<not> decisive ex j (fst (op j))))"
proof (cases "fst (allow_request now (x_breaker s))")
  case (Inl e)
  then show ?thesis by (auto simp: execute_def split: prod.splits)
next
  case (Inr u)
  then show ?thesis
    using execute_outcome [OF assms, of now s en open_err op]
    by (auto simp: ended_with_def split: prod.splits sum.splits)
qed

definition idle_executor :: executor where
  "idle_executor =
     \<lparr>ex_retry = retry_config_new 0, ex_service = [], ex_timeout_secs = Some 30\<rparr>"

definition fresh_state :: exec_state where
  "fresh_state =
     \<lparr>x_breaker = breaker_new [] default_breaker_config, x_metrics = metrics_new [], x_calls = 0,
      x_sleeps = []\<rparr>"

lemma fresh_admits: "allow_request now (x_breaker fresh_state) =
    (Inr (), (x_breaker fresh_state)\<lparr>b_total_requests := 1\<rparr>)"
  by (simp add: fresh_state_def breaker_defs breaker_new_def)

definition throttled_once :: "nat \<Rightarrow> nat http_result \<times> nat" where
  "throttled_once i = (if i = 1 then (Inr 7, 9) else (Inl (RateLimited [] 2, Some 429, True), 5))"

definition sample_env :: retry_env where
  "sample_env = \<lparr>re_powi = (\<lambda>x _. x), re_sample = (\<lambda>_. Fin 0)\<rparr>"

definition sample_open_err :: "nat \<Rightarrow> app_error" where
  "sample_open_err _ = ServiceUnavailable []"

theorem execute_returns_first_decisive_witness:
  "\<exists>s'. execute (idle_executor\<lparr>ex_retry := default_retry_config\<rparr>) sample_env sample_open_err throttled_once 0
      fresh_state = Some (Inr 7, s') \<and> x_calls s' = 2 \<and> length (x_sleeps s') = 1"
proof -
  let ?ex = "idle_executor\<lparr>ex_retry := default_retry_config\<rparr>"
  have h: "rc_max_retries (ex_retry ?ex) \<noteq> - 1"
    by (simp add: default_retry_config_def)
  have d: "\<not> decisive ?ex 0 (fst (throttled_once 0))" "decisive ?ex 1 (fst (throttled_once 1))"
    by (simp_all add: decisive_def default_retry_config_def throttled_once_def)
  obtain n s' where n: "execute ?ex sample_env sample_open_err throttled_once 0 fresh_state =
      Some (map_sum fst (\<lambda>x. x) (fst (throttled_once n)), s')" "x_calls s' = n + 1"
      "length (x_sleeps s') = n" "decisive ?ex n (fst (throttled_once n))"
      "\<forall>j<n. \<not> decisive ?ex j (fst (throttled_once j))"
    using execute_returns_first_decisive [OF h, where now = 0 and s = fresh_state and en = sample_env and
        open_err = sample_open_err and op = throttled_once]
    unfolding fresh_admits by auto
  then have "n = 1"
    using d by (metis less_one linorder_neqE_nat)
  with n show ?thesis by (auto simp: throttled_once_def)
qed

text \<open>
  C23. The books of an execution: one request is counted; every throttled call and every
  timed-out call is counted as a failure beside the failure or success of the whole; and the
  circuit breaker hears exactly one thing, the outcome, unless that was a throttled call: rate
  limiting never counts against the circuit.
\<close>

theorem execute_accounts:
  assumes "rc_max_retries (ex_retry ex) \<noteq> - 1" "fst (allow_request now (x_breaker s)) = Inr ()"
    and "execute ex en open_err op now s = Some (r, s')"
  shows "let calls = map (\<lambda>j. fst (op j)) [0..<x_calls s']; ended = op (x_calls s' - 1);
             b = snd (allow_request now (x_breaker s)); m = x_metrics s; m' = x_metrics s' in
      pm_total m' = pm_total m + 1 \<and>
      pm_successful m' = pm_successful m + (case r of Inr _ \<Rightarrow> 1 | Inl _ \<Rightarrow> 0) \<and>
      pm_failed m' = pm_failed m + of_nat (length (filter throttled calls)) +
        of_nat (length (filter (timed_out ex) calls)) + (case r of Inr _ \<Rightarrow> 0 | Inl _ \<Rightarrow> 1) \<and>
      pm_rate_limit_hits m' = pm_rate_limit_hits m + of_nat (length (filter throttled calls)) \<and>
      x_breaker s' =
        (case r of
           Inr _ \<Rightarrow> record_success b
         | Inl _ \<Rightarrow> if throttled (fst ended) then b else record_failure (snd ended) b)"
proof -
  obtain n where n: "r = map_sum fst (\<lambda>x. x) (fst (op n))" "ended_with ex op (admitted_state now s) n s'"
    using execute_outcome [OF assms(1,2), of en open_err op] assms(3) by auto
  have count: "length (filter P (map (\<lambda>j. fst (op j)) [0..<Suc n])) =
      (\<Sum>j\<le>n. of_bool (P (fst (op j))))" for P
    by (induction n) (auto simp: atMost_Suc)
  have charged: "(\<Sum>j\<le>n. charges ex (fst (op j))) =
      (\<Sum>j\<le>n. of_bool (throttled (fst (op j)))) + (\<Sum>j\<le>n. of_bool (timed_out ex (fst (op j))))"
    by (simp add: charges_def sum.distrib)
  have calls: "x_calls s' = Suc n" using n(2) by (simp add: ended_with_def)
  have started: "pm_total (x_metrics (admitted_state now s)) = pm_total (x_metrics s) + 1"
    "pm_successful (x_metrics (admitted_state now s)) = pm_successful (x_metrics s)"
    "pm_failed (x_metrics (admitted_state now s)) = pm_failed (x_metrics s)"
    "pm_rate_limit_hits (x_metrics (admitted_state now s)) = pm_rate_limit_hits (x_metrics s)"
    "x_breaker (admitted_state now s) = snd (allow_request now (x_breaker s))"
    by (simp_all add: admitted_state_def timer_start_def m_record_request_def)
  show ?thesis
    using n(2) unfolding Let_def calls count ended_with_def charged started n(1) of_nat_add
    by (auto simp: add.assoc split: sum.splits)
qed

theorem execute_accounts_witness:
  "\<exists>s'. execute idle_executor sample_env sample_open_err
      (\<lambda>i. (Inl (RateLimited [] 2, Some 429, True) :: unit http_result, 5)) 0 fresh_state =
      Some (Inl (RateLimited [] 2), s') \<and>
    pm_total (x_metrics s') = 1 \<and> pm_failed (x_metrics s') = 2 \<and> b_failures (x_breaker s') = 0"
proof -
  let ?op = "\<lambda>i :: nat. (Inl (RateLimited [] 2, Some 429, True) :: unit http_result, 5 :: nat)"
  have h: "rc_max_retries (ex_retry idle_executor) \<noteq> - 1"
    "fst (allow_request 0 (x_breaker fresh_state)) = Inr ()"
    by (simp_all add: idle_executor_def retry_config_new_def fresh_admits)
  obtain s' where run: "execute idle_executor sample_env sample_open_err ?op 0 fresh_state =
      Some (Inl (RateLimited [] 2), s')" and one: "x_calls s' = 1"
    by (simp add: execute_def fresh_admits execute_loop.simps attempt_step_def idle_executor_def
        retry_config_new_def looks_like_timeout_def)
  have "throttled (fst (?op 0))" "\<not> timed_out idle_executor (fst (?op 0))"
    by (simp_all add: throttled_def timed_out_def looks_like_timeout_def)
  then have "pm_total (x_metrics s') = 1 \<and> pm_failed (x_metrics s') = 2 \<and>
      b_failures (x_breaker s') = 0"
    using execute_accounts [OF h run]
    by (simp add: one fresh_admits Let_def) (simp add: fresh_state_def metrics_new_def breaker_new_def)
  with run show ?thesis by blast
qed

text \<open>
  The same double counting lets the reported rate leave the documented range: one throttled
  call that is not retried is one request and two failures.
\<close>

lemma error_rate_can_exceed_one:
  assumes "pm_total m = 1" "pm_failed m = 2"
  shows "error_rate m = Fin 2"
proof -
  have "round_mag 53 (-1074) 1 = 1" "round_mag 53 (-1074) 2 = 2"
    by code_simp+
  then have "rnd64 1 = Fin 1" "rnd64 2 = Fin 2"
    by (subst rnd64_small; simp)+
  then show ?thesis
    using assms by (simp add: error_rate_def f_of_nat_def)
qed

subsection \<open>Backoff and streams\<close>

lemma f_le_min: "b \<noteq> NaN \<Longrightarrow> f_le (f_min a b) b"
  by (cases a; cases b) (auto simp: f_min_def)

text \<open>Without jitter no delay exceeds the configured maximum, whatever \<open>powi\<close> answers.\<close>

lemma delay_capped:
  assumes "\<not> rc_jitter c" "f_of_nat rnd64 (rc_max_delay c div nanos_per_milli) = Fin q"
  shows "delay_for_attempt en c k \<le> nat \<lfloor>q\<rfloor> * nanos_per_milli"
proof -
  have mono: "f_to_uint u64_max x \<le> nat \<lfloor>q\<rfloor>" if "f_le x (Fin q)" for x
    using that by (cases x) (auto simp: f_to_uint_def f_le_def intro!: min.coboundedI2 nat_mono floor_mono)
  show ?thesis
    using assms(1) by (auto simp: delay_for_attempt_def Let_def assms(2) intro!: mono f_le_min)
qed

text \<open>
  A wrapped stream yields its chunks and then at most one error, which ends it and is
  reported to the breaker.
\<close>

lemma wrap_sse_stream_shape:
  "\<exists>bs. fst (wrap_sse_stream ex ct wall dl ps s) = map Inr bs \<and>
     snd (wrap_sse_stream ex ct wall dl ps s) = s \<or>
   (\<exists>bs msg now. fst (wrap_sse_stream ex ct wall dl ps s) = map Inr bs @ [Inl (stream_error ex msg)] \<and>
     snd (wrap_sse_stream ex ct wall dl ps s) = record_stream_error msg now s)"
proof (induction ps)
  case (Cons e ps)
  obtain asked p got where e: "e = (asked, p, got)" by (cases e)
  show ?case
  proof (cases p)
    case (Chunk b)
    from Cons.IH show ?thesis
    proof (elim exE disjE conjE)
      fix bs assume "fst (wrap_sse_stream ex ct wall dl ps s) = map Inr bs"
        "snd (wrap_sse_stream ex ct wall dl ps s) = s"
      then show ?thesis
        using Chunk e by (auto simp: split_def intro!: exI [of _ "b # bs"])
    next
      fix bs msg now
      assume "fst (wrap_sse_stream ex ct wall dl ps s) = map Inr bs @ [Inl (stream_error ex msg)]"
        "snd (wrap_sse_stream ex ct wall dl ps s) = record_stream_error msg now s"
      then show ?thesis
        using Chunk e by (auto simp: split_def intro!: exI [of _ "b # bs"])
    qed
  qed (use e in auto)
qed simp

end
