(* ===== verification/Rate_Limit.thy ===== *)
theory Rate_Limit
  imports Errors Rust_Float Circuit_Breaker
begin

text \<open>
  \<open>middleware/rate_limit.rs\<close> and \<open>clients/voyage_rate_limiter.rs\<close>: the limiter of incoming
  requests (a counter in Redis, whose reply is a parameter, with token buckets in memory behind
  it) and the sliding window that paces calls to the embedding service. Instants of the token
  buckets are nanoseconds in \<open>nat\<close>. The lemmas bound what a client can get through in a
  minute, say when a refused client is admitted again, and show what the window's two separate
  locks let through.
\<close>

subsection \<open>Token buckets\<close>

definition refill_interval :: nat where "refill_interval = 60 * nanos_per_sec"
definition bucket_expiry :: nat where "bucket_expiry = 600 * nanos_per_sec"

record token_bucket =
  tb_tokens :: nat
  tb_last_refill :: nat

type_synonym buckets = "rstr \<Rightarrow> token_bucket option"

definition retry_after_secs :: "nat \<Rightarrow> nat" where
  "retry_after_secs elapsed = clamp_u32 (max ((refill_interval - elapsed) div nanos_per_sec) 1)"

definition is_exhausted :: "nat \<Rightarrow> token_bucket \<Rightarrow> bool" where
  "is_exhausted now b \<longleftrightarrow> now - tb_last_refill b < refill_interval \<and> tb_tokens b = 0"

text \<open>
  The fast path under the read lock, then the slow path under the write lock: create, refill,
  consume.
\<close>

definition check_in_memory :: "nat \<Rightarrow> nat \<Rightarrow> rstr \<Rightarrow> buckets \<Rightarrow> (nat + unit) \<times> buckets" where
  "check_in_memory requests_per_minute now client_id bs =
     (case bs client_id of
        Some b \<Rightarrow>
          if is_exhausted now b then (Inl (retry_after_secs (now - tb_last_refill b)), bs)
          else
            let elapsed = now - tb_last_refill b;
                b' = (if refill_interval \<le> elapsed
                      then \<lparr>tb_tokens = requests_per_minute, tb_last_refill = now\<rparr> else b)
            in if 0 < tb_tokens b'
               then (Inr (), bs(client_id \<mapsto> b'\<lparr>tb_tokens := tb_tokens b' - 1\<rparr>))
               else (Inl (retry_after_secs elapsed), bs(client_id \<mapsto> b'))
      | None \<Rightarrow>
          let b = \<lparr>tb_tokens = requests_per_minute, tb_last_refill = now\<rparr>
          in if 0 < tb_tokens b
             then (Inr (), bs(client_id \<mapsto> b\<lparr>tb_tokens := tb_tokens b - 1\<rparr>))
             else (Inl (retry_after_secs 0), bs(client_id \<mapsto> b)))"

text \<open>One round of the cleanup task.\<close>

definition cleanup_round :: "nat \<Rightarrow> buckets \<Rightarrow> buckets" where
  "cleanup_round now bs =
     (\<lambda>c. case bs c of
        Some b \<Rightarrow> if now - tb_last_refill b < bucket_expiry then Some b else None
      | None \<Rightarrow> None)"

subsection \<open>The distributed counter\<close>

text \<open>
  What the pipeline request comes back with: a transport error, a status, a body that does not
  parse, or one result per command, each an integer (or something else) or an error.
\<close>

datatype redis_reply =
  RequestFailed rstr
| BadStatus rstr
| ParseFailed rstr
| Results "(int option \<times> rstr option) list"

definition redis_key :: "nat \<Rightarrow> rstr \<Rightarrow> nat \<Rightarrow> rstr" where
  "redis_key now_secs client_id window_secs =
     lit ''ratelimit:'' @ client_id @ lit '':'' @ show_nat (now_secs div window_secs)"

fun read_redis_reply :: "redis_reply \<Rightarrow> rstr + int" where
  "read_redis_reply (RequestFailed e) = Inl (lit ''Redis request failed: '' @ e)"
| "read_redis_reply (BadStatus s) = Inl (lit ''Redis returned status '' @ s)"
| "read_redis_reply (ParseFailed e) = Inl (lit ''Redis response parse failed: '' @ e)"
| "read_redis_reply (Results []) = Inl (lit ''Empty pipeline response'')"
| "read_redis_reply (Results ((value, Some err) # rs)) = Inl (lit ''Redis INCR error: '' @ err)"
| "read_redis_reply (Results ((Some n, None) # rs)) = Inr n"
| "read_redis_reply (Results ((None, None) # rs)) = Inl (lit ''Invalid INCR result'')"

text \<open>
  A limiter with a Redis backend is configured when both settings are present and not empty;
  \<open>redis\<close> answers the key built from the wall clock in seconds.
\<close>

definition redis_configured :: "rstr option \<Rightarrow> rstr option \<Rightarrow> bool" where
  "redis_configured url token \<longleftrightarrow>
     (case (url, token) of (Some u, Some t) \<Rightarrow> u \<noteq> [] \<and> t \<noteq> [] | _ \<Rightarrow> False)"

definition check ::
  "(rstr \<Rightarrow> redis_reply) option \<Rightarrow> nat \<Rightarrow> nat \<Rightarrow> nat \<Rightarrow> rstr \<Rightarrow> buckets \<Rightarrow> (nat + unit) \<times> buckets" where
  "check redis requests_per_minute now_secs now client_id bs =
     (case map_option (\<lambda>r. read_redis_reply (r (redis_key now_secs client_id 60))) redis of
        Some (Inr n) \<Rightarrow>
          if n \<le> int requests_per_minute then (Inr (), bs)
          else (Inl (clamp_u32 (max (60 - now_secs mod 60) 1)), bs)
      | _ \<Rightarrow> check_in_memory requests_per_minute now client_id bs)"

subsection \<open>The middleware\<close>

text \<open>The parts of a request it looks at; a header is present here when it is valid text.\<close>

record client_request =
  cr_x_real_ip :: "rstr option"
  cr_x_forwarded_for :: "rstr option"
  cr_socket_ip :: "rstr option"

definition nonempty_trimmed :: "rstr \<Rightarrow> rstr option" where
  "nonempty_trimmed s = (let t = trim s in if t = [] then None else Some t)"

definition extract_client_id :: "client_request \<Rightarrow> bool \<Rightarrow> rstr" where
  "extract_client_id req trusted_proxy =
     (let socket = (case cr_socket_ip req of Some ip \<Rightarrow> ip | None \<Rightarrow> lit ''unknown'') in
      if trusted_proxy then
        (case Option.bind (cr_x_real_ip req) nonempty_trimmed of
           Some ip \<Rightarrow> ip
         | None \<Rightarrow>
             (case Option.bind (cr_x_forwarded_for req)
                     (\<lambda>xff. nonempty_trimmed (last (split_on (\<lambda>c. c = 44) xff))) of
                Some ip \<Rightarrow> ip
              | None \<Rightarrow> socket))
      else socket)"

definition rate_limit_response :: "nat \<Rightarrow> response_parts" where
  "rate_limit_response retry =
     rate_limited (lit ''Too many requests. Retry after '' @ show_nat retry @ lit '' seconds.'') retry"

definition rate_limit_middleware ::
  "(rstr \<Rightarrow> redis_reply) option \<Rightarrow> nat \<Rightarrow> bool \<Rightarrow> nat \<Rightarrow> nat \<Rightarrow> client_request \<Rightarrow> buckets \<Rightarrow>
   response_parts option \<times> buckets" where
  "rate_limit_middleware redis rpm trusted_proxy now_secs now req bs =
     (case check redis rpm now_secs now (extract_client_id req trusted_proxy) bs of
        (Inr _, bs') \<Rightarrow> (None, bs')
      | (Inl retry, bs') \<Rightarrow> (Some (rate_limit_response retry), bs'))"

subsection \<open>What a client gets through\<close>

datatype limiter_event = Check rstr nat | Cleanup nat

fun event_time :: "limiter_event \<Rightarrow> nat" where
  "event_time (Check c t) = t"
| "event_time (Cleanup t) = t"

text \<open>The requests of one client that were admitted in a run, and the buckets after it.\<close>

fun admitted_in :: "nat \<Rightarrow> rstr \<Rightarrow> limiter_event list \<Rightarrow> buckets \<Rightarrow> nat" where
  "admitted_in rpm c [] bs = 0"
| "admitted_in rpm c (Check d t # es) bs =
     (let (r, bs') = check_in_memory rpm t d bs
      in of_bool (d = c \<and> r = Inr ()) + admitted_in rpm c es bs')"
| "admitted_in rpm c (Cleanup t # es) bs = admitted_in rpm c es (cleanup_round t bs)"

text \<open>
  What client \<open>c\<close> can still get before instant \<open>e\<close>: the tokens left and, when a refill can
  fall before \<open>e\<close>, one more allotment.
\<close>

definition potential :: "nat \<Rightarrow> nat \<Rightarrow> rstr \<Rightarrow> buckets \<Rightarrow> nat" where
  "potential rpm e c bs =
     (case bs c of
        None \<Rightarrow> rpm
      | Some b \<Rightarrow> tb_tokens b + (if tb_last_refill b + refill_interval < e then rpm else 0))"

definition buckets_ok :: "nat \<Rightarrow> buckets \<Rightarrow> bool" where
  "buckets_ok rpm bs \<longleftrightarrow> (\<forall>c b. bs c = Some b \<longrightarrow> tb_tokens b \<le> rpm)"

lemma buckets_ok_check: "buckets_ok rpm bs \<Longrightarrow> buckets_ok rpm (snd (check_in_memory rpm t c bs))"
  by (auto simp: buckets_ok_def check_in_memory_def Let_def le_diff_conv split: option.splits)
    (meson le_SucI)+

lemma buckets_ok_cleanup: "buckets_ok rpm bs \<Longrightarrow> buckets_ok rpm (cleanup_round t bs)"
  by (auto simp: buckets_ok_def cleanup_round_def split: option.splits if_splits)

lemma potential_bound: "buckets_ok rpm bs \<Longrightarrow> potential rpm e c bs \<le> 2 * rpm"
  by (fastforce simp: potential_def buckets_ok_def split: option.splits)

lemma check_other: "c \<noteq> d \<Longrightarrow> snd (check_in_memory rpm t d bs) c = bs c"
  by (auto simp: check_in_memory_def Let_def split: option.splits)

lemma check_spends:
  assumes "e \<le> t + refill_interval" "t < e"
  shows "of_bool (fst (check_in_memory rpm t c bs) = Inr ()) +
    potential rpm e c (snd (check_in_memory rpm t c bs)) \<le> potential rpm e c bs"
  using assms by (auto simp: check_in_memory_def potential_def is_exhausted_def Let_def
      split: option.splits)

lemma cleanup_spends:
  assumes "t < e"
  shows "potential rpm e c (cleanup_round t bs) \<le> potential rpm e c bs"
  using assms by (auto simp: cleanup_round_def potential_def bucket_expiry_def refill_interval_def
      nanos_per_sec_def split: option.splits)

lemma admitted_within:
  assumes "\<forall>ev \<in> set es. e \<le> event_time ev + refill_interval \<and> event_time ev < e"
  shows "admitted_in rpm c es bs \<le> potential rpm e c bs"
  using assms
proof (induction rpm c es bs rule: admitted_in.induct)
  case (2 rpm c d t es bs)
  let ?r = "check_in_memory rpm t d bs"
  have "admitted_in rpm c es (snd ?r) \<le> potential rpm e c (snd ?r)"
    using "2.IH" [of ?r "fst ?r" "snd ?r"] "2.prems" by simp
  moreover have "of_bool (d = c \<and> fst ?r = Inr ()) + potential rpm e c (snd ?r) \<le> potential rpm e c bs"
    using check_spends [of e t rpm c bs] "2.prems" check_other [of c d rpm t bs]
    by (cases "d = c") (auto simp: potential_def)
  ultimately show ?case by (simp add: split_def Let_def)
next
  case (3 rpm c t es bs)
  then show ?case using cleanup_spends [of t e rpm c bs] by fastforce
qed simp

fun run_limiter :: "nat \<Rightarrow> limiter_event list \<Rightarrow> buckets \<Rightarrow> buckets" where
  "run_limiter rpm [] bs = bs"
| "run_limiter rpm (Check c t # es) bs = run_limiter rpm es (snd (check_in_memory rpm t c bs))"
| "run_limiter rpm (Cleanup t # es) bs = run_limiter rpm es (cleanup_round t bs)"

lemma buckets_ok_run: "buckets_ok rpm bs \<Longrightarrow> buckets_ok rpm (run_limiter rpm es bs)"
  by (induction rpm es bs rule: run_limiter.induct) (simp_all add: buckets_ok_check buckets_ok_cleanup)

lemma refused_in_memory:
  assumes "fst (check_in_memory rpm t c bs) = Inl r" "0 < rpm"
  shows "\<exists>b. bs c = Some b \<and> is_exhausted t b \<and> r = retry_after_secs (t - tb_last_refill b) \<and>
    snd (check_in_memory rpm t c bs) = bs"
  using assms by (auto simp: check_in_memory_def is_exhausted_def Let_def split: option.splits if_splits)

lemma retry_after_covers:
  assumes "elapsed < refill_interval"
  shows "refill_interval - elapsed < (retry_after_secs elapsed + 1) * nanos_per_sec"
proof -
  let ?w = "refill_interval - elapsed"
  have "?w div nanos_per_sec \<le> 60"
    by (rule order_trans [OF div_le_mono [of _ refill_interval]])
      (simp_all add: refill_interval_def nanos_per_sec_def)
  then have "?w div nanos_per_sec \<le> retry_after_secs elapsed"
    by (simp add: retry_after_secs_def clamp_u32_min u32_max_def)
  moreover have "?w < (?w div nanos_per_sec + 1) * nanos_per_sec"
    by (simp add: nanos_per_sec_def)
  ultimately show ?thesis
    by (meson add_le_mono1 less_le_trans mult_le_mono1)
qed

text \<open>
  C28. The in-memory limiter keeps every client within twice the configured rate in any
  minute, whatever the other clients and the cleanup task do and whatever happened before: one
  allotment left from before and one refill. A refused client is admitted again one second
  after the hint it was given, at the latest.
\<close>

theorem minute_admits_twice_the_rate:
  assumes "\<forall>ev \<in> set es. a \<le> event_time ev \<and> event_time ev < a + refill_interval"
  shows "admitted_in rpm c es (run_limiter rpm earlier (\<lambda>_. None)) \<le> 2 * rpm \<and>
    (0 < rpm \<and> fst (check_in_memory rpm t c bs) = Inl r \<and>
      (\<forall>b. bs c = Some b \<longrightarrow> tb_last_refill b \<le> t) \<and> t + (r + 1) * nanos_per_sec \<le> t' \<longrightarrow>
      fst (check_in_memory rpm t' c (snd (check_in_memory rpm t c bs))) = Inr ())"
proof (intro conjI impI)
  have "buckets_ok rpm (run_limiter rpm earlier (\<lambda>_. None))"
    by (rule buckets_ok_run) (simp add: buckets_ok_def)
  then have "potential rpm (a + refill_interval) c (run_limiter rpm earlier (\<lambda>_. None)) \<le> 2 * rpm"
    by (rule potential_bound)
  moreover have "\<forall>ev \<in> set es. a + refill_interval \<le> event_time ev + refill_interval \<and>
      event_time ev < a + refill_interval"
    using assms by auto
  ultimately show "admitted_in rpm c es (run_limiter rpm earlier (\<lambda>_. None)) \<le> 2 * rpm"
    using admitted_within order_trans by blast
next
  assume h: "0 < rpm \<and> fst (check_in_memory rpm t c bs) = Inl r \<and>
      (\<forall>b. bs c = Some b \<longrightarrow> tb_last_refill b \<le> t) \<and> t + (r + 1) * nanos_per_sec \<le> t'"
  then obtain b where b: "bs c = Some b" "is_exhausted t b" "r = retry_after_secs (t - tb_last_refill b)"
      "snd (check_in_memory rpm t c bs) = bs"
    using refused_in_memory by blast
  have "refill_interval - (t - tb_last_refill b) < (r + 1) * nanos_per_sec"
    unfolding b(3) using b(2) by (intro retry_after_covers) (simp add: is_exhausted_def)
  moreover have "tb_last_refill b \<le> t" "t + (r + 1) * nanos_per_sec \<le> t'"
    using h b(1) by blast+
  ultimately have "refill_interval \<le> t' - tb_last_refill b"
    by linarith
  with b h show "fst (check_in_memory rpm t' c (snd (check_in_memory rpm t c bs))) = Inr ()"
    by (simp add: check_in_memory_def is_exhausted_def Let_def)
qed

theorem minute_admits_twice_the_rate_witness:
  "admitted_in 1 [65] [Check [65] 59, Check [65] 60, Check [66] 60] (run_limiter 1 [] (\<lambda>_. None)) = 1 \<and>
   admitted_in 1 [65] [Check [65] 59, Check [65] 60, Check [66] 60] (run_limiter 1 [] (\<lambda>_. None)) \<le> 2"
proof -
  have "\<forall>ev \<in> set [Check [65] 59, Check [65] 60, Check [66] 60].
      50 \<le> event_time ev \<and> event_time ev < 50 + refill_interval"
    by (simp add: refill_interval_def nanos_per_sec_def)
  from minute_admits_twice_the_rate [OF this, of 1 "[65]" "[]"]
  show ?thesis
    by (simp add: check_in_memory_def is_exhausted_def refill_interval_def nanos_per_sec_def)
qed

subsection \<open>The sliding window of the embedding service\<close>

text \<open>
  Instants of the window are integers, so that going back sixty seconds always succeeds, as it
  does for a monotonic clock since boot. Token counts are 32-bit words, whose sum wraps.
\<close>

record voyage_config =
  vc_max_rpm :: nat
  vc_max_tpm :: "32 word"
  vc_max_wait_secs :: nat

record voyage_state =
  vs_request_times :: "int list"
  vs_token_usage :: "(int \<times> 32 word) list"

definition voyage_window :: int where "voyage_window = 60 * int nanos_per_sec"
definition voyage_poll :: int where "voyage_poll = 100 * 1000000"

definition voyage_new :: voyage_state where
  "voyage_new = \<lparr>vs_request_times = [], vs_token_usage = []\<rparr>"

definition rpm_check :: "voyage_config \<Rightarrow> int \<Rightarrow> voyage_state \<Rightarrow> bool \<times> voyage_state" where
  "rpm_check cfg now s =
     (let times = dropWhile (\<lambda>t. t < now - voyage_window) (vs_request_times s)
      in (length times < vc_max_rpm cfg, s\<lparr>vs_request_times := times\<rparr>))"

definition tpm_check :: "voyage_config \<Rightarrow> 32 word \<Rightarrow> int \<Rightarrow> voyage_state \<Rightarrow> bool \<times> voyage_state" where
  "tpm_check cfg estimated now s =
     (let usage = dropWhile (\<lambda>(t, n). t < now - voyage_window) (vs_token_usage s)
      in (sum_list (map snd usage) + estimated \<le> vc_max_tpm cfg, s\<lparr>vs_token_usage := usage\<rparr>))"

definition reserve :: "int \<Rightarrow> voyage_state \<Rightarrow> voyage_state" where
  "reserve now s = s\<lparr>vs_request_times := vs_request_times s @ [now]\<rparr>"

definition oldest_wait :: "int \<Rightarrow> int list \<Rightarrow> int option" where
  "oldest_wait now ts =
     (case ts of
        [] \<Rightarrow> None
      | t # _ \<Rightarrow>
          Some (if now - voyage_window < t then max 0 (t + voyage_window - now) else voyage_poll))"

definition sleep_until :: "bool \<Rightarrow> bool \<Rightarrow> int \<Rightarrow> voyage_state \<Rightarrow> int" where
  "sleep_until rpm_ok tpm_ok now s =
     (let rpm_wait = (if rpm_ok then None else oldest_wait now (vs_request_times s));
          tpm_wait = (if tpm_ok then None else oldest_wait now (map fst (vs_token_usage s)))
      in case (rpm_wait, tpm_wait) of
           (Some a, Some b) \<Rightarrow> min a b
         | (Some a, None) \<Rightarrow> a
         | (None, Some b) \<Rightarrow> b
         | (None, None) \<Rightarrow> voyage_poll)"

definition wait_exceeded :: "voyage_config \<Rightarrow> app_error" where
  "wait_exceeded cfg =
     Rag (RagEmbeddingRateLimited
       (lit ''Rate limit wait exceeded '' @ show_nat (vc_max_wait_secs cfg) @ lit ''s (RPM='' @
        show_nat (vc_max_rpm cfg) @ lit '', TPM='' @ show_nat (unat (vc_max_tpm cfg)) @ lit '')'')
       (clamp_u32 (vc_max_wait_secs cfg)))"

text \<open>
  One turn of the \<open>acquire\<close> loop, run without another task between its locks: give up, return
  the time waited, or sleep.
\<close>

datatype acquired = GaveUp app_error | Granted int | Sleeping int

definition acquire_turn ::
  "voyage_config \<Rightarrow> 32 word \<Rightarrow> int \<Rightarrow> int \<Rightarrow> voyage_state \<Rightarrow> acquired \<times> voyage_state" where
  "acquire_turn cfg estimated start now s =
     (let max_wait = int (vc_max_wait_secs cfg * nanos_per_sec) in
      if max_wait \<le> max 0 (now - start) then (GaveUp (wait_exceeded cfg), s)
      else
        let (rpm_ok, s) = rpm_check cfg now s;
            (tpm_ok, s) = tpm_check cfg estimated now s
        in if rpm_ok \<and> tpm_ok then (Granted (max 0 (now - start)), reserve now s)
           else (Sleeping (min (sleep_until rpm_ok tpm_ok now s)
                   (max 0 (max_wait - max 0 (now - start)))), s))"

text \<open>
  The loop over the instants at which it wakes; another task may have changed the state in
  between.
\<close>

fun acquire ::
  "voyage_config \<Rightarrow> 32 word \<Rightarrow> int \<Rightarrow> (int \<times> (voyage_state \<Rightarrow> voyage_state)) list \<Rightarrow> voyage_state \<Rightarrow>
   (app_error + int) option \<times> voyage_state" where
  "acquire cfg estimated start [] s = (None, s)"
| "acquire cfg estimated start ((now, others) # wakes) s =
     (case acquire_turn cfg estimated start now (others s) of
        (GaveUp e, s') \<Rightarrow> (Some (Inl e), s')
      | (Granted waited, s') \<Rightarrow> (Some (Inr waited), s')
      | (Sleeping d, s') \<Rightarrow> acquire cfg estimated start wakes s')"

definition record_usage :: "32 word \<Rightarrow> int \<Rightarrow> voyage_state \<Rightarrow> voyage_state" where
  "record_usage actual now s = s\<lparr>vs_token_usage := vs_token_usage s @ [(now, actual)]\<rparr>"

record voyage_stats =
  vu_rpm_used :: nat
  vu_rpm_remaining :: nat
  vu_tpm_used :: "32 word"
  vu_tpm_remaining :: nat

definition stats :: "voyage_config \<Rightarrow> int \<Rightarrow> voyage_state \<Rightarrow> voyage_stats" where
  "stats cfg now s =
     (let cutoff = now - voyage_window;
          rpm_used = clamp_u32 (length (filter (\<lambda>t. cutoff \<le> t) (vs_request_times s)));
          tpm_used = sum_list (map snd (filter (\<lambda>(t, n). cutoff \<le> t) (vs_token_usage s)))
      in \<lparr>vu_rpm_used = rpm_used, vu_rpm_remaining = vc_max_rpm cfg - rpm_used,
          vu_tpm_used = tpm_used,
          vu_tpm_remaining = unat (vc_max_tpm cfg) - unat tpm_used\<rparr>)"

definition voyage_estimate_tokens :: "rstr list \<Rightarrow> nat" where
  "voyage_estimate_tokens texts =
     (let total_chars = sum_list (map str_len texts);
          estimated_f = f_ceil (f_mul rnd64 (f_div rnd64 (f_of_nat rnd64 total_chars) (Fin 4))
                                 (rnd64 (11 / 10)))
      in max (f_to_uint u32_max estimated_f) (clamp_u32 (length texts)))"


text \<open>
  Turns that run without another task between their locks keep to the configured number of
  requests in every window that ends with a grant.
\<close>

definition window_ok :: "voyage_config \<Rightarrow> voyage_state \<Rightarrow> bool" where
  "window_ok cfg s \<longleftrightarrow> length (vs_request_times s) \<le> vc_max_rpm cfg"

lemma acquire_turn_keeps_window:
  assumes "window_ok cfg s"
  shows "window_ok cfg (snd (acquire_turn cfg n start now s))"
proof -
  have "length (dropWhile P xs) \<le> length xs" for P and xs :: "int list"
    by (induction xs) auto
  from order_trans [OF this, of "vs_request_times s"] assms show ?thesis
    by (auto simp: acquire_turn_def rpm_check_def tpm_check_def reserve_def window_ok_def Let_def)
qed

text \<open>
  But the check releases its lock before the slot is reserved. Two tasks that check one after
  the other before either reserves both pass when one slot is left, and the window holds more
  requests than the limit.
\<close>

lemma two_checks_before_reserving_exceed_limit:
  assumes "length (vs_request_times s) = vc_max_rpm cfg - 1" "0 < vc_max_rpm cfg"
    and "\<forall>t \<in> set (vs_request_times s). now - voyage_window \<le> t"
  shows "fst (rpm_check cfg now s) \<and> fst (rpm_check cfg now (snd (rpm_check cfg now s))) \<and>
    \<not> window_ok cfg (reserve now (reserve now (snd (rpm_check cfg now (snd (rpm_check cfg now s))))))"
proof -
  have "dropWhile (\<lambda>t. t < now - voyage_window) (vs_request_times s) = vs_request_times s"
    using assms(3) by (cases "vs_request_times s") auto
  then show ?thesis
    using assms(1,2) by (simp add: rpm_check_def window_ok_def reserve_def Let_def)
qed

text \<open>The wait of an \<open>acquire\<close> that is granted stays below the configured maximum.\<close>

lemma acquire_waits_less:
  assumes "acquire cfg n start wakes s = (Some (Inr waited), s')"
  shows "waited < int (vc_max_wait_secs cfg * nanos_per_sec)"
  using assms
proof (induction cfg n start wakes s rule: acquire.induct)
  case (2 cfg n start now others wakes s)
  then show ?case
    by (auto simp: acquire_turn_def Let_def not_le split: acquired.splits prod.splits if_splits)
qed simp

end
