(* ===== verification/Citations.thy ===== *)
theory Citations
  imports Scores
begin

text \<open>
  \<open>llm/citations.rs\<close>: the markers \<open>[N]\<close> of an answer, the code spans they do not count in,
  the test that a claim is carried by the passage it cites, and the extraction that turns the
  justified markers into citations and counts the others. A loop over byte indices is a
  recursion over the offset and the bytes that remain. The lemmas show that a citation is never
  emitted without its justification, that no marker is lost from the count, and that the code
  ranges are ordered and apart.
\<close>

subsection \<open>Code ranges\<close>

definition skip_line :: "nat \<times> nat list \<Rightarrow> nat \<times> nat list" where
  "skip_line p =
     (fst p + length (takeWhile (\<lambda>b. b \<noteq> 10) (snd p)), dropWhile (\<lambda>b. b \<noteq> 10) (snd p))"

text \<open>From the end of the opening line to after the closing fence's line, or to the end.\<close>

fun close_fence :: "nat \<Rightarrow> nat list \<Rightarrow> nat \<times> nat list" where
  "close_fence i [] = (i, [])"
| "close_fence i (b # bs) =
     (if b = 10 \<and> take 3 bs = [96, 96, 96] then skip_line (i + 4, drop 3 bs)
      else close_fence (i + 1) bs)"

lemma length_skip_line: "length (snd (skip_line p)) \<le> length (snd p)"
  by (simp add: skip_line_def length_dropWhile_le)

lemma length_close_fence: "length (snd (close_fence i bs)) \<le> length bs"
proof (induction i bs rule: close_fence.induct)
  case (2 i b bs)
  then show ?case
    using length_skip_line [of "(i + 4, drop 3 bs)"] by auto
qed simp

function code_ranges :: "nat \<Rightarrow> nat list \<Rightarrow> (nat \<times> nat) list" where
  "code_ranges i [] = []"
| "code_ranges i (b # bs) =
     (if b = 96 \<and> take 2 bs = [96, 96] then
        let opened = skip_line (i + 3, drop 2 bs);
            closed = close_fence (fst opened) (snd opened)
        in (i, fst closed) # code_ranges (fst closed) (snd closed)
      else if b = 96 then
        let j = i + 1 + length (takeWhile (\<lambda>b. b \<noteq> 96) bs);
            rest = dropWhile (\<lambda>b. b \<noteq> 96) bs
        in if rest \<noteq> [] then (i, j + 1) # code_ranges (j + 1) (tl rest)
           else (i, j) # code_ranges j []
      else code_ranges (i + 1) bs)"
  by pat_completeness auto
termination
proof (relation "measure (\<lambda>p. length (snd p))", goal_cases)
  case (2 i b bs opened closed)
  then show ?case
    using length_close_fence [of "fst opened" "snd opened"] length_skip_line [of "(i + 3, drop 2 bs)"]
    by (auto simp: Let_def)
next
  case (3 i b bs j rest)
  then show ?case
    using length_dropWhile_le [of "\<lambda>b. b \<noteq> 96" bs] by auto
qed auto

definition find_code_ranges :: "rstr \<Rightarrow> (nat \<times> nat) list" where
  "find_code_ranges text = code_ranges 0 (as_bytes text)"

definition is_in_code_range :: "nat \<Rightarrow> (nat \<times> nat) list \<Rightarrow> bool" where
  "is_in_code_range offset ranges = list_ex (\<lambda>(s, e). s \<le> offset \<and> offset < e) ranges"

subsection \<open>Markers\<close>

text \<open>
  The leftmost, non-overlapping matches of \<open>\[(\d+)\]\<close>: the byte offset of each and its
  digits, which may be decimal digits of any script.
\<close>

function find_markers :: "unicode \<Rightarrow> nat \<Rightarrow> rstr \<Rightarrow> (nat \<times> rstr) list" where
  "find_markers u off [] = []"
| "find_markers u off (c # cs) =
     (let ds = takeWhile (uc_decimal u) cs; rest = dropWhile (uc_decimal u) cs in
      if c = 91 \<and> ds \<noteq> [] \<and> rest \<noteq> [] \<and> hd rest = 93
      then (off, ds) # find_markers u (off + 1 + str_len ds + 1) (tl rest)
      else find_markers u (off + len_utf8 c) cs)"
  by pat_completeness auto
termination
  by (relation "measure (\<lambda>p. length (snd (snd p)))")
    (auto simp: le_imp_less_Suc length_dropWhile_le diff_le_self order.trans [OF diff_le_self])

definition truncate_text :: "rstr \<Rightarrow> nat \<Rightarrow> rstr" where
  "truncate_text text max_chars =
     (if length text \<le> max_chars then text
      else take (max_chars - 3) text @ lit ''...'')"

definition quote_belongs_to :: "rstr \<Rightarrow> rstr \<Rightarrow> bool" where
  "quote_belongs_to document quoted \<longleftrightarrow> trim quoted \<noteq> [] \<and> str_contains document (trim quoted)"

subsection \<open>Numbers of a text\<close>

definition is_numeric_separator :: "uchar \<Rightarrow> bool" where
  "is_numeric_separator c \<longleftrightarrow> c \<in> set [46, 44, 95, 39, 8217, 32, 160, 8239]"

definition strip_zeros_start :: "rstr \<Rightarrow> rstr" where
  "strip_zeros_start ds = dropWhile (\<lambda>c. c = 48) ds"

definition canonical_integer :: "rstr \<Rightarrow> bool \<Rightarrow> rstr" where
  "canonical_integer digits negative =
     (let ds = strip_zeros_start digits; ds = (if ds = [] then lit ''0'' else ds)
      in if negative \<and> ds \<noteq> lit ''0'' then lit ''-'' @ ds else ds)"

definition canonical_decimal :: "rstr \<Rightarrow> rstr \<Rightarrow> bool \<Rightarrow> rstr" where
  "canonical_decimal integer fraction negative =
     (let int_part = strip_zeros_start integer;
          frac = rev (strip_zeros_start (rev fraction));
          int_part = (if int_part = [] then lit ''0'' else int_part)
      in if frac = [] then canonical_integer int_part negative
         else (if negative then lit ''-'' else []) @ int_part @ lit ''.'' @ frac)"

definition normalize_numeric_run :: "rstr \<Rightarrow> rstr list" where
  "normalize_numeric_run run =
     (let (negative, unsigned) =
        (case run of
           c # cs \<Rightarrow> if c = 45 then (True, cs) else if c = 43 then (False, cs) else (False, run)
         | [] \<Rightarrow> (False, run));
        groups = filter (\<lambda>g. g \<noteq> []) (split_on is_numeric_separator unsigned)
      in if groups = [] then []
         else if length groups = 1 then [canonical_integer (groups ! 0) negative]
         else
           let separators = filter is_numeric_separator unsigned;
               last_separator = (if separators = [] then None else Some (last separators));
               distinct_before = (case last_separator of
                   None \<Rightarrow> False
                 | Some l \<Rightarrow> list_ex (\<lambda>s. s \<noteq> l) (butlast separators));
               decimal_candidate = (case last_separator of
                   None \<Rightarrow> False
                 | Some s \<Rightarrow> (s = 46 \<or> s = 44) \<and>
                     (str_len (last groups) \<noteq> 3 \<or> 3 < str_len (groups ! 0) \<or> distinct_before));
               integer_groups = butlast groups;
               grouped_prefix = (length integer_groups = 1 \<or>
                   str_len (integer_groups ! 0) \<le> 3 \<and>
                   list_all (\<lambda>g. str_len g = 3) (tl integer_groups))
           in if decimal_candidate \<and> grouped_prefix
              then [canonical_decimal (concat integer_groups) (last groups) negative]
              else
                let unambiguous = (2 < length groups \<or> list_all (\<lambda>s. s \<noteq> 46 \<and> s \<noteq> 44) separators);
                    is_grouped_integer = (unambiguous \<and> str_len (groups ! 0) \<le> 3 \<and>
                      list_all (\<lambda>g. str_len g = 3) (tl groups) \<and>
                      length separators = length groups - 1)
                in if is_grouped_integer then [canonical_integer (concat groups) negative]
                   else if length groups = 2 \<and> length separators = 1 \<and>
                     (separators ! 0 = 46 \<or> separators ! 0 = 44)
                   then [canonical_decimal (groups ! 0) (groups ! 1) negative]
                   else [lit ''literal:'' @ run])"

definition next_is :: "(uchar \<Rightarrow> bool) \<Rightarrow> rstr \<Rightarrow> bool" where
  "next_is P cs = (case cs of [] \<Rightarrow> False | c # _ \<Rightarrow> P c)"

definition close_run :: "rstr \<Rightarrow> rstr list" where
  "close_run run = (if list_ex is_ascii_digit run then normalize_numeric_run run else [])"

definition is_sign :: "rstr \<Rightarrow> bool" where
  "is_sign run \<longleftrightarrow> run = lit ''-'' \<or> run = lit ''+''"

fun numeric_runs :: "rstr \<Rightarrow> rstr \<Rightarrow> rstr list" where
  "numeric_runs run [] = close_run run"
| "numeric_runs run (c # cs) =
     (if is_ascii_digit c then numeric_runs (run @ [c]) cs
      else if run \<noteq> [] \<and> \<not> is_sign run \<and> is_numeric_separator c \<and> next_is is_ascii_digit cs
      then numeric_runs (run @ [c]) cs
      else if (run = [] \<or> is_sign run) \<and> (c = 46 \<or> c = 44) \<and> next_is is_ascii_digit cs
      then numeric_runs (run @ [48, c]) cs
      else if run = [] \<and> (c = 45 \<or> c = 43) \<and>
        next_is (\<lambda>n. is_ascii_digit n \<or> n = 46 \<or> n = 44) cs
      then numeric_runs (run @ [c]) cs
      else close_run run @ numeric_runs [] cs)"

definition numeric_literal_values :: "rstr \<Rightarrow> rstr list" where
  "numeric_literal_values text = numeric_runs [] text"

definition u128_max :: nat where "u128_max = 2 ^ 128 - 1"

definition word_in :: "rstr \<Rightarrow> string list \<Rightarrow> bool" where
  "word_in token ws = list_ex (\<lambda>w. token = lit w) ws"

definition number_words :: "(rstr \<times> nat) list" where
  "number_words =
     [(lit ''zero'', 0), ([122, 233, 114, 111], 0), (lit ''one'', 1), (lit ''un'', 1),
      (lit ''two'', 2), (lit ''deux'', 2), (lit ''three'', 3), (lit ''trois'', 3),
      (lit ''four'', 4), (lit ''quatre'', 4), (lit ''five'', 5), (lit ''cinq'', 5), (lit ''six'', 6),
      (lit ''seven'', 7), (lit ''sept'', 7), (lit ''eight'', 8), (lit ''huit'', 8),
      (lit ''nine'', 9), (lit ''neuf'', 9), (lit ''ten'', 10), (lit ''dix'', 10),
      (lit ''eleven'', 11), (lit ''onze'', 11), (lit ''twelve'', 12), (lit ''douze'', 12),
      (lit ''thirteen'', 13), (lit ''treize'', 13), (lit ''fourteen'', 14), (lit ''quatorze'', 14),
      (lit ''fifteen'', 15), (lit ''quinze'', 15), (lit ''sixteen'', 16), (lit ''seize'', 16),
      (lit ''seventeen'', 17), (lit ''eighteen'', 18), (lit ''nineteen'', 19),
      (lit ''twenty'', 20), (lit ''vingt'', 20), (lit ''vingts'', 20),
      (lit ''thirty'', 30), (lit ''trente'', 30), (lit ''forty'', 40), (lit ''quarante'', 40),
      (lit ''fifty'', 50), (lit ''cinquante'', 50), (lit ''sixty'', 60), (lit ''soixante'', 60),
      (lit ''seventy'', 70), (lit ''eighty'', 80), (lit ''ninety'', 90)]"

definition number_atom :: "rstr list \<Rightarrow> (nat \<times> nat) option" where
  "number_atom tokens =
     (case tokens of
        [] \<Rightarrow> None
      | token # rest \<Rightarrow>
          if token = lit ''quatre'' \<and> rest \<noteq> [] \<and> word_in (hd rest) [''vingt'', ''vingts'']
          then Some (80, 2)
          else map_option (\<lambda>v. (v, 1)) (map_of number_words token))"

definition number_scale :: "rstr \<Rightarrow> nat option" where
  "number_scale token =
     (if word_in token [''thousand'', ''mille''] then Some 1000
      else if word_in token [''million''] then Some 1000000
      else if word_in token [''billion'', ''milliard''] then Some 1000000000
      else if word_in token [''trillion''] then Some 1000000000000
      else None)"

definition is_number_component :: "rstr \<Rightarrow> bool" where
  "is_number_component token \<longleftrightarrow>
     list_ex is_ascii_digit token \<or>
     word_in token [''and'', ''et'', ''dozen'', ''douzaine'', ''score'', ''hundred'', ''cent''] \<or>
     number_scale token \<noteq> None \<or> number_atom [token] \<noteq> None"

definition end_number :: "nat \<Rightarrow> nat \<Rightarrow> nat \<Rightarrow> bool \<Rightarrow> (nat \<times> nat) option" where
  "end_number tot current consumed saw =
     (if saw then map_option (\<lambda>v. (v, consumed)) (checked_add u128_max tot current) else None)"

function word_number :: "rstr list \<Rightarrow> nat \<Rightarrow> nat \<Rightarrow> nat \<Rightarrow> bool \<Rightarrow> (nat \<times> nat) option" where
  "word_number [] tot current consumed saw = end_number tot current consumed saw"
| "word_number (token # rest) tot current consumed saw =
     (if word_in token [''and'', ''et''] \<and> saw then
        if rest \<noteq> [] \<and> is_number_component (hd rest)
        then word_number rest tot current (consumed + 1) saw
        else end_number tot current consumed saw
      else if word_in token [''dozen'', ''douzaine''] then
        (case checked_mul u128_max (max current 1) 12 of
           None \<Rightarrow> None | Some v \<Rightarrow> word_number rest tot v (consumed + 1) True)
      else if token = lit ''score'' then
        (case checked_mul u128_max (max current 1) 20 of
           None \<Rightarrow> None | Some v \<Rightarrow> word_number rest tot v (consumed + 1) True)
      else if word_in token [''hundred'', ''cent''] then
        (case checked_mul u128_max (max current 1) 100 of
           None \<Rightarrow> None | Some v \<Rightarrow> word_number rest tot v (consumed + 1) True)
      else case number_scale token of
        Some scale \<Rightarrow>
          (case Option.bind (checked_mul u128_max (max current 1) scale) (checked_add u128_max tot) of
             None \<Rightarrow> None | Some v \<Rightarrow> word_number rest v 0 (consumed + 1) True)
      | None \<Rightarrow>
          (case number_atom (token # rest) of
             None \<Rightarrow> end_number tot current consumed saw
           | Some (atom, k) \<Rightarrow>
               (case checked_add u128_max current atom of
                  None \<Rightarrow> None
                | Some v \<Rightarrow> word_number (drop (k - 1) rest) tot v (consumed + k) True)))"
  by pat_completeness auto
termination
  by (relation "measure (\<lambda>p. length (fst p))") auto

definition parse_word_number :: "rstr list \<Rightarrow> (nat \<times> nat) option" where
  "parse_word_number tokens = word_number tokens 0 0 0 False"

text \<open>A number read from words has consumed a word, so the loop over the tokens advances.\<close>

lemma number_atom_consumes: "number_atom ts = Some (v, k) \<Longrightarrow> 1 \<le> k"
  by (auto simp: number_atom_def split: list.splits if_splits)

lemma word_number_step:
  assumes "word_number (token # rest) s c n saw = Some (v, k)"
  shows "end_number s c n saw = Some (v, k) \<or>
    (\<exists>ts s' c' m. length ts \<le> length rest \<and> n < m \<and> word_number ts s' c' m True = Some (v, k))"
proof -
  have go: "word_number ts s' c' m True = Some (v, k) \<Longrightarrow> length ts \<le> length rest \<Longrightarrow> n < m \<Longrightarrow>
      ?thesis" for ts s' c' m
    by blast
  show ?thesis
    using assms number_atom_consumes [of "token # rest"]
    by (auto split: if_splits option.splits simp del: One_nat_def elim!: go)
qed

lemma word_number_consumes:
  "word_number ts s c n saw = Some (v, k) \<Longrightarrow> n \<le> k \<and> (saw \<or> n < k)"
proof (induction "length ts" arbitrary: ts s c n saw rule: less_induct)
  case less
  show ?case
  proof (cases ts)
    case Nil
    with less.prems show ?thesis by (auto simp: end_number_def split: if_splits)
  next
    case (Cons token rest)
    from word_number_step [OF less.prems [unfolded Cons]] show ?thesis
    proof
      assume "end_number s c n saw = Some (v, k)"
      then show ?thesis by (auto simp: end_number_def split: if_splits)
    next
      assume "\<exists>ts s' c' m. length ts \<le> length rest \<and> n < m \<and>
        word_number ts s' c' m True = Some (v, k)"
      then obtain ts' s' c' m where "length ts' \<le> length rest" "n < m"
          "word_number ts' s' c' m True = Some (v, k)"
        by blast
      with less.hyps [of ts' s' c' m True] show ?thesis
        by (simp add: Cons)
    qed
  qed
qed

lemma parse_word_number_consumes: "parse_word_number ts = Some (v, k) \<Longrightarrow> 0 < k"
  using word_number_consumes [of ts 0 0 0 False] by (simp add: parse_word_number_def)

definition alphanumeric_tokens :: "unicode \<Rightarrow> rstr \<Rightarrow> rstr list" where
  "alphanumeric_tokens u text = split_on (\<lambda>c. \<not> uc_alphanumeric u c) text"

function word_values :: "rstr list \<Rightarrow> rstr list" where
  "word_values [] = []"
| "word_values (token # rest) =
     (if list_ex is_ascii_digit token then word_values rest
      else case parse_word_number (token # rest) of
        Some (v, consumed) \<Rightarrow> show_nat v # word_values (drop (consumed - 1) rest)
      | None \<Rightarrow> word_values rest)"
  by pat_completeness auto
termination
  by (relation "measure length") auto

definition numeric_values :: "unicode \<Rightarrow> rstr \<Rightarrow> rstr list" where
  "numeric_values u text =
     numeric_literal_values text @
     word_values (map (uc_lowercase u) (filter (\<lambda>t. t \<noteq> []) (alphanumeric_tokens u text)))"

subsection \<open>Claims\<close>

text \<open>
  The claim a marker follows: the suffix after the last sentence boundary. A point between two
  digits is a decimal point. The scan goes backwards; \<open>acc\<close> is what lies between it and the
  marker.
\<close>

definition sentence_boundary :: "rstr \<Rightarrow> uchar \<Rightarrow> rstr \<Rightarrow> bool" where
  "sentence_boundary before c after \<longleftrightarrow>
     c = 10 \<or> c = 33 \<or> c = 63 \<or>
     c = 46 \<and> \<not> (next_is is_ascii_digit before \<and> next_is is_ascii_digit after)"

fun last_claim :: "rstr \<Rightarrow> rstr \<Rightarrow> rstr" where
  "last_claim acc [] = acc"
| "last_claim acc (c # before) =
     (if sentence_boundary before c acc then acc else last_claim (c # acc) before)"

definition immediately_preceding_claim :: "rstr \<Rightarrow> rstr" where
  "immediately_preceding_claim prefix = last_claim [] (rev prefix)"

definition is_polarity_token :: "rstr \<Rightarrow> bool" where
  "is_polarity_token token \<longleftrightarrow>
     word_in token [''no'', ''not'', ''never'', ''without'', ''aucun'', ''jamais'', ''pas'', ''sans'']"

definition is_stop_word :: "rstr \<Rightarrow> bool" where
  "is_stop_word token \<longleftrightarrow>
     word_in token
       [''a'', ''an'', ''and'', ''are'', ''as'', ''at'', ''be'', ''by'', ''for'', ''from'', ''in'', ''is'',
        ''it'', ''of'', ''on'', ''or'', ''that'', ''the'', ''this'', ''to'', ''was'', ''were'', ''with'',
        ''au'', ''aux'', ''ce'', ''ces'', ''dans'', ''de'', ''des'', ''du'', ''et'', ''est'', ''la'',
        ''le'', ''les'', ''par'', ''pour'', ''que'', ''qui'', ''sur'', ''une'']"

definition meaningful_tokens :: "unicode \<Rightarrow> rstr \<Rightarrow> rstr list" where
  "meaningful_tokens u text =
     filter (\<lambda>t. (2 \<le> str_len t \<or> list_ex is_ascii_digit t) \<and> \<not> is_stop_word t \<and>
                 \<not> is_number_component t)
       (map (uc_lowercase u) (alphanumeric_tokens u text))"

definition claim_of :: "rstr \<Rightarrow> rstr" where
  "claim_of prefix =
     (let claim = trim (immediately_preceding_claim prefix);
          claim = (case strip_prefix claim (lit ''- '') of
              Some c \<Rightarrow> c
            | None \<Rightarrow> (case strip_prefix claim (lit ''* '') of Some c \<Rightarrow> c | None \<Rightarrow> claim))
      in trim (dropWhile (\<lambda>c. c = 58 \<or> c = 59) claim))"

definition claim_supported :: "unicode \<Rightarrow> rstr \<Rightarrow> rstr \<Rightarrow> bool" where
  "claim_supported u claim evidence \<longleftrightarrow>
     (let evidence_numbers = set (numeric_values u evidence);
          claim_tokens = meaningful_tokens u claim;
          evidence_tokens = set (meaningful_tokens u evidence);
          matched = length (filter (\<lambda>t. t \<in> evidence_tokens) claim_tokens);
          required = max (div_ceil (min (length claim_tokens * 2) usize_max) 3) 1
      in list_all (\<lambda>n. n \<in> evidence_numbers) (numeric_values u claim) \<and> claim_tokens \<noteq> [] \<and>
         list_all (\<lambda>t. t \<in> evidence_tokens) (filter is_polarity_token claim_tokens) \<and>
         required \<le> matched)"

definition claim_is_supported_by :: "unicode \<Rightarrow> nat \<Rightarrow> rstr \<Rightarrow> rstr \<Rightarrow> bool" where
  "claim_is_supported_by u marker_start response evidence \<longleftrightarrow>
     (case get_prefix response marker_start of
        None \<Rightarrow> False
      | Some prefix \<Rightarrow> claim_supported u (claim_of prefix) evidence)"

subsection \<open>Extraction\<close>

record citation =
  ct_source_id :: uuid
  ct_chunk_index :: int
  ct_text :: rstr
  ct_relevance_score :: rfloat
  ct_section_header :: "rstr option"
  ct_page_number :: "nat option"
  ct_timestamp_start :: "rfloat option"
  ct_timestamp_end :: "rfloat option"
  ct_video_id :: "rstr option"
  ct_citation_url :: "rstr option"

definition citation_new :: "uuid \<Rightarrow> int \<Rightarrow> rstr \<Rightarrow> rfloat \<Rightarrow> chunk_provenance \<Rightarrow> citation" where
  "citation_new source chunk text score p =
     \<lparr>ct_source_id = source, ct_chunk_index = chunk, ct_text = text, ct_relevance_score = score,
      ct_section_header = prov_section_header p, ct_page_number = prov_page_number p,
      ct_timestamp_start = prov_timestamp_start p, ct_timestamp_end = prov_timestamp_end p,
      ct_video_id = prov_video_id p, ct_citation_url = prov_citation_url p\<rparr>"

type_synonym located_citation = "citation \<times> nat"

record extracted_citations =
  xc_citations :: "located_citation list"
  xc_rejected :: nat

text \<open>
  What one marker resolves to: the 0-based chunk it may cite, or None for each of the reasons
  the code rejects it. \<open>active\<close> is the map of active generations, absent when there is none to
  check against.
\<close>

definition marker_target ::
  "unicode \<Rightarrow> rstr \<Rightarrow> citable_chunk list \<Rightarrow> (uuid \<Rightarrow> uuid option) option \<Rightarrow> (nat \<times> nat) list \<Rightarrow>
   nat \<times> rstr \<Rightarrow> nat option" where
  "marker_target u response chunks active ranges marker =
     (if is_in_code_range (fst marker) ranges then None
      else case parse_uint usize_max (snd marker) of
        None \<Rightarrow> None
      | Some index \<Rightarrow>
          if index = 0 then None
          else if length chunks \<le> index - 1 then None
          else
            let chunk = chunks ! (index - 1) in
            if cc_generation_id chunk = 0 then None
            else if (case active of
                None \<Rightarrow> False
              | Some a \<Rightarrow> a (cc_source_id chunk) \<noteq> Some (cc_generation_id chunk)) then None
            else if \<not> owns_chunk (provenance_read (cc_metadata chunk)) (cc_chunk_index chunk)
                (cc_content chunk) then None
            else if active \<noteq> None \<and>
                \<not> claim_is_supported_by u (fst marker) response (cc_content chunk) then None
            else Some (index - 1))"

definition located :: "citable_chunk list \<Rightarrow> nat \<Rightarrow> nat \<Rightarrow> located_citation" where
  "located chunks i start =
     (let chunk = chunks ! i in
      (citation_new (cc_source_id chunk) (cc_chunk_index chunk) (truncate_text (cc_content chunk) 200)
         (cc_relevance_score chunk) (provenance_read (cc_metadata chunk)), start))"

fun extract_loop ::
  "(nat \<times> rstr \<Rightarrow> nat option) \<Rightarrow> citable_chunk list \<Rightarrow> nat set \<Rightarrow> (nat \<times> rstr) list \<Rightarrow> extracted_citations" where
  "extract_loop target chunks seen [] = \<lparr>xc_citations = [], xc_rejected = 0\<rparr>"
| "extract_loop target chunks seen (m # ms) =
     (case target m of
        None \<Rightarrow>
          (let r = extract_loop target chunks seen ms in r\<lparr>xc_rejected := xc_rejected r + 1\<rparr>)
      | Some i \<Rightarrow>
          if i \<in> seen then extract_loop target chunks seen ms
          else
            (let r = extract_loop target chunks (insert i seen) ms
             in r\<lparr>xc_citations := located chunks i (fst m) # xc_citations r\<rparr>))"

definition extract_with_generations ::
  "unicode \<Rightarrow> rstr \<Rightarrow> citable_chunk list \<Rightarrow> (uuid \<Rightarrow> uuid option) option \<Rightarrow> extracted_citations" where
  "extract_with_generations u response chunks active =
     extract_loop (marker_target u response chunks active (find_code_ranges response)) chunks {}
       (find_markers u 0 response)"

definition extract_citations_verified ::
  "unicode \<Rightarrow> rstr \<Rightarrow> citable_chunk list \<Rightarrow> extracted_citations" where
  "extract_citations_verified u response chunks = extract_with_generations u response chunks None"

definition extract_citations_verified_against_active ::
  "unicode \<Rightarrow> rstr \<Rightarrow> citable_chunk list \<Rightarrow> (uuid \<Rightarrow> uuid option) \<Rightarrow> extracted_citations" where
  "extract_citations_verified_against_active u response chunks active =
     extract_with_generations u response chunks (Some active)"

definition extract_citations :: "unicode \<Rightarrow> rstr \<Rightarrow> citable_chunk list \<Rightarrow> citation list" where
  "extract_citations u response chunks =
     map fst (xc_citations (extract_citations_verified u response chunks))"

subsection \<open>The ranges are ordered and apart\<close>

lemma skip_line_position:
  "fst (skip_line p) + length (snd (skip_line p)) = fst p + length (snd p)"
proof -
  have "length (takeWhile P xs) + length (dropWhile P xs) = length xs" for P and xs :: "nat list"
    by (induction xs) auto
  then show ?thesis by (simp add: skip_line_def add.assoc)
qed

lemma close_fence_position:
  "fst (close_fence i bs) + length (snd (close_fence i bs)) = i + length bs"
proof (induction i bs rule: close_fence.induct)
  case (2 i b bs)
  show ?case
  proof (cases "b = 10 \<and> take 3 bs = [96, 96, 96]")
    case True
    then have "3 \<le> length bs" by (metis length_Cons list.size(3) length_take min.cobounded1
      numeral_3_eq_3 min_def nat_le_linear)
    with True show ?thesis by (simp add: skip_line_position)
  qed (use 2 in auto)
qed simp

definition ranges_within :: "nat \<Rightarrow> nat \<Rightarrow> (nat \<times> nat) list \<Rightarrow> bool" where
  "ranges_within lo hi rs \<longleftrightarrow>
     sorted_wrt (\<lambda>r s. snd r \<le> fst s) rs \<and> (\<forall>r \<in> set rs. lo \<le> fst r \<and> fst r < snd r \<and> snd r \<le> hi)"

lemma ranges_within_Cons:
  "ranges_within j hi rs \<Longrightarrow> lo \<le> i \<Longrightarrow> i < j \<Longrightarrow> j \<le> hi \<Longrightarrow> ranges_within lo hi ((i, j) # rs)"
  by (fastforce simp: ranges_within_def)

lemma ranges_within_mono: "ranges_within j hi rs \<Longrightarrow> lo \<le> j \<Longrightarrow> ranges_within lo hi rs"
  by (fastforce simp: ranges_within_def)

lemma take_2_length: "take 2 bs = [x, y] \<Longrightarrow> 2 \<le> length bs"
  by (cases bs; cases "tl bs") auto

lemma code_ranges_within: "ranges_within i (i + length bs) (code_ranges i bs)"
proof (induction i bs rule: code_ranges.induct)
  case (1 i)
  show ?case by (simp add: ranges_within_def)
next
  case (2 i b bs)
  let ?o = "skip_line (i + 3, drop 2 bs)"
  let ?c = "close_fence (fst ?o) (snd ?o)"
  let ?j = "i + 1 + length (takeWhile (\<lambda>b. b \<noteq> 96) bs)"
  let ?r = "dropWhile (\<lambda>b. b \<noteq> 96) bs"
  consider (fence) "b = 96 \<and> take 2 bs = [96, 96]"
    | (closed) "\<not> (b = 96 \<and> take 2 bs = [96, 96])" "b = 96" "?r \<noteq> []"
    | (opened) "\<not> (b = 96 \<and> take 2 bs = [96, 96])" "b = 96" "?r = []"
    | (plain) "b \<noteq> 96" by blast
  then show ?case
  proof cases
    case fence
    have "fst ?c + length (snd ?c) = i + length (b # bs)"
      using close_fence_position [of "fst ?o" "snd ?o"] skip_line_position [of "(i + 3, drop 2 bs)"]
        take_2_length [of bs] fence by simp
    moreover have "i + 3 \<le> fst ?c"
      using calculation length_close_fence [of "fst ?o" "snd ?o"]
        length_skip_line [of "(i + 3, drop 2 bs)"] take_2_length [of bs] fence by simp
    ultimately show ?thesis
      using "2.IH"(1) [OF fence refl refl] fence
      by (simp add: Let_def ranges_within_Cons)
  next
    case closed
    have "?j + length ?r = i + length (b # bs)"
      using skip_line_position [of "(0, bs)"] by (metis (no_types, lifting) add.assoc length_Cons
        length_append plus_1_eq_Suc takeWhile_dropWhile_id)
    then have len: "?j + 1 + length (tl ?r) = i + length (b # bs)"
      using closed(3) by (cases ?r) auto
    have "code_ranges i (b # bs) = (i, ?j + 1) # code_ranges (?j + 1) (tl ?r)"
      using closed by (simp add: Let_def)
    moreover have "ranges_within (?j + 1) (i + length (b # bs)) (code_ranges (?j + 1) (tl ?r))"
      using "2.IH"(2) [OF closed(1,2) refl refl closed(3)] unfolding len .
    ultimately show ?thesis
      using len by (simp add: ranges_within_Cons del: code_ranges.simps)
  next
    case opened
    then have tw: "takeWhile (\<lambda>b. b \<noteq> 96) bs = bs"
      by (simp add: dropWhile_eq_Nil_conv takeWhile_eq_all_conv)
    have "?j = i + length (b # bs)" by (simp add: tw)
    with opened show ?thesis by (simp add: Let_def ranges_within_Cons ranges_within_def)
  next
    case plain
    with 2 have "ranges_within (i + 1) (i + 1 + length bs) (code_ranges (i + 1) bs)" by simp
    with plain show ?thesis by (auto intro: ranges_within_mono)
  qed
qed

subsection \<open>Markers are in the answer\<close>

lemma find_markers_sound:
  "(start, ds) \<in> set (find_markers u off s) \<Longrightarrow>
    \<exists>before after. s = before @ [91] @ ds @ [93] @ after \<and> start = off + str_len before \<and>
      ds \<noteq> [] \<and> (\<forall>d \<in> set ds. uc_decimal u d)"
proof (induction u off s rule: find_markers.induct)
  case (2 u off c cs)
  let ?ds = "takeWhile (uc_decimal u) cs" and ?rest = "dropWhile (uc_decimal u) cs"
  have cs: "cs = ?ds @ ?rest" by simp
  show ?case
  proof (cases "c = 91 \<and> ?ds \<noteq> [] \<and> ?rest \<noteq> [] \<and> hd ?rest = 93")
    case True
    then obtain tail where rest: "?rest = 93 # tail" by (cases ?rest) auto
    have s: "c # cs = [91] @ ?ds @ [93] @ tail" using True rest cs by simp
    from True "2.prems" consider "start = off" "ds = ?ds"
      | "(start, ds) \<in> set (find_markers u (off + 1 + str_len ?ds + 1) (tl ?rest))"
      by (auto simp: Let_def)
    then show ?thesis
    proof cases
      case 1
      moreover have "\<forall>d \<in> set ?ds. uc_decimal u d" by (auto dest: set_takeWhileD)
      ultimately show ?thesis
        using True s by (intro exI [of _ "[]"] exI [of _ tail]) simp
    next
      case 2
      with "2.IH"(1) [OF refl refl True] rest obtain before after where
        "tail = before @ [91] @ ds @ [93] @ after" "start = off + 1 + str_len ?ds + 1 + str_len before"
        "ds \<noteq> []" "\<forall>d \<in> set ds. uc_decimal u d" by auto
      then show ?thesis
        using s by (intro exI [of _ "[91] @ ?ds @ [93] @ before"] exI [of _ after])
          (simp add: len_utf8_def)
    qed
  next
    case False
    with "2.prems" have "(start, ds) \<in> set (find_markers u (off + len_utf8 c) cs)"
      by (auto simp: Let_def split: if_splits)
    with "2.IH"(2) [OF refl refl False] obtain before after where
      "cs = before @ [91] @ ds @ [93] @ after" "start = off + len_utf8 c + str_len before"
      "ds \<noteq> []" "\<forall>d \<in> set ds. uc_decimal u d" by auto
    then show ?thesis by (intro exI [of _ "c # before"] exI [of _ after]) simp
  qed
qed simp

subsection \<open>The extraction as a whole\<close>

text \<open>The pairs with a first component not seen before, as a reference for the loop.\<close>

fun firsts :: "nat set \<Rightarrow> (nat \<times> nat) list \<Rightarrow> (nat \<times> nat) list" where
  "firsts seen [] = []"
| "firsts seen ((i, start) # ps) =
     (if i \<in> seen then firsts seen ps else (i, start) # firsts (insert i seen) ps)"

lemma set_firsts: "set (firsts seen ps) \<subseteq> set ps"
  by (induction seen ps rule: firsts.induct) auto

lemma fst_firsts: "fst ` set (firsts seen ps) = fst ` set ps - seen"
  by (induction seen ps rule: firsts.induct) (auto simp: image_iff)

lemma distinct_firsts: "distinct (map fst (firsts seen ps))"
proof (induction seen ps rule: firsts.induct)
  case (2 seen i start ps)
  then show ?case
    using fst_firsts [of "insert i seen" ps] by (auto simp flip: set_map)
qed simp

definition resolved :: "(nat \<times> rstr \<Rightarrow> nat option) \<Rightarrow> (nat \<times> rstr) list \<Rightarrow> (nat \<times> nat) list" where
  "resolved target ms = List.map_filter (\<lambda>m. map_option (\<lambda>i. (i, fst m)) (target m)) ms"

lemma resolved_simps [simp]:
  "resolved target [] = []"
  "target m = None \<Longrightarrow> resolved target (m # ms) = resolved target ms"
  "target m = Some i \<Longrightarrow> resolved target (m # ms) = (i, fst m) # resolved target ms"
  by (simp_all add: resolved_def map_filter_simps)

lemma extract_loop_eq:
  "xc_citations (extract_loop target chunks seen ms) =
     map (\<lambda>(i, start). located chunks i start) (firsts seen (resolved target ms)) \<and>
   xc_rejected (extract_loop target chunks seen ms) + length (resolved target ms) = length ms"
  by (induction target chunks seen ms rule: extract_loop.induct)
    (auto simp: Let_def split: option.splits)

lemma resolved_member:
  "(i, start) \<in> set (resolved target ms) \<longleftrightarrow> (\<exists>ds. (start, ds) \<in> set ms \<and> target (start, ds) = Some i)"
  by (induction ms) (auto simp: resolved_def map_filter_simps split: option.splits)

lemma marker_target_Some:
  assumes "marker_target u response chunks active ranges m = Some i"
  shows "\<not> is_in_code_range (fst m) ranges" and "parse_uint usize_max (snd m) = Some (i + 1)"
    and "i < length chunks" and "cc_generation_id (chunks ! i) \<noteq> 0"
    and "\<And>a. active = Some a \<Longrightarrow> a (cc_source_id (chunks ! i)) = Some (cc_generation_id (chunks ! i))"
    and "owns_chunk (provenance_read (cc_metadata (chunks ! i))) (cc_chunk_index (chunks ! i))
      (cc_content (chunks ! i))"
    and "\<And>a. active = Some a \<Longrightarrow> claim_is_supported_by u (fst m) response (cc_content (chunks ! i))"
  using assms by (auto simp: marker_target_def Let_def split: if_splits option.splits)

subsection \<open>Properties\<close>

text \<open>
  C24. No citation without its justification: every citation resolved against the active
  generations comes from a marker \<open>[N]\<close> that stands in the answer at the recorded offset,
  outside every code range, whose number names a chunk of this turn; that chunk belongs to the
  active generation of its source, its metadata own its text, and the claim before the marker
  is carried by it.
\<close>

theorem citations_are_justified:
  assumes "(c, start) \<in> set (xc_citations
    (extract_citations_verified_against_active u response chunks active))"
  shows "\<exists>before ds after i.
    response = before @ [91] @ ds @ [93] @ after \<and> start = str_len before \<and>
    \<not> is_in_code_range start (find_code_ranges response) \<and>
    parse_uint usize_max ds = Some (i + 1) \<and> i < length chunks \<and>
    c = fst (located chunks i start) \<and> cc_generation_id (chunks ! i) \<noteq> 0 \<and>
    active (cc_source_id (chunks ! i)) = Some (cc_generation_id (chunks ! i)) \<and>
    owns_chunk (provenance_read (cc_metadata (chunks ! i))) (cc_chunk_index (chunks ! i))
      (cc_content (chunks ! i)) \<and>
    claim_supported u (claim_of before) (cc_content (chunks ! i))"
proof -
  let ?target = "marker_target u response chunks (Some active) (find_code_ranges response)"
  obtain i where i: "c = fst (located chunks i start)"
      "(i, start) \<in> set (resolved ?target (find_markers u 0 response))"
    using assms set_firsts [of "{}" "resolved ?target (find_markers u 0 response)"]
      extract_loop_eq [of ?target chunks "{}" "find_markers u 0 response"]
    by (auto simp: extract_citations_verified_against_active_def extract_with_generations_def
        located_def Let_def)
  then obtain ds where ds: "(start, ds) \<in> set (find_markers u 0 response)" "?target (start, ds) = Some i"
    by (auto simp: resolved_member)
  from find_markers_sound [OF ds(1)] obtain before after where
    s: "response = before @ [91] @ ds @ [93] @ after" "start = str_len before" by auto
  note t = marker_target_Some [OF ds(2), simplified]
  have "claim_supported u (claim_of before) (cc_content (chunks ! i))"
    using t(7) s by (simp add: claim_is_supported_by_def)
  with t s i show ?thesis by (intro exI [of _ before] exI [of _ ds] exI [of _ after] exI [of _ i]) simp
qed

definition sample_chunk :: citable_chunk where
  "sample_chunk =
     \<lparr>cc_source_id = 5, cc_generation_id = 9, cc_chunk_index = 0, cc_content = lit ''ab'',
      cc_relevance_score = Fin 1,
      cc_metadata = Some \<lparr>blob_position = Some 0,
        blob_parsed = Some (default_metadata\<lparr>span_start := Some 0, span_end := Some 2\<rparr>)\<rparr>\<rparr>"

lemma sample_target:
  "marker_target ascii_tables (lit ''ab [1]'') [sample_chunk] (Some [5 \<mapsto> 9])
     (find_code_ranges (lit ''ab [1]'')) (3, [49]) = Some 0"
proof -
  have claim: "claim_of (lit ''ab '') = lit ''ab''"
    by (simp add: claim_of_def immediately_preceding_claim_def sentence_boundary_def lit_def trim_def
        trim_start_def trim_end_def is_whitespace_def strip_prefix_def starts_with_def)
  have toks: "alphanumeric_tokens ascii_tables (lit ''ab'') = [lit ''ab'']"
    by (simp add: alphanumeric_tokens_def lit_def ascii_tables_def ascii_alphanumeric_def
        is_ascii_digit_def)
  have low: "uc_lowercase ascii_tables (lit ''ab'') = lit ''ab''"
    by (simp add: ascii_tables_def lit_def ascii_lower_char_def)
  have nc: "\<not> is_number_component (lit ''ab'')" "\<not> is_stop_word (lit ''ab'')"
    "\<not> is_polarity_token (lit ''ab'')"
    by (simp_all add: is_number_component_def is_stop_word_def is_polarity_token_def word_in_def
        number_scale_def number_atom_def number_words_def lit_def is_ascii_digit_def)
  have nums: "numeric_values ascii_tables (lit ''ab'') = []"
    by (simp add: numeric_values_def numeric_literal_values_def toks low)
      (simp add: lit_def close_run_def is_ascii_digit_def next_is_def is_sign_def parse_word_number_def
        word_in_def number_scale_def number_atom_def number_words_def end_number_def)
  have "meaningful_tokens ascii_tables (lit ''ab'') = [lit ''ab'']"
    by (simp add: meaningful_tokens_def toks low nc) (simp add: lit_def len_utf8_def)
  then have "claim_supported ascii_tables (lit ''ab'') (lit ''ab'')"
    by (simp add: claim_supported_def nums nc div_ceil_def usize_max_def)
  moreover have "get_prefix (lit ''ab [1]'') 3 = Some (lit ''ab '')"
    by (simp add: lit_def len_utf8_def)
  ultimately have sup: "claim_is_supported_by ascii_tables 3 (lit ''ab [1]'') (lit ''ab'')"
    by (simp add: claim_is_supported_by_def claim)
  have ranges: "find_code_ranges (lit ''ab [1]'') = []"
    by (simp add: find_code_ranges_def lit_def as_bytes_def encode_char_def)
  show ?thesis
    using sup by (simp add: marker_target_def ranges is_in_code_range_def sample_chunk_def
        provenance_read_def zip_option_def default_metadata_def owns_chunk_def owns_content_def
        is_coherent_def parse_uint_def is_ascii_digit_def usize_max_def try_u32_def u32_max_def Let_def)
      (simp add: lit_def len_utf8_def)
qed

theorem citations_are_justified_witness:
  "\<exists>before ds after. lit ''ab [1]'' = before @ [91] @ ds @ [93] @ after \<and> 3 = str_len before \<and>
     claim_supported ascii_tables (claim_of before) (cc_content sample_chunk)"
proof -
  have "find_markers ascii_tables 0 (lit ''ab [1]'') = [(3, [49])]"
    by (simp add: lit_def ascii_tables_def is_ascii_digit_def len_utf8_def Let_def)
  then have "(fst (located [sample_chunk] 0 3), 3) \<in> set (xc_citations
      (extract_citations_verified_against_active ascii_tables (lit ''ab [1]'') [sample_chunk] [5 \<mapsto> 9]))"
    by (simp add: extract_citations_verified_against_active_def extract_with_generations_def
        sample_target located_def Let_def)
  from citations_are_justified [OF this] show ?thesis by fastforce
qed

text \<open>
  C25. No marker is lost: each is either counted as rejected or resolves to a chunk; the
  citations are the first markers of the chunks resolved to, in the order of the answer, one
  for each chunk.
\<close>

theorem every_marker_is_accounted_for:
  "let target = marker_target u response chunks active (find_code_ranges response);
       markers = find_markers u 0 response; hits = resolved target markers;
       r = extract_with_generations u response chunks active in
   xc_rejected r + length hits = length markers \<and>
   xc_citations r = map (\<lambda>(i, start). located chunks i start) (firsts {} hits) \<and>
   distinct (map fst (firsts {} hits)) \<and>
   fst ` set (firsts {} hits) = fst ` set hits \<and>
   length (xc_citations r) \<le> length chunks"
proof -
  let ?target = "marker_target u response chunks active (find_code_ranges response)"
  let ?hits = "resolved ?target (find_markers u 0 response)"
  have "set (map fst (firsts {} ?hits)) \<subseteq> {..<length chunks}"
    using set_firsts [of "{}" ?hits] marker_target_Some(3)
    by (fastforce simp: resolved_member)
  then have "length (map fst (firsts {} ?hits)) \<le> length chunks"
    using distinct_firsts [of "{}" ?hits]
    by (metis card_lessThan card_mono distinct_card finite_lessThan)
  then show ?thesis
    using extract_loop_eq [of ?target chunks "{}" "find_markers u 0 response"]
      distinct_firsts [of "{}" ?hits] fst_firsts [of "{}" ?hits]
    by (simp add: Let_def extract_with_generations_def)
qed

text \<open>
  The code ranges of a text are in order, apart, not empty and inside the text, so an
  offset lies in at most one of them.
\<close>

lemma code_ranges_ordered:
  "sorted_wrt (\<lambda>r s. snd r \<le> fst s) (find_code_ranges text) \<and>
   list_all (\<lambda>r. fst r < snd r \<and> snd r \<le> str_len text) (find_code_ranges text)"
  using code_ranges_within [of 0 "as_bytes text"]
  by (simp add: find_code_ranges_def ranges_within_def list_all_iff length_as_bytes)

end
