(* ===== verification/Protocol.thy ===== *)
theory Protocol
  imports Citations Formatting "HOL-Library.Word"
begin

text \<open>
  \<open>core/protocol/chat.rs\<close> and \<open>core/protocol/source.rs\<close>: the events of the two streams with
  their names and payloads, and the producer half of a chat stream. A payload is the JSON value
  it becomes; the channel behind the stream is the list of what was sent on it, how much of it
  the client has taken, and whether the client is gone. The lemmas show what sequences of
  events can reach a client, first when one task emits, then when emissions overlap.
\<close>

datatype json =
  JNull
| JBool bool
| JNat nat
| JInt int
| JFloat rfloat
| JStr rstr
| JArr "json list"
| JObj "(rstr \<times> json) list"

definition json_opt :: "('a \<Rightarrow> json) \<Rightarrow> 'a option \<Rightarrow> json" where
  "json_opt f x = (case x of None \<Rightarrow> JNull | Some a \<Rightarrow> f a)"

definition json_uuid :: "uuid \<Rightarrow> json" where "json_uuid u = JStr (uuid_hyphenated u)"

definition jobj :: "(string \<times> json) list \<Rightarrow> json" where
  "jobj kvs = JObj (map (\<lambda>(k, v). (lit k, v)) kvs)"

text \<open>A field that is left out when it is None (\<open>skip_serializing_if\<close>).\<close>

definition opt_field :: "string \<Rightarrow> ('a \<Rightarrow> json) \<Rightarrow> 'a option \<Rightarrow> (string \<times> json) list" where
  "opt_field k f x = (case x of None \<Rightarrow> [] | Some a \<Rightarrow> [(k, f a)])"

subsection \<open>Source events\<close>

record embedding_progress =
  chunks_done :: nat
  chunks_total :: nat

record source_status_data =
  sd_source_id :: uuid
  sd_status :: rstr
  sd_error_message :: "rstr option"
  sd_progress :: "embedding_progress option"

datatype source_event =
  SrcStatus source_status_data
| SrcReady uuid int "rstr list"
| SrcError uuid rstr
| SrcOcrStarted uuid nat
| SrcOcrProgress uuid nat nat
| SrcOcrCompleted uuid nat
| SrcOcrCacheHit uuid
| SrcResync "64 word"

definition status_event :: "uuid \<Rightarrow> rstr \<Rightarrow> rstr option \<Rightarrow> source_event" where
  "status_event source status error_message =
     SrcStatus \<lparr>sd_source_id = source, sd_status = status, sd_error_message = error_message,
       sd_progress = None\<rparr>"

definition status_with_progress :: "uuid \<Rightarrow> rstr \<Rightarrow> nat \<Rightarrow> nat \<Rightarrow> source_event" where
  "status_with_progress source status done_count total_count =
     SrcStatus \<lparr>sd_source_id = source, sd_status = status, sd_error_message = None,
       sd_progress = Some \<lparr>chunks_done = done_count, chunks_total = total_count\<rparr>\<rparr>"

definition ready_event :: "uuid \<Rightarrow> int \<Rightarrow> source_event" where
  "ready_event source chunk_count = SrcReady source chunk_count []"

fun event_source_id :: "source_event \<Rightarrow> uuid option" where
  "event_source_id (SrcStatus d) = Some (sd_source_id d)"
| "event_source_id (SrcReady s _ _) = Some s"
| "event_source_id (SrcError s _) = Some s"
| "event_source_id (SrcOcrStarted s _) = Some s"
| "event_source_id (SrcOcrProgress s _ _) = Some s"
| "event_source_id (SrcOcrCompleted s _) = Some s"
| "event_source_id (SrcOcrCacheHit s) = Some s"
| "event_source_id (SrcResync _) = None"

fun event_type :: "source_event \<Rightarrow> rstr" where
  "event_type (SrcStatus _) = lit ''source:status''"
| "event_type (SrcReady _ _ _) = lit ''source:ready''"
| "event_type (SrcError _ _) = lit ''source:error''"
| "event_type (SrcOcrStarted _ _) = lit ''source:ocr_started''"
| "event_type (SrcOcrProgress _ _ _) = lit ''source:ocr_progress''"
| "event_type (SrcOcrCompleted _ _) = lit ''source:ocr_completed''"
| "event_type (SrcOcrCacheHit _) = lit ''source:ocr_cache_hit''"
| "event_type (SrcResync _) = lit ''source:resync''"

definition progress_json :: "embedding_progress \<Rightarrow> json" where
  "progress_json p = jobj [(''chunks_done'', JNat (chunks_done p)), (''chunks_total'', JNat (chunks_total p))]"

fun source_payload :: "source_event \<Rightarrow> json" where
  "source_payload (SrcStatus d) =
     jobj [(''source_id'', json_uuid (sd_source_id d)), (''status'', JStr (sd_status d)),
             (''error_message'', json_opt JStr (sd_error_message d)),
             (''progress'', json_opt progress_json (sd_progress d))]"
| "source_payload (SrcReady s n degraded) =
     jobj [(''source_id'', json_uuid s), (''chunk_count'', JInt n),
             (''degraded_services'', JArr (map JStr degraded))]"
| "source_payload (SrcError s message) =
     jobj [(''source_id'', json_uuid s), (''message'', JStr message)]"
| "source_payload (SrcOcrStarted s pages) =
     jobj [(''source_id'', json_uuid s), (''total_pages'', JNat pages)]"
| "source_payload (SrcOcrProgress s page pages) =
     jobj [(''source_id'', json_uuid s), (''current_page'', JNat page), (''total_pages'', JNat pages)]"
| "source_payload (SrcOcrCompleted s pages) =
     jobj [(''source_id'', json_uuid s), (''pages_processed'', JNat pages)]"
| "source_payload (SrcOcrCacheHit s) = jobj [(''source_id'', json_uuid s)]"
| "source_payload (SrcResync missed) = jobj [(''missed'', JNat (unat missed))]"

subsection \<open>Chat events\<close>

datatype thinking_stage = RetrievingContext | ReformulatingQuery | Generating

fun thinking_stage_str :: "thinking_stage \<Rightarrow> rstr" where
  "thinking_stage_str RetrievingContext = lit ''retrieving_context''"
| "thinking_stage_str ReformulatingQuery = lit ''reformulating_query''"
| "thinking_stage_str Generating = lit ''generating''"

datatype warning_kind = LowRetrievalQuality

fun warning_kind_str :: "warning_kind \<Rightarrow> rstr" where
  "warning_kind_str LowRetrievalQuality = lit ''low_retrieval_quality''"

datatype chat_system = HistoryTruncated nat | HistorySummarized nat

fun system_json :: "chat_system \<Rightarrow> json" where
  "system_json (HistoryTruncated kept) =
     jobj [(''type'', JStr (lit ''history_truncated'')), (''kept'', JNat kept)]"
| "system_json (HistorySummarized dropped) =
     jobj [(''type'', JStr (lit ''history_summarized'')), (''dropped_count'', JNat dropped)]"

datatype chat_event =
  ChatChunk rstr
| ChatThinking thinking_stage
| ChatSystem chat_system
| ChatWarning warning_kind
| ChatCitation nat uuid
| ChatCitations "citation list"
| ChatMetrics "rfloat option"
| ChatFollowUps "rstr list"
| ChatDone rstr rstr "uuid option"
| ChatError rstr
| ChatShutdown rstr

fun chat_event_name :: "chat_event \<Rightarrow> rstr" where
  "chat_event_name (ChatChunk _) = lit ''chunk''"
| "chat_event_name (ChatThinking _) = lit ''thinking''"
| "chat_event_name (ChatSystem _) = lit ''system''"
| "chat_event_name (ChatWarning _) = lit ''warning''"
| "chat_event_name (ChatCitation _ _) = lit ''citation''"
| "chat_event_name (ChatCitations _) = lit ''citations''"
| "chat_event_name (ChatMetrics _) = lit ''metrics''"
| "chat_event_name (ChatFollowUps _) = lit ''follow_up_suggestions''"
| "chat_event_name (ChatDone _ _ _) = lit ''done''"
| "chat_event_name (ChatError _) = lit ''error''"
| "chat_event_name (ChatShutdown _) = lit ''shutdown''"

definition citation_json :: "citation \<Rightarrow> json" where
  "citation_json c =
     jobj ([(''source_id'', json_uuid (ct_source_id c)), (''chunk_index'', JInt (ct_chunk_index c)),
              (''text'', JStr (ct_text c)), (''relevance_score'', JFloat (ct_relevance_score c))] @
             opt_field ''section_header'' JStr (ct_section_header c) @
             opt_field ''page_number'' JNat (ct_page_number c) @
             opt_field ''timestamp_start'' JFloat (ct_timestamp_start c) @
             opt_field ''timestamp_end'' JFloat (ct_timestamp_end c) @
             opt_field ''video_id'' JStr (ct_video_id c) @
             opt_field ''citation_url'' JStr (ct_citation_url c))"

fun chat_payload :: "chat_event \<Rightarrow> json" where
  "chat_payload (ChatChunk text) = jobj [(''text'', JStr text)]"
| "chat_payload (ChatThinking stage) = jobj [(''stage'', JStr (thinking_stage_str stage))]"
| "chat_payload (ChatSystem s) = system_json s"
| "chat_payload (ChatWarning k) = jobj [(''type'', JStr (warning_kind_str k))]"
| "chat_payload (ChatCitation index source) =
     jobj [(''index'', JNat index), (''source_id'', json_uuid source)]"
| "chat_payload (ChatCitations cs) = jobj [(''citations'', JArr (map citation_json cs))]"
| "chat_payload (ChatMetrics r) = jobj [(''context_relevance'', json_opt JFloat r)]"
| "chat_payload (ChatFollowUps ss) = jobj [(''suggestions'', JArr (map JStr ss))]"
| "chat_payload (ChatDone model prov log_id) =
     jobj [(''model'', JStr model), (''provider'', JStr prov),
             (''rag_log_id'', json_opt json_uuid log_id)]"
| "chat_payload (ChatError m) = jobj [(''message'', JStr m)]"
| "chat_payload (ChatShutdown m) = jobj [(''message'', JStr m)]"

fun is_terminal :: "chat_event \<Rightarrow> bool" where
  "is_terminal (ChatDone _ _ _) = True"
| "is_terminal (ChatError _) = True"
| "is_terminal (ChatShutdown _) = True"
| "is_terminal _ = False"

fun is_citation_event :: "chat_event \<Rightarrow> bool" where
  "is_citation_event (ChatCitation _ _) = True"
| "is_citation_event (ChatCitations _) = True"
| "is_citation_event _ = False"

fun is_chunk_event :: "chat_event \<Rightarrow> bool" where
  "is_chunk_event (ChatChunk _) = True"
| "is_chunk_event _ = False"

subsection \<open>The stream\<close>

definition chat_event_buffer :: nat where "chat_event_buffer = 100"

record chat_stream =
  cs_terminated :: bool
  cs_generation_finished :: bool
  cs_sent :: "chat_event list"
  cs_received :: nat
  cs_closed :: bool

definition stream_new :: chat_stream where
  "stream_new = \<lparr>cs_terminated = False, cs_generation_finished = False, cs_sent = [],
     cs_received = 0, cs_closed = False\<rparr>"

definition phase_drops :: "chat_event \<Rightarrow> chat_stream \<Rightarrow> bool" where
  "phase_drops ev s \<longleftrightarrow>
     is_citation_event ev \<and> \<not> cs_generation_finished s \<or>
     is_chunk_event ev \<and> cs_generation_finished s"

text \<open>
  \<open>emit\<close> first decides on the flags, then sends. Sending waits for room in the channel and
  fails only when the client is gone.
\<close>

definition emit_admit :: "chat_event \<Rightarrow> chat_stream \<Rightarrow> bool \<times> chat_stream" where
  "emit_admit ev s =
     (if phase_drops ev s then (False, s)
      else if is_terminal ev then
        (if cs_terminated s then (False, s) else (True, s\<lparr>cs_terminated := True\<rparr>))
      else (\<not> cs_terminated s, s))"

definition emit_send :: "chat_event \<Rightarrow> chat_stream \<Rightarrow> bool \<times> chat_stream" where
  "emit_send ev s =
     (if cs_closed s then (False, s) else (True, s\<lparr>cs_sent := cs_sent s @ [ev]\<rparr>))"

definition emit :: "chat_event \<Rightarrow> chat_stream \<Rightarrow> bool \<times> chat_stream" where
  "emit ev s = (case emit_admit ev s of (ok, s') \<Rightarrow> if ok then emit_send ev s' else (False, s'))"

definition is_full :: "chat_stream \<Rightarrow> bool" where
  "is_full s \<longleftrightarrow> chat_event_buffer \<le> length (cs_sent s) - cs_received s"

definition try_emit_non_terminal :: "chat_event \<Rightarrow> chat_stream \<Rightarrow> bool \<times> chat_stream" where
  "try_emit_non_terminal ev s =
     (if is_terminal ev then (False, s)
      else if phase_drops ev s then (False, s)
      else if cs_terminated s then (False, s)
      else if cs_closed s \<or> is_full s then (False, s)
      else (True, s\<lparr>cs_sent := cs_sent s @ [ev]\<rparr>))"

definition finish_generation :: "chat_stream \<Rightarrow> chat_stream" where
  "finish_generation s = s\<lparr>cs_generation_finished := True\<rparr>"

definition receive :: "chat_stream \<Rightarrow> chat_stream" where
  "receive s = s\<lparr>cs_received := min (length (cs_sent s)) (cs_received s + 1)\<rparr>"

definition close_client :: "chat_stream \<Rightarrow> chat_stream" where
  "close_client s = s\<lparr>cs_closed := True\<rparr>"

lemmas stream_defs =
  emit_admit_def emit_send_def emit_def try_emit_non_terminal_def finish_generation_def receive_def
  close_client_def

subsection \<open>What reaches a client\<close>

datatype stream_call = Emit chat_event | TryEmit chat_event | Finish | Receive | CloseClient

fun stream_op :: "stream_call \<Rightarrow> chat_stream \<Rightarrow> chat_stream" where
  "stream_op (Emit ev) s = snd (emit ev s)"
| "stream_op (TryEmit ev) s = snd (try_emit_non_terminal ev s)"
| "stream_op Finish s = finish_generation s"
| "stream_op Receive s = receive s"
| "stream_op CloseClient s = close_client s"

definition stream_inv :: "chat_stream \<Rightarrow> bool" where
  "stream_inv s \<longleftrightarrow>
     (\<forall>ev \<in> set (butlast (cs_sent s)). \<not> is_terminal ev) \<and>
     (cs_sent s \<noteq> [] \<and> is_terminal (last (cs_sent s)) \<longrightarrow> cs_terminated s) \<and>
     ((\<exists>ev \<in> set (cs_sent s). is_citation_event ev) \<longrightarrow> cs_generation_finished s) \<and>
     sorted_wrt (\<lambda>a b. \<not> (is_citation_event a \<and> is_chunk_event b)) (cs_sent s)"

lemma stream_inv_new: "stream_inv stream_new"
  by (simp add: stream_inv_def stream_new_def)

lemma not_both: "\<not> (is_citation_event ev \<and> is_chunk_event ev)"
  "\<not> (is_terminal ev \<and> is_citation_event ev)" "\<not> (is_terminal ev \<and> is_chunk_event ev)"
  by (cases ev; simp)+

text \<open>Appending an event that was let through keeps the order of the protocol.\<close>

lemma stream_inv_append:
  assumes "stream_inv s" "\<not> cs_terminated s" "\<not> phase_drops ev s"
    and "is_terminal ev \<Longrightarrow> t" "cs_terminated s \<Longrightarrow> t"
  shows "stream_inv (s\<lparr>cs_sent := cs_sent s @ [ev], cs_terminated := t\<rparr>)"
proof -
  have "\<not> is_terminal x" if "x \<in> set (cs_sent s)" for x
    using assms(1,2) that by (cases "cs_sent s" rule: rev_cases) (auto simp: stream_inv_def)
  then show ?thesis
    using assms not_both [of ev]
    by (auto simp: stream_inv_def phase_drops_def sorted_wrt_append butlast_append)
qed

lemma stream_inv_op: "stream_inv s \<Longrightarrow> stream_inv (stream_op op s)"
proof (induction op s rule: stream_op.induct)
  case (1 ev s)
  have t: "stream_inv (s\<lparr>cs_terminated := True\<rparr>)"
    using 1 by (simp add: stream_inv_def)
  show ?case
  proof (cases "phase_drops ev s \<or> cs_terminated s")
    case True
    then show ?thesis using 1 by (auto simp: stream_defs)
  next
    case False
    then have "stream_inv (s\<lparr>cs_sent := cs_sent s @ [ev], cs_terminated := is_terminal ev\<rparr>)"
      using 1 by (intro stream_inv_append) auto
    with False 1 t show ?thesis
      by (cases "is_terminal ev"; cases "cs_closed s")
        (auto simp: stream_defs elim!: back_subst [of stream_inv])
  qed
next
  case (2 ev s)
  show ?case
  proof (cases "fst (try_emit_non_terminal ev s)")
    case True
    then have "\<not> cs_terminated s" "\<not> phase_drops ev s" "\<not> is_terminal ev"
      by (auto simp: try_emit_non_terminal_def split: if_splits)
    then have "stream_inv (s\<lparr>cs_sent := cs_sent s @ [ev], cs_terminated := False\<rparr>)"
      using 2 by (intro stream_inv_append) auto
    then show ?thesis
      using True by (auto simp: try_emit_non_terminal_def split: if_splits elim!: back_subst [of stream_inv])
  next
    case False
    then show ?thesis using 2 by (auto simp: try_emit_non_terminal_def split: if_splits)
  qed
qed (auto simp: stream_defs stream_inv_def)

lemma stream_inv_run: "stream_inv (fold stream_op ops stream_new)"
proof -
  have "stream_inv s \<Longrightarrow> stream_inv (fold stream_op ops s)" for s
    by (induction ops arbitrary: s) (simp_all add: stream_inv_op)
  then show ?thesis using stream_inv_new by blast
qed

subsection \<open>Overlapping emissions\<close>

text \<open>
  When emissions overlap, a decision and its send are separate steps; \<open>p\<close> are the events let
  through and not sent yet, which \<open>try_emit_non_terminal\<close> gives up when the channel is full. At
  most one terminal event is ever let through.
\<close>

inductive overlap_step :: "chat_stream \<times> chat_event list \<Rightarrow> chat_stream \<times> chat_event list \<Rightarrow> bool" where
  admit: "emit_admit ev s = (True, s') \<Longrightarrow> overlap_step (s, p) (s', p @ [ev])"
| send: "ev \<in> set p \<Longrightarrow> overlap_step (s, p) (snd (emit_send ev s), remove1 ev p)"
| give_up: "ev \<in> set p \<Longrightarrow> overlap_step (s, p) (s, remove1 ev p)"
| other: "op \<in> {Finish, Receive, CloseClient} \<Longrightarrow> overlap_step (s, p) (stream_op op s, p)"

definition terminals :: "chat_stream \<times> chat_event list \<Rightarrow> nat" where
  "terminals sp = length (filter is_terminal (cs_sent (fst sp) @ snd sp))"

definition overlap_inv :: "chat_stream \<times> chat_event list \<Rightarrow> bool" where
  "overlap_inv sp \<longleftrightarrow> terminals sp \<le> of_bool (cs_terminated (fst sp))"

lemma length_filter_remove1:
  "x \<in> set xs \<Longrightarrow> length (filter P (remove1 x xs)) + of_bool (P x) = length (filter P xs)"
  by (induction xs) auto

lemma overlap_inv_step: "overlap_step a b \<Longrightarrow> overlap_inv a \<Longrightarrow> overlap_inv b"
proof (induction rule: overlap_step.induct)
  case (admit ev s s' p)
  then show ?case
    by (cases "is_terminal ev") (auto simp: overlap_inv_def terminals_def emit_admit_def split: if_splits)
next
  case (send ev p s)
  have "terminals (snd (emit_send ev s), remove1 ev p) \<le> terminals (s, p)"
    using length_filter_remove1 [OF send.hyps, of is_terminal]
    by (cases "is_terminal ev"; cases "cs_closed s") (simp_all add: terminals_def emit_send_def)
  moreover have "cs_terminated (snd (emit_send ev s)) = cs_terminated s"
    by (simp add: emit_send_def)
  ultimately show ?case
    using send.prems unfolding overlap_inv_def by simp
next
  case (give_up ev p s)
  then show ?case
    using length_filter_remove1 [OF give_up.hyps, of is_terminal] by (simp add: overlap_inv_def terminals_def)
next
  case (other op s p)
  then show ?case by (auto simp: overlap_inv_def terminals_def stream_defs)
qed

lemma one_terminal_event_overlapping:
  assumes "overlap_step\<^sup>*\<^sup>* (stream_new, []) (s, p)"
  shows "length (filter is_terminal (cs_sent s)) \<le> 1"
proof -
  have "overlap_inv (s, p)"
    using assms
    by (induction rule: rtranclp_induct)
      (auto simp: overlap_inv_def terminals_def stream_new_def dest: overlap_inv_step [unfolded overlap_inv_def])
  then show ?thesis
    by (cases "cs_terminated s") (auto simp: overlap_inv_def terminals_def)
qed

text \<open>
  But "nothing follows it" needs the emissions not to overlap: a chunk that was let through
  just before a terminal event can be sent after it.
\<close>

lemma late_chunk_follows_terminal:
  "\<exists>s. overlap_step\<^sup>*\<^sup>* (stream_new, []) (s, []) \<and> cs_sent s = [ChatError m, ChatChunk t]"
proof -
  let ?t = "stream_new\<lparr>cs_terminated := True\<rparr>"
  let ?s = "?t\<lparr>cs_sent := [ChatError m]\<rparr>"
  let ?e = "?t\<lparr>cs_sent := [ChatError m, ChatChunk t]\<rparr>"
  have "overlap_step (stream_new, []) (stream_new, [] @ [ChatChunk t])"
    by (rule overlap_step.admit) (simp add: emit_admit_def phase_drops_def stream_new_def)
  moreover have "overlap_step (stream_new, [ChatChunk t]) (?t, [ChatChunk t] @ [ChatError m])"
    by (rule overlap_step.admit) (simp add: emit_admit_def phase_drops_def stream_new_def)
  moreover have "overlap_step (?t, [ChatChunk t, ChatError m]) (?s, [ChatChunk t])"
    using overlap_step.send [of "ChatError m" "[ChatChunk t, ChatError m]" ?t]
    by (simp add: emit_send_def stream_new_def)
  moreover have "overlap_step (?s, [ChatChunk t]) (?e, [])"
    using overlap_step.send [of "ChatChunk t" "[ChatChunk t]" ?s]
    by (simp add: emit_send_def stream_new_def)
  ultimately have "overlap_step\<^sup>*\<^sup>* (stream_new, []) (?e, [])"
    by (simp add: converse_rtranclp_into_rtranclp)
  then show ?thesis by (intro exI [of _ ?e]) simp
qed

subsection \<open>Property\<close>

text \<open>
  C26. When one task does whatever it does with a chat stream, each call after the last, only the
  last event sent can be a terminal one, citation events are only sent after the generation phase
  was closed, no text chunk follows a citation, and once the stream is terminated every emission is
  refused and changes nothing. When calls of several tasks overlap, at most one of the events sent
  is terminal; that it is then the last is not promised.
\<close>

theorem chat_stream_protocol:
  "(let s = fold stream_op ops stream_new in
     list_all (\<lambda>ev. \<not> is_terminal ev) (butlast (cs_sent s)) \<and>
     sorted_wrt (\<lambda>a b. \<not> (is_citation_event a \<and> is_chunk_event b)) (cs_sent s) \<and>
     (if list_ex is_citation_event (cs_sent s) then cs_generation_finished s else True) \<and>
     (if cs_terminated s then emit ev s = (False, s) \<and> try_emit_non_terminal ev s = (False, s) else True)) \<and>
   (overlap_step\<^sup>*\<^sup>* (stream_new, []) (s', p) \<longrightarrow> length (filter is_terminal (cs_sent s')) \<le> 1)"
  using stream_inv_run [of ops] one_terminal_event_overlapping [of s' p]
  by (auto simp: stream_inv_def Let_def list_all_iff list_ex_iff emit_def emit_admit_def
      try_emit_non_terminal_def)

theorem chat_stream_protocol_witness:
  "\<exists>s. overlap_step\<^sup>*\<^sup>* (stream_new, []) (s, []) \<and> length (cs_sent s) = 2 \<and>
     length (filter is_terminal (cs_sent s)) \<le> 1"
proof -
  obtain s where s: "overlap_step\<^sup>*\<^sup>* (stream_new, []) (s, [])" "cs_sent s = [ChatError [], ChatChunk []]"
    using late_chunk_follows_terminal by blast
  from chat_stream_protocol [of "[]" "ChatChunk []" s "[]"] s show ?thesis by (auto simp: Let_def)
qed

end
