(* ===== verification/Source_Events.thy ===== *)
theory Source_Events
  imports Protocol Circuit_Breaker
begin

text \<open>
  \<open>services/source_events.rs\<close> and the stream handler of \<open>api/sources.rs\<close>: one channel for
  each notebook with its identifiers and replay buffer, the cleanup of stale channels, and what
  a reconnecting client is sent. The broadcast primitive is a library: a channel counts its
  receivers, and what a receiver is given is a parameter of the handler. The lemmas say exactly
  which events a replay returns, and show the three ways in which events are lost without a
  resync.
\<close>

subsection \<open>Channels\<close>

definition replay_buffer_capacity :: nat where "replay_buffer_capacity = 200"

record sse_cleanup_config =
  sse_cleanup_interval :: nat
  sse_stale_threshold :: nat
  sse_max_channel_age :: nat

definition default_sse_config :: sse_cleanup_config where
  "default_sse_config =
     \<lparr>sse_cleanup_interval = 60 * nanos_per_sec, sse_stale_threshold = 300 * nanos_per_sec,
      sse_max_channel_age = 3600 * nanos_per_sec\<rparr>"

definition env_secs :: "rstr option \<Rightarrow> nat \<Rightarrow> nat" where
  "env_secs v default_secs =
     (case Option.bind v (parse_uint u64_max) of Some n \<Rightarrow> n | None \<Rightarrow> default_secs) * nanos_per_sec"

definition sse_config_from_env :: "rstr option \<Rightarrow> rstr option \<Rightarrow> rstr option \<Rightarrow> sse_cleanup_config" where
  "sse_config_from_env interval stale age =
     \<lparr>sse_cleanup_interval = env_secs interval 60, sse_stale_threshold = env_secs stale 300,
      sse_max_channel_age = env_secs age 3600\<rparr>"

record notebook_channel =
  nc_receivers :: nat
  nc_next_event_id :: "64 word"
  nc_replay_buffer :: "(64 word \<times> source_event) list"
  nc_last_event_time :: nat
  nc_created_at :: nat

definition channel_new :: "nat \<Rightarrow> notebook_channel" where
  "channel_new now =
     \<lparr>nc_receivers = 0, nc_next_event_id = 1, nc_replay_buffer = [], nc_last_event_time = now,
      nc_created_at = now\<rparr>"

type_synonym channels = "uuid \<Rightarrow> notebook_channel option"

definition get_or_create_channel :: "nat \<Rightarrow> uuid \<Rightarrow> channels \<Rightarrow> notebook_channel" where
  "get_or_create_channel now nb chs = (case chs nb of Some c \<Rightarrow> c | None \<Rightarrow> channel_new now)"

definition subscribe :: "nat \<Rightarrow> uuid \<Rightarrow> channels \<Rightarrow> channels" where
  "subscribe now nb chs =
     (let c = get_or_create_channel now nb chs
      in chs(nb \<mapsto> c\<lparr>nc_receivers := nc_receivers c + 1\<rparr>))"

definition push_replay ::
  "(64 word \<times> source_event) \<Rightarrow> (64 word \<times> source_event) list \<Rightarrow> (64 word \<times> source_event) list" where
  "push_replay e buf =
     (if replay_buffer_capacity \<le> length buf then tl buf else buf) @ [e]"

definition broadcast :: "nat \<Rightarrow> uuid \<Rightarrow> source_event \<Rightarrow> channels \<Rightarrow> 64 word \<times> channels" where
  "broadcast now nb ev chs =
     (let c = get_or_create_channel now nb chs; event_id = nc_next_event_id c
      in (event_id,
          chs(nb \<mapsto> c\<lparr>nc_next_event_id := event_id + 1,
                      nc_replay_buffer := push_replay (event_id, ev) (nc_replay_buffer c),
                      nc_last_event_time := now\<rparr>)))"

definition replay_since :: "uuid \<Rightarrow> 64 word \<Rightarrow> channels \<Rightarrow> (64 word \<times> source_event) list" where
  "replay_since nb last_id chs =
     (case chs nb of
        None \<Rightarrow> []
      | Some c \<Rightarrow> filter (\<lambda>e. last_id < fst e) (nc_replay_buffer c))"

definition cleanup :: "uuid \<Rightarrow> channels \<Rightarrow> channels" where
  "cleanup nb chs = chs(nb := None)"

definition keeps_channel :: "sse_cleanup_config \<Rightarrow> nat \<Rightarrow> notebook_channel \<Rightarrow> bool" where
  "keeps_channel cfg now c \<longleftrightarrow>
     (if sse_max_channel_age cfg < now - nc_created_at c then False
      else if nc_receivers c = 0 \<and> sse_stale_threshold cfg < now - nc_last_event_time c then False
      else True)"

definition cleanup_stale_channels :: "sse_cleanup_config \<Rightarrow> nat \<Rightarrow> channels \<Rightarrow> channels" where
  "cleanup_stale_channels cfg now chs =
     (\<lambda>nb. case chs nb of None \<Rightarrow> None | Some c \<Rightarrow> if keeps_channel cfg now c then Some c else None)"

subsection \<open>The broadcasts of the ingestion\<close>

definition broadcast_status :: "nat \<Rightarrow> uuid \<Rightarrow> uuid \<Rightarrow> rstr \<Rightarrow> rstr option \<Rightarrow> channels \<Rightarrow> channels" where
  "broadcast_status now nb source status message chs =
     snd (broadcast now nb (status_event source status message) chs)"

definition broadcast_ready :: "nat \<Rightarrow> uuid \<Rightarrow> uuid \<Rightarrow> int \<Rightarrow> channels \<Rightarrow> channels" where
  "broadcast_ready now nb source n chs = snd (broadcast now nb (ready_event source n) chs)"

definition broadcast_ready_degraded ::
  "nat \<Rightarrow> uuid \<Rightarrow> uuid \<Rightarrow> int \<Rightarrow> rstr list \<Rightarrow> channels \<Rightarrow> channels" where
  "broadcast_ready_degraded now nb source n degraded chs =
     snd (broadcast now nb (SrcReady source n degraded) chs)"

definition broadcast_embedding_progress :: "nat \<Rightarrow> uuid \<Rightarrow> uuid \<Rightarrow> nat \<Rightarrow> nat \<Rightarrow> channels \<Rightarrow> channels" where
  "broadcast_embedding_progress now nb source done_count total_count chs =
     snd (broadcast now nb (status_with_progress source (lit ''embedding'') done_count total_count) chs)"

definition broadcast_error :: "nat \<Rightarrow> uuid \<Rightarrow> uuid \<Rightarrow> rstr \<Rightarrow> channels \<Rightarrow> channels" where
  "broadcast_error now nb source message chs = snd (broadcast now nb (SrcError source message) chs)"

definition broadcast_ocr_started :: "nat \<Rightarrow> uuid \<Rightarrow> uuid \<Rightarrow> nat \<Rightarrow> channels \<Rightarrow> channels" where
  "broadcast_ocr_started now nb source pages chs = snd (broadcast now nb (SrcOcrStarted source pages) chs)"

definition broadcast_ocr_progress :: "nat \<Rightarrow> uuid \<Rightarrow> uuid \<Rightarrow> nat \<Rightarrow> nat \<Rightarrow> channels \<Rightarrow> channels" where
  "broadcast_ocr_progress now nb source page pages chs =
     snd (broadcast now nb (SrcOcrProgress source page pages) chs)"

definition broadcast_ocr_completed :: "nat \<Rightarrow> uuid \<Rightarrow> uuid \<Rightarrow> nat \<Rightarrow> channels \<Rightarrow> channels" where
  "broadcast_ocr_completed now nb source pages chs =
     snd (broadcast now nb (SrcOcrCompleted source pages) chs)"

definition broadcast_ocr_cache_hit :: "nat \<Rightarrow> uuid \<Rightarrow> uuid \<Rightarrow> channels \<Rightarrow> channels" where
  "broadcast_ocr_cache_hit now nb source chs = snd (broadcast now nb (SrcOcrCacheHit source) chs)"

subsection \<open>The stream handler\<close>

record sse_frame =
  sf_event :: rstr
  sf_data :: json
  sf_id :: "64 word option"

definition serialize_sse_event :: "source_event \<Rightarrow> 64 word \<Rightarrow> sse_frame" where
  "serialize_sse_event ev event_id =
     \<lparr>sf_event = event_type ev, sf_data = source_payload ev, sf_id = Some event_id\<rparr>"

text \<open>What a receiver is given: an event, or that it lagged and missed some.\<close>

datatype received = Received "64 word \<times> source_event" | Lagged "64 word"

fun live_frame :: "received \<Rightarrow> sse_frame" where
  "live_frame (Received (event_id, ev)) = serialize_sse_event ev event_id"
| "live_frame (Lagged n) =
     \<lparr>sf_event = event_type (SrcResync n), sf_data = source_payload (SrcResync n), sf_id = None\<rparr>"

definition parse_last_event_id :: "rstr option \<Rightarrow> 64 word option" where
  "parse_last_event_id header = map_option of_nat (Option.bind header (parse_uint u64_max))"

text \<open>
  The replay is read first and the subscription comes after it; \<open>others\<close> is what other tasks
  do to the channels in between, \<open>live\<close> what the new receiver is given until the server shuts
  down or the client leaves.
\<close>

definition source_events_handler ::
  "nat \<Rightarrow> uuid \<Rightarrow> rstr option \<Rightarrow> (channels \<Rightarrow> channels) \<Rightarrow> received list \<Rightarrow> channels \<Rightarrow>
   sse_frame list \<times> channels" where
  "source_events_handler now nb header others live chs =
     (let replay = (case parse_last_event_id header of
            Some last_id \<Rightarrow> replay_since nb last_id chs
          | None \<Rightarrow> [])
      in (map (\<lambda>(event_id, ev). serialize_sse_event ev event_id) replay @ map live_frame live,
          subscribe now nb (others chs)))"

subsection \<open>What a replay returns\<close>

definition numbered :: "source_event list \<Rightarrow> (64 word \<times> source_event) list" where
  "numbered evs = map (\<lambda>i. (of_nat (i + 1), evs ! i)) [0..<length evs]"

lemma length_numbered [simp]: "length (numbered evs) = length evs"
  by (simp add: numbered_def)

lemma numbered_snoc: "numbered (evs @ [ev]) = numbered evs @ [(of_nat (length evs + 1), ev)]"
  by (simp add: numbered_def nth_append)

lemma push_replay_suffix:
  "push_replay e (drop (length xs - replay_buffer_capacity) xs) =
     drop (length (xs @ [e]) - replay_buffer_capacity) (xs @ [e])"
proof (cases "replay_buffer_capacity \<le> length xs")
  case True
  then have "Suc (length xs - 200) = length xs - 199"
    by (simp add: replay_buffer_capacity_def)
  then have "tl (drop (length xs - 200) xs) = drop (length xs - 199) xs"
    by (metis drop_Suc tl_drop)
  with True show ?thesis by (simp add: push_replay_def replay_buffer_capacity_def)
qed (simp add: push_replay_def replay_buffer_capacity_def)

text \<open>
  A run of the registry: what tasks and clients do to the channels, in any order, beside the
  events broadcast to one notebook since its present channel was created.
\<close>

datatype channel_call =
  Subscribed nat uuid
| Departed uuid
| Broadcasted nat uuid source_event
| Removed uuid
| Swept sse_cleanup_config nat

fun channel_op :: "channel_call \<Rightarrow> channels \<Rightarrow> channels" where
  "channel_op (Subscribed now nb) chs = subscribe now nb chs"
| "channel_op (Departed nb) chs = chs(nb := map_option (\<lambda>c. c\<lparr>nc_receivers := nc_receivers c - 1\<rparr>) (chs nb))"
| "channel_op (Broadcasted now nb ev) chs = snd (broadcast now nb ev chs)"
| "channel_op (Removed nb) chs = cleanup nb chs"
| "channel_op (Swept cfg now) chs = cleanup_stale_channels cfg now chs"

fun call_events :: "uuid \<Rightarrow> channel_call \<Rightarrow> source_event list" where
  "call_events nb (Broadcasted now nb' ev) = (if nb' = nb then [ev] else [])"
| "call_events nb _ = []"

definition history_step :: "uuid \<Rightarrow> channel_call \<Rightarrow> channels \<times> source_event list \<Rightarrow> channels \<times> source_event list" where
  "history_step nb call h =
     (let chs = channel_op call (fst h)
      in (chs, if chs nb = None then [] else snd h @ call_events nb call))"

definition channel_history :: "uuid \<Rightarrow> channel_call list \<Rightarrow> channels \<times> source_event list" where
  "channel_history nb calls = fold (history_step nb) calls (\<lambda>_. None, [])"

definition holds_events :: "uuid \<Rightarrow> channels \<times> source_event list \<Rightarrow> bool" where
  "holds_events nb h \<longleftrightarrow>
     (case fst h nb of
        None \<Rightarrow> snd h = []
      | Some c \<Rightarrow> nc_next_event_id c = of_nat (length (snd h) + 1) \<and>
          nc_replay_buffer c = drop (length (snd h) - replay_buffer_capacity) (numbered (snd h)))"

lemma holds_events_step:
  assumes "holds_events nb h" shows "holds_events nb (history_step nb call h)"
proof (cases call)
  case (Broadcasted now nb' ev)
  show ?thesis
  proof (cases "nb' = nb")
    case True
    obtain c where c: "get_or_create_channel now nb (fst h) = c"
      "nc_next_event_id c = of_nat (length (snd h) + 1)"
      "nc_replay_buffer c = drop (length (snd h) - replay_buffer_capacity) (numbered (snd h))"
      using assms by (auto simp: holds_events_def get_or_create_channel_def channel_new_def numbered_def
          split: option.splits)
    then show ?thesis
      using push_replay_suffix [of "(of_nat (length (snd h) + 1), ev)" "numbered (snd h)"] Broadcasted True
      by (simp add: holds_events_def history_step_def broadcast_def numbered_snoc Let_def)
  qed (use assms Broadcasted in \<open>auto simp: holds_events_def history_step_def broadcast_def Let_def split: option.splits\<close>)
qed (use assms in \<open>auto simp: holds_events_def history_step_def subscribe_def get_or_create_channel_def
    channel_new_def numbered_def cleanup_def cleanup_stale_channels_def Let_def split: option.splits if_splits\<close>)

lemma holds_events_history: "holds_events nb (channel_history nb calls)"
proof -
  have "holds_events nb h \<Longrightarrow> holds_events nb (fold (history_step nb) calls h)" for h
    by (induction calls arbitrary: h) (simp_all add: holds_events_step)
  moreover have "holds_events nb (\<lambda>_. None, [])" by (simp add: holds_events_def)
  ultimately show ?thesis unfolding channel_history_def by blast
qed

lemma filter_numbered:
  assumes "length evs < 2 ^ 64"
  shows "filter (\<lambda>e. last_id < fst e) (drop k (numbered evs)) = drop (max k (unat last_id)) (numbered evs)"
proof -
  have small: "unat (of_nat (i + 1) :: 64 word) = i + 1" if "i < length evs" for i
    using that assms by (simp add: unsigned_of_nat take_bit_nat_eq_self del: of_nat_Suc)
  have "filter (\<lambda>e. last_id < fst e) (map f [j..<length evs]) = map f [max j (unat last_id)..<length evs]"
    if f: "f = (\<lambda>i. (of_nat (i + 1), evs ! i))" for f and j
  proof (induction "length evs - j" arbitrary: j)
    case 0
    then show ?case by simp
  next
    case (Suc d j)
    then have j: "j < length evs" by simp
    have "last_id < of_nat (j + 1) \<longleftrightarrow> unat last_id \<le> j"
      using small [OF j] by (simp add: word_less_nat_alt less_Suc_eq_le del: of_nat_Suc)
    then show ?case
      using Suc.hyps(1) [of "Suc j"] Suc.hyps(2) j f
      by (auto simp: upt_conv_Cons max_def not_le simp del: of_nat_Suc)
  qed
  from this [OF refl, of k] show ?thesis
    by (simp add: numbered_def drop_map max_def)
qed

lemma replay_suffix:
  assumes "channel_history nb calls = (chs, evs)" "length evs < 2 ^ 64"
  shows "replay_since nb last_id chs =
      drop (max (length evs - replay_buffer_capacity) (unat last_id)) (numbered evs)"
  using holds_events_history [of nb calls] filter_numbered [OF assms(2)] unfolding assms(1)
  by (auto simp: holds_events_def replay_since_def numbered_def split: option.splits)

subsection \<open>Property\<close>

text \<open>
  C27. Whatever was broadcast, subscribed, removed and swept before, in any notebook: the events
  of a notebook are numbered from 1 since its present channel was created, and a client that
  reconnects with the number of an event of this channel that is at most two hundred behind is
  sent exactly the events after it, each once, in order and with its number.
\<close>

theorem replay_is_recent_suffix:
  assumes "channel_history nb calls = (chs, evs)" "length evs < 2 ^ 64"
    and "length evs \<le> unat last_id + replay_buffer_capacity"
  shows "replay_since nb last_id chs = drop (unat last_id) (numbered evs) \<and>
    (parse_last_event_id header = Some last_id \<longrightarrow>
      fst (source_events_handler t nb header others [] chs) =
        map (\<lambda>(event_id, ev). serialize_sse_event ev event_id) (drop (unat last_id) (numbered evs)))"
proof -
  have "max (length evs - replay_buffer_capacity) (unat last_id) = unat last_id" using assms(3) by linarith
  with replay_suffix [OF assms(1,2), of last_id] show ?thesis by (simp add: source_events_handler_def)
qed

definition sample_calls :: "channel_call list" where
  "sample_calls = [Broadcasted 0 4 (SrcError 6 []), Removed 4, Subscribed 1 4, Broadcasted 1 4 (SrcOcrCacheHit 7),
     Broadcasted 1 5 (SrcError 8 []), Broadcasted 2 4 (SrcError 7 []), Departed 4,
     Broadcasted 2 4 (SrcOcrStarted 7 2)]"

theorem replay_is_recent_suffix_witness:
  "replay_since 4 1 (fst (channel_history 4 sample_calls)) = [(2, SrcError 7 []), (3, SrcOcrStarted 7 2)]"
proof -
  have "snd (channel_history 4 sample_calls) = [SrcOcrCacheHit 7, SrcError 7 [], SrcOcrStarted 7 2]"
    by (simp add: channel_history_def sample_calls_def history_step_def subscribe_def broadcast_def cleanup_def
        get_or_create_channel_def Let_def)
  then have "channel_history 4 sample_calls =
      (fst (channel_history 4 sample_calls), [SrcOcrCacheHit 7, SrcError 7 [], SrcOcrStarted 7 2])"
    by (metis prod.collapse)
  from replay_is_recent_suffix [OF this, of 1]
  show ?thesis by (simp add: numbered_def upt_rec nth_Cons' replay_buffer_capacity_def)
qed

subsection \<open>Events lost without a resync\<close>

text \<open>
  A client that is more than two hundred events behind: the protocol promises it a resync, but the
  events in between are skipped, and the frames are those of the last two hundred alone.
\<close>

lemma evicted_events_are_skipped_silently:
  assumes "channel_history nb calls = (chs, evs)" "length evs < 2 ^ 64"
    and "unat last_id + replay_buffer_capacity < length evs" "parse_last_event_id header = Some last_id"
  shows "fst (source_events_handler t nb header others [] chs) =
    map (\<lambda>(event_id, ev). serialize_sse_event ev event_id) (drop (length evs - replay_buffer_capacity) (numbered evs))"
proof -
  have "max (length evs - replay_buffer_capacity) (unat last_id) = length evs - replay_buffer_capacity"
    using assms(3) by linarith
  with replay_suffix [OF assms(1,2), of last_id] assms(4) show ?thesis by (simp add: source_events_handler_def)
qed

text \<open>
  After the channel was removed (a force-removed channel may have live subscribers) numbering
  starts again, and a client that reconnects with an old identifier is sent nothing of what was
  broadcast since.
\<close>

lemma recreated_channel_hides_new_events:
  assumes "channel_history nb calls = (chs, evs)" "length evs < 2 ^ 64" "length evs \<le> unat last_id"
  shows "replay_since nb last_id chs = []"
  using replay_suffix [OF assms(1,2)] assms(3) by simp

lemma cleanup_removes_subscribed_channel:
  assumes "chs nb = Some c" "sse_max_channel_age cfg < now - nc_created_at c"
  shows "cleanup_stale_channels cfg now chs nb = None"
  using assms by (simp add: cleanup_stale_channels_def keeps_channel_def)

text \<open>
  An event broadcast between the replay and the subscription of the handler is in neither: the
  replay was taken before it, and the receiver only gets what follows the subscription.
\<close>

lemma event_between_replay_and_subscription:
  assumes "parse_last_event_id header = Some last_id"
  shows "fst (source_events_handler t nb header (\<lambda>c. snd (broadcast t nb ev c)) [] chs) =
    map (\<lambda>(event_id, e). serialize_sse_event e event_id) (replay_since nb last_id chs)"
  using assms by (simp add: source_events_handler_def)

text \<open>A channel with no receiver is kept while it is not stale.\<close>

lemma unsubscribed_channel_waits_for_staleness:
  assumes "nc_receivers c = 0" "now - nc_created_at c \<le> sse_max_channel_age cfg"
  shows "keeps_channel cfg now c \<longleftrightarrow> now - nc_last_event_time c \<le> sse_stale_threshold cfg"
  using assms by (auto simp: keeps_channel_def)

end
