(* ===== verification/Chunking.thy ===== *)
theory Chunking
  imports Formatting
begin

text \<open>
  \<open>services/rag/chunking.rs\<close>: cleaning, the layout of the pages, the two passes of splitting
  with headers, pages and spans. The splitter library is a parameter: whether it accepts a
  configuration, and the chunks of a text with their byte offsets; what the code relies on is
  the hypothesis \<open>splitter_ok\<close>, that a chunk is a non-empty passage of the text at its offset.
  The lemmas show that every recorded span slices back to its chunk, that it passes the test
  citation resolution puts it to, and that the pages it names are those that hold its bytes.
\<close>

subsection \<open>Cleaning\<close>

fun crlf_to_lf :: "rstr \<Rightarrow> rstr" where
  "crlf_to_lf [] = []"
| "crlf_to_lf (c # cs) =
     (if c = 13 \<and> cs \<noteq> [] \<and> hd cs = 10 then 10 # crlf_to_lf (tl cs) else c # crlf_to_lf cs)"

definition normalize_content :: "rstr \<Rightarrow> rstr" where
  "normalize_content content =
     map (\<lambda>c. if c = 13 then 10 else c) (crlf_to_lf (filter (\<lambda>c. c \<noteq> 0 \<and> c \<noteq> 12) content))"

fun clean_loop :: "rstr \<Rightarrow> bool \<Rightarrow> rstr list \<Rightarrow> rstr" where
  "clean_loop result prev_empty [] = result"
| "clean_loop result prev_empty (line # ls) =
     (let trimmed = trim line in
      if trimmed = [] then
        (if \<not> prev_empty then clean_loop (result @ [10]) True ls else clean_loop result prev_empty ls)
      else
        clean_loop ((if result \<noteq> [] \<and> \<not> prev_empty then result @ [10] else result) @ trimmed) False ls)"

definition clean_content :: "rstr \<Rightarrow> rstr" where
  "clean_content content = trim (clean_loop [] False (lines (normalize_content content)))"

fun clean_markdown_loop :: "rstr \<Rightarrow> nat \<Rightarrow> rstr list \<Rightarrow> rstr" where
  "clean_markdown_loop result consecutive_empty [] = result"
| "clean_markdown_loop result consecutive_empty (line # ls) =
     (let trimmed_end = trim_end line in
      if trimmed_end = [] then
        (let n = consecutive_empty + 1 in
         clean_markdown_loop (if n \<le> 2 \<and> result \<noteq> [] then result @ [10] else result) n ls)
      else
        clean_markdown_loop
          ((if result \<noteq> [] \<and> consecutive_empty = 0 then result @ [10] else result) @ trimmed_end) 0 ls)"

definition clean_content_markdown :: "rstr \<Rightarrow> rstr" where
  "clean_content_markdown content =
     trim_end (clean_markdown_loop [] 0 (lines (normalize_content content)))"

subsection \<open>Source text and layout\<close>

record source_text =
  st_pages :: "rstr list"
  st_paginated :: bool

definition single_page :: "rstr \<Rightarrow> source_text" where
  "single_page text = \<lparr>st_pages = [text], st_paginated = False\<rparr>"

definition paginated_text :: "rstr list \<Rightarrow> source_text" where
  "paginated_text pages = \<lparr>st_pages = pages, st_paginated = True\<rparr>"

definition page_count :: "source_text \<Rightarrow> nat" where "page_count s = length (st_pages s)"

definition page_separator :: rstr where "page_separator = [10, 10]"

definition joined_text :: "source_text \<Rightarrow> rstr" where
  "joined_text s = join page_separator (st_pages s)"

fun uses_markdown_splitter :: "source_type \<Rightarrow> bool" where
  "uses_markdown_splitter Markdown = True"
| "uses_markdown_splitter Docx = True"
| "uses_markdown_splitter Epub = True"
| "uses_markdown_splitter Youtube = True"
| "uses_markdown_splitter _ = False"

fun parent_chunk_size :: "source_type \<Rightarrow> nat" where
  "parent_chunk_size Pdf = 1024"
| "parent_chunk_size Web = 1024"
| "parent_chunk_size Text = 1024"
| "parent_chunk_size _ = 2048"

definition child_chunk_size :: nat where "child_chunk_size = 256"
definition child_overlap :: nat where "child_overlap = 25"
definition parent_overlap :: nat where "parent_overlap = 0"

record source_layout =
  sl_text :: rstr
  sl_page_starts :: "nat list"
  sl_paginated :: bool

fun build_pages :: "bool \<Rightarrow> rstr list \<Rightarrow> rstr \<Rightarrow> nat list \<Rightarrow> rstr \<times> nat list" where
  "build_pages markdown [] text starts = (text, starts)"
| "build_pages markdown (page # pages) text starts =
     (let cleaned = (if markdown then clean_content_markdown page else clean_content page);
          text' = (if text \<noteq> [] then text @ page_separator else text)
      in build_pages markdown pages (text' @ cleaned) (starts @ [str_len text']))"

definition build_layout :: "source_text \<Rightarrow> source_type \<Rightarrow> source_layout" where
  "build_layout s ty =
     (let (text, starts) = build_pages (uses_markdown_splitter ty) (st_pages s) [] []
      in \<lparr>sl_text = text, sl_page_starts = starts, sl_paginated = st_paginated s\<rparr>)"

text \<open>\<open>partition_point\<close> on the page starts, which ascend: the number of them before the cut.\<close>

definition page_for :: "source_layout \<Rightarrow> nat \<Rightarrow> nat option" where
  "page_for l off =
     (if \<not> sl_paginated l then None
      else try_u32 (max (length (takeWhile (\<lambda>start. start \<le> off) (sl_page_starts l))) 1))"

definition pages_for :: "source_layout \<Rightarrow> nat \<Rightarrow> nat \<Rightarrow> nat option \<times> nat option" where
  "pages_for l s e = (page_for l s, page_for l (max (e - 1) s))"

subsection \<open>Headers\<close>

definition heading_text :: "rstr \<Rightarrow> rstr option" where
  "heading_text line =
     (let trimmed = trim line; hashes = length (takeWhile (\<lambda>c. c = 35) trimmed);
          rest = drop hashes trimmed
      in if 1 \<le> hashes \<and> hashes \<le> 4 \<and> rest \<noteq> [] \<and> hd rest = 32 then Some (trim rest) else None)"

record header_scanner =
  hs_cursor :: nat
  hs_last :: "rstr option"

definition scanner_new :: header_scanner where "scanner_new = \<lparr>hs_cursor = 0, hs_last = None\<rparr>"

definition header_at :: "rstr \<Rightarrow> nat \<Rightarrow> rstr \<Rightarrow> header_scanner \<Rightarrow> rstr option \<times> header_scanner" where
  "header_at text off chunk h =
     (let h = (if hs_cursor h < off
               then \<lparr>hs_cursor = off,
                     hs_last = fold (\<lambda>line acc. case heading_text line of Some x \<Rightarrow> Some x | None \<Rightarrow> acc)
                       (lines (slice text (hs_cursor h) off)) (hs_last h)\<rparr>
               else h);
          own = (case lines chunk of [] \<Rightarrow> None | l # _ \<Rightarrow> heading_text l);
          h = (if own \<noteq> None then h\<lparr>hs_last := own\<rparr> else h)
      in (hs_last h, h))"

subsection \<open>The two passes\<close>

record splitter =
  sp_accepts :: "nat \<Rightarrow> nat \<Rightarrow> bool"
  sp_chunks :: "bool \<Rightarrow> nat \<Rightarrow> nat \<Rightarrow> rstr \<Rightarrow> (nat \<times> rstr) list"

definition splitter_ok :: "splitter \<Rightarrow> bool" where
  "splitter_ok sp \<longleftrightarrow>
     (\<forall>md sz ov text off t. (off, t) \<in> set (sp_chunks sp md sz ov text) \<longrightarrow>
       t \<noteq> [] \<and> (\<exists>a b. text = a @ t @ b \<and> str_len a = off))"

definition split_indices ::
  "splitter \<Rightarrow> rstr \<Rightarrow> nat \<Rightarrow> nat \<Rightarrow> bool \<Rightarrow> rag_error + (nat \<times> rstr) list" where
  "split_indices sp text sz overlap markdown =
     (if text = [] then Inr []
      else if \<not> sp_accepts sp sz overlap then Inl (RagInvalidChunkConfig sz overlap)
      else Inr (sp_chunks sp markdown sz overlap text))"

record child_chunk =
  cch_text :: rstr
  cch_metadata :: chunk_metadata

record parent_chunk =
  pch_text :: rstr
  pch_children :: "child_chunk list"
  pch_metadata :: chunk_metadata

definition span_metadata ::
  "source_layout \<Rightarrow> rstr option \<Rightarrow> nat \<Rightarrow> nat \<Rightarrow> nat \<Rightarrow> chunk_metadata" where
  "span_metadata l header pos s e =
     (let (first, last_page) = pages_for l s e in
      default_metadata\<lparr>section_header := header, page_number := first, page_end := last_page,
        md_position := pos, span_start := try_u32 s, span_end := try_u32 e\<rparr>)"

definition child_of ::
  "source_layout \<Rightarrow> rstr option \<Rightarrow> nat \<Rightarrow> nat \<times> rstr \<Rightarrow> child_chunk" where
  "child_of l header parent_offset c =
     (let absolute = parent_offset + fst c in
      \<lparr>cch_text = snd c,
       cch_metadata = span_metadata l header 0 absolute (absolute + str_len (snd c))\<rparr>)"

fun chunk_parents ::
  "splitter \<Rightarrow> source_layout \<Rightarrow> bool \<Rightarrow> header_scanner \<Rightarrow> nat \<Rightarrow> (nat \<times> rstr) list \<Rightarrow>
   rag_error + parent_chunk list" where
  "chunk_parents sp l markdown h n [] = Inr []"
| "chunk_parents sp l markdown h n ((off, parent_text) # parents) =
     (let (header, h') = header_at (sl_text l) off parent_text h in
      case split_indices sp parent_text child_chunk_size child_overlap markdown of
        Inl e \<Rightarrow> Inl e
      | Inr children \<Rightarrow>
          if children = [] then chunk_parents sp l markdown h' n parents
          else
            map_sum (\<lambda>e. e)
              (\<lambda>rest. \<lparr>pch_text = parent_text, pch_children = map (child_of l header off) children,
                 pch_metadata = span_metadata l header (clamp_u32 n) off (off + str_len parent_text)\<rparr> # rest)
              (chunk_parents sp l markdown h' (n + 1) parents))"

definition chunk_source :: "splitter \<Rightarrow> source_text \<Rightarrow> source_type \<Rightarrow> rag_error + parent_chunk list" where
  "chunk_source sp source ty =
     (let l = build_layout source ty; markdown = uses_markdown_splitter ty in
      if sl_text l = [] then Inr []
      else case split_indices sp (sl_text l) (parent_chunk_size ty) parent_overlap markdown of
        Inl e \<Rightarrow> Inl e
      | Inr parents \<Rightarrow> chunk_parents sp l markdown scanner_new 0 parents)"

subsection \<open>Pages\<close>

lemma build_pages_ascending:
  assumes "build_pages md pages body0 starts = (body', starts')"
    and "sorted starts" "\<forall>x \<in> set starts. x \<le> str_len body0"
  shows "sorted starts' \<and> length starts' = length starts + length pages \<and>
    (\<forall>x \<in> set starts'. x \<le> str_len body') \<and> (\<exists>more. starts' = starts @ more)"
  using assms
proof (induction md pages body0 starts rule: build_pages.induct)
  case (2 markdown page pages body starts)
  let ?text = "if body \<noteq> [] then body @ page_separator else body"
  let ?starts = "starts @ [str_len ?text]"
  have le: "\<forall>x \<in> set starts. x \<le> str_len ?text"
    using "2.prems"(3) by force
  then have s: "sorted ?starts" using "2.prems"(2) by (auto simp: sorted_append)
  then show ?case
    using "2.IH" [OF refl refl] "2.prems"(1) le by (fastforce simp: Let_def)
qed auto

lemma first_page_start:
  assumes "build_pages md (page # pages) [] [] = (body, starts)"
  shows "\<exists>more. starts = 0 # more"
proof -
  obtain cleaned where "build_pages md pages cleaned [0] = (body, starts)"
    using assms by (auto simp: Let_def)
  from build_pages_ascending [OF this] show ?thesis by auto
qed

lemma takeWhile_le_mono:
  "x \<le> (y :: nat) \<Longrightarrow> length (takeWhile (\<lambda>s. s \<le> x) ss) \<le> length (takeWhile (\<lambda>s. s \<le> y) ss)"
  by (induction ss) auto

lemma takeWhile_cut:
  fixes ss :: "nat list"
  assumes "k = length (takeWhile (\<lambda>s. s \<le> x) ss)"
  shows "(0 < k \<longrightarrow> ss ! (k - 1) \<le> x) \<and> (k < length ss \<longrightarrow> x < ss ! k)"
proof (intro conjI impI)
  assume "0 < k"
  then have "takeWhile (\<lambda>s. s \<le> x) ss ! (k - 1) = ss ! (k - 1)" "k - 1 < length (takeWhile (\<lambda>s. s \<le> x) ss)"
    using assms by (simp_all add: takeWhile_nth)
  then show "ss ! (k - 1) \<le> x"
    using set_takeWhileD [of "takeWhile (\<lambda>s. s \<le> x) ss ! (k - 1)"] nth_mem by fastforce
next
  assume "k < length ss"
  then show "x < ss ! k"
    using nth_length_takeWhile [of "\<lambda>s. s \<le> x" ss] assms by (simp add: not_le)
qed

text \<open>
  A page number names the page that holds the offset: that page starts at or before it and the
  next one after it.
\<close>

definition on_page :: "source_layout \<Rightarrow> nat \<Rightarrow> nat \<Rightarrow> bool" where
  "on_page l off p \<longleftrightarrow>
     1 \<le> p \<and> p \<le> length (sl_page_starts l) \<and> sl_page_starts l ! (p - 1) \<le> off \<and>
     (p = length (sl_page_starts l) \<or> off < sl_page_starts l ! p)"

definition layout_ok :: "source_layout \<Rightarrow> bool" where
  "layout_ok l \<longleftrightarrow> sorted (sl_page_starts l) \<and> length (sl_page_starts l) \<le> u32_max \<and>
     (sl_page_starts l = [] \<longrightarrow> sl_text l = []) \<and> (\<forall>x xs. sl_page_starts l = x # xs \<longrightarrow> x = 0)"

lemma layout_ok_build:
  assumes "length (st_pages s) \<le> u32_max"
  shows "layout_ok (build_layout s ty)"
proof (cases "build_pages (uses_markdown_splitter ty) (st_pages s) [] []")
  case (Pair body starts)
  have "\<exists>more. starts = 0 # more" if "st_pages s = p # ps" for p ps
    using Pair first_page_start unfolding that by blast
  then show ?thesis
    using build_pages_ascending [OF Pair] assms Pair
    by (cases "st_pages s") (auto simp: build_layout_def layout_ok_def simp del: build_pages.simps(2))
qed

lemma page_for_on_page:
  assumes "layout_ok l" "sl_text l \<noteq> []" "sl_paginated l"
  shows "\<exists>p. page_for l off = Some p \<and> on_page l off p"
proof -
  let ?k = "length (takeWhile (\<lambda>start. start \<le> off) (sl_page_starts l))"
  obtain xs where starts: "sl_page_starts l = 0 # xs"
    using assms(1,2) by (cases "sl_page_starts l") (auto simp: layout_ok_def)
  have k: "1 \<le> ?k" "?k \<le> length (sl_page_starts l)"
    by (simp_all add: starts length_takeWhile_le)
  have "page_for l off = Some ?k"
    using k assms(1,3) by (simp add: page_for_def layout_ok_def max_absorb1)
  moreover have "on_page l off ?k"
    using takeWhile_cut [OF refl, of off "sl_page_starts l"] k by (auto simp: on_page_def)
  ultimately show ?thesis by blast
qed

lemma pages_for_ordered:
  assumes "layout_ok l" "page_for l a = Some p" "page_for l b = Some q" "a \<le> b"
  shows "p \<le> q"
  using takeWhile_le_mono [OF assms(4), of "sl_page_starts l"] assms(2,3)
  by (auto simp: page_for_def split: if_splits)

subsection \<open>Spans\<close>

definition stored :: "chunk_metadata \<Rightarrow> metadata_blob" where
  "stored m = \<lparr>blob_position = Some (md_position m), blob_parsed = Some m\<rparr>"

text \<open>
  What a chunk must satisfy: its span slices the indexed text to its own text, the citation
  check accepts what is stored, and the pages are those of its first and last byte.
\<close>

definition anchored :: "source_layout \<Rightarrow> rstr \<Rightarrow> chunk_metadata \<Rightarrow> bool" where
  "anchored l t m \<longleftrightarrow>
     (\<exists>s e. span_start m = Some s \<and> span_end m = Some e \<and> s < e \<and>
        slice_checked (sl_text l) s e = Some t \<and>
        owns_content (provenance_read (Some (stored m))) t \<and>
        (if sl_paginated l
         then (\<exists>p q. page_number m = Some p \<and> page_end m = Some q \<and> on_page l s p \<and>
           on_page l (e - 1) q)
         else page_number m = None \<and> page_end m = None))"

lemma slice_checked_middle:
  "slice_checked (a @ t @ b) (str_len a) (str_len a + str_len t) = Some t"
  by (simp add: slice_checked_def)

lemma str_len_pos: "t \<noteq> [] \<Longrightarrow> 0 < str_len t"
  by (cases t) auto

lemma anchored_span:
  assumes "layout_ok l" "sl_text l = a @ t @ b" "t \<noteq> []" "str_len (sl_text l) \<le> u32_max"
  shows "anchored l t (span_metadata l h n (str_len a) (str_len a + str_len t))"
proof -
  let ?s = "str_len a" and ?e = "str_len a + str_len t"
  have e: "?s < ?e" "?e \<le> u32_max" "max (?e - 1) ?s = ?e - 1"
    using assms(2-4) str_len_pos [OF assms(3)] by simp_all
  have sl: "slice_checked (sl_text l) ?s ?e = Some t"
    unfolding assms(2) by (rule slice_checked_middle)
  have ne: "sl_text l \<noteq> []" using assms(2,3) by simp
  show ?thesis
  proof (cases "sl_paginated l")
    case False
    then show ?thesis
      using e sl by (simp add: anchored_def span_metadata_def pages_for_def page_for_def owns_content_def
          is_coherent_def provenance_read_def stored_def zip_option_def try_u32_def default_metadata_def)
  next
    case True
    obtain p q where p: "page_for l ?s = Some p" "on_page l ?s p"
      and q: "page_for l (?e - 1) = Some q" "on_page l (?e - 1) q"
      using page_for_on_page [OF assms(1) ne True] by blast
    have "p \<le> q" using pages_for_ordered [OF assms(1) p(1) q(1)] e by simp
    then show ?thesis
      using True e sl p q by (simp add: anchored_def span_metadata_def pages_for_def owns_content_def
          is_coherent_def provenance_read_def stored_def zip_option_def try_u32_def default_metadata_def)
  qed
qed

subsection \<open>The chunks of a source\<close>

definition passage_of :: "rstr \<Rightarrow> nat \<times> rstr \<Rightarrow> bool" where
  "passage_of body c \<longleftrightarrow> snd c \<noteq> [] \<and> (\<exists>a b. body = a @ snd c @ b \<and> str_len a = fst c)"

lemma split_indices_passages:
  assumes "splitter_ok sp" "split_indices sp body n ov md = Inr cs" "c \<in> set cs"
  shows "passage_of body c"
proof -
  have "(fst c, snd c) \<in> set (sp_chunks sp md n ov body)"
    using assms(2,3) by (auto simp: split_indices_def split: if_splits)
  with assms(1) show ?thesis unfolding splitter_ok_def passage_of_def by blast
qed

lemma anchored_passage:
  assumes "layout_ok l" "passage_of (sl_text l) c" "str_len (sl_text l) \<le> u32_max"
  shows "anchored l (snd c) (span_metadata l h n (fst c) (fst c + str_len (snd c)))"
proof -
  obtain a b where "sl_text l = a @ snd c @ b" "snd c \<noteq> []" "str_len a = fst c"
    using assms(2) by (auto simp: passage_of_def)
  with anchored_span [OF assms(1) this(1,2) assms(3), of h n] show ?thesis by simp
qed

lemma passage_of_passage:
  assumes "passage_of body p" "passage_of (snd p) c"
  shows "passage_of body (fst p + fst c, snd c)"
proof -
  obtain a b where "body = a @ snd p @ b" "str_len a = fst p"
    using assms(1) by (auto simp: passage_of_def)
  moreover obtain a' b' where "snd p = a' @ snd c @ b'" "str_len a' = fst c" "snd c \<noteq> []"
    using assms(2) by (auto simp: passage_of_def)
  ultimately have "body = (a @ a') @ snd c @ (b' @ b)" "str_len (a @ a') = fst p + fst c"
    by simp_all
  then show ?thesis using \<open>snd c \<noteq> []\<close> unfolding passage_of_def fst_conv snd_conv by blast
qed

lemma passage_within: "passage_of body c \<Longrightarrow> fst c + str_len (snd c) \<le> str_len body"
  by (auto simp: passage_of_def)

definition within_parent :: "chunk_metadata \<Rightarrow> chunk_metadata \<Rightarrow> bool" where
  "within_parent p c \<longleftrightarrow>
     (\<exists>s e s' e'. span_start p = Some s \<and> span_end p = Some e \<and> span_start c = Some s' \<and>
        span_end c = Some e' \<and> s \<le> s' \<and> e' \<le> e)"

definition parent_ok :: "source_layout \<Rightarrow> parent_chunk \<Rightarrow> bool" where
  "parent_ok l p \<longleftrightarrow>
     anchored l (pch_text p) (pch_metadata p) \<and> pch_children p \<noteq> [] \<and>
     list_all (\<lambda>c. anchored l (cch_text c) (cch_metadata c) \<and>
       within_parent (pch_metadata p) (cch_metadata c)) (pch_children p)"

lemma span_metadata_span [simp]:
  "span_start (span_metadata l h n s e) = try_u32 s" "span_end (span_metadata l h n s e) = try_u32 e"
  by (simp_all add: span_metadata_def split_def Let_def)

lemma parent_ok_passage:
  assumes "layout_ok l" "splitter_ok sp" "str_len (sl_text l) \<le> u32_max"
    and "passage_of (sl_text l) (off, t)" "split_indices sp t n ov md = Inr cs" "cs \<noteq> []"
  shows "parent_ok l \<lparr>pch_text = t, pch_children = map (child_of l h off) cs,
    pch_metadata = span_metadata l h k off (off + str_len t)\<rparr>"
proof -
  have fits: "off + str_len t \<le> u32_max"
    using passage_within [OF assms(4)] assms(3) by simp
  have child: "anchored l (cch_text (child_of l h off c)) (cch_metadata (child_of l h off c)) \<and>
      within_parent (span_metadata l h k off (off + str_len t)) (cch_metadata (child_of l h off c))"
    if "c \<in> set cs" for c
  proof -
    have c: "passage_of t c" by (rule split_indices_passages [OF assms(2,5) that])
    then have "passage_of (sl_text l) (off + fst c, snd c)"
      using passage_of_passage [of "sl_text l" "(off, t)"] assms(4) by simp
    from anchored_passage [OF assms(1) this assms(3)] passage_within [OF c] fits
    show ?thesis by (simp add: child_of_def within_parent_def Let_def)
  qed
  then show ?thesis
    using anchored_passage [OF assms(1,4,3), of h k] assms(6)
    by (auto simp: parent_ok_def list_all_iff)
qed

lemma chunk_parents_ok:
  assumes "chunk_parents sp l md h n parents = Inr ps"
    and "layout_ok l" "splitter_ok sp" "str_len (sl_text l) \<le> u32_max"
    and "\<forall>c \<in> set parents. passage_of (sl_text l) c"
  shows "list_all (parent_ok l) ps"
  using assms
proof (induction parents arbitrary: h n ps)
  case (Cons c parents)
  obtain off t where c: "c = (off, t)" by (cases c)
  obtain header h' where h: "header_at (sl_text l) off t h = (header, h')"
    by (cases "header_at (sl_text l) off t h")
  obtain cs where cs: "split_indices sp t child_chunk_size child_overlap md = Inr cs"
    using Cons.prems(1) by (auto simp: c h split: sum.splits)
  show ?case
  proof (cases "cs = []")
    case True
    then show ?thesis using Cons by (simp add: c h cs)
  next
    case False
    then obtain rest where rest: "chunk_parents sp l md h' (n + 1) parents = Inr rest"
        "ps = \<lparr>pch_text = t, pch_children = map (child_of l header off) cs,
          pch_metadata = span_metadata l header (clamp_u32 n) off (off + str_len t)\<rparr> # rest"
      using Cons.prems(1) by (cases "chunk_parents sp l md h' (n + 1) parents") (auto simp: c h cs)
    moreover have "list_all (parent_ok l) rest"
      using Cons.IH [OF rest(1)] Cons.prems by simp
    ultimately show ?thesis
      using parent_ok_passage [OF Cons.prems(2-4) _ cs False] Cons.prems(5) c by simp
  qed
qed simp

subsection \<open>Properties\<close>

text \<open>
  C30. Every parent and every child that chunking produces carries the exact bytes it
  occupies in the indexed text: the recorded span slices back to its text, a child lies inside
  its parent, what is stored passes the ownership check that citation resolution makes, and for
  a paginated source the first and last page are those that hold its first and last byte. It
  rests on the documented behaviour of the splitter and on sizes that fit 32 bits.
\<close>

theorem chunks_own_their_spans:
  assumes "splitter_ok sp" "chunk_source sp source ty = Inr parents"
    and "length (st_pages source) \<le> u32_max" "str_len (sl_text (build_layout source ty)) \<le> u32_max"
  shows "list_all (parent_ok (build_layout source ty)) parents"
proof -
  let ?l = "build_layout source ty"
  note l = layout_ok_build [OF assms(3), of ty]
  show ?thesis
  proof (cases "sl_text ?l = []")
    case True
    then show ?thesis using assms(2) by (simp add: chunk_source_def Let_def)
  next
    case False
    then obtain cs where cs: "split_indices sp (sl_text ?l) (parent_chunk_size ty) parent_overlap
        (uses_markdown_splitter ty) = Inr cs"
      "chunk_parents sp ?l (uses_markdown_splitter ty) scanner_new 0 cs = Inr parents"
      using assms(2) by (auto simp: chunk_source_def Let_def split: sum.splits)
    have "\<forall>c \<in> set cs. passage_of (sl_text ?l) c"
      using split_indices_passages [OF assms(1) cs(1)] by blast
    then show ?thesis
      by (rule chunk_parents_ok [OF cs(2) l assms(1,4)])
  qed
qed

text \<open>A splitter that returns the text as one chunk satisfies what is assumed of splitters.\<close>

definition whole_splitter :: splitter where
  "whole_splitter = \<lparr>sp_accepts = (\<lambda>n ov. ov < n),
     sp_chunks = (\<lambda>md n ov body. if body = [] then [] else [(0, body)])\<rparr>"

theorem chunks_own_their_spans_witness:
  "\<exists>parents. chunk_source whole_splitter (paginated_text [lit ''ab'', lit ''c'']) Pdf = Inr parents \<and>
     parents \<noteq> [] \<and>
     list_all (parent_ok (build_layout (paginated_text [lit ''ab'', lit ''c'']) Pdf)) parents"
proof -
  let ?src = "paginated_text [lit ''ab'', lit ''c'']"
  have ok: "splitter_ok whole_splitter"
    by (auto simp: splitter_ok_def whole_splitter_def split: if_splits)
  have lay: "build_layout ?src Pdf = \<lparr>sl_text = [97, 98, 10, 10, 99], sl_page_starts = [0, 4],
      sl_paginated = True\<rparr>"
    by (simp add: build_layout_def paginated_text_def clean_content_def normalize_content_def lines_def
        trim_def trim_start_def trim_end_def is_whitespace_def page_separator_def len_utf8_def Let_def
        lit_def)
  have run: "\<exists>parents. chunk_source whole_splitter ?src Pdf = Inr parents \<and> parents \<noteq> []"
    by (simp add: chunk_source_def lay split_indices_def whole_splitter_def parent_overlap_def
        child_chunk_size_def child_overlap_def split_def Let_def)
  then obtain parents where "chunk_source whole_splitter ?src Pdf = Inr parents" "parents \<noteq> []"
    by blast
  moreover have "length (st_pages ?src) \<le> u32_max" "str_len (sl_text (build_layout ?src Pdf)) \<le> u32_max"
    by (simp_all add: lay) (simp_all add: paginated_text_def u32_max_def len_utf8_def)
  ultimately show ?thesis
    using chunks_own_their_spans [OF ok, of ?src Pdf parents] by blast
qed

text \<open>
  A single blank line between two paragraphs does not survive cleaning: both cleaners write the
  same text for two paragraphs as for two lines of one.
\<close>

lemma blank_line_between_paragraphs_is_lost:
  "clean_content [97, 10, 10, 98] = clean_content [97, 10, 98]"
  "clean_content_markdown [97, 10, 10, 98] = clean_content_markdown [97, 10, 98]"
proof -
  have n: "lines (normalize_content [97, 10, 10, 98]) = [[97], [], [98]]"
    "lines (normalize_content [97, 10, 98]) = [[97], [98]]"
    by (simp_all add: normalize_content_def lines_def strip_cr_def)
  have t: "trim [97] = [97]" "trim [98] = [98]" "trim [] = []" "trim_end [97] = [97]"
    "trim_end [98] = [98]" "trim_end [] = []"
    by (simp_all add: trim_def trim_start_def trim_end_def is_whitespace_def)
  show "clean_content [97, 10, 10, 98] = clean_content [97, 10, 98]"
    by (simp add: clean_content_def n t)
  show "clean_content_markdown [97, 10, 10, 98] = clean_content_markdown [97, 10, 98]"
    by (simp add: clean_content_markdown_def n t)
qed

end
