(* ===== verification/Generation.thy ===== *)
theory Generation
  imports Provenance Formatting
begin

text \<open>
  \<open>repositories/generation.rs\<close> and the writing half of \<open>repositories/chunk.rs\<close>: the lifecycle
  of an index generation. The database is the state: the generations, the sources and the
  chunks, with the columns that the statements read or write. An SQL statement of the code is a
  definition with the conditions of its text; a transaction is one step, which is what its row
  locks and its rollback on an error make of it. Constraints of the schema are part of the
  steps: a generation needs its source, deleting one deletes its chunks, and one that a source
  points to cannot be deleted. The width and finiteness check of the vector column is a
  parameter. The lemmas show that an active index is whole, and that nothing but a publication
  or a rollback changes what readers see.
\<close>

subsection \<open>Tables\<close>

datatype generation_state = GenBuilding | GenPublished | GenFailed | GenSuperseded

fun generation_state_as_str :: "generation_state \<Rightarrow> rstr" where
  "generation_state_as_str GenBuilding = lit ''building''"
| "generation_state_as_str GenPublished = lit ''published''"
| "generation_state_as_str GenFailed = lit ''failed''"
| "generation_state_as_str GenSuperseded = lit ''superseded''"

definition generation_state_from :: "rstr \<Rightarrow> generation_state" where
  "generation_state_from s =
     (if s = lit ''published'' then GenPublished else if s = lit ''failed'' then GenFailed
      else if s = lit ''superseded'' then GenSuperseded else GenBuilding)"

lemma generation_state_roundtrip: "generation_state_from (generation_state_as_str st) = st"
  by (cases st) (simp_all add: generation_state_from_def lit_def)

record generation =
  gn_id :: uuid
  gn_source :: uuid
  gn_state :: generation_state
  gn_expected :: "int option"
  gn_stored :: int
  gn_embedding_fp :: rstr
  gn_chunking_fp :: rstr
  gn_provider :: rstr
  gn_model :: rstr
  gn_dimension :: int
  gn_normalization :: rstr
  gn_schema_version :: int
  gn_size_unit :: rstr
  gn_sizer :: rstr
  gn_failure_reason :: "rstr option"
  gn_created_at :: int
  gn_published_at :: "int option"
  gn_failed_at :: "int option"

record stored_chunk =
  sk_id :: uuid
  sk_generation :: uuid
  sk_source :: uuid
  sk_index :: int
  sk_content :: rstr
  sk_context_prefix :: "rstr option"
  sk_parent_content :: "rstr option"
  sk_metadata :: chunk_metadata
  sk_embedding :: "rfloat list option"
  sk_content_hash :: rstr

record source_row =
  sw_active :: "uuid option"
  sw_chunk_count :: int
  sw_status :: rstr
  sw_error :: "rstr option"

record index_db =
  db_generations :: "generation list"
  db_sources :: "uuid \<Rightarrow> source_row option"
  db_chunks :: "stored_chunk list"

definition chunks_of :: "index_db \<Rightarrow> uuid \<Rightarrow> stored_chunk list" where
  "chunks_of db g = filter (\<lambda>c. sk_generation c = g) (db_chunks db)"

definition i32_max :: nat where "i32_max = 2147483647"

definition i32_or_max :: "nat \<Rightarrow> int" where "i32_or_max n = int (min n i32_max)"

definition update_generation :: "(generation \<Rightarrow> bool) \<Rightarrow> (generation \<Rightarrow> generation) \<Rightarrow> index_db \<Rightarrow> index_db" where
  "update_generation P f db =
     db\<lparr>db_generations := map (\<lambda>g. if P g then f g else g) (db_generations db)\<rparr>"

subsection \<open>Building\<close>

definition is_building_of :: "uuid \<Rightarrow> generation \<Rightarrow> bool" where
  "is_building_of source g \<longleftrightarrow> gn_source g = source \<and> gn_state g = GenBuilding"

text \<open>
  \<open>INSERT \<dots> ON CONFLICT DO NOTHING RETURNING id\<close>, with the identifier and the time the
  database fills in; a source that does not exist violates the foreign key.
\<close>

definition claim ::
  "uuid \<Rightarrow> int \<Rightarrow> db_err \<Rightarrow> uuid \<Rightarrow> generation_provenance \<Rightarrow> index_db \<Rightarrow>
   (app_error + uuid option) \<times> index_db" where
  "claim new_id now fk_error source p db =
     (if list_ex (is_building_of source) (db_generations db) then (Inr None, db)
      else if db_sources db source = None then (Inl (Database fk_error), db)
      else
        let e = gp_embedding p; c = gp_chunking p in
        (Inr (Some new_id),
         db\<lparr>db_generations := db_generations db @
              [\<lparr>gn_id = new_id, gn_source = source, gn_state = GenBuilding, gn_expected = None,
                gn_stored = 0, gn_embedding_fp = embedding_fingerprint e,
                gn_chunking_fp = chunking_fingerprint c, gn_provider = ep_provider e,
                gn_model = ep_model e, gn_dimension = i32_or_max (ep_dimension e),
                gn_normalization = normalization_as_str (ep_normalization e),
                gn_schema_version = cp_schema_version c, gn_size_unit = cp_size_unit c,
                gn_sizer = cp_sizer_identity c, gn_failure_reason = None, gn_created_at = now,
                gn_published_at = None, gn_failed_at = None\<rparr>]\<rparr>))"

definition find_building :: "uuid \<Rightarrow> index_db \<Rightarrow> uuid option" where
  "find_building source db =
     map_option gn_id (List.find (is_building_of source) (db_generations db))"

definition record_build_plan :: "uuid \<Rightarrow> int \<Rightarrow> chunking_provenance \<Rightarrow> index_db \<Rightarrow> index_db" where
  "record_build_plan gen expected c db =
     update_generation (\<lambda>g. gn_id g = gen \<and> gn_state g = GenBuilding)
       (\<lambda>g. g\<lparr>gn_expected := Some expected, gn_chunking_fp := chunking_fingerprint c,
              gn_schema_version := cp_schema_version c, gn_size_unit := cp_size_unit c,
              gn_sizer := cp_sizer_identity c\<rparr>) db"

record chunk_with_context =
  cw_content :: rstr
  cw_context_prefix :: "rstr option"
  cw_parent_content :: "rstr option"
  cw_metadata :: chunk_metadata
  cw_content_hash :: rstr

definition check_pairing :: "uuid \<Rightarrow> nat \<Rightarrow> nat \<Rightarrow> app_error + unit" where
  "check_pairing source n m =
     (if n \<noteq> m then
        Inl (Rag (RagVectorStoreFailed (uuid_hyphenated source)
          (lit ''Chunks/embeddings mismatch: '' @ show_nat n @ lit '' chunks, '' @ show_nat m @
           lit '' embeddings'')))
      else Inr ())"

definition is_owned_building :: "uuid \<Rightarrow> uuid \<Rightarrow> generation \<Rightarrow> bool" where
  "is_owned_building gen source g \<longleftrightarrow> gn_id g = gen \<and> gn_source g = source \<and> gn_state g = GenBuilding"

definition lock_building_generation :: "uuid \<Rightarrow> uuid \<Rightarrow> index_db \<Rightarrow> app_error + unit" where
  "lock_building_generation gen source db =
     (if list_ex (is_owned_building gen source) (db_generations db) then Inr ()
      else Inl (Rag (RagVectorStoreFailed (uuid_hyphenated source)
        (lit ''index generation is not owned by this source or is no longer building''))))"

text \<open>One row of the \<open>INSERT \<dots> ON CONFLICT (generation_id, chunk_index) DO UPDATE\<close>.\<close>

definition upsert_chunk :: "stored_chunk \<Rightarrow> stored_chunk list \<Rightarrow> stored_chunk list" where
  "upsert_chunk row cs =
     (if list_ex (\<lambda>c. sk_generation c = sk_generation row \<and> sk_index c = sk_index row) cs
      then map (\<lambda>c. if sk_generation c = sk_generation row \<and> sk_index c = sk_index row
                    then c\<lparr>sk_content := sk_content row, sk_context_prefix := sk_context_prefix row,
                           sk_parent_content := sk_parent_content row, sk_metadata := sk_metadata row,
                           sk_embedding := sk_embedding row, sk_content_hash := sk_content_hash row\<rparr>
                    else c) cs
      else cs @ [row])"

definition chunk_values ::
  "(nat \<Rightarrow> uuid) \<Rightarrow> uuid \<Rightarrow> uuid \<Rightarrow> nat \<Rightarrow> nat \<times> chunk_with_context \<times> rfloat list \<Rightarrow> stored_chunk" where
  "chunk_values fresh gen source base r =
     (case r of (i, c, v) \<Rightarrow>
       \<lparr>sk_id = fresh i, sk_generation = gen, sk_source = source, sk_index = i32_or_max (base + i),
        sk_content = cw_content c, sk_context_prefix = cw_context_prefix c,
        sk_parent_content = cw_parent_content c, sk_metadata = cw_metadata c,
        sk_embedding = Some v, sk_content_hash = cw_content_hash c\<rparr>)"

text \<open>
  A batch: refused as a whole when the pairing or the ownership fails or the vector column does
  not accept a value. The statements of at most 500 rows follow one another in the transaction.
\<close>

definition store_chunk_batch ::
  "(rfloat list \<Rightarrow> db_err option) \<Rightarrow> (nat \<Rightarrow> uuid) \<Rightarrow> uuid \<Rightarrow> uuid \<Rightarrow> chunk_with_context list \<Rightarrow>
   rfloat list list \<Rightarrow> nat \<Rightarrow> index_db \<Rightarrow> (app_error + unit) \<times> index_db" where
  "store_chunk_batch column_rejects fresh gen source chunks embeddings base db =
     (case check_pairing source (length chunks) (length embeddings) of
        Inl e \<Rightarrow> (Inl e, db)
      | Inr _ \<Rightarrow>
          if chunks = [] then (Inr (), db)
          else
            (case lock_building_generation gen source db of
               Inl e \<Rightarrow> (Inl e, db)
             | Inr _ \<Rightarrow>
                 (case List.map_filter column_rejects embeddings of
                    e # _ \<Rightarrow> (Inl (Database e), db)
                  | [] \<Rightarrow>
                      (Inr (),
                       db\<lparr>db_chunks := fold upsert_chunk
                            (map (chunk_values fresh gen source base)
                               (zip [0..<length chunks] (zip chunks embeddings)))
                            (db_chunks db)\<rparr>))))"

definition store_chunks ::
  "(rfloat list \<Rightarrow> db_err option) \<Rightarrow> (nat \<Rightarrow> uuid) \<Rightarrow> uuid \<Rightarrow> uuid \<Rightarrow> chunk_with_context list \<Rightarrow>
   rfloat list list \<Rightarrow> index_db \<Rightarrow> (app_error + unit) \<times> index_db" where
  "store_chunks column_rejects fresh gen source chunks embeddings db =
     store_chunk_batch column_rejects fresh gen source chunks embeddings 0 db"

subsection \<open>Publication\<close>

definition vector_error :: "uuid \<Rightarrow> rstr \<Rightarrow> app_error" where
  "vector_error source reason =
     Rag (RagVectorStoreFailed (uuid_hyphenated source)
       (lit ''generation publication refused: '' @ reason))"

definition count_where :: "(stored_chunk \<Rightarrow> bool) \<Rightarrow> uuid \<Rightarrow> index_db \<Rightarrow> nat" where
  "count_where P gen db = length (filter P (chunks_of db gen))"

definition null_vector :: "stored_chunk \<Rightarrow> bool" where "null_vector c \<longleftrightarrow> sk_embedding c = None"

definition wrong_width :: "int \<Rightarrow> stored_chunk \<Rightarrow> bool" where
  "wrong_width width c \<longleftrightarrow> (case sk_embedding c of None \<Rightarrow> False | Some v \<Rightarrow> int (length v) \<noteq> width)"

definition non_finite_vector :: "stored_chunk \<Rightarrow> bool" where
  "non_finite_vector c \<longleftrightarrow>
     (case sk_embedding c of None \<Rightarrow> False | Some v \<Rightarrow> list_ex (\<lambda>x. \<not> is_finite x) v)"

definition vector_defect :: "uuid \<Rightarrow> int \<Rightarrow> uuid \<Rightarrow> index_db \<Rightarrow> app_error option" where
  "vector_defect gen width source db =
     (let refuse = (\<lambda>n message. Some (vector_error source (show_nat n @ lit '' '' @ message))) in
      if count_where (\<lambda>_. True) gen db = 0 then
        Some (vector_error source (lit ''generation holds zero chunks '' @ [8212] @
          lit '' content produced no indexable text''))
      else if 0 < count_where null_vector gen db then
        refuse (count_where null_vector gen db) (lit ''chunk(s) have no embedding'')
      else if 0 < count_where (wrong_width width) gen db then
        refuse (count_where (wrong_width width) gen db) (lit ''chunk(s) have the wrong embedding width'')
      else if 0 < count_where non_finite_vector gen db then
        refuse (count_where non_finite_vector gen db)
          (lit ''chunk(s) hold a non-finite embedding component'')
      else None)"

definition sync_stored_count :: "uuid \<Rightarrow> index_db \<Rightarrow> index_db" where
  "sync_stored_count gen db =
     update_generation (\<lambda>g. gn_id g = gen) (\<lambda>g. g\<lparr>gn_stored := int (length (chunks_of db gen))\<rparr>) db"

definition is_publishable :: "uuid \<Rightarrow> uuid \<Rightarrow> generation \<Rightarrow> bool" where
  "is_publishable gen source g \<longleftrightarrow>
     gn_id g = gen \<and> gn_source g = source \<and> gn_state g = GenBuilding \<and>
     gn_expected g = Some (gn_stored g) \<and> 0 < gn_stored g"

definition point_source :: "uuid \<Rightarrow> uuid \<Rightarrow> int \<Rightarrow> index_db \<Rightarrow> index_db" where
  "point_source gen source n db =
     (case db_sources db source of
        None \<Rightarrow> db
      | Some s \<Rightarrow> db\<lparr>db_sources := (db_sources db)(source \<mapsto>
          s\<lparr>sw_active := Some gen, sw_chunk_count := n, sw_status := lit ''ready'', sw_error := None\<rparr>)\<rparr>)"

record publication_outcome =
  po_generation_id :: uuid
  po_chunk_count :: int

text \<open>An error leaves the database as it was: the transaction is rolled back.\<close>

definition publish ::
  "int \<Rightarrow> uuid \<Rightarrow> uuid \<Rightarrow> nat \<Rightarrow> index_db \<Rightarrow> (app_error + publication_outcome) \<times> index_db" where
  "publish now gen source expected_dimension db =
     (if \<not> list_ex (is_owned_building gen source) (db_generations db) then
        (Inl (vector_error source (lit ''generation is not owned by this source or is no longer building'')), db)
      else case vector_defect gen (i32_or_max expected_dimension) source db of
        Some e \<Rightarrow> (Inl e, db)
      | None \<Rightarrow>
          let db1 = sync_stored_count gen db in
          (case List.find (is_publishable gen source) (db_generations db1) of
             None \<Rightarrow>
               (Inl (vector_error source (lit ''generation is no longer a building generation of this source, or its stored chunk '' @
                  lit ''count disagrees with the count it declared'')), db)
           | Some g \<Rightarrow>
               (Inr \<lparr>po_generation_id = gen, po_chunk_count = gn_stored g\<rparr>,
                point_source gen source (gn_stored g)
                  (update_generation (is_publishable gen source)
                     (\<lambda>g. g\<lparr>gn_state := GenPublished, gn_published_at := Some now\<rparr>) db1))))"

subsection \<open>Failure\<close>

definition restore_source_status :: "uuid \<Rightarrow> rstr \<Rightarrow> index_db \<Rightarrow> index_db" where
  "restore_source_status source reason db =
     (case db_sources db source of
        None \<Rightarrow> db
      | Some s \<Rightarrow>
          if list_ex (is_building_of source) (db_generations db) then db
          else db\<lparr>db_sources := (db_sources db)(source \<mapsto>
            s\<lparr>sw_status := (if sw_active s = None then lit ''error'' else lit ''ready''),
              sw_error := (if sw_active s = None then Some reason else None)\<rparr>)\<rparr>)"

definition fail_generation :: "int \<Rightarrow> uuid \<Rightarrow> rstr \<Rightarrow> index_db \<Rightarrow> index_db" where
  "fail_generation now gen reason db =
     update_generation (\<lambda>g. gn_id g = gen \<and> gn_state g = GenBuilding)
       (\<lambda>g. g\<lparr>gn_state := GenFailed, gn_failure_reason := Some reason, gn_failed_at := Some now\<rparr>) db"

definition mark_failed :: "int \<Rightarrow> uuid \<Rightarrow> uuid \<Rightarrow> rstr \<Rightarrow> index_db \<Rightarrow> index_db" where
  "mark_failed now gen source reason db =
     restore_source_status source reason (fail_generation now gen reason db)"

definition fail_one_stale :: "int \<Rightarrow> rstr \<Rightarrow> generation \<Rightarrow> nat \<times> index_db \<Rightarrow> nat \<times> index_db" where
  "fail_one_stale now reason stale p =
     (if list_ex (\<lambda>g. gn_id g = gn_id stale \<and> gn_state g = GenBuilding) (db_generations (snd p))
      then (fst p + 1, restore_source_status (gn_source stale) reason
              (fail_generation now (gn_id stale) reason (snd p)))
      else p)"

text \<open>Seconds, as the two statements with intervals use them; times are in seconds too.\<close>

definition fail_stale_builds :: "int \<Rightarrow> int \<Rightarrow> rstr \<Rightarrow> index_db \<Rightarrow> nat \<times> index_db" where
  "fail_stale_builds now older_than_secs reason db =
     fold (fail_one_stale now reason)
       (filter (\<lambda>g. gn_state g = GenBuilding \<and> gn_created_at g < now - older_than_secs)
          (db_generations db))
       (0, db)"

subsection \<open>Rollback and reclaim\<close>

definition generation_of :: "uuid \<Rightarrow> index_db \<Rightarrow> generation option" where
  "generation_of gen db = List.find (\<lambda>g. gn_id g = gen) (db_generations db)"

text \<open>\<open>ORDER BY published_at DESC, id DESC LIMIT 1\<close>; a missing time sorts first.\<close>

definition later_published :: "generation \<Rightarrow> generation \<Rightarrow> bool" where
  "later_published a b \<longleftrightarrow>
     (case (gn_published_at a, gn_published_at b) of
        (None, None) \<Rightarrow> gn_id b < gn_id a
      | (None, Some _) \<Rightarrow> True
      | (Some _, None) \<Rightarrow> False
      | (Some x, Some y) \<Rightarrow> y < x \<or> x = y \<and> gn_id b < gn_id a)"

definition newest_published :: "generation list \<Rightarrow> generation option" where
  "newest_published gs =
     fold (\<lambda>g best. case best of None \<Rightarrow> Some g
                     | Some b \<Rightarrow> if later_published g b then Some g else Some b) gs None"

definition previous_published :: "uuid \<Rightarrow> index_db \<Rightarrow> generation option" where
  "previous_published source db =
     (case Option.bind (db_sources db source) sw_active of
        None \<Rightarrow> None
      | Some a \<Rightarrow>
          (case generation_of a db of
             None \<Rightarrow> None
           | Some active \<Rightarrow>
               newest_published (filter (\<lambda>g. gn_source g = source \<and> gn_state g = GenPublished \<and>
                 gn_id g \<noteq> a \<and> gn_embedding_fp g = gn_embedding_fp active) (db_generations db))))"

definition rollback_to_previous :: "uuid \<Rightarrow> index_db \<Rightarrow> uuid option \<times> index_db" where
  "rollback_to_previous source db =
     (if db_sources db source = None then (None, db)
      else case previous_published source db of
        None \<Rightarrow> (None, db)
      | Some g \<Rightarrow> (Some (gn_id g), point_source (gn_id g) source (gn_stored g) db))"

definition rollback_target :: "uuid \<Rightarrow> source_row \<Rightarrow> index_db \<Rightarrow> uuid" where
  "rollback_target source s db =
     (let fp = (case Option.bind (sw_active s) (\<lambda>a. generation_of a db) of
            None \<Rightarrow> [] | Some g \<Rightarrow> gn_embedding_fp g)
      in case newest_published (filter (\<lambda>p. gn_source p = source \<and> gn_state p = GenPublished \<and>
             sw_active s \<noteq> Some (gn_id p) \<and> gn_embedding_fp p = fp) (db_generations db)) of
           None \<Rightarrow> 0
         | Some p \<Rightarrow> gn_id p)"

definition is_reclaimable :: "int \<Rightarrow> int \<Rightarrow> uuid \<Rightarrow> index_db \<Rightarrow> generation \<Rightarrow> bool" where
  "is_reclaimable now retention_hours source db g \<longleftrightarrow>
     (case db_sources db source of
        None \<Rightarrow> False
      | Some s \<Rightarrow>
          gn_source g = source \<and> sw_active s \<noteq> Some (gn_id g) \<and>
          gn_id g \<noteq> rollback_target source s db \<and>
          gn_created_at g < now - retention_hours * 3600 \<and> gn_state g \<noteq> GenBuilding)"

text \<open>Deleting a generation cascades to its chunks.\<close>

definition delete_generation :: "uuid \<Rightarrow> index_db \<Rightarrow> index_db" where
  "delete_generation gen db =
     db\<lparr>db_generations := filter (\<lambda>g. gn_id g \<noteq> gen) (db_generations db),
       db_chunks := filter (\<lambda>c. sk_generation c \<noteq> gen) (db_chunks db)\<rparr>"

definition reclaim :: "int \<Rightarrow> int \<Rightarrow> uuid \<Rightarrow> index_db \<Rightarrow> nat \<times> index_db" where
  "reclaim now retention_hours source db =
     (let ids = map gn_id (filter (is_reclaimable now retention_hours source db) (db_generations db))
      in (length ids, fold delete_generation ids db))"

definition reclaim_all :: "int \<Rightarrow> int \<Rightarrow> index_db \<Rightarrow> nat \<times> index_db" where
  "reclaim_all now retention_hours db =
     fold (\<lambda>source p. let (n, db') = reclaim now retention_hours source (snd p)
                       in (min u64_max (fst p + n), db'))
       (remdups (map gn_source (filter (\<lambda>g. gn_state g \<noteq> GenBuilding \<and>
          gn_created_at g < now - retention_hours * 3600) (db_generations db))))
       (0, db)"

definition list_for_source :: "uuid \<Rightarrow> index_db \<Rightarrow> uuid list" where
  "list_for_source source db =
     map gn_id (sort_by (\<lambda>a b. cmp_ord (gn_created_at b) (gn_created_at a))
       (filter (\<lambda>g. gn_source g = source) (db_generations db)))"

subsection \<open>Reading\<close>

text \<open>Every read joins the active pointer of the source.\<close>

definition visible_chunks :: "uuid \<Rightarrow> index_db \<Rightarrow> stored_chunk list" where
  "visible_chunks source db =
     (case Option.bind (db_sources db source) sw_active of
        None \<Rightarrow> []
      | Some a \<Rightarrow> filter (\<lambda>c. sk_source c = source \<and> sk_generation c = a) (db_chunks db))"

definition get_for_source :: "uuid \<Rightarrow> index_db \<Rightarrow> (uuid \<times> int \<times> rstr) list" where
  "get_for_source source db =
     map (\<lambda>c. (sk_id c, sk_index c, sk_content c))
       (sort_by (\<lambda>a b. cmp_ord (sk_index a) (sk_index b)) (visible_chunks source db))"

definition get_reusable_embeddings :: "uuid \<Rightarrow> rstr \<Rightarrow> index_db \<Rightarrow> (rstr \<times> rfloat list) list" where
  "get_reusable_embeddings source fp db =
     List.map_filter
       (\<lambda>c. case generation_of (sk_generation c) db of
          None \<Rightarrow> None
        | Some g \<Rightarrow>
            if gn_embedding_fp g = fp \<and> sk_content_hash c \<noteq> []
            then map_option (\<lambda>v. (sk_content_hash c, v)) (sk_embedding c) else None)
       (visible_chunks source db)"

subsection \<open>Runs\<close>

text \<open>The statements that change the tables, with what the database fills in.\<close>

datatype index_op =
    OpClaim uuid int db_err uuid generation_provenance
  | OpPlan uuid int chunking_provenance
  | OpStore "rfloat list \<Rightarrow> db_err option" "nat \<Rightarrow> uuid" uuid uuid "chunk_with_context list"
      "rfloat list list" nat
  | OpPublish int uuid uuid nat
  | OpFail int uuid uuid rstr
  | OpFailStale int int rstr
  | OpRollback uuid
  | OpReclaim int int uuid
  | OpReclaimAll int int

fun run_op :: "index_op \<Rightarrow> index_db \<Rightarrow> index_db" where
  "run_op (OpClaim i now e s p) db = snd (claim i now e s p db)"
| "run_op (OpPlan g n c) db = record_build_plan g n c db"
| "run_op (OpStore r f g s cs vs b) db = snd (store_chunk_batch r f g s cs vs b db)"
| "run_op (OpPublish now g s d) db = snd (publish now g s d db)"
| "run_op (OpFail now g s r) db = mark_failed now g s r db"
| "run_op (OpFailStale now t r) db = snd (fail_stale_builds now t r db)"
| "run_op (OpRollback s) db = snd (rollback_to_previous s db)"
| "run_op (OpReclaim now h s) db = snd (reclaim now h s db)"
| "run_op (OpReclaimAll now h) db = snd (reclaim_all now h db)"

text \<open>The database never hands out an identifier a second time.\<close>

fun admissible :: "index_op \<Rightarrow> index_db \<Rightarrow> bool" where
  "admissible (OpClaim i now e s p) db \<longleftrightarrow> i \<notin> gn_id ` set (db_generations db)"
| "admissible _ db \<longleftrightarrow> True"

inductive index_step :: "index_db \<Rightarrow> index_db \<Rightarrow> bool" where
  run: "admissible op db \<Longrightarrow> index_step db (run_op op db)"

definition fresh_db :: "index_db \<Rightarrow> bool" where
  "fresh_db db \<longleftrightarrow> db_generations db = [] \<and> db_chunks db = [] \<and>
     (\<forall>s row. db_sources db s = Some row \<longrightarrow> sw_active row = None)"

subsection \<open>The invariant\<close>

definition whole :: "stored_chunk list \<Rightarrow> generation \<Rightarrow> bool" where
  "whole cs g \<longleftrightarrow>
     gn_expected g = Some (int (length cs)) \<and> gn_stored g = int (length cs) \<and> cs \<noteq> [] \<and>
     (\<exists>w. \<forall>c\<in>set cs. \<exists>v. sk_embedding c = Some v \<and> int (length v) = w \<and> list_all is_finite v)"

definition chunk_key :: "stored_chunk \<Rightarrow> uuid \<times> int" where
  "chunk_key c = (sk_generation c, sk_index c)"

definition active_of :: "uuid \<Rightarrow> index_db \<Rightarrow> uuid option" where
  "active_of s db = Option.bind (db_sources db s) sw_active"

definition index_ok :: "index_db \<Rightarrow> bool" where
  "index_ok db \<longleftrightarrow>
     distinct (map gn_id (db_generations db)) \<and>
     (\<forall>s. length (filter (is_building_of s) (db_generations db)) \<le> 1) \<and>
     distinct (map chunk_key (db_chunks db)) \<and>
     (\<forall>c\<in>set (db_chunks db). \<exists>g\<in>set (db_generations db).
        gn_id g = sk_generation c \<and> gn_source g = sk_source c) \<and>
     (\<forall>g\<in>set (db_generations db). gn_state g = GenPublished \<longrightarrow> whole (chunks_of db (gn_id g)) g) \<and>
     (\<forall>s a. active_of s db = Some a \<longrightarrow>
        (\<exists>g\<in>set (db_generations db). gn_id g = a \<and> gn_source g = s \<and> gn_state g = GenPublished))"

lemma index_okD:
  assumes "index_ok db"
  shows "distinct (map gn_id (db_generations db))"
    and "length (filter (is_building_of s) (db_generations db)) \<le> 1"
    and "distinct (map chunk_key (db_chunks db))"
    and "c \<in> set (db_chunks db) \<Longrightarrow> \<exists>g\<in>set (db_generations db).
        gn_id g = sk_generation c \<and> gn_source g = sk_source c"
    and "g \<in> set (db_generations db) \<Longrightarrow> gn_state g = GenPublished \<Longrightarrow> whole (chunks_of db (gn_id g)) g"
    and "active_of s db = Some a \<Longrightarrow>
        \<exists>g\<in>set (db_generations db). gn_id g = a \<and> gn_source g = s \<and> gn_state g = GenPublished"
  using assms by (simp_all add: index_ok_def)

lemma same_generation:
  "index_ok db \<Longrightarrow> g \<in> set (db_generations db) \<Longrightarrow> h \<in> set (db_generations db) \<Longrightarrow>
   gn_id g = gn_id h \<Longrightarrow> g = h"
  by (auto simp: index_ok_def distinct_map inj_on_def)

lemma update_generation_simps [simp]:
  "db_sources (update_generation P f db) = db_sources db"
  "db_chunks (update_generation P f db) = db_chunks db"
  "chunks_of (update_generation P f db) g = chunks_of db g"
  "active_of s (update_generation P f db) = active_of s db"
  by (simp_all add: update_generation_def chunks_of_def active_of_def)

lemma generations_update:
  "db_generations (update_generation P f db) = map (\<lambda>g. if P g then f g else g) (db_generations db)"
  by (simp add: update_generation_def)

lemma length_filter_map_le:
  "(\<And>x. x \<in> set xs \<Longrightarrow> P (f x) \<Longrightarrow> P x) \<Longrightarrow> length (filter P (map f xs)) \<le> length (filter P xs)"
  by (induction xs) fastforce+

lemma update_generation_ok:
  assumes ok: "index_ok db"
    and keeps: "\<And>g. g \<in> set (db_generations db) \<Longrightarrow> P g \<Longrightarrow>
      gn_id (f g) = gn_id g \<and> gn_source (f g) = gn_source g \<and> gn_state g = GenBuilding \<and>
      (gn_state (f g) = GenPublished \<longrightarrow> whole (chunks_of db (gn_id g)) (f g))"
  shows "index_ok (update_generation P f db)"
proof -
  let ?h = "\<lambda>g. if P g then f g else g"
  have same: "gn_id (?h g) = gn_id g" "gn_source (?h g) = gn_source g"
      "is_building_of s (?h g) \<Longrightarrow> is_building_of s g"
      "gn_state g = GenPublished \<Longrightarrow> ?h g = g"
    if "g \<in> set (db_generations db)" for g s
    using keeps [OF that] by (auto simp: is_building_of_def split: if_splits)
  note gens = generations_update [of P f db]
  have ids: "map gn_id (map ?h (db_generations db)) = map gn_id (db_generations db)"
    by (simp add: same(1))
  have one: "length (filter (is_building_of s) (map ?h (db_generations db))) \<le> 1" for s
    using length_filter_map_le [of "db_generations db" "is_building_of s" ?h] same(3)
      index_okD(2) [OF ok, of s] by fastforce
  show ?thesis
    unfolding index_ok_def gens ids update_generation_simps
  proof (intro conjI ballI allI impI)
    show "distinct (map gn_id (db_generations db))" by (rule index_okD(1) [OF ok])
    show "length (filter (is_building_of s) (map ?h (db_generations db))) \<le> 1" for s by (rule one)
    show "distinct (map chunk_key (db_chunks db))" by (rule index_okD(3) [OF ok])
  next
    fix c assume "c \<in> set (db_chunks db)"
    from index_okD(4) [OF ok this] show "\<exists>g\<in>set (map ?h (db_generations db)).
        gn_id g = sk_generation c \<and> gn_source g = sk_source c"
      unfolding set_map bex_simps(7) using same(1,2) by (metis (mono_tags, lifting))
  next
    fix g assume "g \<in> set (map ?h (db_generations db))" and "gn_state g = GenPublished"
    then show "whole (chunks_of db (gn_id g)) g"
      using index_okD(5) [OF ok] keeps by (auto split: if_splits)
  next
    fix s a assume "active_of s db = Some a"
    from index_okD(6) [OF ok this] obtain g where g: "g \<in> set (db_generations db)" "gn_id g = a"
        "gn_source g = s" "gn_state g = GenPublished" by blast
    then have "g \<in> set (map ?h (db_generations db))"
      unfolding set_map by (intro image_eqI [of _ _ g]) (use same(4) in auto)
    then show "\<exists>g\<in>set (map ?h (db_generations db)). gn_id g = a \<and> gn_source g = s \<and> gn_state g = GenPublished"
      using g by blast
  qed
qed


lemma update_sources_ok:
  assumes "index_ok db"
    and "\<And>s a. active_of s (db\<lparr>db_sources := f\<rparr>) = Some a \<Longrightarrow> active_of s db \<noteq> Some a \<Longrightarrow>
      \<exists>g\<in>set (db_generations db). gn_id g = a \<and> gn_source g = s \<and> gn_state g = GenPublished"
  shows "index_ok (db\<lparr>db_sources := f\<rparr>)"
proof -
  have "chunks_of (db\<lparr>db_sources := f\<rparr>) = chunks_of db" by (simp add: fun_eq_iff chunks_of_def)
  moreover have "\<exists>g\<in>set (db_generations db). gn_id g = a \<and> gn_source g = s \<and> gn_state g = GenPublished"
    if "active_of s (db\<lparr>db_sources := f\<rparr>) = Some a" for s a
    using that assms(2) index_okD(6) [OF assms(1)] by blast
  ultimately show ?thesis using assms(1) by (simp add: index_ok_def)
qed

lemma active_of_upd [simp]:
  "active_of s (db\<lparr>db_sources := (db_sources db)(s' \<mapsto> r)\<rparr>) =
     (if s = s' then sw_active r else active_of s db)"
  by (simp add: active_of_def)

lemma active_of_point [simp]:
  "active_of s (point_source gen source n db) =
     (if s = source \<and> db_sources db source \<noteq> None then Some gen else active_of s db)"
  by (auto simp: point_source_def active_of_def split: option.splits)

lemma point_source_ok:
  assumes "index_ok db" and "g \<in> set (db_generations db)" and "gn_source g = source"
    and "gn_state g = GenPublished"
  shows "index_ok (point_source (gn_id g) source n db)"
proof (cases "db_sources db source")
  case None
  then show ?thesis using assms(1) by (simp add: point_source_def)
next
  case (Some r)
  then show ?thesis
    unfolding point_source_def
    by simp (rule update_sources_ok [OF assms(1)], use assms in \<open>auto split: if_splits\<close>)
qed

lemma active_of_restore [simp]: "active_of s (restore_source_status source reason db) = active_of s db"
  by (auto simp: restore_source_status_def active_of_def split: option.splits)

lemma restore_source_status_ok: "index_ok db \<Longrightarrow> index_ok (restore_source_status source reason db)"
  unfolding restore_source_status_def
  by (auto split: option.split intro!: update_sources_ok simp: active_of_def split: if_splits)

lemma fail_generation_ok: "index_ok db \<Longrightarrow> index_ok (fail_generation now gen reason db)"
  unfolding fail_generation_def by (rule update_generation_ok) auto

lemma mark_failed_ok: "index_ok db \<Longrightarrow> index_ok (mark_failed now gen source reason db)"
  by (simp add: mark_failed_def restore_source_status_ok fail_generation_ok)

lemma record_build_plan_ok: "index_ok db \<Longrightarrow> index_ok (record_build_plan gen n c db)"
  unfolding record_build_plan_def by (rule update_generation_ok) auto

lemma fail_stale_builds_ok: "index_ok db \<Longrightarrow> index_ok (snd (fail_stale_builds now t reason db))"
  unfolding fail_stale_builds_def
  by (rule fold_keeps [where P = "\<lambda>p. index_ok (snd p)"])
     (auto simp: fail_one_stale_def restore_source_status_ok fail_generation_ok)

lemma claim_ok:
  assumes "index_ok db" and "new_id \<notin> gn_id ` set (db_generations db)"
  shows "index_ok (snd (claim new_id now e source p db))"
proof -
  have old: "length (filter (is_building_of s) (db_generations db)) \<le> 1" for s
    by (rule index_okD(2) [OF assms(1)])
  have none: "filter (is_building_of source) (db_generations db) = []"
    if "\<not> list_ex (is_building_of source) (db_generations db)"
    using that by (auto simp: filter_empty_conv list_ex_iff)
  show ?thesis
    using assms none old
    by (auto simp: claim_def Let_def index_ok_def is_building_of_def chunks_of_def active_of_def)
qed


subsubsection \<open>Chunk rows\<close>

lemma map_chunk_key_upsert:
  "map chunk_key (upsert_chunk row cs) =
     (if chunk_key row \<in> chunk_key ` set cs then map chunk_key cs
      else map chunk_key cs @ [chunk_key row])"
  by (auto simp: upsert_chunk_def chunk_key_def list_ex_iff image_iff) metis

lemma set_upsert_owner:
  "c \<in> set (upsert_chunk row cs) \<Longrightarrow>
     c = row \<or> (\<exists>d\<in>set cs. sk_generation d = sk_generation c \<and> sk_source d = sk_source c)"
  by (auto simp: upsert_chunk_def split: if_splits)

lemma filter_upsert_other:
  "g \<noteq> sk_generation row \<Longrightarrow>
     filter (\<lambda>c. sk_generation c = g) (upsert_chunk row cs) = filter (\<lambda>c. sk_generation c = g) cs"
proof -
  assume "g \<noteq> sk_generation row"
  then have "filter (\<lambda>c. sk_generation c = g) (map (\<lambda>c. if sk_generation c = sk_generation row \<and> P c
      then c\<lparr>sk_content := a, sk_context_prefix := p, sk_parent_content := q, sk_metadata := m,
             sk_embedding := v, sk_content_hash := h\<rparr> else c) cs) =
    filter (\<lambda>c. sk_generation c = g) cs" for P a p q m v h
    by (induction cs) auto
  with \<open>g \<noteq> sk_generation row\<close> show ?thesis by (simp add: upsert_chunk_def)
qed

lemma fold_upsert:
  assumes "\<forall>r\<in>set rows. sk_generation r = gen \<and> sk_source r = source"
    and "distinct (map chunk_key cs)"
  shows "distinct (map chunk_key (fold upsert_chunk rows cs))"
    and "g \<noteq> gen \<Longrightarrow> filter (\<lambda>c. sk_generation c = g) (fold upsert_chunk rows cs) =
           filter (\<lambda>c. sk_generation c = g) cs"
    and "c \<in> set (fold upsert_chunk rows cs) \<Longrightarrow>
           (sk_generation c = gen \<and> sk_source c = source) \<or>
           (\<exists>d\<in>set cs. sk_generation d = sk_generation c \<and> sk_source d = sk_source c)"
  using assms
proof (induction rows arbitrary: cs)
  case Nil
  { case 1 then show ?case by simp next
    case 2 then show ?case by simp next
    case 3 then show ?case by auto }
next
  case (Cons r rows)
  have d: "distinct (map chunk_key (upsert_chunk r cs))" if "distinct (map chunk_key cs)" for cs
    using that by (auto simp: map_chunk_key_upsert)
  { case 1 then show ?case using Cons.IH(1) d by simp next
    case 2 then show ?case using Cons.IH(2) d filter_upsert_other by simp next
    case (3 cs)
    from 3 have "c \<in> set (fold upsert_chunk rows (upsert_chunk r cs))" by simp
    from Cons.IH(3) [OF this] 3(2) d [OF 3(3)]
    have "sk_generation c = gen \<and> sk_source c = source \<or>
        (\<exists>d\<in>set (upsert_chunk r cs). sk_generation d = sk_generation c \<and> sk_source d = sk_source c)"
      by simp
    moreover have "sk_generation r = gen \<and> sk_source r = source" using 3(2) by simp
    ultimately show ?case using set_upsert_owner [of _ r cs] by metis }
qed

lemma store_ok:
  assumes "index_ok db" and "list_ex (is_owned_building gen source) (db_generations db)"
    and "\<forall>r\<in>set rows. sk_generation r = gen \<and> sk_source r = source"
  shows "index_ok (db\<lparr>db_chunks := fold upsert_chunk rows (db_chunks db)\<rparr>)"
proof -
  let ?db = "db\<lparr>db_chunks := fold upsert_chunk rows (db_chunks db)\<rparr>"
  obtain b where b: "b \<in> set (db_generations db)" "gn_id b = gen" "gn_source b = source"
      "gn_state b = GenBuilding"
    using assms(2) by (auto simp: list_ex_iff is_owned_building_def)
  note rows = fold_upsert [OF assms(3) index_okD(3) [OF assms(1)]]
  have act: "active_of s ?db = active_of s db" for s by (simp add: active_of_def)
  have whole: "whole (chunks_of ?db (gn_id g)) g"
    if "g \<in> set (db_generations db)" "gn_state g = GenPublished" for g
  proof -
    have "gn_id g \<noteq> gen" using same_generation [OF assms(1) that(1) b(1)] that(2) b(2,4) by auto
    then have "chunks_of ?db (gn_id g) = chunks_of db (gn_id g)"
      by (simp add: chunks_of_def rows(2))
    then show ?thesis using index_okD(5) [OF assms(1) that] by simp
  qed
  have owner: "\<exists>g\<in>set (db_generations db). gn_id g = sk_generation c \<and> gn_source g = sk_source c"
    if "c \<in> set (fold upsert_chunk rows (db_chunks db))" for c
    using rows(3) [OF that] index_okD(4) [OF assms(1)] b by metis
  show ?thesis
    using assms(1) whole owner rows(1) by (simp add: index_ok_def act)
qed

lemma chunk_values_owner:
  "sk_generation (chunk_values fresh gen source base r) = gen"
  "sk_source (chunk_values fresh gen source base r) = source"
  by (auto simp: chunk_values_def split: prod.split)

lemma store_chunk_batch_cases:
  "snd (store_chunk_batch cr fresh gen source cs vs base db) = db \<or>
   (list_ex (is_owned_building gen source) (db_generations db) \<and>
    (\<exists>rows. (\<forall>r\<in>set rows. sk_generation r = gen \<and> sk_source r = source) \<and>
       snd (store_chunk_batch cr fresh gen source cs vs base db) =
         db\<lparr>db_chunks := fold upsert_chunk rows (db_chunks db)\<rparr>))"
  unfolding store_chunk_batch_def lock_building_generation_def
  by (auto split: sum.split list.split intro!: exI simp: chunk_values_owner)

lemma store_chunk_batch_ok:
  "index_ok db \<Longrightarrow> index_ok (snd (store_chunk_batch cr fresh gen source cs vs base db))"
  using store_chunk_batch_cases [of cr fresh gen source cs vs base db] store_ok by metis

subsubsection \<open>Reclaim and rollback\<close>

lemma delete_simps [simp]:
  "db_sources (delete_generation gen db) = db_sources db"
  "active_of s (delete_generation gen db) = active_of s db"
  "db_generations (delete_generation gen db) = filter (\<lambda>g. gn_id g \<noteq> gen) (db_generations db)"
  "db_chunks (delete_generation gen db) = filter (\<lambda>c. sk_generation c \<noteq> gen) (db_chunks db)"
  by (simp_all add: delete_generation_def active_of_def)

lemma chunks_of_delete: "g \<noteq> gen \<Longrightarrow> chunks_of (delete_generation gen db) g = chunks_of db g"
  unfolding chunks_of_def delete_simps filter_filter by (rule filter_cong) auto

lemma delete_generation_ok:
  assumes ok: "index_ok db" and free: "\<And>s. active_of s db \<noteq> Some gen"
  shows "index_ok (delete_generation gen db)"
proof -
  have one: "length (filter (is_building_of s) (filter (\<lambda>g. gn_id g \<noteq> gen) (db_generations db))) \<le> 1" for s
    using index_okD(2) [OF ok, of s] length_filter_le [of "\<lambda>g. gn_id g \<noteq> gen"
      "filter (is_building_of s) (db_generations db)"]
    by (simp add: conj_commute)
  have owner: "\<exists>g\<in>set (db_generations db). gn_id g \<noteq> gen \<and> gn_id g = sk_generation c \<and> gn_source g = sk_source c"
    if "c \<in> set (db_chunks db)" "sk_generation c \<noteq> gen" for c
    using index_okD(4) [OF ok that(1)] that(2) by metis
  have act: "\<exists>g\<in>set (db_generations db). gn_id g \<noteq> gen \<and> gn_id g = a \<and> gn_source g = s \<and> gn_state g = GenPublished"
    if "active_of s db = Some a" for s a
    using index_okD(6) [OF ok that] free [of s] that by metis
  show ?thesis
    unfolding index_ok_def delete_simps
    using index_okD(1,3,5) [OF ok] one owner act
    by (auto simp: distinct_map_filter chunks_of_delete) (metis, metis)
qed

lemma fold_delete_ok:
  "index_ok db \<Longrightarrow> (\<And>s. \<forall>i\<in>set ids. active_of s db \<noteq> Some i) \<Longrightarrow>
   index_ok (fold delete_generation ids db)"
  by (induction ids arbitrary: db) (simp_all add: delete_generation_ok)

lemma fold_delete_simps [simp]:
  "active_of s (fold delete_generation ids db) = active_of s db"
  "db_sources (fold delete_generation ids db) = db_sources db"
  "db_chunks (fold delete_generation ids db) = filter (\<lambda>c. sk_generation c \<notin> set ids) (db_chunks db)"
  by (induction ids arbitrary: db) (auto intro!: filter_cong)

lemma reclaimable_not_active:
  assumes "index_ok db" and "g \<in> set (db_generations db)"
    and "is_reclaimable now hours source db g"
  shows "active_of s db \<noteq> Some (gn_id g)"
proof
  assume a: "active_of s db = Some (gn_id g)"
  from index_okD(6) [OF assms(1) a] have "gn_source g = s"
    using same_generation [OF assms(1) _ assms(2)] by blast
  then show False
    using a assms(3) by (auto simp: is_reclaimable_def active_of_def split: option.splits)
qed

lemma reclaim_ok: "index_ok db \<Longrightarrow> index_ok (snd (reclaim now hours source db))"
  by (auto simp: reclaim_def Let_def intro!: fold_delete_ok dest: reclaimable_not_active)

lemma newest_published_in: "newest_published gs = Some g \<Longrightarrow> g \<in> set gs"
proof -
  have "fold (\<lambda>g best. case best of None \<Rightarrow> Some g
          | Some b \<Rightarrow> if later_published g b then Some g else Some b) gs acc = Some g \<Longrightarrow>
        g \<in> set gs \<or> acc = Some g" for acc
    by (induction gs arbitrary: acc) (auto split: option.splits if_splits)
  then show "newest_published gs = Some g \<Longrightarrow> g \<in> set gs" by (auto simp: newest_published_def)
qed

lemma previous_publishedD:
  "previous_published source db = Some g \<Longrightarrow>
   g \<in> set (db_generations db) \<and> gn_source g = source \<and> gn_state g = GenPublished"
  by (auto simp: previous_published_def split: option.splits dest!: newest_published_in)

lemma rollback_ok: "index_ok db \<Longrightarrow> index_ok (snd (rollback_to_previous source db))"
  by (auto simp: rollback_to_previous_def split: option.split
      dest!: previous_publishedD intro: point_source_ok)


subsubsection \<open>Publication\<close>

definition sound_vectors :: "int \<Rightarrow> stored_chunk list \<Rightarrow> bool" where
  "sound_vectors w cs \<longleftrightarrow> cs \<noteq> [] \<and>
     (\<forall>c\<in>set cs. \<exists>v. sk_embedding c = Some v \<and> int (length v) = w \<and> list_all is_finite v)"

lemma whole_iff:
  "whole cs g \<longleftrightarrow> gn_expected g = Some (gn_stored g) \<and> gn_stored g = int (length cs) \<and>
     (\<exists>w. sound_vectors w cs)"
  by (auto simp: whole_def sound_vectors_def)

lemma vector_defect_None:
  assumes "vector_defect gen width source db = None"
  shows "sound_vectors width (chunks_of db gen)"
proof -
  have zero: "count_where P gen db = 0 \<longleftrightarrow> (\<forall>c\<in>set (chunks_of db gen). \<not> P c)" for P
    by (auto simp: count_where_def filter_empty_conv)
  from assms have n: "chunks_of db gen \<noteq> []" "count_where null_vector gen db = 0"
      "count_where (wrong_width width) gen db = 0" "count_where non_finite_vector gen db = 0"
    by (auto simp: vector_defect_def Let_def count_where_def split: if_splits)
  show ?thesis
    unfolding sound_vectors_def
  proof (intro conjI ballI)
    fix c assume "c \<in> set (chunks_of db gen)"
    with n(2-4) have "\<not> null_vector c" "\<not> wrong_width width c" "\<not> non_finite_vector c"
      unfolding zero by auto
    then show "\<exists>v. sk_embedding c = Some v \<and> int (length v) = width \<and> list_all is_finite v"
      by (auto simp: null_vector_def wrong_width_def non_finite_vector_def list_ex_iff list_all_iff)
  qed (rule n(1))
qed

lemma sync_stored_count_ok:
  assumes "index_ok db" and "list_ex (is_owned_building gen source) (db_generations db)"
  shows "index_ok (sync_stored_count gen db)"
proof -
  obtain b where b: "b \<in> set (db_generations db)" "gn_id b = gen" "gn_state b = GenBuilding"
    using assms(2) by (auto simp: list_ex_iff is_owned_building_def)
  show ?thesis
    unfolding sync_stored_count_def
    by (rule update_generation_ok [OF assms(1)]) (use same_generation [OF assms(1) b(1)] b in auto)
qed

lemma synced:
  assumes "g \<in> set (db_generations (sync_stored_count gen db))" and "gn_id g = gen"
  shows "gn_stored g = int (length (chunks_of db gen))"
proof -
  from assms(1) obtain x
    where "g = (if gn_id x = gen then x\<lparr>gn_stored := int (length (chunks_of db gen))\<rparr> else x)"
    unfolding sync_stored_count_def generations_update set_map by blast
  then show ?thesis using assms(2) by (cases "gn_id x = gen") simp_all
qed

definition set_published :: "int \<Rightarrow> uuid \<Rightarrow> uuid \<Rightarrow> index_db \<Rightarrow> index_db" where
  "set_published now gen source db =
     update_generation (is_publishable gen source)
       (\<lambda>g. g\<lparr>gn_state := GenPublished, gn_published_at := Some now\<rparr>) db"

lemma set_published_ok:
  assumes "index_ok db" and "sound_vectors w (chunks_of db gen)"
    and "\<And>g. g \<in> set (db_generations db) \<Longrightarrow> gn_id g = gen \<Longrightarrow> gn_stored g = int (length (chunks_of db gen))"
  shows "index_ok (set_published now gen source db)"
  unfolding set_published_def
  by (rule update_generation_ok [OF assms(1)]) (use assms(2,3) in \<open>auto simp: is_publishable_def whole_iff\<close>)

lemma publish_cases:
  obtains (refused) e where "publish now gen source w db = (Inl e, db)"
  | (moved) g where "list_ex (is_owned_building gen source) (db_generations db)"
      and "sound_vectors (i32_or_max w) (chunks_of db gen)"
      and "g \<in> set (db_generations (sync_stored_count gen db))" and "is_publishable gen source g"
      and "publish now gen source w db =
        (Inr \<lparr>po_generation_id = gen, po_chunk_count = gn_stored g\<rparr>,
         point_source gen source (gn_stored g) (set_published now gen source (sync_stored_count gen db)))"
proof (cases "\<exists>e. publish now gen source w db = (Inl e, db)")
  case False
  then have owned: "list_ex (is_owned_building gen source) (db_generations db)"
    and nd: "vector_defect gen (i32_or_max w) source db = None"
    by (auto simp: publish_def split: if_splits option.splits)
  from False owned nd obtain g
    where g: "List.find (is_publishable gen source) (db_generations (sync_stored_count gen db)) = Some g"
    by (auto simp: publish_def Let_def split: option.splits)
  then have in_g: "g \<in> set (db_generations (sync_stored_count gen db))" "is_publishable gen source g"
    by (auto simp: find_Some_iff)
  have "publish now gen source w db =
        (Inr \<lparr>po_generation_id = gen, po_chunk_count = gn_stored g\<rparr>,
         point_source gen source (gn_stored g) (set_published now gen source (sync_stored_count gen db)))"
    using owned nd g by (simp add: publish_def Let_def set_published_def)
  from moved [OF owned vector_defect_None [OF nd] in_g this] show ?thesis .
qed (use refused in blast)

lemma publish_ok:
  assumes "index_ok db"
  shows "index_ok (snd (publish now gen source w db))"
proof (cases rule: publish_cases [of now gen source w db])
  case (moved g)
  let ?db1 = "sync_stored_count gen db"
  have ok1: "index_ok ?db1" by (rule sync_stored_count_ok [OF assms moved(1)])
  have same: "chunks_of ?db1 gen = chunks_of db gen" by (simp add: sync_stored_count_def)
  have ok2: "index_ok (set_published now gen source ?db1)"
    by (rule set_published_ok [OF ok1]) (use moved(2) synced [of _ gen db] same in auto)
  let ?g = "g\<lparr>gn_state := GenPublished, gn_published_at := Some now\<rparr>"
  have "?g \<in> set (db_generations (set_published now gen source ?db1))"
    unfolding set_published_def update_generation_def using moved(3,4)
    by (auto intro!: image_eqI [of _ _ g])
  from point_source_ok [OF ok2 this, of source "gn_stored g"] show ?thesis
    using moved(4,5) by (simp add: is_publishable_def)
qed (use assms in simp)

subsection \<open>Every run\<close>

lemma reclaim_all_ok: "index_ok db \<Longrightarrow> index_ok (snd (reclaim_all now hours db))"
  unfolding reclaim_all_def
  by (rule fold_keeps [where P = "\<lambda>p. index_ok (snd p)"])
     (auto simp: Let_def split_def intro: reclaim_ok)

interpretation index: step_invariant index_step index_ok
proof
  fix db db' assume ok: "index_ok db" and step: "index_step db db'"
  from step show "index_ok db'"
  proof (cases rule: index_step.cases)
    case (run op)
    with ok show ?thesis
      by (cases op) (auto intro: claim_ok record_build_plan_ok store_chunk_batch_ok publish_ok
          mark_failed_ok fail_stale_builds_ok rollback_ok reclaim_ok reclaim_all_ok)
  qed
qed

lemma fresh_db_ok: "fresh_db db \<Longrightarrow> index_ok db"
  by (auto simp: fresh_db_def index_ok_def active_of_def bind_eq_Some_conv)

lemma reachable_ok: "fresh_db db0 \<Longrightarrow> index_step\<^sup>*\<^sup>* db0 db \<Longrightarrow> index_ok db"
  using index.reachable fresh_db_ok by blast

lemma visible_active:
  "index_ok db \<Longrightarrow>
   visible_chunks s db = (case active_of s db of None \<Rightarrow> [] | Some a \<Rightarrow> chunks_of db a)"
proof (cases "active_of s db")
  case (Some a)
  assume ok: "index_ok db"
  from index_okD(6) [OF ok Some] have "sk_source c = s" if "c \<in> set (db_chunks db)" "sk_generation c = a" for c
    using index_okD(4) [OF ok that(1)] that(2) same_generation [OF ok] by metis
  then show ?thesis
    using Some by (auto simp: visible_chunks_def active_of_def chunks_of_def intro!: filter_cong)
qed (simp add: visible_chunks_def active_of_def)


lemma visible_of:
  "index_ok db \<Longrightarrow> index_ok db' \<Longrightarrow> active_of s db' = active_of s db \<Longrightarrow>
   (\<And>a. active_of s db = Some a \<Longrightarrow> chunks_of db' a = chunks_of db a) \<Longrightarrow>
   visible_chunks s db' = visible_chunks s db"
  by (simp add: visible_active split: option.split)

lemma visible_same:
  "active_of s db' = active_of s db \<Longrightarrow> db_chunks db' = db_chunks db \<Longrightarrow>
   visible_chunks s db' = visible_chunks s db"
  by (simp add: visible_chunks_def active_of_def split: option.split)

lemma chunks_restore [simp]: "db_chunks (restore_source_status source reason db) = db_chunks db"
  by (auto simp: restore_source_status_def split: option.split)

lemma chunks_point [simp]: "db_chunks (point_source gen source n db) = db_chunks db"
  by (auto simp: point_source_def split: option.split)

lemma visible_stored:
  assumes "index_ok db"
  shows "visible_chunks s (snd (store_chunk_batch cr fresh gen source cs vs base db)) = visible_chunks s db"
  using store_chunk_batch_cases [of cr fresh gen source cs vs base db]
proof (elim disjE conjE exE)
  fix rows
  assume owned: "list_ex (is_owned_building gen source) (db_generations db)"
    and rows: "\<forall>r\<in>set rows. sk_generation r = gen \<and> sk_source r = source"
    and to: "snd (store_chunk_batch cr fresh gen source cs vs base db) =
      db\<lparr>db_chunks := fold upsert_chunk rows (db_chunks db)\<rparr>"
  show ?thesis
    unfolding to
  proof (rule visible_of [OF assms store_ok [OF assms owned rows]])
    fix a assume "active_of s db = Some a"
    from index_okD(6) [OF assms this] owned have "a \<noteq> gen"
      using same_generation [OF assms] by (fastforce simp: list_ex_iff is_owned_building_def)
    then show "chunks_of (db\<lparr>db_chunks := fold upsert_chunk rows (db_chunks db)\<rparr>) a = chunks_of db a"
      by (simp add: chunks_of_def fold_upsert(2) [OF rows index_okD(3) [OF assms]])
  qed (simp add: active_of_def)
qed simp

lemma visible_reclaim:
  assumes "index_ok db"
  shows "visible_chunks s (snd (reclaim now hours source db)) = visible_chunks s db"
proof (rule visible_of [OF assms reclaim_ok [OF assms]])
  fix a assume "active_of s db = Some a"
  then have "a \<notin> gn_id ` set (filter (is_reclaimable now hours source db) (db_generations db))"
    using reclaimable_not_active [OF assms] by fastforce
  then show "chunks_of (snd (reclaim now hours source db)) a = chunks_of db a"
    by (auto simp: reclaim_def Let_def chunks_of_def intro!: filter_cong)
qed (simp add: reclaim_def Let_def)

lemma visible_reclaim_all:
  assumes "index_ok db"
  shows "visible_chunks s (snd (reclaim_all now hours db)) = visible_chunks s db"
proof -
  have "index_ok (snd (reclaim_all now hours db)) \<and>
      visible_chunks s (snd (reclaim_all now hours db)) = visible_chunks s db"
    unfolding reclaim_all_def
    by (rule fold_keeps [where P = "\<lambda>p. index_ok (snd p) \<and> visible_chunks s (snd p) = visible_chunks s db"])
       (auto simp: Let_def split_def assms visible_reclaim intro: reclaim_ok)
  then show ?thesis ..
qed

lemma visible_mark_failed: "visible_chunks s (mark_failed now gen source reason db) = visible_chunks s db"
  unfolding mark_failed_def by (rule visible_same) (simp_all add: fail_generation_def)

lemma visible_fail_stale:
  "visible_chunks s (snd (fail_stale_builds now t reason db)) = visible_chunks s db"
  unfolding fail_stale_builds_def
  by (rule fold_keeps [where P = "\<lambda>p. visible_chunks s (snd p) = visible_chunks s db"])
     (simp_all add: fail_one_stale_def visible_mark_failed [unfolded mark_failed_def])

lemma visible_publish:
  assumes "index_ok db"
  shows "visible_chunks s (snd (publish now gen source w db)) =
     (if s = source \<and> (\<exists>r. fst (publish now gen source w db) = Inr r) \<and> db_sources db s \<noteq> None
      then chunks_of db gen else visible_chunks s db)"
proof (cases rule: publish_cases [of now gen source w db])
  case (moved g)
  have "active_of s (snd (publish now gen source w db)) =
      (if s = source \<and> db_sources db source \<noteq> None then Some gen else active_of s db)"
    and "db_chunks (snd (publish now gen source w db)) = db_chunks db"
    by (auto simp: moved(5) set_published_def sync_stored_count_def)
  then have "visible_chunks s (snd (publish now gen source w db)) =
     (if s = source \<and> db_sources db s \<noteq> None then chunks_of db gen else visible_chunks s db)"
    unfolding visible_active [OF publish_ok [OF assms]] visible_active [OF assms] chunks_of_def
    by (cases "db_sources db source") (auto split: option.split)
  then show ?thesis using moved(5) by simp
qed simp

lemma visible_rollback:
  assumes "index_ok db"
  shows "visible_chunks s (snd (rollback_to_previous source db)) =
     (case previous_published source db of
        Some p \<Rightarrow> if s = source then chunks_of db (gn_id p) else visible_chunks s db
      | None \<Rightarrow> visible_chunks s db)"
proof (cases "previous_published source db")
  case None
  then show ?thesis by (simp add: rollback_to_previous_def)
next
  case (Some p)
  then have "db_sources db source \<noteq> None" by (auto simp: previous_published_def bind_eq_Some_conv split: option.splits)
  then have "active_of s (snd (rollback_to_previous source db)) =
      (if s = source then Some (gn_id p) else active_of s db)"
    and "db_chunks (snd (rollback_to_previous source db)) = db_chunks db"
    using Some by (auto simp: rollback_to_previous_def)
  then show ?thesis
    unfolding visible_active [OF rollback_ok [OF assms]] visible_active [OF assms] chunks_of_def
    using Some by (simp split: option.split)
qed


text \<open>What readers of a source see once a step has run.\<close>

fun readers_after :: "uuid \<Rightarrow> index_op \<Rightarrow> index_db \<Rightarrow> stored_chunk list" where
  "readers_after s (OpPublish now gen source w) db =
     (if s = source \<and> (\<exists>r. fst (publish now gen source w db) = Inr r) \<and> db_sources db s \<noteq> None
      then chunks_of db gen else visible_chunks s db)"
| "readers_after s (OpRollback source) db =
     (case previous_published source db of
        Some p \<Rightarrow> if s = source then chunks_of db (gn_id p) else visible_chunks s db
      | None \<Rightarrow> visible_chunks s db)"
| "readers_after s _ db = visible_chunks s db"

text \<open>A first build of a source: one chunk, written and about to be published.\<close>

definition unindexed_db :: index_db where
  "unindexed_db = \<lparr>db_generations = [],
     db_sources = [1 \<mapsto> \<lparr>sw_active = None, sw_chunk_count = 0, sw_status = [], sw_error = None\<rparr>],
     db_chunks = []\<rparr>"

definition first_build :: "index_op list" where
  "first_build =
     [OpClaim 10 0 [] 1 \<lparr>gp_embedding = \<lparr>ep_provider = [], ep_model = [], ep_dimension = 1,
        ep_normalization = Unit\<rparr>, gp_chunking = current_chunking 1\<rparr>,
      OpPlan 10 1 (current_chunking 1),
      OpStore (\<lambda>v. None) (\<lambda>i. 100 + i) 10 1 [\<lparr>cw_content = [], cw_context_prefix = None,
        cw_parent_content = None, cw_metadata = default_metadata, cw_content_hash = []\<rparr>]
        [[Fin 1]] 0]"

definition built_db :: index_db where "built_db = fold run_op first_build unindexed_db"

lemma reach_step: "index_step\<^sup>*\<^sup>* a b \<Longrightarrow> admissible op b \<Longrightarrow> index_step\<^sup>*\<^sup>* a (run_op op b)"
  by (rule rtranclp.rtrancl_into_rtrancl) (auto intro: index_step.run)

lemma built_reachable: "fresh_db unindexed_db" "index_step\<^sup>*\<^sup>* unindexed_db built_db"
proof -
  show "fresh_db unindexed_db" by (simp add: fresh_db_def unindexed_db_def)
  show "index_step\<^sup>*\<^sup>* unindexed_db built_db"
    unfolding built_db_def first_build_def fold.simps comp_apply id_apply
    by (intro reach_step rtranclp.rtrancl_refl) (simp_all add: unindexed_db_def)
qed

lemma built_db_rows:
  "map gn_id (db_generations built_db) = [10]"
  "map sk_generation (db_chunks built_db) = [10]"
  "visible_chunks 1 built_db = []"
  "db_sources built_db 1 \<noteq> None"
  "\<exists>r. publish 5 10 1 1 built_db = (Inr r, snd (publish 5 10 1 1 built_db))"
  by (simp_all add: built_db_def first_build_def unindexed_db_def claim_def record_build_plan_def
      update_generation_def store_chunk_batch_def check_pairing_def lock_building_generation_def
      is_owned_building_def map_filter_def chunk_values_def upsert_chunk_def visible_chunks_def
      publish_def vector_defect_def count_where_def chunks_of_def null_vector_def wrong_width_def
      non_finite_vector_def i32_or_max_def i32_max_def is_finite_def sync_stored_count_def
      is_publishable_def Let_def is_building_of_def)

text \<open>
  C31. Whatever sequence of claims, plans, batches, publications, failures, rollbacks and reclaim
  passes a database goes through, a source has at most one building generation, and the
  generation a source points to is a published one of that source which is whole: readers see
  exactly the number of chunks the build declared, at least one, all with finite vectors of one
  width.
\<close>

theorem active_index_is_whole:
  assumes "fresh_db db0" and "index_step\<^sup>*\<^sup>* db0 db"
  shows "length (filter (is_building_of s) (db_generations db)) \<le> 1 \<and>
    (case active_of s db of None \<Rightarrow> visible_chunks s db = []
     | Some a \<Rightarrow> \<exists>g\<in>set (db_generations db). gn_id g = a \<and> gn_source g = s \<and>
         gn_state g = GenPublished \<and> gn_expected g = Some (int (length (visible_chunks s db))) \<and>
         (\<exists>w. sound_vectors w (visible_chunks s db)))"
proof -
  note ok = reachable_ok [OF assms]
  have "case active_of s db of None \<Rightarrow> visible_chunks s db = []
     | Some a \<Rightarrow> \<exists>g\<in>set (db_generations db). gn_id g = a \<and> gn_source g = s \<and>
         gn_state g = GenPublished \<and> gn_expected g = Some (int (length (visible_chunks s db))) \<and>
         (\<exists>w. sound_vectors w (visible_chunks s db))"
  proof (cases "active_of s db")
    case (Some a)
    from index_okD(6) [OF ok this] obtain g where g: "g \<in> set (db_generations db)" "gn_id g = a"
        "gn_source g = s" "gn_state g = GenPublished" by blast
    then show ?thesis
      using Some index_okD(5) [OF ok g(1,4)] by (auto simp: visible_active [OF ok] whole_iff)
  qed (simp add: visible_active [OF ok])
  then show ?thesis using index_okD(2) [OF ok] by blast
qed

theorem active_index_is_whole_witness:
  "length (filter (is_building_of 1) (db_generations built_db)) \<le> 1 \<and>
   visible_chunks 1 built_db = [] \<and> fresh_db unindexed_db \<and> index_step\<^sup>*\<^sup>* unindexed_db built_db"
  using active_index_is_whole [OF built_reachable, of 1] built_reachable built_db_rows(3)
  by (simp only: simp_thms)

text \<open>
  C32. Of all the statements, only a publication that succeeds and a rollback change what the
  readers of a source see, and only for their own source: to the chunks of the generation they
  name, whole, with nothing of the previous one. A batch written meanwhile, a refused
  publication, a failed build or a reclaim pass leaves every reader's view as it was.
\<close>

theorem only_publication_moves_readers:
  assumes "fresh_db db0" and "index_step\<^sup>*\<^sup>* db0 db" and "admissible op db"
  shows "visible_chunks s (run_op op db) = readers_after s op db"
proof -
  note ok = reachable_ok [OF assms(1,2)]
  show ?thesis
  proof (cases op)
    case (OpClaim i now e source p)
    then show ?thesis by (auto simp: claim_def Let_def active_of_def intro!: visible_same)
  next
    case (OpPlan g n c)
    then show ?thesis by (auto simp: record_build_plan_def intro!: visible_same)
  qed (simp_all add: ok visible_mark_failed visible_stored visible_publish visible_fail_stale visible_rollback
      visible_reclaim visible_reclaim_all)
qed

theorem only_publication_moves_readers_witness:
  "visible_chunks 1 built_db = [] \<and>
   map sk_generation (visible_chunks 1 (run_op (OpPublish 5 10 1 1) built_db)) = [10]"
proof -
  have "map sk_generation (chunks_of built_db 10) = filter (\<lambda>g. g = 10) (map sk_generation (db_chunks built_db))"
    by (simp add: chunks_of_def filter_map comp_def)
  then have "map sk_generation (chunks_of built_db 10) = [10]" by (simp add: built_db_rows(2))
  moreover have "\<exists>r. fst (publish 5 10 1 1 built_db) = Inr r"
    using built_db_rows(5) by (metis fst_conv)
  ultimately show ?thesis
    using only_publication_moves_readers [OF built_reachable, of "OpPublish 5 10 1 1" 1]
      built_db_rows(3,4) by simp
qed

end
