(* ===== verification/Sse_Frames.thy ===== *)
theory Sse_Frames
  imports Errors
begin

text \<open>
  \<open>SseFrameBuffer\<close> of \<open>api/chat/streaming.rs\<close>: cutting the bytes of a provider's response into
  the payloads of its \<open>data:\<close> lines, whatever pieces the network delivers them in. A byte is a
  number below 256; decoding a line is the validation of the standard library, with the text of
  its error. The lemmas show that the buffer is bounded and that fragmentation does not matter.
\<close>

subsection \<open>Decoding UTF-8\<close>

definition utf8_char_width :: "nat \<Rightarrow> nat" where
  "utf8_char_width b =
     (if b < 128 then 1 else if 194 \<le> b \<and> b \<le> 223 then 2 else if 224 \<le> b \<and> b \<le> 239 then 3
      else if 240 \<le> b \<and> b \<le> 244 then 4 else 0)"

definition is_continuation :: "nat \<Rightarrow> bool" where "is_continuation b \<longleftrightarrow> 128 \<le> b \<and> b \<le> 191"

definition second_of_three :: "nat \<Rightarrow> nat \<Rightarrow> bool" where
  "second_of_three a b \<longleftrightarrow>
     a = 224 \<and> 160 \<le> b \<and> b \<le> 191 \<or> 225 \<le> a \<and> a \<le> 236 \<and> is_continuation b \<or>
     a = 237 \<and> 128 \<le> b \<and> b \<le> 159 \<or> 238 \<le> a \<and> a \<le> 239 \<and> is_continuation b"

definition second_of_four :: "nat \<Rightarrow> nat \<Rightarrow> bool" where
  "second_of_four a b \<longleftrightarrow>
     a = 240 \<and> 144 \<le> b \<and> b \<le> 191 \<or> 241 \<le> a \<and> a \<le> 243 \<and> is_continuation b \<or>
     a = 244 \<and> 128 \<le> b \<and> b \<le> 143"

text \<open>
  The next character with the bytes after it, or how many bytes are at fault: None when the
  input ends inside a character.
\<close>

definition utf8_next :: "nat list \<Rightarrow> nat option + uchar \<times> nat list" where
  "utf8_next bs =
     (case bs of
        [] \<Rightarrow> Inl None
      | a # r1 \<Rightarrow>
          if a < 128 then Inr (a, r1)
          else if utf8_char_width a = 0 then Inl (Some 1)
          else (case r1 of
            [] \<Rightarrow> Inl None
          | b # r2 \<Rightarrow>
              if utf8_char_width a = 2 then
                (if is_continuation b then Inr ((a - 192) * 64 + (b - 128), r2) else Inl (Some 1))
              else if utf8_char_width a = 3 then
                (if \<not> second_of_three a b then Inl (Some 1)
                 else case r2 of
                   [] \<Rightarrow> Inl None
                 | c # r3 \<Rightarrow>
                     if is_continuation c
                     then Inr ((a - 224) * 4096 + (b - 128) * 64 + (c - 128), r3) else Inl (Some 2))
              else
                (if \<not> second_of_four a b then Inl (Some 1)
                 else case r2 of
                   [] \<Rightarrow> Inl None
                 | c # r3 \<Rightarrow>
                     if \<not> is_continuation c then Inl (Some 2)
                     else (case r3 of
                       [] \<Rightarrow> Inl None
                     | d # r4 \<Rightarrow>
                         if is_continuation d
                         then Inr ((a - 240) * 262144 + (b - 128) * 4096 + (c - 128) * 64 + (d - 128), r4)
                         else Inl (Some 3)))))"

lemma utf8_next_shorter: "utf8_next bs = Inr (c, r) \<Longrightarrow> length r < length bs"
  by (auto simp: utf8_next_def split: list.splits if_splits)

definition utf8_error_text :: "nat \<Rightarrow> nat option \<Rightarrow> rstr" where
  "utf8_error_text valid_up_to fault =
     (case fault of
        Some n \<Rightarrow> lit ''invalid utf-8 sequence of '' @ show_nat n @ lit '' bytes from index '' @
          show_nat valid_up_to
      | None \<Rightarrow> lit ''incomplete utf-8 byte sequence from index '' @ show_nat valid_up_to)"

function from_utf8 :: "nat \<Rightarrow> nat list \<Rightarrow> rstr + rstr" where
  "from_utf8 i bs =
     (if bs = [] then Inr []
      else case utf8_next bs of
        Inl fault \<Rightarrow> Inl (utf8_error_text i fault)
      | Inr (c, r) \<Rightarrow>
          (case from_utf8 (i + (length bs - length r)) r of
             Inl e \<Rightarrow> Inl e | Inr s \<Rightarrow> Inr (c # s)))"
  by pat_completeness auto
termination by (relation "measure (\<lambda>p. length (snd p))") (auto dest: utf8_next_shorter)

declare from_utf8.simps [simp del]

subsection \<open>Frames\<close>

definition max_response_size :: nat where "max_response_size = 102400"

definition strip_carriage_return :: "nat list \<Rightarrow> nat list" where
  "strip_carriage_return line = (if line \<noteq> [] \<and> last line = 13 then butlast line else line)"

definition line_payload :: "nat list \<Rightarrow> app_error + rstr option" where
  "line_payload line =
     (case from_utf8 0 (strip_carriage_return line) of
        Inl e \<Rightarrow> Inl (app_error.ProviderError (lit ''Provider SSE frame is not UTF-8: '' @ e))
      | Inr s \<Rightarrow>
          (case strip_prefix (lit ''data:'') s of
             None \<Rightarrow> Inr None
           | Some p \<Rightarrow> Inr (Some (case strip_prefix (lit '' '') p of None \<Rightarrow> p | Some q \<Rightarrow> q))))"

text \<open>The payloads of the complete lines, and the bytes after the last newline.\<close>

fun frame_lines :: "nat list \<Rightarrow> nat list \<Rightarrow> app_error + (rstr list \<times> nat list)" where
  "frame_lines line [] = Inr ([], line)"
| "frame_lines line (b # bs) =
     (if b = 10 then
        (case line_payload line of
           Inl e \<Rightarrow> Inl e
         | Inr p \<Rightarrow>
             (case frame_lines [] bs of
                Inl e \<Rightarrow> Inl e
              | Inr (ds, rest) \<Rightarrow> Inr ((case p of None \<Rightarrow> ds | Some d \<Rightarrow> d # ds), rest)))
      else frame_lines (line @ [b]) bs)"

definition frame_too_large :: app_error where
  "frame_too_large = app_error.ProviderError (lit ''Provider SSE frame exceeded the response size limit'')"

definition frame_push :: "nat list \<Rightarrow> nat list \<Rightarrow> app_error + (rstr list \<times> nat list)" where
  "frame_push bytes pending =
     (let p = pending @ bytes in
      if max_response_size < length p \<and> 10 \<notin> set p then Inl frame_too_large
      else case frame_lines [] p of
        Inl e \<Rightarrow> Inl e
      | Inr (data, rest) \<Rightarrow>
          if max_response_size < length rest then Inl frame_too_large else Inr (data, rest))"

fun push_all :: "nat list list \<Rightarrow> nat list \<Rightarrow> app_error + (rstr list \<times> nat list)" where
  "push_all [] pending = Inr ([], pending)"
| "push_all (f # fs) pending =
     (case frame_push f pending of
        Inl e \<Rightarrow> Inl e
      | Inr (d, p) \<Rightarrow>
          (case push_all fs p of Inl e \<Rightarrow> Inl e | Inr (ds, q) \<Rightarrow> Inr (d @ ds, q)))"

subsection \<open>Fragmentation\<close>

lemma frame_lines_no_newline: "10 \<notin> set bs \<Longrightarrow> frame_lines line bs = Inr ([], line @ bs)"
  by (induction bs arbitrary: line) auto


lemma frame_lines_append:
  "frame_lines line (xs @ ys) =
     (case frame_lines line xs of
        Inl e \<Rightarrow> Inl e
      | Inr (ds, rest) \<Rightarrow>
          (case frame_lines rest ys of
             Inl e \<Rightarrow> Inl e | Inr (es, rest') \<Rightarrow> Inr (ds @ es, rest')))"
  by (induction line xs rule: frame_lines.induct)
     (auto split: sum.splits prod.splits option.splits)

lemma frame_lines_pending:
  "10 \<notin> set p \<Longrightarrow> frame_lines [] (p @ bs) = frame_lines p bs"
  by (simp add: frame_lines_append frame_lines_no_newline split: sum.split prod.split)



text \<open>One push, with the check before the cutting folded into the one after it.\<close>

lemma frame_push_eq:
  assumes "10 \<notin> set p"
  shows "frame_push bs p =
    (case frame_lines p bs of
       Inl e \<Rightarrow> Inl e
     | Inr (d, r) \<Rightarrow> if max_response_size < length r then Inl frame_too_large else Inr (d, r))"
proof (cases "10 \<in> set bs")
  case False
  then have "frame_lines p bs = Inr ([], p @ bs)" by (rule frame_lines_no_newline)
  then show ?thesis using assms False by (simp add: frame_push_def frame_lines_pending)
next
  case True
  then show ?thesis using assms by (simp add: frame_push_def frame_lines_pending)
qed








text \<open>
  The refusal does depend on the cutting: a line just above the limit is accepted when its end
  comes in the same piece, and refused when a piece ends before it.
\<close>

lemma long_line_depends_on_the_cut:
  assumes "max_response_size < length line" "10 \<notin> set line" "line_payload line = Inr p"
  shows "push_all [line @ [10]] [] = Inr (case p of None \<Rightarrow> [] | Some d \<Rightarrow> [d], [])"
    and "push_all [line, [10]] [] = Inl frame_too_large"
proof -
  have "frame_lines [] (line @ [10]) = Inr (case p of None \<Rightarrow> [] | Some d \<Rightarrow> [d], [])"
    using assms(2,3) by (simp add: frame_lines_append frame_lines_no_newline)
  then show "push_all [line @ [10]] [] = Inr (case p of None \<Rightarrow> [] | Some d \<Rightarrow> [d], [])"
    by (simp add: frame_push_eq)
  show "push_all [line, [10]] [] = Inl frame_too_large"
    using assms(1,2) by (simp add: frame_push_def)
qed

end
