(* ===== verification/Citation_Resolution.thy ===== *)
theory Citation_Resolution
  imports Citations Formatting Errors
begin

text \<open>
  \<open>api/chat/citation_resolution.rs\<close>: the last check on the citations of a finished answer. Both
  ways an answer cites, by native citations of the provider and by markers in its text, end in
  candidates; a candidate becomes a citation when its generation is active under the lease that
  the source repository grants. The repository is two parameters: the active generation of a
  source, and which of the requested pairs a lease holds. The lemmas show what each public
  citation rests on.
\<close>

record native_citation =
  nc_document_index :: nat
  nc_cited_text :: rstr
  nc_document_title :: rstr

type_synonym located_native = "native_citation \<times> nat"

record citation_input =
  ci_native :: bool
  ci_citations :: "located_native list"
  ci_numbers :: "(nat \<times> nat) list"
  ci_documents :: "rag_document list"
  ci_chunks :: "search_result list"
  ci_response :: rstr

type_synonym lease = "(uuid \<times> uuid) list"

record resolved_citations =
  rc_citations :: "citation list"
  rc_rejected :: nat
  rc_event_refs :: "(nat \<times> uuid) list"
  rc_lease :: "lease option"

record citation_candidate =
  cd_citation :: citation
  cd_event_index :: nat
  cd_generation :: uuid

text \<open>A source row is given as its active generation; None when the row is gone.\<close>

record source_service =
  sv_get_by_id :: "uuid \<Rightarrow> app_error + uuid option option"
  sv_lock_active :: "(uuid \<times> uuid) list \<Rightarrow> app_error + lease"
  sv_release :: "app_error + unit"

subsection \<open>Native citations\<close>

definition native_ownership ::
  "rag_document \<Rightarrow> search_result option \<Rightarrow> rstr \<Rightarrow> bool \<times> bool" where
  "native_ownership document chunk cited_text =
     (case chunk of
        None \<Rightarrow> (False, False)
      | Some c \<Rightarrow>
          let identity_owned = source_id c = rd_source_id document \<and>
                generation_id c = rd_generation_id document \<and> chunk_index c = rd_chunk_index document;
              quote_owned = identity_owned \<and> quote_belongs_to (sr_content c) cited_text;
              span_owned = identity_owned \<and> rd_metadata document = sr_metadata c \<and>
                owns_chunk (provenance_read (rd_metadata document)) (chunk_index c) (sr_content c)
          in (quote_owned, span_owned))"

definition native_valid ::
  "unicode \<Rightarrow> citation_input \<Rightarrow> (nat \<times> nat) list \<Rightarrow> located_native \<Rightarrow> rag_document \<Rightarrow> bool" where
  "native_valid u inp ranges nl document =
     (let (quote_owned, span_owned) = native_ownership document
            (get_at (ci_chunks inp) (nc_document_index (fst nl))) (nc_cited_text (fst nl));
          claim_linked = claim_is_supported_by u (snd nl) (ci_response inp) (nc_cited_text (fst nl));
          marker_outside_code = \<not> is_in_code_range (snd nl) ranges
      in quote_owned \<and> claim_linked \<and> marker_outside_code \<and> span_owned)"

definition native_candidate :: "native_citation \<Rightarrow> rag_document \<Rightarrow> nat \<Rightarrow> citation_candidate" where
  "native_candidate native document event_index =
     \<lparr>cd_citation = citation_new (rd_source_id document) (rd_chunk_index document)
        (truncate_text (nc_cited_text native) 200) (rd_relevance_score document)
        (provenance_read (rd_metadata document)),
      cd_event_index = event_index, cd_generation = rd_generation_id document\<rparr>"

text \<open>The candidates in order, and how many citations were refused.\<close>

fun native_candidates ::
  "unicode \<Rightarrow> citation_input \<Rightarrow> (nat \<times> nat) list \<Rightarrow> nat list \<Rightarrow> located_native list \<Rightarrow>
   citation_candidate list \<times> nat" where
  "native_candidates u inp ranges seen [] = ([], 0)"
| "native_candidates u inp ranges seen (nl # nls) =
     (let i = nc_document_index (fst nl);
          refuse = (\<lambda>(cs, n). (cs, n + 1)) in
      case get_at (ci_documents inp) i of
        None \<Rightarrow> refuse (native_candidates u inp ranges seen nls)
      | Some document \<Rightarrow>
          if \<not> native_valid u inp ranges nl document
          then refuse (native_candidates u inp ranges seen nls)
          else if i \<in> set seen then native_candidates u inp ranges seen nls
          else (case map_of (ci_numbers inp) i of
            None \<Rightarrow> refuse (native_candidates u inp ranges (i # seen) nls)
          | Some event_index \<Rightarrow>
              (case native_candidates u inp ranges (i # seen) nls of
                 (cs, n) \<Rightarrow> (native_candidate (fst nl) document event_index # cs, n))))"

subsection \<open>Markers\<close>

text \<open>The first context chunk with the source and the position of a citation.\<close>

fun find_chunk :: "nat \<Rightarrow> search_result list \<Rightarrow> citation \<Rightarrow> (nat \<times> search_result) option" where
  "find_chunk i [] c = None"
| "find_chunk i (r # rs) c =
     (if source_id r = ct_source_id c \<and> chunk_index r = ct_chunk_index c then Some (i, r)
      else find_chunk (i + 1) rs c)"

fun marker_candidates ::
  "search_result list \<Rightarrow> located_citation list \<Rightarrow> citation_candidate list \<times> nat" where
  "marker_candidates chunks [] = ([], 0)"
| "marker_candidates chunks (lc # lcs) =
     (case marker_candidates chunks lcs of (cs, n) \<Rightarrow>
        (case find_chunk 0 chunks (fst lc) of
           None \<Rightarrow> (cs, n + 1)
         | Some (i, r) \<Rightarrow>
             (\<lparr>cd_citation = fst lc, cd_event_index = i + 1, cd_generation = generation_id r\<rparr> # cs, n)))"

subsection \<open>The lease\<close>

definition no_citations :: "nat \<Rightarrow> resolved_citations" where
  "no_citations rejected =
     \<lparr>rc_citations = [], rc_rejected = rejected, rc_event_refs = [], rc_lease = None\<rparr>"

definition is_active :: "lease \<Rightarrow> citation_candidate \<Rightarrow> bool" where
  "is_active l c \<longleftrightarrow> (ct_source_id (cd_citation c), cd_generation c) \<in> set l"

definition finalize_candidates ::
  "source_service \<Rightarrow> citation_candidate list \<Rightarrow> nat \<Rightarrow> resolved_citations" where
  "finalize_candidates sv candidates rejected =
     (if candidates = [] then no_citations rejected
      else case sv_lock_active sv
          (map (\<lambda>c. (ct_source_id (cd_citation c), cd_generation c)) candidates) of
        Inl _ \<Rightarrow> no_citations (rejected + length candidates)
      | Inr l \<Rightarrow>
          let kept = filter (is_active l) candidates;
              refused = rejected + length (filter (\<lambda>c. \<not> is_active l c) candidates)
          in if kept = [] then no_citations refused
             else \<lparr>rc_citations = map cd_citation kept, rc_rejected = refused,
               rc_event_refs = map (\<lambda>c. (cd_event_index c, ct_source_id (cd_citation c))) kept,
               rc_lease = Some l\<rparr>)"

definition active_generation_map ::
  "source_service \<Rightarrow> search_result list \<Rightarrow> uuid \<Rightarrow> uuid option" where
  "active_generation_map sv chunks s =
     (if s \<notin> set (map source_id chunks) then None
      else case sv_get_by_id sv s of
        Inr (Some active) \<Rightarrow> active
      | _ \<Rightarrow> None)"

definition resolve_native :: "unicode \<Rightarrow> source_service \<Rightarrow> citation_input \<Rightarrow> resolved_citations" where
  "resolve_native u sv inp =
     (case native_candidates u inp (find_code_ranges (ci_response inp)) [] (ci_citations inp) of
        (cs, rejected) \<Rightarrow> finalize_candidates sv cs rejected)"

definition resolve_prompt_markers ::
  "unicode \<Rightarrow> source_service \<Rightarrow> citation_input \<Rightarrow> (uuid \<Rightarrow> uuid option) \<Rightarrow> resolved_citations" where
  "resolve_prompt_markers u sv inp active =
     (let extracted = extract_citations_verified_against_active u (ci_response inp)
            (map citable_of (ci_chunks inp)) active
      in case marker_candidates (ci_chunks inp) (xc_citations extracted) of
        (cs, rejected) \<Rightarrow> finalize_candidates sv cs (xc_rejected extracted + rejected))"

definition resolve_citations :: "unicode \<Rightarrow> source_service \<Rightarrow> citation_input \<Rightarrow> resolved_citations" where
  "resolve_citations u sv inp =
     (if ci_native inp \<and> ci_citations inp \<noteq> [] then resolve_native u sv inp
      else resolve_prompt_markers u sv inp (active_generation_map sv (ci_chunks inp)))"

subsection \<open>What a citation rests on\<close>

definition anchored :: "search_result list \<Rightarrow> citation_candidate \<Rightarrow> bool" where
  "anchored chunks c \<longleftrightarrow>
     (\<exists>r\<in>set chunks. source_id r = ct_source_id (cd_citation c) \<and>
        chunk_index r = ct_chunk_index (cd_citation c) \<and> generation_id r = cd_generation c)"

lemma native_validD:
  assumes "native_valid u inp ranges nl document"
  obtains r where "r \<in> set (ci_chunks inp)" "source_id r = rd_source_id document"
    "generation_id r = rd_generation_id document" "chunk_index r = rd_chunk_index document"
    "quote_belongs_to (sr_content r) (nc_cited_text (fst nl))"
    "owns_chunk (provenance_read (sr_metadata r)) (chunk_index r) (sr_content r)"
    "claim_is_supported_by u (snd nl) (ci_response inp) (nc_cited_text (fst nl))"
    "\<not> is_in_code_range (snd nl) ranges"
  using assms
  by (auto simp: native_valid_def native_ownership_def Let_def split: option.splits) (metis nth_mem)

lemma native_candidates_anchored:
  "list_all (anchored (ci_chunks inp)) (fst (native_candidates u inp ranges seen nls))"
proof (induction u inp ranges seen nls rule: native_candidates.induct)
  case (2 u inp ranges seen nl nls)
  have "anchored (ci_chunks inp) (native_candidate (fst nl) document e)"
    if "native_valid u inp ranges nl document" for document e
    using that by (elim native_validD)
      (auto simp: anchored_def native_candidate_def citation_new_def)
  with 2 show ?case
    by (auto simp: Let_def split_def split: option.splits if_splits)
qed simp

lemma find_chunk_Some:
  "find_chunk i rs c = Some (j, r) \<Longrightarrow>
   r \<in> set rs \<and> source_id r = ct_source_id c \<and> chunk_index r = ct_chunk_index c"
  by (induction i rs c rule: find_chunk.induct) (auto split: if_splits)

lemma marker_candidates_anchored:
  "list_all (anchored chunks) (fst (marker_candidates chunks lcs))"
  by (induction chunks lcs rule: marker_candidates.induct)
     (auto simp: split_def anchored_def dest!: find_chunk_Some split: option.splits)

definition leased :: "search_result list \<Rightarrow> resolved_citations \<Rightarrow> bool" where
  "leased chunks r \<longleftrightarrow>
     map snd (rc_event_refs r) = map ct_source_id (rc_citations r) \<and>
     (rc_lease r = None \<longleftrightarrow> rc_citations r = []) \<and>
     (\<forall>l c. rc_lease r = Some l \<longrightarrow> c \<in> set (rc_citations r) \<longrightarrow>
        (\<exists>k\<in>set chunks. source_id k = ct_source_id c \<and> chunk_index k = ct_chunk_index c \<and>
           (source_id k, generation_id k) \<in> set l))"

lemma finalize_leased:
  assumes "list_all (anchored chunks) cs"
  shows "leased chunks (finalize_candidates sv cs n)"
proof -
  have "\<exists>k\<in>set chunks. source_id k = ct_source_id (cd_citation c) \<and>
      chunk_index k = ct_chunk_index (cd_citation c) \<and> (source_id k, generation_id k) \<in> set l"
    if "c \<in> set cs" "is_active l c" for c l
    using assms that by (fastforce simp: list_all_iff anchored_def is_active_def)
  then show ?thesis
    by (auto simp: finalize_candidates_def leased_def no_citations_def Let_def split: sum.split)
qed

text \<open>
  Every public citation, whichever way the answer cited, names a chunk of the context of the
  turn, in a generation that the lease holds as active; the events name the same sources in the
  same order; and without citations there is no lease to release.
\<close>

lemma resolve_citations_leased: "leased (ci_chunks inp) (resolve_citations u sv inp)"
proof -
  have "leased (ci_chunks inp) (resolve_native u sv inp)"
    using finalize_leased [OF native_candidates_anchored]
    by (simp add: resolve_native_def split_def)
  moreover have "leased (ci_chunks inp) (resolve_prompt_markers u sv inp a)" for a
    using finalize_leased [OF marker_candidates_anchored]
    by (simp add: resolve_prompt_markers_def split_def Let_def)
  ultimately show ?thesis by (simp add: resolve_citations_def)
qed

text \<open>Every located native citation is refused, repeated, or a candidate.\<close>

lemma native_candidates_account:
  "length (fst (native_candidates u inp ranges seen nls)) +
     snd (native_candidates u inp ranges seen nls) \<le> length nls"
  by (induction nls arbitrary: seen)
     (auto simp: Let_def split_def intro: le_SucI split: option.splits)

end
