(* ===== verification/Trace.thy ===== *)
theory Trace
  imports Pipeline Context_Budget Errors
begin

text \<open>
  The retrieval record of one turn (\<open>services/rag/eval/trace.rs\<close>, and how \<open>api/chat/streaming.rs\<close>
  fills it). The digest is a parameter with the documented length of its hexadecimal form. The
  lemmas show that a record depends on the words of a question only through the digest, and that
  its reasons and generations are canonical.
\<close>

subsection \<open>The record\<close>

record stage_durations =
  sd_embed_ms :: nat
  sd_search_ms :: nat
  sd_rerank_ms :: nat
  sd_stuffing_load_ms :: nat
  sd_total_ms :: nat

definition zero_durations :: stage_durations where
  "zero_durations = \<lparr>sd_embed_ms = 0, sd_search_ms = 0, sd_rerank_ms = 0, sd_stuffing_load_ms = 0,
     sd_total_ms = 0\<rparr>"

record retrieval_trace =
  rt_generation_ids :: "uuid list"
  rt_notebook_id :: uuid
  rt_query_hash :: rstr
  rt_reformulated_query_hash :: "rstr option"
  rt_mode :: rstr
  rt_score_domain :: "score_domain option"
  rt_candidates :: stage_counts
  rt_unique_parents :: nat
  rt_tokens :: token_counts
  rt_reasons :: reason_set
  rt_durations :: stage_durations

definition hash_chars :: nat where "hash_chars = 32"

text \<open>\<open>sha\<close> is the digest of a text in hexadecimal.\<close>

definition query_hash :: "(rstr \<Rightarrow> rstr) \<Rightarrow> rstr \<Rightarrow> rstr" where
  "query_hash sha t = take hash_chars (sha t)"

definition trace_new ::
  "(rstr \<Rightarrow> rstr) \<Rightarrow> uuid \<Rightarrow> rstr \<Rightarrow> rstr \<Rightarrow> score_domain option \<Rightarrow> retrieval_trace" where
  "trace_new sha notebook query mode domain =
     \<lparr>rt_generation_ids = [], rt_notebook_id = notebook, rt_query_hash = query_hash sha query,
      rt_reformulated_query_hash = None, rt_mode = mode, rt_score_domain = domain,
      rt_candidates = zero_counts, rt_unique_parents = 0, rt_tokens = no_tokens, rt_reasons = [],
      rt_durations = zero_durations\<rparr>"

definition with_reformulation :: "(rstr \<Rightarrow> rstr) \<Rightarrow> rstr \<Rightarrow> retrieval_trace \<Rightarrow> retrieval_trace" where
  "with_reformulation sha reformulated tr =
     tr\<lparr>rt_reformulated_query_hash := Some (query_hash sha reformulated)\<rparr>"

definition trace_finish :: "retrieval_trace \<Rightarrow> retrieval_trace" where
  "trace_finish tr = tr\<lparr>rt_reasons := reason_finish (rt_reasons tr)\<rparr>"

subsection \<open>The record of a turn\<close>

text \<open>The times an outcome carries, as unbounded numbers (\<open>u128\<close>).\<close>

record stage_times =
  tm_embed :: nat
  tm_search :: nat
  tm_rerank :: nat
  tm_stuffing_load :: nat

definition no_times :: stage_times where
  "no_times = \<lparr>tm_embed = 0, tm_search = 0, tm_rerank = 0, tm_stuffing_load = 0\<rparr>"

definition to_u64 :: "nat \<Rightarrow> nat" where "to_u64 n = min n u64_max"

definition turn_durations :: "stage_times \<Rightarrow> nat \<Rightarrow> stage_durations" where
  "turn_durations tm ttft =
     \<lparr>sd_embed_ms = to_u64 (tm_embed tm), sd_search_ms = to_u64 (tm_search tm),
      sd_rerank_ms = to_u64 (tm_rerank tm), sd_stuffing_load_ms = to_u64 (tm_stuffing_load tm),
      sd_total_ms = to_u64 (tm_embed tm + tm_search tm + tm_rerank tm + tm_stuffing_load tm + ttft)\<rparr>"

definition build_retrieval_trace_from_generation_ids ::
  "(rstr \<Rightarrow> rstr) \<Rightarrow> uuid \<Rightarrow> rstr \<Rightarrow> rstr option \<Rightarrow> uuid list \<Rightarrow> bool \<Rightarrow> pipeline_outcome \<Rightarrow>
   stage_times \<Rightarrow> token_counts \<Rightarrow> nat \<Rightarrow> nat \<Rightarrow> retrieval_trace" where
  "build_retrieval_trace_from_generation_ids sha notebook query reformulated generation_ids
       record_no_candidates out tm tokens rejected ttft =
     (let tr = trace_new sha notebook query (lit ''chat'') (po_score_domain out);
          tr = (case reformulated of None \<Rightarrow> tr | Some r \<Rightarrow> with_reformulation sha r tr);
          reasons = reason_extend (rt_reasons tr) (po_reasons out);
          reasons = (if record_no_candidates then reason_insert NoCandidates reasons else reasons);
          reasons = (if 0 < rejected then reason_insert CitationRejected reasons else reasons)
      in trace_finish
           (tr\<lparr>rt_generation_ids := dedup (sort generation_ids), rt_candidates := po_counts out,
               rt_unique_parents := po_unique_parents out, rt_tokens := tokens,
               rt_durations := turn_durations tm ttft, rt_reasons := reasons\<rparr>))"

definition build_retrieval_trace ::
  "(rstr \<Rightarrow> rstr) \<Rightarrow> uuid \<Rightarrow> rstr \<Rightarrow> rstr option \<Rightarrow> search_result list \<Rightarrow> pipeline_outcome \<Rightarrow>
   stage_times \<Rightarrow> token_counts \<Rightarrow> nat \<Rightarrow> nat \<Rightarrow> retrieval_trace" where
  "build_retrieval_trace sha notebook query reformulated chunks out tm tokens rejected ttft =
     build_retrieval_trace_from_generation_ids sha notebook query reformulated
       (map generation_id chunks) (chunks = []) out tm tokens rejected ttft"

definition fallback_trace :: "(rstr \<Rightarrow> rstr) \<Rightarrow> uuid \<Rightarrow> rstr \<Rightarrow> reason_code \<Rightarrow> retrieval_trace" where
  "fallback_trace sha notebook query reason =
     (let tr = trace_new sha notebook query (lit ''chat'') None
      in trace_finish (tr\<lparr>rt_reasons := reason_insert reason (rt_reasons tr)\<rparr>))"

definition build_budget_refusal_trace ::
  "(rstr \<Rightarrow> rstr) \<Rightarrow> uuid \<Rightarrow> rstr \<Rightarrow> rstr option \<Rightarrow> pipeline_outcome \<Rightarrow> stage_times \<Rightarrow>
   budget_refusal \<Rightarrow> retrieval_trace" where
  "build_budget_refusal_trace sha notebook query reformulated out tm refusal =
     (let (gens, tokens, no_candidates, reason) =
        (case refusal of
           MandatoryComponents needed allowance tokens gens \<Rightarrow> (gens, tokens, gens = [], PromptOverBudget)
         | NoEvidenceFits tokens gens \<Rightarrow> (gens, tokens, True, EvidenceDroppedForBudget))
      in build_retrieval_trace_from_generation_ids sha notebook query reformulated gens
           no_candidates (record_reason reason out) tm tokens 0 0)"

subsection \<open>What a record shows\<close>

lemma trace_generations_canonical:
  "rt_generation_ids (build_retrieval_trace_from_generation_ids sha nb q r gens nc out tm tok rej ttft) =
     sorted_list_of_set (set gens)"
  by (simp add: build_retrieval_trace_from_generation_ids_def Let_def trace_finish_def
      dedup_sorted_list_of_set)

text \<open>Two questions with the same digest leave the same record.\<close>

lemma trace_hides_the_question:
  "query_hash sha q = query_hash sha q' \<Longrightarrow> map_option (query_hash sha) r = map_option (query_hash sha) r' \<Longrightarrow>
   build_retrieval_trace_from_generation_ids sha nb q r gens nc out tm tok rej ttft =
   build_retrieval_trace_from_generation_ids sha nb q' r' gens nc out tm tok rej ttft"
  by (cases r; cases r')
     (simp_all add: build_retrieval_trace_from_generation_ids_def trace_new_def with_reformulation_def)

lemma reason_finish_not_Nil: "reason_finish s \<noteq> []"
proof -
  have "set (reason_insert Ok []) = {Ok}" by (simp add: set_reason_insert)
  then have "reason_insert Ok [] \<noteq> []" by force
  then show ?thesis by (simp only: reason_finish_def split: if_split) blast
qed

lemma trace_has_a_reason:
  "rt_reasons (build_retrieval_trace_from_generation_ids sha nb q r gens nc out tm tok rej ttft) \<noteq> []"
  by (simp add: build_retrieval_trace_from_generation_ids_def Let_def trace_finish_def
      reason_finish_not_Nil)

end
