(* ===== verification/Prompts.thy ===== *)
theory Prompts
  imports Prompt_Texts Budget
begin

text \<open>
  \<open>llm/prompts.rs\<close> and \<open>llm/fallbacks.rs\<close> with the roles and modes of \<open>llm/types.rs\<close>: which text
  opens, fills and closes a system prompt, and what is answered without a model. The lemmas give
  the exact size of an assembled prompt and what surrounds the evidence in it.
\<close>

subsection \<open>Roles and modes\<close>

fun role_as_str :: "role \<Rightarrow> rstr" where
  "role_as_str User = lit ''user''"
| "role_as_str Assistant = lit ''assistant''"
| "role_as_str System = lit ''system''"

text \<open>An unknown role is read as the user's.\<close>

definition role_from :: "rstr \<Rightarrow> role" where
  "role_from s =
     (if s = lit ''user'' then User else if s = lit ''assistant'' then Assistant
      else if s = lit ''system'' then System else User)"

lemma role_roundtrip: "role_from (role_as_str r) = r"
  by (cases r) (simp_all add: role_from_def lit_def)

datatype teaching_mode = Flash | Deep | Quiz | Glossary | Summary | Timeline

definition all_modes :: "teaching_mode list" where
  "all_modes = [Flash, Deep, Quiz, Glossary, Summary, Timeline]"

fun mode_display_name :: "teaching_mode \<Rightarrow> rstr" where
  "mode_display_name Flash = lit ''Flash''"
| "mode_display_name Deep = lit ''Deep''"
| "mode_display_name Quiz = lit ''Quiz''"
| "mode_display_name Glossary = lit ''Glossary''"
| "mode_display_name Summary = lit ''Summary''"
| "mode_display_name Timeline = lit ''Timeline''"

fun mode_icon :: "teaching_mode \<Rightarrow> rstr" where
  "mode_icon Flash = [9889]"
| "mode_icon Deep = [129504]"
| "mode_icon Quiz = [10067]"
| "mode_icon Glossary = [128214]"
| "mode_icon Summary = [128196]"
| "mode_icon Timeline = [128336]"

fun mode_description :: "teaching_mode \<Rightarrow> rstr" where
  "mode_description Flash = lit ''Quick essential summary''"
| "mode_description Deep = lit ''Complete detailed exploration''"
| "mode_description Quiz = lit ''Interactive multiple-choice quiz''"
| "mode_description Glossary = lit ''Key terms extraction''"
| "mode_description Summary = lit ''Structured summary with sections''"
| "mode_description Timeline = lit ''Chronological events''"

fun mode_str :: "teaching_mode \<Rightarrow> rstr" where
  "mode_str Flash = lit ''flash''"
| "mode_str Deep = lit ''deep''"
| "mode_str Quiz = lit ''quiz''"
| "mode_str Glossary = lit ''glossary''"
| "mode_str Summary = lit ''summary''"
| "mode_str Timeline = lit ''timeline''"

definition user_message :: "rstr \<Rightarrow> llm_message" where
  "user_message c = \<lparr>msg_role = User, msg_content = c\<rparr>"

definition assistant_message :: "rstr \<Rightarrow> llm_message" where
  "assistant_message c = \<lparr>msg_role = Assistant, msg_content = c\<rparr>"

definition system_message :: "rstr \<Rightarrow> llm_message" where
  "system_message c = \<lparr>msg_role = System, msg_content = c\<rparr>"

subsection \<open>Selection\<close>

definition for_provider :: "bool \<Rightarrow> evidence_format" where
  "for_provider supports_native_citations =
     (if supports_native_citations then NativeDocuments else Inline)"

definition is_french :: "rstr \<Rightarrow> bool" where
  "is_french locale = starts_with locale (lit ''fr'')"

definition language_instruction :: "rstr \<Rightarrow> rstr" where
  "language_instruction locale =
     (if starts_with locale (lit ''fr'') then language_fr
      else if starts_with locale (lit ''de'') then language_de
      else if starts_with locale (lit ''es'') then language_es
      else language_en)"

definition template_for :: "teaching_mode \<Rightarrow> rstr \<Rightarrow> rstr" where
  "template_for mode locale =
     (case (mode, is_french locale) of
        (Flash, True) \<Rightarrow> flash_fr
      | (Flash, False) \<Rightarrow> flash_en
      | (Deep, True) \<Rightarrow> deep_fr
      | (Deep, False) \<Rightarrow> deep_en
      | (Quiz, True) \<Rightarrow> quiz_fr
      | (Quiz, False) \<Rightarrow> quiz_en
      | (Glossary, True) \<Rightarrow> glossary_fr
      | (Glossary, False) \<Rightarrow> glossary_en
      | (Summary, True) \<Rightarrow> summary_fr
      | (Summary, False) \<Rightarrow> summary_en
      | (Timeline, True) \<Rightarrow> timeline_fr
      | (Timeline, False) \<Rightarrow> timeline_en)"

definition data_policy :: "evidence_format \<Rightarrow> rstr \<Rightarrow> rstr" where
  "data_policy f locale =
     (case (is_french locale, f) of
        (True, Inline) \<Rightarrow> policy_inline_fr
      | (True, NativeDocuments) \<Rightarrow> policy_native_fr
      | (False, Inline) \<Rightarrow> policy_inline_en
      | (False, NativeDocuments) \<Rightarrow> policy_native_en)"

subsection \<open>Assembly\<close>

definition push_block :: "rstr \<Rightarrow> rstr \<Rightarrow> rstr" where
  "push_block prompt block = (if block = [] then prompt else prompt @ [10, 10] @ block)"

definition assemble :: "rstr \<Rightarrow> rstr \<Rightarrow> rstr option \<Rightarrow> teaching_mode \<Rightarrow> rstr \<Rightarrow> rstr" where
  "assemble policy region memory mode locale =
     foldl push_block policy
       [region, (case memory of None \<Rightarrow> [] | Some m \<Rightarrow> m), template_for mode locale,
        language_instruction locale]"

definition system_prompt_shell ::
  "evidence_format \<Rightarrow> rstr option \<Rightarrow> teaching_mode \<Rightarrow> rstr \<Rightarrow> rstr" where
  "system_prompt_shell f memory mode locale =
     assemble (data_policy f locale) [] memory mode locale"

definition build_system_prompt ::
  "evidence_format \<Rightarrow> rstr \<Rightarrow> rstr option \<Rightarrow> teaching_mode \<Rightarrow> rstr \<Rightarrow> rstr" where
  "build_system_prompt f region memory mode locale =
     (let region = (case f of Inline \<Rightarrow> region | NativeDocuments \<Rightarrow> [])
      in assemble (data_policy f locale) region memory mode locale)"

definition build_messages :: "llm_message list \<Rightarrow> rstr \<Rightarrow> llm_message list" where
  "build_messages conversation question = conversation @ [user_message question]"

subsection \<open>Answers without a model\<close>

record fallbacks =
  fb_no_sources :: rstr
  fb_insufficient_evidence :: rstr

definition fallbacks_fr :: fallbacks where
  "fallbacks_fr = \<lparr>fb_no_sources = lit ''Aucune source n'' @ [39] @ lit ''est disponible dans ce notebook.'',
     fb_insufficient_evidence = lit ''Les sources disponibles ne permettent pas de r'' @ [233] @
       lit ''pondre avec suffisamment de confiance.''\<rparr>"

definition fallbacks_en :: fallbacks where
  "fallbacks_en = \<lparr>fb_no_sources = lit ''No source is available in this notebook.'',
     fb_insufficient_evidence = lit ''The available sources do not support a confident answer.''\<rparr>"

definition fallbacks_de :: fallbacks where
  "fallbacks_de = \<lparr>fb_no_sources = lit ''In diesem Notizbuch ist keine Quelle verf'' @ [252] @ lit ''gbar.'',
     fb_insufficient_evidence = lit ''Die verf'' @ [252] @
       lit ''gbaren Quellen erlauben keine hinreichend sichere Antwort.''\<rparr>"

definition fallbacks_es :: fallbacks where
  "fallbacks_es = \<lparr>fb_no_sources = lit ''No hay ninguna fuente disponible en este cuaderno.'',
     fb_insufficient_evidence = lit ''Las fuentes disponibles no permiten responder con suficiente confianza.''\<rparr>"

definition fallback_texts :: "rstr list" where
  "fallback_texts =
     [fb_no_sources fallbacks_fr, fb_insufficient_evidence fallbacks_fr,
      fb_no_sources fallbacks_en, fb_insufficient_evidence fallbacks_en,
      fb_no_sources fallbacks_de, fb_insufficient_evidence fallbacks_de,
      fb_no_sources fallbacks_es, fb_insufficient_evidence fallbacks_es]"

definition fallbacks_for :: "rstr \<Rightarrow> fallbacks" where
  "fallbacks_for locale =
     (if starts_with locale (lit ''fr'') then fallbacks_fr
      else if starts_with locale (lit ''de'') then fallbacks_de
      else if starts_with locale (lit ''es'') then fallbacks_es
      else fallbacks_en)"

definition no_sources_text :: "rstr \<Rightarrow> rstr" where
  "no_sources_text locale = fb_no_sources (fallbacks_for locale)"

definition insufficient_evidence_text :: "rstr \<Rightarrow> rstr" where
  "insufficient_evidence_text locale = fb_insufficient_evidence (fallbacks_for locale)"

text \<open>Every sentence a locale can answer with is one the evaluator recognises.\<close>

lemma fallback_is_listed:
  "no_sources_text locale \<in> set fallback_texts" "insufficient_evidence_text locale \<in> set fallback_texts"
  by (simp_all add: no_sources_text_def insufficient_evidence_text_def fallbacks_for_def
      fallback_texts_def)

subsection \<open>Sizes\<close>

lemma str_len_push_block:
  "str_len (push_block p b) = str_len p + (if b = [] then 0 else 2 + str_len b)"
  by (simp add: push_block_def len_utf8_def)

text \<open>A block costs its bytes and the blank line before it.\<close>

definition block_size :: "rstr \<Rightarrow> nat" where
  "block_size b = (if b = [] then 0 else 2 + str_len b)"

lemma system_prompt_size:
  "str_len (build_system_prompt f region memory mode locale) =
     str_len (system_prompt_shell f None mode locale) +
     block_size (case f of Inline \<Rightarrow> region | NativeDocuments \<Rightarrow> []) +
     block_size (case memory of None \<Rightarrow> [] | Some m \<Rightarrow> m)"
  by (simp add: build_system_prompt_def system_prompt_shell_def assemble_def str_len_push_block
      block_size_def Let_def)

text \<open>Whatever the evidence, the policy comes first and the language instruction last.\<close>

lemma language_instruction_not_Nil: "language_instruction locale \<noteq> []"
  by (simp add: language_instruction_def language_fr_def language_de_def language_es_def
      language_en_def newline_def lit_def)

lemma foldl_push_block: "foldl push_block (p @ q) bs = p @ foldl push_block q bs"
  by (induction bs arbitrary: q) (simp_all add: push_block_def)

lemma prompt_frame:
  "\<exists>middle. build_system_prompt f region memory mode locale =
     data_policy f locale @ middle @ [10, 10] @ language_instruction locale"
  using foldl_push_block [where q = "[]"]
  by (simp add: build_system_prompt_def assemble_def Let_def push_block_def
      language_instruction_not_Nil)

end
