(* ===== verification/Streaming.thy ===== *)
theory Streaming
  imports Sse_Frames Citation_Resolution Protocol Trace Prompts "HOL-Library.Sublist"
begin

text \<open>
  \<open>api/chat/streaming.rs\<close> and the running of a turn in \<open>api/chat/mod.rs\<close>: from the first byte of a
  provider to the terminal event. What the loop is woken by is a list (shutdown, cancellation,
  bytes, a failure, the end), already in the priority of the \<open>select\<close>; what the client does is a
  list too, consumed one entry before each thing the code sends, so that it can leave at any
  point. The provider's parser, the repositories and the policy are parameters by their answers.
  The lemmas account for a turn: what is sent, what is stored, what is charged, how it ends.
\<close>

subsection \<open>Events of a provider\<close>

datatype llm_stream_event =
  TextDelta rstr
| LlmDone
| LlmError rstr
| LlmNativeCitation native_citation

record native_stream =
  ns_citations :: "located_native list"
  ns_numbers :: "(nat \<times> nat) list"

definition native_new :: native_stream where
  "native_new = \<lparr>ns_citations = [], ns_numbers = []\<rparr>"

datatype client_move = Takes | Leaves

record saved_message =
  sm_content :: rstr
  sm_citations :: "citation list"

datatype domain_event =
  ChatCompleted uuid uuid rstr nat nat
| ChatFailed uuid uuid rstr rstr

text \<open>The state of a turn: what it holds and what it has done.\<close>

record turn =
  tn_response :: rstr
  tn_out :: chat_stream
  tn_frames :: "nat list"
  tn_native :: "native_stream option"
  tn_client :: "client_move list list"
  tn_counted :: bool
  tn_charged :: nat
  tn_ttft :: "nat option"
  tn_saved :: "saved_message list"
  tn_events :: "domain_event list"

definition turn_start :: "bool \<Rightarrow> client_move list list \<Rightarrow> chat_stream \<Rightarrow> turn" where
  "turn_start native client out =
     \<lparr>tn_response = [], tn_out = out, tn_frames = [],
      tn_native = (if native then Some native_new else None), tn_client = client,
      tn_counted = False, tn_charged = 0, tn_ttft = None, tn_saved = [], tn_events = []\<rparr>"

fun client_move_op :: "client_move \<Rightarrow> chat_stream \<Rightarrow> chat_stream" where
  "client_move_op Takes s = receive s"
| "client_move_op Leaves s = close_client s"

definition client_acts :: "turn \<Rightarrow> turn" where
  "client_acts t =
     (case tn_client t of
        [] \<Rightarrow> t
      | ms # rest \<Rightarrow> t\<lparr>tn_client := rest, tn_out := fold client_move_op ms (tn_out t)\<rparr>)"

definition send :: "chat_event \<Rightarrow> turn \<Rightarrow> turn" where
  "send ev t = (let t' = client_acts t in t'\<lparr>tn_out := snd (emit ev (tn_out t'))\<rparr>)"

definition try_send :: "chat_event \<Rightarrow> turn \<Rightarrow> turn" where
  "try_send ev t =
     (let t' = client_acts t in t'\<lparr>tn_out := snd (try_emit_non_terminal ev (tn_out t'))\<rparr>)"

subsection \<open>A chunk\<close>

datatype chunk_result = ChunkContinue | ChunkDone | ChunkTruncated

definition text_delta :: "rstr \<Rightarrow> turn \<Rightarrow> chunk_result \<times> turn" where
  "text_delta delta t =
     (if max_response_size < str_len (tn_response t) + str_len delta then (ChunkTruncated, t)
      else
        let t1 = client_acts (t\<lparr>tn_response := tn_response t @ delta\<rparr>) in
        if cs_closed (tn_out t1) then (ChunkDone, t1)
        else (ChunkContinue, send (ChatChunk delta) t1))"

definition marker_text :: "nat \<Rightarrow> rstr" where
  "marker_text n = lit '' ['' @ show_nat n @ lit '']''"

text \<open>\<open>entry(document_index).or_insert(len + 1)\<close>.\<close>

definition document_number :: "(nat \<times> nat) list \<Rightarrow> nat \<Rightarrow> nat \<times> (nat \<times> nat) list" where
  "document_number numbers i =
     (let next_number = length numbers + 1 in
      case map_of numbers i of
        Some n \<Rightarrow> (n, numbers)
      | None \<Rightarrow> (next_number, numbers @ [(i, next_number)]))"

definition native_citation_delta :: "native_citation \<Rightarrow> turn \<Rightarrow> chunk_result \<times> turn" where
  "native_citation_delta c t =
     (case tn_native t of
        None \<Rightarrow> (ChunkContinue, t)
      | Some st \<Rightarrow>
          let (number, numbers) = document_number (ns_numbers st) (nc_document_index c);
              marker = marker_text number
          in if max_response_size < str_len (tn_response t) + str_len marker
             then (ChunkTruncated, t\<lparr>tn_native := Some (st\<lparr>ns_numbers := numbers\<rparr>)\<rparr>)
             else (ChunkContinue, send (ChatChunk marker)
               (t\<lparr>tn_native := Some \<lparr>ns_citations = ns_citations st @ [(c, str_len (tn_response t))],
                    ns_numbers = numbers\<rparr>,
                  tn_response := tn_response t @ marker\<rparr>)))"

text \<open>\<open>parse\<close> is the provider's parser and \<open>name\<close> its name.\<close>

fun process_data ::
  "(rstr \<Rightarrow> llm_stream_event option) \<Rightarrow> rstr \<Rightarrow> rstr list \<Rightarrow> turn \<Rightarrow> (app_error + chunk_result) \<times> turn" where
  "process_data parse name [] t = (Inr ChunkContinue, t)"
| "process_data parse name (d # ds) t =
     (case parse d of
        None \<Rightarrow> process_data parse name ds t
      | Some (TextDelta s) \<Rightarrow>
          (case text_delta s t of
             (ChunkContinue, t') \<Rightarrow> process_data parse name ds t'
           | (r, t') \<Rightarrow> (Inr r, t'))
      | Some (LlmNativeCitation c) \<Rightarrow>
          (case native_citation_delta c t of
             (ChunkContinue, t') \<Rightarrow> process_data parse name ds t'
           | (r, t') \<Rightarrow> (Inr r, t'))
      | Some LlmDone \<Rightarrow> (Inr ChunkDone, t)
      | Some (LlmError m) \<Rightarrow> (Inl (app_error.ProviderError (name @ lit '' error: '' @ m)), t))"

definition process_chunk ::
  "(rstr \<Rightarrow> llm_stream_event option) \<Rightarrow> rstr \<Rightarrow> nat list \<Rightarrow> turn \<Rightarrow> (app_error + chunk_result) \<times> turn" where
  "process_chunk parse name bytes t =
     (case frame_push bytes (tn_frames t) of
        Inl e \<Rightarrow> (Inl e, t)
      | Inr (data, rest) \<Rightarrow> process_data parse name data (t\<lparr>tn_frames := rest\<rparr>))"

subsection \<open>The loop\<close>

text \<open>
  What the services answer: opening the stream, charging the permit, storing a message outside
  and inside the lease's transaction, the sources, writing the log, and the suggestions the
  follow-up model returns once they are parsed.
\<close>

datatype opening_result = Opened | OpenShutdown | OpenCancelled | OpenFailed app_error | OpenTimedOut

record turn_services =
  ts_opening :: opening_result
  ts_charge :: "app_error + unit"
  ts_save :: "app_error + uuid"
  ts_save_leased :: "app_error + uuid"
  ts_sources :: source_service
  ts_rag_log :: "app_error + uuid"
  ts_suggestions :: "rstr \<Rightarrow> rstr list option"

record turn_params =
  tp_unicode :: unicode
  tp_sha :: "rstr \<Rightarrow> rstr"
  tp_parse :: "rstr \<Rightarrow> llm_stream_event option"
  tp_provider :: rstr
  tp_default_model :: rstr
  tp_model :: "rstr option"
  tp_timeout_secs :: nat
  tp_account :: uuid
  tp_notebook :: uuid
  tp_question :: rstr
  tp_reformulated :: "rstr option"
  tp_chunks :: "search_result list"
  tp_documents :: "rag_document list"
  tp_outcome :: pipeline_outcome
  tp_times :: stage_times
  tp_tokens :: token_counts
  tp_teaching :: teaching_mode
  tp_locale :: rstr
  tp_mistral :: bool

definition model_name :: "turn_params \<Rightarrow> rstr" where
  "model_name p = (case tp_model p of None \<Rightarrow> tp_default_model p | Some m \<Rightarrow> m)"

definition save_partial_response :: "turn_services \<Rightarrow> rstr \<Rightarrow> turn \<Rightarrow> turn" where
  "save_partial_response sv marker t =
     (case ts_save sv of
        Inl _ \<Rightarrow> t
      | Inr _ \<Rightarrow> t\<lparr>tn_saved := tn_saved t @
          [\<lparr>sm_content = tn_response t @ lit '' '' @ marker, sm_citations = []\<rparr>]\<rparr>)"

definition save_if_started :: "turn_services \<Rightarrow> rstr \<Rightarrow> turn \<Rightarrow> turn" where
  "save_if_started sv marker t =
     (if tn_response t = [] then t else save_partial_response sv marker t)"

datatype poll =
  PollShutdown
| PollCancelled
| PollBytes "nat list" nat
| PollFailed app_error
| PollEnd

datatype loop_exit = Pending | Returned | Failed app_error | Finished

text \<open>After a chunk that goes on: the time of the first text, and one charge for the turn.\<close>

definition note_first_token :: "nat \<Rightarrow> turn \<Rightarrow> turn" where
  "note_first_token elapsed t =
     (if tn_ttft t = None \<and> tn_response t \<noteq> [] then t\<lparr>tn_ttft := Some elapsed\<rparr> else t)"

definition charge_once :: "turn_services \<Rightarrow> turn \<Rightarrow> (app_error + unit) \<times> turn" where
  "charge_once sv t =
     (if \<not> tn_counted t \<and> tn_response t \<noteq> []
      then (ts_charge sv, t\<lparr>tn_counted := True,
              tn_charged := tn_charged t + (case ts_charge sv of Inl _ \<Rightarrow> 0 | Inr _ \<Rightarrow> 1)\<rparr>)
      else (Inr (), t))"

fun stream_loop :: "turn_params \<Rightarrow> turn_services \<Rightarrow> poll list \<Rightarrow> turn \<Rightarrow> loop_exit \<times> turn" where
  "stream_loop p sv [] t = (Pending, t)"
| "stream_loop p sv (PollShutdown # ps) t =
     (Returned, save_if_started sv (lit ''[server shutdown]'')
        (send (ChatShutdown (lit ''Server shutting down'')) t))"
| "stream_loop p sv (PollCancelled # ps) t =
     (Returned, save_if_started sv (lit ''[interrupted]'') t)"
| "stream_loop p sv (PollFailed e # ps) t = (Failed e, t)"
| "stream_loop p sv (PollEnd # ps) t = (Finished, t)"
| "stream_loop p sv (PollBytes bytes elapsed # ps) t =
     (case process_chunk (tp_parse p) (tp_provider p) bytes t of
        (Inl e, t') \<Rightarrow> (Failed e, t')
      | (Inr ChunkDone, t') \<Rightarrow> (Finished, t')
      | (Inr ChunkTruncated, t') \<Rightarrow>
          (Returned, send (ChatError (lit ''Response size limit exceeded''))
             (save_partial_response sv (lit ''[truncated]'') t'))
      | (Inr ChunkContinue, t') \<Rightarrow>
          (case charge_once sv (note_first_token elapsed t') of
             (Inl e, t'') \<Rightarrow> (Failed e, t'')
           | (Inr _, t'') \<Rightarrow> stream_loop p sv ps t''))"

subsection \<open>After the last token\<close>

definition citation_input_of :: "turn_params \<Rightarrow> turn \<Rightarrow> citation_input" where
  "citation_input_of p t =
     \<lparr>ci_native = tp_documents p \<noteq> [],
      ci_citations = (case tn_native t of None \<Rightarrow> [] | Some n \<Rightarrow> ns_citations n),
      ci_numbers = (case tn_native t of None \<Rightarrow> [] | Some n \<Rightarrow> ns_numbers n),
      ci_documents = tp_documents p, ci_chunks = tp_chunks p, ci_response = tn_response t\<rparr>"

definition turn_trace :: "turn_params \<Rightarrow> nat \<Rightarrow> turn \<Rightarrow> retrieval_trace" where
  "turn_trace p rejected t =
     build_retrieval_trace (tp_sha p) (tp_notebook p) (tp_question p) (tp_reformulated p) (tp_chunks p)
       (tp_outcome p) (tp_times p) (tp_tokens p) rejected (case tn_ttft t of None \<Rightarrow> 0 | Some n \<Rightarrow> n)"

text \<open>
  Storing the answer. Under a lease the message is stored in its transaction, the citations are
  offered to the channel, and the transaction commits; when the commit fails nothing is stored.
\<close>

definition persist ::
  "turn_services \<Rightarrow> resolved_citations \<Rightarrow> turn \<Rightarrow> (app_error + uuid) \<times> turn" where
  "persist sv r t =
     (let message = \<lparr>sm_content = tn_response t, sm_citations = rc_citations r\<rparr> in
      case rc_lease r of
        Some _ \<Rightarrow>
          (case ts_save_leased sv of
             Inl e \<Rightarrow> (Inl e, t)
           | Inr i \<Rightarrow>
               let t1 = fold (\<lambda>(index, source). try_send (ChatCitation index source)) (rc_event_refs r) t;
                   t2 = try_send (ChatCitations (rc_citations r)) t1
               in (case sv_release (ts_sources sv) of
                     Inl e \<Rightarrow> (Inl e, t2)
                   | Inr _ \<Rightarrow> (Inr i, t2\<lparr>tn_saved := tn_saved t2 @ [message]\<rparr>)))
      | None \<Rightarrow>
          (case ts_save sv of
             Inl e \<Rightarrow> (Inl e, t)
           | Inr i \<Rightarrow>
               (Inr i, send (ChatCitations (rc_citations r)) (t\<lparr>tn_saved := tn_saved t @ [message]\<rparr>))))"

record chunk_log_entry =
  cl_chunk_id :: uuid
  cl_source_id :: uuid
  cl_chunk_index :: int
  cl_relevance_score :: rfloat

record rag_log_entry =
  rl_notebook_id :: uuid
  rl_user_id :: uuid
  rl_query_hash :: rstr
  rl_reformulated_query_hash :: "rstr option"
  rl_chunks_retrieved :: "chunk_log_entry list"
  rl_response_id :: "uuid option"
  rl_retrieval_score_avg :: "rfloat option"
  rl_context_relevance :: "rfloat option"
  rl_model :: "rstr option"
  rl_provider :: "rstr option"

definition rag_log_entry_of :: "turn_params \<Rightarrow> uuid \<Rightarrow> rag_log_entry" where
  "rag_log_entry_of p message_id =
     \<lparr>rl_notebook_id = tp_notebook p, rl_user_id = tp_account p,
      rl_query_hash = query_hash (tp_sha p) (tp_question p),
      rl_reformulated_query_hash = map_option (query_hash (tp_sha p)) (tp_reformulated p),
      rl_chunks_retrieved = map (\<lambda>c. \<lparr>cl_chunk_id = chunk_id c, cl_source_id = source_id c,
        cl_chunk_index = chunk_index c, cl_relevance_score = relevance c\<rparr>) (tp_chunks p),
      rl_response_id = Some message_id, rl_retrieval_score_avg = mean_relevance (tp_chunks p),
      rl_context_relevance = mean_relevance (tp_chunks p), rl_model = Some (model_name p),
      rl_provider = Some (tp_provider p)\<rparr>"

definition record_rag_log :: "turn_services \<Rightarrow> turn_params \<Rightarrow> uuid option" where
  "record_rag_log sv p =
     (if tp_chunks p = [] then None
      else case ts_rag_log sv of Inl _ \<Rightarrow> None | Inr i \<Rightarrow> Some i)"

definition lang_instruction :: "rstr \<Rightarrow> rstr" where
  "lang_instruction locale =
     (if starts_with locale (lit ''fr'')
      then lit ''The questions MUST be in French (Fran'' @ [231] @ lit ''ais).''
      else if starts_with locale (lit ''de'') then lit ''The questions MUST be in German (Deutsch).''
      else if starts_with locale (lit ''es'')
      then lit ''The questions MUST be in Spanish (Espa'' @ [241] @ lit ''ol).''
      else lit ''The questions MUST be in English.'')"

text \<open>The titles come out of a hash set; the first occurrences stand for its order.\<close>

definition suggestion_prompt :: "turn_params \<Rightarrow> rstr \<Rightarrow> rstr" where
  "suggestion_prompt p response =
     lit ''Based on this Q&A exchange and sources, suggest 3 short follow-up questions (max 80 chars each) the user might want to ask next. Be contextual and specific. '' @
     lang_instruction (tp_locale p) @ [10, 10] @ lit ''User question: '' @ tp_question p @ [10, 10] @
     lit ''Assistant response (excerpt): '' @ take 500 response @ [10, 10] @
     lit ''Sources used: '' @ join (lit '', '') (remdups (map source_title (tp_chunks p))) @ [10, 10] @
     lit ''Respond ONLY with JSON: {'' @ [34] @ lit ''suggestions'' @ [34] @ lit '': ['' @ [34] @
     lit ''Question 1?'' @ [34] @ lit '', '' @ [34] @ lit ''Question 2?'' @ [34] @ lit '', '' @ [34] @
     lit ''Question 3?'' @ [34] @ lit '']}''"

definition follow_ups :: "turn_services \<Rightarrow> turn_params \<Rightarrow> turn \<Rightarrow> turn" where
  "follow_ups sv p t =
     (if tp_teaching p = Quiz \<or> \<not> tp_mistral p then t
      else case ts_suggestions sv (suggestion_prompt p (tn_response t)) of
        None \<Rightarrow> t
      | Some ss \<Rightarrow> if ss = [] then t else send (ChatFollowUps ss) t)"

definition complete_turn :: "turn_params \<Rightarrow> turn_services \<Rightarrow> nat \<Rightarrow> turn \<Rightarrow> loop_exit \<times> turn" where
  "complete_turn p sv duration t =
     (let t0 = t\<lparr>tn_out := finish_generation (tn_out t)\<rparr>;
          r = resolve_citations (tp_unicode p) (ts_sources sv) (citation_input_of p t0)
      in case persist sv r t0 of
        (Inl e, t1) \<Rightarrow> (Failed e, t1)
      | (Inr message_id, t1) \<Rightarrow>
          let t2 = send (ChatMetrics (mean_relevance (tp_chunks p))) t1;
              t3 = follow_ups sv p t2;
              t4 = send (ChatDone (model_name p) (tp_provider p) (record_rag_log sv p)) t3
          in (Finished, t4\<lparr>tn_events := tn_events t4 @
               [ChatCompleted (tp_account p) (tp_notebook p) (tp_provider p) (to_u64 duration)
                  (length (tp_chunks p))]\<rparr>))"

definition stream_llm_response ::
  "turn_params \<Rightarrow> turn_services \<Rightarrow> nat \<Rightarrow> poll list \<Rightarrow> turn \<Rightarrow> loop_exit \<times> turn" where
  "stream_llm_response p sv duration polls t =
     (case ts_opening sv of
        OpenShutdown \<Rightarrow> (Returned, send (ChatShutdown (lit ''Server shutting down'')) t)
      | OpenCancelled \<Rightarrow> (Returned, t)
      | OpenFailed e \<Rightarrow> (Failed e, t)
      | OpenTimedOut \<Rightarrow> (Failed (Llm (LlmTimeout (tp_provider p) (tp_timeout_secs p))), t)
      | Opened \<Rightarrow>
          (case stream_loop p sv polls t of
             (Finished, t') \<Rightarrow> complete_turn p sv duration t'
           | r \<Rightarrow> r))"

fun chat_error_type :: "app_error \<Rightarrow> rstr" where
  "chat_error_type (Forbidden _) = lit ''usage_limit''"
| "chat_error_type (Llm (LlmTimeout _ _)) = lit ''timeout''"
| "chat_error_type (Llm _) = lit ''provider_error''"
| "chat_error_type (Validation _) = lit ''validation_error''"
| "chat_error_type (Database _) = lit ''database_error''"
| "chat_error_type _ = lit ''internal_error''"

definition run_llm_stream ::
  "turn_params \<Rightarrow> turn_services \<Rightarrow> nat \<Rightarrow> poll list \<Rightarrow> turn \<Rightarrow> loop_exit \<times> turn" where
  "run_llm_stream p sv duration polls t =
     (case stream_llm_response p sv duration polls t of
        (Failed e, t') \<Rightarrow>
          (Failed e, send (ChatError (app_error_text e))
             (t'\<lparr>tn_events := tn_events t' @
                [ChatFailed (tp_account p) (tp_notebook p) (tp_provider p) (chat_error_type e)]\<rparr>))
      | r \<Rightarrow> r)"

subsection \<open>The client\<close>

fun chunk_text :: "chat_event \<Rightarrow> rstr" where
  "chunk_text (ChatChunk s) = s"
| "chunk_text _ = []"

definition sent_text :: "chat_stream \<Rightarrow> rstr" where
  "sent_text s = concat (map chunk_text (cs_sent s))"

lemma chunk_text_Nil: "\<not> is_chunk_event ev \<Longrightarrow> chunk_text ev = []"
  by (cases ev) simp_all

lemma client_moves:
  "cs_sent (fold client_move_op ms s) = cs_sent s"
  "cs_terminated (fold client_move_op ms s) = cs_terminated s"
  "cs_generation_finished (fold client_move_op ms s) = cs_generation_finished s"
  "cs_closed s \<Longrightarrow> cs_closed (fold client_move_op ms s)"
  "stream_inv s \<Longrightarrow> stream_inv (fold client_move_op ms s)"
proof -
  have one: "cs_sent (client_move_op m s) = cs_sent s"
      "cs_terminated (client_move_op m s) = cs_terminated s"
      "cs_generation_finished (client_move_op m s) = cs_generation_finished s"
      "cs_closed s \<Longrightarrow> cs_closed (client_move_op m s)"
      "stream_inv s \<Longrightarrow> stream_inv (client_move_op m s)" for m s
    by (cases m; simp add: receive_def close_client_def stream_inv_def)+
  show "cs_sent (fold client_move_op ms s) = cs_sent s"
    "cs_terminated (fold client_move_op ms s) = cs_terminated s"
    "cs_generation_finished (fold client_move_op ms s) = cs_generation_finished s"
    "cs_closed s \<Longrightarrow> cs_closed (fold client_move_op ms s)"
    "stream_inv s \<Longrightarrow> stream_inv (fold client_move_op ms s)"
    by (induction ms arbitrary: s) (simp_all add: one)
qed

lemma client_acts_keeps [simp]:
  "tn_response (client_acts t) = tn_response t" "tn_frames (client_acts t) = tn_frames t"
  "tn_native (client_acts t) = tn_native t" "tn_counted (client_acts t) = tn_counted t"
  "tn_charged (client_acts t) = tn_charged t" "tn_saved (client_acts t) = tn_saved t"
  "tn_events (client_acts t) = tn_events t" "tn_ttft (client_acts t) = tn_ttft t"
  by (simp_all add: client_acts_def split: list.split)

lemma client_acts_out [simp]:
  "cs_sent (tn_out (client_acts t)) = cs_sent (tn_out t)"
  "cs_terminated (tn_out (client_acts t)) = cs_terminated (tn_out t)"
  "cs_generation_finished (tn_out (client_acts t)) = cs_generation_finished (tn_out t)"
  by (simp_all add: client_acts_def client_moves split: list.split)

lemma client_acts_inv:
  "cs_closed (tn_out t) \<Longrightarrow> cs_closed (tn_out (client_acts t))"
  "stream_inv (tn_out t) \<Longrightarrow> stream_inv (tn_out (client_acts t))"
  by (simp_all add: client_acts_def client_moves split: list.split)

lemma sent_text_acts [simp]: "sent_text (tn_out (client_acts t)) = sent_text (tn_out t)"
  by (simp add: sent_text_def)

lemma send_keeps [simp]:
  "tn_response (send ev t) = tn_response t" "tn_counted (send ev t) = tn_counted t"
  "tn_charged (send ev t) = tn_charged t" "tn_saved (send ev t) = tn_saved t"
  "tn_events (send ev t) = tn_events t" "tn_native (send ev t) = tn_native t"
  "tn_frames (send ev t) = tn_frames t" "tn_ttft (send ev t) = tn_ttft t"
  by (simp_all add: send_def Let_def)

lemma try_send_keeps [simp]:
  "tn_response (try_send ev t) = tn_response t" "tn_counted (try_send ev t) = tn_counted t"
  "tn_charged (try_send ev t) = tn_charged t" "tn_saved (try_send ev t) = tn_saved t"
  "tn_events (try_send ev t) = tn_events t"
  by (simp_all add: try_send_def Let_def)

lemma emit_facts:
  "cs_generation_finished (snd (emit ev s)) = cs_generation_finished s"
  "cs_closed (snd (emit ev s)) = cs_closed s"
  "\<not> is_terminal ev \<Longrightarrow> cs_terminated (snd (emit ev s)) = cs_terminated s"
  "\<not> is_chunk_event ev \<Longrightarrow> sent_text (snd (emit ev s)) = sent_text s"
  "stream_inv s \<Longrightarrow> stream_inv (snd (emit ev s))"
  using stream_inv_op [of s "Emit ev"]
  by (auto simp: emit_def emit_admit_def emit_send_def sent_text_def chunk_text_Nil)

lemma emit_terminal:
  assumes "is_terminal ev" and "\<not> cs_terminated s"
  shows "cs_terminated (snd (emit ev s))"
    and "cs_closed s \<or> cs_sent (snd (emit ev s)) = cs_sent s @ [ev]"
  using assms not_both [of ev]
  by (auto simp: emit_def emit_admit_def emit_send_def phase_drops_def)

lemma try_emit_facts:
  "cs_generation_finished (snd (try_emit_non_terminal ev s)) = cs_generation_finished s"
  "cs_closed (snd (try_emit_non_terminal ev s)) = cs_closed s"
  "cs_terminated (snd (try_emit_non_terminal ev s)) = cs_terminated s"
  "\<not> is_chunk_event ev \<Longrightarrow> sent_text (snd (try_emit_non_terminal ev s)) = sent_text s"
  "stream_inv s \<Longrightarrow> stream_inv (snd (try_emit_non_terminal ev s))"
  using stream_inv_op [of s "TryEmit ev"]
  by (auto simp: try_emit_non_terminal_def sent_text_def chunk_text_Nil)

subsection \<open>What every step keeps\<close>

definition turn_ok :: "turn \<Rightarrow> bool" where
  "turn_ok t \<longleftrightarrow>
     stream_inv (tn_out t) \<and> str_len (tn_response t) \<le> max_response_size \<and>
     prefix (sent_text (tn_out t)) (tn_response t) \<and>
     (cs_closed (tn_out t) \<or> sent_text (tn_out t) = tn_response t) \<and>
     tn_charged t \<le> (if tn_counted t then 1 else 0) \<and> (tn_counted t \<longrightarrow> tn_response t \<noteq> [])"

definition loop_ok :: "turn \<Rightarrow> bool" where
  "loop_ok t \<longleftrightarrow>
     turn_ok t \<and> \<not> cs_terminated (tn_out t) \<and> \<not> cs_generation_finished (tn_out t) \<and>
     tn_saved t = [] \<and> tn_events t = []"

lemma turn_ok_acts: "turn_ok t \<Longrightarrow> turn_ok (client_acts t)"
  using client_acts_inv [of t] by (auto simp: turn_ok_def)

lemma turn_ok_send: "turn_ok t \<Longrightarrow> \<not> is_chunk_event ev \<Longrightarrow> turn_ok (send ev t)"
  using turn_ok_acts [of t] by (auto simp: turn_ok_def send_def Let_def emit_facts)

lemma turn_ok_try_send: "turn_ok t \<Longrightarrow> \<not> is_chunk_event ev \<Longrightarrow> turn_ok (try_send ev t)"
  using turn_ok_acts [of t] by (auto simp: turn_ok_def try_send_def Let_def try_emit_facts)

text \<open>Text added to the response and sent on an open stream stays in step with it.\<close>

lemma send_chunk_ok:
  assumes "loop_ok t" and "str_len (tn_response t) + str_len d \<le> max_response_size"
    and "tn_response t' = tn_response t @ d" and "sent_text (tn_out t') = sent_text (tn_out t)"
    and "stream_inv (tn_out t')" and "cs_closed (tn_out t) \<longrightarrow> cs_closed (tn_out t')"
    and "\<not> cs_terminated (tn_out t')" "\<not> cs_generation_finished (tn_out t')" "tn_saved t' = []"
    and "tn_events t' = []" "tn_counted t' = tn_counted t" "tn_charged t' = tn_charged t"
  shows "loop_ok (send (ChatChunk d) t')"
proof -
  let ?s = "tn_out (client_acts t')"
  have out: "tn_out (send (ChatChunk d) t') =
      (if cs_closed ?s then ?s else ?s\<lparr>cs_sent := cs_sent (tn_out t') @ [ChatChunk d]\<rparr>)"
    using assms(7,8)
    by (simp add: send_def Let_def emit_def emit_admit_def emit_send_def phase_drops_def)
  have inv: "stream_inv (tn_out (send (ChatChunk d) t'))"
    using emit_facts(5) client_acts_inv(2) assms(5) by (simp add: send_def Let_def)
  have closed: "cs_closed (tn_out t) \<Longrightarrow> cs_closed ?s"
    using assms(6) client_acts_inv(1) by blast
  show ?thesis
    using assms closed inv unfolding loop_ok_def turn_ok_def
    by (auto simp: out sent_text_def)
qed

lemma text_delta_ok:
  assumes "loop_ok t" and "text_delta d t = (r, t')"
  shows "loop_ok t'"
proof (cases "max_response_size < str_len (tn_response t) + str_len d")
  case False
  let ?t = "client_acts (t\<lparr>tn_response := tn_response t @ d\<rparr>)"
  have keep: "stream_inv (tn_out ?t)" "cs_closed (tn_out t) \<longrightarrow> cs_closed (tn_out ?t)"
    using client_acts_inv [of "t\<lparr>tn_response := tn_response t @ d\<rparr>"] assms(1)
    by (simp_all add: loop_ok_def turn_ok_def)
  show ?thesis
  proof (cases "cs_closed (tn_out ?t)")
    case True
    then show ?thesis
      using assms False keep by (auto simp: text_delta_def Let_def loop_ok_def turn_ok_def)
  next
    case c: False
    then have t': "t' = send (ChatChunk d) ?t"
      using assms(2) False by (simp add: text_delta_def Let_def)
    show ?thesis unfolding t'
      by (rule send_chunk_ok [OF assms(1)])
        (use assms(1) False keep in \<open>simp_all add: loop_ok_def\<close>)
  qed
qed (use assms in \<open>simp add: text_delta_def\<close>)

lemma native_citation_delta_ok:
  assumes "loop_ok t" and "native_citation_delta c t = (r, t')"
  shows "loop_ok t'"
proof (cases "tn_native t")
  case (Some st)
  obtain number numbers
    where nn: "document_number (ns_numbers st) (nc_document_index c) = (number, numbers)" by force
  show ?thesis
  proof (cases "max_response_size < str_len (tn_response t) + str_len (marker_text number)")
    case True
    then show ?thesis
      using assms Some nn by (auto simp: native_citation_delta_def Let_def loop_ok_def turn_ok_def)
  next
    case False
    then have t': "t' = send (ChatChunk (marker_text number))
        (t\<lparr>tn_native := Some \<lparr>ns_citations = ns_citations st @ [(c, str_len (tn_response t))],
             ns_numbers = numbers\<rparr>, tn_response := tn_response t @ marker_text number\<rparr>)"
      using assms(2) Some nn by (simp add: native_citation_delta_def Let_def)
    show ?thesis unfolding t'
      by (rule send_chunk_ok [OF assms(1)])
        (use assms(1) False in \<open>simp_all add: loop_ok_def turn_ok_def\<close>)
  qed
qed (use assms in \<open>simp add: native_citation_delta_def\<close>)

lemma process_data_ok:
  "loop_ok t \<Longrightarrow> process_data parse name ds t = (r, t') \<Longrightarrow> loop_ok t'"
proof (induction ds arbitrary: t)
  case (Cons d ds)
  show ?case
  proof (cases "parse d")
    case (Some ev)
    show ?thesis
    proof (cases ev)
      case (TextDelta s)
      obtain q u where "text_delta s t = (q, u)" by force
      with Cons Some TextDelta text_delta_ok [OF Cons.prems(1) this] show ?thesis
        by (cases q) auto
    next
      case (LlmNativeCitation c)
      obtain q u where "native_citation_delta c t = (q, u)" by force
      with Cons Some LlmNativeCitation native_citation_delta_ok [OF Cons.prems(1) this] show ?thesis
        by (cases q) auto
    qed (use Cons Some in auto)
  qed (use Cons in auto)
qed auto

lemma process_chunk_ok:
  assumes "loop_ok t" and "process_chunk parse name bytes t = (r, t')"
  shows "loop_ok t'"
proof (cases "frame_push bytes (tn_frames t)")
  case (Inr dr)
  have "loop_ok (t\<lparr>tn_frames := snd dr\<rparr>)" using assms(1) by (simp add: loop_ok_def turn_ok_def)
  from process_data_ok [OF this] show ?thesis
    using assms(2) Inr by (auto simp: process_chunk_def split_def)
qed (use assms in \<open>simp add: process_chunk_def\<close>)

subsection \<open>How a turn ends\<close>

definition terminal_sent :: "turn \<Rightarrow> bool" where
  "terminal_sent t \<longleftrightarrow> cs_terminated (tn_out t) \<and>
     (cs_closed (tn_out t) \<or> cs_sent (tn_out t) \<noteq> [] \<and> is_terminal (last (cs_sent (tn_out t))))"

definition stop_markers :: "rstr list" where
  "stop_markers = [lit ''[server shutdown]'', lit ''[interrupted]'', lit ''[truncated]'']"

definition partial_of :: "rstr \<Rightarrow> saved_message \<Rightarrow> bool" where
  "partial_of r m \<longleftrightarrow> sm_citations m = [] \<and> (\<exists>k\<in>set stop_markers. sm_content m = r @ lit '' '' @ k)"

lemma sends_not_terminal:
  "\<not> is_terminal ev \<Longrightarrow> cs_terminated (tn_out (send ev t)) = cs_terminated (tn_out t)"
  "cs_terminated (tn_out (try_send ev t)) = cs_terminated (tn_out t)"
  by (simp_all add: send_def try_send_def Let_def emit_facts try_emit_facts)

lemma terminal_sent_send:
  assumes "is_terminal ev" and "\<not> cs_terminated (tn_out t)"
  shows "terminal_sent (send ev t)"
  using emit_terminal [of ev "tn_out (client_acts t)"] assms emit_facts(2)
  by (auto simp: terminal_sent_def send_def Let_def)

lemma save_partial_fields [simp]:
  "tn_out (save_partial_response sv k t) = tn_out t"
  "tn_response (save_partial_response sv k t) = tn_response t"
  "tn_events (save_partial_response sv k t) = tn_events t"
  "turn_ok (save_partial_response sv k t) = turn_ok t"
  "terminal_sent (save_partial_response sv k t) = terminal_sent t"
  by (auto simp: save_partial_response_def turn_ok_def terminal_sent_def split: sum.split)

lemma save_if_started_terminal [simp]: "terminal_sent (save_if_started sv k t) = terminal_sent t"
  by (simp add: save_if_started_def)

lemma save_partial_saved:
  assumes "tn_saved t = []" and "k \<in> set stop_markers"
  shows "length (tn_saved (save_partial_response sv k t)) \<le> 1 \<and>
    list_all (partial_of (tn_response t)) (tn_saved (save_partial_response sv k t))"
  using assms by (auto simp: save_partial_response_def partial_of_def split: sum.split)

definition cut_short :: "turn_services \<Rightarrow> turn \<Rightarrow> bool" where
  "cut_short sv t \<longleftrightarrow>
     length (tn_saved t) \<le> 1 \<and> list_all (partial_of (tn_response t)) (tn_saved t) \<and>
     (ts_opening sv = Opened \<and> tn_response t \<noteq> [] \<and> \<not> isl (ts_save sv) \<longrightarrow> tn_saved t \<noteq> [])"

definition returned_ok :: "turn_services \<Rightarrow> turn \<Rightarrow> bool" where
  "returned_ok sv t \<longleftrightarrow> turn_ok t \<and> tn_events t = [] \<and> cut_short sv t"

lemma returned_ok_send:
  "returned_ok sv t \<Longrightarrow> \<not> is_chunk_event ev \<Longrightarrow> returned_ok sv (send ev t)"
  by (simp add: returned_ok_def cut_short_def turn_ok_send)

lemma returned_ok_save:
  "turn_ok t \<Longrightarrow> tn_events t = [] \<Longrightarrow> tn_saved t = [] \<Longrightarrow> k \<in> set stop_markers \<Longrightarrow>
   returned_ok sv (save_partial_response sv k t)"
  using save_partial_saved [of t k sv] save_partial_fields(4) [of sv k t]
  by (auto simp: returned_ok_def cut_short_def)
    (auto simp: save_partial_response_def split: sum.splits)

lemma returned_ok_save_if_started:
  "turn_ok t \<Longrightarrow> tn_events t = [] \<Longrightarrow> tn_saved t = [] \<Longrightarrow> k \<in> set stop_markers \<Longrightarrow>
   returned_ok sv (save_if_started sv k t)"
  using returned_ok_save [of t k sv] by (simp add: save_if_started_def returned_ok_def cut_short_def)

lemma loop_okD:
  "loop_ok t \<Longrightarrow> turn_ok t" "loop_ok t \<Longrightarrow> \<not> cs_terminated (tn_out t)"
  "loop_ok t \<Longrightarrow> tn_saved t = []" "loop_ok t \<Longrightarrow> tn_events t = []"
  by (simp_all add: loop_ok_def)

lemma charge_once_ok:
  "loop_ok t \<Longrightarrow> loop_ok (snd (charge_once sv (note_first_token n t)))"
  by (auto simp: charge_once_def note_first_token_def loop_ok_def turn_ok_def split: sum.split)

lemma markers: "lit ''[server shutdown]'' \<in> set stop_markers" "lit ''[interrupted]'' \<in> set stop_markers"
  "lit ''[truncated]'' \<in> set stop_markers"
  by (simp_all add: stop_markers_def)

lemma stream_loop_ok:
  assumes "loop_ok t" and "stream_loop p sv polls t = (exit, t')"
  shows "if exit = Returned then returned_ok sv t' \<and> (PollCancelled \<in> set polls \<or> terminal_sent t')
         else loop_ok t'"
  using assms
proof (induction p sv polls t rule: stream_loop.induct)
  case (2 p sv ps t)
  let ?t = "send (ChatShutdown (lit ''Server shutting down'')) t"
  have "turn_ok ?t" "tn_events ?t = []" "tn_saved ?t = []" "terminal_sent ?t"
    using loop_okD [OF 2(1)] by (simp_all add: turn_ok_send terminal_sent_send)
  with 2(2) returned_ok_save_if_started [OF this(1-3) markers(1), of sv] show ?case
    by auto
next
  case (3 p sv ps t)
  with returned_ok_save_if_started [OF loop_okD(1,4,3) markers(2), OF 3(1) 3(1) 3(1), of sv]
  show ?case by auto
next
  case (6 p sv bytes elapsed ps t)
  obtain r u where chunk: "process_chunk (tp_parse p) (tp_provider p) bytes t = (r, u)" by force
  note u = process_chunk_ok [OF 6(2) chunk]
  show ?case
  proof (cases r)
    case (Inl e)
    then show ?thesis using 6(3) chunk u by auto
  next
    case (Inr q)
    show ?thesis
    proof (cases q)
      case ChunkContinue
      obtain c v where cv: "charge_once sv (note_first_token elapsed u) = (c, v)" by force
      then have "loop_ok v" using charge_once_ok [OF u, of sv elapsed] by simp
      then show ?thesis using 6(1,3) chunk Inr ChunkContinue cv by (cases c) auto
    next
      case ChunkTruncated
      let ?v = "save_partial_response sv (lit ''[truncated]'') u"
      have "returned_ok sv ?v" "\<not> cs_terminated (tn_out ?v)"
        using loop_okD [OF u] by (simp_all add: returned_ok_save markers)
      then show ?thesis
        using 6(3) chunk Inr ChunkTruncated returned_ok_send terminal_sent_send by auto
    qed (use 6(3) chunk Inr u in auto)
  qed
qed auto

text \<open>The steps after the last token neither send text nor undo what was stored.\<close>

definition closing :: "turn \<Rightarrow> saved_message list \<Rightarrow> turn \<Rightarrow> bool" where
  "closing t saved t' \<longleftrightarrow>
     turn_ok t' \<and> \<not> cs_terminated (tn_out t') \<and> tn_saved t' = saved \<and> tn_events t' = [] \<and>
     tn_response t' = tn_response t"

lemma closing_send:
  "closing t saved u \<Longrightarrow> \<not> is_chunk_event ev \<Longrightarrow> \<not> is_terminal ev \<Longrightarrow> closing t saved (send ev u)"
  by (simp add: closing_def turn_ok_send sends_not_terminal)

lemma closing_try_send:
  "closing t saved u \<Longrightarrow> \<not> is_chunk_event ev \<Longrightarrow> closing t saved (try_send ev u)"
  by (simp add: closing_def turn_ok_try_send sends_not_terminal)

lemma closing_citations:
  "closing t saved u \<Longrightarrow>
   closing t saved (fold (\<lambda>(index, source). try_send (ChatCitation index source)) refs u)"
  by (rule fold_keeps [where P = "closing t saved"]) (auto simp: closing_try_send)

lemma persist_closing:
  assumes "closing t [] u" and "persist sv r u = (q, t')"
  shows "case q of Inl _ \<Rightarrow> closing t [] t'
    | Inr _ \<Rightarrow> closing t [\<lparr>sm_content = tn_response t, sm_citations = rc_citations r\<rparr>] t'"
proof -
  have save: "closing t [m] (v\<lparr>tn_saved := tn_saved v @ [m]\<rparr>)" if "closing t [] v" for m v
    using that by (auto simp: closing_def turn_ok_def)
  have resp: "tn_response u = tn_response t" using assms(1) by (simp add: closing_def)
  let ?v = "try_send (ChatCitations (rc_citations r))
      (fold (\<lambda>(index, source). try_send (ChatCitation index source)) (rc_event_refs r) u)"
  have v: "closing t [] ?v" by (simp add: closing_try_send closing_citations assms(1))
  show ?thesis
  proof (cases "rc_lease r")
    case None
    then show ?thesis
      using assms(2) assms(1) save [OF assms(1)] resp
      by (auto simp: persist_def Let_def closing_send split: sum.splits)
  next
    case (Some l)
    then show ?thesis
      using assms save [OF v] v resp
      by (auto simp: persist_def Let_def split: sum.splits)
  qed
qed

lemma follow_ups_closing: "closing t saved u \<Longrightarrow> closing t saved (follow_ups sv p u)"
  by (auto simp: follow_ups_def closing_send split: option.split)

definition completed_ok :: "turn \<Rightarrow> bool" where
  "completed_ok t \<longleftrightarrow>
     turn_ok t \<and> terminal_sent t \<and> (\<exists>cs. tn_saved t = [\<lparr>sm_content = tn_response t, sm_citations = cs\<rparr>])"

lemma complete_turn_ok:
  assumes "loop_ok t" and "complete_turn p sv d t = (exit, t')"
  shows "exit = Finished \<and> completed_ok t' \<and>
      tn_events t' = [ChatCompleted (tp_account p) (tp_notebook p) (tp_provider p) (to_u64 d) (length (tp_chunks p))]
    \<or> (\<exists>e. exit = Failed e \<and> turn_ok t' \<and> \<not> cs_terminated (tn_out t') \<and> tn_saved t' = [] \<and> tn_events t' = [])"
proof -
  let ?t = "t\<lparr>tn_out := finish_generation (tn_out t)\<rparr>"
  have start: "closing t [] ?t"
    using assms(1) stream_inv_op [of "tn_out t" Finish]
    by (auto simp: closing_def loop_ok_def turn_ok_def finish_generation_def sent_text_def)
  let ?r = "resolve_citations (tp_unicode p) (ts_sources sv) (citation_input_of p ?t)"
  obtain q u where pu: "persist sv ?r ?t = (q, u)" by force
  note pc = persist_closing [OF start pu]
  show ?thesis
  proof (cases q)
    case (Inl e)
    then show ?thesis
      using assms(2) pu pc by (auto simp: complete_turn_def Let_def closing_def)
  next
    case (Inr m)
    let ?saved = "[\<lparr>sm_content = tn_response t, sm_citations = rc_citations ?r\<rparr>]"
    let ?v = "follow_ups sv p (send (ChatMetrics (mean_relevance (tp_chunks p))) u)"
    let ?w = "send (ChatDone (model_name p) (tp_provider p) (record_rag_log sv p)) ?v"
    have v: "closing t ?saved ?v"
      using pc Inr by (simp add: follow_ups_closing closing_send)
    then have "turn_ok ?w" "terminal_sent ?w" "tn_saved ?w = ?saved" "tn_response ?w = tn_response t"
        "tn_events ?w = []"
      by (simp_all add: closing_def turn_ok_send terminal_sent_send)
    moreover have "exit = Finished" and "t' = ?w\<lparr>tn_events := tn_events ?w @
        [ChatCompleted (tp_account p) (tp_notebook p) (tp_provider p) (to_u64 d) (length (tp_chunks p))]\<rparr>"
      using assms(2) pu Inr by (simp_all add: complete_turn_def Let_def)
    ultimately show ?thesis
      by (simp add: completed_ok_def turn_ok_def terminal_sent_def)
  qed
qed

definition turn_events :: "turn_params \<Rightarrow> nat \<Rightarrow> loop_exit \<Rightarrow> domain_event list" where
  "turn_events p d exit =
     (case exit of
        Finished \<Rightarrow> [ChatCompleted (tp_account p) (tp_notebook p) (tp_provider p) (to_u64 d) (length (tp_chunks p))]
      | Failed e \<Rightarrow> [ChatFailed (tp_account p) (tp_notebook p) (tp_provider p) (chat_error_type e)]
      | _ \<Rightarrow> [])"

definition client_cancelled :: "turn_services \<Rightarrow> poll list \<Rightarrow> bool" where
  "client_cancelled sv polls \<longleftrightarrow> ts_opening sv = OpenCancelled \<or> PollCancelled \<in> set polls"

definition run_ok :: "turn_params \<Rightarrow> turn_services \<Rightarrow> nat \<Rightarrow> poll list \<Rightarrow> loop_exit \<Rightarrow> turn \<Rightarrow> bool" where
  "run_ok p sv d polls exit t \<longleftrightarrow>
     turn_ok t \<and> tn_events t = turn_events p d exit \<and>
     (case exit of
        Finished \<Rightarrow> completed_ok t
      | Failed _ \<Rightarrow> terminal_sent t \<and> tn_saved t = []
      | Returned \<Rightarrow> cut_short sv t \<and> (client_cancelled sv polls \<or> terminal_sent t)
      | Pending \<Rightarrow> tn_saved t = [])"

lemma failing_run_ok:
  assumes "turn_ok t" "\<not> cs_terminated (tn_out t)" "tn_saved t = []" "tn_events t = []"
  shows "run_ok p sv d polls (Failed e) (send (ChatError m)
    (t\<lparr>tn_events := tn_events t @ [ChatFailed (tp_account p) (tp_notebook p) (tp_provider p) (chat_error_type e)]\<rparr>))"
proof -
  have "turn_ok (t\<lparr>tn_events := es\<rparr>)" for es using assms(1) by (simp add: turn_ok_def)
  with assms show ?thesis
    by (simp add: run_ok_def turn_events_def turn_ok_send terminal_sent_send)
qed

lemma run_llm_stream_ok:
  assumes "loop_ok t" and "run_llm_stream p sv d polls t = (exit, t')"
  shows "run_ok p sv d polls exit t'"
proof (cases "ts_opening sv")
  case Opened
  obtain x u where loop: "stream_loop p sv polls t = (x, u)" by force
  note lo = stream_loop_ok [OF assms(1) loop]
  show ?thesis
  proof (cases x)
    case Finished
    obtain y v where comp: "complete_turn p sv d u = (y, v)" by force
    from lo Finished have "loop_ok u" by simp
    from complete_turn_ok [OF this comp] show ?thesis
      using assms(2) Opened loop Finished comp failing_run_ok [of v]
      by (auto simp: run_llm_stream_def stream_llm_response_def run_ok_def turn_events_def completed_ok_def)
  next
    case (Failed e)
    with lo have "loop_ok u" by simp
    from failing_run_ok [OF loop_okD [OF this]] show ?thesis
      using assms(2) Opened loop Failed by (auto simp: run_llm_stream_def stream_llm_response_def)
  qed (use assms(2) Opened loop lo in \<open>auto simp: run_llm_stream_def stream_llm_response_def
      run_ok_def turn_events_def returned_ok_def client_cancelled_def loop_ok_def\<close>)
next
  case OpenShutdown
  then show ?thesis
    using assms loop_okD [OF assms(1)]
    by (auto simp: run_llm_stream_def stream_llm_response_def run_ok_def turn_events_def cut_short_def
        turn_ok_send terminal_sent_send)
next
  case OpenCancelled
  then show ?thesis
    using assms loop_okD [OF assms(1)]
    by (auto simp: run_llm_stream_def stream_llm_response_def run_ok_def turn_events_def cut_short_def client_cancelled_def)
qed (use assms(2) failing_run_ok [OF loop_okD [OF assms(1)]] in
    \<open>auto simp: run_llm_stream_def stream_llm_response_def
      simp del: chat_error_type.simps app_error_text.simps\<close>)

text \<open>
  C34. However a provider's bytes are cut, whenever the server stops, the client leaves or a
  service fails: the events keep the order of the protocol, so at most one is terminal; the answer
  stays within its limit, and the text a client got is a prefix of it, and all of it unless the
  client closed the stream; at most one charge is made, and none without text. What is stored
  depends on the exit. A finished turn stores one message with the whole answer that was read; one
  that is cut short, by the shutdown, by the client or by the limit, stores at most one, marked as
  cut and without citations, and does store it when there is text and the store takes it; one that
  failed or is still pending stores nothing, whatever text was sent. A finished and a failed turn
  are reported once, as completed and as failed, any other is not. Unless the client cancelled, a
  turn that ended told a client that was still there, in its last event.
\<close>

theorem turn_is_accounted_for:
  assumes "stream_inv out" "\<not> cs_terminated out" "\<not> cs_generation_finished out" "sent_text out = []"
    and "run_llm_stream p sv duration polls (turn_start native client out) = (exit, t)"
  shows "stream_inv (tn_out t) \<and> str_len (tn_response t) \<le> max_response_size \<and>
    prefix (sent_text (tn_out t)) (tn_response t) \<and>
    (cs_closed (tn_out t) \<or> sent_text (tn_out t) = tn_response t) \<and>
    tn_charged t \<le> (if tn_response t = [] then 0 else 1) \<and>
    tn_events t = turn_events p duration exit \<and>
    (case exit of
       Finished \<Rightarrow> \<exists>cs. tn_saved t = [\<lparr>sm_content = tn_response t, sm_citations = cs\<rparr>]
     | Returned \<Rightarrow> length (tn_saved t) \<le> 1 \<and> list_all (partial_of (tn_response t)) (tn_saved t) \<and>
         (tn_response t \<noteq> [] \<and> \<not> isl (ts_save sv) \<longrightarrow> tn_saved t \<noteq> [])
     | _ \<Rightarrow> tn_saved t = []) \<and>
    (exit = Pending \<or> client_cancelled sv polls \<or> terminal_sent t)"
proof -
  have "loop_ok (turn_start native client out)"
    using assms(1-4) by (simp add: loop_ok_def turn_ok_def turn_start_def)
  note run = run_llm_stream_ok [OF this assms(5)]
  then have ok: "turn_ok t" by (simp add: run_ok_def)
  then have "tn_charged t \<le> (if tn_response t = [] then 0 else 1)"
    by (cases "tn_counted t") (auto simp: turn_ok_def)
  moreover have "tn_response t = []" if "exit = Returned" "ts_opening sv \<noteq> Opened"
    using assms(5) that
    by (cases "ts_opening sv") (auto simp: run_llm_stream_def stream_llm_response_def turn_start_def)
  ultimately show ?thesis
    using run ok by (cases exit) (auto simp: run_ok_def turn_ok_def completed_ok_def cut_short_def)
qed

subsection \<open>Two answers\<close>

text \<open>A provider whose payloads are text, with an empty one at the end.\<close>

definition plain_params :: turn_params where
  "plain_params =
     \<lparr>tp_unicode = ascii_tables, tp_sha = (\<lambda>s. s),
      tp_parse = (\<lambda>d. if d = [] then Some LlmDone else Some (TextDelta d)), tp_provider = [],
      tp_default_model = [], tp_model = None, tp_timeout_secs = 60, tp_account = 1,
      tp_notebook = 1, tp_question = [], tp_reformulated = None, tp_chunks = [],
      tp_documents = [], tp_outcome = default_outcome, tp_times = no_times, tp_tokens = no_tokens,
      tp_teaching = Deep, tp_locale = [], tp_mistral = False\<rparr>"

definition ready_services :: turn_services where
  "ready_services =
     \<lparr>ts_opening = Opened, ts_charge = Inr (), ts_save = Inr 5, ts_save_leased = Inr 5,
      ts_sources = \<lparr>sv_get_by_id = (\<lambda>s. Inr None), sv_lock_active = (\<lambda>ps. Inr ps),
        sv_release = Inr ()\<rparr>,
      ts_rag_log = Inr 6, ts_suggestions = (\<lambda>s. None)\<rparr>"

definition data_x :: "nat list" where "data_x = [100, 97, 116, 97, 58, 120, 10]"
definition data_end :: "nat list" where "data_end = [100, 97, 116, 97, 58, 10]"

lemmas framing_defs =
  frame_push_def max_response_size_def line_payload_def strip_carriage_return_def utf8_next_def
  from_utf8.simps strip_prefix_def starts_with_def lit_def

lemma frames_of_x:
  "frame_push data_x [] = Inr ([[120]], [])" "frame_push data_end [] = Inr ([[]], [])"
  "frame_push (data_x @ data_end) [] = Inr ([[120], []], [])"
  by (simp_all add: framing_defs data_x_def data_end_def Let_def)

lemma text_delta_x:
  "text_delta [120] (turn_start False client stream_new) =
     (let t1 = client_acts ((turn_start False client stream_new)\<lparr>tn_response := [120]\<rparr>) in
      if cs_closed (tn_out t1) then (ChunkDone, t1) else (ChunkContinue, send (ChatChunk [120]) t1))"
  by (simp add: text_delta_def turn_start_def max_response_size_def str_len_def len_utf8_def)

text \<open>
  The charge is made between two pieces of the network: an answer that arrives with its end in
  one piece is never charged, the same bytes in two pieces are charged once.
\<close>

lemma one_piece_answer_is_not_charged:
  "\<exists>t. stream_loop plain_params ready_services [PollBytes (data_x @ data_end) 9]
      (turn_start False [] stream_new) = (Finished, t) \<and> tn_response t = [120] \<and> tn_charged t = 0"
  "\<exists>t. stream_loop plain_params ready_services [PollBytes data_x 9, PollBytes data_end 9]
      (turn_start False [] stream_new) = (Finished, t) \<and> tn_response t = [120] \<and> tn_charged t = 1"
  by (simp_all add: process_chunk_def frames_of_x text_delta_def plain_params_def ready_services_def
      turn_start_def max_response_size_def str_len_def len_utf8_def client_acts_def stream_new_def
      send_def emit_def emit_admit_def emit_send_def phase_drops_def charge_once_def
      note_first_token_def)

text \<open>
  A client that leaves while a piece is being read ends the loop as if the provider had finished:
  the part of the answer that was read is stored as a whole one, with no mark.
\<close>

lemma cut_answer_is_stored_as_whole:
  "\<exists>t. run_llm_stream plain_params ready_services 1 [PollBytes data_x 9, PollCancelled]
      (turn_start False [[Leaves]] stream_new) = (Finished, t) \<and>
    tn_saved t = [\<lparr>sm_content = [120], sm_citations = []\<rparr>] \<and> sent_text (tn_out t) = []"
proof -
  have "find_markers ascii_tables 0 [120] = []" by (simp add: find_markers.simps)
  then show ?thesis
    by (simp add: run_llm_stream_def stream_llm_response_def process_chunk_def frames_of_x
        text_delta_def plain_params_def ready_services_def turn_start_def max_response_size_def
        str_len_def len_utf8_def client_acts_def stream_new_def send_def emit_def emit_admit_def
        emit_send_def phase_drops_def close_client_def complete_turn_def Let_def
        finish_generation_def resolve_citations_def resolve_prompt_markers_def
        extract_citations_verified_against_active_def extract_with_generations_def
        finalize_candidates_def no_citations_def persist_def citation_input_of_def
        follow_ups_def sent_text_def)
qed

theorem turn_is_accounted_for_witness:
  "\<exists>exit t. run_llm_stream plain_params ready_services 1 [PollBytes data_x 9, PollCancelled]
      (turn_start False [] stream_new) = (exit, t) \<and> tn_charged t \<le> 1 \<and>
      prefix (sent_text (tn_out t)) (tn_response t)"
proof -
  obtain exit t where r: "run_llm_stream plain_params ready_services 1 [PollBytes data_x 9, PollCancelled]
      (turn_start False [] stream_new) = (exit, t)" by force
  have "stream_inv stream_new" "\<not> cs_terminated stream_new" "\<not> cs_generation_finished stream_new"
      "sent_text stream_new = []"
    by (rule stream_inv_new) (simp_all add: stream_new_def sent_text_def)
  from turn_is_accounted_for [OF this r] show ?thesis
    using r by (auto split: if_splits)
qed

end
