(* ===== verification/Memory_Store.thy ===== *)
theory Memory_Store
  imports Protocol
begin

text \<open>
  \<open>repositories/memory.rs\<close>: the memories of a notebook. The table is a list of rows; a statement
  either fails, with the error the list of faults holds for it, or runs on the table. The distance
  of two vectors is a parameter, and so are the identifiers and the clock. The lemmas say what
  each operation leaves of the table, and how it counts.
\<close>

subsection \<open>Rows and statements\<close>

record 'v memory_row =
  mr_id :: uuid
  mr_notebook :: uuid
  mr_content :: rstr
  mr_type :: rstr
  mr_metadata :: json
  mr_salience :: rfloat
  mr_embedding :: 'v
  mr_created :: int
  mr_updated :: int

record 'v memory_db =
  md_rows :: "'v memory_row list"
  md_faults :: "app_error option list"
  md_now :: int
  md_ids :: "nat \<Rightarrow> uuid"
  md_made :: nat

definition statement ::
  "('v memory_db \<Rightarrow> 'a \<times> 'v memory_db) \<Rightarrow> 'v memory_db \<Rightarrow> (app_error + 'a) \<times> 'v memory_db" where
  "statement f d =
     (case md_faults d of
        Some e # fs \<Rightarrow> (Inl e, d\<lparr>md_faults := fs\<rparr>)
      | fs \<Rightarrow> (let (a, d') = f (d\<lparr>md_faults := tl fs\<rparr>) in (Inr a, d')))"

definition db_return :: "'a \<Rightarrow> 'v memory_db \<Rightarrow> (app_error + 'a) \<times> 'v memory_db" where
  "db_return a d = (Inr a, d)"

definition db_raise :: "app_error \<Rightarrow> 'v memory_db \<Rightarrow> (app_error + 'a) \<times> 'v memory_db" where
  "db_raise e d = (Inl e, d)"

definition db_bind ::
  "('v memory_db \<Rightarrow> (app_error + 'a) \<times> 'v memory_db) \<Rightarrow>
   ('a \<Rightarrow> 'v memory_db \<Rightarrow> (app_error + 'b) \<times> 'v memory_db) \<Rightarrow> 'v memory_db \<Rightarrow> (app_error + 'b) \<times> 'v memory_db" where
  "db_bind m k d = (case m d of (Inl e, d') \<Rightarrow> (Inl e, d') | (Inr a, d') \<Rightarrow> k a d')"

definition set_rows :: "'v memory_row list \<Rightarrow> 'v memory_db \<Rightarrow> 'v memory_db" where
  "set_rows rows d = d\<lparr>md_rows := rows\<rparr>"

definition conversation_summary :: rstr where
  "conversation_summary = lit ''conversation_summary''"

definition memory_missing :: "uuid \<Rightarrow> app_error" where
  "memory_missing i = Memory (MemoryNotFound (uuid_hyphenated i))"

subsection \<open>Operations\<close>

definition create_with_embedding ::
  "uuid \<Rightarrow> rstr \<Rightarrow> rstr \<Rightarrow> json \<Rightarrow> rfloat \<Rightarrow> 'v \<Rightarrow>
   'v memory_db \<Rightarrow> (app_error + 'v memory_row) \<times> 'v memory_db" where
  "create_with_embedding nb c ty meta salience embedding =
     statement (\<lambda>d.
       let row = \<lparr>mr_id = md_ids d (md_made d), mr_notebook = nb, mr_content = c, mr_type = ty,
             mr_metadata = meta, mr_salience = salience, mr_embedding = embedding,
             mr_created = md_now d, mr_updated = md_now d\<rparr>
       in (row, (set_rows (md_rows d @ [row]) d)\<lparr>md_made := md_made d + 1\<rparr>))"

text \<open>PostgreSQL sorts NaN above every other value.\<close>

definition pg_cmp :: "rfloat \<Rightarrow> rfloat \<Rightarrow> ordering" where
  "pg_cmp x y =
     (if x = NaN then (if y = NaN then Equal else Greater)
      else if y = NaN then Less
      else if f_lt x y then Less else if f_lt y x then Greater else Equal)"

definition in_notebook :: "uuid \<Rightarrow> 'v memory_row \<Rightarrow> bool" where
  "in_notebook nb r \<longleftrightarrow> mr_notebook r = nb"

definition list_memories ::
  "uuid \<Rightarrow> 'v memory_db \<Rightarrow> (app_error + 'v memory_row list) \<times> 'v memory_db" where
  "list_memories nb =
     statement (\<lambda>d. (sort_by (\<lambda>a b. then_with (pg_cmp (mr_salience b) (mr_salience a))
         (cmp_ord (mr_created b) (mr_created a))) (filter (in_notebook nb) (md_rows d)), d))"

record 'v memory_hit =
  mh_memory :: "'v memory_row"
  mh_similarity :: rfloat

fun f_neg :: "rfloat \<Rightarrow> rfloat" where
  "f_neg (Fin q) = Fin (- q)"
| "f_neg PosInf = NegInf"
| "f_neg NegInf = PosInf"
| "f_neg NaN = NaN"

fun f_to_f32 :: "rfloat \<Rightarrow> rfloat" where
  "f_to_f32 (Fin q) = rnd32 q"
| "f_to_f32 x = x"

text \<open>\<open>(1.0 - (embedding <=> $1))\<close> as a double, then \<open>max(0.0) as f32\<close>.\<close>

definition similarity_of :: "rfloat \<Rightarrow> rfloat" where
  "similarity_of gap =
     (let s = f_add rnd64 (Fin 1) (f_neg gap)
      in f_to_f32 (if s = NaN \<or> f_lt s (Fin 0) then Fin 0 else s))"

definition search_similar ::
  "('v \<Rightarrow> 'v \<Rightarrow> rfloat) \<Rightarrow> uuid \<Rightarrow> 'v \<Rightarrow> int \<Rightarrow>
   'v memory_db \<Rightarrow> (app_error + 'v memory_hit list) \<times> 'v memory_db" where
  "search_similar distance nb query bound =
     statement (\<lambda>d. (map (\<lambda>r. \<lparr>mh_memory = r, mh_similarity = similarity_of (distance (mr_embedding r) query)\<rparr>)
       (take (nat bound) (sort_by (\<lambda>a b. pg_cmp (distance (mr_embedding a) query) (distance (mr_embedding b) query))
          (filter (in_notebook nb) (md_rows d)))), d))"

primrec batch_search_similar ::
  "('v \<Rightarrow> 'v \<Rightarrow> rfloat) \<Rightarrow> uuid \<Rightarrow> int \<Rightarrow> 'v list \<Rightarrow>
   'v memory_db \<Rightarrow> (app_error + 'v memory_hit list list) \<times> 'v memory_db" where
  "batch_search_similar distance nb bound [] = db_return []"
| "batch_search_similar distance nb bound (q # qs) =
     db_bind (search_similar distance nb q bound) (\<lambda>hits.
     db_bind (batch_search_similar distance nb bound qs) (\<lambda>rest. db_return (hits # rest)))"

definition set_row :: "uuid \<Rightarrow> ('v memory_row \<Rightarrow> 'v memory_row) \<Rightarrow> 'v memory_db \<Rightarrow> 'v memory_db" where
  "set_row i f d = set_rows (map (\<lambda>r. if mr_id r = i then f r else r) (md_rows d)) d"

definition has_row :: "uuid \<Rightarrow> 'v memory_db \<Rightarrow> bool" where
  "has_row i d \<longleftrightarrow> (\<exists>r \<in> set (md_rows d). mr_id r = i)"

definition get_memory :: "uuid \<Rightarrow> 'v memory_db \<Rightarrow> (app_error + 'v memory_row option) \<times> 'v memory_db" where
  "get_memory i = statement (\<lambda>d. (List.find (\<lambda>r. mr_id r = i) (md_rows d), d))"

definition row_changes ::
  "rstr option \<Rightarrow> rfloat option \<Rightarrow> json option \<Rightarrow> int \<Rightarrow> 'v memory_row \<Rightarrow> 'v memory_row" where
  "row_changes c salience meta now r =
     r\<lparr>mr_content := (case c of Some x \<Rightarrow> x | None \<Rightarrow> mr_content r),
       mr_salience := (case salience of Some x \<Rightarrow> x | None \<Rightarrow> mr_salience r),
       mr_metadata := (case meta of Some x \<Rightarrow> x | None \<Rightarrow> mr_metadata r),
       mr_updated := now\<rparr>"

definition memory_update ::
  "uuid \<Rightarrow> rstr option \<Rightarrow> rfloat option \<Rightarrow> json option \<Rightarrow> 'v option \<Rightarrow>
   'v memory_db \<Rightarrow> (app_error + unit) \<times> 'v memory_db" where
  "memory_update i c salience meta embedding =
     db_bind (get_memory i) (\<lambda>existing.
       case existing of
         None \<Rightarrow> db_raise (memory_missing i)
       | Some _ \<Rightarrow>
           db_bind (statement (\<lambda>d. ((), set_row i (row_changes c salience meta (md_now d)) d))) (\<lambda>_.
             case embedding of
               None \<Rightarrow> db_return ()
             | Some e \<Rightarrow>
                 statement (\<lambda>d. ((), set_row i (\<lambda>r. r\<lparr>mr_embedding := e, mr_updated := md_now d\<rparr>) d))))"

text \<open>Statements whose number of affected rows decides: none is an unknown identifier.\<close>

definition affecting ::
  "uuid \<Rightarrow> ('v memory_db \<Rightarrow> 'v memory_db) \<Rightarrow> 'v memory_db \<Rightarrow> (app_error + unit) \<times> 'v memory_db" where
  "affecting i f =
     db_bind (statement (\<lambda>d. (has_row i d, f d))) (\<lambda>found.
       if found then db_return () else db_raise (memory_missing i))"

definition memory_delete :: "uuid \<Rightarrow> 'v memory_db \<Rightarrow> (app_error + unit) \<times> 'v memory_db" where
  "memory_delete i = affecting i (\<lambda>d. set_rows (filter (\<lambda>r. mr_id r \<noteq> i) (md_rows d)) d)"

definition touch_memory :: "uuid \<Rightarrow> 'v memory_db \<Rightarrow> (app_error + unit) \<times> 'v memory_db" where
  "touch_memory i = affecting i (\<lambda>d. set_row i (\<lambda>r. r\<lparr>mr_updated := md_now d\<rparr>) d)"

definition update_salience :: "uuid \<Rightarrow> rfloat \<Rightarrow> 'v memory_db \<Rightarrow> (app_error + unit) \<times> 'v memory_db" where
  "update_salience i salience =
     affecting i (\<lambda>d. set_row i (\<lambda>r. r\<lparr>mr_salience := salience, mr_updated := md_now d\<rparr>) d)"

text \<open>Deletions by a condition, with the number of rows they took.\<close>

definition delete_where ::
  "('v memory_row \<Rightarrow> bool) \<Rightarrow> 'v memory_db \<Rightarrow> (app_error + nat) \<times> 'v memory_db" where
  "delete_where P =
     statement (\<lambda>d. (length (filter P (md_rows d)), set_rows (filter (\<lambda>r. \<not> P r) (md_rows d)) d))"

definition delete_all_for_notebook :: "uuid \<Rightarrow> 'v memory_db \<Rightarrow> (app_error + nat) \<times> 'v memory_db" where
  "delete_all_for_notebook nb = delete_where (in_notebook nb)"

definition delete_below_salience ::
  "uuid \<Rightarrow> rfloat \<Rightarrow> 'v memory_db \<Rightarrow> (app_error + nat) \<times> 'v memory_db" where
  "delete_below_salience nb threshold =
     delete_where (\<lambda>r. in_notebook nb r \<and> f_lt (mr_salience r) threshold \<and> mr_type r \<noteq> conversation_summary)"

definition counted :: "uuid \<Rightarrow> 'v memory_row \<Rightarrow> bool" where
  "counted nb r \<longleftrightarrow> in_notebook nb r \<and> mr_type r \<noteq> conversation_summary"

definition count_for_notebook :: "uuid \<Rightarrow> 'v memory_db \<Rightarrow> (app_error + nat) \<times> 'v memory_db" where
  "count_for_notebook nb = statement (\<lambda>d. (length (filter (counted nb) (md_rows d)), d))"

definition of_type :: "uuid \<Rightarrow> rstr \<Rightarrow> 'v memory_row \<Rightarrow> bool" where
  "of_type nb ty r \<longleftrightarrow> in_notebook nb r \<and> mr_type r = ty"

definition count_by_type :: "uuid \<Rightarrow> rstr \<Rightarrow> 'v memory_db \<Rightarrow> (app_error + nat) \<times> 'v memory_db" where
  "count_by_type nb ty = statement (\<lambda>d. (length (filter (of_type nb ty) (md_rows d)), d))"

definition oldest :: "uuid \<Rightarrow> rstr \<Rightarrow> nat \<Rightarrow> 'v memory_row list \<Rightarrow> 'v memory_row list" where
  "oldest nb ty n rows =
     take n (sort_by (\<lambda>a b. cmp_ord (mr_created a) (mr_created b)) (filter (of_type nb ty) rows))"

definition delete_oldest_by_type ::
  "uuid \<Rightarrow> rstr \<Rightarrow> nat \<Rightarrow> 'v memory_db \<Rightarrow> (app_error + nat) \<times> 'v memory_db" where
  "delete_oldest_by_type nb ty keep =
     db_bind (count_by_type nb ty) (\<lambda>n.
       if n \<le> keep then db_return 0
       else db_bind (statement (\<lambda>d. (map mr_id (oldest nb ty (n - keep) (md_rows d)), d))) (\<lambda>ids.
         if ids = [] then db_return 0 else delete_where (\<lambda>r. mr_id r \<in> set ids)))"

subsection \<open>Laws\<close>

text \<open>
  What holds of the rows whatever a statement answers: an operation keeps a predicate of the
  table when its effect does, so composition is one rule.
\<close>

definition keeps :: "('v memory_row list \<Rightarrow> bool) \<Rightarrow> ('v memory_db \<Rightarrow> (app_error + 'a) \<times> 'v memory_db) \<Rightarrow> bool" where
  "keeps P op \<longleftrightarrow> (\<forall>d. P (md_rows d) \<longrightarrow> P (md_rows (snd (op d))))"

lemma keepsI: "(\<And>d. P (md_rows d) \<Longrightarrow> P (md_rows (snd (op d)))) \<Longrightarrow> keeps P op"
  by (simp add: keeps_def)

lemma keepsD: "keeps P op \<Longrightarrow> P (md_rows d) \<Longrightarrow> P (md_rows (snd (op d)))"
  by (simp add: keeps_def)

lemma rows_faults [simp]: "md_rows (d\<lparr>md_faults := fs\<rparr>) = md_rows d"
  by simp

lemma store_keeps_statement:
  assumes "\<And>d. P (md_rows d) \<Longrightarrow> P (md_rows (snd (f d)))"
  shows "keeps P (statement f)"
proof (rule keepsI)
  fix d :: "'a memory_db"
  assume "P (md_rows d)"
  then have "P (md_rows (d\<lparr>md_faults := fs\<rparr>))" for fs by simp
  from assms [OF this] \<open>P (md_rows d)\<close> show "P (md_rows (snd (statement f d)))"
    by (auto simp: statement_def split_def Let_def split: list.split option.split)
qed

lemma keeps_return [simp, intro]: "keeps P (db_return a)"
  and keeps_raise [simp, intro]: "keeps P (db_raise e)"
  by (simp_all add: keeps_def db_return_def db_raise_def)

lemma keeps_bind [intro]: "keeps P m \<Longrightarrow> (\<And>a. keeps P (k a)) \<Longrightarrow> keeps P (db_bind m k)"
  unfolding keeps_def db_bind_def by (force split: sum.split prod.split)

lemma rows_set_rows [simp]: "md_rows (set_rows rows d) = rows"
  by (simp add: set_rows_def)

lemma statement_ok:
  assumes "md_faults d = []" shows "statement f d = (Inr (fst (f d)), snd (f d))"
proof -
  have same: "d\<lparr>md_faults := []\<rparr> = d" using assms by (cases d) simp
  show ?thesis by (simp add: statement_def assms Let_def split_def same)
qed

text \<open>Reading leaves the table; every change of one row keeps its notebook and type.\<close>

lemma keeps_list [intro]: "keeps P (list_memories nb)"
  and keeps_search [intro]: "keeps P (search_similar distance nb q n)"
  and keeps_get [intro]: "keeps P (get_memory i)"
  and keeps_count [intro]: "keeps P (count_for_notebook nb)"
  and keeps_count_type [intro]: "keeps P (count_by_type nb ty)"
  by (auto simp: list_memories_def search_similar_def get_memory_def count_for_notebook_def
      count_by_type_def intro!: store_keeps_statement)

lemma keeps_batch_search: "keeps P (batch_search_similar distance nb n qs)"
  by (induction qs) auto


definition row_stable :: "('v memory_row \<Rightarrow> bool) \<Rightarrow> bool" where
  "row_stable P \<longleftrightarrow> (\<forall>r r'. mr_notebook r = mr_notebook r' \<longrightarrow> mr_type r = mr_type r' \<longrightarrow> P r = P r')"

lemma row_stable_counted [simp]: "row_stable (counted nb)"
  and row_stable_of_type [simp]: "row_stable (of_type nb ty)"
  and row_stable_in_notebook [simp]: "row_stable (in_notebook nb)"
  by (simp_all add: row_stable_def counted_def of_type_def in_notebook_def)

lemma filter_set_row:
  assumes "row_stable P" "\<And>r. mr_notebook (f r) = mr_notebook r \<and> mr_type (f r) = mr_type r"
  shows "length (filter P (md_rows (set_row i f d))) = length (filter P (md_rows d))"
proof -
  have "P (if mr_id r = i then f r else r) = P r" for r
  proof -
    have "P (f r) = P r" using assms unfolding row_stable_def by blast
    then show ?thesis by simp
  qed
  then have "length (filter P (map (\<lambda>r. if mr_id r = i then f r else r) rows)) = length (filter P rows)" for rows
    by (induction rows) simp_all
  then show ?thesis by (simp add: set_row_def)
qed

lemma keeps_affecting: "(\<And>d. P (md_rows d) \<Longrightarrow> P (md_rows (f d))) \<Longrightarrow> keeps P (affecting i f)"
  unfolding affecting_def by (intro keeps_bind store_keeps_statement) auto

lemma keeps_delete_where:
  "(\<And>rows. P rows \<Longrightarrow> P (filter (\<lambda>r. \<not> Q r) rows)) \<Longrightarrow> keeps P (delete_where Q)"
  unfolding delete_where_def by (intro store_keeps_statement) auto

text \<open>Everything but an insertion keeps the rows of a kind at most as many as they were.\<close>

definition at_most :: "('v memory_row \<Rightarrow> bool) \<Rightarrow> nat \<Rightarrow> 'v memory_row list \<Rightarrow> bool" where
  "at_most P n rows \<longleftrightarrow> length (filter P rows) \<le> n"

lemma keeps_at_most_delete [intro]: "keeps (at_most P n) (delete_where Q)"
proof (rule keeps_delete_where)
  fix rows :: "'a memory_row list"
  assume "at_most P n rows"
  moreover have "length (filter P (filter (\<lambda>r. \<not> Q r) rows)) \<le> length (filter P rows)"
    by (induction rows) auto
  ultimately show "at_most P n (filter (\<lambda>r. \<not> Q r) rows)" by (simp add: at_most_def)
qed

lemma keeps_at_most_update [intro]:
  assumes "row_stable P" shows "keeps (at_most P n) (memory_update i c s m e)"
proof -
  have "at_most P n (md_rows (set_row i (row_changes c s m now) d))" if "at_most P n (md_rows d)" for now and d :: "'a memory_db"
    using that filter_set_row [OF assms, of "row_changes c s m now" i d] by (simp add: at_most_def row_changes_def)
  moreover have "at_most P n (md_rows (set_row i (\<lambda>r. r\<lparr>mr_embedding := x, mr_updated := now\<rparr>) d))"
    if "at_most P n (md_rows d)" for x now and d :: "'a memory_db"
    using that filter_set_row [OF assms, of "\<lambda>r. r\<lparr>mr_embedding := x, mr_updated := now\<rparr>" i d]
    by (simp add: at_most_def)
  ultimately show ?thesis
    unfolding memory_update_def
    by (intro keeps_bind keeps_get) (auto split: option.split intro!: store_keeps_statement keeps_bind)
qed

lemma keeps_at_most_salience [intro]:
  assumes "row_stable P" shows "keeps (at_most P n) (update_salience i s)"
  unfolding update_salience_def
  using filter_set_row [OF assms] by (intro keeps_affecting) (simp add: at_most_def)

lemma keeps_at_most_touch [intro]:
  assumes "row_stable P" shows "keeps (at_most P n) (touch_memory i)"
  unfolding touch_memory_def
  using filter_set_row [OF assms] by (intro keeps_affecting) (simp add: at_most_def)

lemma create_at_most:
  assumes "at_most P n (md_rows d)"
  shows "at_most P (Suc n) (md_rows (snd (create_with_embedding nb c ty meta s e d)))"
  using assms
  by (auto simp: create_with_embedding_def statement_def Let_def at_most_def split: list.split option.split)

end
