(* ===== verification/Input_Validation.thy ===== *)
theory Input_Validation
  imports Errors "HOL-Library.Word"
begin

text \<open>
  \<open>validation.rs\<close>: the checks on what a client sends. The URL parser is a parameter; an address is
  its octets or segments as machine words. The lemmas read the bit tests of the address filter as
  ranges of addresses, and say which URLs are accepted.
\<close>

unbundle bit_operations_syntax

subsection \<open>Strings and numbers\<close>

definition max_title_length :: nat where "max_title_length = 255"
definition max_system_prompt_length :: nat where "max_system_prompt_length = 10000"
definition max_description_length :: nat where "max_description_length = 1000"
definition max_message_length :: nat where "max_message_length = 10000"
definition valid_providers :: "rstr list" where
  "valid_providers = [lit ''mistral'', lit ''anthropic'', lit ''openai'']"

definition validate_string :: "rstr \<Rightarrow> nat \<Rightarrow> rstr \<Rightarrow> app_error + unit" where
  "validate_string s max_len field =
     (if trim s = [] then Inl (Validation (field @ lit '' cannot be empty''))
      else if max_len < str_len s
        then Inl (Validation (field @ lit '' must be '' @ show_nat max_len @ lit '' characters or less''))
      else Inr ())"

definition validate_title :: "rstr \<Rightarrow> app_error + unit" where
  "validate_title s = validate_string s max_title_length (lit ''Title'')"

definition validate_system_prompt :: "rstr \<Rightarrow> app_error + unit" where
  "validate_system_prompt s = validate_string s max_system_prompt_length (lit ''System prompt'')"

definition validate_description :: "rstr \<Rightarrow> app_error + unit" where
  "validate_description s = validate_string s max_description_length (lit ''Description'')"

definition validate_content :: "rstr \<Rightarrow> app_error + unit" where
  "validate_content s = validate_string s usize_max (lit ''Content'')"

definition validate_message :: "rstr \<Rightarrow> app_error + rstr" where
  "validate_message s =
     (let trimmed = trim s in
      if trimmed = [] then Inl (Validation (lit ''Message cannot be empty''))
      else if max_message_length < str_len trimmed
        then Inl (Validation (lit ''Message must be '' @ show_nat max_message_length @ lit '' characters or less''))
      else Inr trimmed)"

definition validate_search_query :: "rstr \<Rightarrow> nat \<Rightarrow> app_error + rstr" where
  "validate_search_query s max_length =
     (let trimmed = trim s in
      if trimmed = [] then Inl (Validation (lit ''Search query cannot be empty''))
      else if max_length < str_len trimmed
        then Inl (Validation (lit ''Search query must be '' @ show_nat max_length @ lit '' characters or less''))
      else Inr trimmed)"

definition validate_provider :: "rstr \<Rightarrow> app_error + unit" where
  "validate_provider p =
     (if p \<notin> set valid_providers then Inl (Settings (SettingsInvalidProvider p)) else Inr ())"

definition validate_pagination :: "nat option \<Rightarrow> nat option \<Rightarrow> nat \<Rightarrow> nat \<Rightarrow> nat \<times> nat" where
  "validate_pagination off bound default_limit max_limit =
     ((case off of Some n \<Rightarrow> n | None \<Rightarrow> 0),
      min (case bound of Some n \<Rightarrow> n | None \<Rightarrow> default_limit) max_limit)"

text \<open>\<open>SendMessageRequest::validated_max_context_chunks\<close> of \<open>api/chat/types.rs\<close>.\<close>

definition max_context_chunks :: int where "max_context_chunks = 20"

definition validated_max_context_chunks :: "int \<Rightarrow> app_error + int" where
  "validated_max_context_chunks n =
     (if 1 \<le> n \<and> n \<le> max_context_chunks then Inr n
      else Inl (Validation (lit ''max_context_chunks must be between 1 and '' @ show_int max_context_chunks @
        lit '', got '' @ show_int n)))"

subsection \<open>Addresses\<close>

datatype ipv4 = Ipv4 "8 word" "8 word" "8 word" "8 word"

datatype ipv6 = Ipv6 "16 word" "16 word" "16 word" "16 word" "16 word" "16 word" "16 word" "16 word"

text \<open>The predicates of \<open>std::net::Ipv4Addr\<close>.\<close>

fun is_private :: "ipv4 \<Rightarrow> bool" where
  "is_private (Ipv4 a b c d) \<longleftrightarrow> a = 10 \<or> a = 172 \<and> 16 \<le> b \<and> b \<le> 31 \<or> a = 192 \<and> b = 168"

fun is_loopback :: "ipv4 \<Rightarrow> bool" where
  "is_loopback (Ipv4 a b c d) \<longleftrightarrow> a = 127"

fun is_link_local :: "ipv4 \<Rightarrow> bool" where
  "is_link_local (Ipv4 a b c d) \<longleftrightarrow> a = 169 \<and> b = 254"

fun is_broadcast :: "ipv4 \<Rightarrow> bool" where
  "is_broadcast (Ipv4 a b c d) \<longleftrightarrow> a = 255 \<and> b = 255 \<and> c = 255 \<and> d = 255"

fun is_documentation :: "ipv4 \<Rightarrow> bool" where
  "is_documentation (Ipv4 a b c d) \<longleftrightarrow>
     a = 192 \<and> b = 0 \<and> c = 2 \<or> a = 198 \<and> b = 51 \<and> c = 100 \<or> a = 203 \<and> b = 0 \<and> c = 113"

fun is_unspecified :: "ipv4 \<Rightarrow> bool" where
  "is_unspecified (Ipv4 a b c d) \<longleftrightarrow> a = 0 \<and> b = 0 \<and> c = 0 \<and> d = 0"

definition v4_blocked :: "ipv4 \<Rightarrow> bool" where
  "v4_blocked v \<longleftrightarrow> is_private v \<or> is_loopback v \<or> is_link_local v \<or> is_broadcast v \<or>
     is_documentation v \<or> is_unspecified v"

definition high_octet :: "16 word \<Rightarrow> 8 word" where "high_octet s = ucast (drop_bit 8 s)"
definition low_octet :: "16 word \<Rightarrow> 8 word" where "low_octet s = ucast s"

fun to_ipv4_mapped :: "ipv6 \<Rightarrow> ipv4 option" where
  "to_ipv4_mapped (Ipv6 s0 s1 s2 s3 s4 s5 s6 s7) =
     (if s0 = 0 \<and> s1 = 0 \<and> s2 = 0 \<and> s3 = 0 \<and> s4 = 0 \<and> s5 = 0xffff
      then Some (Ipv4 (high_octet s6) (low_octet s6) (high_octet s7) (low_octet s7)) else None)"

fun v6_blocked :: "ipv6 \<Rightarrow> bool" where
  "v6_blocked (Ipv6 s0 s1 s2 s3 s4 s5 s6 s7) \<longleftrightarrow>
     (s0 = 0 \<and> s1 = 0 \<and> s2 = 0 \<and> s3 = 0 \<and> s4 = 0 \<and> s5 = 0 \<and> s6 = 0 \<and> s7 = 1) \<or>
     (s0 = 0 \<and> s1 = 0 \<and> s2 = 0 \<and> s3 = 0 \<and> s4 = 0 \<and> s5 = 0 \<and> s6 = 0 \<and> s7 = 0) \<or>
     s0 AND 0xfe00 = 0xfc00 \<or>
     s0 AND 0xffc0 = 0xfe80 \<or>
     (s0 = 0x2001 \<and> s1 = 0) \<or>
     s0 = 0x2002 \<or>
     (case to_ipv4_mapped (Ipv6 s0 s1 s2 s3 s4 s5 s6 s7) of Some v4 \<Rightarrow> v4_blocked v4 | None \<Rightarrow> False)"

datatype ip_addr = V4 ipv4 | V6 ipv6

fun is_private_or_reserved_ip :: "ip_addr \<Rightarrow> bool" where
  "is_private_or_reserved_ip (V4 v) \<longleftrightarrow> v4_blocked v"
| "is_private_or_reserved_ip (V6 v) \<longleftrightarrow> v6_blocked v"

subsection \<open>URLs\<close>

datatype host = Domain rstr | HostV4 ipv4 | HostV6 ipv6

record url =
  url_scheme :: rstr
  url_host :: "host option"

definition blocked_metadata_hosts :: "rstr list" where
  "blocked_metadata_hosts = [lit ''metadata.google.internal'', lit ''metadata.goog'']"

definition metadata_ip :: ipv4 where "metadata_ip = Ipv4 169 254 169 254"

definition private_ip_error :: app_error where
  "private_ip_error = Validation (lit ''URLs to private/reserved IPs not allowed'')"

definition metadata_error :: app_error where
  "metadata_error = Validation (lit ''URLs to cloud metadata endpoints not allowed'')"

fun check_host :: "host \<Rightarrow> app_error + unit" where
  "check_host (Domain d) =
     (if d = lit ''localhost'' then Inl (Validation (lit ''URLs to localhost not allowed''))
      else if d \<in> set blocked_metadata_hosts then Inl metadata_error
      else Inr ())"
| "check_host (HostV4 v) =
     (if is_private_or_reserved_ip (V4 v) then Inl private_ip_error
      else if v = metadata_ip then Inl metadata_error
      else Inr ())"
| "check_host (HostV6 v) =
     (if is_private_or_reserved_ip (V6 v) then Inl private_ip_error else Inr ())"

definition validate_url_for_ssrf :: "(rstr \<Rightarrow> rstr + url) \<Rightarrow> rstr \<Rightarrow> app_error + unit" where
  "validate_url_for_ssrf parse s =
     (case parse s of
        Inl e \<Rightarrow> Inl (Validation (lit ''Invalid URL format: '' @ e))
      | Inr u \<Rightarrow>
          if url_scheme u \<notin> {lit ''http'', lit ''https''} then
            Inl (Validation (lit ''URL scheme '' @ [39] @ url_scheme u @ [39] @
              lit '' not allowed. Only http/https permitted.''))
          else (case url_host u of
              None \<Rightarrow> Inl (Validation (lit ''URL must have a host''))
            | Some h \<Rightarrow> check_host h))"

subsection \<open>Addresses as numbers\<close>

fun v4_number :: "ipv4 \<Rightarrow> nat" where
  "v4_number (Ipv4 a b c d) = ((unat a * 256 + unat b) * 256 + unat c) * 256 + unat d"

text \<open>A block of addresses, by its first one and the number of bits it fixes.\<close>

definition in_block :: "nat \<Rightarrow> nat \<Rightarrow> nat \<Rightarrow> nat \<Rightarrow> bool" where
  "in_block width first prefix n \<longleftrightarrow> n div 2 ^ (width - prefix) = first div 2 ^ (width - prefix)"

definition v4_at :: "nat \<Rightarrow> nat \<Rightarrow> nat \<Rightarrow> nat \<Rightarrow> nat" where
  "v4_at a b c d = ((a * 256 + b) * 256 + c) * 256 + d"

definition v4_blocks :: "(nat \<times> nat) list" where
  "v4_blocks =
     [(v4_at 10 0 0 0, 8), (v4_at 172 16 0 0, 12), (v4_at 192 168 0 0, 16), (v4_at 127 0 0 0, 8),
      (v4_at 169 254 0 0, 16), (v4_at 255 255 255 255, 32), (v4_at 192 0 2 0, 24),
      (v4_at 198 51 100 0, 24), (v4_at 203 0 113 0, 24), (v4_at 0 0 0 0, 32)]"

fun v6_number :: "ipv6 \<Rightarrow> nat" where
  "v6_number (Ipv6 s0 s1 s2 s3 s4 s5 s6 s7) =
     (((((((unat s0 * 65536 + unat s1) * 65536 + unat s2) * 65536 + unat s3) * 65536 + unat s4) * 65536 +
       unat s5) * 65536 + unat s6) * 65536 + unat s7)"

definition v6_blocks :: "(nat \<times> nat) list" where
  "v6_blocks =
     [(1, 128), (0, 128), (0xfc00 * 2 ^ 112, 7), (0xfe80 * 2 ^ 112, 10), (0x2001 * 2 ^ 112, 32),
      (0x2002 * 2 ^ 112, 16)]"

text \<open>The mapped block \<open>::ffff:0:0/96\<close> carries the version 4 blocks.\<close>

definition v6_ranges :: "(nat \<times> nat) list" where
  "v6_ranges = v6_blocks @ map (\<lambda>(first, prefix). (0xffff * 2 ^ 32 + first, 96 + prefix)) v4_blocks"

lemma unat_octet: "unat (x :: 8 word) < 256"
  using unsigned_less [of x] by simp

lemma unat_segment: "unat (x :: 16 word) < 65536"
  using unsigned_less [of x] by simp

lemma v4_at_div:
  assumes "b < 256" "c < 256" "d < 256"
  shows "v4_at a b c d div 256 = (a * 256 + b) * 256 + c"
    and "v4_at a b c d div 65536 = a * 256 + b"
    and "v4_at a b c d div 1048576 = a * 16 + b div 16"
    and "v4_at a b c d div 16777216 = a"
  using assms by (simp_all add: v4_at_def)

lemma base256: "c < 256 \<Longrightarrow> x * 256 + c = k \<longleftrightarrow> x = k div 256 \<and> c = k mod (256 :: nat)"
  by auto

lemma base16: "c < 16 \<Longrightarrow> x * 16 + c = k \<longleftrightarrow> x = k div 16 \<and> c = k mod (16 :: nat)"
  by auto

lemma v4_number_at: "v4_number (Ipv4 a b c d) = v4_at (unat a) (unat b) (unat c) (unat d)"
  by (simp add: v4_at_def)

lemma octet_eq: "(x :: 8 word) = y \<longleftrightarrow> unat x = unat y"
  by (simp add: word_unat_eq_iff)

lemma unat_octet_numeral:
  "unat (10 :: 8 word) = 10" "unat (172 :: 8 word) = 172" "unat (16 :: 8 word) = 16" "unat (31 :: 8 word) = 31"
  "unat (192 :: 8 word) = 192" "unat (168 :: 8 word) = 168" "unat (127 :: 8 word) = 127"
  "unat (169 :: 8 word) = 169" "unat (254 :: 8 word) = 254" "unat (255 :: 8 word) = 255" "unat (0 :: 8 word) = 0"
  "unat (2 :: 8 word) = 2" "unat (198 :: 8 word) = 198" "unat (51 :: 8 word) = 51" "unat (100 :: 8 word) = 100"
  "unat (203 :: 8 word) = 203" "unat (113 :: 8 word) = 113"
  by simp_all

lemma segment_eq: "(x :: 16 word) = y \<longleftrightarrow> unat x = unat y"
  by (simp add: word_unat_eq_iff)

lemma v4_blocked_iff: "v4_blocked v \<longleftrightarrow> (\<exists>(first, prefix) \<in> set v4_blocks. in_block 32 first prefix (v4_number v))"
proof (cases v)
  case (Ipv4 a b c d)
  define A B C D where n: "A = unat a" "B = unat b" "C = unat c" "D = unat d"
  have lt: "A < 256" "B < 256" "C < 256" "D < 256" by (simp_all add: n unat_octet)
  note div = v4_at_div [OF lt(2,3,4), of A]
  have left: "v4_blocked v \<longleftrightarrow>
      A = 10 \<or> A = 172 \<and> 16 \<le> B \<and> B \<le> 31 \<or> A = 192 \<and> B = 168 \<or> A = 127 \<or> A = 169 \<and> B = 254 \<or>
      A = 255 \<and> B = 255 \<and> C = 255 \<and> D = 255 \<or> A = 192 \<and> B = 0 \<and> C = 2 \<or> A = 198 \<and> B = 51 \<and> C = 100 \<or>
      A = 203 \<and> B = 0 \<and> C = 113 \<or> A = 0 \<and> B = 0 \<and> C = 0 \<and> D = 0"
    unfolding Ipv4 v4_blocked_def is_private.simps is_loopback.simps is_link_local.simps is_broadcast.simps
      is_documentation.simps is_unspecified.simps word_le_nat_alt octet_eq n
      unat_octet_numeral disj_assoc
    by (rule refl)
  have nibble: "B div 16 < 16" using lt(2) by (simp add: less_mult_imp_div_less)
  have second: "B div 16 = 1 \<longleftrightarrow> 16 \<le> B \<and> B \<le> 31" by presburger
  have parts: "A * 256 + B = 49320 \<longleftrightarrow> A = 192 \<and> B = 168" "A * 256 + B = 43518 \<longleftrightarrow> A = 169 \<and> B = 254"
    "A * 16 + B div 16 = 2753 \<longleftrightarrow> A = 172 \<and> 16 \<le> B \<and> B \<le> 31"
    "(A * 256 + B) * 256 + C = 12582914 \<longleftrightarrow> A = 192 \<and> B = 0 \<and> C = 2"
    "(A * 256 + B) * 256 + C = 12989284 \<longleftrightarrow> A = 198 \<and> B = 51 \<and> C = 100"
    "(A * 256 + B) * 256 + C = 13303921 \<longleftrightarrow> A = 203 \<and> B = 0 \<and> C = 113"
    "v4_at A B C D = 4294967295 \<longleftrightarrow> A = 255 \<and> B = 255 \<and> C = 255 \<and> D = 255"
    "v4_at A B C D = 0 \<longleftrightarrow> A = 0 \<and> B = 0 \<and> C = 0 \<and> D = 0"
    by (simp_all only: v4_at_def base256 [OF lt(2)] base256 [OF lt(3)] base256 [OF lt(4)] base16 [OF nibble])
       (simp_all add: second [simplified])
  have "(\<exists>(first, prefix) \<in> set v4_blocks. in_block 32 first prefix (v4_number v)) \<longleftrightarrow>
      A = 10 \<or> A * 16 + B div 16 = 2753 \<or> A * 256 + B = 49320 \<or> A = 127 \<or> A * 256 + B = 43518 \<or>
      v4_at A B C D = 4294967295 \<or> (A * 256 + B) * 256 + C = 12582914 \<or>
      (A * 256 + B) * 256 + C = 12989284 \<or> (A * 256 + B) * 256 + C = 13303921 \<or> v4_at A B C D = 0"
    unfolding Ipv4 v4_number_at
    by (simp add: v4_blocks_def in_block_def div flip: n) (simp add: v4_at_def)
  with left parts show ?thesis by simp
qed

subsection \<open>Version 6\<close>

lemma and_high_bits: "x AND NOT (mask n) = push_bit n (drop_bit n (x :: 16 word))"
  by (rule bit_eqI) (auto simp: bit_simps)

lemma unat_drop: "unat (drop_bit n x :: 16 word) = unat x div 2 ^ n"
proof -
  have "unat (drop_bit n x) = drop_bit n (unat x)"
    using unat_segment [of x] by (simp add: unsigned_drop_bit_eq take_bit_nat_eq_self)
  then show ?thesis by (simp only: drop_bit_eq_div)
qed

lemma unat_high_bits: "unat (x AND NOT (mask n) :: 16 word) = unat x div 2 ^ n * 2 ^ n"
proof -
  have "unat x div 2 ^ n * 2 ^ n < 65536"
    using unat_segment [of x] by (meson div_times_less_eq_dividend le_less_trans)
  moreover have "unat (push_bit n y :: 16 word) = take_bit 16 (unat y * 2 ^ n)" for y
  proof -
    have "unat (push_bit n y) = take_bit 16 (push_bit n (unat y))" by (simp add: unsigned_push_bit_eq)
    then show ?thesis by (simp only: push_bit_eq_mult)
  qed
  ultimately show ?thesis by (simp add: and_high_bits unat_drop take_bit_nat_eq_self)
qed

lemma unique_local: "(s :: 16 word) AND 0xfe00 = 0xfc00 \<longleftrightarrow> unat s div 512 = 126"
proof -
  have "(0xfe00 :: 16 word) = NOT (mask 9)" by (simp add: mask_eq_exp_minus_1)
  then have "unat (s AND 0xfe00) = unat s div 512 * 512" using unat_high_bits [of s 9] by simp
  then show ?thesis by (simp add: segment_eq)
qed

lemma link_local_6: "(s :: 16 word) AND 0xffc0 = 0xfe80 \<longleftrightarrow> unat s div 64 = 1018"
proof -
  have "(0xffc0 :: 16 word) = NOT (mask 6)" by (simp add: mask_eq_exp_minus_1)
  then have "unat (s AND 0xffc0) = unat s div 64 * 64" using unat_high_bits [of s 6] by simp
  then show ?thesis by (simp add: segment_eq)
qed

lemma octets_of_segment: "unat (high_octet s) = unat s div 256" "unat (low_octet s) = unat s mod 256"
proof -
  have "unat s div 256 < 256" using unat_segment [of s] by (simp add: less_mult_imp_div_less)
  then show "unat (high_octet s) = unat s div 256"
    using unat_drop [of 8 s] by (simp add: high_octet_def unsigned_ucast_eq take_bit_nat_eq_self)
  show "unat (low_octet s) = unat s mod 256"
    by (simp add: low_octet_def unsigned_ucast_eq take_bit_eq_mod)
qed

lemma base65536: "c < 65536 \<Longrightarrow> x * 65536 + c = k \<longleftrightarrow> x = k div 65536 \<and> c = k mod (65536 :: nat)"
  by auto

lemma in_block_mapped:
  assumes "first < 2 ^ 32" "prefix \<le> 32"
  shows "in_block 128 (M * 2 ^ 32 + first) (96 + prefix) n \<longleftrightarrow>
    n div 2 ^ 32 = M \<and> in_block 32 first prefix (n mod 2 ^ 32)"
proof -
  define k where "k = 32 - prefix"
  have k: "128 - (96 + prefix) = k" "2 ^ 32 = 2 ^ prefix * (2 ^ k :: nat)"
    using assms(2) by (simp_all add: k_def flip: power_add)
  have split: "(a * 2 ^ 32 + b) div 2 ^ k = a * 2 ^ prefix + b div 2 ^ k" for a b :: nat
    by (simp only: k(2) mult.assoc [symmetric] div_mult_self3 [of "2 ^ k"])
       (simp add: add.commute)
  have small: "b div 2 ^ k < 2 ^ prefix" if "b < 2 ^ 32" for b :: nat
    using that by (simp only: k(2) less_mult_imp_div_less)
  have "n div 2 ^ k = (n div 2 ^ 32) * 2 ^ prefix + n mod 2 ^ 32 div 2 ^ k"
    using split [of "n div 2 ^ 32" "n mod 2 ^ 32"] by simp
  moreover have "(x * 2 ^ prefix + y = z * 2 ^ prefix + w) \<longleftrightarrow> x = z \<and> y = w"
    if "y < 2 ^ prefix" "w < 2 ^ prefix" for x y z w :: nat
    using that by (metis add.commute div_mult_self3 div_less mod_less mod_mult_self3 less_nat_zero_code
        plus_nat.add_0 power_not_zero zero_neq_numeral)
  ultimately show ?thesis
    using small [of first] small [of "n mod 2 ^ 32"] assms(1) split [of M first]
    by (simp add: in_block_def k k_def [symmetric])
qed

lemma mapped_iff:
  "(case to_ipv4_mapped v of Some v4 \<Rightarrow> v4_blocked v4 | None \<Rightarrow> False) \<longleftrightarrow>
   (\<exists>(first, prefix) \<in> set v4_blocks. in_block 128 (0xffff * 2 ^ 32 + first) (96 + prefix) (v6_number v))"
proof (cases v)
  case (Ipv6 s0 s1 s2 s3 s4 s5 s6 s7)
  define T where "T = ((((unat s0 * 65536 + unat s1) * 65536 + unat s2) * 65536 + unat s3) * 65536 + unat s4) * 65536 + unat s5"
  define L where "L = unat s6 * 65536 + unat s7"
  note seg = unat_segment [of s0] unat_segment [of s1] unat_segment [of s2] unat_segment [of s3]
    unat_segment [of s4] unat_segment [of s5] unat_segment [of s6] unat_segment [of s7]
  have L: "L < 2 ^ 32" using seg(7,8) by (simp add: L_def)
  have n: "v6_number v = T * 2 ^ 32 + L" by (simp add: Ipv6 T_def L_def)
  then have parts: "v6_number v div 2 ^ 32 = T" "v6_number v mod 2 ^ 32 = L" using L by auto
  have mapped: "T = 0xffff \<longleftrightarrow> s0 = 0 \<and> s1 = 0 \<and> s2 = 0 \<and> s3 = 0 \<and> s4 = 0 \<and> s5 = 0xffff"
    unfolding T_def
    by (simp only: base65536 [OF seg(2)] base65536 [OF seg(3)] base65536 [OF seg(4)] base65536 [OF seg(5)]
        base65536 [OF seg(6)])
       (auto simp: segment_eq)
  have octets: "v4_number (Ipv4 (high_octet s6) (low_octet s6) (high_octet s7) (low_octet s7)) = L"
  proof -
    have whole: "x div 256 * 256 + x mod 256 = x" for x :: nat by simp
    have "(unat s6 * 256 + unat s7 div 256) * 256 + unat s7 mod 256 =
        unat s6 * 65536 + (unat s7 div 256 * 256 + unat s7 mod 256)"
      by (simp add: add_mult_distrib)
    then show ?thesis unfolding v4_number.simps octets_of_segment L_def whole .
  qed
  have blocks: "fst x < 2 ^ 32 \<and> snd x \<le> 32" if "x \<in> set v4_blocks" for x
    using that by (auto simp: v4_blocks_def v4_at_def)
  have per: "in_block 128 (0xffff * 2 ^ 32 + fst x) (96 + snd x) (v6_number v) \<longleftrightarrow>
      T = 0xffff \<and> in_block 32 (fst x) (snd x) L" if "x \<in> set v4_blocks" for x
    using blocks [OF that] in_block_mapped [where first = "fst x" and prefix = "snd x" and M = "0xffff" and n = "v6_number v"] unfolding parts by blast
  have "(\<exists>(first, prefix) \<in> set v4_blocks. in_block 128 (0xffff * 2 ^ 32 + first) (96 + prefix) (v6_number v)) \<longleftrightarrow>
      (\<exists>(first, prefix) \<in> set v4_blocks. T = 0xffff \<and> in_block 32 first prefix L)"
    unfolding split_def by (rule bex_cong [OF refl per])
  also have "\<dots> \<longleftrightarrow> T = 0xffff \<and> (\<exists>(first, prefix) \<in> set v4_blocks. in_block 32 first prefix L)"
    by auto
  also have "\<dots> \<longleftrightarrow> T = 0xffff \<and>
      v4_blocked (Ipv4 (high_octet s6) (low_octet s6) (high_octet s7) (low_octet s7))"
    by (simp only: v4_blocked_iff octets)
  finally show ?thesis using mapped by (auto simp: Ipv6)
qed

lemma v6_blocked_iff: "v6_blocked v \<longleftrightarrow> (\<exists>(first, prefix) \<in> set v6_ranges. in_block 128 first prefix (v6_number v))"
proof (cases v)
  case (Ipv6 s0 s1 s2 s3 s4 s5 s6 s7)
  define R where "R = ((((unat s2 * 65536 + unat s3) * 65536 + unat s4) * 65536 + unat s5) * 65536 + unat s6) * 65536 + unat s7"
  note seg = unat_segment [of s0] unat_segment [of s1] unat_segment [of s2] unat_segment [of s3]
    unat_segment [of s4] unat_segment [of s5] unat_segment [of s6] unat_segment [of s7]
  have R: "R < 2 ^ 96" using seg unfolding R_def by simp
  have n: "v6_number v = unat s0 * 2 ^ 112 + unat s1 * 2 ^ 96 + R" by (simp add: Ipv6 R_def)
  have tail: "unat s1 * 2 ^ 96 + R < 2 ^ 112" using R seg(2) by simp
  have top: "v6_number v div 2 ^ 112 = unat s0"
    using tail n by (simp add: div_mult_self3 add.assoc)
  have second: "v6_number v div 2 ^ 96 = unat s0 * 65536 + unat s1"
    using R n by simp
  have high: "v6_number v div 2 ^ 121 = unat s0 div 512" "v6_number v div 2 ^ 118 = unat s0 div 64"
    by (simp_all flip: top div_mult2_eq)
  have zero: "v6_number v = 0 \<longleftrightarrow> s0 = 0 \<and> s1 = 0 \<and> s2 = 0 \<and> s3 = 0 \<and> s4 = 0 \<and> s5 = 0 \<and> s6 = 0 \<and> s7 = 0"
    and one: "v6_number v = 1 \<longleftrightarrow> s0 = 0 \<and> s1 = 0 \<and> s2 = 0 \<and> s3 = 0 \<and> s4 = 0 \<and> s5 = 0 \<and> s6 = 0 \<and> s7 = 1"
    unfolding Ipv6 v6_number.simps
    by (simp_all only: base65536 [OF seg(2)] base65536 [OF seg(3)] base65536 [OF seg(4)] base65536 [OF seg(5)]
        base65536 [OF seg(6)] base65536 [OF seg(7)] base65536 [OF seg(8)])
       (auto simp: segment_eq)
  have teredo: "v6_number v div 2 ^ 96 = 0x20010000 \<longleftrightarrow> s0 = 0x2001 \<and> s1 = 0"
    unfolding second by (simp only: base65536 [OF seg(2)]) (simp add: segment_eq)
  have sixtofour: "v6_number v div 2 ^ 112 = 0x2002 \<longleftrightarrow> s0 = 0x2002"
    unfolding top by (simp add: segment_eq)
  have "(\<exists>(first, prefix) \<in> set v6_blocks. in_block 128 first prefix (v6_number v)) \<longleftrightarrow>
      v6_number v = 1 \<or> v6_number v = 0 \<or> unat s0 div 512 = 126 \<or> unat s0 div 64 = 1018 \<or>
      v6_number v div 2 ^ 96 = 0x20010000 \<or> v6_number v div 2 ^ 112 = 0x2002"
    using high by (simp add: v6_blocks_def in_block_def)
  then have plain: "(\<exists>(first, prefix) \<in> set v6_blocks. in_block 128 first prefix (v6_number v)) \<longleftrightarrow>
      (s0 = 0 \<and> s1 = 0 \<and> s2 = 0 \<and> s3 = 0 \<and> s4 = 0 \<and> s5 = 0 \<and> s6 = 0 \<and> s7 = 1) \<or>
      (s0 = 0 \<and> s1 = 0 \<and> s2 = 0 \<and> s3 = 0 \<and> s4 = 0 \<and> s5 = 0 \<and> s6 = 0 \<and> s7 = 0) \<or>
      s0 AND 0xfe00 = 0xfc00 \<or> s0 AND 0xffc0 = 0xfe80 \<or> (s0 = 0x2001 \<and> s1 = 0) \<or> s0 = 0x2002"
    unfolding zero one unique_local link_local_6 teredo sixtofour .
  have "(\<exists>(first, prefix) \<in> set v6_ranges. in_block 128 first prefix (v6_number v)) \<longleftrightarrow>
      (\<exists>(first, prefix) \<in> set v6_blocks. in_block 128 first prefix (v6_number v)) \<or>
      (\<exists>(first, prefix) \<in> set v4_blocks. in_block 128 (0xffff * 2 ^ 32 + first) (96 + prefix) (v6_number v))"
    by (simp only: v6_ranges_def set_append bex_Un set_map bex_simps(7) split_def fst_conv snd_conv)
  then have "(\<exists>(first, prefix) \<in> set v6_ranges. in_block 128 first prefix (v6_number v)) \<longleftrightarrow> v6_blocked v"
    unfolding plain mapped_iff [of v, symmetric] unfolding Ipv6 v6_blocked.simps disj_assoc .
  then show ?thesis by (rule sym)
qed

subsection \<open>What is accepted\<close>

lemma metadata_ip_is_link_local: "v4_blocked metadata_ip"
  by (simp add: v4_blocked_def metadata_ip_def)

text \<open>
  C40. The URLs that may be fetched, with the bit tests read as ranges of addresses: exactly those
  that parse, are http or https, and whose host is a name other than the three listed, a version 4
  address outside ten blocks, or a version 6 address outside six blocks and outside the ten blocks
  again where they are mapped under \<open>::ffff:0:0/96\<close>.
\<close>

theorem accepted_urls:
  "validate_url_for_ssrf parse s = Inr () \<longleftrightarrow>
   (\<exists>u h. parse s = Inr u \<and> url_scheme u \<in> {lit ''http'', lit ''https''} \<and> url_host u = Some h \<and>
     (case h of
        Domain d \<Rightarrow> d \<notin> {lit ''localhost'', lit ''metadata.google.internal'', lit ''metadata.goog''}
      | HostV4 v \<Rightarrow> \<not> (\<exists>(first, prefix) \<in> set v4_blocks. in_block 32 first prefix (v4_number v))
      | HostV6 v \<Rightarrow> \<not> (\<exists>(first, prefix) \<in> set v6_ranges. in_block 128 first prefix (v6_number v))))"
proof -
  have host: "check_host h = Inr () \<longleftrightarrow>
     (case h of
        Domain d \<Rightarrow> d \<notin> {lit ''localhost'', lit ''metadata.google.internal'', lit ''metadata.goog''}
      | HostV4 v \<Rightarrow> \<not> v4_blocked v
      | HostV6 v \<Rightarrow> \<not> v6_blocked v)" for h
  proof (cases h)
    case (Domain d)
    then show ?thesis by (simp add: blocked_metadata_hosts_def)
  next
    case (HostV4 v)
    then show ?thesis using metadata_ip_is_link_local by auto
  next
    case (HostV6 v)
    then show ?thesis by simp
  qed
  show ?thesis
    unfolding v4_blocked_iff [symmetric] v6_blocked_iff [symmetric] validate_url_for_ssrf_def
    by (simp add: host split: sum.split option.split)
qed

text \<open>
  What the filter lets through: a name that resolves to the local host, and reserved blocks it
  does not list (this-network, carrier-grade NAT, benchmarking, multicast, class E, an address
  compatible with version 4, and the metadata address behind the NAT64 prefix).
\<close>

lemma gaps_of_the_filter:
  "check_host (Domain (lit ''localhost.'')) = Inr ()"
  "check_host (HostV4 (Ipv4 0 0 0 1)) = Inr ()" "check_host (HostV4 (Ipv4 100 64 0 1)) = Inr ()"
  "check_host (HostV4 (Ipv4 198 18 0 1)) = Inr ()" "check_host (HostV4 (Ipv4 224 0 0 1)) = Inr ()"
  "check_host (HostV4 (Ipv4 240 0 0 1)) = Inr ()"
  "check_host (HostV6 (Ipv6 0 0 0 0 0 0 0x7f00 1)) = Inr ()"
  "check_host (HostV6 (Ipv6 0x64 0xff9b 0 0 0 0 0xa9fe 0xa9fe)) = Inr ()"
  by (simp_all add: blocked_metadata_hosts_def lit_def v4_blocked_def metadata_ip_def)

subsection \<open>Strings\<close>

text \<open>An accepted message is trimmed, not empty, and within its bytes; so is a search query.\<close>

lemma validate_message_iff:
  "validate_message s = Inr t \<longleftrightarrow> t = trim s \<and> t \<noteq> [] \<and> str_len t \<le> max_message_length"
  unfolding validate_message_def Let_def by (cases "t = trim s"; cases "trim s = []") auto

lemma validate_search_query_iff:
  "validate_search_query s n = Inr t \<longleftrightarrow> t = trim s \<and> t \<noteq> [] \<and> str_len t \<le> n"
  unfolding validate_search_query_def Let_def by (cases "t = trim s"; cases "trim s = []") auto

lemma validate_message_idem: "validate_message s = Inr t \<Longrightarrow> validate_message t = Inr t"
  unfolding validate_message_iff by (metis trim_idem)

text \<open>Other fields are measured before trimming, so a short title in long blanks is refused.\<close>

lemma validate_string_iff:
  "validate_string s n field = Inr () \<longleftrightarrow> trim s \<noteq> [] \<and> str_len s \<le> n"
  by (simp add: validate_string_def)

lemma validate_pagination_bounded: "snd (validate_pagination off bound d m) \<le> m"
  by (simp add: validate_pagination_def)

end
