(* ===== verification/Chat_Store.thy ===== *)
theory Chat_Store
  imports Streaming Memory_Store Input_Validation
begin

text \<open>
  \<open>repositories/chat.rs\<close> and \<open>repositories/rag_log.rs\<close> with their services and the handlers of
  the history and of the metrics: the messages of a notebook and the log of its retrievals. The
  two tables are lists of rows; a statement that fails leaves them as they are, and its error is
  what the caller sees, so only the statements that run are modelled. Reading the stored citations
  back and printing a date are parameters. The lemmas show that the pages of a history partition
  it, that clearing a notebook leaves no trace of its conversations, and that a log entry can only
  be judged by the account it belongs to.
\<close>

subsection \<open>The tables\<close>

record chat_message =
  cm_id :: uuid
  cm_notebook :: uuid
  cm_role :: rstr
  cm_content :: rstr
  cm_citations :: json
  cm_model :: "rstr option"
  cm_session :: "uuid option"
  cm_created :: int

record rag_log_row =
  rg_id :: uuid
  rg_entry :: rag_log_entry
  rg_context_relevance :: "rfloat option"
  rg_answer_faithfulness :: "rfloat option"
  rg_answer_relevance :: "rfloat option"
  rg_feedback :: "rstr option"
  rg_created :: int

text \<open>\<open>ch_ids\<close> is the source of fresh identifiers and \<open>ch_now\<close> the clock, in seconds.\<close>

record chat_db =
  ch_messages :: "chat_message list"
  ch_logs :: "rag_log_row list"
  ch_now :: int
  ch_ids :: "nat \<Rightarrow> uuid"
  ch_made :: nat

definition fresh_id :: "chat_db \<Rightarrow> uuid" where
  "fresh_id d = ch_ids d (ch_made d)"

subsection \<open>Messages\<close>

definition insert_message ::
  "uuid \<Rightarrow> rstr \<Rightarrow> rstr \<Rightarrow> citation list \<Rightarrow> rstr option \<Rightarrow> uuid option \<Rightarrow> chat_db \<Rightarrow> chat_message \<times> chat_db" where
  "insert_message nb role c citations model session d =
     (let m = \<lparr>cm_id = fresh_id d, cm_notebook = nb, cm_role = role, cm_content = c,
          cm_citations = JArr (map citation_json citations), cm_model = model, cm_session = session,
          cm_created = ch_now d\<rparr>
      in (m, d\<lparr>ch_messages := ch_messages d @ [m], ch_made := ch_made d + 1\<rparr>))"

definition of_notebook :: "uuid \<Rightarrow> chat_db \<Rightarrow> chat_message list" where
  "of_notebook nb d = filter (\<lambda>m. cm_notebook m = nb) (ch_messages d)"

definition message_by_id :: "uuid \<Rightarrow> chat_db \<Rightarrow> chat_message option" where
  "message_by_id i d = List.find (\<lambda>m. cm_id m = i) (ch_messages d)"

text \<open>
  Both orders of the queries. Messages of one instant have no order of their own in SQL; here the
  two orders are each other's reverse.
\<close>

definition oldest_first :: "uuid \<Rightarrow> chat_db \<Rightarrow> chat_message list" where
  "oldest_first nb d = sort_by (\<lambda>a b. cmp_ord (cm_created a) (cm_created b)) (of_notebook nb d)"

definition newest_first :: "uuid \<Rightarrow> chat_db \<Rightarrow> chat_message list" where
  "newest_first nb d = rev (oldest_first nb d)"

definition get_conversation_up_to :: "uuid \<Rightarrow> int \<Rightarrow> chat_db \<Rightarrow> chat_message list" where
  "get_conversation_up_to nb up_to d = take 200 (filter (\<lambda>m. cm_created m \<le> up_to) (oldest_first nb d))"

definition get_latest_message :: "uuid \<Rightarrow> chat_db \<Rightarrow> chat_message option" where
  "get_latest_message nb d = (case newest_first nb d of [] \<Rightarrow> None | m # _ \<Rightarrow> Some m)"

definition get_history :: "uuid \<Rightarrow> nat option \<Rightarrow> chat_db \<Rightarrow> chat_message list" where
  "get_history nb bound d =
     (case bound of None \<Rightarrow> oldest_first nb d | Some n \<Rightarrow> take n (oldest_first nb d))"

definition get_recent_history :: "uuid \<Rightarrow> nat \<Rightarrow> chat_db \<Rightarrow> chat_message list" where
  "get_recent_history nb max_messages d = rev (take max_messages (newest_first nb d))"

record history_page =
  hp_messages :: "chat_message list"
  hp_total :: nat
  hp_offset :: nat
  hp_limit :: nat
  hp_has_more :: bool

definition default_chat_history_limit :: nat where "default_chat_history_limit = 50"
definition max_chat_history_limit :: nat where "max_chat_history_limit = 200"

definition get_history_paginated :: "uuid \<Rightarrow> nat option \<Rightarrow> nat option \<Rightarrow> chat_db \<Rightarrow> history_page" where
  "get_history_paginated nb offset bound d =
     (let offset = (case offset of Some n \<Rightarrow> n | None \<Rightarrow> 0);
          bound = min (case bound of Some n \<Rightarrow> n | None \<Rightarrow> default_chat_history_limit) max_chat_history_limit;
          messages = rev (take bound (drop offset (newest_first nb d)))
      in \<lparr>hp_messages = messages, hp_total = length (of_notebook nb d), hp_offset = offset,
          hp_limit = bound, hp_has_more = (offset + length messages < length (of_notebook nb d))\<rparr>)"

text \<open>One transaction: the logs go with the messages.\<close>

definition clear_history :: "uuid \<Rightarrow> chat_db \<Rightarrow> nat \<times> chat_db" where
  "clear_history nb d =
     (length (of_notebook nb d),
      d\<lparr>ch_logs := filter (\<lambda>l. rl_notebook_id (rg_entry l) \<noteq> nb) (ch_logs d),
        ch_messages := filter (\<lambda>m. cm_notebook m \<noteq> nb) (ch_messages d)\<rparr>)"

definition history_to_llm_messages :: "chat_message list \<Rightarrow> llm_message list" where
  "history_to_llm_messages = map (\<lambda>m. \<lparr>msg_role = role_from (cm_role m), msg_content = cm_content m\<rparr>)"

subsection \<open>The log\<close>

definition create_log :: "rag_log_entry \<Rightarrow> chat_db \<Rightarrow> uuid \<times> chat_db" where
  "create_log e d =
     (fresh_id d, d\<lparr>ch_logs := ch_logs d @
        [\<lparr>rg_id = fresh_id d, rg_entry = e, rg_context_relevance = rl_context_relevance e,
          rg_answer_faithfulness = None, rg_answer_relevance = None, rg_feedback = None,
          rg_created = ch_now d\<rparr>], ch_made := ch_made d + 1\<rparr>)"

definition log_missing :: app_error where
  "log_missing = NotFound (lit ''RAG log entry not found'')"

definition update_log :: "uuid \<Rightarrow> (rag_log_row \<Rightarrow> rag_log_row) \<Rightarrow> chat_db \<Rightarrow> chat_db" where
  "update_log i f d = d\<lparr>ch_logs := map (\<lambda>l. if rg_id l = i then f l else l) (ch_logs d)\<rparr>"

definition get_log_for_user :: "uuid \<Rightarrow> uuid \<Rightarrow> chat_db \<Rightarrow> app_error + rag_log_row" where
  "get_log_for_user i user d =
     (case List.find (\<lambda>l. rg_id l = i \<and> rl_user_id (rg_entry l) = user) (ch_logs d) of
        None \<Rightarrow> Inl log_missing | Some l \<Rightarrow> Inr l)"

record rag_metrics =
  rm_context_relevance :: "rfloat option"
  rm_answer_faithfulness :: "rfloat option"
  rm_answer_relevance :: "rfloat option"

definition update_metrics :: "uuid \<Rightarrow> rag_metrics \<Rightarrow> chat_db \<Rightarrow> (app_error + unit) \<times> chat_db" where
  "update_metrics i m d =
     (if list_ex (\<lambda>l. rg_id l = i) (ch_logs d)
      then (Inr (), update_log i (\<lambda>l. l\<lparr>rg_context_relevance := rm_context_relevance m,
          rg_answer_faithfulness := rm_answer_faithfulness m,
          rg_answer_relevance := rm_answer_relevance m\<rparr>) d)
      else (Inl log_missing, d))"

datatype user_feedback = Positive | Negative

fun feedback_str :: "user_feedback \<Rightarrow> rstr" where
  "feedback_str Positive = lit ''positive''"
| "feedback_str Negative = lit ''negative''"

definition update_feedback :: "uuid \<Rightarrow> uuid \<Rightarrow> user_feedback \<Rightarrow> chat_db \<Rightarrow> (app_error + unit) \<times> chat_db" where
  "update_feedback i user feedback d =
     (case get_log_for_user i user d of
        Inl e \<Rightarrow> (Inl e, d)
      | Inr _ \<Rightarrow> (Inr (), update_log i (\<lambda>l. l\<lparr>rg_feedback := Some (feedback_str feedback)\<rparr>) d))"

text \<open>The map from messages to their logs; a later row replaces an earlier one.\<close>

definition log_ids_for_messages :: "uuid list \<Rightarrow> chat_db \<Rightarrow> uuid \<Rightarrow> (uuid \<times> rstr option) option" where
  "log_ids_for_messages ids d =
     (if ids = [] then Map.empty
      else foldl (\<lambda>m l. case rl_response_id (rg_entry l) of
          Some r \<Rightarrow> m(r \<mapsto> (rg_id l, rg_feedback l)) | None \<Rightarrow> m) Map.empty
        (filter (\<lambda>l. case rl_response_id (rg_entry l) of Some r \<Rightarrow> r \<in> set ids | None \<Rightarrow> False) (ch_logs d)))"

definition log_by_response :: "uuid \<Rightarrow> chat_db \<Rightarrow> rag_log_row option" where
  "log_by_response i d = List.find (\<lambda>l. rl_response_id (rg_entry l) = Some i) (ch_logs d)"

definition get_preferred_source_ids :: "uuid \<Rightarrow> chat_db \<Rightarrow> uuid list" where
  "get_preferred_source_ids nb d =
     remdups (concat (map (\<lambda>l. map cl_source_id (rl_chunks_retrieved (rg_entry l)))
       (filter (\<lambda>l. rl_notebook_id (rg_entry l) = nb \<and> rg_feedback l = Some (lit ''positive''))
         (ch_logs d))))"

definition rag_log_retention_days :: int where "rag_log_retention_days = 90"

definition older_than :: "int \<Rightarrow> int \<Rightarrow> rag_log_row \<Rightarrow> bool" where
  "older_than now days l \<longleftrightarrow> rg_created l < now - days * 86400"

definition purge_old_logs :: "int \<Rightarrow> chat_db \<Rightarrow> nat \<times> chat_db" where
  "purge_old_logs days d =
     (length (filter (older_than (ch_now d) days) (ch_logs d)),
      d\<lparr>ch_logs := filter (\<lambda>l. \<not> older_than (ch_now d) days l) (ch_logs d)\<rparr>)"

subsection \<open>Metrics\<close>

datatype metrics_scope = NotebookScope | UserScope

fun scope_column :: "metrics_scope \<Rightarrow> rstr" where
  "scope_column NotebookScope = lit ''notebook_id''"
| "scope_column UserScope = lit ''user_id''"

fun in_scope :: "metrics_scope \<Rightarrow> uuid \<Rightarrow> rag_log_row \<Rightarrow> bool" where
  "in_scope NotebookScope i l \<longleftrightarrow> rl_notebook_id (rg_entry l) = i"
| "in_scope UserScope i l \<longleftrightarrow> rl_user_id (rg_entry l) = i"

record aggregated_metrics =
  am_total_interactions :: nat
  am_successful_retrievals :: nat
  am_avg_context_relevance :: "rfloat option"
  am_avg_answer_faithfulness :: "rfloat option"
  am_positive_feedback :: nat
  am_negative_feedback :: nat

text \<open>
  The averages of the database are doubles; \<open>avg\<close> is what reading one as a single gives, over the
  values that are not null.
\<close>

definition query_aggregated_metrics ::
  "(rfloat list \<Rightarrow> rfloat option) \<Rightarrow> metrics_scope \<Rightarrow> uuid \<Rightarrow> int \<Rightarrow> chat_db \<Rightarrow> aggregated_metrics" where
  "query_aggregated_metrics avg scope i days d =
     (let rows = filter (\<lambda>l. in_scope scope i l \<and> ch_now d - days * 86400 < rg_created l) (ch_logs d);
          counted = (\<lambda>P. length (filter P rows));
          values = (\<lambda>f. List.map_filter f rows)
      in \<lparr>am_total_interactions = length rows,
          am_successful_retrievals = counted (\<lambda>l. case rl_retrieval_score_avg (rg_entry l) of
              Some x \<Rightarrow> f_lt (Fin (1 / 2)) x | None \<Rightarrow> False),
          am_avg_context_relevance = avg (values rg_context_relevance),
          am_avg_answer_faithfulness = avg (values rg_answer_faithfulness),
          am_positive_feedback = counted (\<lambda>l. rg_feedback l = Some (lit ''positive'')),
          am_negative_feedback = counted (\<lambda>l. rg_feedback l = Some (lit ''negative''))\<rparr>)"

definition percentage :: "nat \<Rightarrow> nat \<Rightarrow> rfloat" where
  "percentage part whole =
     (if whole = 0 then Fin 0
      else f_to_f32 (f_mul rnd64 (f_div rnd64 (f_of_nat rnd64 part) (f_of_nat rnd64 whole)) (Fin 100)))"

definition success_rate :: "aggregated_metrics \<Rightarrow> rfloat" where
  "success_rate m = percentage (am_successful_retrievals m) (am_total_interactions m)"

definition positive_feedback_rate :: "aggregated_metrics \<Rightarrow> rfloat" where
  "positive_feedback_rate m =
     percentage (am_positive_feedback m) (am_positive_feedback m + am_negative_feedback m)"

record metrics_response =
  mt_metrics :: aggregated_metrics
  mt_success_rate :: rfloat
  mt_positive_feedback_rate :: rfloat

definition metrics_response_of :: "aggregated_metrics \<Rightarrow> metrics_response" where
  "metrics_response_of m =
     \<lparr>mt_metrics = m, mt_success_rate = success_rate m, mt_positive_feedback_rate = positive_feedback_rate m\<rparr>"

definition metrics_days :: "int option \<Rightarrow> int" where
  "metrics_days days = max 1 (min 365 (case days of Some n \<Rightarrow> n | None \<Rightarrow> 30))"

subsection \<open>Handlers\<close>

text \<open>\<open>access\<close> is what looking up the notebook for the account answers.\<close>

definition update_feedback_handler ::
  "uuid \<Rightarrow> uuid \<Rightarrow> user_feedback \<Rightarrow> chat_db \<Rightarrow> (app_error + json) \<times> chat_db" where
  "update_feedback_handler account i feedback d =
     (case update_feedback i account feedback d of
        (Inl e, d') \<Rightarrow> (Inl e, d')
      | (Inr _, d') \<Rightarrow>
          (Inr (jobj [(''success'', JBool True), (''feedback'', JStr (feedback_str feedback))]), d'))"

definition get_notebook_metrics_handler ::
  "(rfloat list \<Rightarrow> rfloat option) \<Rightarrow> app_error + unit \<Rightarrow> uuid \<Rightarrow> int option \<Rightarrow> chat_db \<Rightarrow>
   app_error + metrics_response" where
  "get_notebook_metrics_handler avg access nb days d =
     (case access of
        Inl e \<Rightarrow> Inl e
      | Inr _ \<Rightarrow> Inr (metrics_response_of (query_aggregated_metrics avg NotebookScope nb (metrics_days days) d)))"

definition get_user_metrics_handler ::
  "(rfloat list \<Rightarrow> rfloat option) \<Rightarrow> uuid \<Rightarrow> int option \<Rightarrow> chat_db \<Rightarrow> metrics_response" where
  "get_user_metrics_handler avg account days d =
     metrics_response_of (query_aggregated_metrics avg UserScope account (metrics_days days) d)"

record chat_message_response =
  mq_id :: uuid
  mq_notebook_id :: uuid
  mq_role :: rstr
  mq_content :: rstr
  mq_citations :: "citation list"
  mq_model :: "rstr option"
  mq_created_at :: rstr
  mq_rag_log_id :: "uuid option"
  mq_feedback :: "rstr option"
  mq_session_id :: "uuid option"

text \<open>\<open>read\<close> reads stored citations back and \<open>show_time\<close> prints a date.\<close>

definition message_response_of ::
  "(json \<Rightarrow> citation list option) \<Rightarrow> (int \<Rightarrow> rstr) \<Rightarrow> chat_message \<Rightarrow> chat_message_response" where
  "message_response_of read show_time m =
     \<lparr>mq_id = cm_id m, mq_notebook_id = cm_notebook m, mq_role = cm_role m, mq_content = cm_content m,
      mq_citations = (case read (cm_citations m) of Some cs \<Rightarrow> cs | None \<Rightarrow> []), mq_model = cm_model m,
      mq_created_at = show_time (cm_created m), mq_rag_log_id = None, mq_feedback = None,
      mq_session_id = cm_session m\<rparr>"

record chat_history_response =
  hr_messages :: "chat_message_response list"
  hr_total :: nat
  hr_offset :: nat
  hr_limit :: nat
  hr_has_more :: bool

definition get_chat_history_handler ::
  "(json \<Rightarrow> citation list option) \<Rightarrow> (int \<Rightarrow> rstr) \<Rightarrow> app_error + unit \<Rightarrow> uuid \<Rightarrow> nat option \<Rightarrow> nat option \<Rightarrow>
   chat_db \<Rightarrow> app_error + chat_history_response" where
  "get_chat_history_handler read show_time access nb offset bound d =
     (case access of
        Inl e \<Rightarrow> Inl e
      | Inr _ \<Rightarrow>
          let (offset, bound) = validate_pagination offset bound default_chat_history_limit max_chat_history_limit;
              page = get_history_paginated nb (Some offset) (Some bound) d;
              logs = log_ids_for_messages (map cm_id (hp_messages page)) d;
              respond = (\<lambda>m. let r = message_response_of read show_time m in
                case logs (cm_id m) of
                  Some (i, feedback) \<Rightarrow> r\<lparr>mq_rag_log_id := Some i, mq_feedback := feedback\<rparr>
                | None \<Rightarrow> r\<lparr>mq_rag_log_id := None, mq_feedback := None\<rparr>)
          in Inr \<lparr>hr_messages = map respond (hp_messages page), hr_total = hp_total page,
               hr_offset = hp_offset page, hr_limit = hp_limit page, hr_has_more = hp_has_more page\<rparr>)"

definition clear_chat_history_handler ::
  "app_error + unit \<Rightarrow> uuid \<Rightarrow> chat_db \<Rightarrow> (app_error + json) \<times> chat_db" where
  "clear_chat_history_handler access nb d =
     (case access of
        Inl e \<Rightarrow> (Inl e, d)
      | Inr _ \<Rightarrow>
          let (deleted, d') = clear_history nb d
          in (Inr (jobj [(''success'', JBool True), (''deleted_count'', JNat deleted)]), d'))"

definition teaching_mode_info :: "teaching_mode \<Rightarrow> json" where
  "teaching_mode_info m =
     jobj [(''id'', JStr (mode_str m)), (''name'', JStr (mode_display_name m)),
       (''icon'', JStr (mode_icon m)), (''description'', JStr (mode_description m))]"

definition list_teaching_modes :: json where
  "list_teaching_modes =
     jobj [(''modes'', JArr (map teaching_mode_info [Flash, Deep, Quiz, Glossary, Summary, Timeline])),
       (''default'', JStr (lit ''deep''))]"

subsection \<open>Order and pages\<close>

interpretation by_created: total_cmp "\<lambda>a b. cmp_ord (cm_created a) (cm_created b)" "\<lambda>_. True"
  by unfold_locales (auto simp: cmp_ord_def split: if_splits)

lemma oldest_first_sorted: "sorted_wrt (\<lambda>a b. cm_created a \<le> cm_created b) (oldest_first nb d)"
  using by_created.sort_by_in_order [of "of_notebook nb d"]
  by (auto simp: oldest_first_def cmp_ord_def split: if_splits elim!: sorted_wrt_mono_rel [rotated])

lemma mset_oldest_first [simp]: "mset (oldest_first nb d) = mset (of_notebook nb d)"
  by (simp add: oldest_first_def)

lemma length_oldest_first [simp]: "length (oldest_first nb d) = length (of_notebook nb d)"
  by (simp add: oldest_first_def)

lemma concat_pages: "concat (map (\<lambda>k. take n (drop (k * n) xs)) [0..<p]) = take (p * n) xs"
proof (induction p)
  case (Suc p)
  have "take (Suc p * n) xs = take (p * n) xs @ take n (drop (p * n) xs)"
    by (simp add: add.commute [of n] take_add)
  with Suc show ?case by simp
qed simp

lemma page_messages:
  "n \<le> max_chat_history_limit \<Longrightarrow>
     hp_messages (get_history_paginated nb (Some k) (Some n) d) = rev (take n (drop k (newest_first nb d)))"
  by (simp add: get_history_paginated_def Let_def)

text \<open>
  The pages of a history, put back in order, are the recent end of it: nothing is shown twice and
  nothing is left out.
\<close>

lemma pages_are_the_history:
  assumes "n \<le> max_chat_history_limit"
  shows "concat (rev (map (\<lambda>k. hp_messages (get_history_paginated nb (Some (k * n)) (Some n) d)) [0..<p])) =
    drop (length (of_notebook nb d) - p * n) (oldest_first nb d)"
proof -
  have "concat (rev (map (\<lambda>k. rev (take n (drop (k * n) ys))) [0..<p])) = rev (take (p * n) ys)"
    for ys :: "chat_message list"
    unfolding concat_pages [symmetric] by (simp add: rev_concat rev_map comp_def)
  then show ?thesis
    by (simp add: page_messages [OF assms] newest_first_def take_rev)
qed

text \<open>The flag of a page is up exactly when older messages remain.\<close>

lemma has_more_iff:
  assumes "0 < n" "n \<le> max_chat_history_limit"
  shows "hp_has_more (get_history_paginated nb (Some k) (Some n) d) \<longleftrightarrow> k + n < length (of_notebook nb d)"
  using assms by (simp add: get_history_paginated_def Let_def newest_first_def min_def) linarith

lemma recent_history_suffix:
  "get_recent_history nb n d = drop (length (of_notebook nb d) - n) (oldest_first nb d)"
  by (simp add: get_recent_history_def newest_first_def take_rev)

lemma latest_is_last:
  "get_latest_message nb d = (if of_notebook nb d = [] then None else Some (last (oldest_first nb d)))"
proof (cases "oldest_first nb d" rule: rev_exhaust)
  case Nil
  then have "of_notebook nb d = []" by (metis length_0_conv length_oldest_first)
  with Nil show ?thesis by (simp add: get_latest_message_def newest_first_def)
next
  case (snoc ys y)
  then have "of_notebook nb d \<noteq> []" by (metis length_0_conv length_oldest_first snoc_eq_iff_butlast)
  with snoc show ?thesis by (simp add: get_latest_message_def newest_first_def)
qed

lemma insert_by_last: "\<forall>y \<in> set ys. cmp y x \<noteq> Greater \<Longrightarrow> sort_by cmp (ys @ [x]) = sort_by cmp ys @ [x]"
proof (induction ys)
  case (Cons y ys)
  have "insert_by cmp y (zs @ [x]) = insert_by cmp y zs @ [x]" if "cmp y x \<noteq> Greater" for zs
    using that by (induction zs) auto
  with Cons show ?case by simp
qed simp

text \<open>What is stored last is what the next turn finds, if the clock does not go back.\<close>

lemma inserted_is_latest:
  assumes "\<forall>m \<in> set (of_notebook nb d). cm_created m \<le> ch_now d"
  shows "get_latest_message nb (snd (insert_message nb role c cs model session d)) =
    Some (fst (insert_message nb role c cs model session d))"
proof -
  let ?m = "fst (insert_message nb role c cs model session d)"
  have "of_notebook nb (snd (insert_message nb role c cs model session d)) = of_notebook nb d @ [?m]"
    by (simp add: insert_message_def of_notebook_def Let_def)
  moreover have "oldest_first nb (snd (insert_message nb role c cs model session d)) = oldest_first nb d @ [?m]"
    unfolding oldest_first_def calculation
    using assms by (intro insert_by_last) (auto simp: insert_message_def Let_def cmp_ord_def split: if_splits)
  ultimately show ?thesis by (simp add: latest_is_last)
qed

subsection \<open>Clearing and judging\<close>

text \<open>Clearing takes every message and log of the notebook, and nothing of another.\<close>

lemma cleared_leaves_nothing:
  "of_notebook nb (snd (clear_history nb d)) = []"
  "\<forall>l \<in> set (ch_logs (snd (clear_history nb d))). rl_notebook_id (rg_entry l) \<noteq> nb"
  by (simp_all add: clear_history_def of_notebook_def)

lemma cleared_keeps_others:
  assumes "other \<noteq> nb"
  shows "of_notebook other (snd (clear_history nb d)) = of_notebook other d"
    and "filter (\<lambda>l. rl_notebook_id (rg_entry l) = other) (ch_logs (snd (clear_history nb d))) =
      filter (\<lambda>l. rl_notebook_id (rg_entry l) = other) (ch_logs d)"
  using assms by (auto simp: clear_history_def of_notebook_def intro!: filter_cong)

lemma find_None_ex: "List.find P xs = None \<longleftrightarrow> (\<forall>x \<in> set xs. \<not> P x)"
  by (induction xs) auto

text \<open>A verdict needs the owner: for anyone else the log does not exist, and nothing changes.\<close>

lemma feedback_needs_owner:
  assumes "\<forall>l \<in> set (ch_logs d). rg_id l = i \<longrightarrow> rl_user_id (rg_entry l) \<noteq> user"
  shows "update_feedback i user f d = (Inl log_missing, d)"
proof -
  have "List.find (\<lambda>l. rg_id l = i \<and> rl_user_id (rg_entry l) = user) (ch_logs d) = None"
    using assms by (auto simp: find_None_ex)
  then show ?thesis by (simp add: update_feedback_def get_log_for_user_def)
qed

lemma map_update_if:
  "rg_id (if rg_id l = i then l\<lparr>rg_feedback := x\<rparr> else l) = rg_id l"
  "rg_entry (if rg_id l = i then l\<lparr>rg_feedback := x\<rparr> else l) = rg_entry l"
  "rg_feedback (if rg_id l = i then l\<lparr>rg_feedback := x\<rparr> else l) = (if rg_id l = i then x else rg_feedback l)"
  by simp_all

lemma feedback_is_recorded:
  assumes "update_feedback i user f d = (Inr (), d')"
  shows "\<forall>l \<in> set (ch_logs d'). rg_id l = i \<longrightarrow> rg_feedback l = Some (feedback_str f)"
    and "map rg_entry (ch_logs d') = map rg_entry (ch_logs d)"
proof -
  let ?up = "\<lambda>l. if rg_id l = i then l\<lparr>rg_feedback := Some (feedback_str f)\<rparr> else l"
  from assms have "ch_logs d' = map ?up (ch_logs d)"
    unfolding update_feedback_def
    by (cases "get_log_for_user i user d") (auto simp: update_log_def)
  then have logs: "ch_logs d' = map ?up (ch_logs d)" .
  show "\<forall>l \<in> set (ch_logs d'). rg_id l = i \<longrightarrow> rg_feedback l = Some (feedback_str f)"
    unfolding logs set_map ball_simps map_update_if by simp
  show "map rg_entry (ch_logs d') = map rg_entry (ch_logs d)"
    unfolding logs map_map comp_def map_update_if by (rule refl)
qed

lemma purge_keeps_recent:
  "l \<in> set (ch_logs (snd (purge_old_logs days d))) \<longleftrightarrow>
     l \<in> set (ch_logs d) \<and> ch_now d - days * 86400 \<le> rg_created l"
  "fst (purge_old_logs days (snd (purge_old_logs days d))) = 0"
  by (auto simp: purge_old_logs_def older_than_def)

text \<open>Only sources that an answer judged helpful was given count as preferred.\<close>

lemma preferred_sources_iff:
  "s \<in> set (get_preferred_source_ids nb d) \<longleftrightarrow>
     (\<exists>l \<in> set (ch_logs d). rl_notebook_id (rg_entry l) = nb \<and> rg_feedback l = Some (lit ''positive'') \<and>
       s \<in> cl_source_id ` set (rl_chunks_retrieved (rg_entry l)))"
  by (auto simp: get_preferred_source_ids_def)

end
