(* ===== verification/Router.thy ===== *)
theory Router
  imports Budget Errors Scores
begin

text \<open>
  \<open>clients/llm_router.rs\<close>, which provider answers a request and with which model, and
  \<open>core/entitlements.rs\<close>, the permit a metered operation is charged with. A provider is what the
  router asks of it; the table of providers is an association list, whose order is the iteration
  order of the hash map. The lemmas show that a fallback is another, available provider with a
  model whose window is declared, and that a permit is recorded once between two releases.
\<close>

subsection \<open>The table\<close>

record llm_provider =
  lp_name :: rstr
  lp_available :: bool
  lp_default_model :: rstr
  lp_max_output_tokens :: nat
  lp_native_citations :: bool

record llm_router =
  lr_providers :: "(rstr \<times> llm_provider) list"
  lr_default :: rstr

record provider_selection =
  sl_provider :: llm_provider
  sl_model_override :: "rstr option"
  sl_is_fallback :: bool

definition provider_priority :: "rstr list" where
  "provider_priority = [lit ''mistral'', lit ''anthropic'', lit ''openai'']"

definition router_single :: "llm_provider \<Rightarrow> llm_router" where
  "router_single p = \<lparr>lr_providers = [(lp_name p, p)], lr_default = lp_name p\<rparr>"

definition router_new :: "(rstr \<times> llm_provider) list \<Rightarrow> rstr \<Rightarrow> llm_router" where
  "router_new ps d = \<lparr>lr_providers = ps, lr_default = d\<rparr>"

text \<open>The clients that could be built from the configuration, in the order they are tried.\<close>

definition router_from_config ::
  "llm_provider option \<Rightarrow> llm_provider option \<Rightarrow> llm_provider option \<Rightarrow> llm_router" where
  "router_from_config mistral anthropic openai =
     (let entry = (\<lambda>name p. case p of Some x \<Rightarrow> [(name, x)] | None \<Rightarrow> []);
          ps = entry (lit ''mistral'') mistral @ entry (lit ''anthropic'') anthropic @
            entry (lit ''openai'') openai
      in router_new ps
           (case List.find (\<lambda>name. map_of ps name \<noteq> None) provider_priority of
              Some name \<Rightarrow> name | None \<Rightarrow> []))"

definition map_model_for_fallback :: "rstr \<Rightarrow> rstr" where
  "map_model_for_fallback fallback_provider =
     (if fallback_provider = lit ''mistral'' then lit ''mistral-large-latest''
      else if fallback_provider = lit ''anthropic'' then lit ''claude-haiku-4-5-20251001''
      else if fallback_provider = lit ''openai'' then lit ''gpt-5-mini''
      else fallback_provider)"

definition available_named :: "llm_router \<Rightarrow> rstr \<Rightarrow> rstr \<Rightarrow> llm_provider option" where
  "available_named r exclude name =
     (if name = exclude then None
      else case map_of (lr_providers r) name of
        Some p \<Rightarrow> if lp_available p then Some p else None
      | None \<Rightarrow> None)"

definition find_available_fallback :: "llm_router \<Rightarrow> rstr \<Rightarrow> llm_provider option" where
  "find_available_fallback r exclude =
     (let from_priority = List.map_filter (available_named r exclude) provider_priority;
          from_any = filter (\<lambda>p. lp_name p \<noteq> exclude \<and> lp_available p) (map snd (lr_providers r))
      in case from_priority @ from_any of [] \<Rightarrow> None | p # _ \<Rightarrow> Some p)"

definition not_configured :: "rstr \<Rightarrow> app_error" where
  "not_configured name = Llm (LlmProviderNotConfigured name)"

definition get_provider :: "llm_router \<Rightarrow> rstr option \<Rightarrow> app_error + provider_selection" where
  "get_provider r name =
     (let provider_name = (case name of Some n \<Rightarrow> n | None \<Rightarrow> lr_default r) in
      if provider_name = [] then Inl (not_configured (lit ''any''))
      else case map_of (lr_providers r) provider_name of
        None \<Rightarrow> Inl (not_configured provider_name)
      | Some p \<Rightarrow>
          if lp_available p
          then Inr \<lparr>sl_provider = p, sl_model_override = None, sl_is_fallback = False\<rparr>
          else case find_available_fallback r provider_name of
            Some q \<Rightarrow> Inr \<lparr>sl_provider = q, sl_model_override = Some (map_model_for_fallback (lp_name q)),
                sl_is_fallback = True\<rparr>
          | None \<Rightarrow> Inl (Llm (LlmRateLimited provider_name 30)))"

definition get_provider_exact :: "llm_router \<Rightarrow> rstr \<Rightarrow> app_error + llm_provider" where
  "get_provider_exact r name =
     (case map_of (lr_providers r) name of Some p \<Rightarrow> Inr p | None \<Rightarrow> Inl (not_configured name))"

definition has_available_provider :: "llm_router \<Rightarrow> bool" where
  "has_available_provider r \<longleftrightarrow> list_ex lp_available (map snd (lr_providers r))"

definition provider_names :: "llm_router \<Rightarrow> rstr list" where
  "provider_names r = map fst (lr_providers r)"

definition provider_count :: "llm_router \<Rightarrow> nat" where
  "provider_count r = length (lr_providers r)"

subsection \<open>Permits\<close>

text \<open>The payload of the policy is opaque and left out; the flag is shared by all the clones.\<close>

record permit =
  pm_account :: uuid
  pm_operation :: uuid
  pm_max_units :: "int option"
  pm_recorded :: bool

definition unrestricted :: "uuid \<Rightarrow> uuid \<Rightarrow> permit" where
  "unrestricted account operation =
     \<lparr>pm_account = account, pm_operation = operation, pm_max_units = None, pm_recorded = False\<rparr>"

definition bounded :: "uuid \<Rightarrow> uuid \<Rightarrow> int \<Rightarrow> permit" where
  "bounded account operation max_units =
     (unrestricted account operation)\<lparr>pm_max_units := Some max_units\<rparr>"

definition clamp_units :: "permit \<Rightarrow> int \<Rightarrow> int" where
  "clamp_units p units = (case pm_max_units p of Some m \<Rightarrow> min units m | None \<Rightarrow> units)"

definition claim_recording :: "permit \<Rightarrow> bool \<times> permit" where
  "claim_recording p = (\<not> pm_recorded p, p\<lparr>pm_recorded := True\<rparr>)"

definition release_recording :: "permit \<Rightarrow> permit" where
  "release_recording p = p\<lparr>pm_recorded := False\<rparr>"

datatype operation =
  CreateNotebook
| CreateSource uuid source_type
| CreateMemory uuid
| SelectModel rstr rstr
| SendChatMessage uuid
| ProcessOcrPages int

record authorization_request =
  ar_account :: uuid
  ar_operation :: operation
  ar_operation_id :: uuid

definition unrestricted_authorize :: "authorization_request \<Rightarrow> app_error + permit" where
  "unrestricted_authorize r = Inr (unrestricted (ar_account r) (ar_operation_id r))"

subsection \<open>Selection\<close>

text \<open>Every provider is registered under its own name, as all the constructors do.\<close>

definition router_ok :: "llm_router \<Rightarrow> bool" where
  "router_ok r \<longleftrightarrow> (\<forall>(name, p) \<in> set (lr_providers r). lp_name p = name)"

lemma router_single_ok: "router_ok (router_single p)"
  by (simp add: router_ok_def router_single_def)

lemma available_named_iff:
  "available_named r exclude name = Some p \<longleftrightarrow>
     name \<noteq> exclude \<and> map_of (lr_providers r) name = Some p \<and> lp_available p"
  by (auto simp: available_named_def split: option.splits)

lemma available_named_Some:
  assumes "router_ok r" "available_named r exclude name = Some p"
  shows "lp_name p = name \<and> name \<noteq> exclude \<and> lp_available p \<and> (name, p) \<in> set (lr_providers r)"
proof -
  from assms(2) have a: "name \<noteq> exclude" "map_of (lr_providers r) name = Some p" "lp_available p"
    by (simp_all add: available_named_iff)
  from a(2) have "(name, p) \<in> set (lr_providers r)" by (rule map_of_SomeD)
  moreover from this assms(1) have "lp_name p = name" unfolding router_ok_def by blast
  ultimately show ?thesis using a by simp
qed

lemma find_available_fallback_Some:
  assumes "router_ok r" "find_available_fallback r exclude = Some p"
  shows "lp_name p \<noteq> exclude \<and> lp_available p \<and> p \<in> snd ` set (lr_providers r)"
proof -
  define A where "A = List.map_filter (available_named r exclude) provider_priority"
  define B where "B = filter (\<lambda>p. lp_name p \<noteq> exclude \<and> lp_available p) (map snd (lr_providers r))"
  from assms(2) obtain rest where "A @ B = p # rest"
    unfolding find_available_fallback_def Let_def A_def [symmetric] B_def [symmetric]
    by (cases "A @ B") simp_all
  then have "p \<in> set (A @ B)" by simp
  then consider "p \<in> set A" | "p \<in> set B" unfolding set_append by blast
  then show ?thesis
  proof cases
    case 1
    then obtain name where "available_named r exclude name = Some p"
      unfolding A_def List.map_filter_def set_map set_filter comp_def by force
    from available_named_Some [OF assms(1) this] show ?thesis by force
  next
    case 2
    then show ?thesis unfolding B_def by auto
  qed
qed

text \<open>What is chosen is available: the provider asked for, or another one.\<close>

definition asked_for :: "llm_router \<Rightarrow> rstr option \<Rightarrow> rstr" where
  "asked_for r name = (case name of Some n \<Rightarrow> n | None \<Rightarrow> lr_default r)"

lemma get_provider_cases:
  assumes "get_provider r name = Inr s"
  obtains (direct) p where "map_of (lr_providers r) (asked_for r name) = Some p" "lp_available p"
      "s = \<lparr>sl_provider = p, sl_model_override = None, sl_is_fallback = False\<rparr>"
  | (fallback) q where "find_available_fallback r (asked_for r name) = Some q"
      "s = \<lparr>sl_provider = q, sl_model_override = Some (map_model_for_fallback (lp_name q)),
        sl_is_fallback = True\<rparr>"
proof -
  have g: "get_provider r name =
      (if asked_for r name = [] then Inl (not_configured (lit ''any''))
       else case map_of (lr_providers r) (asked_for r name) of
         None \<Rightarrow> Inl (not_configured (asked_for r name))
       | Some p \<Rightarrow>
           if lp_available p
           then Inr \<lparr>sl_provider = p, sl_model_override = None, sl_is_fallback = False\<rparr>
           else case find_available_fallback r (asked_for r name) of
             Some q \<Rightarrow> Inr \<lparr>sl_provider = q, sl_model_override = Some (map_model_for_fallback (lp_name q)),
                 sl_is_fallback = True\<rparr>
           | None \<Rightarrow> Inl (Llm (LlmRateLimited (asked_for r name) 30)))"
    unfolding get_provider_def asked_for_def Let_def by (rule refl)
  from assms[unfolded g] show thesis
    using that by (auto split: if_split_asm option.split_asm)
qed

lemma get_provider_Inr:
  assumes "router_ok r" "get_provider r name = Inr s"
  shows "lp_available (sl_provider s) \<and>
    (if sl_is_fallback s
     then lp_name (sl_provider s) \<noteq> asked_for r name \<and>
       sl_model_override s = Some (map_model_for_fallback (lp_name (sl_provider s)))
     else lp_name (sl_provider s) = asked_for r name \<and> sl_model_override s = None)"
  using assms(2)
proof (cases rule: get_provider_cases)
  case (direct p)
  from direct(1) have "(asked_for r name, p) \<in> set (lr_providers r)" by (rule map_of_SomeD)
  with assms(1) have "lp_name p = asked_for r name" unfolding router_ok_def by blast
  with direct(2,3) show ?thesis by simp
next
  case (fallback q)
  from find_available_fallback_Some [OF assms(1) fallback(1)] fallback(2) show ?thesis by simp
qed

text \<open>An unknown name is never routed elsewhere, also when others could answer.\<close>

lemma unknown_provider_is_refused:
  assumes "map_of (lr_providers r) n = None" "n \<noteq> []"
  shows "get_provider r (Some n) = Inl (not_configured n)"
  using assms by (simp add: get_provider_def)

text \<open>The model a fallback is given has a declared window, so the turn can be budgeted.\<close>

lemma fallback_windows:
  "context_window_for_model (lit ''mistral'') (map_model_for_fallback (lit ''mistral'')) = Some 131072"
  "context_window_for_model (lit ''anthropic'') (map_model_for_fallback (lit ''anthropic'')) = Some 200000"
  "context_window_for_model (lit ''openai'') (map_model_for_fallback (lit ''openai'')) = Some 400000"
  by (simp_all add: context_window_for_model_def catalog_context_window_def models_for_provider_def
      map_model_for_fallback_def mistral_models_def anthropic_models_def openai_models_def lit_def)

lemma fallback_model_has_window:
  "name \<in> set provider_priority \<Longrightarrow> context_window_for_model name (map_model_for_fallback name) \<noteq> None"
  unfolding provider_priority_def using fallback_windows by auto

text \<open>Nothing available is missed: a refusal means that no other provider is up.\<close>

lemma no_fallback_means_none_available:
  assumes "find_available_fallback r exclude = None" "p \<in> snd ` set (lr_providers r)"
    "lp_name p \<noteq> exclude"
  shows "\<not> lp_available p"
proof
  assume "lp_available p"
  with assms(2,3) have "p \<in> set (filter (\<lambda>p. lp_name p \<noteq> exclude \<and> lp_available p) (map snd (lr_providers r)))"
    by force
  moreover have "filter (\<lambda>p. lp_name p \<noteq> exclude \<and> lp_available p) (map snd (lr_providers r)) = []"
    using assms(1) by (simp add: find_available_fallback_def Let_def split: list.splits)
  ultimately show False by (metis list.set(1) empty_iff)
qed

subsection \<open>Recording\<close>

text \<open>The claims and releases of any number of holders of one permit, in any order.\<close>

datatype permit_step = Claims | Releases

fun permit_step_op :: "permit_step \<Rightarrow> permit \<times> nat \<Rightarrow> permit \<times> nat" where
  "permit_step_op Claims (p, won) = (case claim_recording p of (b, p') \<Rightarrow> (p', if b then won + 1 else won))"
| "permit_step_op Releases (p, won) = (release_recording p, won)"

text \<open>At most one claim succeeds, and one more for every release.\<close>

lemma recording_slot:
  "snd (fold permit_step_op steps (p, n)) +
     (if pm_recorded (fst (fold permit_step_op steps (p, n))) then 0 else 1) \<le>
   n + (if pm_recorded p then 0 else 1) + length (filter ((=) Releases) steps)"
proof (induction steps arbitrary: p n)
  case (Cons s steps)
  let ?q = "fst (permit_step_op s (p, n))" and ?m = "snd (permit_step_op s (p, n))"
  have "permit_step_op s (p, n) = (?q, ?m)" by simp
  moreover have "?m + (if pm_recorded ?q then 0 else 1) \<le>
      n + (if pm_recorded p then 0 else 1) + (if s = Releases then 1 else 0)"
    by (cases s) (simp_all add: claim_recording_def release_recording_def)
  ultimately show ?case using Cons [of ?q ?m] by (cases s) simp_all
qed simp

lemma claim_without_release:
  "Releases \<notin> set steps \<Longrightarrow> snd (fold permit_step_op steps (unrestricted a i, 0)) \<le> 1"
proof -
  assume "Releases \<notin> set steps"
  then have "filter ((=) Releases) steps = []" by (auto simp: filter_empty_conv)
  with recording_slot [of steps "unrestricted a i" 0] show ?thesis
    by (simp add: unrestricted_def split: if_splits)
qed

lemma clamp_units_bounded: "clamp_units (bounded a i m) n \<le> m \<and> clamp_units (bounded a i m) n \<le> n"
  by (simp add: clamp_units_def bounded_def)

end
