(* ===== verification/Shutdown.thy ===== *)
theory Shutdown
  imports Prelude "HOL-Library.Word"
begin

text \<open>
  \<open>middleware/shutdown.rs\<close>: the coordinator that owns admission, cancellation and the joins
  of the background tasks. Its tracker is represented by the tokens it has handed out, one for
  every live reservation and one for every live task, which is what its documentation says it
  counts; an abort handle is the identifier of its task. Each operation is a step taken under
  the lifecycle lock, and what the code does outside the lock is a step of its own: closing and
  cancelling after the flag was cleared, releasing the reservation after the task was
  registered. Identifiers are natural numbers: the 64-bit counter does not come round. The
  lemmas are the invariant of every reachable state and that a drained scope stays drained.
\<close>

record coordinator =
  sc_accepting :: bool
  sc_forced :: bool
  sc_aborts :: "nat set"
  sc_next_id :: nat
  sc_reservations :: nat
  sc_tasks :: "nat list"
  sc_closed :: bool
  sc_cancelled :: bool
  sc_active_streams :: "64 word"

datatype spawn_rejected = SpawnRejected

definition coordinator_new :: coordinator where
  "coordinator_new =
     \<lparr>sc_accepting = True, sc_forced = False, sc_aborts = {}, sc_next_id = 1, sc_reservations = 0,
      sc_tasks = [], sc_closed = False, sc_cancelled = False, sc_active_streams = 0\<rparr>"

subsection \<open>Admission and tasks\<close>

definition try_admit :: "coordinator \<Rightarrow> (spawn_rejected + unit) \<times> coordinator" where
  "try_admit c =
     (if \<not> sc_accepting c then (Inl SpawnRejected, c)
      else (Inr (), c\<lparr>sc_reservations := sc_reservations c + 1\<rparr>))"

definition spawn_admitted :: "coordinator \<Rightarrow> (spawn_rejected + nat) \<times> coordinator" where
  "spawn_admitted c =
     (if sc_forced c then (Inl SpawnRejected, c)
      else
        let task_id = sc_next_id c in
        (Inr task_id,
         c\<lparr>sc_next_id := task_id + 1, sc_tasks := sc_tasks c @ [task_id],
           sc_aborts := insert task_id (sc_aborts c)\<rparr>))"

definition release_reservation :: "coordinator \<Rightarrow> coordinator" where
  "release_reservation c = c\<lparr>sc_reservations := sc_reservations c - 1\<rparr>"

text \<open>Spawning through an admission consumes it; a rejected one is dropped with its token.\<close>

definition admission_spawn :: "coordinator \<Rightarrow> (spawn_rejected + nat) \<times> coordinator" where
  "admission_spawn c =
     (case spawn_admitted c of (r, c') \<Rightarrow> (r, release_reservation c'))"

definition try_spawn :: "coordinator \<Rightarrow> (spawn_rejected + nat) \<times> coordinator" where
  "try_spawn c =
     (case try_admit c of
        (Inl e, c') \<Rightarrow> (Inl e, c')
      | (Inr _, c') \<Rightarrow> admission_spawn c')"

text \<open>A task ends, by itself or aborted: its registration removes the handle, its token goes.\<close>

definition registration_drop :: "nat \<Rightarrow> coordinator \<Rightarrow> coordinator" where
  "registration_drop task_id c =
     c\<lparr>sc_aborts := sc_aborts c - {task_id}, sc_tasks := remove1 task_id (sc_tasks c)\<rparr>"

subsection \<open>Shutting down\<close>

definition stop_accepting :: "coordinator \<Rightarrow> bool \<times> coordinator" where
  "stop_accepting c =
     (if \<not> sc_accepting c then (False, c) else (True, c\<lparr>sc_accepting := False\<rparr>))"

definition close_tracker :: "coordinator \<Rightarrow> coordinator" where
  "close_tracker c = c\<lparr>sc_closed := True\<rparr>"

definition cancel_root :: "coordinator \<Rightarrow> coordinator" where
  "cancel_root c = c\<lparr>sc_cancelled := True\<rparr>"

definition begin_shutdown :: "coordinator \<Rightarrow> bool \<times> coordinator" where
  "begin_shutdown c =
     (case stop_accepting c of
        (initiated, c') \<Rightarrow>
          (initiated, if initiated then cancel_root (close_tracker c') else c'))"

definition task_count :: "coordinator \<Rightarrow> nat" where
  "task_count c = sc_reservations c + length (sc_tasks c)"

text \<open>\<open>wait\<close> returns when the root is cancelled and the closed tracker is empty.\<close>

definition wait_returns :: "coordinator \<Rightarrow> bool" where
  "wait_returns c \<longleftrightarrow> sc_cancelled c \<and> sc_closed c \<and> task_count c = 0"

definition abort_remaining :: "coordinator \<Rightarrow> nat set \<times> coordinator" where
  "abort_remaining c = (sc_aborts c, c\<lparr>sc_forced := True\<rparr>)"

definition shutdown :: "(coordinator \<Rightarrow> coordinator) \<Rightarrow> coordinator \<Rightarrow> nat set \<times> coordinator" where
  "shutdown until_deadline c =
     (let c' = until_deadline (snd (begin_shutdown c))
      in if wait_returns c' then ({}, c') else abort_remaining c')"

definition stream_started :: "coordinator \<Rightarrow> coordinator" where
  "stream_started c = c\<lparr>sc_active_streams := sc_active_streams c + 1\<rparr>"

definition stream_ended :: "coordinator \<Rightarrow> coordinator" where
  "stream_ended c = c\<lparr>sc_active_streams := sc_active_streams c - 1\<rparr>"

lemmas coordinator_defs =
  try_admit_def spawn_admitted_def release_reservation_def admission_spawn_def try_spawn_def
  registration_drop_def stop_accepting_def close_tracker_def cancel_root_def begin_shutdown_def
  abort_remaining_def stream_started_def stream_ended_def

subsection \<open>Interleavings\<close>

text \<open>
  The steps that can follow each other in any order. A reservation is spent at most once: the
  steps that use one need one, and the task it registers holds its own token before the
  reservation goes. \<open>registering\<close> counts the admissions between the two.
\<close>

inductive coordinator_step :: "coordinator \<times> nat \<Rightarrow> coordinator \<times> nat \<Rightarrow> bool" where
  admit: "coordinator_step (c, k) (snd (try_admit c), k)"
| register: "k < sc_reservations c \<Longrightarrow> coordinator_step (c, k) (snd (spawn_admitted c), k + 1)"
| release: "0 < k \<Longrightarrow> coordinator_step (c, k) (release_reservation c, k - 1)"
| give_up: "k < sc_reservations c \<Longrightarrow> coordinator_step (c, k) (release_reservation c, k)"
| task_end: "i \<in> set (sc_tasks c) \<Longrightarrow> coordinator_step (c, k) (registration_drop i c, k)"
| stop: "coordinator_step (c, k) (snd (stop_accepting c), k)"
| close: "\<not> sc_accepting c \<Longrightarrow> coordinator_step (c, k) (close_tracker c, k)"
| cancel: "sc_closed c \<Longrightarrow> coordinator_step (c, k) (cancel_root c, k)"
| abort: "coordinator_step (c, k) (snd (abort_remaining c), k)"
| stream_start: "coordinator_step (c, k) (stream_started c, k)"
| stream_end: "coordinator_step (c, k) (stream_ended c, k)"

definition coordinator_inv :: "coordinator \<times> nat \<Rightarrow> bool" where
  "coordinator_inv s =
     (case s of (c, k) \<Rightarrow>
       k \<le> sc_reservations c \<and> sc_aborts c = set (sc_tasks c) \<and> distinct (sc_tasks c) \<and>
       (\<forall>i \<in> set (sc_tasks c). i < sc_next_id c) \<and>
       (sc_cancelled c \<longrightarrow> sc_closed c) \<and> (sc_closed c \<longrightarrow> \<not> sc_accepting c))"

lemma coordinator_inv_new: "coordinator_inv (coordinator_new, 0)"
  by (simp add: coordinator_inv_def coordinator_new_def)

lemma coordinator_inv_step:
  "coordinator_step s s' \<Longrightarrow> coordinator_inv s \<Longrightarrow> coordinator_inv s'"
  by (induction rule: coordinator_step.induct)
    (auto simp: coordinator_inv_def coordinator_defs Let_def less_Suc_eq)

lemma coordinator_inv_run:
  assumes "coordinator_step\<^sup>*\<^sup>* s s'" "coordinator_inv s"
  shows "coordinator_inv s'"
  using assms by (induction rule: rtranclp_induct) (simp_all add: coordinator_inv_step)

lemma wait_returns_stable:
  "coordinator_step s s' \<Longrightarrow> coordinator_inv s \<Longrightarrow> wait_returns (fst s) \<Longrightarrow> wait_returns (fst s')"
  by (induction rule: coordinator_step.induct)
    (auto simp: coordinator_inv_def wait_returns_def task_count_def coordinator_defs Let_def)

lemma wait_returns_run:
  assumes "coordinator_step\<^sup>*\<^sup>* s s'" "coordinator_inv s" "wait_returns (fst s)"
  shows "wait_returns (fst s')"
  using assms
proof (induction rule: rtranclp_induct)
  case (step s1 s2)
  then show ?case
    using wait_returns_stable coordinator_inv_run by blast
qed simp

text \<open>The code's compound operations are runs of these steps.\<close>

lemma admission_spawn_run:
  assumes "k < sc_reservations c"
  shows "coordinator_step\<^sup>*\<^sup>* (c, k) (snd (admission_spawn c), k)"
proof -
  have "coordinator_step (c, k) (snd (spawn_admitted c), k + 1)"
    by (rule coordinator_step.register [OF assms])
  moreover have "coordinator_step (snd (spawn_admitted c), k + 1)
      (release_reservation (snd (spawn_admitted c)), k)"
    using coordinator_step.release [of "k + 1"] by simp
  ultimately show ?thesis
    by (simp add: admission_spawn_def split_def)
qed

lemma begin_shutdown_run: "coordinator_step\<^sup>*\<^sup>* (c, k) (snd (begin_shutdown c), k)"
proof (cases "sc_accepting c")
  case True
  let ?c = "snd (stop_accepting c)"
  have "coordinator_step (c, k) (?c, k)" by (rule coordinator_step.stop)
  moreover have "coordinator_step (?c, k) (close_tracker ?c, k)"
    by (rule coordinator_step.close) (simp add: True stop_accepting_def)
  moreover have "coordinator_step (close_tracker ?c, k) (cancel_root (close_tracker ?c), k)"
    by (rule coordinator_step.cancel) (simp add: close_tracker_def)
  ultimately show ?thesis
    by (simp add: begin_shutdown_def stop_accepting_def True)
qed (simp add: begin_shutdown_def stop_accepting_def)

subsection \<open>Property\<close>

text \<open>
  C29. However admissions, spawns, task ends, shutdown and aborts interleave: the abort
  handles are exactly those of the live tasks; cancelling comes after closing and closing after
  refusing; an admission granted before the shutdown can still spawn its task unless the
  shutdown was forced; and once \<open>wait\<close> has returned nothing is admitted or run any more.
\<close>

theorem drained_scope_stays_drained:
  assumes "coordinator_step\<^sup>*\<^sup>* (coordinator_new, 0) (c, k)" "coordinator_step\<^sup>*\<^sup>* (c, k) (c', k')"
  shows "sc_aborts c = set (sc_tasks c) \<and>
    (sc_cancelled c \<longrightarrow> sc_closed c) \<and> (sc_closed c \<longrightarrow> \<not> sc_accepting c) \<and>
    (\<not> sc_forced c \<longrightarrow> (\<exists>i. fst (admission_spawn c) = Inr i \<and> i \<notin> set (sc_tasks c))) \<and>
    (wait_returns c \<longrightarrow>
      wait_returns c' \<and> sc_tasks c' = [] \<and> sc_reservations c' = 0 \<and>
      try_spawn c' = (Inl SpawnRejected, c') \<and> fst (abort_remaining c') = {})"
proof -
  have inv: "coordinator_inv (c, k)"
    by (rule coordinator_inv_run [OF assms(1) coordinator_inv_new])
  have inv': "coordinator_inv (c', k')"
    by (rule coordinator_inv_run [OF assms(2) inv])
  have "wait_returns c'" if "wait_returns c"
    using wait_returns_run [OF assms(2) inv] that by simp
  then show ?thesis
    using inv inv'
    by (auto simp: coordinator_inv_def wait_returns_def task_count_def coordinator_defs Let_def)
qed

theorem drained_scope_stays_drained_witness:
  "let c = snd (begin_shutdown (registration_drop 1 (snd (try_spawn coordinator_new)))) in
   wait_returns c \<and> try_spawn (stream_started c) = (Inl SpawnRejected, stream_started c)"
proof -
  let ?c1 = "snd (try_admit coordinator_new)"
  let ?c2 = "snd (admission_spawn ?c1)"
  let ?c3 = "registration_drop 1 ?c2"
  let ?c = "snd (begin_shutdown ?c3)"
  have c2: "snd (try_spawn coordinator_new) = ?c2" "1 \<in> set (sc_tasks ?c2)"
    by (simp_all add: coordinator_defs coordinator_new_def)
  have "coordinator_step\<^sup>*\<^sup>* (coordinator_new, 0) (?c1, 0)"
    by (rule r_into_rtranclp) (rule coordinator_step.admit)
  also have "coordinator_step\<^sup>*\<^sup>* (?c1, 0) (?c2, 0)"
    by (rule admission_spawn_run) (simp add: coordinator_defs coordinator_new_def)
  also have "coordinator_step\<^sup>*\<^sup>* (?c2, 0) (?c3, 0)"
    by (rule r_into_rtranclp) (rule coordinator_step.task_end [OF c2(2)])
  also have "coordinator_step\<^sup>*\<^sup>* (?c3, 0) (?c, 0)"
    by (rule begin_shutdown_run)
  finally have run: "coordinator_step\<^sup>*\<^sup>* (coordinator_new, 0) (?c, 0)" .
  have later: "coordinator_step\<^sup>*\<^sup>* (?c, 0) (stream_started ?c, 0)"
    by (rule r_into_rtranclp) (rule coordinator_step.stream_start)
  have "wait_returns ?c"
    by (simp add: coordinator_defs coordinator_new_def wait_returns_def task_count_def)
  with drained_scope_stays_drained [OF run later] show ?thesis
    by (simp add: c2(1) Let_def)
qed

end
