(* ===== verification/Orchestration.thy ===== *)
theory Orchestration
  imports Chat_Store Router Memory
begin

text \<open>
  \<open>services/chat/orchestration.rs\<close>: what surrounds a retrieval in a chat turn. Authorizing the
  request, the session, the history, the preferences and the memory of the notebook, and the
  retrieval itself with its two occasions to rewrite the question. The repositories are the state,
  everything outside is the record \<open>chat_deps\<close>. The lemmas show that nothing is stored before
  everything is authorized, that a retrieval that found nothing says why, and what the client is
  told on the way.
\<close>

subsection \<open>What retrieval produced\<close>

datatype retrieval_failure = NoSources | NoEvidence | Infrastructure

fun failure_reason_code :: "retrieval_failure \<Rightarrow> reason_code" where
  "failure_reason_code NoSources = EmptyCorpus"
| "failure_reason_code NoEvidence = NoCandidates"
| "failure_reason_code Infrastructure = reason_code.ProviderError"

definition classify_failure :: "pipeline_outcome \<Rightarrow> retrieval_failure" where
  "classify_failure out =
     (if reason_contains (po_reasons out) reason_code.ProviderError then Infrastructure
      else if reason_contains (po_reasons out) EmptyCorpus then NoSources
      else NoEvidence)"

record retrieved_context =
  rx_chunks :: "search_result list"
  rx_outcome :: pipeline_outcome
  rx_reformulated_query :: "rstr option"
  rx_failure :: "retrieval_failure option"

definition retrieval_failed :: retrieved_context where
  "retrieval_failed =
     \<lparr>rx_chunks = [], rx_outcome = record_reason reason_code.ProviderError default_outcome,
      rx_reformulated_query = None, rx_failure = Some Infrastructure\<rparr>"

definition retrieval_completed ::
  "search_result list \<Rightarrow> pipeline_outcome \<Rightarrow> rstr option \<Rightarrow> retrieved_context" where
  "retrieval_completed chunks out reformulated =
     \<lparr>rx_chunks = chunks, rx_outcome = out, rx_reformulated_query = reformulated,
      rx_failure = (if chunks = [] then Some (classify_failure out) else None)\<rparr>"

subsection \<open>Sessions and follow-ups\<close>

text \<open>Times are in milliseconds; a difference may be negative.\<close>

definition session_timeout_secs :: int where "session_timeout_secs = 30 * 60"

definition should_reuse_session :: "int \<Rightarrow> uuid option \<Rightarrow> uuid option" where
  "should_reuse_session elapsed_ms latest =
     (if elapsed_ms < session_timeout_secs * 1000 then latest else None)"

definition resolve_session_id :: "app_error + chat_message option \<Rightarrow> int \<Rightarrow> uuid \<Rightarrow> uuid" where
  "resolve_session_id latest now_ms fresh =
     (case latest of
        Inr (Some m) \<Rightarrow>
          (case should_reuse_session (now_ms - cm_created m * 1000) (cm_session m) of
             Some s \<Rightarrow> s | None \<Rightarrow> fresh)
      | _ \<Rightarrow> fresh)"

definition referential_markers :: "rstr list" where
  "referential_markers =
     map lit ['' it '', '' its '', '' this '', '' that '', '' these '', '' those '', '' them '', '' they '',
       '' their '', '' he '', '' she '', '' him '', '' her '', ''the same'', ''the previous'', ''the last'',
       ''the above'', ''compared to'', ''compare with'', ''what about'', ''how about'', '' il '', '' elle '',
       '' ils '', '' elles '', '' ce '', '' cet '', '' cette '', '' ces '', '' celui '', '' celle '',
       '' ceux '', '' celles ''] @
     [lit '' le m'' @ [234] @ lit ''me'', lit '' la m'' @ [234] @ lit ''me'', lit '' les m'' @ [234] @ lit ''mes'',
      lit '' pr'' @ [233] @ lit ''c'' @ [233] @ lit ''dent''] @
     map lit ['' dernier'', '' ci-dessus'', ''par rapport'', ''et pour'', ''qu'' @ [CHR 0x27] @ ''en est'']"

definition needs_proactive_reformulation :: "unicode \<Rightarrow> rstr \<Rightarrow> bool" where
  "needs_proactive_reformulation U query \<longleftrightarrow>
     str_len query < 60 \<or> list_ex (str_contains (uc_lowercase U query)) referential_markers"

subsection \<open>What the turn calls\<close>

text \<open>
  The search repository (twice: it may change between two passes) with the embedder, the reranker
  and the models behind it; the embedder of the memory search, the notebook, the policy, and the
  answers of the repositories that can fail. The reformulation model is a pair: what it answers
  before the first search and after it.
\<close>

record 'v chat_deps =
  cd_unicode :: unicode
  cd_sha :: "rstr \<Rightarrow> rstr"
  cd_config :: core_config
  cd_services :: "'v services"
  cd_second_services :: "'v services"
  cd_has_embeddings :: bool
  cd_reformulator :: "(app_error reformulation_llm \<times> app_error reformulation_llm) option"
  cd_distance :: "'v \<Rightarrow> 'v \<Rightarrow> rfloat"
  cd_memory_embed :: "rstr \<Rightarrow> app_error + 'v"
  cd_preferred :: "app_error + uuid list"
  cd_router :: llm_router
  cd_access :: "app_error + unit"
  cd_memory_enabled :: "app_error + bool"
  cd_authorize :: "operation \<Rightarrow> app_error + permit"
  cd_latest :: "app_error + chat_message option"
  cd_history :: "app_error + chat_message list"
  cd_save_user :: "app_error + unit"
  cd_now_ms :: int
  cd_fresh_session :: uuid

text \<open>The state of a turn being prepared: the stream and what it has done, cache, memories, messages.\<close>

record 'v prep =
  pp_turn :: turn
  pp_cache :: "'v embedding_cache"
  pp_memory :: "'v memory_db"
  pp_user_messages :: "(rstr \<times> uuid) list"

definition notify :: "chat_event \<Rightarrow> 'v prep \<Rightarrow> 'v prep" where
  "notify ev s = s\<lparr>pp_turn := send ev (pp_turn s)\<rparr>"

definition on_memory ::
  "('v memory_db \<Rightarrow> (app_error + 'a) \<times> 'v memory_db) \<Rightarrow> 'v prep \<Rightarrow> (app_error + 'a) \<times> 'v prep" where
  "on_memory f s = (case f (pp_memory s) of (r, d) \<Rightarrow> (r, s\<lparr>pp_memory := d\<rparr>))"

subsection \<open>Authorizing\<close>

record chat_request =
  crq_message :: rstr
  crq_max_context_chunks :: int
  crq_provider :: "rstr option"
  crq_model :: "rstr option"
  crq_teaching :: teaching_mode
  crq_locale :: "rstr option"

record validated_request =
  vr_message :: rstr
  vr_max_context_chunks :: int
  vr_permit :: permit
  vr_provider :: llm_provider
  vr_model_for_stream :: "rstr option"
  vr_model_id :: rstr
  vr_memory_enabled :: bool
  vr_session_id :: uuid

definition or_else :: "'a option \<Rightarrow> 'a option \<Rightarrow> 'a option" where
  "or_else a b = (case a of Some x \<Rightarrow> Some x | None \<Rightarrow> b)"

definition validate_and_authorize ::
  "'v chat_deps \<Rightarrow> uuid \<Rightarrow> chat_request \<Rightarrow> 'v prep \<Rightarrow> (app_error + validated_request) \<times> 'v prep" where
  "validate_and_authorize D nb rq s =
     (case validate_message (crq_message rq) of Inl e \<Rightarrow> (Inl e, s) | Inr message \<Rightarrow>
      case validated_max_context_chunks (crq_max_context_chunks rq) of Inl e \<Rightarrow> (Inl e, s) | Inr max_chunks \<Rightarrow>
      case cd_access D of Inl e \<Rightarrow> (Inl e, s) | Inr _ \<Rightarrow>
      case cd_memory_enabled D of Inl e \<Rightarrow> (Inl e, s) | Inr memory_enabled \<Rightarrow>
      case cd_authorize D (SendChatMessage nb) of Inl e \<Rightarrow> (Inl e, s) | Inr permit \<Rightarrow>
      case get_provider (cd_router D) (crq_provider rq) of Inl e \<Rightarrow> (Inl e, s) | Inr selection \<Rightarrow>
        let model_id = (case or_else (sl_model_override selection) (crq_model rq) of
              Some m \<Rightarrow> m | None \<Rightarrow> lp_default_model (sl_provider selection))
        in case cd_authorize D (SelectModel (lp_name (sl_provider selection)) model_id) of
             Inl e \<Rightarrow> (Inl e, s)
           | Inr _ \<Rightarrow>
               let session = resolve_session_id (cd_latest D) (cd_now_ms D) (cd_fresh_session D)
               in case cd_save_user D of
                    Inl e \<Rightarrow> (Inl e, s)
                  | Inr _ \<Rightarrow>
                      (Inr \<lparr>vr_message = message, vr_max_context_chunks = max_chunks, vr_permit = permit,
                         vr_provider = sl_provider selection,
                         vr_model_for_stream = or_else (sl_model_override selection) (crq_model rq),
                         vr_model_id = model_id, vr_memory_enabled = memory_enabled,
                         vr_session_id = session\<rparr>,
                       s\<lparr>pp_user_messages := pp_user_messages s @ [(message, session)]\<rparr>))"

record chat_history =
  hs_raw :: "chat_message list"
  hs_all_messages :: "llm_message list"

definition load_chat_history :: "'v chat_deps \<Rightarrow> app_error + chat_history" where
  "load_chat_history D =
     (case cd_history D of
        Inl e \<Rightarrow> Inl e
      | Inr raw \<Rightarrow> Inr \<lparr>hs_raw = raw, hs_all_messages = history_to_llm_messages raw\<rparr>)"

definition notify_history_truncation :: "bool \<Rightarrow> nat \<Rightarrow> 'v prep \<Rightarrow> 'v prep" where
  "notify_history_truncation was_truncated kept s =
     (if was_truncated then notify (ChatSystem (HistoryTruncated kept)) s else s)"

subsection \<open>Preferences and memory\<close>

definition build_preference_boost ::
  "'v chat_deps \<Rightarrow> uuid \<Rightarrow> bool \<Rightarrow> 'v prep \<Rightarrow> preference_boost option \<times> 'v prep" where
  "build_preference_boost D nb memory_enabled s =
     (let preferred = (case cd_preferred D of Inr ids \<Rightarrow> set ids | Inl _ \<Rightarrow> {});
          (keywords, s') =
            (if memory_enabled
             then (case on_memory (list_memories nb) s of
                 (Inr memories, s') \<Rightarrow>
                   (extract_preference_keywords (cd_unicode D)
                      (map mr_content (filter (\<lambda>m. mr_type m = lit ''preference'') memories)), s')
               | (Inl _, s') \<Rightarrow> ([], s'))
             else ([], s));
          boost = \<lparr>preferred_source_ids = preferred, preference_keywords = keywords\<rparr>
      in (if boost_is_empty boost then None else Some boost, s'))"

text \<open>\<open>get_query_embedding\<close>: the cache is asked for the role of a memory search only.\<close>

definition get_query_embedding ::
  "'v chat_deps \<Rightarrow> rstr \<Rightarrow> 'v embedding_cache \<Rightarrow> 'v option \<times> 'v embedding_cache" where
  "get_query_embedding D query cache =
     (if \<not> cd_has_embeddings D then (None, cache)
      else
        let fingerprint = embedding_fingerprint (sv_provider (cd_services D));
            h = sv_hash (cd_services D)
        in case cache_get h cache WorkingMemory fingerprint query of
             Some v \<Rightarrow> (Some v, cache)
           | None \<Rightarrow>
               (case cd_memory_embed D query of
                  Inl _ \<Rightarrow> (None, cache)
                | Inr v \<Rightarrow> (Some v, cache_insert h cache WorkingMemory fingerprint query v)))"

fun touch_working :: "'v memory_hit list \<Rightarrow> 'v memory_db \<Rightarrow> 'v memory_db" where
  "touch_working [] d = d"
| "touch_working (r # rs) d =
     touch_working rs (if enters_working r then snd (touch_memory (mr_id (mh_memory r)) d) else d)"

definition load_memory_for_prompt ::
  "'v chat_deps \<Rightarrow> bool \<Rightarrow> uuid \<Rightarrow> rstr \<Rightarrow> 'v prep \<Rightarrow> (rstr option \<times> 'v memory_row list) \<times> 'v prep" where
  "load_memory_for_prompt D memory_enabled nb query s =
     (if \<not> memory_enabled then ((None, []), s)
      else case on_memory (list_memories nb) s of
        (Inl _, s1) \<Rightarrow> ((None, []), s1)
      | (Inr memories, s1) \<Rightarrow>
          if memories = [] then ((None, []), s1)
          else
            let (embedding, cache) = get_query_embedding D query (pp_cache s1);
                s2 = s1\<lparr>pp_cache := cache\<rparr>;
                (working, s3) = (case embedding of
                  Some v \<Rightarrow>
                    (case on_memory (search_similar (cd_distance D) nb v 5) s2 of
                       (Inr hits, s') \<Rightarrow> (hits, s') | (Inl _, s') \<Rightarrow> ([], s'))
                | None \<Rightarrow> ([], s2));
                s4 = s3\<lparr>pp_memory := touch_working working (pp_memory s3)\<rparr>
            in ((format_memory_for_prompt (cd_unicode D) (select_core_memories memories) working, memories), s4))"

subsection \<open>Retrieval\<close>

record rag_context_params =
  gp_query :: rstr
  gp_max_chunks :: int
  gp_history :: "chat_message list"
  gp_provider :: rstr
  gp_model :: rstr
  gp_preference_boost :: "preference_boost option"
  gp_evidence_token_budget :: nat

definition params_for ::
  "'v chat_deps \<Rightarrow> rag_context_params \<Rightarrow> rstr \<Rightarrow> query_embedding_kind \<Rightarrow> 'v retrieval_params" where
  "params_for D g query kind =
     \<lparr>rp_services = cd_services D, rp_config = cd_config D, rp_query = query,
      rp_max_chunks = gp_max_chunks g, rp_has_embeddings = cd_has_embeddings D,
      rp_embedding_kind = kind, rp_provider = gp_provider g, rp_model = gp_model g,
      rp_preference_boost = gp_preference_boost g,
      rp_evidence_token_budget = gp_evidence_token_budget g, rp_unicode = cd_unicode D\<rparr>"

definition chat_turns :: "chat_message list \<Rightarrow> chat_turn list" where
  "chat_turns = map (\<lambda>m. \<lparr>ct_role = cm_role m, ct_content = cm_content m\<rparr>)"

text \<open>The question before the first search: its text, its role, whether it was rewritten, and why.\<close>

definition proactive_query ::
  "'v chat_deps \<Rightarrow> app_error reformulation_llm \<Rightarrow> rag_context_params \<Rightarrow> 'v prep \<Rightarrow>
   (rstr \<times> query_embedding_kind \<times> bool \<times> reason_set) \<times> 'v prep" where
  "proactive_query D llm g s =
     (let turns = chat_turns (gp_history g); query = gp_query g in
      if turns \<noteq> [] \<and> needs_proactive_reformulation (cd_unicode D) query then
        (let result = reformulate llm query turns;
             reasons = reason_from_iter (outcome_reason_codes (rr_outcome result))
         in if rr_was_reformulated result
            then ((rr_query result, Reformulated, True, reasons), notify (ChatThinking ReformulatingQuery) s)
            else ((query, Direct, False, reasons), s))
      else ((query, Direct, False, reason_from_iter [ReformulationSkipped]), s))"

definition with_cache :: "('v cache_state \<Rightarrow> 'a \<times> 'v cache_state) \<Rightarrow> 'v prep \<Rightarrow> 'a \<times> 'v prep" where
  "with_cache f s =
     (case f (Some (pp_cache s)) of
        (r, Some c) \<Rightarrow> (r, s\<lparr>pp_cache := c\<rparr>) | (r, None) \<Rightarrow> (r, s))"

definition retrieve_with_correction ::
  "'v chat_deps \<Rightarrow> app_error reformulation_llm \<times> app_error reformulation_llm \<Rightarrow> rag_context_params \<Rightarrow>
   'v prep \<Rightarrow> retrieved_context \<times> 'v prep" where
  "retrieve_with_correction D llm g s =
     (let ((query, kind, already, reasons), s1) = proactive_query D (fst llm) g s;
          C = \<lparr>cq_base = params_for D g query kind, cq_second_services = cd_second_services D,
               cq_reformulator = Some (snd llm), cq_history = chat_turns (gp_history g),
               cq_already_reformulated = already\<rparr>
      in case with_cache (retrieve_context_corrective C) s1 of
           (Inl _, s2) \<Rightarrow> (retrieval_failed, s2)
         | (Inr (corrective, out), s2) \<Rightarrow>
             let out' = out\<lparr>po_reasons := reason_extend (po_reasons out) reasons\<rparr>;
                 s3 = (if cr_was_corrected corrective then notify (ChatThinking ReformulatingQuery) s2 else s2);
                 s4 = (if low_quality_warning corrective then notify (ChatWarning LowRetrievalQuality) s3 else s3);
                 reformulated = (if cr_effective_query corrective \<noteq> gp_query g
                   then Some (cr_effective_query corrective) else None)
             in (retrieval_completed (cr_results corrective) out' reformulated, s4))"

definition retrieve_plain ::
  "'v chat_deps \<Rightarrow> rag_context_params \<Rightarrow> 'v prep \<Rightarrow> retrieved_context \<times> 'v prep" where
  "retrieve_plain D g s =
     (case with_cache (retrieve_context (params_for D g (gp_query g) Direct)) s of
        (Inl _, s1) \<Rightarrow> (retrieval_failed, s1)
      | (Inr (chunks, out), s1) \<Rightarrow>
          (retrieval_completed chunks out None,
           if \<not> is_sufficient (po_confidence out) \<and> chunks \<noteq> []
           then notify (ChatWarning LowRetrievalQuality) s1 else s1))"

definition retrieve_rag_context ::
  "'v chat_deps \<Rightarrow> rag_context_params \<Rightarrow> 'v prep \<Rightarrow> retrieved_context \<times> 'v prep" where
  "retrieve_rag_context D g s =
     (case cd_reformulator D of
        Some llm \<Rightarrow> retrieve_with_correction D llm g s
      | None \<Rightarrow> retrieve_plain D g s)"

subsection \<open>What is authorized, and when something is stored\<close>

text \<open>A request that is refused leaves no message behind.\<close>

lemma refused_request_stores_nothing:
  "validate_and_authorize D nb rq s = (Inl e, s') \<Longrightarrow> s' = s"
  by (auto simp: validate_and_authorize_def Let_def split: sum.splits)

lemma authorized_request:
  assumes "validate_and_authorize D nb rq s = (Inr v, s')"
  shows "s' = s\<lparr>pp_user_messages := pp_user_messages s @ [(vr_message v, vr_session_id v)]\<rparr>"
    and "validate_message (crq_message rq) = Inr (vr_message v)"
    and "validated_max_context_chunks (crq_max_context_chunks rq) = Inr (vr_max_context_chunks v)"
    and "cd_authorize D (SendChatMessage nb) = Inr (vr_permit v)"
    and "\<exists>p. cd_authorize D (SelectModel (lp_name (vr_provider v)) (vr_model_id v)) = Inr p"
    and "\<exists>sel. get_provider (cd_router D) (crq_provider rq) = Inr sel \<and> vr_provider v = sl_provider sel \<and>
      vr_model_for_stream v = or_else (sl_model_override sel) (crq_model rq) \<and>
      vr_model_id v = (case vr_model_for_stream v of Some m \<Rightarrow> m | None \<Rightarrow> lp_default_model (sl_provider sel))"
  using assms by (auto simp: validate_and_authorize_def Let_def split: sum.splits)

text \<open>
  A turn that was moved to another of the known providers names a model whose window is declared.
\<close>

lemma moved_turn_can_be_measured:
  assumes "validate_and_authorize D nb rq s = (Inr v, s')" "router_ok (cd_router D)"
    and "lp_name (vr_provider v) \<noteq> asked_for (cd_router D) (crq_provider rq)"
    and "lp_name (vr_provider v) \<in> set provider_priority"
  shows "budget_for_model (lp_name (vr_provider v)) (vr_model_id v) n \<noteq> None"
proof -
  from authorized_request(6) [OF assms(1)] obtain sel where sel:
    "get_provider (cd_router D) (crq_provider rq) = Inr sel" "vr_provider v = sl_provider sel"
    "vr_model_for_stream v = or_else (sl_model_override sel) (crq_model rq)"
    "vr_model_id v = (case vr_model_for_stream v of Some m \<Rightarrow> m | None \<Rightarrow> lp_default_model (sl_provider sel))"
    by blast
  from get_provider_Inr [OF assms(2) sel(1)] assms(3) sel(2)
  have "sl_model_override sel = Some (map_model_for_fallback (lp_name (vr_provider v)))"
    by (simp split: if_splits)
  then have "vr_model_id v = map_model_for_fallback (lp_name (vr_provider v))"
    by (simp add: sel(3,4) or_else_def)
  with fallback_model_has_window [OF assms(4)] show ?thesis
    by (simp add: budget_for_model_def)
qed

text \<open>The last conversation is continued for half an hour, and after that a new one begins.\<close>

lemma session_is_continued:
  "resolve_session_id (Inr (Some m)) now fresh =
     (if now < cm_created m * 1000 + 1800000 \<and> cm_session m \<noteq> None then the (cm_session m) else fresh)"
  by (auto simp: resolve_session_id_def should_reuse_session_def session_timeout_secs_def)

subsection \<open>Why nothing was found\<close>

lemma completed_failure_iff:
  "rx_failure (retrieval_completed chunks out q) = None \<longleftrightarrow> chunks \<noteq> []"
  by (simp add: retrieval_completed_def)

lemma contains_recorded: "po_reasons out = [] \<Longrightarrow>
    reason_contains (po_reasons (record_reason r out)) r' \<longleftrightarrow> r' = r"
  by (auto simp: record_reason_def reason_contains_iff canonical_reason_insert set_reason_insert)

text \<open>A notebook without sources is an answer; one that could not be searched is an error.\<close>

lemma empty_notebook_is_no_sources:
  assumes "cd_reformulator D = None" "sv_count_chunks (cd_services D) = Inr 0"
    and "sv_count_sources (cd_services D) = Inr 0"
  shows "rx_failure (fst (retrieve_rag_context D g s)) = Some NoSources"
  using assms
  by (simp add: retrieve_rag_context_def retrieve_plain_def with_cache_def retrieve_context_def
      params_for_def Let_def retrieval_completed_def classify_failure_def contains_recorded
      default_outcome_def)

lemma failing_database_is_infrastructure:
  assumes "cd_reformulator D = None" "sv_count_chunks (cd_services D) = Inl e"
  shows "rx_failure (fst (retrieve_rag_context D g s)) = Some Infrastructure"
  using assms
  by (simp add: retrieve_rag_context_def retrieve_plain_def with_cache_def retrieve_context_def
      params_for_def Let_def retrieval_failed_def)

subsection \<open>What the client is told on the way\<close>

text \<open>Before the first token only progress, warnings and notices are sent.\<close>

fun quiet_event :: "chat_event \<Rightarrow> bool" where
  "quiet_event (ChatThinking _) = True"
| "quiet_event (ChatWarning _) = True"
| "quiet_event (ChatSystem _) = True"
| "quiet_event _ = False"

definition told :: "'v prep \<Rightarrow> 'v prep \<Rightarrow> bool" where
  "told s s' \<longleftrightarrow> (\<exists>evs. list_all quiet_event evs \<and> pp_turn s' = fold send evs (pp_turn s))"

lemma told_same: "pp_turn s' = pp_turn s \<Longrightarrow> told s s'"
  by (auto simp: told_def intro: exI [of _ "[]"])

lemma told_trans [trans]:
  assumes "told s1 s2" "told s2 s3" shows "told s1 s3"
proof -
  from assms obtain xs ys where "list_all quiet_event xs" "pp_turn s2 = fold send xs (pp_turn s1)"
    "list_all quiet_event ys" "pp_turn s3 = fold send ys (pp_turn s2)" unfolding told_def by blast
  then show ?thesis unfolding told_def by (intro exI [of _ "xs @ ys"]) simp
qed

lemma told_notify: "told s s' \<Longrightarrow> quiet_event ev \<Longrightarrow> told s (notify ev s')"
  by (erule told_trans) (auto simp: told_def notify_def intro: exI [of _ "[ev]"])

lemma told_on_memory: "told s (snd (on_memory f s))"
  by (auto simp: on_memory_def intro!: told_same split: prod.splits)

lemma told_with_cache: "told s (snd (with_cache f s))"
  by (auto simp: with_cache_def intro!: told_same split: prod.splits option.splits)

lemma told_preference_boost: "told s (snd (build_preference_boost D nb enabled s))"
proof (cases enabled)
  case True
  obtain r s' where m: "on_memory (list_memories nb) s = (r, s')" by force
  with told_on_memory [of s "list_memories nb"] have "told s s'" by simp
  with True m show ?thesis by (cases r) (simp_all add: build_preference_boost_def Let_def)
qed (simp add: build_preference_boost_def Let_def told_same)

lemma told_load_memory: "told s (snd (load_memory_for_prompt D enabled nb q s))"
proof -
  obtain r s1 where m: "on_memory (list_memories nb) s = (r, s1)" by force
  have s1: "pp_turn s1 = pp_turn s" using m by (auto simp: on_memory_def split: prod.splits)
  have hits: "pp_turn (snd (on_memory f s2)) = pp_turn s2" for f and s2 :: "'a prep"
    by (auto simp: on_memory_def split: prod.splits)
  have "pp_turn (snd (load_memory_for_prompt D enabled nb q s)) = pp_turn s"
  proof (cases "enabled \<and> (\<exists>ms. r = Inr ms \<and> ms \<noteq> [])")
    case True
    then obtain ms where r: "enabled" "r = Inr ms" "ms \<noteq> []" by blast
    obtain e c where e: "get_query_embedding D q (pp_cache s1) = (e, c)" by force
    show ?thesis
    proof (cases e)
      case None
      then show ?thesis using m r e s1 by (simp add: load_memory_for_prompt_def Let_def)
    next
      case (Some v)
      obtain h s3 where h: "on_memory (search_similar (cd_distance D) nb v 5) (s1\<lparr>pp_cache := c\<rparr>) = (h, s3)"
        by force
      have "pp_turn s3 = pp_turn s"
        using hits [of "search_similar (cd_distance D) nb v 5" "s1\<lparr>pp_cache := c\<rparr>"] h s1 by simp
      then show ?thesis using m r e Some h by (cases h) (simp_all add: load_memory_for_prompt_def Let_def)
    qed
  qed (use m s1 in \<open>cases r; auto simp: load_memory_for_prompt_def Let_def\<close>)
  then show ?thesis by (rule told_same)
qed

lemma told_retrieve_plain: "told s (snd (retrieve_plain D g s))"
proof -
  obtain r s1 where r: "with_cache (retrieve_context (params_for D g (gp_query g) Direct)) s = (r, s1)" by force
  with told_with_cache [of s "retrieve_context (params_for D g (gp_query g) Direct)"] have "told s s1" by simp
  with r show ?thesis
    by (cases r) (auto simp: retrieve_plain_def intro!: told_notify)
qed

lemma told_proactive: "told s (snd (proactive_query D llm g s))"
  by (auto simp: proactive_query_def Let_def told_same intro!: told_notify)

lemma told_retrieve_corrected: "told s (snd (retrieve_with_correction D llm g s))"
proof -
  obtain q k a rs s1 where p: "proactive_query D (fst llm) g s = ((q, k, a, rs), s1)"
    by (metis prod.collapse)
  with told_proactive [of s D "fst llm" g] have 1: "told s s1" by simp
  define C where "C = \<lparr>cq_base = params_for D g q k, cq_second_services = cd_second_services D,
    cq_reformulator = Some (snd llm), cq_history = chat_turns (gp_history g), cq_already_reformulated = a\<rparr>"
  obtain r s2 where r: "with_cache (retrieve_context_corrective C) s1 = (r, s2)" by force
  with told_with_cache [of s1 "retrieve_context_corrective C"] have "told s1 s2" by simp
  with 1 have "told s s2" by (rule told_trans)
  with p r [unfolded C_def] show ?thesis
    by (cases r) (auto simp: retrieve_with_correction_def Let_def intro!: told_notify)
qed

lemma told_retrieve: "told s (snd (retrieve_rag_context D g s))"
  by (simp add: retrieve_rag_context_def told_retrieve_plain told_retrieve_corrected split: option.split)

end
