(* ===== verification/Turn.thy ===== *)
theory Turn
  imports Orchestration
begin

text \<open>
  \<open>api/chat/turn.rs\<close>, \<open>api/chat/fallback.rs\<close> and the handler of \<open>api/chat/mod.rs\<close>: one chat turn
  from the request to the last event. Everything decided before the first token is \<open>prepare\<close>, whose
  result says how the turn ends: with a provider, with a constant, or with an error. The lemmas
  show when the assembled request is admitted by the window it is sent to, that a turn that does
  not reach a provider is never charged and ends with one terminal event, and that an answer is
  only given for a notebook that has none.
\<close>

subsection \<open>How a turn ends\<close>

definition unmeasurable_request_message :: rstr where
  "unmeasurable_request_message =
     lit ''This model cannot be used for this notebook right now. No answer was generated.''"

definition retrieval_unavailable_message :: rstr where
  "retrieval_unavailable_message =
     lit ''Retrieval is unavailable for this notebook. No answer was generated.''"

record fallback_context =
  fc_account :: uuid
  fc_notebook :: uuid
  fc_session :: uuid
  fc_provider :: rstr
  fc_model :: rstr
  fc_answer :: rstr
  fc_trace :: retrieval_trace

record failure_context =
  ff_account :: uuid
  ff_notebook :: uuid
  ff_provider :: rstr
  ff_reason :: reason_code
  ff_trace :: retrieval_trace
  ff_error_type :: rstr
  ff_message :: rstr

text \<open>What a provider is called with, beside what the rest of the turn needs.\<close>

record stream_context =
  sx_params :: turn_params
  sx_permit :: permit
  sx_system_prompt :: rstr
  sx_messages :: "llm_message list"
  sx_session :: uuid
  sx_memory_enabled :: bool
  sx_dropped_messages :: "llm_message list"
  sx_conversation_turn :: nat
  sx_provider :: llm_provider

datatype turn_outcome =
  StreamTurn stream_context
| AnswerTurn fallback_context
| FailedTurn failure_context

definition answer_with_trace ::
  "uuid \<Rightarrow> uuid \<Rightarrow> validated_request \<Rightarrow> rstr \<Rightarrow> retrieval_trace \<Rightarrow> turn_outcome" where
  "answer_with_trace account nb v answer tr =
     AnswerTurn \<lparr>fc_account = account, fc_notebook = nb, fc_session = vr_session_id v,
       fc_provider = lp_name (vr_provider v), fc_model = vr_model_id v, fc_answer = answer, fc_trace = tr\<rparr>"

definition failed_with_trace ::
  "uuid \<Rightarrow> uuid \<Rightarrow> validated_request \<Rightarrow> reason_code \<Rightarrow> rstr \<Rightarrow> rstr \<Rightarrow> retrieval_trace \<Rightarrow> turn_outcome" where
  "failed_with_trace account nb v reason label message tr =
     FailedTurn \<lparr>ff_account = account, ff_notebook = nb, ff_provider = lp_name (vr_provider v),
       ff_reason = reason, ff_trace = tr, ff_error_type = label, ff_message = message\<rparr>"

definition failed_turn ::
  "(rstr \<Rightarrow> rstr) \<Rightarrow> uuid \<Rightarrow> uuid \<Rightarrow> validated_request \<Rightarrow> reason_code \<Rightarrow> rstr \<Rightarrow> rstr \<Rightarrow> turn_outcome" where
  "failed_turn sha account nb v reason label message =
     failed_with_trace account nb v reason label message (fallback_trace sha nb (vr_message v) reason)"

subsection \<open>Preparing\<close>

text \<open>
  \<open>DeadEnd\<close> carries an outcome reached before the provider. The stage times of a retrieval are
  telemetry and are given.
\<close>

definition retrieval_dead_end ::
  "(rstr \<Rightarrow> rstr) \<Rightarrow> uuid \<Rightarrow> uuid \<Rightarrow> validated_request \<Rightarrow> rstr \<Rightarrow> stage_times \<Rightarrow> retrieved_context \<Rightarrow>
   retrieval_failure \<Rightarrow> turn_outcome" where
  "retrieval_dead_end sha account nb v locale tm r failure =
     (let out = record_reason (failure_reason_code failure) (rx_outcome r);
          tr = build_retrieval_trace sha nb (vr_message v) (rx_reformulated_query r) (rx_chunks r) out tm no_tokens 0 0
      in case failure of
           Infrastructure \<Rightarrow>
             failed_with_trace account nb v reason_code.ProviderError (lit ''retrieval_unavailable'')
               retrieval_unavailable_message tr
         | NoSources \<Rightarrow> answer_with_trace account nb v (no_sources_text locale) tr
         | NoEvidence \<Rightarrow> answer_with_trace account nb v (insufficient_evidence_text locale) tr)"

definition refusal_outcome ::
  "(rstr \<Rightarrow> rstr) \<Rightarrow> uuid \<Rightarrow> uuid \<Rightarrow> validated_request \<Rightarrow> rstr \<Rightarrow> stage_times \<Rightarrow> retrieved_context \<Rightarrow>
   budget_refusal \<Rightarrow> turn_outcome" where
  "refusal_outcome sha account nb v locale tm r refusal =
     (let tr = build_budget_refusal_trace sha nb (vr_message v) (rx_reformulated_query r) (rx_outcome r) tm refusal
      in case refusal of
           MandatoryComponents _ _ _ _ \<Rightarrow>
             failed_with_trace account nb v PromptOverBudget (lit ''prompt_over_budget'')
               unmeasurable_request_message tr
         | NoEvidenceFits _ _ \<Rightarrow> answer_with_trace account nb v (insufficient_evidence_text locale) tr)"

text \<open>What is sent once the pass has accepted: the prompt, the messages and the documents beside it.\<close>

record assembled_request =
  as_system_prompt :: rstr
  as_messages :: "llm_message list"
  as_documents :: "rag_document list"
  as_native_tokens :: nat

definition kept_memory :: "prompt_inputs \<Rightarrow> budgeted_prompt \<Rightarrow> rstr option" where
  "kept_memory inp p = (if bp_memory_kept p then pi_memory inp else None)"

definition assemble_request ::
  "teaching_mode \<Rightarrow> rstr \<Rightarrow> prompt_inputs \<Rightarrow> budgeted_prompt \<Rightarrow> assembled_request" where
  "assemble_request mode locale inp p =
     (let evidence = render_evidence (pi_format inp) (bp_evidence p) in
      \<lparr>as_system_prompt = build_system_prompt (pi_format inp) (re_region evidence) (kept_memory inp p) mode locale,
       as_messages = build_messages (fh_messages (bp_history p)) (pi_query inp),
       as_documents = re_documents evidence,
       as_native_tokens = (case pi_format inp of Inline \<Rightarrow> 0
         | NativeDocuments \<Rightarrow> tc_selected (bp_tokens p))\<rparr>)"

definition request_admitted :: "prompt_inputs \<Rightarrow> assembled_request \<Rightarrow> bool" where
  "request_admitted inp a =
     admits_with_additional (pi_budget inp) (as_system_prompt a) (as_messages a) (as_native_tokens a)"

record turn_env =
  te_account :: uuid
  te_mistral :: bool
  te_timeout_secs :: nat
  te_parse :: "rstr \<Rightarrow> llm_stream_event option"
  te_times :: stage_times

definition turn_params_of ::
  "turn_env \<Rightarrow> 'v chat_deps \<Rightarrow> uuid \<Rightarrow> validated_request \<Rightarrow> teaching_mode \<Rightarrow> rstr \<Rightarrow> retrieved_context \<Rightarrow>
   pipeline_outcome \<Rightarrow> budgeted_prompt \<Rightarrow> assembled_request \<Rightarrow> turn_params" where
  "turn_params_of E D nb v mode locale r out p a =
     \<lparr>tp_unicode = cd_unicode D, tp_sha = cd_sha D, tp_parse = te_parse E,
      tp_provider = lp_name (vr_provider v), tp_default_model = lp_default_model (vr_provider v),
      tp_model = vr_model_for_stream v, tp_timeout_secs = te_timeout_secs E, tp_account = te_account E,
      tp_notebook = nb, tp_question = vr_message v, tp_reformulated = rx_reformulated_query r,
      tp_chunks = bp_evidence p, tp_documents = as_documents a, tp_outcome = out,
      tp_times = te_times E, tp_tokens = bp_tokens p, tp_teaching = mode, tp_locale = locale,
      tp_mistral = te_mistral E\<rparr>"

text \<open>The history that is budgeted: the summaries of older conversations, then the messages.\<close>

definition summaries_of :: "validated_request \<Rightarrow> 'v memory_row list \<Rightarrow> llm_message list" where
  "summaries_of v memories = (if vr_memory_enabled v then load_conversation_summaries memories else [])"

definition notices ::
  "turn_env \<Rightarrow> validated_request \<Rightarrow> budgeted_prompt \<Rightarrow> llm_message list \<Rightarrow> 'v prep \<Rightarrow> 'v prep" where
  "notices E v p dropped s =
     (let s1 = notify_history_truncation (fh_was_truncated (bp_history p))
            (length (fh_messages (bp_history p))) s
      in if min_dropped_for_summary < length dropped \<and> te_mistral E \<and> vr_memory_enabled v
         then notify (ChatSystem (HistorySummarized (length dropped))) s1 else s1)"

definition assemble_turn ::
  "turn_env \<Rightarrow> 'v chat_deps \<Rightarrow> uuid \<Rightarrow> validated_request \<Rightarrow> teaching_mode \<Rightarrow> rstr \<Rightarrow> chat_history \<Rightarrow>
   retrieved_context \<Rightarrow> nat \<Rightarrow> prompt_inputs \<Rightarrow> budgeted_prompt \<Rightarrow> 'v prep \<Rightarrow> turn_outcome \<times> 'v prep" where
  "assemble_turn E D nb v mode locale hist r summary_count inp p s =
     (let out = (rx_outcome r)\<lparr>po_reasons := reason_extend (po_reasons (rx_outcome r)) (bp_reasons p)\<rparr>;
          a = assemble_request mode locale inp p;
          dropped = drop summary_count (fh_dropped (bp_history p));
          s1 = notices E v p dropped s
      in if \<not> request_admitted inp a then
           (failed_with_trace (te_account E) nb v PromptOverBudget (lit ''prompt_over_budget'')
              unmeasurable_request_message
              (build_retrieval_trace (cd_sha D) nb (vr_message v) (rx_reformulated_query r) (bp_evidence p)
                 (record_reason PromptOverBudget out) (te_times E) (bp_tokens p) 0 0), s1)
         else
           (StreamTurn \<lparr>sx_params = turn_params_of E D nb v mode locale r out p a,
              sx_permit = vr_permit v, sx_system_prompt = as_system_prompt a, sx_messages = as_messages a,
              sx_session = vr_session_id v, sx_memory_enabled = vr_memory_enabled v,
              sx_dropped_messages = dropped,
              sx_conversation_turn = length (hs_all_messages hist) + 1, sx_provider = vr_provider v\<rparr>, s1))"

definition budget_turn ::
  "turn_env \<Rightarrow> 'v chat_deps \<Rightarrow> uuid \<Rightarrow> validated_request \<Rightarrow> teaching_mode \<Rightarrow> rstr \<Rightarrow> chat_history \<Rightarrow>
   'v memory_row list \<Rightarrow> prompt_budget \<Rightarrow> rstr \<Rightarrow> rstr option \<Rightarrow> retrieved_context \<Rightarrow> 'v prep \<Rightarrow>
   turn_outcome \<times> 'v prep" where
  "budget_turn E D nb v mode locale hist memories budget instructions memory r s =
     (let s1 = notify (ChatThinking Generating) s;
          summaries = summaries_of v memories;
          inp = \<lparr>pi_budget = budget, pi_format = for_provider (lp_native_citations (vr_provider v)),
            pi_instructions = instructions, pi_memory = memory, pi_query = vr_message v,
            pi_history = summaries @ hs_all_messages hist\<rparr>
      in case fit_prompt inp (rx_chunks r) of
           Inl refusal \<Rightarrow>
             (refusal_outcome (cd_sha D) (te_account E) nb v locale (te_times E) r refusal, s1)
         | Inr p \<Rightarrow> assemble_turn E D nb v mode locale hist r (length summaries) inp p s1)"

definition retrieve_turn ::
  "turn_env \<Rightarrow> 'v chat_deps \<Rightarrow> uuid \<Rightarrow> validated_request \<Rightarrow> teaching_mode \<Rightarrow> rstr \<Rightarrow> chat_history \<Rightarrow>
   'v memory_row list \<Rightarrow> prompt_budget \<Rightarrow> rstr \<Rightarrow> rstr option \<Rightarrow> 'v prep \<Rightarrow> turn_outcome \<times> 'v prep" where
  "retrieve_turn E D nb v mode locale hist memories budget instructions memory s =
     (let (boost, s1) = build_preference_boost D nb (vr_memory_enabled v) s;
          s2 = notify (ChatThinking RetrievingContext) s1;
          (r, s3) = retrieve_rag_context D
            \<lparr>gp_query = vr_message v, gp_max_chunks = vr_max_context_chunks v, gp_history = hs_raw hist,
             gp_provider = lp_name (vr_provider v), gp_model = vr_model_id v, gp_preference_boost = boost,
             gp_evidence_token_budget = evidence_allowance budget instructions memory (vr_message v)\<rparr> s2
      in case rx_failure r of
           Some failure \<Rightarrow> (retrieval_dead_end (cd_sha D) (te_account E) nb v locale (te_times E) r failure, s3)
         | None \<Rightarrow> budget_turn E D nb v mode locale hist memories budget instructions memory r s3)"

definition prepare ::
  "turn_env \<Rightarrow> 'v chat_deps \<Rightarrow> uuid \<Rightarrow> chat_request \<Rightarrow> 'v prep \<Rightarrow> (app_error + turn_outcome) \<times> 'v prep" where
  "prepare E D nb rq s =
     (case validate_and_authorize D nb rq s of
        (Inl e, s1) \<Rightarrow> (Inl e, s1)
      | (Inr v, s1) \<Rightarrow>
          (case load_chat_history D of
             Inl e \<Rightarrow> (Inl e, s1)
           | Inr hist \<Rightarrow>
               let locale = (case crq_locale rq of Some l \<Rightarrow> l | None \<Rightarrow> lit ''en'');
                   mode = crq_teaching rq;
                   ((memory, memories), s2) =
                     load_memory_for_prompt D (vr_memory_enabled v) nb (vr_message v) s1;
                   instructions = system_prompt_shell (for_provider (lp_native_citations (vr_provider v)))
                     None mode locale
               in case budget_for_model (lp_name (vr_provider v)) (vr_model_id v)
                      (lp_max_output_tokens (vr_provider v)) of
                    None \<Rightarrow>
                      (Inr (failed_turn (cd_sha D) (te_account E) nb v ContextWindowUnknown
                         (lit ''context_window_unknown'') unmeasurable_request_message), s2)
                  | Some budget \<Rightarrow>
                      (let (result, s3) =
                         retrieve_turn E D nb v mode locale hist memories budget instructions memory s2
                       in (Inr result, s3))))"

subsection \<open>Running a prepared turn\<close>

text \<open>
  A turn without a provider is a list of steps. Its task can be dropped between two of them, when
  the server shuts down or the client leaves; an emission itself does not wait, since the channel
  holds more events than such a turn sends.
\<close>

datatype turn_step =
  EmitStep chat_event
| FinishGeneration
| StoreAnswer rstr
| Report domain_event

fun turn_step_op :: "app_error + uuid \<Rightarrow> turn_step \<Rightarrow> turn \<Rightarrow> turn" where
  "turn_step_op save (EmitStep ev) t = send ev t"
| "turn_step_op save FinishGeneration t = t\<lparr>tn_out := finish_generation (tn_out t)\<rparr>"
| "turn_step_op save (StoreAnswer c) t =
     (case save of
        Inl _ \<Rightarrow> t
      | Inr _ \<Rightarrow> t\<lparr>tn_saved := tn_saved t @ [\<lparr>sm_content = c, sm_citations = []\<rparr>]\<rparr>)"
| "turn_step_op save (Report e) t = t\<lparr>tn_events := tn_events t @ [e]\<rparr>"

definition stream_grounded_fallback :: "fallback_context \<Rightarrow> turn_step list" where
  "stream_grounded_fallback c =
     [EmitStep (ChatChunk (fc_answer c)), FinishGeneration, EmitStep (ChatCitations []),
      EmitStep (ChatMetrics None), StoreAnswer (fc_answer c),
      EmitStep (ChatDone (fc_model c) (fc_provider c) None),
      Report (ChatCompleted (fc_account c) (fc_notebook c) (fc_provider c) 0 0)]"

definition stream_turn_failure :: "failure_context \<Rightarrow> turn_step list" where
  "stream_turn_failure c =
     [Report (ChatFailed (ff_account c) (ff_notebook c) (ff_provider c) (ff_error_type c)),
      EmitStep (ChatError (ff_message c))]"

datatype provider_free_race = Undisturbed | ShutdownAfter nat | ClientGoneAfter nat

definition run_provider_free ::
  "app_error + uuid \<Rightarrow> provider_free_race \<Rightarrow> turn_step list \<Rightarrow> turn \<Rightarrow> turn" where
  "run_provider_free save race steps t =
     (case race of
        Undisturbed \<Rightarrow> fold (turn_step_op save) steps t
      | ShutdownAfter n \<Rightarrow>
          send (ChatShutdown (lit ''Server shutting down'')) (fold (turn_step_op save) (take n steps) t)
      | ClientGoneAfter n \<Rightarrow> fold (turn_step_op save) (take n steps) t)"

definition run_prepared_turn ::
  "turn_services \<Rightarrow> nat \<Rightarrow> poll list \<Rightarrow> provider_free_race \<Rightarrow> turn_outcome \<Rightarrow> turn \<Rightarrow> turn" where
  "run_prepared_turn sv duration polls race result t =
     (case result of
        StreamTurn x \<Rightarrow> snd (run_llm_stream (sx_params x) sv duration polls
          (t\<lparr>tn_native := (if tp_documents (sx_params x) = [] then None else Some native_new)\<rparr>))
      | AnswerTurn c \<Rightarrow> run_provider_free (ts_save sv) race (stream_grounded_fallback c) t
      | FailedTurn c \<Rightarrow> run_provider_free (ts_save sv) race (stream_turn_failure c) t)"

text \<open>
  The handler: the response is an error before the stream starts, or the stream. A client that is
  gone when the turn is ready cancels it.
\<close>

definition shutdown_unavailable :: app_error where
  "shutdown_unavailable = ServiceUnavailable (lit ''Server is shutting down; retry this request'')"

definition send_message_handler ::
  "bool \<Rightarrow> turn_env \<Rightarrow> 'v chat_deps \<Rightarrow> turn_services \<Rightarrow> nat \<Rightarrow> poll list \<Rightarrow> provider_free_race \<Rightarrow> uuid \<Rightarrow>
   chat_request \<Rightarrow> 'v prep \<Rightarrow> (app_error + unit) \<times> 'v prep" where
  "send_message_handler admitted E D sv duration polls race nb rq s =
     (if \<not> admitted then (Inl shutdown_unavailable, s)
      else case prepare E D nb rq s of
        (Inl e, s1) \<Rightarrow> (Inl e, s1)
      | (Inr result, s1) \<Rightarrow>
          (Inr (), s1\<lparr>pp_turn := run_prepared_turn sv duration polls race result (pp_turn s1)\<rparr>))"


subsection \<open>The assembled request\<close>

lemma region_size:
  "rs \<noteq> [] \<Longrightarrow> str_len (format_context_for_llm rs) + 1 + length rs = region_price Inline rs"
proof -
  have "sum_list (map (\<lambda>(j, r). entry_tokens Inline (j + 1) r (evidence_body r)) (enumerate i xs)) =
      sum_list (map (\<lambda>(j, r). str_len (write_entry push_str (j + 1) r (evidence_body r) [])) (enumerate i xs)) +
      length xs" for i xs
    by (induction xs arbitrary: i) (simp_all add: entry_tokens_inline)
  then show "rs \<noteq> [] \<Longrightarrow> ?thesis"
    by (simp add: format_context_for_llm_def write_entries_eq region_price_def region_overhead_tokens_def
        estimate_tokens_len str_len_concat newline_def len_utf8_def split_def comp_def)
qed

lemma kept_memory_cost:
  assumes "fit_prompt inp ev = Inr p"
  shows "kept_memory inp p = None \<and> memory_cost inp (bp_memory_kept p) = 0 \<or>
    (\<exists>m. kept_memory inp p = Some m \<and> m \<noteq> [] \<and> memory_cost inp (bp_memory_kept p) = str_len m)"
proof (cases "bp_memory_kept p")
  case True
  from assms obtain a where a:
    "allocate (pi_budget inp) (pi_instructions inp) (pi_memory inp) (pi_query inp) = Inr a"
    "bp_memory_kept p = al_memory_kept a" by (rule fit_prompt_Inr)
  with True have "0 < (case pi_memory inp of Some m \<Rightarrow> estimate_tokens m | None \<Rightarrow> 0)"
    by (auto simp: allocate_def Let_def split: if_splits)
  then obtain m where m: "pi_memory inp = Some m" "0 < estimate_tokens m"
    by (cases "pi_memory inp") auto
  then have "m \<noteq> []" by (auto simp: estimate_tokens_len)
  with m True show ?thesis by (simp add: kept_memory_def memory_cost_def estimate_tokens_len)
qed (simp add: kept_memory_def memory_cost_def)

text \<open>The bytes of the request, and what the pass has paid for them.\<close>

lemma assembled_size:
  assumes "fit_prompt inp ev = Inr p" "bp_evidence p \<noteq> []"
    and "pi_instructions inp = system_prompt_shell (pi_format inp) None mode locale"
  shows "str_len (as_system_prompt (assemble_request mode locale inp p)) +
      messages_tokens (as_messages (assemble_request mode locale inp p)) +
      as_native_tokens (assemble_request mode locale inp p) +
      (case pi_format inp of Inline \<Rightarrow> length (bp_evidence p) | NativeDocuments \<Rightarrow> 1) =
    prompt_cost inp p + 1 + (if kept_memory inp p = None then 0 else 2)"
proof -
  from assms(1) obtain a where a: "tc_selected (bp_tokens p) = region_price (pi_format inp) (bp_evidence p)"
    by (rule fit_prompt_Inr)
  have messages: "messages_tokens (as_messages (assemble_request mode locale inp p)) =
      messages_tokens (fh_messages (bp_history p)) + message_tokens (pi_query inp)"
    by (simp add: assemble_request_def Let_def build_messages_def messages_tokens_def user_message_def)
  have memory: "block_size (case kept_memory inp p of None \<Rightarrow> [] | Some m \<Rightarrow> m) =
      memory_cost inp (bp_memory_kept p) + (if kept_memory inp p = None then 0 else 2)"
    using kept_memory_cost [OF assms(1)] by (auto simp: block_size_def)
  have region: "format_context_for_llm (bp_evidence p) \<noteq> []"
    using assms(2) by (simp add: format_context_for_llm_def region_close_def lit_def)
  show ?thesis
  proof (cases "pi_format inp")
    case Inline
    with region_size [OF assms(2)] region memory messages assms(3) show ?thesis
      by (simp add: assemble_request_def Let_def system_prompt_size prompt_cost_def mandatory_cost_def
          render_evidence_def block_size_def estimate_tokens_len)
  next
    case NativeDocuments
    with memory messages assms(3) a show ?thesis
      by (simp add: assemble_request_def Let_def system_prompt_size prompt_cost_def mandatory_cost_def
          render_evidence_def block_size_def estimate_tokens_len)
  qed
qed

text \<open>A request that fills its allowance to the byte: one native document, a memory block or none.\<close>

definition tight_shell :: rstr where
  "tight_shell = system_prompt_shell NativeDocuments None Flash (lit ''en'')"

definition tight_inputs :: "rstr option \<Rightarrow> prompt_inputs" where
  "tight_inputs memory =
     \<lparr>pi_budget = \<lparr>pb_window = str_len tight_shell + 2000, pb_reserve = 1941, pb_output = 0\<rparr>,
      pi_format = NativeDocuments, pi_instructions = tight_shell, pi_memory = memory,
      pi_query = lit ''why?'', pi_history = []\<rparr>"

lemma tight_fits:
  assumes "memory = None \<or> memory = Some (lit ''likes tea'')"
  shows "\<exists>p. fit_prompt (tight_inputs memory) [sample_context 1 None] = Inr p \<and>
    bp_evidence p = [sample_context 1 None] \<and> kept_memory (tight_inputs memory) p = memory \<and>
    fh_messages (bp_history p) = [] \<and> tc_selected (bp_tokens p) = 22"
  using assms
  by (auto simp: fit_prompt_def tight_inputs_def allocate_def Let_def estimate_tokens_len message_tokens_len
      sample_texts prompt_allowance_def memory_cap_def evidence_cap_def region_overhead_tokens_def
      fit_one_def sample_bodies sample_prices kept_memory_def min_def fit_history_def)

lemma tight_window: "str_len tight_shell + 2000 < usize_max"
proof -
  have size: "str_len s \<le> 4 * length s" for s
    using len_utf8_bounds(2) by (induction s) (auto intro: add_mono)
  have "length policy_native_en < 10000" "length flash_en < 10000" "length language_en < 10000"
    by (simp_all add: policy_native_en_def flash_en_def language_en_def lit_def newline_def)
  moreover have "length tight_shell \<le> length policy_native_en + length flash_en + length language_en + 6"
    by (simp add: tight_shell_def system_prompt_shell_def assemble_def push_block_def data_policy_def
        is_french_def template_for_def language_instruction_def starts_with_iff lit_def)
  ultimately have "length tight_shell \<le> 30006" by linarith
  moreover have "str_len tight_shell \<le> 4 * length tight_shell" by (rule size)
  ultimately have "str_len tight_shell \<le> 120024" by linarith
  then show ?thesis by (simp add: usize_max_def)
qed

text \<open>
  With a memory block that fills the window to the byte the pass accepts and the last check
  refuses: the two bytes before the block were never priced.
\<close>

lemma unpriced_separator_refuses:
  "\<exists>p. fit_prompt (tight_inputs (Some (lit ''likes tea''))) [sample_context 1 None] = Inr p \<and>
     \<not> request_admitted (tight_inputs (Some (lit ''likes tea'')))
       (assemble_request Flash (lit ''en'') (tight_inputs (Some (lit ''likes tea''))) p)"
proof -
  let ?i = "tight_inputs (Some (lit ''likes tea''))"
  obtain p where p: "fit_prompt ?i [sample_context 1 None] = Inr p" "bp_evidence p = [sample_context 1 None]"
    "kept_memory ?i p = Some (lit ''likes tea'')" "fh_messages (bp_history p) = []" "tc_selected (bp_tokens p) = 22"
    using tight_fits by blast
  have "str_len (as_system_prompt (assemble_request Flash (lit ''en'') ?i p)) = str_len tight_shell + 11"
    using p(3) by (simp add: assemble_request_def Let_def system_prompt_size tight_inputs_def tight_shell_def
        block_size_def sample_texts render_evidence_def) (simp add: lit_def)
  moreover have "messages_tokens (as_messages (assemble_request Flash (lit ''en'') ?i p)) = 12"
    using p(4) by (simp add: assemble_request_def Let_def build_messages_def messages_tokens_def user_message_def
        tight_inputs_def message_tokens_len sample_texts)
  moreover have "as_native_tokens (assemble_request Flash (lit ''en'') ?i p) = 22"
    using p(5) by (simp add: assemble_request_def Let_def tight_inputs_def)
  ultimately have "\<not> request_admitted ?i (assemble_request Flash (lit ''en'') ?i p)"
    using tight_window
    by (simp add: request_admitted_def admits_iff tight_inputs_def request_tokens_def estimate_tokens_len
        messages_tokens_def)
  with p(1) show ?thesis by blast
qed

text \<open>
  C10. The last check before the provider admits what the budgeting pass accepted, for the
  request as the turn assembles it: its system prompt with the kept memory and the rendered
  region, the kept history and the question, and the native documents beside them. It does when
  no memory block is kept, when three passages or more are rendered into the prompt, and when the
  pass left two tokens of the allowance unused. The blank line before a memory block is not
  priced, so a request may exceed the allowance, but by no more than these two.
\<close>

theorem assembled_request_is_admitted:
  assumes "fit_prompt inp ev = Inr p" "ev \<noteq> []"
    and "pi_instructions inp = system_prompt_shell (pi_format inp) None mode locale"
  shows "(kept_memory inp p = None \<or> pi_format inp = Inline \<and> 3 \<le> length (bp_evidence p) \<or>
      prompt_cost inp p + 2 \<le> prompt_allowance (pi_budget inp) \<longrightarrow>
        request_admitted inp (assemble_request mode locale inp p)) \<and>
    str_len (as_system_prompt (assemble_request mode locale inp p)) +
      messages_tokens (as_messages (assemble_request mode locale inp p)) +
      as_native_tokens (assemble_request mode locale inp p) \<le> prompt_allowance (pi_budget inp) + 2"
proof -
  let ?a = "assemble_request mode locale inp p"
  let ?size = "str_len (as_system_prompt ?a) + messages_tokens (as_messages ?a) + as_native_tokens ?a"
  have ne: "bp_evidence p \<noteq> []" using assms(1,2) by (auto elim: fit_prompt_Inr)
  then have n: "1 \<le> length (bp_evidence p)" by (cases "bp_evidence p") simp_all
  note sz = assembled_size [OF assms(1) ne assms(3)] and cost = fit_prompt_cost(1) [OF assms(1)]
  have over: "?size \<le> prompt_cost inp p + 2" using sz n by (cases "pi_format inp") (auto split: if_splits)
  have within: "kept_memory inp p = None \<or> pi_format inp = Inline \<and> 3 \<le> length (bp_evidence p) \<Longrightarrow>
      ?size \<le> prompt_cost inp p"
    using sz n by (cases "pi_format inp") (auto split: if_splits)
  have admitted: "request_admitted inp ?a" if "0 < c" "c \<le> prompt_allowance (pi_budget inp)" "?size \<le> c" for c
    unfolding request_admitted_def using that allowance_admits [OF _ that(1,2)]
    by (cases "pb_window (pi_budget inp) < usize_max") (blast, simp add: admits_with_additional_def saturating_add_def)
  have "0 < prompt_cost inp p" using mandatory_cost_pos by (simp add: prompt_cost_def)
  then show ?thesis
    using admitted [of "prompt_cost inp p"] admitted [of "prompt_cost inp p + 2"] within over cost by auto
qed

theorem assembled_request_is_admitted_witness:
  "\<exists>p. fit_prompt (tight_inputs None) [sample_context 1 None] = Inr p \<and>
     request_admitted (tight_inputs None) (assemble_request Flash (lit ''en'') (tight_inputs None) p)"
proof -
  obtain p where p: "fit_prompt (tight_inputs None) [sample_context 1 None] = Inr p"
    "bp_evidence p = [sample_context 1 None]" "kept_memory (tight_inputs None) p = None"
    using tight_fits by blast
  have "pi_instructions (tight_inputs None) =
      system_prompt_shell (pi_format (tight_inputs None)) None Flash (lit ''en'')"
    by (simp add: tight_inputs_def tight_shell_def)
  from assembled_request_is_admitted [OF p(1) _ this] p show ?thesis by simp
qed

subsection \<open>From the request to the last event\<close>

lemma loop_ok_quiet:
  assumes "loop_ok t" "quiet_event ev" shows "loop_ok (send ev t)"
proof -
  from assms(2) have q: "\<not> is_chunk_event ev" "\<not> is_terminal ev" by (cases ev; simp)+
  then show ?thesis
    using assms(1) turn_ok_send [of t ev] sends_not_terminal(1) [of ev t]
    by (simp add: loop_ok_def send_def Let_def emit_facts)
qed

lemma loop_ok_told:
  assumes "told s s'" "loop_ok (pp_turn s)" shows "loop_ok (pp_turn s')"
proof -
  have "list_all quiet_event evs \<Longrightarrow> loop_ok t \<Longrightarrow> loop_ok (fold send evs t)" for evs t
    by (induction evs arbitrary: t) (simp_all add: loop_ok_quiet)
  with assms show ?thesis by (auto simp: told_def)
qed

lemma loop_ok_start: "loop_ok (turn_start native client stream_new)"
  using stream_inv_new
  by (simp add: loop_ok_def turn_ok_def turn_start_def stream_new_def sent_text_def)

lemma told_charge: "told s s' \<Longrightarrow> tn_charged (pp_turn s') = tn_charged (pp_turn s)"
proof -
  have "tn_charged (fold send evs t) = tn_charged t" for evs t
    by (induction evs arbitrary: t) simp_all
  then show "told s s' \<Longrightarrow> ?thesis" by (auto simp: told_def)
qed

lemma told_text: "told s s' \<Longrightarrow> sent_text (tn_out (pp_turn s')) = sent_text (tn_out (pp_turn s))"
proof -
  have "sent_text (tn_out (send ev t)) = sent_text (tn_out t)" if "quiet_event ev" for ev t
  proof -
    from that have "\<not> is_chunk_event ev" by (cases ev; simp)
    then show ?thesis using sent_text_acts [of t] by (simp add: send_def Let_def emit_facts)
  qed
  then have "list_all quiet_event evs \<Longrightarrow> sent_text (tn_out (fold send evs t)) = sent_text (tn_out t)" for evs t
    by (induction evs arbitrary: t) simp_all
  then show "told s s' \<Longrightarrow> ?thesis" by (auto simp: told_def)
qed

lemma told_notices: "told s (notices E v p dropped s)"
  by (auto simp: notices_def Let_def notify_history_truncation_def told_same intro!: told_notify)

lemma told_budget_turn:
  "told s (snd (budget_turn E D nb v mode locale hist memories b ins mem r s))"
  by (auto simp: budget_turn_def assemble_turn_def Let_def told_same intro!: told_notify
      told_trans [OF _ told_notices] split: sum.splits)

lemma told_retrieve_turn:
  "told s (snd (retrieve_turn E D nb v mode locale hist memories b ins mem s))"
proof -
  obtain boost s1 where 1: "build_preference_boost D nb (vr_memory_enabled v) s = (boost, s1)" by force
  define g where "g = \<lparr>gp_query = vr_message v, gp_max_chunks = vr_max_context_chunks v,
    gp_history = hs_raw hist, gp_provider = lp_name (vr_provider v), gp_model = vr_model_id v,
    gp_preference_boost = boost, gp_evidence_token_budget = evidence_allowance b ins mem (vr_message v)\<rparr>"
  obtain r s3 where 3: "retrieve_rag_context D g (notify (ChatThinking RetrievingContext) s1) = (r, s3)" by force
  have "told s s1" using told_preference_boost [of s D nb "vr_memory_enabled v"] 1 by simp
  then have "told s (notify (ChatThinking RetrievingContext) s1)" by (rule told_notify) simp
  also have "told (notify (ChatThinking RetrievingContext) s1) s3"
    using told_retrieve [of "notify (ChatThinking RetrievingContext) s1" D g] 3 by simp
  finally have s3: "told s s3" .
  with told_budget_turn [of s3] 1 3 [unfolded g_def] show ?thesis
    by (cases "rx_failure r") (auto simp: retrieve_turn_def Let_def elim: told_trans)
qed

lemma told_retrieve_turnD:
  "retrieve_turn E D nb v mode locale hist memories b ins mem s2 = (x, s') \<Longrightarrow> told s s2 \<Longrightarrow> told s s'"
  using told_trans told_retrieve_turn by (metis snd_conv)

lemma told_prepare:
  assumes "prepare E D nb rq s = (res, s')" shows "told s s'"
proof -
  obtain a s1 where 1: "validate_and_authorize D nb rq s = (a, s1)" by force
  have s1: "told s s1"
  proof (cases a)
    case (Inl e)
    with 1 refused_request_stores_nothing have "s1 = s" by blast
    then show ?thesis by (simp add: told_same)
  next
    case (Inr v)
    from authorized_request(1) [OF 1 [unfolded Inr]] show ?thesis by (simp add: told_same)
  qed
  show ?thesis
  proof (cases "\<exists>v h. a = Inr v \<and> load_chat_history D = Inr h")
    case True
    then obtain v h where v: "a = Inr v" "load_chat_history D = Inr h" by blast
    obtain m ms s2 where 2: "load_memory_for_prompt D (vr_memory_enabled v) nb (vr_message v) s1 = ((m, ms), s2)"
      by (metis prod.collapse)
    have "told s s2" using told_trans [OF s1 told_load_memory] 2 by (metis snd_conv)
    with assms 1 v 2 show ?thesis
      by (auto simp: prepare_def Let_def split: option.splits prod.splits elim!: told_retrieve_turnD)
  qed (use assms 1 s1 in \<open>cases a; cases "load_chat_history D"; auto simp: prepare_def\<close>)
qed


subsection \<open>Turns without a provider\<close>

text \<open>Once a terminal event is out, every later step leaves the stream as it is.\<close>

definition one_ending :: "turn \<Rightarrow> bool" where
  "one_ending t \<longleftrightarrow> stream_inv (tn_out t) \<and> (cs_terminated (tn_out t) \<longrightarrow> terminal_sent t)"

lemma emit_after_end: "cs_terminated s \<Longrightarrow> snd (emit ev s) = s"
  by (simp add: emit_def emit_admit_def)

lemma terminal_sent_acts: "terminal_sent t \<Longrightarrow> terminal_sent (client_acts t)"
  using client_acts_inv(1) [of t] by (auto simp: terminal_sent_def)

lemma one_ending_acts: "one_ending t \<Longrightarrow> one_ending (client_acts t)"
  using client_acts_inv(2) [of t] terminal_sent_acts [of t] by (auto simp: one_ending_def)

lemma one_ending_send:
  assumes "one_ending t"
  shows "one_ending (send ev t)" and "is_terminal ev \<Longrightarrow> terminal_sent (send ev t)"
    and "terminal_sent t \<Longrightarrow> terminal_sent (send ev t)"
proof -
  have t: "stream_inv (tn_out (client_acts t))" "cs_terminated (tn_out t) \<Longrightarrow> terminal_sent (client_acts t)"
    using one_ending_acts [OF assms] by (simp_all add: one_ending_def)
  have same: "cs_terminated (tn_out t) \<Longrightarrow> send ev t = client_acts t"
    by (simp add: send_def Let_def emit_after_end)
  have inv: "stream_inv (tn_out (send ev t))" using t(1) by (simp add: send_def Let_def emit_facts)
  show ending: "is_terminal ev \<Longrightarrow> terminal_sent (send ev t)"
    using terminal_sent_send [of ev t] same t(2) by (cases "cs_terminated (tn_out t)") auto
  show "terminal_sent t \<Longrightarrow> terminal_sent (send ev t)"
    using same t(2) by (simp add: terminal_sent_def)
  show "one_ending (send ev t)"
  proof (cases "is_terminal ev \<or> cs_terminated (tn_out t)")
    case True
    then have "terminal_sent (send ev t)" using ending same t(2) by auto
    with inv show ?thesis by (simp add: one_ending_def)
  next
    case False
    with sends_not_terminal(1) [of ev t] inv show ?thesis by (simp add: one_ending_def)
  qed
qed

lemma one_ending_step:
  assumes "one_ending t"
  shows "one_ending (turn_step_op save st t)"
    and "terminal_sent t \<Longrightarrow> terminal_sent (turn_step_op save st t)"
    and "st = EmitStep ev \<Longrightarrow> is_terminal ev \<Longrightarrow> terminal_sent (turn_step_op save st t)"
proof -
  show "one_ending (turn_step_op save st t)"
  proof (cases st)
    case FinishGeneration
    with assms show ?thesis
      using stream_inv_op [of "tn_out t" Finish]
      by (auto simp: one_ending_def terminal_sent_def finish_generation_def)
  qed (use assms one_ending_send in \<open>auto simp: one_ending_def terminal_sent_def split: sum.split\<close>)
  show "terminal_sent t \<Longrightarrow> terminal_sent (turn_step_op save st t)"
    using one_ending_send(3) [OF assms]
    by (cases st) (auto simp: terminal_sent_def finish_generation_def split: sum.split)
  show "st = EmitStep ev \<Longrightarrow> is_terminal ev \<Longrightarrow> terminal_sent (turn_step_op save st t)"
    using one_ending_send(2) [OF assms] by simp
qed

lemma one_ending_steps:
  assumes "one_ending t"
  shows "one_ending (fold (turn_step_op save) sts t)"
    and "terminal_sent t \<or> (\<exists>ev. EmitStep ev \<in> set sts \<and> is_terminal ev) \<Longrightarrow>
      terminal_sent (fold (turn_step_op save) sts t)"
  using assms
proof (induction sts arbitrary: t)
  case (Cons st sts)
  { case 1 then show ?case using Cons.IH(1) one_ending_step(1) by simp }
  { case 2
    have next_ok: "one_ending (turn_step_op save st t)" using one_ending_step(1) 2(2) .
    show ?case
    proof (cases "terminal_sent (turn_step_op save st t)")
      case True
      with Cons.IH(2) [OF _ next_ok] show ?thesis by simp
    next
      case False
      with 2 one_ending_step(2,3) [OF 2(2)] have "\<exists>ev. EmitStep ev \<in> set sts \<and> is_terminal ev"
        by auto
      with Cons.IH(2) [OF _ next_ok] show ?thesis by simp
    qed }
qed simp_all

text \<open>What the steps leave of the account: no charge, and what they store, say and report.\<close>

fun step_text :: "turn_step \<Rightarrow> rstr list" where
  "step_text (EmitStep (ChatChunk c)) = [c]"
| "step_text _ = []"

fun step_saves :: "turn_step \<Rightarrow> rstr list" where
  "step_saves (StoreAnswer c) = [c]"
| "step_saves _ = []"

fun step_reports :: "turn_step \<Rightarrow> domain_event list" where
  "step_reports (Report e) = [e]"
| "step_reports _ = []"

lemma sent_text_send: "sent_text (tn_out (send ev t)) \<in> {sent_text (tn_out t), sent_text (tn_out t) @ chunk_text ev}"
  by (auto simp: send_def Let_def emit_def emit_admit_def emit_send_def sent_text_def)

lemma step_account:
  "tn_charged (turn_step_op save st t) = tn_charged t"
  "tn_events (turn_step_op save st t) = tn_events t @ step_reports st"
  "map sm_content (tn_saved (turn_step_op save st t)) \<in>
     {map sm_content (tn_saved t), map sm_content (tn_saved t) @ step_saves st}"
  "sent_text (tn_out (turn_step_op save st t)) \<in>
     {sent_text (tn_out t), sent_text (tn_out t) @ concat (step_text st)}"
proof -
  show "sent_text (tn_out (turn_step_op save st t)) \<in>
     {sent_text (tn_out t), sent_text (tn_out t) @ concat (step_text st)}"
  proof (cases st)
    case (EmitStep ev)
    then show ?thesis using sent_text_send [of ev t] by (cases ev) auto
  qed (auto simp: sent_text_def finish_generation_def split: sum.split)
qed (cases st; auto split: sum.split)+

lemma steps_account:
  "tn_charged (fold (turn_step_op save) sts t) = tn_charged t"
  "tn_events (fold (turn_step_op save) sts t) = tn_events t @ concat (map step_reports sts)"
  "set (map sm_content (tn_saved (fold (turn_step_op save) sts t))) \<subseteq>
     set (map sm_content (tn_saved t)) \<union> set (concat (map step_saves sts))"
  "length (tn_saved (fold (turn_step_op save) sts t)) \<le> length (tn_saved t) + length (concat (map step_saves sts))"
  "concat (map step_text sts) = [] \<Longrightarrow>
     sent_text (tn_out (fold (turn_step_op save) sts t)) = sent_text (tn_out t)"
proof (induction sts arbitrary: t)
  case (Cons st sts)
  note a = step_account [of save st]
  { case 1 then show ?case using Cons.IH(1) a(1) by simp }
  { case 2 then show ?case using Cons.IH(2) a(2) by simp }
  { case 3
    have "set (map sm_content (tn_saved (turn_step_op save st t))) \<subseteq>
        set (map sm_content (tn_saved t)) \<union> set (step_saves st)"
      using a(3) [of t] by (metis Un_upper1 insert_iff order_refl set_append singletonD)
    moreover note Cons.IH(3) [of "turn_step_op save st t"]
    ultimately show ?case unfolding fold_simps list.map concat.simps set_append by blast }
  { case 4
    have "length (map sm_content (tn_saved (turn_step_op save st t))) \<le>
        length (map sm_content (tn_saved t) @ step_saves st)"
      using a(3) [of t] by (metis insert_iff le_add1 length_append order_refl singletonD)
    then show ?case using Cons.IH(4) [of "turn_step_op save st t"] by simp }
  { case 5 then show ?case using Cons.IH(5) a(4) [of t] by simp }
qed simp_all

lemma steps_saved:
  "tn_saved (fold (turn_step_op save) sts t) = tn_saved t @
     (case save of Inl _ \<Rightarrow> [] | Inr _ \<Rightarrow>
        map (\<lambda>c. \<lparr>sm_content = c, sm_citations = []\<rparr>) (concat (map step_saves sts)))"
proof (induction sts arbitrary: t)
  case (Cons st sts)
  then show ?case by (cases st; cases save) simp_all
qed (simp split: sum.split)

text \<open>
  What the steps send: every event, when no event is out of its phase, the first terminal one is
  the last, and the client has not left.
\<close>

fun step_sends :: "turn_step \<Rightarrow> chat_event list" where
  "step_sends (EmitStep ev) = [ev]"
| "step_sends _ = []"

fun in_phase :: "bool \<Rightarrow> turn_step list \<Rightarrow> bool" where
  "in_phase finished [] \<longleftrightarrow> True"
| "in_phase finished (EmitStep ev # sts) \<longleftrightarrow>
     (is_citation_event ev \<longrightarrow> finished) \<and> (is_chunk_event ev \<longrightarrow> \<not> finished) \<and>
     (if is_terminal ev then concat (map step_sends sts) = [] else in_phase finished sts)"
| "in_phase finished (FinishGeneration # sts) \<longleftrightarrow> in_phase True sts"
| "in_phase finished (_ # sts) \<longleftrightarrow> in_phase finished sts"

lemma send_closed: "cs_closed (tn_out t) \<Longrightarrow> cs_closed (tn_out (send ev t))"
  using client_acts_inv(1) [of t]
  by (auto simp: send_def Let_def emit_def emit_admit_def emit_send_def)

lemma steps_closed: "cs_closed (tn_out t) \<Longrightarrow> cs_closed (tn_out (fold (turn_step_op save) sts t))"
proof (induction sts arbitrary: t)
  case (Cons st sts)
  have "cs_closed (tn_out (turn_step_op save st t))"
    using Cons.prems send_closed by (cases st) (auto simp: finish_generation_def split: sum.split)
  with Cons.IH show ?case by simp
qed simp

lemma send_delivers:
  assumes "\<not> cs_closed (tn_out (send ev t))" "\<not> phase_drops ev (tn_out t)" "\<not> cs_terminated (tn_out t)"
  shows "cs_sent (tn_out (send ev t)) = cs_sent (tn_out t) @ [ev] \<and>
    cs_terminated (tn_out (send ev t)) = is_terminal ev \<and>
    cs_generation_finished (tn_out (send ev t)) = cs_generation_finished (tn_out t)"
  using assms
  by (auto simp: send_def Let_def emit_def emit_admit_def emit_send_def phase_drops_def split: if_splits)

lemma steps_without_events:
  "concat (map step_sends sts) = [] \<Longrightarrow> cs_sent (tn_out (fold (turn_step_op save) sts t)) = cs_sent (tn_out t)"
proof (induction sts arbitrary: t)
  case (Cons st sts)
  then show ?case by (cases st) (auto simp: finish_generation_def split: sum.split)
qed simp

lemma steps_sent:
  "in_phase (cs_generation_finished (tn_out t)) sts \<Longrightarrow> \<not> cs_terminated (tn_out t) \<Longrightarrow>
   \<not> cs_closed (tn_out (fold (turn_step_op save) sts t)) \<Longrightarrow>
   cs_sent (tn_out (fold (turn_step_op save) sts t)) = cs_sent (tn_out t) @ concat (map step_sends sts)"
proof (induction sts arbitrary: t)
  case (Cons st sts)
  show ?case
  proof (cases st)
    case (EmitStep ev)
    have open_now: "\<not> cs_closed (tn_out (send ev t))"
      using steps_closed [of "send ev t" save sts] Cons.prems(3) EmitStep by auto
    have sent: "cs_sent (tn_out (send ev t)) = cs_sent (tn_out t) @ [ev]"
      "cs_terminated (tn_out (send ev t)) = is_terminal ev"
      "cs_generation_finished (tn_out (send ev t)) = cs_generation_finished (tn_out t)"
      using send_delivers [OF open_now] Cons.prems(1,2) EmitStep by (simp_all add: phase_drops_def)
    show ?thesis
    proof (cases "is_terminal ev")
      case True
      then show ?thesis using Cons.prems(1) sent(1) EmitStep by (simp add: steps_without_events)
    next
      case False
      then show ?thesis using Cons.IH [of "send ev t"] Cons.prems sent EmitStep by simp
    qed
  next
    case FinishGeneration
    then show ?thesis
      using Cons.IH [of "t\<lparr>tn_out := finish_generation (tn_out t)\<rparr>"] Cons.prems by (simp add: finish_generation_def)
  next
    case (StoreAnswer c)
    then show ?thesis using Cons by (simp split: sum.splits)
  next
    case (Report e)
    then show ?thesis using Cons by simp
  qed
qed simp

lemma no_text_after_first:
  assumes "concat (map step_text sts) = []"
  shows "sent_text (tn_out (fold (turn_step_op save) (take n (st # sts)) t)) \<in>
    {sent_text (tn_out t), sent_text (tn_out t) @ concat (step_text st)}"
proof (cases n)
  case (Suc m)
  have "concat (map step_text (take m sts)) = []"
    using assms by (metis append_is_Nil_conv append_take_drop_id concat_append map_append)
  from steps_account(5) [OF this, of save] step_account(4) [of save st t] Suc show ?thesis by simp
qed simp

lemma run_provider_free_cases:
  obtains n where
    "run_provider_free save race sts t = fold (turn_step_op save) (take n sts) t \<or>
     run_provider_free save race sts t =
       send (ChatShutdown (lit ''Server shutting down'')) (fold (turn_step_op save) (take n sts) t)"
proof (cases race)
  case Undisturbed
  then show ?thesis using that [of "length sts"] by (simp add: run_provider_free_def)
next
  case (ShutdownAfter n)
  then show ?thesis using that [of n] by (simp add: run_provider_free_def)
next
  case (ClientGoneAfter n)
  then show ?thesis using that [of n] by (simp add: run_provider_free_def)
qed

lemma concat_take: "length (concat (map f (take n xs))) \<le> length (concat (map f xs))"
  by (metis append_take_drop_id concat_append le_add1 length_append map_append)

lemma set_concat_take: "set (concat (map f (take n xs))) \<subseteq> set (concat (map f xs))"
  by (auto dest: in_set_takeD)

lemma run_provider_free_account:
  assumes "one_ending t" "run_provider_free save race sts t = t'"
  shows "one_ending t'" and "tn_charged t' = tn_charged t"
    and "length (tn_events t') \<le> length (tn_events t) + length (concat (map step_reports sts))"
    and "set (map sm_content (tn_saved t')) \<subseteq> set (map sm_content (tn_saved t)) \<union> set (concat (map step_saves sts))"
    and "length (tn_saved t') \<le> length (tn_saved t) + length (concat (map step_saves sts))"
proof -
  obtain n where n: "t' = fold (turn_step_op save) (take n sts) t \<or>
      t' = send (ChatShutdown (lit ''Server shutting down'')) (fold (turn_step_op save) (take n sts) t)"
    using run_provider_free_cases assms(2) by metis
  have fin: "one_ending (fold (turn_step_op save) (take n sts) t)"
    using one_ending_steps(1) [OF assms(1)] .
  show "one_ending t'" using n fin one_ending_send(1) by blast
  note a = steps_account [where save = save and sts = "take n sts" and t = t]
  show "tn_charged t' = tn_charged t" using n a(1) by auto
  show "length (tn_events t') \<le> length (tn_events t) + length (concat (map step_reports sts))"
    using n a(2) concat_take [of step_reports n sts] by auto
  show "length (tn_saved t') \<le> length (tn_saved t) + length (concat (map step_saves sts))"
    using n a(4) concat_take [of step_saves n sts] by auto
  have "set (map sm_content (tn_saved t')) \<subseteq>
      set (map sm_content (tn_saved t)) \<union> set (concat (map step_saves (take n sts)))"
  proof -
    have "tn_saved t' = tn_saved (fold (turn_step_op save) (take n sts) t)" using n by auto
    with a(3) show ?thesis by simp
  qed
  with set_concat_take [of step_saves n sts]
  show "set (map sm_content (tn_saved t')) \<subseteq> set (map sm_content (tn_saved t)) \<union> set (concat (map step_saves sts))"
    by blast
qed

lemma run_provider_free_ends:
  assumes "one_ending t" "EmitStep ev \<in> set sts" "is_terminal ev"
  shows "terminal_sent (run_provider_free save race sts t) \<or> (\<exists>n. race = ClientGoneAfter n)"
proof (cases race)
  case Undisturbed
  then show ?thesis using one_ending_steps(2) [OF assms(1)] assms(2,3) by (auto simp: run_provider_free_def)
next
  case (ShutdownAfter n)
  have "one_ending (fold (turn_step_op save) (take n sts) t)" using one_ending_steps(1) [OF assms(1)] .
  from one_ending_send(2) [OF this, of "ChatShutdown (lit ''Server shutting down'')"] ShutdownAfter
  show ?thesis by (simp add: run_provider_free_def)
qed simp

lemma run_provider_free_text:
  assumes "concat (map step_text sts) = []"
  shows "sent_text (tn_out (run_provider_free save race (st # sts) t)) \<in>
    {sent_text (tn_out t), sent_text (tn_out t) @ concat (step_text st)}"
proof -
  have quiet: "sent_text (tn_out (send (ChatShutdown m) u)) = sent_text (tn_out u)" for m u
    using sent_text_send [of "ChatShutdown m" u] by simp
  obtain n where "run_provider_free save race (st # sts) t = fold (turn_step_op save) (take n (st # sts)) t \<or>
      run_provider_free save race (st # sts) t =
        send (ChatShutdown (lit ''Server shutting down'')) (fold (turn_step_op save) (take n (st # sts)) t)"
    using run_provider_free_cases by metis
  with no_text_after_first [OF assms, of save n st t] quiet show ?thesis by auto
qed

text \<open>What is answered without a provider is one of the documented sentences.\<close>

lemma dead_end_answers:
  "retrieval_dead_end sha acc nb v lc tm r f = AnswerTurn c \<Longrightarrow> fc_answer c \<in> set fallback_texts"
  "refusal_outcome sha acc nb v lc tm r refusal = AnswerTurn c \<Longrightarrow> fc_answer c \<in> set fallback_texts"
  using fallback_is_listed [of lc]
  by (auto simp: retrieval_dead_end_def refusal_outcome_def failed_with_trace_def answer_with_trace_def Let_def
      split: retrieval_failure.splits budget_refusal.splits)

lemma budget_turn_answers:
  "budget_turn E D nb v mode locale hist memories b ins mem r s = (AnswerTurn c, s') \<Longrightarrow>
     fc_answer c \<in> set fallback_texts"
  by (auto simp: budget_turn_def assemble_turn_def failed_with_trace_def Let_def
      split: sum.splits if_splits dest: dead_end_answers)

lemma retrieve_turn_answers:
  "retrieve_turn E D nb v mode locale hist memories b ins mem s = (AnswerTurn c, s') \<Longrightarrow>
     fc_answer c \<in> set fallback_texts"
  by (auto simp: retrieve_turn_def Let_def split: option.splits prod.splits
      dest: dead_end_answers budget_turn_answers)

lemma prepared_answer_is_documented:
  "prepare E D nb rq s = (Inr (AnswerTurn c), s') \<Longrightarrow> fc_answer c \<in> set fallback_texts"
  by (auto simp: prepare_def Let_def failed_turn_def failed_with_trace_def
      split: sum.splits option.splits prod.splits dest: retrieve_turn_answers)


text \<open>What the preparation leaves untold, and the three ways a prepared turn runs.\<close>

lemma prepared_turn:
  assumes "prepare E D nb rq s = (Inr result, s1)" "pp_turn s = turn_start False client stream_new"
  shows "loop_ok (pp_turn s1)" and "one_ending (pp_turn s1)" and "tn_charged (pp_turn s1) = 0"
    and "sent_text (tn_out (pp_turn s1)) = []"
proof -
  have told: "told s s1" using told_prepare [OF assms(1)] .
  show ok: "loop_ok (pp_turn s1)" using loop_ok_told [OF told] assms(2) by (simp add: loop_ok_start)
  show "one_ending (pp_turn s1)" using ok by (simp add: one_ending_def loop_ok_def turn_ok_def)
  show "tn_charged (pp_turn s1) = 0" using told_charge [OF told] assms(2) by (simp add: turn_start_def)
  show "sent_text (tn_out (pp_turn s1)) = []"
    using told_text [OF told] assms(2) by (simp add: turn_start_def stream_new_def sent_text_def)
qed

lemma streamed_turn_account:
  assumes "loop_ok u0" "run_prepared_turn sv duration polls race (StreamTurn x) u0 = t"
  shows "stream_inv (tn_out t) \<and> length (tn_events t) \<le> 1 \<and> length (tn_saved t) \<le> 1 \<and>
    tn_charged t \<le> 1 \<and> prefix (sent_text (tn_out t)) (tn_response t)"
proof -
  define u where "u = u0\<lparr>tn_native := (if tp_documents (sx_params x) = [] then None else Some native_new)\<rparr>"
  have u: "loop_ok u" using assms(1) by (simp add: u_def loop_ok_def turn_ok_def)
  obtain ext v where run: "run_llm_stream (sx_params x) sv duration polls u = (ext, v)" by force
  with assms(2) have "v = t" by (simp add: run_prepared_turn_def u_def)
  with run_llm_stream_ok [OF u run] have r: "run_ok (sx_params x) sv duration polls ext t" by simp
  have "length (tn_events t) \<le> 1" using r by (cases ext) (simp_all add: run_ok_def turn_events_def)
  moreover have "length (tn_saved t) \<le> 1" using r by (cases ext) (auto simp: run_ok_def completed_ok_def cut_short_def)
  moreover have "tn_charged t \<le> 1" using r by (auto simp: run_ok_def turn_ok_def split: if_splits)
  ultimately show ?thesis using r by (simp add: run_ok_def turn_ok_def)
qed

text \<open>A turn without a provider runs a fixed list of steps that ends with a terminal event.\<close>

lemma provider_free_turn_account:
  assumes "loop_ok u" "one_ending u" "tn_charged u = 0" "sent_text (tn_out u) = []"
    and "run_provider_free save race (st # sts) u = t" "concat (map step_text sts) = []"
    and "EmitStep ev \<in> set (st # sts)" "is_terminal ev"
    and "length (concat (map step_reports (st # sts))) \<le> 1" "length (concat (map step_saves (st # sts))) \<le> 1"
  shows "stream_inv (tn_out t) \<and> length (tn_events t) \<le> 1 \<and> length (tn_saved t) \<le> 1 \<and> tn_charged t = 0 \<and>
    set (map sm_content (tn_saved t)) \<subseteq> set (concat (map step_saves (st # sts))) \<and>
    sent_text (tn_out t) \<in> {[], concat (step_text st)} \<and> (terminal_sent t \<or> (\<exists>n. race = ClientGoneAfter n))"
proof -
  note account = run_provider_free_account [OF assms(2,5)] and fresh = loop_okD(3,4) [OF assms(1)]
  have "stream_inv (tn_out t)" using account(1) by (simp add: one_ending_def)
  moreover have "length (tn_events t) \<le> 1" "length (tn_saved t) \<le> 1"
    using account(3,5) fresh assms(9,10) by simp_all
  moreover have "tn_charged t = 0" using account(2) assms(3) by simp
  moreover have "set (map sm_content (tn_saved t)) \<subseteq> set (concat (map step_saves (st # sts)))"
    using account(4) fresh by simp
  moreover have "sent_text (tn_out t) \<in> {[], concat (step_text st)}"
    using run_provider_free_text [OF assms(6), of save race st u] assms(4,5) by simp
  moreover have "terminal_sent t \<or> (\<exists>n. race = ClientGoneAfter n)"
    using run_provider_free_ends [OF assms(2,7,8), of save race] assms(5) by simp
  ultimately show ?thesis by blast
qed

text \<open>Undisturbed, such a turn says, stores and reports all of it.\<close>

lemma undisturbed_account:
  assumes "loop_ok u" "in_phase False sts" "run_provider_free save Undisturbed sts u = t"
  shows "tn_events t = concat (map step_reports sts)"
    and "tn_saved t = (case save of Inl _ \<Rightarrow> [] | Inr _ \<Rightarrow>
      map (\<lambda>c. \<lparr>sm_content = c, sm_citations = []\<rparr>) (concat (map step_saves sts)))"
    and "cs_closed (tn_out t) \<or> cs_sent (tn_out t) = cs_sent (tn_out u) @ concat (map step_sends sts)"
proof -
  from assms(1) have u: "\<not> cs_terminated (tn_out u)" "\<not> cs_generation_finished (tn_out u)"
    "tn_saved u = []" "tn_events u = []" by (simp_all add: loop_ok_def)
  from assms(3) have t: "t = fold (turn_step_op save) sts u" by (simp add: run_provider_free_def)
  show "tn_events t = concat (map step_reports sts)" using u(4) by (simp add: t steps_account(2))
  show "tn_saved t = (case save of Inl _ \<Rightarrow> [] | Inr _ \<Rightarrow>
      map (\<lambda>c. \<lparr>sm_content = c, sm_citations = []\<rparr>) (concat (map step_saves sts)))"
    using u(3) by (simp add: t steps_saved)
  show "cs_closed (tn_out t) \<or> cs_sent (tn_out t) = cs_sent (tn_out u) @ concat (map step_sends sts)"
    using steps_sent [of u sts save] u(1,2) assms(2) t by auto
qed

text \<open>
  C11. A chat turn from its preparation to its last event, however the retrieval, the provider, the
  client and the shutdown behave: the stream follows the protocol, with at most one terminal event,
  at most one message is stored and one domain event reported. Only a turn that reached a provider
  is charged, at most once, and the client has read a prefix of its answer. A turn that did not is
  free. If it answers, the answer is one of the documented sentences and nothing else is said or
  stored; if it fails, nothing is. It ends with a terminal event unless the client is gone, and when
  no shutdown and no departure cancels it, it reports its one domain event, an answer is stored if
  the store takes it, and a client that stays gets, after what the preparation told, the answer and
  the final event, or the error, and nothing more.
\<close>

theorem turn_from_request_to_end:
  assumes "prepare E D nb rq s = (Inr result, s1)" "pp_turn s = turn_start False client stream_new"
    and "run_prepared_turn sv duration polls race result (pp_turn s1) = t"
  shows "stream_inv (tn_out t) \<and> length (tn_events t) \<le> 1 \<and> length (tn_saved t) \<le> 1 \<and>
    (case result of
       StreamTurn x \<Rightarrow> tn_charged t \<le> 1 \<and> prefix (sent_text (tn_out t)) (tn_response t)
     | AnswerTurn c \<Rightarrow>
         tn_charged t = 0 \<and> fc_answer c \<in> set fallback_texts \<and>
         set (map sm_content (tn_saved t)) \<subseteq> {fc_answer c} \<and> sent_text (tn_out t) \<in> {[], fc_answer c} \<and>
         (terminal_sent t \<or> (\<exists>n. race = ClientGoneAfter n)) \<and>
         (race = Undisturbed \<longrightarrow>
            tn_events t = [ChatCompleted (fc_account c) (fc_notebook c) (fc_provider c) 0 0] \<and>
            tn_saved t = (case ts_save sv of Inl _ \<Rightarrow> [] | Inr _ \<Rightarrow> [\<lparr>sm_content = fc_answer c, sm_citations = []\<rparr>]) \<and>
            (cs_closed (tn_out t) \<or> cs_sent (tn_out t) = cs_sent (tn_out (pp_turn s1)) @
               [ChatChunk (fc_answer c), ChatCitations [], ChatMetrics None,
                ChatDone (fc_model c) (fc_provider c) None]))
     | FailedTurn c \<Rightarrow>
         tn_charged t = 0 \<and> tn_saved t = [] \<and> sent_text (tn_out t) = [] \<and>
         (terminal_sent t \<or> (\<exists>n. race = ClientGoneAfter n)) \<and>
         (race = Undisturbed \<longrightarrow>
            tn_events t = [ChatFailed (ff_account c) (ff_notebook c) (ff_provider c) (ff_error_type c)] \<and>
            (cs_closed (tn_out t) \<or>
               cs_sent (tn_out t) = cs_sent (tn_out (pp_turn s1)) @ [ChatError (ff_message c)])))"
proof -
  note start = prepared_turn [OF assms(1,2)]
  show ?thesis
  proof (cases result)
    case (StreamTurn x)
    show ?thesis using streamed_turn_account [OF start(1) assms(3) [unfolded StreamTurn]] StreamTurn by simp
  next
    case (AnswerTurn c)
    let ?sts = "stream_grounded_fallback c"
    from assms(3) AnswerTurn have run: "run_provider_free (ts_save sv) race ?sts (pp_turn s1) = t"
      by (simp add: run_prepared_turn_def)
    have phased: "in_phase False ?sts" by (simp add: stream_grounded_fallback_def)
    note exact = undisturbed_account [OF start(1) phased, of "ts_save sv" t]
    have "fc_answer c \<in> set fallback_texts"
      using prepared_answer_is_documented assms(1) AnswerTurn by blast
    moreover have "stream_inv (tn_out t) \<and> length (tn_events t) \<le> 1 \<and> length (tn_saved t) \<le> 1 \<and> tn_charged t = 0 \<and>
        set (map sm_content (tn_saved t)) \<subseteq> {fc_answer c} \<and> sent_text (tn_out t) \<in> {[], fc_answer c} \<and>
        (terminal_sent t \<or> (\<exists>n. race = ClientGoneAfter n))"
      using provider_free_turn_account [OF start, of "ts_save sv" race "hd ?sts" "tl ?sts" t
          "ChatDone (fc_model c) (fc_provider c) None"] run
      by (simp add: stream_grounded_fallback_def)
    ultimately show ?thesis using exact run AnswerTurn by (auto simp: stream_grounded_fallback_def split: sum.split)
  next
    case (FailedTurn c)
    let ?sts = "stream_turn_failure c"
    from assms(3) FailedTurn have run: "run_provider_free (ts_save sv) race ?sts (pp_turn s1) = t"
      by (simp add: run_prepared_turn_def)
    have phased: "in_phase False ?sts" by (simp add: stream_turn_failure_def)
    note exact = undisturbed_account [OF start(1) phased, of "ts_save sv" t]
    have "stream_inv (tn_out t) \<and> length (tn_events t) \<le> 1 \<and> length (tn_saved t) \<le> 1 \<and> tn_charged t = 0 \<and>
        tn_saved t = [] \<and> sent_text (tn_out t) = [] \<and> (terminal_sent t \<or> (\<exists>n. race = ClientGoneAfter n))"
      using provider_free_turn_account [OF start, of "ts_save sv" race "hd ?sts" "tl ?sts" t
          "ChatError (ff_message c)"] run
      by (simp add: stream_turn_failure_def)
    then show ?thesis using exact run FailedTurn by (auto simp: stream_turn_failure_def)
  qed
qed

text \<open>A provider whose model has no declared window: the turn ends before the retrieval.\<close>

definition unmeasured_provider :: llm_provider where
  "unmeasured_provider = \<lparr>lp_name = lit ''local'', lp_available = True, lp_default_model = lit ''m'',
     lp_max_output_tokens = 100, lp_native_citations = False\<rparr>"

definition sample_deps :: "nat chat_deps" where
  "sample_deps =
     \<lparr>cd_unicode = ascii_tables, cd_sha = id, cd_config = \<lparr>cf_context_stuffing_max_chunks = 0,
        cf_retrieval_pool_size = 10, cf_rerank_min_chunks = 5, cf_hybrid = sample_hybrid\<rparr>,
      cd_services = sample_services, cd_second_services = sample_services, cd_has_embeddings = False,
      cd_reformulator = None, cd_distance = (\<lambda>x y. Fin 0), cd_memory_embed = (\<lambda>q. Inr 0),
      cd_preferred = Inr [], cd_router = router_single unmeasured_provider, cd_access = Inr (),
      cd_memory_enabled = Inr False, cd_authorize = (\<lambda>op. Inr (unrestricted 1 2)), cd_latest = Inr None,
      cd_history = Inr [], cd_save_user = Inr (), cd_now_ms = 0, cd_fresh_session = 3\<rparr>"

definition sample_env :: turn_env where
  "sample_env = \<lparr>te_account = 1, te_mistral = False, te_timeout_secs = 30, te_parse = (\<lambda>d. None),
     te_times = no_times\<rparr>"

definition sample_request :: chat_request where
  "sample_request = \<lparr>crq_message = lit ''hi'', crq_max_context_chunks = 5, crq_provider = None,
     crq_model = None, crq_teaching = Flash, crq_locale = None\<rparr>"

definition sample_prep :: "nat prep" where
  "sample_prep = \<lparr>pp_turn = turn_start False [] stream_new, pp_cache = (\<lambda>k. None),
     pp_memory = \<lparr>md_rows = [], md_faults = [], md_now = 0, md_ids = id, md_made = 0\<rparr>,
     pp_user_messages = []\<rparr>"

lemma sample_message: "validate_message (lit ''hi'') = Inr (lit ''hi'')"
  by (simp add: validate_message_def trim_def trim_start_def trim_end_def is_whitespace_def lit_def
      len_utf8_def max_message_length_def)

lemma sample_selected:
  "get_provider (router_single unmeasured_provider) None =
     Inr \<lparr>sl_provider = unmeasured_provider, sl_model_override = None, sl_is_fallback = False\<rparr>"
  by (simp add: get_provider_def router_single_def) (simp add: unmeasured_provider_def lit_def)

lemma sample_unmeasured:
  "budget_for_model (lp_name unmeasured_provider) (lp_default_model unmeasured_provider) n = None"
  by (simp add: unmeasured_provider_def budget_for_model_def context_window_for_model_def
      catalog_context_window_def models_for_provider_def lit_def)

lemma sample_prepared:
  "\<exists>c s1. prepare sample_env sample_deps 9 sample_request sample_prep = (Inr (FailedTurn c), s1)"
  by (simp add: prepare_def validate_and_authorize_def sample_request_def sample_message sample_selected
      sample_unmeasured validated_max_context_chunks_def max_context_chunks_def sample_deps_def or_else_def
      load_chat_history_def load_memory_for_prompt_def failed_turn_def failed_with_trace_def Let_def)

theorem turn_from_request_to_end_witness:
  "\<exists>c s1. prepare sample_env sample_deps 9 sample_request sample_prep = (Inr (FailedTurn c), s1) \<and>
     tn_charged (run_prepared_turn ready_services 1 [] Undisturbed (FailedTurn c) (pp_turn s1)) = 0 \<and>
     terminal_sent (run_prepared_turn ready_services 1 [] Undisturbed (FailedTurn c) (pp_turn s1)) \<and>
     tn_events (run_prepared_turn ready_services 1 [] Undisturbed (FailedTurn c) (pp_turn s1)) =
       [ChatFailed (ff_account c) (ff_notebook c) (ff_provider c) (ff_error_type c)]"
proof -
  obtain c s1 where p: "prepare sample_env sample_deps 9 sample_request sample_prep = (Inr (FailedTurn c), s1)"
    using sample_prepared by blast
  have "pp_turn sample_prep = turn_start False [] stream_new" by (simp add: sample_prep_def)
  from turn_from_request_to_end [OF p this refl, of ready_services 1 "[]" Undisturbed] p show ?thesis by simp
qed

end
