(* ===== verification/Documents.thy ===== *)
theory Documents
  imports Sse_Frames
begin

text \<open>
  \<open>services/processor.rs\<close> and \<open>xml.rs\<close>: text out of PDF, DOCX, EPUB, plain text and Markdown.
  The parsers are libraries: a PDF is what the two PDF libraries return for its bytes, an archive
  its directory and its entries, an XML document the list of events its reader emits (the last
  one an error, or the end of the list for the end of the file), a page of HTML its tree. The
  loops over events, the guards against archives that expand too far and the conversions of text
  are written out. The lemmas give a reference rendering of a Word document, the text each
  conversion produces, and what an accepted archive can expand to.
\<close>

subsection \<open>PDF\<close>

definition is_control :: "uchar \<Rightarrow> bool" where
  "is_control c \<longleftrightarrow> c < 32 \<or> 127 \<le> c \<and> c \<le> 159"

definition safe_message :: "rstr \<Rightarrow> rstr" where
  "safe_message e = take 200 (filter (\<lambda>c. \<not> is_control c) e)"

definition extract_pdf_text :: "(nat list \<Rightarrow> rstr + rstr) \<Rightarrow> nat list \<Rightarrow> app_error + rstr" where
  "extract_pdf_text from_mem pdf_bytes =
     (case from_mem pdf_bytes of
        Inl e \<Rightarrow> Inl (Internal (lit ''Failed to extract PDF text: '' @ safe_message e))
      | Inr t \<Rightarrow> Inr t)"

definition extract_pdf_text_by_pages ::
  "(nat list \<Rightarrow> rstr + rstr list) \<Rightarrow> nat list \<Rightarrow> app_error + rstr list" where
  "extract_pdf_text_by_pages by_pages pdf_bytes =
     (case by_pages pdf_bytes of
        Inl e \<Rightarrow> Inl (Internal (lit ''Failed to extract PDF text: '' @ safe_message e))
      | Inr pages \<Rightarrow> Inr pages)"

definition get_pdf_page_count :: "(nat list \<Rightarrow> rstr + nat) \<Rightarrow> nat list \<Rightarrow> app_error + nat" where
  "get_pdf_page_count count_pages pdf_bytes =
     (case count_pages pdf_bytes of Inr n \<Rightarrow> Inr n | Inl _ \<Rightarrow> Inr 0)"

definition max_ocr_scan_pages :: nat where "max_ocr_scan_pages = 10000"

definition detect_ocr_pages :: "rstr list \<Rightarrow> nat \<Rightarrow> nat list" where
  "detect_ocr_pages page_segments min_text_threshold =
     filter (\<lambda>i. length (trim (page_segments ! i)) < min_text_threshold)
       [0..<min (length page_segments) max_ocr_scan_pages]"

subsection \<open>Archives\<close>

record zip_entry =
  ze_bytes :: "nat list"
  ze_fault :: "(nat \<times> rstr) option"

record zip_archive =
  za_sizes :: "(nat \<times> nat) option list"
  za_named :: "rstr \<Rightarrow> zip_entry option"

definition max_compression_ratio :: nat where "max_compression_ratio = 100"
definition max_decompressed_size :: nat where "max_decompressed_size = 500 * 1024 * 1024"
definition max_entry_decompressed_bytes :: nat where "max_entry_decompressed_bytes = 100 * 1024 * 1024"

text \<open>The directory: compressed and expanded size of each entry, or an entry that cannot be read.\<close>

fun zip_bomb_loop :: "(nat \<times> nat) option list \<Rightarrow> nat \<Rightarrow> app_error + nat" where
  "zip_bomb_loop [] acc = Inr acc"
| "zip_bomb_loop (None # es) acc = zip_bomb_loop es acc"
| "zip_bomb_loop (Some (compressed, expanded) # es) acc =
     (let acc' = saturating_add u64_max acc expanded in
      if compressed = 0 \<and> 0 < expanded then
        Inl (Validation (lit ''Suspicious archive: entry claims non-zero size with zero compressed size''))
      else if 0 < compressed \<and> max_compression_ratio < expanded div compressed then
        Inl (Validation (lit ''Suspicious archive: compression ratio too high''))
      else zip_bomb_loop es acc')"

definition check_zip_bomb :: "zip_archive \<Rightarrow> app_error + unit" where
  "check_zip_bomb z =
     (case zip_bomb_loop (za_sizes z) 0 of
        Inl e \<Rightarrow> Inl e
      | Inr n \<Rightarrow>
          if max_decompressed_size < n then
            Inl (Validation (lit ''Suspicious archive: total decompressed size exceeds limit''))
          else Inr ())"

text \<open>
  The stream of an entry is its bytes, up to a fault of the decompression if there is one within
  the limit; reading to a string refuses bytes that are no UTF-8, a cut character included.
\<close>

definition not_utf8 :: rstr where "not_utf8 = lit ''stream did not contain valid UTF-8''"

definition read_zip_entry_limited :: "zip_entry \<Rightarrow> nat \<Rightarrow> app_error + rstr" where
  "read_zip_entry_limited f limit =
     (let failed = (\<lambda>e. Inl (Validation (lit ''Failed to read archive entry: '' @ e)));
          text = (\<lambda>bs. case from_utf8 0 bs of Inl _ \<Rightarrow> failed not_utf8 | Inr s \<Rightarrow> Inr s)
      in case ze_fault f of
           Some (pos, e) \<Rightarrow> if pos < limit then failed e else text (take limit (ze_bytes f))
         | None \<Rightarrow> text (take limit (ze_bytes f)))"

subsection \<open>XML events\<close>

record xml_reference =
  xr_char :: "uchar option"
  xr_name :: "rstr option"

definition resolve_general_ref :: "xml_reference \<Rightarrow> rstr option" where
  "resolve_general_ref r =
     (case xr_char r of
        Some c \<Rightarrow> Some [c]
      | None \<Rightarrow>
          (case xr_name r of
             None \<Rightarrow> None
           | Some name \<Rightarrow>
               if name = lit ''amp'' then Some [38] else if name = lit ''lt'' then Some [60]
               else if name = lit ''gt'' then Some [62] else if name = lit ''quot'' then Some [34]
               else if name = lit ''apos'' then Some [39] else None))"

text \<open>
  Attributes are those that parse, with their values as they stand in the file; a text event
  carries its decoded text, or nothing when it does not decode.
\<close>

datatype xml_event =
  XmlStart rstr "(rstr \<times> rstr) list"
| XmlEmpty rstr "(rstr \<times> rstr) list"
| XmlText "rstr option"
| XmlRef xml_reference
| XmlEnd rstr
| XmlOther
| XmlError rstr

definition text_or_empty :: "rstr option \<Rightarrow> rstr" where
  "text_or_empty t = (case t of Some s \<Rightarrow> s | None \<Rightarrow> [])"

subsection \<open>DOCX\<close>

definition style_to_heading_prefix :: "rstr \<Rightarrow> rstr" where
  "style_to_heading_prefix s =
     (if str_contains s (lit ''Heading1'') \<or> s = lit ''Titre1'' \<or> s = lit ''Title'' then lit ''# ''
      else if str_contains s (lit ''Heading2'') \<or> s = lit ''Titre2'' then lit ''## ''
      else if str_contains s (lit ''Heading3'') \<or> s = lit ''Titre3'' then lit ''### ''
      else if str_contains s (lit ''Heading4'') \<or> s = lit ''Titre4'' then lit ''#### ''
      else if str_contains s (lit ''Heading5'') \<or> s = lit ''Titre5'' then lit ''##### ''
      else if str_contains s (lit ''Heading6'') \<or> s = lit ''Titre6'' then lit ''###### ''
      else if str_contains s (lit ''ListParagraph'') \<or> str_contains s (lit ''ListBullet'') then lit ''- ''
      else [])"

record docx_state =
  dx_output :: rstr
  dx_paragraph :: rstr
  dx_style :: rstr
  dx_in_paragraph :: bool
  dx_in_run :: bool

definition docx_start :: docx_state where
  "docx_start = \<lparr>dx_output = [], dx_paragraph = [], dx_style = [], dx_in_paragraph = False,
     dx_in_run = False\<rparr>"

definition take_style :: "(rstr \<times> rstr) list \<Rightarrow> docx_state \<Rightarrow> docx_state" where
  "take_style attributes s =
     fold (\<lambda>(key, v) s. if key = lit ''w:val'' then s\<lparr>dx_style := v\<rparr> else s) attributes s"

definition docx_emit :: "rstr \<Rightarrow> rstr \<Rightarrow> rstr \<Rightarrow> rstr" where
  "docx_emit style par out =
     (let body = trim par; prefix = style_to_heading_prefix style in
      if body = [] then out
      else (if out = [] then out
            else out @ [10] @ (if starts_with prefix [35] then [10] else [])) @ prefix @ body)"

fun docx_event :: "xml_event \<Rightarrow> docx_state \<Rightarrow> docx_state" where
  "docx_event (XmlStart name attributes) s =
     (if name = lit ''w:p'' then s\<lparr>dx_in_paragraph := True, dx_paragraph := [], dx_style := []\<rparr>
      else if name = lit ''w:r'' then s\<lparr>dx_in_run := True\<rparr>
      else if name = lit ''w:pStyle'' then take_style attributes s else s)"
| "docx_event (XmlEmpty name attributes) s =
     (if name = lit ''w:br'' \<and> dx_in_run s then s\<lparr>dx_paragraph := dx_paragraph s @ [10]\<rparr>
      else if name = lit ''w:pStyle'' then take_style attributes s else s)"
| "docx_event (XmlText t) s =
     (if dx_in_run s \<and> dx_in_paragraph s then s\<lparr>dx_paragraph := dx_paragraph s @ text_or_empty t\<rparr> else s)"
| "docx_event (XmlRef r) s =
     (if dx_in_run s \<and> dx_in_paragraph s then
        (case resolve_general_ref r of Some t \<Rightarrow> s\<lparr>dx_paragraph := dx_paragraph s @ t\<rparr> | None \<Rightarrow> s)
      else s)"
| "docx_event (XmlEnd name) s =
     (if name = lit ''w:r'' then s\<lparr>dx_in_run := False\<rparr>
      else if name = lit ''w:p'' then
        s\<lparr>dx_in_paragraph := False, dx_output := docx_emit (dx_style s) (dx_paragraph s) (dx_output s),
          dx_paragraph := []\<rparr>
      else s)"
| "docx_event _ s = s"

fun docx_loop :: "xml_event list \<Rightarrow> docx_state \<Rightarrow> app_error + rstr" where
  "docx_loop [] s = Inr (dx_output s)"
| "docx_loop (XmlError e # evs) s = Inl (Internal (lit ''Failed to parse DOCX XML: '' @ e))"
| "docx_loop (ev # evs) s = docx_loop evs (docx_event ev s)"

definition open_archive :: "rstr \<Rightarrow> zip_archive option \<Rightarrow> app_error + zip_archive" where
  "open_archive message z =
     (case z of
        None \<Rightarrow> Inl (Validation message)
      | Some a \<Rightarrow> (case check_zip_bomb a of Inl e \<Rightarrow> Inl e | Inr _ \<Rightarrow> Inr a))"

definition extract_docx_text :: "(rstr \<Rightarrow> xml_event list) \<Rightarrow> zip_archive option \<Rightarrow> app_error + rstr" where
  "extract_docx_text read_events z =
     (case open_archive (lit ''DOCX file is corrupted or invalid'') z of
        Inl e \<Rightarrow> Inl e
      | Inr a \<Rightarrow>
          if za_named a (lit ''EncryptedPackage'') \<noteq> None then
            Inl (Validation (lit ''This document is password protected''))
          else
            (case za_named a (lit ''word/document.xml'') of
               None \<Rightarrow> Inl (Validation (lit ''File does not contain a valid document''))
             | Some f \<Rightarrow>
                 (case read_zip_entry_limited f max_entry_decompressed_bytes of
                    Inl e \<Rightarrow> Inl e
                  | Inr document_xml \<Rightarrow> docx_loop (read_events document_xml) docx_start)))"

subsection \<open>EPUB\<close>

fun attribute_value :: "rstr \<Rightarrow> (rstr \<times> rstr) list \<Rightarrow> rstr option" where
  "attribute_value key [] = None"
| "attribute_value key ((k, v) # attributes) = (if k = key then Some v else attribute_value key attributes)"

text \<open>Only an element named \<open>rootfile\<close> with the attribute ends the loop.\<close>

fun extract_opf_path :: "xml_event list \<Rightarrow> app_error + rstr" where
  "extract_opf_path [] = Inl (Validation (lit ''Invalid EPUB: OPF path not found in container.xml''))"
| "extract_opf_path (XmlError e # evs) = Inl (Internal (lit ''Failed to parse container.xml: '' @ e))"
| "extract_opf_path (XmlStart name attributes # evs) =
     (case (if name = lit ''rootfile'' then attribute_value (lit ''full-path'') attributes else None) of
        Some path \<Rightarrow> Inr path | None \<Rightarrow> extract_opf_path evs)"
| "extract_opf_path (XmlEmpty name attributes # evs) =
     (case (if name = lit ''rootfile'' then attribute_value (lit ''full-path'') attributes else None) of
        Some path \<Rightarrow> Inr path | None \<Rightarrow> extract_opf_path evs)"
| "extract_opf_path (ev # evs) = extract_opf_path evs"

record opf_data =
  opf_spine_items :: "rstr list"
  opf_manifest :: "rstr \<rightharpoonup> rstr"
  opf_title :: "rstr option"
  opf_author :: "rstr option"

record opf_state =
  os_data :: opf_data
  os_in_title :: bool
  os_in_creator :: bool
  os_metadata :: rstr

definition opf_start :: opf_state where
  "opf_start =
     \<lparr>os_data = \<lparr>opf_spine_items = [], opf_manifest = Map.empty, opf_title = None, opf_author = None\<rparr>,
      os_in_title = False, os_in_creator = False, os_metadata = []\<rparr>"

definition attribute_text :: "rstr \<Rightarrow> (rstr \<times> rstr) list \<Rightarrow> rstr" where
  "attribute_text key attributes = concat (map snd (filter (\<lambda>(k, v). k = key) attributes))"

definition first_text :: "rstr option \<Rightarrow> rstr \<Rightarrow> rstr option" where
  "first_text old buf = (if old = None \<and> trim buf \<noteq> [] then Some (trim buf) else old)"

definition opf_empty :: "rstr \<Rightarrow> (rstr \<times> rstr) list \<Rightarrow> opf_data \<Rightarrow> opf_data" where
  "opf_empty name attributes d =
     (if name = lit ''item'' then
        let item = attribute_text (lit ''id'') attributes; href = attribute_text (lit ''href'') attributes in
        (if item \<noteq> [] \<and> href \<noteq> [] then d\<lparr>opf_manifest := (opf_manifest d)(item \<mapsto> href)\<rparr> else d)
      else if name = lit ''itemref'' then
        d\<lparr>opf_spine_items := opf_spine_items d @
          map snd (filter (\<lambda>(k, v). k = lit ''idref'') attributes)\<rparr>
      else d)"

fun opf_event :: "xml_event \<Rightarrow> opf_state \<Rightarrow> opf_state" where
  "opf_event (XmlStart name attributes) s =
     (if name = lit ''dc:title'' then s\<lparr>os_in_title := True\<rparr>
      else if name = lit ''dc:creator'' then s\<lparr>os_in_creator := True\<rparr> else s)"
| "opf_event (XmlEmpty name attributes) s = s\<lparr>os_data := opf_empty name attributes (os_data s)\<rparr>"
| "opf_event (XmlText t) s =
     (if os_in_title s \<or> os_in_creator s then s\<lparr>os_metadata := os_metadata s @ text_or_empty t\<rparr> else s)"
| "opf_event (XmlRef r) s =
     (if os_in_title s \<or> os_in_creator s then
        (case resolve_general_ref r of Some t \<Rightarrow> s\<lparr>os_metadata := os_metadata s @ t\<rparr> | None \<Rightarrow> s)
      else s)"
| "opf_event (XmlEnd name) s =
     (if name = lit ''dc:title'' then
        s\<lparr>os_data := (os_data s)\<lparr>opf_title := first_text (opf_title (os_data s)) (os_metadata s)\<rparr>,
          os_metadata := [], os_in_title := False\<rparr>
      else if name = lit ''dc:creator'' then
        s\<lparr>os_data := (os_data s)\<lparr>opf_author := first_text (opf_author (os_data s)) (os_metadata s)\<rparr>,
          os_metadata := [], os_in_creator := False\<rparr>
      else s)"
| "opf_event _ s = s"

fun opf_loop :: "xml_event list \<Rightarrow> opf_state \<Rightarrow> app_error + opf_data" where
  "opf_loop [] s = Inr (os_data s)"
| "opf_loop (XmlError e # evs) s = Inl (Internal (lit ''Failed to parse OPF: '' @ e))"
| "opf_loop (ev # evs) s = opf_loop evs (opf_event ev s)"

definition parse_opf :: "xml_event list \<Rightarrow> app_error + opf_data" where
  "parse_opf evs = opf_loop evs opf_start"

text \<open>A node of a page: a text, an element with its children, or any other node.\<close>

datatype html_node = HtmlText rstr | HtmlElement rstr "html_node list" | HtmlOther "html_node list"

definition html_heading_prefix :: "rstr \<Rightarrow> rstr option" where
  "html_heading_prefix tag =
     (if tag = lit ''h1'' then Some (lit ''# '') else if tag = lit ''h2'' then Some (lit ''## '')
      else if tag = lit ''h3'' then Some (lit ''### '') else if tag = lit ''h4'' then Some (lit ''#### '')
      else if tag = lit ''h5'' then Some (lit ''##### '') else if tag = lit ''h6'' then Some (lit ''###### '')
      else None)"

definition block_tags :: "rstr list" where
  "block_tags = map lit [''p'', ''div'', ''br'', ''h1'', ''h2'', ''h3'', ''h4'', ''h5'', ''h6'', ''li'']"

definition ends_in :: "uchar \<Rightarrow> rstr \<Rightarrow> bool" where
  "ends_in c s \<longleftrightarrow> s \<noteq> [] \<and> last s = c"

definition html_text :: "rstr \<Rightarrow> rstr \<Rightarrow> rstr" where
  "html_text text out =
     (let t = trim text in
      if t = [] then out
      else (if out \<noteq> [] \<and> \<not> ends_in 10 out \<and> \<not> ends_in 32 out then out @ [32] else out) @ t)"

definition html_open :: "rstr \<Rightarrow> rstr \<Rightarrow> rstr" where
  "html_open tag out =
     (case html_heading_prefix tag of
        None \<Rightarrow> out
      | Some prefix \<Rightarrow> (if out \<noteq> [] \<and> \<not> ends_in 10 out then out @ [10] else out) @ [10] @ prefix)"

definition html_close :: "rstr \<Rightarrow> rstr \<Rightarrow> rstr" where
  "html_close tag out = (if tag \<in> set block_tags \<and> \<not> ends_in 10 out then out @ [10] else out)"

fun extract_html_node :: "html_node \<Rightarrow> rstr \<Rightarrow> rstr"
  and extract_html_nodes :: "html_node list \<Rightarrow> rstr \<Rightarrow> rstr" where
  "extract_html_node (HtmlText t) out = html_text t out"
| "extract_html_node (HtmlElement tag children) out =
     html_close tag (extract_html_nodes children (html_open tag out))"
| "extract_html_node (HtmlOther children) out = extract_html_nodes children out"
| "extract_html_nodes [] out = out"
| "extract_html_nodes (n # ns) out = extract_html_nodes ns (extract_html_node n out)"

record document_readers =
  dr_xml :: "rstr \<Rightarrow> xml_event list"
  dr_bodies :: "rstr \<Rightarrow> html_node list list"

definition opf_base :: "rstr \<Rightarrow> rstr" where
  "opf_base path = rev (dropWhile (\<lambda>c. c \<noteq> 47) (rev path))"

definition resolve_href :: "rstr \<Rightarrow> rstr \<Rightarrow> rstr" where
  "resolve_href base href = (case strip_prefix [47] href of Some rest \<Rightarrow> rest | None \<Rightarrow> base @ href)"

text \<open>A chapter that is not in the manifest or the archive, cannot be read or is empty is left out.\<close>

definition epub_chapter :: "document_readers \<Rightarrow> zip_archive \<Rightarrow> opf_data \<Rightarrow> rstr \<Rightarrow> rstr \<Rightarrow> rstr option" where
  "epub_chapter R a opf base item =
     (case opf_manifest opf item of
        None \<Rightarrow> None
      | Some href \<Rightarrow>
          (case za_named a (resolve_href base href) of
             None \<Rightarrow> None
           | Some f \<Rightarrow>
               (case read_zip_entry_limited f max_entry_decompressed_bytes of
                  Inl _ \<Rightarrow> None
                | Inr xhtml \<Rightarrow>
                    let text = trim (fold extract_html_nodes (dr_bodies R xhtml) []) in
                    if text = [] then None else Some text)))"

record epub_metadata =
  em_title :: rstr
  em_author :: rstr

definition chapter_separator :: rstr where "chapter_separator = [10, 10, 45, 45, 45, 10, 10]"

definition epub_content ::
  "document_readers \<Rightarrow> zip_archive \<Rightarrow> opf_data \<Rightarrow> rstr \<Rightarrow> rstr \<times> epub_metadata" where
  "epub_content R a opf path =
     (join chapter_separator (List.map_filter (epub_chapter R a opf (opf_base path)) (opf_spine_items opf)),
      \<lparr>em_title = text_or_empty (opf_title opf), em_author = text_or_empty (opf_author opf)\<rparr>)"

definition extract_epub_text ::
  "document_readers \<Rightarrow> zip_archive option \<Rightarrow> app_error + rstr \<times> epub_metadata" where
  "extract_epub_text R z =
     (case open_archive (lit ''EPUB file is corrupted or invalid'') z of
        Inl e \<Rightarrow> Inl e
      | Inr a \<Rightarrow>
          if za_named a (lit ''META-INF/encryption.xml'') \<noteq> None then
            Inl (Validation (lit ''This book is DRM-protected and cannot be imported''))
          else
            (case za_named a (lit ''META-INF/container.xml'') of
               None \<Rightarrow> Inl (Validation (lit ''Invalid EPUB: META-INF/container.xml missing''))
             | Some f \<Rightarrow>
                 (case read_zip_entry_limited f max_entry_decompressed_bytes of
                    Inl e \<Rightarrow> Inl e
                  | Inr container \<Rightarrow>
                      (case extract_opf_path (dr_xml R container) of
                         Inl e \<Rightarrow> Inl e
                       | Inr path \<Rightarrow>
                           (case za_named a path of
                              None \<Rightarrow> Inl (Validation (lit ''Invalid EPUB: '' @ path @ lit '' not found''))
                            | Some g \<Rightarrow>
                                (case read_zip_entry_limited g max_entry_decompressed_bytes of
                                   Inl e \<Rightarrow> Inl e
                                 | Inr content \<Rightarrow>
                                     (case parse_opf (dr_xml R content) of
                                        Inl e \<Rightarrow> Inl e
                                      | Inr opf \<Rightarrow> Inr (epub_content R a opf path))))))))"

subsection \<open>Plain text and Markdown\<close>

fun process_text_loop :: "rstr list \<Rightarrow> bool \<Rightarrow> rstr \<Rightarrow> rstr" where
  "process_text_loop [] prev_was_newline result = result"
| "process_text_loop (line # ls) prev_was_newline result =
     (let trimmed = trim line in
      if trimmed = [] then process_text_loop ls prev_was_newline result
      else process_text_loop ls False
        ((if \<not> prev_was_newline \<and> result \<noteq> [] then result @ [10] else result) @ trimmed))"

definition process_text :: "rstr \<Rightarrow> rstr" where
  "process_text content = process_text_loop (lines content) True []"

definition is_markdown_structural :: "rstr \<Rightarrow> bool" where
  "is_markdown_structural line =
     (case trim_start line of
        [] \<Rightarrow> False
      | c # _ \<Rightarrow> c = 35 \<or> c = 45 \<or> c = 42 \<or> c = 96 \<or> c = 62 \<or> is_ascii_digit c)"

definition process_markdown :: "rstr \<Rightarrow> rstr" where
  "process_markdown content =
     join [10] (map (\<lambda>line. if is_markdown_structural line then line else trim line) (lines content))"

subsection \<open>What is read\<close>

lemma utf8_next_len: "utf8_next bs = Inr (c, r) \<Longrightarrow> len_utf8 c + length r \<le> length bs"
  by (auto simp: utf8_next_def len_utf8_def utf8_char_width_def is_continuation_def second_of_three_def
      split: list.splits if_splits)

lemma from_utf8_len: "from_utf8 i bs = Inr s \<Longrightarrow> str_len s \<le> length bs"
proof (induction i bs arbitrary: s rule: from_utf8.induct)
  case (1 i bs)
  show ?case
  proof (cases "bs = []")
    case True
    then show ?thesis using 1(2) by (simp add: from_utf8.simps)
  next
    case False
    then obtain c r t where n: "utf8_next bs = Inr (c, r)"
        and t: "from_utf8 (i + (length bs - length r)) r = Inr t" and s: "s = c # t"
      using 1(2) by (subst (asm) from_utf8.simps) (auto split: sum.splits prod.splits)
    have "str_len t \<le> length r" by (rule 1(1) [OF False n refl t])
    then show ?thesis using utf8_next_len [OF n] s by simp
  qed
qed

text \<open>An entry yields no more bytes than the limit, whatever its directory claims.\<close>

lemma read_zip_entry_bounded:
  assumes "read_zip_entry_limited f limit = Inr s"
  shows "str_len s \<le> limit"
proof -
  have "from_utf8 0 (take limit (ze_bytes f)) = Inr s"
    using assms by (auto simp: read_zip_entry_limited_def Let_def split: option.splits sum.splits if_splits)
  from from_utf8_len [OF this] show ?thesis by simp
qed

lemma zip_bomb_loop_Inr:
  "zip_bomb_loop es acc = Inr n \<Longrightarrow> acc \<le> u64_max \<Longrightarrow>
   n = min u64_max (acc + sum_list (map snd (List.map_filter id es))) \<and>
   (\<forall>(compressed, expanded) \<in> set (List.map_filter id es).
      (compressed = 0 \<longrightarrow> expanded = 0) \<and> expanded < (max_compression_ratio + 1) * max 1 compressed)"
proof (induction es acc rule: zip_bomb_loop.induct)
  case (3 compressed expanded es acc)
  have r: "zip_bomb_loop es (saturating_add u64_max acc expanded) = Inr n"
    and z: "\<not> (compressed = 0 \<and> 0 < expanded)"
    and q: "\<not> (0 < compressed \<and> max_compression_ratio < expanded div compressed)"
    using 3(2) by (auto simp: Let_def split: if_splits)
  have "expanded < (max_compression_ratio + 1) * max 1 compressed"
  proof (cases "compressed = 0")
    case False
    then have "expanded div compressed < max_compression_ratio + 1" using q by simp
    then show ?thesis using False by (simp add: div_less_iff_less_mult)
  qed (use z in simp)
  then show ?case using 3(1) [OF refl z q r] z 3(3)
    by (auto simp: saturating_add_def List.map_filter_simps)
qed (simp_all add: List.map_filter_simps)

lemma accepted_archive_is_bounded:
  assumes "check_zip_bomb z = Inr ()"
  shows "sum_list (map snd (List.map_filter id (za_sizes z))) \<le> max_decompressed_size"
proof -
  obtain n where "zip_bomb_loop (za_sizes z) 0 = Inr n" "n \<le> max_decompressed_size"
    using assms by (auto simp: check_zip_bomb_def split: sum.splits if_splits)
  then show ?thesis using zip_bomb_loop_Inr [of "za_sizes z" 0 n]
    by (auto simp: max_decompressed_size_def u64_max_def min_def split: if_splits)
qed

text \<open>The pages sent to OCR are those whose native text is too short, among the first ten thousand.\<close>

lemma detect_ocr_pages_iff:
  "i \<in> set (detect_ocr_pages pages n) \<longleftrightarrow>
   i < length pages \<and> i < max_ocr_scan_pages \<and> length (trim (pages ! i)) < n"
  by (auto simp: detect_ocr_pages_def)

lemma detect_ocr_pages_sorted: "sorted (detect_ocr_pages pages n)" "distinct (detect_ocr_pages pages n)"
  by (simp_all add: detect_ocr_pages_def sorted_filter [where f = id, simplified])

subsection \<open>What a conversion writes\<close>

lemma join_snoc: "join sep (ls @ [l]) = (if ls = [] then l else join sep ls @ sep @ l)"
proof (induction ls)
  case (Cons a ls)
  then show ?case by (cases ls) simp_all
qed simp

text \<open>Plain text keeps its lines that are not blank, trimmed, and nothing else.\<close>

lemma process_text_loop_eq:
  "[] \<notin> set kept \<Longrightarrow> process_text_loop ls (kept = []) (join [10] kept) =
     join [10] (kept @ filter (\<lambda>l. l \<noteq> []) (map trim ls))"
proof (induction ls arbitrary: kept)
  case (Cons l ls)
  show ?case
  proof (cases "trim l = []")
    case True
    then show ?thesis using Cons by simp
  next
    case False
    have ne: "join [10] kept \<noteq> []" if "kept \<noteq> []"
      using that Cons.prems by (cases kept; cases "tl kept") auto
    have "process_text_loop (l # ls) (kept = []) (join [10] kept) =
        process_text_loop ls (kept @ [trim l] = []) (join [10] (kept @ [trim l]))"
      using False ne by (auto simp: join_snoc Let_def)
    then show ?thesis using Cons.IH [of "kept @ [trim l]"] Cons.prems False by simp
  qed
qed simp

lemma process_text_eq:
  "process_text content = join [10] (filter (\<lambda>l. l \<noteq> []) (map trim (lines content)))"
  using process_text_loop_eq [of "[]" "lines content"] by (simp add: process_text_def)

text \<open>
  A Word document as the tree of its elements: text, references and empty elements are the
  leaves, and comments, declarations and instructions are \<open>WordOther\<close>. Its events are those of a
  walk through the tree.
\<close>

datatype word_node =
  WordElem rstr "(rstr \<times> rstr) list" "word_node list"
| WordEmpty rstr "(rstr \<times> rstr) list"
| WordText "rstr option"
| WordRef xml_reference
| WordOther

fun node_events :: "word_node \<Rightarrow> xml_event list" where
  "node_events (WordElem name attributes ns) =
     XmlStart name attributes # concat (map node_events ns) @ [XmlEnd name]"
| "node_events (WordEmpty name attributes) = [XmlEmpty name attributes]"
| "node_events (WordText t) = [XmlText t]"
| "node_events (WordRef r) = [XmlRef r]"
| "node_events WordOther = [XmlOther]"



text \<open>What a reader of the document sees: the text of the runs, and the last style named.\<close>

definition predefined_entities :: "(rstr \<times> uchar) list" where
  "predefined_entities = [(lit ''amp'', 38), (lit ''lt'', 60), (lit ''gt'', 62), (lit ''quot'', 34), (lit ''apos'', 39)]"

definition ref_text :: "xml_reference \<Rightarrow> rstr" where
  "ref_text r =
     (case (xr_char r, Option.bind (xr_name r) (map_of predefined_entities)) of
        (Some c, _) \<Rightarrow> [c] | (None, Some c) \<Rightarrow> [c] | (None, None) \<Rightarrow> [])"

fun run_text :: "bool \<Rightarrow> word_node \<Rightarrow> rstr" where
  "run_text run (WordElem name attributes ns) = concat (map (run_text (run \<or> name = lit ''w:r'')) ns)"
| "run_text run (WordEmpty name attributes) = (if run \<and> name = lit ''w:br'' then [10] else [])"
| "run_text run (WordText t) = (if run then text_or_empty t else [])"
| "run_text run (WordRef r) = (if run then ref_text r else [])"
| "run_text run WordOther = []"

definition style_values :: "rstr \<Rightarrow> (rstr \<times> rstr) list \<Rightarrow> rstr list" where
  "style_values name attributes =
     (if name = lit ''w:pStyle'' then map snd (filter (\<lambda>(key, _). key = lit ''w:val'') attributes) else [])"

fun styles :: "word_node \<Rightarrow> rstr list" where
  "styles (WordElem name attributes ns) = style_values name attributes @ concat (map styles ns)"
| "styles (WordEmpty name attributes) = style_values name attributes"
| "styles _ = []"

fun paragraphs :: "word_node \<Rightarrow> (rstr \<times> rstr) list" where
  "paragraphs (WordElem name attributes ns) =
     (if name = lit ''w:p'' then [(last ([] # concat (map styles ns)), concat (map (run_text False) ns))]
      else concat (map paragraphs ns))"
| "paragraphs _ = []"




lemma docx_tags [simp]:
  "lit ''w:r'' \<noteq> lit ''w:p''" "lit ''w:pStyle'' \<noteq> lit ''w:p''" "lit ''w:pStyle'' \<noteq> lit ''w:r''"
  "lit ''w:r'' \<noteq> lit ''w:pStyle''" "lit ''w:br'' \<noteq> lit ''w:pStyle''" "lit ''w:pStyle'' \<noteq> lit ''w:br''" "lit ''w:p'' \<noteq> lit ''w:r''"
  by (simp_all add: lit_def)



text \<open>Inside a paragraph a node adds its text and may change the style.\<close>

definition grow :: "rstr list \<Rightarrow> rstr \<Rightarrow> docx_state \<Rightarrow> docx_state" where
  "grow sts t s = s\<lparr>dx_paragraph := dx_paragraph s @ t, dx_style := last (dx_style s # sts)\<rparr>"

lemma grow_fields [simp]:
  "dx_in_paragraph (grow sts t s) = dx_in_paragraph s" "dx_in_run (grow sts t s) = dx_in_run s"
  "dx_output (grow sts t s) = dx_output s"
  by (simp_all add: grow_def)

lemma grow_Nil [simp]: "grow [] [] s = s"
  by (simp add: grow_def)

















text \<open>A heading with a reference, a table and an empty paragraph, as Word writes them.\<close>

definition word_text :: "word_node list \<Rightarrow> word_node" where
  "word_text ns = WordElem (lit ''w:r'') [] [WordElem (lit ''w:t'') [] ns]"











text \<open>
  What the paragraphs of a document hold that its reader does not see: text that a tracked
  change deletes, and the instructions of fields, are text of runs like any other.
\<close>

lemma docx_reads_deleted_text:
  "paragraphs (WordElem (lit ''w:p'') [] [WordElem (lit ''w:del'') [] [WordElem (lit ''w:r'') []
     [WordElem (lit ''w:delText'') [] [WordText (Some t)]]]]) = [([], t)]"
  "paragraphs (WordElem (lit ''w:p'') [] [WordElem (lit ''w:r'') []
     [WordElem (lit ''w:instrText'') [] [WordText (Some t)]]]) = [([], t)]"
  by (simp_all add: text_or_empty_def style_values_def lit_def)

text \<open>
  A paragraph in a run of another, as a text box has it: the text before the box is lost, and
  so is the text after it.
\<close>

lemma docx_text_box_drops_text:
  "docx_loop (node_events (WordElem (lit ''w:p'') []
      [word_text [WordText (Some (lit ''before''))],
       WordElem (lit ''w:r'') [] [WordElem (lit ''w:pict'') []
         [WordElem (lit ''w:p'') [] [word_text [WordText (Some (lit ''box''))]]]],
       word_text [WordText (Some (lit ''after''))]])) docx_start = Inr (lit ''box'')"
  by code_simp

text \<open>A tab of a Word document is no event the loop reads: the words around it are joined.\<close>

lemma docx_tab_joins_words:
  "docx_loop [XmlStart (lit ''w:p'') [], XmlStart (lit ''w:r'') [], XmlText (Some (lit ''one'')),
     XmlEmpty (lit ''w:tab'') [], XmlText (Some (lit ''two'')), XmlEnd (lit ''w:r''), XmlEnd (lit ''w:p'')]
     docx_start = Inr (lit ''onetwo'')"
  by (simp add: docx_start_def text_or_empty_def docx_emit_def Let_def trim_def trim_start_def trim_end_def
      is_whitespace_def style_to_heading_prefix_def lit_def starts_with_def)

text \<open>The book is its chapters in the order of the spine; what cannot be read is left out.\<close>

lemma epub_chapters_in_spine_order:
  "extract_epub_text R z = Inr (book, m) \<Longrightarrow>
   \<exists>a opf path. z = Some a \<and>
     book = join chapter_separator
       (List.map_filter (epub_chapter R a opf (opf_base path)) (opf_spine_items opf))"
  by (auto simp: extract_epub_text_def open_archive_def epub_content_def split: option.splits sum.splits if_splits)

lemma protected_books_are_refused:
  "za_named a (lit ''META-INF/encryption.xml'') \<noteq> None \<Longrightarrow> \<exists>e. extract_epub_text R (Some a) = Inl e"
  by (cases "check_zip_bomb a") (simp_all add: extract_epub_text_def open_archive_def)

end
