(* ===== verification/Ingestion_Clients.thy ===== *)
theory Ingestion_Clients
  imports Documents Resilience
begin

text \<open>
  \<open>clients/firecrawl.rs\<close> and \<open>clients/mistral_ocr.rs\<close>: the two services that ingestion sends a
  page or a document to. What a request is answered with is a parameter; how it is classified,
  what is retried and what is returned is written out, and the calls go through the executor of
  \<open>Resilience\<close>. Reading the key from the configuration and building the HTTP client are left out.
  The lemmas say what a result holds and which answers are final.
\<close>

text \<open>No answer within the timeout, a transport error, or a response with its parsed body.\<close>

datatype 'b reply = SendTimedOut | SendFailed request_error | Replied http_response "rstr + 'b"

subsection \<open>Firecrawl\<close>

record scrape_result =
  sr_title :: rstr
  sr_content :: rstr
  sr_description :: "rstr option"
  sr_source_url :: rstr

record firecrawl_metadata =
  fm_title :: "rstr option"
  fm_description :: "rstr option"
  fm_source_url :: "rstr option"

record firecrawl_data =
  fd_markdown :: "rstr option"
  fd_content :: "rstr option"
  fd_metadata :: "firecrawl_metadata option"

record firecrawl_response =
  fr_success :: bool
  fr_data :: "firecrawl_data option"
  fr_error :: "rstr option"

definition web_fetch_error :: "rstr \<Rightarrow> rstr \<Rightarrow> bool \<Rightarrow> app_error \<times> nat option \<times> bool" where
  "web_fetch_error url reason is_retryable =
     (app_error.Source (SourceWebFetchFailed url reason), None, is_retryable)"

definition extract_title_from_url :: "rstr \<Rightarrow> rstr" where
  "extract_title_from_url url =
     (case List.find (\<lambda>s. s \<noteq> [] \<and> 58 \<notin> set s) (rev (split_on (\<lambda>c. c = 47) url)) of
        Some s \<Rightarrow> map (\<lambda>c. if c = 45 \<or> c = 95 then 32 else c) s
      | None \<Rightarrow> lit ''Web Page'')"

definition or_else :: "'a option \<Rightarrow> 'a option \<Rightarrow> 'a option" where
  "or_else a b = (case a of None \<Rightarrow> b | Some _ \<Rightarrow> a)"

definition parse_firecrawl_response ::
  "rstr \<Rightarrow> rstr + firecrawl_response \<Rightarrow> scrape_result http_result" where
  "parse_firecrawl_response url body =
     (case body of
        Inl e \<Rightarrow> Inl (web_fetch_error url (lit ''Failed to parse response: '' @ e) False)
      | Inr r \<Rightarrow>
          if \<not> fr_success r then
            Inl (web_fetch_error url (lit ''Firecrawl failed: '' @
              (case fr_error r of Some e \<Rightarrow> e | None \<Rightarrow> lit ''Unknown error'')) False)
          else
            (case fr_data r of
               None \<Rightarrow> Inl (web_fetch_error url (lit ''Firecrawl returned no data'') False)
             | Some d \<Rightarrow>
                 (case or_else (fd_markdown d) (fd_content d) of
                    None \<Rightarrow> Inl (web_fetch_error url (lit ''Firecrawl returned no content'') False)
                  | Some content \<Rightarrow>
                      if trim content = [] then Inl (app_error.Source SourceEmptyContent, None, False)
                      else
                        let field = (\<lambda>f. Option.bind (fd_metadata d) f) in
                        Inr \<lparr>sr_title = (case field fm_title of Some t \<Rightarrow> t | None \<Rightarrow> extract_title_from_url url),
                             sr_content = content, sr_description = field fm_description,
                             sr_source_url = (case field fm_source_url of Some u \<Rightarrow> u | None \<Rightarrow> url)\<rparr>)))"

definition scrape_request :: "rstr \<Rightarrow> nat \<Rightarrow> firecrawl_response reply \<Rightarrow> scrape_result http_result" where
  "scrape_request url timeout_secs r =
     (case r of
        SendTimedOut \<Rightarrow>
          Inl (web_fetch_error url (lit ''Request timed out after '' @ show_nat timeout_secs @ lit '' seconds'') True)
      | SendFailed e \<Rightarrow>
          Inl (handle_request_error e (\<lambda>_ description. app_error.Source (SourceWebFetchFailed url description)))
      | Replied response body \<Rightarrow>
          (case check_response_status response (\<lambda>code b _.
                 app_error.Source (SourceWebFetchFailed url
                   (lit ''Firecrawl returned '' @ show_nat code @ lit '': '' @ b))) of
             Inl e \<Rightarrow> Inl e
           | Inr _ \<Rightarrow> parse_firecrawl_response url body))"

definition scrape_url ::
  "executor \<Rightarrow> retry_env \<Rightarrow> nat \<Rightarrow> (nat \<Rightarrow> firecrawl_response reply \<times> nat) \<Rightarrow> nat \<Rightarrow> rstr \<Rightarrow> exec_state \<Rightarrow>
   ((app_error + scrape_result) \<times> exec_state) option" where
  "scrape_url ex en timeout_secs replies now url s =
     (if \<not> starts_with url (lit ''http://'') \<and> \<not> starts_with url (lit ''https://'') then
        Some (Inl (app_error.Source (SourceWebFetchFailed url
          (lit ''Invalid URL: must start with http:// or https://''))), s)
      else execute ex en
        (\<lambda>retry_secs. app_error.Source (SourceWebFetchFailed url
           (lit ''Firecrawl service unavailable. Retry after '' @ show_nat retry_secs @ lit '' seconds.'')))
        (\<lambda>i. (scrape_request url timeout_secs (fst (replies i)), snd (replies i))) now s)"

subsection \<open>OCR\<close>

record ocr_page =
  oc_index :: nat
  oc_markdown :: rstr

record ocr_result =
  or_pages :: "ocr_page list"
  or_pages_processed :: nat

record ocr_client =
  ocl_model :: rstr
  ocl_max_file_size :: nat
  ocl_timeout_secs :: nat

record ocr_request =
  oq_model :: rstr
  oq_document_url :: rstr
  oq_pages :: "nat list option"

definition pdf_error :: "rstr \<Rightarrow> app_error" where
  "pdf_error reason = app_error.Source (SourcePdfExtractionFailed reason)"

definition parse_ocr_response ::
  "rstr + ocr_page list \<times> nat option \<Rightarrow> ocr_result http_result" where
  "parse_ocr_response body =
     (case body of
        Inl e \<Rightarrow> Inl (pdf_error (lit ''Failed to parse OCR response: '' @ e), None, False)
      | Inr (pages, usage) \<Rightarrow>
          Inr \<lparr>or_pages = pages,
               or_pages_processed = (case usage of Some n \<Rightarrow> n | None \<Rightarrow> clamp_u32 (length pages))\<rparr>)"

definition execute_ocr_request ::
  "ocr_client \<Rightarrow> (ocr_page list \<times> nat option) reply \<Rightarrow> ocr_result http_result" where
  "execute_ocr_request c r =
     (case r of
        SendTimedOut \<Rightarrow>
          Inl (pdf_error (lit ''Request timed out after '' @ show_nat (ocl_timeout_secs c) @ lit '' seconds''),
            None, False)
      | SendFailed e \<Rightarrow>
          Inl (pdf_error (lit ''OCR service error: '' @ rq_text e), None, rq_is_timeout e \<or> rq_is_connect e)
      | Replied response body \<Rightarrow>
          (case check_response_status response (\<lambda>code b _.
                 pdf_error (lit ''Mistral OCR returned '' @ show_nat code @ lit '': '' @ safe_message b)) of
             Inl e \<Rightarrow> Inl e
           | Inr _ \<Rightarrow> parse_ocr_response body))"

text \<open>\<open>encode\<close> is the base64 encoder; \<open>send\<close> answers a request at each attempt.\<close>

definition extract_text_from_pdf ::
  "ocr_client \<Rightarrow> (nat list \<Rightarrow> rstr) \<Rightarrow> executor \<Rightarrow> retry_env \<Rightarrow>
   (ocr_request \<Rightarrow> nat \<Rightarrow> (ocr_page list \<times> nat option) reply \<times> nat) \<Rightarrow> nat \<Rightarrow> nat list \<Rightarrow>
   nat list option \<Rightarrow> exec_state \<Rightarrow> ((app_error + ocr_result) \<times> exec_state) option" where
  "extract_text_from_pdf c encode ex en send now pdf_bytes pages s =
     (if pdf_bytes = [] then Some (Inl (pdf_error (lit ''PDF content is empty'')), s)
      else if ocl_max_file_size c < length pdf_bytes then
        Some (Inl (pdf_error (lit ''PDF size ('' @ show_nat (length pdf_bytes) @
          lit '' bytes) exceeds OCR limit ('' @ show_nat (ocl_max_file_size c) @ lit '' bytes)'')), s)
      else
        let request = \<lparr>oq_model = ocl_model c,
              oq_document_url = lit ''data:application/pdf;base64,'' @ encode pdf_bytes, oq_pages = pages\<rparr>
        in execute ex en
             (\<lambda>retry_secs. pdf_error (lit ''Mistral OCR service unavailable. Retry after '' @
                show_nat retry_secs @ lit '' seconds.''))
             (\<lambda>i. (execute_ocr_request c (fst (send request i)), snd (send request i))) now s)"

subsection \<open>What is returned\<close>

text \<open>A page that was scraped has text, under a title.\<close>

lemma scraped_page_has_text:
  "scrape_request url n r = Inr p \<Longrightarrow> trim (sr_content p) \<noteq> []"
  by (auto simp: scrape_request_def parse_firecrawl_response_def Let_def
      split: reply.splits sum.splits option.splits if_splits)

text \<open>
  The client's own timeout is final, as the code says it should be; the timeout of the HTTP
  library, which is set to the same duration, is retried.
\<close>

lemma ocr_timeouts_disagree:
  "snd (snd (projl (execute_ocr_request c SendTimedOut))) = False"
  "snd (snd (projl (execute_ocr_request c
     (SendFailed \<lparr>rq_is_timeout = True, rq_is_connect = False, rq_text = t\<rparr>)))) = True"
  by (simp_all add: execute_ocr_request_def)

text \<open>Without usage information the pages returned are counted.\<close>

lemma pages_processed_default:
  "parse_ocr_response (Inr (pages, None)) = Inr r \<Longrightarrow> or_pages_processed r \<le> length pages"
  by (auto simp: parse_ocr_response_def clamp_u32_def try_u32_def)

text \<open>A document that is empty or too large for the service is refused before any call.\<close>

lemma oversized_pdf_is_not_sent:
  "pdf_bytes = [] \<or> ocl_max_file_size c < length pdf_bytes \<Longrightarrow>
   \<exists>e. extract_text_from_pdf c encode ex en send now pdf_bytes pages s = Some (Inl e, s)"
  by (auto simp: extract_text_from_pdf_def)

end
