(* ===== verification/Web_Cleaning.thy ===== *)
theory Web_Cleaning
  imports Formatting
begin

text \<open>
  \<open>services/content_cleaning.rs\<close>: what is removed from a scraped page before it is indexed. The
  regular expressions belong to a library: each is given as the function that replaces its
  matches. Their order, the literal replacements between them, the phrases that are removed and
  the removal of repeated lines are written out. The lemmas say what the last keeps.
\<close>

subsection \<open>Replacing\<close>

text \<open>\<open>str::replace\<close> of a pattern that is not empty: matches from the left that do not overlap.\<close>

primrec replace_from :: "rstr \<Rightarrow> rstr \<Rightarrow> nat \<Rightarrow> rstr \<Rightarrow> rstr" where
  "replace_from pat new skip [] = []"
| "replace_from pat new skip (c # cs) =
     (if 0 < skip then replace_from pat new (skip - 1) cs
      else if starts_with (c # cs) pat then new @ replace_from pat new (length pat - 1) cs
      else c # replace_from pat new 0 cs)"

definition str_replace :: "rstr \<Rightarrow> rstr \<Rightarrow> rstr \<Rightarrow> rstr" where
  "str_replace pat new s = replace_from pat new 0 s"

subsection \<open>What is removed\<close>

definition invisible_chars :: "(uchar \<times> rstr) list" where
  "invisible_chars = [(173, []), (8203, []), (8204, []), (8205, []), (65279, []), (160, [32])]"

definition youtube_noise :: "rstr list" where
  "youtube_noise = [
     lit ''Watch later'',
     lit ''Share'',
     lit ''Copy link'',
     lit ''Watch on'',
     lit ''If playback doesn'' @ [39] @ lit ''t begin shortly'',
     lit ''try restarting your device'',
     lit ''You'' @ [39] @ lit ''re signed out'',
     lit ''Videos you watch may be added'',
     lit ''TV'' @ [39] @ lit ''s watch history'',
     lit ''influence TV recommendations'',
     lit ''To avoid this, cancel and sign in'',
     lit ''CancelConfirm'',
     lit ''Include playlist'',
     lit ''An error occurred while retrieving sharing information'',
     lit ''Please try again later'',
     lit ''Tap to unmute'',
     lit ''Info'' @ [10, 10] @ lit ''Shopping'',
     lit ''Search'' @ [10, 10] @ lit ''Info'']"

definition newsletter_noise :: "rstr list" where
  "newsletter_noise = [
     lit ''Subscribe to our newsletter'',
     lit ''Our weekly newsletter'',
     lit ''weekly newsletter'',
     lit ''SUBSCRIBE'',
     lit ''Sign up and receive'',
     lit ''We could not confirm your subscription'',
     lit ''Your subscription is confirmed'',
     lit ''Please enter your email address'',
     lit ''I agree to receive your emails'',
     lit ''privacy policy'',
     lit ''legal notices'',
     lit ''Abonnez-vous '' @ [224] @ lit '' notre newsletter'',
     lit ''Notre newsletter hebdomadaire'',
     lit ''newsletter hebdomadaire'',
     lit ''hebdomadaire hebdomadaire'',
     lit ''JE M'' @ [39] @ lit ''ABONNE'',
     lit ''Inscrivez-vous et recevez'',
     lit ''Nous n'' @ [39] @ lit ''avons pas pu confirmer votre inscription'',
     lit ''Votre inscription est confirm'' @ [233] @ lit ''e'',
     lit ''Veuillez renseigner votre adresse email'',
     lit ''J'' @ [39] @ lit ''accepte de recevoir vos e-mails'',
     lit ''politique de confidentialit'' @ [233],
     lit ''mentions l'' @ [233] @ lit ''gales'']"

definition section_noise :: "rstr list" where
  "section_noise = [
     lit ''Other episodes:'',
     lit ''In the same topic:'',
     lit ''Discover the other episodes in this series'',
     lit ''Our selection of series'',
     lit ''Support reliable information'',
     lit ''based on the scientific method'',
     lit ''Donate'',
     lit ''Autres '' @ [233] @ lit ''pisodes :'',
     lit ''Dans la m'' @ [234] @ lit ''me th'' @ [233] @ lit ''matique :'',
     lit ''D'' @ [233] @ lit ''couvrez les autres '' @ [233] @ lit ''pisodes de ce dossier'',
     lit ''Notre s'' @ [233] @ lit ''lection de dossiers'',
     lit ''Soutenez une information fiable'',
     lit ''bas'' @ [233] @ lit ''e sur la m'' @ [233] @ lit ''thode scientifique'',
     lit ''Faire un don'']"

definition related_titles :: "rstr list" where
  "related_titles = [
     lit ''Comment le quantique change la face du monde'',
     lit ''Batteries : les enjeux autour du stockage d'' @ [39, 233] @
       lit ''nergie se multiplient'',
     lit ''Prix Nobel : quelles applications pour les travaux des derniers laur'' @ [233] @
       lit ''ats'']"

record content_patterns =
  cp_image :: "rstr \<Rightarrow> rstr"
  cp_image_url :: "rstr \<Rightarrow> rstr"
  cp_empty_link :: "rstr \<Rightarrow> rstr"
  cp_breadcrumb :: "rstr \<Rightarrow> rstr"
  cp_episode_nav :: "rstr \<Rightarrow> rstr"
  cp_episode_card :: "rstr \<Rightarrow> rstr"
  cp_timestamp :: "rstr \<Rightarrow> rstr"
  cp_nav_arrow :: "rstr \<Rightarrow> rstr"
  cp_pi_tags :: "rstr \<Rightarrow> rstr"
  cp_episodes_count :: "rstr \<Rightarrow> rstr"
  cp_read_time :: "rstr \<Rightarrow> rstr"
  cp_standalone_link :: "rstr \<Rightarrow> rstr"
  cp_link_to_text :: "rstr \<Rightarrow> rstr"
  cp_empty_link_whitespace :: "rstr \<Rightarrow> rstr"
  cp_empty_heading :: "rstr \<Rightarrow> rstr"
  cp_lone_punct :: "rstr \<Rightarrow> rstr"
  cp_multi_newline :: "rstr \<Rightarrow> rstr"
  cp_whitespace_line :: "rstr \<Rightarrow> rstr"
  cp_related_titles :: "(rstr \<Rightarrow> rstr) list"

text \<open>\<open>keep_line\<close>: a line is dropped when, trimmed, it repeats the last line kept.\<close>

fun dedup_lines :: "rstr option \<Rightarrow> rstr list \<Rightarrow> rstr list" where
  "dedup_lines prev [] = []"
| "dedup_lines prev (line # ls) =
     (if trim line = [] \<or> map_option trim prev \<noteq> Some (trim line)
      then line # dedup_lines (Some line) ls else dedup_lines prev ls)"

definition deduplicate_lines :: "rstr \<Rightarrow> rstr" where
  "deduplicate_lines content = join [10] (dedup_lines None (lines content))"

definition remove_all :: "rstr list \<Rightarrow> rstr \<Rightarrow> rstr" where
  "remove_all noise s = fold (\<lambda>n. str_replace n []) noise s"

definition bullet :: rstr where "bullet = [8226]"

definition clean_scraped_content :: "content_patterns \<Rightarrow> rstr \<Rightarrow> rstr" where
  "clean_scraped_content P content =
     (let s = fold (\<lambda>(ch, new). str_replace [ch] new) invisible_chars content;
          s = cp_episode_card P (cp_episode_nav P (cp_breadcrumb P (cp_empty_link P
                (cp_image_url P (cp_image P s)))));
          s = cp_timestamp P (remove_all youtube_noise s);
          s = remove_all [bullet @ lit ''Live'' @ bullet, bullet @ lit ''Live'', lit ''Live'' @ bullet] s;
          s = remove_all section_noise (remove_all newsletter_noise s);
          s = cp_read_time P (cp_episodes_count P (cp_pi_tags P (cp_nav_arrow P s)));
          s = remove_all [[92, 92], [92]] s;
          s = cp_lone_punct P (cp_empty_heading P (cp_empty_link_whitespace P (cp_link_to_text P
                (cp_standalone_link P s))));
          s = remove_all (map (\<lambda>title. [42, 42] @ title @ [42, 42]) related_titles) s;
          s = fold (\<lambda>re. re) (cp_related_titles P) s;
          s = deduplicate_lines s
      in trim (cp_whitespace_line P (cp_multi_newline P s)))"

subsection \<open>What is kept\<close>

lemma replace_absent: "\<not> str_contains s pat \<Longrightarrow> pat \<noteq> [] \<Longrightarrow> str_replace pat new s = s"
proof -
  have "\<not> str_contains s pat \<Longrightarrow> pat \<noteq> [] \<Longrightarrow> replace_from pat new 0 s = s"
    by (induction s) simp_all
  then show "\<not> str_contains s pat \<Longrightarrow> pat \<noteq> [] \<Longrightarrow> str_replace pat new s = s"
    by (simp add: str_replace_def)
qed

lemma replace_one_char: "str_replace [c] new s = concat (map (\<lambda>d. if d = c then new else [d]) s)"
proof -
  have "replace_from [c] new 0 s = concat (map (\<lambda>d. if d = c then new else [d]) s)"
    by (induction s) (simp_all add: starts_with_def)
  then show ?thesis by (simp add: str_replace_def)
qed

text \<open>No invisible character and no backslash survives the literal steps that remove them.\<close>

lemma removed_char_is_absent: "c \<notin> set (str_replace [c] [] s)"
  by (auto simp: replace_one_char)

text \<open>
  No line that is not blank follows itself, up to the white space around it; every line kept is
  a line of the text, in order, and a second pass changes nothing.
\<close>

fun no_repeats :: "rstr option \<Rightarrow> rstr list \<Rightarrow> bool" where
  "no_repeats prev [] = True"
| "no_repeats prev (l # ls) =
     ((trim l \<noteq> [] \<longrightarrow> map_option trim prev \<noteq> Some (trim l)) \<and> no_repeats (Some l) ls)"

lemma dedup_lines_no_repeats: "no_repeats prev (dedup_lines prev ls)"
  by (induction prev ls rule: dedup_lines.induct) simp_all

lemma dedup_lines_id: "no_repeats prev ls \<Longrightarrow> dedup_lines prev ls = ls"
  by (induction ls arbitrary: prev) auto

lemma dedup_lines_twice: "dedup_lines prev (dedup_lines prev ls) = dedup_lines prev ls"
  by (rule dedup_lines_id [OF dedup_lines_no_repeats])

lemma dedup_lines_subseq: "set (dedup_lines prev ls) \<subseteq> set ls" "length (dedup_lines prev ls) \<le> length ls"
  by (induction prev ls rule: dedup_lines.induct) auto

lemma dedup_lines_keeps_content:
  "l \<in> set ls \<Longrightarrow> trim l \<in> trim ` set (dedup_lines prev ls) \<union> trim ` set_option prev"
proof (induction ls arbitrary: prev)
  case (Cons a ls)
  then show ?case using Cons.IH [of "Some a"] Cons.IH [of prev] by auto
qed simp

text \<open>The phrases are removed inside words too.\<close>

lemma phrases_are_cut_out_of_words:
  "lit ''Share'' \<in> set youtube_noise"
  "str_replace (lit ''Share'') [] (lit ''Shareholders'') = lit ''holders''"
  by (simp_all add: youtube_noise_def str_replace_def lit_def starts_with_def)

end
