(* ===== verification/Youtube.thy ===== *)
theory Youtube
  imports Documents Resilience Protocol Web_Cleaning
begin

text \<open>
  \<open>clients/youtube.rs\<close>: which video a URL names, how the captions of a video are found, chosen
  and parsed, and the Markdown with timestamps that is indexed, from which the range of a chunk
  is read back. The network, the URL parser and the JSON deserializer are parameters; the calls
  go through the executor of \<open>Resilience\<close>. The lemmas show that every identifier accepted has
  the form of one, that the timestamps written are the ones read back, and which track is chosen.
\<close>

subsection \<open>Numbers in texts\<close>

text \<open>\<open>str::parse::<f64>\<close>: a sign, then \<open>inf\<close>, \<open>infinity\<close>, \<open>nan\<close> or a decimal number.\<close>

definition digits_of :: "rstr \<Rightarrow> rstr" where "digits_of s = takeWhile is_ascii_digit s"

definition digits_nat :: "rstr \<Rightarrow> nat" where "digits_nat ds = fold (\<lambda>c acc. 10 * acc + (c - 48)) ds 0"

definition parse_exponent :: "rstr \<Rightarrow> int option" where
  "parse_exponent s =
     (case s of
        [] \<Rightarrow> Some 0
      | c # cs \<Rightarrow>
          if c = 101 \<or> c = 69 then
            let neg = (cs \<noteq> [] \<and> hd cs = 45);
                ds = (if cs \<noteq> [] \<and> (hd cs = 45 \<or> hd cs = 43) then tl cs else cs)
            in if ds \<noteq> [] \<and> list_all is_ascii_digit ds
               then Some (if neg then - int (digits_nat ds) else int (digits_nat ds)) else None
          else None)"

definition scale10 :: "rat \<Rightarrow> int \<Rightarrow> rat" where
  "scale10 q e = (if 0 \<le> e then q * 10 ^ nat e else q / 10 ^ nat (- e))"

definition parse_decimal :: "rstr \<Rightarrow> rat option" where
  "parse_decimal s =
     (let whole = digits_of s; rest = drop (length whole) s;
          dot = (rest \<noteq> [] \<and> hd rest = 46);
          frac = (if dot then digits_of (tl rest) else []);
          rest = (if dot then drop (length frac) (tl rest) else rest)
      in if whole = [] \<and> frac = [] then None
         else map_option (\<lambda>e. scale10 (of_nat (digits_nat (whole @ frac))) (e - int (length frac)))
           (parse_exponent rest))"

definition negate :: "rfloat \<Rightarrow> rfloat" where
  "negate x = (case x of Fin q \<Rightarrow> Fin (- q) | PosInf \<Rightarrow> NegInf | NegInf \<Rightarrow> PosInf | NaN \<Rightarrow> NaN)"

definition parse_f64 :: "rstr \<Rightarrow> rfloat option" where
  "parse_f64 s =
     (let neg = (s \<noteq> [] \<and> hd s = 45);
          body = (if s \<noteq> [] \<and> (hd s = 45 \<or> hd s = 43) then tl s else s);
          lower = map ascii_lower_char body;
          magnitude =
            (if lower = lit ''inf'' \<or> lower = lit ''infinity'' then Some PosInf
             else if lower = lit ''nan'' then Some NaN
             else map_option rnd64 (parse_decimal body))
      in map_option (\<lambda>v. if neg then negate v else v) magnitude)"

subsection \<open>The video a URL names\<close>

text \<open>A parsed URL, as far as it is asked: host, path and the decoded pairs of the query.\<close>

record video_url =
  vu_host :: "rstr option"
  vu_path :: rstr
  vu_query :: "(rstr \<times> rstr) list"

definition first_segment :: "rstr \<Rightarrow> rstr" where
  "first_segment rest = hd (split_on (\<lambda>c. c = 47) rest)"

fun first_prefix :: "rstr list \<Rightarrow> rstr \<Rightarrow> rstr option" where
  "first_prefix [] path = None"
| "first_prefix (p # ps) path =
     (case strip_prefix p path of
        Some rest \<Rightarrow> if first_segment rest \<noteq> [] then Some (first_segment rest) else first_prefix ps path
      | None \<Rightarrow> first_prefix ps path)"

definition extract_from_youtube_com :: "video_url \<Rightarrow> rstr option" where
  "extract_from_youtube_com u =
     (if vu_path u = lit ''/watch'' \<or> starts_with (vu_path u) (lit ''/watch'') then
        map_option snd (List.find (\<lambda>(key, v). key = lit ''v'') (vu_query u))
      else first_prefix [lit ''/embed/'', lit ''/shorts/'', lit ''/live/''] (vu_path u))"

definition extract_from_youtu_be :: "video_url \<Rightarrow> rstr option" where
  "extract_from_youtu_be u =
     (case strip_prefix (lit ''/'') (vu_path u) of
        None \<Rightarrow> None
      | Some path \<Rightarrow> if first_segment path = [] then None else Some (first_segment path))"

definition is_valid_locale :: "rstr \<Rightarrow> bool" where
  "is_valid_locale locale_code \<longleftrightarrow>
     str_len locale_code = 2 \<and> list_all (\<lambda>b. 97 \<le> b \<and> b \<le> 122) (as_bytes locale_code)"

definition is_valid_video_id :: "rstr \<Rightarrow> bool" where
  "is_valid_video_id i \<longleftrightarrow>
     str_len i = 11 \<and> list_all (\<lambda>c. ascii_alphanumeric c \<or> c = 45 \<or> c = 95) i"

definition normalized_host :: "rstr \<Rightarrow> rstr" where
  "normalized_host h =
     (case strip_prefix (lit ''www.'') h of
        Some r \<Rightarrow> r
      | None \<Rightarrow> (case strip_prefix (lit ''m.'') h of Some r \<Rightarrow> r | None \<Rightarrow> h))"

definition extract_youtube_video_id ::
  "(rstr \<Rightarrow> video_url option) \<Rightarrow> rstr \<Rightarrow> app_error + rstr" where
  "extract_youtube_video_id parse url_str =
     (case parse url_str of
        None \<Rightarrow> Inl (Validation (lit ''Invalid URL format''))
      | Some u \<Rightarrow>
          let h = normalized_host (text_or_empty (vu_host u));
              vid = (if h = lit ''youtube.com'' then extract_from_youtube_com u
                          else if h = lit ''youtu.be'' then extract_from_youtu_be u else None)
          in case vid of
               Some i \<Rightarrow>
                 if is_valid_video_id i then Inr i
                 else Inl (Validation (lit ''Invalid YouTube video ID format''))
             | None \<Rightarrow> Inl (Validation
                 (lit ''Invalid YouTube URL. Please enter a valid youtube.com or youtu.be link.'')))"

subsection \<open>The player's answer\<close>

definition json_member :: "rstr \<Rightarrow> json \<Rightarrow> json option" where
  "json_member key j = (case j of JObj kvs \<Rightarrow> map_of kvs key | _ \<Rightarrow> None)"

definition json_nth :: "nat \<Rightarrow> json \<Rightarrow> json option" where
  "json_nth i j = (case j of JArr xs \<Rightarrow> get_at xs i | _ \<Rightarrow> None)"

definition json_path :: "rstr list \<Rightarrow> json \<Rightarrow> json option" where
  "json_path ks j = fold (\<lambda>k v. Option.bind v (json_member k)) ks (Some j)"

definition as_str :: "json \<Rightarrow> rstr option" where
  "as_str j = (case j of JStr s \<Rightarrow> Some s | _ \<Rightarrow> None)"

definition as_array :: "json \<Rightarrow> json list option" where
  "as_array j = (case j of JArr xs \<Rightarrow> Some xs | _ \<Rightarrow> None)"

definition json_str_of :: "json \<Rightarrow> rstr \<Rightarrow> rstr option" where
  "json_str_of v key = Option.bind (json_member key v) as_str"

definition source_err :: "rstr \<Rightarrow> app_error" where
  "source_err reason = app_error.Source (SourceProcessingFailed reason)"

definition check_playability :: "json \<Rightarrow> unit http_result" where
  "check_playability d =
     (let field = (\<lambda>k. Option.bind (json_path [lit ''playabilityStatus'', k] d) as_str);
          status = (case field (lit ''status'') of Some s \<Rightarrow> s | None \<Rightarrow> lit ''OK'');
          reason = text_or_empty (field (lit ''reason''));
          refuse = (\<lambda>m. Inl (source_err m, None, False))
      in if status = lit ''OK'' \<or> status = lit ''LIVE_STREAM_OFFLINE'' then Inr ()
         else if status = lit ''LOGIN_REQUIRED'' \<and> str_contains reason (lit ''age'') then
           refuse (lit ''This video requires age verification and cannot be processed.'')
         else if status = lit ''LOGIN_REQUIRED'' then
           refuse (lit ''This video requires authentication and cannot be processed.'')
         else if status = lit ''UNPLAYABLE'' \<or> status = lit ''ERROR'' then
           refuse (lit ''This video is not accessible (private or deleted).'')
         else refuse (lit ''Video unavailable: '' @ status @ lit '' '' @ [8212] @ lit '' '' @ reason))"

text \<open>What posting to the player gives: no response, or a status (printed) and a body.\<close>

datatype player_reply = PlayerUnreachable rstr | PlayerReply nat rstr "rstr + json"

definition innertube_player :: "player_reply \<Rightarrow> json http_result" where
  "innertube_player r =
     (case r of
        PlayerUnreachable e \<Rightarrow> Inl (source_err (lit ''InnerTube request failed: '' @ e), None, True)
      | PlayerReply status printed body \<Rightarrow>
          if status = 429 then
            Inl (source_err (lit ''YouTube rate limit reached. Please try again later.''), Some 429, True)
          else if \<not> (200 \<le> status \<and> status < 300) then
            Inl (source_err (lit ''YouTube returned status '' @ printed), Some status,
              500 \<le> status \<and> status < 600)
          else
            (case body of
               Inl e \<Rightarrow> Inl (source_err (lit ''Failed to parse InnerTube response: '' @ e), None, False)
             | Inr d \<Rightarrow> (case check_playability d of Inl e \<Rightarrow> Inl e | Inr _ \<Rightarrow> Inr d)))"

subsection \<open>Caption tracks\<close>

definition is_generated :: "json \<Rightarrow> bool" where
  "is_generated t \<longleftrightarrow> json_str_of t (lit ''kind'') = Some (lit ''asr'')"

definition speaks :: "rstr \<Rightarrow> json \<Rightarrow> bool" where
  "speaks lang t \<longleftrightarrow> json_str_of t (lit ''languageCode'') = Some lang"

fun preferred_track :: "json list \<Rightarrow> rstr list \<Rightarrow> json option" where
  "preferred_track tracks [] = None"
| "preferred_track tracks (lang # langs) =
     (case List.find (\<lambda>t. speaks lang t \<and> \<not> is_generated t) tracks of
        Some t \<Rightarrow> Some t
      | None \<Rightarrow>
          (case List.find (speaks lang) tracks of
             Some t \<Rightarrow> Some t
           | None \<Rightarrow> preferred_track tracks langs))"

definition pick_caption_track :: "json list \<Rightarrow> rstr list \<Rightarrow> json" where
  "pick_caption_track tracks preferred =
     (case preferred_track tracks preferred of
        Some t \<Rightarrow> t
      | None \<Rightarrow>
          (case List.find (\<lambda>t. \<not> is_generated t) tracks of Some t \<Rightarrow> t | None \<Rightarrow> tracks ! 0))"

record track_info =
  ti_base_url :: rstr
  ti_language_code :: rstr
  ti_language :: rstr
  ti_is_generated :: bool

definition extract_track_info :: "json \<Rightarrow> track_info http_result" where
  "extract_track_info track =
     (case json_str_of track (lit ''baseUrl'') of
        None \<Rightarrow> Inl (source_err (lit ''Caption track has no URL''), None, False)
      | Some base_url \<Rightarrow>
          let code = (case json_str_of track (lit ''languageCode'') of Some c \<Rightarrow> c | None \<Rightarrow> lit ''und'');
              runs = Option.bind (Option.bind (json_path [lit ''name'', lit ''runs''] track) (json_nth 0))
                       (json_member (lit ''text''));
              name = (case runs of Some v \<Rightarrow> Some v | None \<Rightarrow> json_path [lit ''name'', lit ''simpleText''] track)
          in Inr \<lparr>ti_base_url = base_url, ti_language_code = code,
               ti_language = (case Option.bind name as_str of Some n \<Rightarrow> n | None \<Rightarrow> code),
               ti_is_generated = is_generated track\<rparr>)"

subsection \<open>Transcripts\<close>

record transcript_snippet =
  ts_text :: rstr
  ts_start :: rfloat
  ts_duration :: rfloat

record xml_transcript =
  xt_snippets :: "transcript_snippet list"
  xt_start :: rfloat
  xt_duration :: rfloat
  xt_in_text :: bool
  xt_buf :: rstr

definition xml_transcript_start :: xml_transcript where
  "xml_transcript_start =
     \<lparr>xt_snippets = [], xt_start = Fin 0, xt_duration = Fin 0, xt_in_text = False, xt_buf = []\<rparr>"

definition number_or_zero :: "rstr \<Rightarrow> rfloat" where
  "number_or_zero s = (case parse_f64 s of Some v \<Rightarrow> v | None \<Rightarrow> Fin 0)"

definition take_times :: "(rstr \<times> rstr) list \<Rightarrow> xml_transcript \<Rightarrow> xml_transcript" where
  "take_times attributes s =
     fold (\<lambda>(key, v) s. if key = lit ''start'' then s\<lparr>xt_start := number_or_zero v\<rparr>
             else if key = lit ''dur'' then s\<lparr>xt_duration := number_or_zero v\<rparr> else s)
       attributes (s\<lparr>xt_start := Fin 0, xt_duration := Fin 0, xt_buf := [], xt_in_text := True\<rparr>)"

fun transcript_event :: "xml_event \<Rightarrow> xml_transcript \<Rightarrow> xml_transcript" where
  "transcript_event (XmlStart name attributes) s =
     (if name = lit ''text'' then take_times attributes s else s)"
| "transcript_event (XmlText t) s =
     (if xt_in_text s then s\<lparr>xt_buf := xt_buf s @ text_or_empty t\<rparr> else s)"
| "transcript_event (XmlRef r) s =
     (if xt_in_text s then
        (case resolve_general_ref r of Some t \<Rightarrow> s\<lparr>xt_buf := xt_buf s @ t\<rparr> | None \<Rightarrow> s)
      else s)"
| "transcript_event (XmlEnd name) s =
     (if name = lit ''text'' then
        (let trimmed = trim (xt_buf s) in
         if trimmed = [] then s
         else s\<lparr>xt_snippets := xt_snippets s @
           [\<lparr>ts_text = trimmed, ts_start = xt_start s, ts_duration = xt_duration s\<rparr>]\<rparr>)\<lparr>xt_in_text := False\<rparr>
      else s)"
| "transcript_event _ s = s"

fun transcript_loop :: "xml_event list \<Rightarrow> xml_transcript \<Rightarrow> rstr + transcript_snippet list" where
  "transcript_loop [] s = Inr (xt_snippets s)"
| "transcript_loop (XmlError e # evs) s = Inl (lit ''XML parse error: '' @ e)"
| "transcript_loop (ev # evs) s = transcript_loop evs (transcript_event ev s)"

definition parse_transcript_xml :: "(rstr \<Rightarrow> xml_event list) \<Rightarrow> rstr \<Rightarrow> rstr + transcript_snippet list" where
  "parse_transcript_xml read_events xml = transcript_loop (read_events xml) xml_transcript_start"

record json3_event =
  j3_start_ms :: nat
  j3_duration_ms :: nat
  j3_segs :: "rstr list"

definition millis :: "nat \<Rightarrow> rfloat" where
  "millis n = f_div rnd64 (f_of_nat rnd64 n) (Fin 1000)"

definition parse_transcript_json3 ::
  "(rstr \<Rightarrow> rstr + json3_event list) \<Rightarrow> rstr \<Rightarrow> rstr + transcript_snippet list" where
  "parse_transcript_json3 deserialize j =
     (case deserialize j of
        Inl e \<Rightarrow> Inl (lit ''JSON3 parse failed: '' @ e)
      | Inr evs \<Rightarrow>
          let snippets = filter (\<lambda>s. ts_text s \<noteq> [])
                (map (\<lambda>e. \<lparr>ts_text = trim (concat (j3_segs e)), ts_start = millis (j3_start_ms e),
                            ts_duration = millis (j3_duration_ms e)\<rparr>)
                   (filter (\<lambda>e. j3_segs e \<noteq> []) evs))
          in if snippets = [] then Inl (lit ''No transcript text found in JSON3 response'')
             else Inr snippets)"

text \<open>The first \<open>&fmt=\<close> and what follows it up to the next \<open>&\<close>.\<close>

fun strip_fmt_param :: "rstr \<Rightarrow> rstr" where
  "strip_fmt_param [] = []"
| "strip_fmt_param (c # cs) =
     (case strip_prefix (lit ''&fmt='') (c # cs) of
        Some rest \<Rightarrow> dropWhile (\<lambda>d. d \<noteq> 38) rest
      | None \<Rightarrow> c # strip_fmt_param cs)"

definition set_fmt_param :: "rstr \<Rightarrow> rstr \<Rightarrow> rstr" where
  "set_fmt_param url fmt =
     (let stripped = strip_fmt_param url in
      stripped @ (if 63 \<in> set stripped then lit ''&fmt='' else lit ''?fmt='') @ fmt)"

record youtube_net =
  yn_player :: "rstr \<Rightarrow> player_reply"
  yn_body :: "rstr \<Rightarrow> rstr + rstr"
  yn_xml :: "rstr \<Rightarrow> xml_event list"
  yn_json3 :: "rstr \<Rightarrow> rstr + json3_event list"

definition fetch_transcript_content :: "youtube_net \<Rightarrow> rstr \<Rightarrow> rstr + transcript_snippet list" where
  "fetch_transcript_content N base_url =
     (let json3 = (case yn_body N (set_fmt_param base_url (lit ''json3'')) of
            Inl e \<Rightarrow> Inl e
          | Inr body \<Rightarrow> parse_transcript_json3 (yn_json3 N) body)
      in case yn_body N (strip_fmt_param base_url) of
           Inr body \<Rightarrow>
             if body = [] then json3
             else (case parse_transcript_xml (yn_xml N) body of
                     Inr snippets \<Rightarrow> if snippets \<noteq> [] then Inr snippets else json3
                   | Inl _ \<Rightarrow> json3)
         | Inl _ \<Rightarrow> json3)"

record youtube_transcript =
  yt_snippets :: "transcript_snippet list"
  yt_video_id :: rstr
  yt_language :: rstr
  yt_language_code :: rstr
  yt_is_generated :: bool

definition no_subtitles :: "app_error \<times> nat option \<times> bool" where
  "no_subtitles =
     (source_err (lit ''This video has no subtitles available. Try a different video.''), None, False)"

definition preferred_languages :: "rstr \<Rightarrow> rstr list" where
  "preferred_languages locale_code =
     (if locale_code = lit ''en'' then [lit ''en''] else [locale_code, lit ''en''])"

definition fetch_transcript_inner ::
  "youtube_net \<Rightarrow> rstr \<Rightarrow> rstr \<Rightarrow> youtube_transcript http_result" where
  "fetch_transcript_inner N vid locale_code =
     (case innertube_player (yn_player N vid) of
        Inl e \<Rightarrow> Inl e
      | Inr d \<Rightarrow>
          (case Option.bind (json_path [lit ''captions'', lit ''playerCaptionsTracklistRenderer'',
                  lit ''captionTracks''] d) as_array of
             None \<Rightarrow> Inl no_subtitles
           | Some [] \<Rightarrow> Inl no_subtitles
           | Some (t # ts) \<Rightarrow>
               (case extract_track_info (pick_caption_track (t # ts) (preferred_languages locale_code)) of
                  Inl e \<Rightarrow> Inl e
                | Inr track \<Rightarrow>
                    if str_contains (ti_base_url track) (lit ''&exp=xpe'') then
                      Inl (source_err (lit ''This video requires browser authentication for captions. '' @
                        lit ''Try a different video.''), None, False)
                    else
                      (case fetch_transcript_content N (ti_base_url track) of
                         Inl reason \<Rightarrow> Inl (source_err reason, None, True)
                       | Inr snippets \<Rightarrow>
                           Inr \<lparr>yt_snippets = snippets, yt_video_id = vid,
                                yt_language = ti_language track, yt_language_code = ti_language_code track,
                                yt_is_generated = ti_is_generated track\<rparr>))))"

definition youtube_unavailable :: "nat \<Rightarrow> app_error" where
  "youtube_unavailable retry_secs =
     source_err (lit ''YouTube service unavailable. Retry after '' @ show_nat retry_secs @ lit '' seconds.'')"

text \<open>The network of each attempt, and the time at which it ended.\<close>

definition fetch_transcript ::
  "executor \<Rightarrow> retry_env \<Rightarrow> (nat \<Rightarrow> youtube_net \<times> nat) \<Rightarrow> nat \<Rightarrow> rstr \<Rightarrow> rstr \<Rightarrow> exec_state \<Rightarrow>
   ((app_error + youtube_transcript) \<times> exec_state) option" where
  "fetch_transcript ex en nets now vid locale_code s =
     (if \<not> is_valid_locale locale_code then
        Some (Inl (Validation (lit ''Invalid locale code: '' @ locale_code)), s)
      else execute ex en youtube_unavailable
        (\<lambda>i. (fetch_transcript_inner (fst (nets i)) vid locale_code, snd (nets i))) now s)"

record youtube_metadata =
  ym_title :: rstr
  ym_author :: rstr
  ym_duration_seconds :: nat
  ym_channel_id :: rstr
  ym_thumbnail_url :: "rstr option"

definition fetch_video_details :: "youtube_net \<Rightarrow> rstr \<Rightarrow> app_error + youtube_metadata" where
  "fetch_video_details N vid =
     (case innertube_player (yn_player N vid) of
        Inl (e, _, _) \<Rightarrow> Inl e
      | Inr resp \<Rightarrow>
          (case json_member (lit ''videoDetails'') resp of
             None \<Rightarrow> Inl (source_err (lit ''Video details not found in response''))
           | Some d \<Rightarrow>
               Inr \<lparr>ym_title = text_or_empty (json_str_of d (lit ''title'')),
                 ym_author = text_or_empty (json_str_of d (lit ''author'')),
                 ym_duration_seconds =
                   (case Option.bind (json_str_of d (lit ''lengthSeconds'')) (parse_uint u32_max) of
                      Some n \<Rightarrow> n | None \<Rightarrow> 0),
                 ym_channel_id = text_or_empty (json_str_of d (lit ''channelId'')),
                 ym_thumbnail_url =
                   Option.bind (Option.bind (Option.bind
                     (json_path [lit ''thumbnail'', lit ''thumbnails''] d) (json_nth 0))
                     (json_member (lit ''url''))) as_str\<rparr>))"

subsection \<open>Timestamps\<close>

definition pad2 :: "nat \<Rightarrow> rstr" where
  "pad2 n = (if n < 10 then 48 # show_nat n else show_nat n)"

definition format_timestamp :: "rfloat \<Rightarrow> rstr" where
  "format_timestamp seconds =
     (let total_secs = f_to_uint u64_max seconds
      in pad2 (total_secs div 60) @ [58] @ pad2 (total_secs mod 60))"

definition format_section_range :: "rfloat \<Rightarrow> rfloat \<Rightarrow> rstr" where
  "format_section_range a b = format_timestamp a @ lit '' - '' @ format_timestamp b"

definition last_snippet_end :: "transcript_snippet list \<Rightarrow> rfloat" where
  "last_snippet_end ss =
     (if ss = [] then Fin 0 else f_add rnd64 (ts_start (last ss)) (ts_duration (last ss)))"

definition safe_title :: "rstr \<Rightarrow> rstr" where
  "safe_title title =
     str_replace [96] [92, 96] (str_replace [93] [92, 93] (str_replace [91] [92, 91]
       (str_replace [35] [92, 35] (str_replace [92] [92, 92] title))))"

definition section_duration :: rfloat where "section_duration = Fin 60"

definition section_header_line :: "transcript_snippet list \<Rightarrow> rfloat \<Rightarrow> rfloat \<Rightarrow> rstr" where
  "section_header_line ss a b =
     lit ''## ['' @ format_section_range a (f_min b (last_snippet_end ss)) @ lit '']'' @ [10, 10]"

definition snippet_line :: "transcript_snippet \<Rightarrow> rstr" where
  "snippet_line s = [91] @ format_timestamp (ts_start s) @ lit ''] '' @ trim (ts_text s) @ [10]"

fun snippet_lines ::
  "transcript_snippet list \<Rightarrow> transcript_snippet list \<Rightarrow> rfloat \<Rightarrow> rstr" where
  "snippet_lines ss [] section_end = []"
| "snippet_lines ss (s # rest) section_end =
     (if f_le section_end (ts_start s) then
        let b = f_add rnd64 (ts_start s) section_duration in
        [10] @ section_header_line ss (ts_start s) b @ snippet_line s @ snippet_lines ss rest b
      else snippet_line s @ snippet_lines ss rest section_end)"

definition format_transcript_as_markdown :: "transcript_snippet list \<Rightarrow> rstr \<Rightarrow> rstr" where
  "format_transcript_as_markdown ss title =
     (case ss of
        [] \<Rightarrow> []
      | s # _ \<Rightarrow>
          let b = f_add rnd64 (ts_start s) section_duration in
          (if title \<noteq> [] then lit ''# '' @ safe_title title @ [10, 10] else []) @
          section_header_line ss (ts_start s) b @ snippet_lines ss ss b)"

fun split_at_char :: "uchar \<Rightarrow> rstr \<Rightarrow> (rstr \<times> rstr) option" where
  "split_at_char c [] = None"
| "split_at_char c (d # ds) =
     (if d = c then Some ([], ds) else map_option (\<lambda>(a, b). (d # a, b)) (split_at_char c ds))"

definition parse_timestamp_prefix :: "rstr \<Rightarrow> rfloat option" where
  "parse_timestamp_prefix line =
     (case strip_prefix [91] line of
        None \<Rightarrow> None
      | Some rest \<Rightarrow>
          (case split_at_char 93 rest of
             None \<Rightarrow> None
           | Some (ts_str, _) \<Rightarrow>
               (case split_at_char 58 ts_str of
                  None \<Rightarrow> None
                | Some (mins_str, secs_str) \<Rightarrow>
                    (case (parse_f64 (trim mins_str), parse_f64 (trim secs_str)) of
                       (Some mins, Some secs) \<Rightarrow> Some (f_add rnd64 (f_mul rnd64 mins (Fin 60)) secs)
                     | _ \<Rightarrow> None))))"

definition narrower :: "(rfloat \<Rightarrow> rfloat \<Rightarrow> bool) \<Rightarrow> rfloat \<Rightarrow> rfloat option \<Rightarrow> rfloat option" where
  "narrower better ts cur =
     (case cur of None \<Rightarrow> Some ts | Some c \<Rightarrow> if better ts c then Some ts else cur)"

definition extract_timestamp_range :: "rstr \<Rightarrow> rfloat option \<times> rfloat option" where
  "extract_timestamp_range content =
     fold (\<lambda>line (min_start, max_end).
         case parse_timestamp_prefix (trim line) of
           None \<Rightarrow> (min_start, max_end)
         | Some ts \<Rightarrow> (narrower (\<lambda>a b. f_lt a b) ts min_start, narrower (\<lambda>a b. f_lt b a) ts max_end))
       (lines content) (None, None)"

subsection \<open>Identifiers and tracks\<close>

lemma accepted_video_id: "extract_youtube_video_id parse u = Inr i \<Longrightarrow> is_valid_video_id i"
  by (auto simp: extract_youtube_video_id_def Let_def split: option.splits if_splits)

lemma find_in: "List.find P xs = Some x \<Longrightarrow> x \<in> set xs \<and> P x"
  by (auto simp: find_Some_iff)

lemma preferred_track_in:
  "preferred_track tracks langs = Some t \<Longrightarrow> t \<in> set tracks \<and> (\<exists>lang \<in> set langs. speaks lang t)"
proof (induction langs)
  case (Cons lang langs)
  show ?case
  proof (cases "List.find (\<lambda>t. speaks lang t \<and> \<not> is_generated t) tracks")
    case None
    show ?thesis
    proof (cases "List.find (speaks lang) tracks")
      case None
      then show ?thesis using Cons \<open>List.find (\<lambda>t. speaks lang t \<and> \<not> is_generated t) tracks = None\<close> by auto
    next
      case (Some t')
      then show ?thesis
        using Cons.prems \<open>List.find (\<lambda>t. speaks lang t \<and> \<not> is_generated t) tracks = None\<close> find_in [OF Some]
        by simp
    qed
  next
    case (Some t')
    then show ?thesis using Cons.prems find_in [OF Some] by simp
  qed
qed simp

text \<open>
  The track chosen is one of the video's; when a manual track exists in the first language that
  is preferred, a manual track in that language is chosen.
\<close>

lemma chosen_track_exists: "tracks \<noteq> [] \<Longrightarrow> pick_caption_track tracks preferred \<in> set tracks"
  by (auto simp: pick_caption_track_def dest: preferred_track_in find_in split: option.split)

lemma manual_track_preferred:
  assumes "t \<in> set tracks" "speaks lang t" "\<not> is_generated t"
  shows "speaks lang (pick_caption_track tracks (lang # langs)) \<and>
    \<not> is_generated (pick_caption_track tracks (lang # langs))"
proof -
  obtain t' where "List.find (\<lambda>t. speaks lang t \<and> \<not> is_generated t) tracks = Some t'"
    using assms by (cases "List.find (\<lambda>t. speaks lang t \<and> \<not> is_generated t) tracks") (auto simp: find_None_iff)
  from find_in [OF this] this show ?thesis by (simp add: pick_caption_track_def)
qed

subsection \<open>Timestamps are read back\<close>

lemma rnd64_of_nat:
  assumes "n < 2 ^ 53"
  shows "rnd64 (of_nat n) = Fin (of_nat n)"
proof (cases "n = 0")
  case True
  then show ?thesis using rnd64_small [of 0] by (simp add: round_mag_def)
next
  case False
  then have pos: "(0 :: rat) < of_nat n" by simp
  define u where "u = ulp_exp 53 (- 1074) (of_nat n)"
  have lt: "(of_nat n :: rat) < 2 ^ 53"
    using assms of_nat_less_iff [of n "2 ^ 53", where 'a = rat] by (simp only: of_nat_power of_nat_numeral)
  then have "pow2 (ilog2 (of_nat n)) < pow2 53"
    using ilog2_bounds(1) [OF pos] by (simp add: pow2_def)
  then have u: "u \<le> 0" by (simp add: pow2_less_iff ulp_exp_def u_def)
  then have p: "pow2 u = 1 / 2 ^ nat (- u)" by (cases "u = 0") (simp_all add: pow2_def)
  have "(of_nat n :: rat) / pow2 u = of_int (int n * 2 ^ nat (- u))" by (simp add: p)
  then have "round_half_even (of_nat n / pow2 u) = int n * 2 ^ nat (- u)"
    by (simp only: round_half_even_of_int)
  then have "round_mag 53 (- 1074) (of_nat n) = of_nat n"
    using pos unfolding round_mag_at [OF pos] u_def [symmetric] by (simp add: p)
  moreover have "(of_nat n :: rat) < 2 ^ 64" using lt by (rule order_less_le_trans) simp
  ultimately show ?thesis using rnd64_small [of "of_nat n"] by simp
qed

lemma trim_plain: "\<forall>c \<in> set s. \<not> is_whitespace c \<Longrightarrow> trim s = s"
proof -
  assume "\<forall>c \<in> set s. \<not> is_whitespace c"
  then have "dropWhile is_whitespace s = s" "dropWhile is_whitespace (rev s) = rev s"
    using hd_in_set [of "rev s"] by (auto simp: dropWhile_eq_self_iff)
  then show ?thesis by (simp add: trim_def trim_start_def trim_end_def)
qed

lemma digit_not_white: "is_ascii_digit c \<Longrightarrow> \<not> is_whitespace c"
  by (auto simp: is_ascii_digit_def is_whitespace_def)

lemma pad2_digits: "c \<in> set (pad2 n) \<Longrightarrow> is_ascii_digit c"
  using show_nat_digits by (auto simp: pad2_def is_ascii_digit_def split: if_splits)

lemma pad2_ne [simp]: "pad2 n \<noteq> []"
  by (simp add: pad2_def)

lemma digits_nat_show: "digits_nat (show_nat n) = n"
proof (induction n rule: show_nat.induct)
  case (1 n)
  show ?case
  proof (cases "n < 10")
    case False
    then have "digits_nat (show_nat n) = 10 * digits_nat (show_nat (n div 10)) + n mod 10"
      by (subst show_nat.simps) (simp add: digits_nat_def)
    then show ?thesis using 1 [OF False] by simp
  qed (simp add: show_nat.simps digits_nat_def)
qed

lemma digits_nat_pad2: "digits_nat (pad2 n) = n"
  using digits_nat_show [of n] by (simp add: pad2_def digits_nat_def)

lemma parse_f64_digits:
  assumes "ds \<noteq> []" "\<forall>c \<in> set ds. is_ascii_digit c"
  shows "parse_f64 ds = Some (rnd64 (of_nat (digits_nat ds)))"
proof -
  obtain d ds' where ds: "ds = d # ds'" "is_ascii_digit d" using assms by (cases ds) auto
  have lower: "map ascii_lower_char ds = ds"
    using assms(2) by (auto simp: ascii_lower_char_def is_ascii_digit_def intro!: map_idI)
  have words: "ds \<noteq> lit ''inf''" "ds \<noteq> lit ''infinity''" "ds \<noteq> lit ''nan''"
    using ds by (auto simp: lit_def is_ascii_digit_def)
  have "digits_of ds = ds" using assms(2) by (simp add: digits_of_def takeWhile_eq_all_conv)
  then have dec: "parse_decimal ds = Some (of_nat (digits_nat ds))"
    using assms(1) by (simp add: parse_decimal_def parse_exponent_def scale10_def)
  have "d \<noteq> 45" "d \<noteq> 43" using ds(2) by (auto simp: is_ascii_digit_def)
  then show ?thesis using lower words dec ds(1) by (simp add: parse_f64_def Let_def)
qed

lemma parse_f64_pad2: "n < 2 ^ 53 \<Longrightarrow> parse_f64 (trim (pad2 n)) = Some (Fin (of_nat n))"
proof -
  assume n: "n < 2 ^ 53"
  have "trim (pad2 n) = pad2 n"
    by (rule trim_plain) (blast dest: pad2_digits digit_not_white)
  then show ?thesis
    using parse_f64_digits [of "pad2 n"] pad2_digits [of _ n] rnd64_of_nat [OF n]
    by (simp add: digits_nat_pad2)
qed

lemma split_at_char_app: "c \<notin> set a \<Longrightarrow> split_at_char c (a @ c # b) = Some (a, b)"
  by (induction a) auto

definition whole_seconds :: "rfloat \<Rightarrow> nat" where
  "whole_seconds x = f_to_uint u64_max x"

lemma parse_timestamp_line:
  assumes "whole_seconds x < 2 ^ 53"
  shows "parse_timestamp_prefix ([91] @ format_timestamp x @ 93 # rest) = Some (Fin (of_nat (whole_seconds x)))"
proof -
  let ?t = "whole_seconds x"
  have chars: "58 \<notin> set (pad2 n)" "93 \<notin> set (pad2 n)" for n
    using pad2_digits [of 58 n] pad2_digits [of 93 n] by (auto simp: is_ascii_digit_def)
  have fmt: "format_timestamp x = pad2 (?t div 60) @ 58 # pad2 (?t mod 60)"
    by (simp add: format_timestamp_def whole_seconds_def Let_def)
  have a: "split_at_char 93 (format_timestamp x @ 93 # rest) = Some (format_timestamp x, rest)"
    by (rule split_at_char_app) (use chars in \<open>auto simp: fmt\<close>)
  have b: "split_at_char 58 (format_timestamp x) = Some (pad2 (?t div 60), pad2 (?t mod 60))"
    unfolding fmt by (rule split_at_char_app) (rule chars)
  have m: "parse_f64 (trim (pad2 (?t div 60))) = Some (Fin (of_nat (?t div 60)))"
    and s: "parse_f64 (trim (pad2 (?t mod 60))) = Some (Fin (of_nat (?t mod 60)))"
    using assms by (auto intro!: parse_f64_pad2 intro: order_le_less_trans [OF div_le_dividend]
        order_le_less_trans [OF mod_less_eq_dividend])
  have "?t div 60 * 60 < 2 ^ 53"
    using assms by (rule order_le_less_trans [rotated]) (simp add: div_times_less_eq_dividend)
  then have prod: "rnd64 (of_nat (?t div 60) * 60) = Fin (of_nat (?t div 60 * 60))"
    using rnd64_of_nat [of "?t div 60 * 60"] by (simp only: of_nat_mult of_nat_numeral)
  have "f_add rnd64 (f_mul rnd64 (Fin (of_nat (?t div 60))) (Fin 60)) (Fin (of_nat (?t mod 60))) =
      rnd64 (of_nat (?t div 60 * 60) + of_nat (?t mod 60))"
    by (simp add: prod)
  also have "\<dots> = rnd64 (of_nat (?t div 60 * 60 + ?t mod 60))" by (simp only: of_nat_add)
  also have "\<dots> = Fin (of_nat ?t)" using rnd64_of_nat [OF assms] by simp
  finally show ?thesis
    using a b m s by (simp add: parse_timestamp_prefix_def strip_prefix_def starts_with_def)
qed

text \<open>The lines of a text written line by line.\<close>

definition write_lines :: "rstr list \<Rightarrow> rstr" where
  "write_lines ls = concat (map (\<lambda>l. l @ [10]) ls)"

lemma write_lines_simps [simp]:
  "write_lines [] = []" "write_lines (l # ls) = l @ 10 # write_lines ls"
  "write_lines (ls @ ms) = write_lines ls @ write_lines ms"
  by (simp_all add: write_lines_def)

lemma split_on_line: "10 \<notin> set l \<Longrightarrow> split_on (\<lambda>c. c = 10) (l @ 10 # r) = l # split_on (\<lambda>c. c = 10) r"
  by (induction l) auto

lemma split_write_lines:
  "\<forall>l \<in> set ls. 10 \<notin> set l \<Longrightarrow> split_on (\<lambda>c. c = 10) (write_lines ls) = ls @ [[]]"
  by (induction ls) (simp_all add: split_on_line)

lemma trim_strip_cr: "trim (strip_cr l) = trim l"
proof (cases "l \<noteq> [] \<and> last l = 13")
  case True
  then obtain l' where "l = l' @ [13]" by (metis append_butlast_last_id)
  then have "trim_end l = trim_end l'" "strip_cr l = l'"
    by (simp_all add: trim_end_def is_whitespace_def strip_cr_def)
  then show ?thesis by (simp add: trim_commute)
qed (auto simp: strip_cr_def)

lemma lines_write_lines:
  "\<forall>l \<in> set ls. 10 \<notin> set l \<Longrightarrow> map trim (lines (write_lines ls)) = map trim ls"
  by (simp add: lines_def split_write_lines Let_def trim_strip_cr o_def)

text \<open>What a transcript is written as, line by line.\<close>

definition bare_line :: "transcript_snippet \<Rightarrow> rstr" where
  "bare_line s = [91] @ format_timestamp (ts_start s) @ lit ''] '' @ trim (ts_text s)"

definition bare_header :: "transcript_snippet list \<Rightarrow> rfloat \<Rightarrow> rfloat \<Rightarrow> rstr" where
  "bare_header ss a b = lit ''## ['' @ format_section_range a (f_min b (last_snippet_end ss)) @ lit '']''"

lemma written_lines:
  "snippet_line s = write_lines [bare_line s]"
  "section_header_line ss a b = write_lines [bare_header ss a b, []]"
  by (simp_all add: snippet_line_def bare_line_def section_header_line_def bare_header_def)

fun transcript_lines :: "transcript_snippet list \<Rightarrow> transcript_snippet list \<Rightarrow> rfloat \<Rightarrow> rstr list" where
  "transcript_lines ss [] b = []"
| "transcript_lines ss (s # rest) b =
     (if f_le b (ts_start s) then
        let b' = f_add rnd64 (ts_start s) section_duration in
        [[], bare_header ss (ts_start s) b', [], bare_line s] @ transcript_lines ss rest b'
      else bare_line s # transcript_lines ss rest b)"

lemma snippet_lines_eq: "snippet_lines ss rest b = write_lines (transcript_lines ss rest b)"
  by (induction ss rest b rule: snippet_lines.induct) (simp_all add: written_lines Let_def)

definition markdown_lines :: "transcript_snippet list \<Rightarrow> rstr \<Rightarrow> rstr list" where
  "markdown_lines ss title =
     (let s = hd ss; b = f_add rnd64 (ts_start s) section_duration in
      (if title \<noteq> [] then [lit ''# '' @ safe_title title, []] else []) @
      [bare_header ss (ts_start s) b, []] @ transcript_lines ss ss b)"

lemma format_transcript_eq:
  "ss \<noteq> [] \<Longrightarrow> format_transcript_as_markdown ss title = write_lines (markdown_lines ss title)"
  by (cases ss)
    (simp_all add: format_transcript_as_markdown_def markdown_lines_def snippet_lines_eq written_lines Let_def)

lemma format_timestamp_chars: "c \<in> set (format_timestamp x) \<Longrightarrow> is_ascii_digit c \<or> c = 58"
  using pad2_digits by (auto simp: format_timestamp_def Let_def)

lemma header_no_newline [simp]: "10 \<notin> set (bare_header ss a b)"
  using format_timestamp_chars
  by (fastforce simp: bare_header_def format_section_range_def lit_def is_ascii_digit_def)

lemma bare_line_no_newline: "10 \<notin> set (ts_text s) \<Longrightarrow> 10 \<notin> set (bare_line s)"
  using format_timestamp_chars [of 10 "ts_start s"] set_trim [of "ts_text s"]
  by (auto simp: bare_line_def lit_def is_ascii_digit_def)

lemma safe_title_no_newline: "10 \<notin> set title \<Longrightarrow> 10 \<notin> set (safe_title title)"
  by (auto simp: safe_title_def replace_one_char split: if_splits)

lemma transcript_lines_no_newline:
  "\<forall>s \<in> set rest. 10 \<notin> set (ts_text s) \<Longrightarrow> \<forall>l \<in> set (transcript_lines ss rest b). 10 \<notin> set l"
  by (induction ss rest b rule: transcript_lines.induct) (auto simp: bare_line_no_newline Let_def)

lemma markdown_lines_no_newline:
  "ss \<noteq> [] \<Longrightarrow> 10 \<notin> set title \<Longrightarrow> \<forall>s \<in> set ss. 10 \<notin> set (ts_text s) \<Longrightarrow>
   \<forall>l \<in> set (markdown_lines ss title). 10 \<notin> set l"
  using transcript_lines_no_newline [of ss ss] safe_title_no_newline [of title]
  by (auto simp: markdown_lines_def Let_def lit_def)

text \<open>A line gives a timestamp exactly when it is that of a snippet.\<close>

lemma trim_end_append: "a \<noteq> [] \<Longrightarrow> \<not> is_whitespace (last a) \<Longrightarrow> trim_end (a @ x) = a @ trim_end x"
proof -
  assume "a \<noteq> []" "\<not> is_whitespace (last a)"
  then have "dropWhile is_whitespace (rev a) = rev a" by (simp add: dropWhile_eq_self_iff hd_rev)
  then show ?thesis by (induction x rule: rev_induct) (simp_all add: trim_end_def)
qed

lemma trim_start_hd: "s = [] \<or> \<not> is_whitespace (hd s) \<Longrightarrow> trim_start s = s"
  by (auto simp: trim_start_def dropWhile_eq_self_iff)

lemma stamp_of_line:
  assumes "whole_seconds (ts_start s) < 2 ^ 53"
  shows "parse_timestamp_prefix (trim (bare_line s)) = Some (Fin (of_nat (whole_seconds (ts_start s))))"
proof -
  have "bare_line s = ([91] @ format_timestamp (ts_start s) @ [93]) @ [32] @ trim (ts_text s)"
    by (simp add: bare_line_def lit_def)
  then have "trim (bare_line s) = ([91] @ format_timestamp (ts_start s) @ [93]) @ trim_end ([32] @ trim (ts_text s))"
    using trim_end_append [of "[91] @ format_timestamp (ts_start s) @ [93]" "[32] @ trim (ts_text s)"]
    by (simp add: trim_def trim_start_hd is_whitespace_def)
  then show ?thesis using parse_timestamp_line [OF assms] by simp
qed

lemma no_stamp_hash: "parse_timestamp_prefix (trim (35 # x)) = None"
proof -
  have "trim (35 # x) = 35 # trim_end x"
    using trim_end_append [of "[35]" x] by (simp add: trim_def trim_start_hd is_whitespace_def)
  then show ?thesis by (simp add: parse_timestamp_prefix_def strip_prefix_def starts_with_def)
qed

lemma no_stamp_lines [simp]:
  "parse_timestamp_prefix (trim (bare_header ss a b)) = None"
  "parse_timestamp_prefix (trim (lit ''# '' @ x)) = None"
  "parse_timestamp_prefix (trim []) = None"
  using no_stamp_hash by (simp_all add: bare_header_def lit_def)
    (simp add: parse_timestamp_prefix_def strip_prefix_def starts_with_def trim_def trim_start_def trim_end_def)

definition stamps_of :: "rstr list \<Rightarrow> rfloat list" where
  "stamps_of ls = List.map_filter (\<lambda>l. parse_timestamp_prefix (trim l)) ls"

lemma stamps_of_simps [simp]:
  "stamps_of [] = []" "stamps_of (ls @ ms) = stamps_of ls @ stamps_of ms"
  "stamps_of (l # ls) = (case parse_timestamp_prefix (trim l) of None \<Rightarrow> stamps_of ls | Some t \<Rightarrow> t # stamps_of ls)"
  by (simp_all add: stamps_of_def List.map_filter_def split: option.split)

definition second_of :: "transcript_snippet \<Rightarrow> rfloat" where
  "second_of s = Fin (of_nat (whole_seconds (ts_start s)))"

lemma stamps_transcript:
  "\<forall>s \<in> set rest. whole_seconds (ts_start s) < 2 ^ 53 \<Longrightarrow>
   stamps_of (transcript_lines ss rest b) = map second_of rest"
  by (induction ss rest b rule: transcript_lines.induct) (simp_all add: stamp_of_line second_of_def Let_def)

lemma stamps_markdown:
  "ss \<noteq> [] \<Longrightarrow> \<forall>s \<in> set ss. whole_seconds (ts_start s) < 2 ^ 53 \<Longrightarrow>
   stamps_of (markdown_lines ss title) = map second_of ss"
  by (simp add: markdown_lines_def Let_def stamps_transcript)

text \<open>The range is the least and the greatest stamp.\<close>

definition range_of :: "rfloat list \<Rightarrow> rfloat option \<times> rfloat option" where
  "range_of ts = fold (\<lambda>t (a, b). (narrower (\<lambda>x y. f_lt x y) t a, narrower (\<lambda>x y. f_lt y x) t b)) ts (None, None)"

lemma extract_range_eq: "extract_timestamp_range content = range_of (stamps_of (lines content))"
proof -
  have "fold (\<lambda>line (min_start, max_end).
         case parse_timestamp_prefix (trim line) of
           None \<Rightarrow> (min_start, max_end)
         | Some ts \<Rightarrow> (narrower (\<lambda>a b. f_lt a b) ts min_start, narrower (\<lambda>a b. f_lt b a) ts max_end)) ls acc =
      fold (\<lambda>t (a, b). (narrower (\<lambda>x y. f_lt x y) t a, narrower (\<lambda>x y. f_lt y x) t b)) (stamps_of ls) acc"
    for ls acc
    by (induction ls arbitrary: acc) (auto split: option.split)
  then show ?thesis by (simp add: extract_timestamp_range_def range_of_def)
qed

lemma stamps_map: "stamps_of ls = List.map_filter parse_timestamp_prefix (map trim ls)"
  by (induction ls) (simp_all add: stamps_of_def List.map_filter_simps split: option.split)

lemma fold_narrower:
  "fold (\<lambda>t (a, b). (narrower (\<lambda>x y. f_lt x y) t a, narrower (\<lambda>x y. f_lt y x) t b))
     (map (\<lambda>n. Fin (of_nat n)) ns) (Some (Fin (of_nat lo)), Some (Fin (of_nat hi))) =
   (Some (Fin (of_nat (fold min ns lo))), Some (Fin (of_nat (fold max ns hi))))"
proof (induction ns arbitrary: lo hi)
  case (Cons n ns)
  have "narrower (\<lambda>x y. f_lt x y) (Fin (of_nat n)) (Some (Fin (of_nat lo))) = Some (Fin (of_nat (min n lo)))"
    "narrower (\<lambda>x y. f_lt y x) (Fin (of_nat n)) (Some (Fin (of_nat hi))) = Some (Fin (of_nat (max n hi)))"
    by (simp_all add: narrower_def min_def max_def)
  then show ?case using Cons by simp
qed simp

lemma range_of_seconds:
  "ns \<noteq> [] \<Longrightarrow> range_of (map (\<lambda>n. Fin (of_nat n)) ns) =
     (Some (Fin (of_nat (Min (set ns)))), Some (Fin (of_nat (Max (set ns)))))"
proof (cases ns)
  case (Cons n ns')
  have "range_of (map (\<lambda>n. Fin (of_nat n)) (n # ns')) =
      (Some (Fin (of_nat (fold min ns' n))), Some (Fin (of_nat (fold max ns' n))))"
    unfolding fold_narrower [symmetric] by (simp add: range_of_def narrower_def)
  then show ?thesis by (simp only: Cons Min.set_eq_fold Max.set_eq_fold)
qed simp

text \<open>
  C8. The range read from a transcript that was written down: when neither the title nor any
  caption holds a line break and every start is below \<open>2 ^ 53\<close> seconds, it is the earliest and
  the latest start of the snippets, in whole seconds. The second figure is a start, not an end:
  how long the last caption lasts is not in the text and not in the range.
\<close>

theorem timestamps_are_read_back:
  assumes "ss \<noteq> []" "\<forall>s \<in> set ss. whole_seconds (ts_start s) < 2 ^ 53"
    and "10 \<notin> set title" "\<forall>s \<in> set ss. 10 \<notin> set (ts_text s)"
  shows "extract_timestamp_range (format_transcript_as_markdown ss title) =
    (Some (Fin (of_nat (Min (whole_seconds ` ts_start ` set ss)))),
     Some (Fin (of_nat (Max (whole_seconds ` ts_start ` set ss)))))"
proof -
  have "stamps_of (lines (format_transcript_as_markdown ss title)) = stamps_of (markdown_lines ss title)"
    unfolding format_transcript_eq [OF assms(1)] stamps_map
      lines_write_lines [OF markdown_lines_no_newline [OF assms(1,3,4)]] ..
  also have "\<dots> = map (\<lambda>n. Fin (of_nat n)) (map (\<lambda>s. whole_seconds (ts_start s)) ss)"
    using stamps_markdown [OF assms(1,2), of title] by (simp add: second_of_def o_def)
  finally show ?thesis
    using range_of_seconds [of "map (\<lambda>s. whole_seconds (ts_start s)) ss"] assms(1)
    by (simp add: extract_range_eq image_image)
qed

theorem timestamps_are_read_back_witness:
  "extract_timestamp_range (format_transcript_as_markdown
      [\<lparr>ts_text = lit ''one'', ts_start = Fin 7, ts_duration = Fin 2\<rparr>,
       \<lparr>ts_text = lit ''two'', ts_start = Fin 65, ts_duration = Fin 3\<rparr>] (lit ''Title'')) =
    (Some (Fin 7), Some (Fin 65))"
proof -
  let ?ss = "[\<lparr>ts_text = lit ''one'', ts_start = Fin 7, ts_duration = Fin 2\<rparr>,
       \<lparr>ts_text = lit ''two'', ts_start = Fin 65, ts_duration = Fin 3\<rparr>] :: transcript_snippet list"
  have secs: "whole_seconds (Fin 7) = 7" "whole_seconds (Fin 65) = 65"
    by (simp_all add: whole_seconds_def f_to_uint_def u64_max_def)
  have "10 \<notin> set (lit ''one'')" "10 \<notin> set (lit ''two'')" "10 \<notin> set (lit ''Title'')"
    by (simp_all add: lit_def)
  with timestamps_are_read_back [of ?ss "lit ''Title''"] show ?thesis by (simp add: secs)
qed

text \<open>A caption with a line break can plant a timestamp of its own.\<close>

lemma caption_can_plant_a_timestamp:
  "extract_timestamp_range (write_lines [lit ''[00:05] hello'', lit ''[99:00] forged'']) =
     (Some (Fin 5), Some (Fin 5940))"
proof -
  have "stamps_of (lines (write_lines [lit ''[00:05] hello'', lit ''[99:00] forged''])) =
      stamps_of [lit ''[00:05] hello'', lit ''[99:00] forged'']"
    unfolding stamps_map by (subst lines_write_lines) (simp_all add: lit_def)
  moreover have "format_timestamp (Fin 5) = lit ''00:05''" "format_timestamp (Fin 5940) = lit ''99:00''"
    by (simp_all add: format_timestamp_def f_to_uint_def u64_max_def pad2_def show_nat.simps lit_def Let_def)
  ultimately show ?thesis
    using stamp_of_line [of "\<lparr>ts_text = lit ''hello'', ts_start = Fin 5, ts_duration = Fin 0\<rparr>"]
      stamp_of_line [of "\<lparr>ts_text = lit ''forged'', ts_start = Fin 5940, ts_duration = Fin 0\<rparr>"]
      range_of_seconds [of "[5, 5940]"]
    by (simp add: extract_range_eq bare_line_def whole_seconds_def f_to_uint_def u64_max_def trim_plain lit_def
        is_whitespace_def)
qed

end
