(* ===== verification/Ingest_Run.thy ===== *)
theory Ingest_Run
  imports Generation Source_Events Router Ingestion_Clients Youtube Chunking
begin

text \<open>
  What an ingestion run works on (\<open>services/source_processing\<close>): the world it reads and changes,
  the services it is given, and the shape of its steps. A run is a chain of awaits, and its task
  can be dropped at any of them, by the deadline or by the shutdown; the fuel of the world is the
  number of awaits that are still reached, so that a theorem for every fuel speaks of every place
  where a run can end. A statement of the database can fail, at a fuel the environment chooses.
\<close>

subsection \<open>Failures\<close>

datatype pipeline_category = Inferred | ByShutdown

record pipeline_failure =
  pf_message :: rstr
  pf_error :: app_error
  pf_category :: pipeline_category

definition failure_new :: "rstr \<Rightarrow> app_error \<Rightarrow> pipeline_failure" where
  "failure_new message e = \<lparr>pf_message = message, pf_error = e, pf_category = Inferred\<rparr>"

definition failure_from :: "app_error \<Rightarrow> pipeline_failure" where
  "failure_from e = failure_new (app_error_text e) e"

definition shutdown_message :: rstr where
  "shutdown_message = lit ''Processing stopped because the server is shutting down''"

definition timeout_message :: rstr where
  "timeout_message =
     lit ''Processing timed out '' @ [8212] @ lit '' please try again or use a smaller document''"

definition failure_shutdown :: pipeline_failure where
  "failure_shutdown =
     \<lparr>pf_message = shutdown_message, pf_error = Internal shutdown_message, pf_category = ByShutdown\<rparr>"

definition categorize_error :: "unicode \<Rightarrow> rstr \<Rightarrow> rstr" where
  "categorize_error u message =
     (let msg = uc_lowercase u message; has = (\<lambda>s. str_contains msg (lit s)) in
      if has ''ocr'' then lit ''ocr_error''
      else if has ''pdf'' then lit ''pdf_parse_error''
      else if has ''embedding'' then lit ''embedding_error''
      else if has ''timeout'' \<or> has ''timed out'' then lit ''timeout''
      else if has ''chunk'' then lit ''chunking_error''
      else if has ''extract'' \<or> has ''scrape'' \<or> has ''firecrawl'' then lit ''extraction_error''
      else if has ''size'' \<or> has ''too large'' \<or> has ''empty'' then lit ''validation_error''
      else lit ''unknown_error'')"

definition failure_error_type :: "unicode \<Rightarrow> pipeline_failure \<Rightarrow> rstr" where
  "failure_error_type u f =
     (case pf_category f of Inferred \<Rightarrow> categorize_error u (pf_message f) | ByShutdown \<Rightarrow> lit ''shutdown'')"

text \<open>The category follows from letters, so a word that holds \<open>ocr\<close> decides it.\<close>

lemma democracy_is_an_ocr_error:
  "categorize_error ascii_tables (lit ''Failed to fetch URL: https://democracy.org timed out'') = lit ''ocr_error''"
  by (simp add: categorize_error_def ascii_tables_def ascii_lower_char_def lit_def starts_with_def Let_def)

subsection \<open>The world\<close>

datatype source_status = StPending | StProcessing | StContextualizing | StEmbedding | StReady | StError

fun source_status_str :: "source_status \<Rightarrow> rstr" where
  "source_status_str StPending = lit ''pending''"
| "source_status_str StProcessing = lit ''processing''"
| "source_status_str StContextualizing = lit ''contextualizing''"
| "source_status_str StEmbedding = lit ''embedding''"
| "source_status_str StReady = lit ''ready''"
| "source_status_str StError = lit ''error''"

definition source_status_from :: "rstr \<Rightarrow> source_status" where
  "source_status_from s =
     (if s = lit ''processing'' then StProcessing else if s = lit ''contextualizing'' then StContextualizing
      else if s = lit ''embedding'' then StEmbedding else if s = lit ''ready'' then StReady
      else if s = lit ''error'' then StError else StPending)"

lemma source_status_roundtrip: "source_status_from (source_status_str st) = st"
  by (cases st) (simp_all add: source_status_from_def lit_def)

text \<open>The columns of a source that are not in the tables of \<open>Generation\<close>.\<close>

record source_model =
  sm_notebook :: uuid
  sm_title :: rstr
  sm_type :: rstr
  sm_text :: rstr
  sm_metadata :: json

datatype ingestion_event =
  SourceProcessingCompleted uuid uuid uuid source_type nat int
| SourceProcessingFailed uuid uuid uuid source_type rstr nat
| SourceProcessingDegraded uuid uuid uuid "rstr list"

text \<open>A row of the OCR cache, unique in its hash and model.\<close>

record ocr_cache_row =
  ow_source :: "uuid option"
  ow_hash :: rstr
  ow_model :: rstr
  ow_text :: rstr
  ow_pages :: int

record ingest_world =
  iw_db :: index_db
  iw_sources :: "uuid \<Rightarrow> source_model option"
  iw_ocr_cache :: "ocr_cache_row list"
  iw_usage :: "(uuid \<times> int) list"
  iw_sent :: "(uuid \<times> source_event) list"
  iw_events :: "ingestion_event list"
  iw_fuel :: nat

text \<open>What the channels hold after a run is the fold of \<open>broadcast\<close> over the events it sent.\<close>

definition deliver :: "nat \<Rightarrow> (uuid \<times> source_event) list \<Rightarrow> channels \<Rightarrow> channels" where
  "deliver now sent chs = fold (\<lambda>(nb, ev) c. snd (broadcast now nb ev c)) sent chs"

record ingest_config =
  ic_ocr_min_text_threshold :: nat
  ic_ocr_max_pages_per_request :: nat
  ic_ocr_model :: rstr
  ic_max_source_size_bytes :: nat
  ic_max_source_words :: nat
  ic_default_locale :: "rstr option"

record youtube_service =
  ys_transcript :: "rstr \<Rightarrow> rstr \<Rightarrow> app_error + youtube_transcript"
  ys_details :: "rstr \<Rightarrow> app_error + youtube_metadata"

text \<open>
  An embedding provider: its identity and shape, and what a batch of texts is answered with; the
  number tells calls for the same texts apart.
\<close>

record embedder =
  em_name :: rstr
  em_model :: rstr
  em_dimension :: nat
  em_batch_size :: nat
  em_concurrency :: nat
  em_embed_batch :: "nat \<Rightarrow> rstr list \<Rightarrow> app_error + rfloat list list"

record ingest_env =
  ie_config :: ingest_config
  ie_unicode :: unicode
  ie_decode64 :: "rstr \<Rightarrow> rstr + nat list"
  ie_hash :: "nat list \<Rightarrow> rstr"
  ie_pdf_pages :: "nat list \<Rightarrow> rstr + rstr list"
  ie_pdf_count :: "nat list \<Rightarrow> rstr + nat"
  ie_open_zip :: "nat list \<Rightarrow> zip_archive option"
  ie_readers :: document_readers
  ie_panic :: "nat \<Rightarrow> rstr option"
  ie_patterns :: content_patterns
  ie_parse_url :: "rstr \<Rightarrow> video_url option"
  ie_scrape :: "(rstr \<Rightarrow> app_error + scrape_result) option"
  ie_youtube :: "youtube_service option"
  ie_ocr :: "(nat list \<Rightarrow> nat list option \<Rightarrow> app_error + ocr_result) option"
  ie_authorize :: "authorization_request \<Rightarrow> app_error + permit"
  ie_record_usage :: "permit \<Rightarrow> int \<Rightarrow> app_error + unit"
  ie_splitter :: splitter
  ie_embedder :: "embedder option"
  ie_debug :: "rstr \<Rightarrow> rstr"
  ie_statement_fault :: "nat \<Rightarrow> db_err option"
  ie_now :: "nat \<Rightarrow> int"
  ie_column_rejects :: "rfloat list \<Rightarrow> db_err option"
  ie_fresh :: "nat \<Rightarrow> uuid"
  ie_fk_error :: db_err
  ie_account :: uuid

subsection \<open>Steps\<close>

datatype 'a ran = Done 'a | Stopped pipeline_failure | Dropped

type_synonym 'a run = "ingest_world \<Rightarrow> 'a ran \<times> ingest_world"

definition ret :: "'a \<Rightarrow> 'a run" where "ret x w = (Done x, w)"

definition stop :: "pipeline_failure \<Rightarrow> 'a run" where "stop f w = (Stopped f, w)"

definition and_then :: "'a run \<Rightarrow> ('a \<Rightarrow> 'b run) \<Rightarrow> 'b run" where
  "and_then m f w =
     (case m w of (Done x, w') \<Rightarrow> f x w' | (Stopped e, w') \<Rightarrow> (Stopped e, w') | (Dropped, w') \<Rightarrow> (Dropped, w'))"

definition await :: "'a run \<Rightarrow> 'a run" where
  "await m w = (case iw_fuel w of 0 \<Rightarrow> (Dropped, w) | Suc n \<Rightarrow> m (w\<lparr>iw_fuel := n\<rparr>))"

definition broadcast_to :: "uuid \<Rightarrow> source_event \<Rightarrow> unit run" where
  "broadcast_to nb ev w = (Done (), w\<lparr>iw_sent := iw_sent w @ [(nb, ev)]\<rparr>)"

definition statement ::
  "ingest_env \<Rightarrow> (ingest_world \<Rightarrow> (app_error + 'a) \<times> ingest_world) \<Rightarrow> (app_error + 'a) run" where
  "statement E f =
     await (\<lambda>w. case ie_statement_fault E (iw_fuel w) of
        Some e \<Rightarrow> (Done (Inl (Database e)), w)
      | None \<Rightarrow> (case f w of (r, w') \<Rightarrow> (Done r, w')))"

definition on_index ::
  "(index_db \<Rightarrow> (app_error + 'a) \<times> index_db) \<Rightarrow> ingest_world \<Rightarrow> (app_error + 'a) \<times> ingest_world" where
  "on_index f w = (case f (iw_db w) of (r, db) \<Rightarrow> (r, w\<lparr>iw_db := db\<rparr>))"

text \<open>\<open>StageContext::stage\<close>.\<close>

definition stage :: "rstr \<Rightarrow> app_error + 'a \<Rightarrow> 'a run" where
  "stage name r =
     (case r of Inr x \<Rightarrow> ret x | Inl e \<Rightarrow> stop (failure_new (name @ lit '': '' @ app_error_text e) e))"

definition or_fail :: "app_error + 'a \<Rightarrow> 'a run" where
  "or_fail r = (case r of Inr x \<Rightarrow> ret x | Inl e \<Rightarrow> stop (failure_from e))"

text \<open>A closure of the blocking pool: its result, or that it panicked.\<close>

definition blocking :: "ingest_env \<Rightarrow> 'a \<Rightarrow> (rstr + 'a) run" where
  "blocking E x = await (\<lambda>w. (Done (case ie_panic E (iw_fuel w) of Some e \<Rightarrow> Inl e | None \<Rightarrow> Inr x), w))"

subsection \<open>Sources\<close>

definition source_missing :: "uuid \<Rightarrow> app_error" where
  "source_missing i = app_error.Source (SourceNotFound (uuid_hyphenated i))"

definition fetch_or_not_found :: "ingest_env \<Rightarrow> uuid \<Rightarrow> (app_error + source_model) run" where
  "fetch_or_not_found E i =
     statement E (\<lambda>w. (case iw_sources w i of Some s \<Rightarrow> Inr s | None \<Rightarrow> Inl (source_missing i), w))"

definition set_status :: "uuid \<Rightarrow> source_status \<Rightarrow> rstr option \<Rightarrow> index_db \<Rightarrow> index_db" where
  "set_status i st message db =
     (case db_sources db i of
        None \<Rightarrow> db
      | Some s \<Rightarrow> db\<lparr>db_sources := (db_sources db)(i \<mapsto> s\<lparr>sw_status := source_status_str st, sw_error := message\<rparr>)\<rparr>)"

definition update_source_status ::
  "ingest_env \<Rightarrow> uuid \<Rightarrow> source_status \<Rightarrow> rstr option \<Rightarrow> (app_error + unit) run" where
  "update_source_status E i st message =
     and_then (fetch_or_not_found E i)
       (\<lambda>r. case r of
          Inl e \<Rightarrow> ret (Inl e)
        | Inr _ \<Rightarrow> statement E (on_index (\<lambda>db. (Inr (), set_status i st message db))))"

definition get_source :: "ingest_env \<Rightarrow> uuid \<Rightarrow> (app_error + source_model option) run" where
  "get_source E i = statement E (\<lambda>w. (Inr (iw_sources w i), w))"

definition update_source ::
  "ingest_env \<Rightarrow> uuid \<Rightarrow> (source_model \<Rightarrow> source_model) \<Rightarrow> (app_error + unit) run" where
  "update_source E i f =
     statement E (\<lambda>w. (Inr (), w\<lparr>iw_sources := (iw_sources w)(i := map_option f (iw_sources w i))\<rparr>))"

subsection \<open>The OCR cache\<close>

definition find_by_hash ::
  "ingest_env \<Rightarrow> uuid \<Rightarrow> rstr \<Rightarrow> rstr \<Rightarrow> (app_error + (rstr \<times> int) option) run" where
  "find_by_hash E source h model =
     statement E (\<lambda>w. (Inr (map_option (\<lambda>r. (ow_text r, ow_pages r))
       (List.find (\<lambda>r. ow_source r = Some source \<and> ow_hash r = h \<and> ow_model r = model) (iw_ocr_cache w))), w))"

text \<open>
  One statement: other entries of the source are evicted, and the row is inserted, unless the
  hash and model are there already, in which case only its owner changes.
\<close>

definition store_in_cache ::
  "uuid \<Rightarrow> rstr \<Rightarrow> rstr \<Rightarrow> rstr \<Rightarrow> int \<Rightarrow> ocr_cache_row list \<Rightarrow> ocr_cache_row list" where
  "store_in_cache source h model t pages rows =
     (let kept = filter (\<lambda>r. \<not> (ow_source r = Some source \<and> (ow_hash r \<noteq> h \<or> ow_model r \<noteq> model))) rows in
      if list_ex (\<lambda>r. ow_hash r = h \<and> ow_model r = model) kept
      then map (\<lambda>r. if ow_hash r = h \<and> ow_model r = model then r\<lparr>ow_source := Some source\<rparr> else r) kept
      else kept @ [\<lparr>ow_source = Some source, ow_hash = h, ow_model = model, ow_text = t, ow_pages = pages\<rparr>])"

definition store_ocr ::
  "ingest_env \<Rightarrow> uuid \<Rightarrow> rstr \<Rightarrow> rstr \<Rightarrow> rstr \<Rightarrow> int \<Rightarrow> (app_error + unit) run" where
  "store_ocr E source h model t pages =
     statement E (\<lambda>w. (Inr (), w\<lparr>iw_ocr_cache := store_in_cache source h model t pages (iw_ocr_cache w)\<rparr>))"

definition purge_unowned :: "ocr_cache_row list \<Rightarrow> nat \<times> ocr_cache_row list" where
  "purge_unowned rows =
     (length (filter (\<lambda>r. ow_source r = None) rows), filter (\<lambda>r. ow_source r \<noteq> None) rows)"

subsection \<open>What every step of a run keeps\<close>

text \<open>
  A relation between the world before and after is kept by a run when every step keeps it; the
  locale asks of the relation what makes the chain of steps carry it, and the lemmas inside give
  the rule for each way of making a run.
\<close>

definition run_keeps :: "(ingest_world \<Rightarrow> ingest_world \<Rightarrow> bool) \<Rightarrow> 'a run \<Rightarrow> bool" where
  "run_keeps R m \<longleftrightarrow> (\<forall>w. R w (snd (m w)))"

locale step_relation =
  fixes R :: "ingest_world \<Rightarrow> ingest_world \<Rightarrow> bool"
  assumes refl: "R w w"
    and trans: "R a b \<Longrightarrow> R b c \<Longrightarrow> R a c"
    and fuel: "R w (w\<lparr>iw_fuel := n\<rparr>)"
begin

lemma keeps_ret: "run_keeps R (ret x)"
  by (simp add: run_keeps_def ret_def refl)

lemma keeps_stop: "run_keeps R (stop f)"
  by (simp add: run_keeps_def stop_def refl)

lemma keeps_and_then:
  "run_keeps R m \<Longrightarrow> (\<And>x. run_keeps R (f x)) \<Longrightarrow> run_keeps R (and_then m f)"
  unfolding run_keeps_def
proof
  fix w
  assume m: "\<forall>w. R w (snd (m w))" and f: "\<And>x. \<forall>w. R w (snd (f x w))"
  obtain r w' where mw: "m w = (r, w')" by (cases "m w")
  then have a: "R w w'" using m by (metis snd_conv)
  show "R w (snd (and_then m f w))"
  proof (cases r)
    case (Done x)
    then show ?thesis using trans [OF a] f [of x] mw by (simp add: and_then_def)
  qed (simp_all add: and_then_def mw a)
qed

lemma keeps_await: "run_keeps R m \<Longrightarrow> run_keeps R (await m)"
  by (auto simp: run_keeps_def await_def refl intro: trans [OF fuel] split: nat.split)

lemma keeps_statement:
  "(\<And>w. R w (snd (f w))) \<Longrightarrow> run_keeps R (statement E f)"
  unfolding statement_def
proof (rule keeps_await, unfold run_keeps_def, rule allI)
  fix w
  assume f: "\<And>w. R w (snd (f w))"
  show "R w (snd (case ie_statement_fault E (iw_fuel w) of
      None \<Rightarrow> (case f w of (r, w') \<Rightarrow> (Done r, w')) | Some e \<Rightarrow> (Done (Inl (Database e)), w)))"
    using f [of w] by (cases "ie_statement_fault E (iw_fuel w)") (simp_all add: refl split_beta)
qed

lemma keeps_stage: "run_keeps R (stage name r)"
  by (simp add: stage_def keeps_ret keeps_stop split: sum.split)

lemma keeps_or_fail: "run_keeps R (or_fail r)"
  by (simp add: or_fail_def keeps_ret keeps_stop split: sum.split)

lemma keeps_blocking: "run_keeps R (blocking E x)"
  unfolding blocking_def by (rule keeps_await) (simp add: run_keeps_def refl)

lemmas keeps_intros = keeps_ret keeps_stop keeps_and_then keeps_await keeps_stage keeps_or_fail keeps_blocking

end

lemma run_keepsD: "run_keeps R m \<Longrightarrow> m w = (r, w') \<Longrightarrow> R w w'"
  by (auto simp: run_keeps_def dest: spec [of _ w])

text \<open>
  A step is quiet when it changes neither the index nor what was reported: it sends no event that
  ends the processing of a source.
\<close>

fun is_terminal_source_event :: "source_event \<Rightarrow> bool" where
  "is_terminal_source_event (SrcReady _ _ _) = True"
| "is_terminal_source_event (SrcError _ _) = True"
| "is_terminal_source_event _ = False"

definition sends_progress :: "ingest_world \<Rightarrow> ingest_world \<Rightarrow> bool" where
  "sends_progress w w' \<longleftrightarrow>
     iw_events w' = iw_events w \<and>
     (\<exists>evs. iw_sent w' = iw_sent w @ evs \<and> list_all (\<lambda>(nb, ev). \<not> is_terminal_source_event ev) evs)"

definition quiet :: "ingest_world \<Rightarrow> ingest_world \<Rightarrow> bool" where
  "quiet w w' \<longleftrightarrow> iw_db w' = iw_db w \<and> sends_progress w w'"

lemma sends_progress_refl: "sends_progress w w"
  by (simp add: sends_progress_def)

lemma sends_progress_trans: "sends_progress a b \<Longrightarrow> sends_progress b c \<Longrightarrow> sends_progress a c"
  unfolding sends_progress_def by (metis append.assoc list_all_append)

interpretation qt: step_relation quiet
  by unfold_locales
    (auto simp: quiet_def sends_progress_refl intro: sends_progress_trans, simp add: sends_progress_def)

lemma quiet_broadcast: "\<not> is_terminal_source_event ev \<Longrightarrow> run_keeps quiet (broadcast_to nb ev)"
  by (simp add: run_keeps_def broadcast_to_def quiet_def sends_progress_def)

lemma quiet_update_source: "run_keeps quiet (update_source E i f)"
  unfolding update_source_def
  by (rule qt.keeps_statement) (simp add: quiet_def sends_progress_def)

lemma quiet_find_by_hash: "run_keeps quiet (find_by_hash E i h m)"
  unfolding find_by_hash_def by (rule qt.keeps_statement) (simp add: quiet_def sends_progress_def)

lemma quiet_store_ocr: "run_keeps quiet (store_ocr E i h m t n)"
  unfolding store_ocr_def by (rule qt.keeps_statement) (simp add: quiet_def sends_progress_def)

lemmas quiet_intros = qt.keeps_intros quiet_broadcast quiet_update_source quiet_find_by_hash quiet_store_ocr

subsection \<open>One owner for each entry of the OCR cache\<close>

definition cache_keys :: "ocr_cache_row list \<Rightarrow> (rstr \<times> rstr) list" where
  "cache_keys rows = map (\<lambda>r. (ow_hash r, ow_model r)) rows"

definition evict_others :: "uuid \<Rightarrow> rstr \<Rightarrow> rstr \<Rightarrow> ocr_cache_row list \<Rightarrow> ocr_cache_row list" where
  "evict_others i h m rows =
     filter (\<lambda>r. \<not> (ow_source r = Some i \<and> (ow_hash r \<noteq> h \<or> ow_model r \<noteq> m))) rows"

definition holds_key :: "rstr \<Rightarrow> rstr \<Rightarrow> ocr_cache_row \<Rightarrow> bool" where
  "holds_key h m r \<longleftrightarrow> ow_hash r = h \<and> ow_model r = m"

lemma store_in_cache_eq:
  "store_in_cache i h m t n rows =
     (if list_ex (holds_key h m) (evict_others i h m rows)
      then map (\<lambda>r. if holds_key h m r then r\<lparr>ow_source := Some i\<rparr> else r) (evict_others i h m rows)
      else evict_others i h m rows @
        [\<lparr>ow_source = Some i, ow_hash = h, ow_model = m, ow_text = t, ow_pages = n\<rparr>])"
  by (simp add: store_in_cache_def evict_others_def holds_key_def [abs_def] Let_def)

lemma in_evict_others: "r \<in> set (evict_others i h m rows) \<Longrightarrow> ow_source r = Some i \<Longrightarrow> holds_key h m r"
  by (auto simp: evict_others_def holds_key_def)

lemma store_in_cache_keys:
  assumes "distinct (cache_keys rows)"
  shows "distinct (cache_keys (store_in_cache i h m t n rows))"
proof -
  have d: "distinct (cache_keys (evict_others i h m rows))"
    using assms unfolding cache_keys_def evict_others_def by (rule distinct_map_filter)
  have same: "cache_keys (map (\<lambda>r. if P r then r\<lparr>ow_source := s\<rparr> else r) kept) = cache_keys kept" for P s kept
    by (simp add: cache_keys_def)
  show ?thesis
  proof (cases "list_ex (holds_key h m) (evict_others i h m rows)")
    case True
    then show ?thesis using d by (simp add: store_in_cache_eq same)
  next
    case False
    then have "(h, m) \<notin> set (cache_keys (evict_others i h m rows))"
      by (auto simp: cache_keys_def list_ex_iff holds_key_def)
    with d False show ?thesis by (simp add: store_in_cache_eq) (simp add: cache_keys_def)
  qed
qed

text \<open>After a store the source owns the entry, and no other entry.\<close>

lemma store_in_cache_owner:
  "\<exists>r \<in> set (store_in_cache i h m t n rows). ow_source r = Some i \<and> holds_key h m r"
  "r \<in> set (store_in_cache i h m t n rows) \<Longrightarrow> ow_source r = Some i \<Longrightarrow> holds_key h m r"
proof -
  show "\<exists>r \<in> set (store_in_cache i h m t n rows). ow_source r = Some i \<and> holds_key h m r"
  proof (cases "list_ex (holds_key h m) (evict_others i h m rows)")
    case True
    then obtain r where r: "r \<in> set (evict_others i h m rows)" "holds_key h m r" by (auto simp: list_ex_iff)
    then have "r\<lparr>ow_source := Some i\<rparr> \<in> set (store_in_cache i h m t n rows)"
      using True by (auto simp: store_in_cache_eq)
    moreover have "holds_key h m (r\<lparr>ow_source := Some i\<rparr>)" using r by (simp add: holds_key_def)
    moreover have "ow_source (r\<lparr>ow_source := Some i\<rparr>) = Some i" by simp
    ultimately show ?thesis by blast
  qed (simp add: store_in_cache_eq, simp add: holds_key_def)
  show "r \<in> set (store_in_cache i h m t n rows) \<Longrightarrow> ow_source r = Some i \<Longrightarrow> holds_key h m r"
    using in_evict_others [of r i h m rows]
    by (auto simp: store_in_cache_eq split: if_splits) (auto simp: holds_key_def)
qed

text \<open>
  The entry of a document that two sources share belongs to the one that stored last: the other
  does not find it again.
\<close>

lemma shared_document_loses_its_entry:
  assumes "distinct (cache_keys rows)" "i \<noteq> j" "r \<in> set (store_in_cache j h m t n rows)" "holds_key h m r"
  shows "ow_source r \<noteq> Some i"
proof (cases "list_ex (holds_key h m) (evict_others j h m rows)")
  case True
  then obtain r' where "r' \<in> set (evict_others j h m rows)"
      "r = (if holds_key h m r' then r'\<lparr>ow_source := Some j\<rparr> else r')"
    using assms(3) by (auto simp: store_in_cache_eq)
  then show ?thesis using assms(2,4) by (auto split: if_splits)
next
  case False
  then have "r \<notin> set (evict_others j h m rows)" using assms(4) by (auto simp: list_ex_iff)
  then show ?thesis using assms(2,3) False by (simp add: store_in_cache_eq)
qed

end
