(* ===== verification/Source_Extraction.thy ===== *)
theory Source_Extraction
  imports Ingest_Run
begin

text \<open>
  \<open>services/source_processing/extraction.rs\<close>: a stored source becomes text, with the contract it
  is chunked under and the services that were degraded. Each format is one definition, the scanned
  PDF in the parts the code has: what needs OCR, the permit, the cache, the call and the merge of
  its pages. Logs and durations are left out. The lemmas show that a run in this stage changes
  neither the index nor the status of a source, that pages keep their numbers through OCR and
  through the cache, and what is charged.
\<close>

record extracted =
  ex_text :: source_text
  ex_chunking_type :: source_type
  ex_degraded :: "rstr list"
  ex_video_id :: "rstr option"

definition plain_extract :: "rstr \<Rightarrow> source_type \<Rightarrow> extracted" where
  "plain_extract t ty =
     \<lparr>ex_text = single_page t, ex_chunking_type = ty, ex_degraded = [], ex_video_id = None\<rparr>"

subsection \<open>Pages\<close>

text \<open>\<open>resize_with\<close> to the index when it lies beyond the pages there are.\<close>

definition merge_ocr_page :: "ocr_page \<Rightarrow> rstr list \<Rightarrow> rstr list" where
  "merge_ocr_page p segments =
     (let grown = (if length segments \<le> oc_index p
                   then segments @ replicate (oc_index p + 1 - length segments) [] else segments)
      in grown[oc_index p := oc_markdown p])"

definition merge_ocr_pages :: "rstr list \<Rightarrow> ocr_page list \<Rightarrow> rstr list" where
  "merge_ocr_pages segments pages = fold merge_ocr_page pages segments"

definition ocr_cache_schema :: rstr where "ocr_cache_schema = lit ''pages-v1''"

definition ocr_cache_key :: "rstr \<Rightarrow> rstr" where
  "ocr_cache_key model = model @ [35] @ ocr_cache_schema"

definition page_break :: uchar where "page_break = 12"

definition encode_ocr_pages :: "rstr list \<Rightarrow> rstr" where
  "encode_ocr_pages pages = join [page_break] (map (str_replace [page_break] []) pages)"

definition decode_ocr_pages :: "rstr \<Rightarrow> rstr list" where
  "decode_ocr_pages cached = split_on (\<lambda>c. c = page_break) cached"

definition pdf_magic :: "nat list" where "pdf_magic = [37, 80, 68, 70, 45]"

definition validate_pdf_magic_bytes :: "nat list \<Rightarrow> app_error + unit" where
  "validate_pdf_magic_bytes bytes =
     (if length bytes < length pdf_magic \<or> take (length pdf_magic) bytes \<noteq> pdf_magic then
        Inl (Validation (lit ''Invalid PDF file: does not start with %PDF- header''))
      else Inr ())"

definition validate_content_limits :: "ingest_config \<Rightarrow> source_text \<Rightarrow> app_error + unit" where
  "validate_content_limits cfg content =
     (let text = joined_text content in
      if ic_max_source_size_bytes cfg < str_len text then
        Inl (Validation (lit ''Source content is too large to process''))
      else if ic_max_source_words cfg < length (split_whitespace text) then
        Inl (Validation (lit ''Source has too many words to process''))
      else Inr ())"

subsection \<open>Web, Word, EPUB\<close>

definition metadata_url :: "source_model \<Rightarrow> rstr option" where
  "metadata_url s = json_str_of (sm_metadata s) (lit ''url'')"

definition extract_web :: "ingest_env \<Rightarrow> source_model \<Rightarrow> rstr run" where
  "extract_web E source =
     (case metadata_url source of
        None \<Rightarrow> stop (failure_from (Internal (lit ''Missing URL in metadata'')))
      | Some url \<Rightarrow>
          (case ie_scrape E of
             None \<Rightarrow> stop (failure_from (Internal
               (lit ''Firecrawl client not configured '' @ [8212] @ lit '' cannot scrape URLs'')))
           | Some scrape \<Rightarrow>
               await (and_then (stage (lit ''Failed to fetch URL'') (scrape url))
                 (\<lambda>r. ret (clean_scraped_content (ie_patterns E) (sr_content r))))))"

definition decode_document :: "ingest_env \<Rightarrow> string \<Rightarrow> source_model \<Rightarrow> app_error + nat list" where
  "decode_document E format source =
     (case ie_decode64 E (sm_text source) of
        Inl e \<Rightarrow> Inl (Internal (lit ''Failed to decode '' @ lit format @ lit '': '' @ e))
      | Inr bytes \<Rightarrow> Inr bytes)"

definition joined :: "string \<Rightarrow> rstr + 'a \<Rightarrow> 'a run" where
  "joined format r =
     stage (lit format @ lit '' extraction did not complete'')
       (case r of Inl e \<Rightarrow> Inl (Internal (lit format @ lit '' task panicked: '' @ e)) | Inr x \<Rightarrow> Inr x)"

definition extract_docx :: "ingest_env \<Rightarrow> source_model \<Rightarrow> rstr run" where
  "extract_docx E source =
     and_then (stage (lit ''Failed to decode DOCX'') (decode_document E ''DOCX'' source)) (\<lambda>bytes.
     and_then (blocking E (extract_docx_text (dr_xml (ie_readers E)) (ie_open_zip E bytes))) (\<lambda>r.
     and_then (joined ''DOCX'' r) (\<lambda>parsed.
     stage (lit ''Failed to extract DOCX text'') parsed)))"

definition epub_metadata_json :: "epub_metadata \<Rightarrow> json" where
  "epub_metadata_json m = jobj [(''title'', JStr (em_title m)), (''author'', JStr (em_author m))]"

definition extract_epub :: "ingest_env \<Rightarrow> uuid \<Rightarrow> source_model \<Rightarrow> rstr run" where
  "extract_epub E i source =
     and_then (stage (lit ''Failed to decode EPUB'') (decode_document E ''EPUB'' source)) (\<lambda>bytes.
     and_then (blocking E (extract_epub_text (ie_readers E) (ie_open_zip E bytes))) (\<lambda>r.
     and_then (joined ''EPUB'' r) (\<lambda>parsed.
     and_then (stage (lit ''Failed to extract EPUB text'') parsed) (\<lambda>(text, m).
     and_then (update_source E i (\<lambda>s. s\<lparr>sm_metadata := epub_metadata_json m\<rparr>)) (\<lambda>_.
     ret text)))))"

subsection \<open>YouTube\<close>

definition youtube_metadata_json ::
  "rstr \<Rightarrow> rstr \<Rightarrow> youtube_transcript \<Rightarrow> youtube_metadata \<Rightarrow> json" where
  "youtube_metadata_json url vid t d =
     jobj ([(''url'', JStr url), (''video_id'', JStr vid), (''video_title'', JStr (ym_title d)),
            (''channel_name'', JStr (ym_author d)), (''duration_seconds'', JNat (ym_duration_seconds d)),
            (''language_code'', JStr (yt_language_code t)),
            (''is_generated_captions'', JBool (yt_is_generated t))] @
           opt_field ''thumbnail_url'' JStr (ym_thumbnail_url d))"

definition describe_video ::
  "ingest_env \<Rightarrow> uuid \<Rightarrow> rstr \<Rightarrow> rstr \<Rightarrow> youtube_transcript \<Rightarrow> youtube_metadata option \<Rightarrow> unit run" where
  "describe_video E i url vid t details =
     (case details of
        None \<Rightarrow> ret ()
      | Some d \<Rightarrow>
          and_then (update_source E i (\<lambda>s. s\<lparr>sm_metadata := youtube_metadata_json url vid t d,
              sm_title := (if ym_title d = [] then sm_title s else ym_title d)\<rparr>)) (\<lambda>_. ret ()))"

definition extract_youtube :: "ingest_env \<Rightarrow> uuid \<Rightarrow> source_model \<Rightarrow> (rstr \<times> rstr) run" where
  "extract_youtube E i source =
     and_then (stage (lit ''Failed to read YouTube metadata'')
       (case metadata_url source of
          None \<Rightarrow> Inl (Internal (lit ''Missing URL in YouTube source metadata'')) | Some u \<Rightarrow> Inr u)) (\<lambda>url.
     and_then (stage (lit ''Failed to read YouTube video id'')
       (extract_youtube_video_id (ie_parse_url E) url)) (\<lambda>vid.
     case ie_youtube E of
       None \<Rightarrow> stop (failure_from (Internal (lit ''YouTube client not configured'')))
     | Some client \<Rightarrow>
         let locale_code = (case ic_default_locale (ie_config E) of Some l \<Rightarrow> l | None \<Rightarrow> lit ''en'');
             details = (case ys_details client vid of Inr d \<Rightarrow> Some d | Inl _ \<Rightarrow> None)
         in await (
            and_then (stage (lit ''Failed to fetch YouTube transcript'') (ys_transcript client vid locale_code))
            (\<lambda>t.
            and_then (describe_video E i url vid t details) (\<lambda>_.
            ret (format_transcript_as_markdown (yt_snippets t) (case details of Some d \<Rightarrow> ym_title d | None \<Rightarrow> []),
              vid))))))"

subsection \<open>PDF\<close>

text \<open>What the two blocking closures found, with the pages the count knows of and the text lacks.\<close>

definition pad_pages :: "nat \<Rightarrow> rstr list \<Rightarrow> rstr list" where
  "pad_pages n pages = (if length pages < n then pages @ replicate (n - length pages) [] else pages)"

record pdf_pages =
  pp_segments :: "rstr list"
  pp_full_document :: bool
  pp_ocr_pages :: "nat list"

definition pdf_found :: "ingest_config \<Rightarrow> rstr list \<Rightarrow> nat \<Rightarrow> pdf_pages" where
  "pdf_found cfg segments n =
     (let padded = pad_pages n segments in
      \<lparr>pp_segments = padded, pp_full_document = (segments = [] \<and> n = 0),
       pp_ocr_pages = detect_ocr_pages padded (ic_ocr_min_text_threshold cfg)\<rparr>)"

definition pdf_read ::
  "ingest_env \<Rightarrow> nat list \<Rightarrow> rstr option \<Rightarrow> rstr option \<Rightarrow> pdf_pages run" where
  "pdf_read E bytes text_panic count_panic =
     and_then (or_fail
       (case text_panic of
          Some e \<Rightarrow> Inl (Internal (lit ''PDF text extraction panicked: '' @ e))
        | None \<Rightarrow>
            (case extract_pdf_text_by_pages (ie_pdf_pages E) bytes of
               Inl e \<Rightarrow> Inl (Internal (lit ''Failed to extract PDF text: '' @ app_error_text e))
             | Inr ps \<Rightarrow> Inr ps))) (\<lambda>segments.
     and_then (or_fail
       (case count_panic of
          Some e \<Rightarrow> Inl (Internal (lit ''PDF page count task panicked: '' @ e))
        | None \<Rightarrow> Inr (get_pdf_page_count (ie_pdf_count E) bytes))) (\<lambda>n.
     ret (pdf_found (ie_config E) segments (case n of Inr k \<Rightarrow> k | Inl _ \<Rightarrow> length segments))))"

text \<open>The two closures run at once, and each may panic.\<close>

definition read_pdf :: "ingest_env \<Rightarrow> nat list \<Rightarrow> pdf_pages run" where
  "read_pdf E bytes =
     await (\<lambda>w. pdf_read E bytes (ie_panic E (2 * iw_fuel w)) (ie_panic E (2 * iw_fuel w + 1)) w)"

definition native_is_empty :: "rstr list \<Rightarrow> bool" where
  "native_is_empty segments \<longleftrightarrow> list_all (\<lambda>p. trim p = []) segments"

type_synonym pdf_content = "rstr list \<times> source_type \<times> rstr list"

definition degraded_pdf :: "rstr list \<Rightarrow> pdf_content" where
  "degraded_pdf segments = (segments, Pdf, [lit ''ocr''])"

definition i32_of_nat :: "nat \<Rightarrow> int" where "i32_of_nat n = int (min n i32_max)"

text \<open>The pages that are asked for, at most as many as one request takes, and the units to authorize.\<close>

definition requested_pages :: "ingest_config \<Rightarrow> pdf_pages \<Rightarrow> nat list" where
  "requested_pages cfg p =
     (if pp_full_document p then pp_ocr_pages p
      else take (ic_ocr_max_pages_per_request cfg) (pp_ocr_pages p))"

definition pages_needed :: "ingest_config \<Rightarrow> pdf_pages \<Rightarrow> int" where
  "pages_needed cfg p =
     (if pp_full_document p then i32_of_nat (ic_ocr_max_pages_per_request cfg)
      else i32_of_nat (length (requested_pages cfg p)))"

definition ocr_merged :: "pdf_pages \<Rightarrow> ocr_result \<Rightarrow> rstr list" where
  "ocr_merged p r =
     (if pp_full_document p then map oc_markdown (or_pages r)
      else merge_ocr_pages (pp_segments p) (or_pages r))"

definition cache_worthy :: "int \<Rightarrow> rstr list \<Rightarrow> bool" where
  "cache_worthy processed pages \<longleftrightarrow> 0 < processed \<and> 10 \<le> sum_list (map (\<lambda>p. str_len (trim p)) pages)"

definition try_i32 :: "nat \<Rightarrow> int option" where
  "try_i32 n = (if n \<le> i32_max then Some (int n) else None)"

definition charge_pages :: "ingest_env \<Rightarrow> permit \<Rightarrow> int \<Rightarrow> unit run" where
  "charge_pages E p units =
     await (\<lambda>w. case ie_record_usage E p units of
        Inr _ \<Rightarrow> (Done (), w\<lparr>iw_usage := iw_usage w @ [(pm_operation p, units)]\<rparr>)
      | Inl _ \<Rightarrow> (Done (), w))"

definition ocr_answered ::
  "ingest_env \<Rightarrow> uuid \<Rightarrow> uuid \<Rightarrow> nat list \<Rightarrow> pdf_pages \<Rightarrow> permit \<Rightarrow> nat \<Rightarrow> ocr_result \<Rightarrow> pdf_content run" where
  "ocr_answered E i nb bytes p ocr_permit total_pages r =
     (let cfg = ie_config E;
          processed = clamp_units ocr_permit
            (case try_i32 (or_pages_processed r) of Some n \<Rightarrow> n | None \<Rightarrow> pages_needed cfg p);
          merged = ocr_merged p r
      in and_then (charge_pages E ocr_permit processed) (\<lambda>_.
         and_then (if cache_worthy processed merged
                   then and_then (store_ocr E i (ie_hash E bytes) (ocr_cache_key (ic_ocr_model cfg))
                          (encode_ocr_pages merged) processed) (\<lambda>_. ret ())
                   else ret ()) (\<lambda>_.
         and_then (broadcast_to nb (SrcOcrCompleted i
           (if pp_full_document p then or_pages_processed r
            else min (or_pages_processed r) total_pages))) (\<lambda>_.
         ret (merged, Markdown, [])))))"

definition call_ocr ::
  "ingest_env \<Rightarrow> (nat list \<Rightarrow> nat list option \<Rightarrow> app_error + ocr_result) \<Rightarrow> uuid \<Rightarrow> uuid \<Rightarrow> nat list \<Rightarrow>
   pdf_pages \<Rightarrow> permit \<Rightarrow> pdf_content run" where
  "call_ocr E ocr i nb bytes p ocr_permit =
     (let selection = (if pp_full_document p then None else Some (requested_pages (ie_config E) p));
          total_pages = (case selection of None \<Rightarrow> 0 | Some ps \<Rightarrow> clamp_u32 (length ps))
      in and_then (broadcast_to nb (SrcOcrStarted i total_pages)) (\<lambda>_.
         await (case ocr bytes selection of
            Inl e \<Rightarrow> stop (failure_new
              (lit ''OCR processing failed. Please try again or upload a clearer scan.'') e)
          | Inr r \<Rightarrow> ocr_answered E i nb bytes p ocr_permit total_pages r)))"

definition ocr_refused :: "app_error \<Rightarrow> pdf_pages \<Rightarrow> pdf_content run" where
  "ocr_refused e p =
     (if native_is_empty (pp_segments p) then
        stop (failure_new
          (case e of
             Forbidden _ \<Rightarrow> app_error_text e
           | _ \<Rightarrow> lit ''OCR processing is currently unavailable. Please try again.'') e)
      else ret (degraded_pdf (pp_segments p)))"

definition ocr_request_of :: "ingest_env \<Rightarrow> uuid \<Rightarrow> pdf_pages \<Rightarrow> authorization_request" where
  "ocr_request_of E i p =
     \<lparr>ar_account = ie_account E, ar_operation = ProcessOcrPages (pages_needed (ie_config E) p),
      ar_operation_id = i\<rparr>"

definition run_ocr ::
  "ingest_env \<Rightarrow> (nat list \<Rightarrow> nat list option \<Rightarrow> app_error + ocr_result) \<Rightarrow> uuid \<Rightarrow> uuid \<Rightarrow> nat list \<Rightarrow>
   pdf_pages \<Rightarrow> pdf_content run" where
  "run_ocr E ocr i nb bytes p =
     await (case ie_authorize E (ocr_request_of E i p) of
        Inl e \<Rightarrow> ocr_refused e p
      | Inr ocr_permit \<Rightarrow>
          and_then (find_by_hash E i (ie_hash E bytes) (ocr_cache_key (ic_ocr_model (ie_config E)))) (\<lambda>r.
          case (case r of Inr hit \<Rightarrow> hit | Inl _ \<Rightarrow> None) of
            Some (cached_text, _) \<Rightarrow>
              and_then (broadcast_to nb (SrcOcrCacheHit i)) (\<lambda>_.
              ret (decode_ocr_pages cached_text, Markdown, []))
          | None \<Rightarrow> call_ocr E ocr i nb bytes p ocr_permit))"

definition scanned_message :: rstr where
  "scanned_message = lit ''This PDF contains scanned pages that require OCR. Upgrade to Pro to process scanned documents.''"

definition pdf_content_of :: "ingest_env \<Rightarrow> uuid \<Rightarrow> uuid \<Rightarrow> nat list \<Rightarrow> pdf_pages \<Rightarrow> pdf_content run" where
  "pdf_content_of E i nb bytes p =
     (if pp_ocr_pages p = [] \<and> \<not> pp_full_document p then ret (pp_segments p, Pdf, [])
      else case ie_ocr E of
        Some ocr \<Rightarrow> run_ocr E ocr i nb bytes p
      | None \<Rightarrow>
          if native_is_empty (pp_segments p) then stop (failure_new scanned_message (Validation scanned_message))
          else ret (degraded_pdf (pp_segments p)))"

definition extract_pdf :: "ingest_env \<Rightarrow> uuid \<Rightarrow> uuid \<Rightarrow> source_model \<Rightarrow> pdf_content run" where
  "extract_pdf E i nb source =
     and_then (or_fail (decode_document E ''PDF'' source)) (\<lambda>bytes.
     and_then (or_fail (validate_pdf_magic_bytes bytes)) (\<lambda>_.
     and_then (read_pdf E bytes) (\<lambda>p.
     pdf_content_of E i nb bytes p)))"

subsection \<open>The dispatch\<close>

definition extract_content ::
  "ingest_env \<Rightarrow> uuid \<Rightarrow> uuid \<Rightarrow> source_type \<Rightarrow> source_model \<Rightarrow> extracted run" where
  "extract_content E i nb ty source =
     (case ty of
        Web \<Rightarrow> and_then (extract_web E source) (\<lambda>t. ret (plain_extract t ty))
      | Pdf \<Rightarrow> and_then (extract_pdf E i nb source) (\<lambda>(pages, chunking_type, degraded).
          ret \<lparr>ex_text = paginated_text pages, ex_chunking_type = chunking_type, ex_degraded = degraded,
               ex_video_id = None\<rparr>)
      | Docx \<Rightarrow> and_then (extract_docx E source) (\<lambda>t. ret (plain_extract t ty))
      | Epub \<Rightarrow> and_then (extract_epub E i source) (\<lambda>t. ret (plain_extract t ty))
      | Youtube \<Rightarrow> and_then (extract_youtube E i source) (\<lambda>(t, vid).
          ret \<lparr>ex_text = single_page t, ex_chunking_type = ty, ex_degraded = [], ex_video_id = Some vid\<rparr>)
      | _ \<Rightarrow> ret (plain_extract (sm_text source) ty))"

subsection \<open>Extraction is quiet\<close>

lemma quiet_charge: "run_keeps quiet (charge_pages E p n)"
  unfolding charge_pages_def
  by (rule qt.keeps_await) (auto simp: run_keeps_def quiet_def sends_progress_def split: sum.split)

lemma quiet_ocr_answered: "run_keeps quiet (ocr_answered E i nb bytes p ocr_permit n r)"
  unfolding ocr_answered_def Let_def by (auto intro!: quiet_intros quiet_charge)

lemma quiet_call_ocr: "run_keeps quiet (call_ocr E ocr i nb bytes p ocr_permit)"
  unfolding call_ocr_def Let_def by (auto intro!: quiet_intros quiet_ocr_answered split: sum.split)

lemma quiet_run_ocr: "run_keeps quiet (run_ocr E ocr i nb bytes p)"
  unfolding run_ocr_def ocr_refused_def
  by (auto intro!: quiet_intros quiet_call_ocr split: sum.split option.split)

lemma keeps_choice: "(\<And>x y. run_keeps R (m x y)) \<Longrightarrow> run_keeps R (\<lambda>w. m (f w) (g w) w)"
  by (simp add: run_keeps_def)

lemma quiet_read_pdf: "run_keeps quiet (read_pdf E bytes)"
  unfolding read_pdf_def
  by (rule qt.keeps_await, rule keeps_choice) (unfold pdf_read_def, intro quiet_intros)

lemma quiet_extract_pdf: "run_keeps quiet (extract_pdf E i nb source)"
  unfolding extract_pdf_def pdf_content_of_def
  by (auto intro!: quiet_intros quiet_read_pdf quiet_run_ocr split: option.split)

lemma quiet_describe_video: "run_keeps quiet (describe_video E i url vid t details)"
  unfolding describe_video_def by (auto intro!: quiet_intros split: option.split)

lemma quiet_extract_youtube: "run_keeps quiet (extract_youtube E i source)"
  unfolding extract_youtube_def Let_def
  by (auto intro!: quiet_intros quiet_describe_video split: option.split)

lemma quiet_extract_epub: "run_keeps quiet (extract_epub E i source)"
  unfolding extract_epub_def joined_def by (auto intro!: quiet_intros split: prod.split)

lemma quiet_extract_docx: "run_keeps quiet (extract_docx E source)"
  unfolding extract_docx_def joined_def by (intro quiet_intros)

lemma quiet_extract_web: "run_keeps quiet (extract_web E source)"
  unfolding extract_web_def by (auto intro!: quiet_intros split: option.split)

lemma extraction_is_quiet: "run_keeps quiet (extract_content E i nb ty source)"
  unfolding extract_content_def
  by (auto intro!: quiet_intros quiet_extract_pdf quiet_extract_youtube quiet_extract_epub quiet_extract_docx
      quiet_extract_web split: source_type.split prod.split)

subsection \<open>Pages keep their numbers\<close>

lemma length_merge_ocr_page: "length (merge_ocr_page p segs) = max (length segs) (oc_index p + 1)"
  by (simp add: merge_ocr_page_def Let_def)

lemma nth_merge_ocr_page:
  "k < max (length segs) (oc_index p + 1) \<Longrightarrow>
   merge_ocr_page p segs ! k = (if k = oc_index p then oc_markdown p else if k < length segs then segs ! k else [])"
  by (auto simp: merge_ocr_page_def Let_def nth_append nth_list_update)

lemma length_merge_grows: "length segs \<le> length (merge_ocr_pages segs pages)"
proof (induction pages arbitrary: segs)
  case (Cons p pages)
  have "length segs \<le> length (merge_ocr_page p segs)" by (simp add: length_merge_ocr_page)
  also have "\<dots> \<le> length (merge_ocr_pages (merge_ocr_page p segs) pages)" by (rule Cons)
  finally show ?case by (simp add: merge_ocr_pages_def)
qed (simp add: merge_ocr_pages_def)

lemma length_merge_covers: "p \<in> set pages \<Longrightarrow> oc_index p < length (merge_ocr_pages segs pages)"
proof (induction pages arbitrary: segs)
  case (Cons q pages)
  show ?case
  proof (cases "p = q")
    case True
    have "oc_index q < length (merge_ocr_page q segs)" by (simp add: length_merge_ocr_page)
    also have "\<dots> \<le> length (merge_ocr_pages (merge_ocr_page q segs) pages)" by (rule length_merge_grows)
    finally show ?thesis using True by (simp add: merge_ocr_pages_def)
  next
    case False
    then show ?thesis using Cons by (simp add: merge_ocr_pages_def)
  qed
qed simp

text \<open>A page the service answered for is what it answered; every other page keeps its native text.\<close>

lemma merged_other_page:
  "k < length segs \<Longrightarrow> k \<notin> oc_index ` set pages \<Longrightarrow> merge_ocr_pages segs pages ! k = segs ! k"
  unfolding merge_ocr_pages_def
  by (induction pages arbitrary: segs) (auto simp: length_merge_ocr_page nth_merge_ocr_page)

lemma merged_ocr_page:
  "distinct (map oc_index pages) \<Longrightarrow> p \<in> set pages \<Longrightarrow>
   merge_ocr_pages segs pages ! oc_index p = oc_markdown p"
proof (induction pages arbitrary: segs)
  case (Cons q pages)
  show ?case
  proof (cases "p = q")
    case True
    have "oc_index q \<notin> oc_index ` set pages" using Cons.prems by simp
    then have "merge_ocr_pages (merge_ocr_page q segs) pages ! oc_index q = merge_ocr_page q segs ! oc_index q"
      by (intro merged_other_page) (simp_all add: length_merge_ocr_page)
    then show ?thesis using True by (simp add: merge_ocr_pages_def nth_merge_ocr_page)
  next
    case False
    then show ?thesis using Cons by (simp add: merge_ocr_pages_def)
  qed
qed simp

subsection \<open>A cache hit is the document\<close>

lemma split_join_pages:
  "ps \<noteq> [] \<Longrightarrow> \<forall>p \<in> set ps. c \<notin> set p \<Longrightarrow> split_on (\<lambda>d. d = c) (join [c] ps) = ps"
proof (induction ps)
  case (Cons p ps)
  have p: "split_on (\<lambda>d. d = c) (p @ c # r) = p # split_on (\<lambda>d. d = c) r" for r
    using Cons.prems(2) by (induction p) auto
  have e: "split_on (\<lambda>d. d = c) p = [p]" using Cons.prems(2) by (induction p) auto
  show ?case using Cons p e by (cases ps) auto
qed simp

lemma decode_encode_pages:
  "pages \<noteq> [] \<Longrightarrow> decode_ocr_pages (encode_ocr_pages pages) = map (str_replace [page_break] []) pages"
  unfolding decode_ocr_pages_def encode_ocr_pages_def
  by (rule split_join_pages) (auto simp: removed_char_is_absent)

lemma normalize_without_breaks: "normalize_content (str_replace [page_break] [] p) = normalize_content p"
proof -
  have "str_replace [page_break] [] p = filter (\<lambda>c. c \<noteq> 12) p"
    unfolding replace_one_char by (induction p) (simp_all add: page_break_def)
  then show ?thesis by (simp add: normalize_content_def conj_commute conj_left_commute)
qed

lemma build_pages_without_breaks:
  "build_pages md (map (str_replace [page_break] []) pages) t starts = build_pages md pages t starts"
  by (induction pages arbitrary: t starts)
    (simp_all add: clean_content_def clean_content_markdown_def normalize_without_breaks Let_def)

text \<open>
  What a run stores in the cache and what a later one reads from it are laid out the same way:
  the same text, the same page boundaries.
\<close>

lemma cached_pages_are_the_pages:
  "pages \<noteq> [] \<Longrightarrow>
   build_layout (paginated_text (decode_ocr_pages (encode_ocr_pages pages))) ty =
   build_layout (paginated_text pages) ty"
  by (simp add: build_layout_def paginated_text_def decode_encode_pages build_pages_without_breaks)

lemma cached_pages_are_the_pages_witness:
  "build_layout (paginated_text (decode_ocr_pages (encode_ocr_pages [[97, 12, 98], [99]]))) Markdown =
   build_layout (paginated_text [[97, 12, 98], [99]]) Markdown"
  by (rule cached_pages_are_the_pages) simp

subsection \<open>What OCR is charged\<close>

text \<open>At most one record, for the source, of no more than was authorized.\<close>

definition charged_once :: "permit \<Rightarrow> ingest_world \<Rightarrow> ingest_world \<Rightarrow> bool" where
  "charged_once p w w' \<longleftrightarrow>
     (\<exists>us. iw_usage w' = iw_usage w @ us \<and> length us \<le> 1 \<and>
       (\<forall>(op, n) \<in> set us. op = pm_operation p \<and> (\<forall>m. pm_max_units p = Some m \<longrightarrow> n \<le> m)))"

definition same_usage :: "ingest_world \<Rightarrow> ingest_world \<Rightarrow> bool" where
  "same_usage w w' \<longleftrightarrow> iw_usage w' = iw_usage w"

interpretation us: step_relation same_usage
  by unfold_locales (simp_all add: same_usage_def)

lemma same_usage_store: "run_keeps same_usage (store_ocr E i h m t n)"
  unfolding store_ocr_def by (rule us.keeps_statement) (simp add: same_usage_def)

lemma same_usage_find: "run_keeps same_usage (find_by_hash E i h m)"
  unfolding find_by_hash_def by (rule us.keeps_statement) (simp add: same_usage_def)

lemma same_usage_broadcast: "run_keeps same_usage (broadcast_to nb ev)"
  by (simp add: run_keeps_def broadcast_to_def same_usage_def)

lemmas same_usage_intros = us.keeps_intros same_usage_store same_usage_find same_usage_broadcast

lemma clamp_units_max: "pm_max_units p = Some m \<Longrightarrow> clamp_units p n \<le> m"
  by (simp add: clamp_units_def)

lemma charged_once_same:
  "same_usage w w1 \<Longrightarrow> charged_once p w1 w2 \<Longrightarrow> charged_once p w w2"
  "charged_once p w w1 \<Longrightarrow> same_usage w1 w2 \<Longrightarrow> charged_once p w w2"
  "same_usage w w1 \<Longrightarrow> charged_once p w w1"
  by (simp_all add: charged_once_def same_usage_def)

lemma charged_then:
  assumes "run_keeps same_usage a" "\<And>x. run_keeps (charged_once p) (f x)"
  shows "run_keeps (charged_once p) (and_then a f)"
  unfolding run_keeps_def
proof
  fix w
  obtain r w1 where a: "a w = (r, w1)" by (cases "a w")
  have s: "same_usage w w1" using run_keepsD [OF assms(1) a] .
  show "charged_once p w (snd (and_then a f w))"
  proof (cases r)
    case (Done x)
    have "charged_once p w1 (snd (f x w1))" using assms(2) [of x] by (simp add: run_keeps_def)
    from charged_once_same(1) [OF s this] show ?thesis using a Done by (simp add: and_then_def)
  qed (simp_all add: and_then_def a charged_once_same(3) [OF s])
qed

lemma charged_before:
  assumes "run_keeps (charged_once p) a" "\<And>x. run_keeps same_usage (f x)"
  shows "run_keeps (charged_once p) (and_then a f)"
  unfolding run_keeps_def
proof
  fix w
  obtain r w1 where a: "a w = (r, w1)" by (cases "a w")
  have s: "charged_once p w w1" using run_keepsD [OF assms(1) a] .
  show "charged_once p w (snd (and_then a f w))"
  proof (cases r)
    case (Done x)
    have "same_usage w1 (snd (f x w1))" using assms(2) [of x] by (simp add: run_keeps_def)
    from charged_once_same(2) [OF s this] show ?thesis using a Done by (simp add: and_then_def)
  qed (simp_all add: and_then_def a s)
qed

lemma charged_same: "run_keeps same_usage m \<Longrightarrow> run_keeps (charged_once p) m"
  by (simp add: run_keeps_def charged_once_same(3))

lemma charged_await:
  assumes "run_keeps (charged_once p) m" shows "run_keeps (charged_once p) (await m)"
  unfolding run_keeps_def
proof
  fix w
  have "charged_once p w (snd (m (w\<lparr>iw_fuel := n\<rparr>)))" for n
    using assms charged_once_same(1) [OF us.fuel [of w n]] by (simp add: run_keeps_def)
  then show "charged_once p w (snd (await m w))"
    using charged_once_same(3) [OF us.refl] by (cases "iw_fuel w") (simp_all add: await_def)
qed

lemma charged_charge: "run_keeps (charged_once p) (charge_pages E p (clamp_units p n))"
  unfolding charge_pages_def
  by (rule charged_await)
    (auto simp: run_keeps_def charged_once_def clamp_units_max split: sum.split)

lemma charged_answer: "run_keeps (charged_once ocr_permit) (ocr_answered E i nb bytes p ocr_permit n r)"
  unfolding ocr_answered_def Let_def
  by (rule charged_before [OF charged_charge]) (auto intro!: same_usage_intros)

lemma ocr_is_charged_once: "run_keeps (charged_once ocr_permit) (call_ocr E ocr i nb bytes p ocr_permit)"
  unfolding call_ocr_def Let_def
  by (rule charged_then [OF same_usage_broadcast], rule charged_await)
    (auto intro: charged_answer charged_same us.keeps_stop split: sum.split)

end
