(* ===== verification/Indexing.thy ===== *)
theory Indexing
  imports Source_Extraction
begin

text \<open>
  \<open>services/source_processing/indexing.rs\<close>, with \<open>contextualized_text\<close> of
  \<open>services/embeddings.rs\<close> and \<open>check_batch_widths\<close> of \<open>core/providers.rs\<close>: a text becomes
  chunks that are embedded and stored under a building generation. The producer and the consumer
  run at once, so the pipeline is a machine whose moves a schedule chooses: a batch starts, the
  provider answers, the progress is reported, a batch is sent, received and stored, the token is
  cancelled. A schedule that ends early is a run that is dropped there. The lemmas show that the
  pipeline stays within its bounds, asks nothing of the provider after a cancellation, and only
  ever stores, under its own generation, the document's chunks with embeddings of their texts.
\<close>

subsection \<open>Chunks\<close>

definition max_chunks :: nat where "max_chunks = 50000"

text \<open>The bytes of a string in UTF-8, as \<open>str::as_bytes\<close> gives them.\<close>

definition utf8_char :: "uchar \<Rightarrow> nat list" where
  "utf8_char c =
     (if c < 128 then [c]
      else if c < 2048 then [192 + c div 64, 128 + c mod 64]
      else if c < 65536 then [224 + c div 4096, 128 + c div 64 mod 64, 128 + c mod 64]
      else [240 + c div 262144, 128 + c div 4096 mod 64, 128 + c div 64 mod 64, 128 + c mod 64])"

definition utf8_bytes :: "rstr \<Rightarrow> nat list" where "utf8_bytes s = concat (map utf8_char s)"

definition compute_content_hash :: "ingest_env \<Rightarrow> rstr \<Rightarrow> rstr" where
  "compute_content_hash E content = ie_hash E (utf8_bytes content)"

definition chunk_of_child :: "ingest_env \<Rightarrow> rstr \<Rightarrow> nat \<Rightarrow> child_chunk \<Rightarrow> chunk_with_context" where
  "chunk_of_child E parent i c =
     \<lparr>cw_content = cch_text c, cw_context_prefix = None, cw_parent_content = Some parent,
      cw_metadata = (cch_metadata c)\<lparr>md_position := clamp_u32 i\<rparr>,
      cw_content_hash = compute_content_hash E (cch_text c)\<rparr>"

definition flatten_loop :: "ingest_env \<Rightarrow> parent_chunk list \<Rightarrow> chunk_with_context list" where
  "flatten_loop E parents =
     fold (\<lambda>p. fold (\<lambda>c chunks. chunks @ [chunk_of_child E (pch_text p) (length chunks) c]) (pch_children p))
       parents []"

definition flatten_parent_child_chunks ::
  "ingest_env \<Rightarrow> parent_chunk list \<Rightarrow> app_error + chunk_with_context list" where
  "flatten_parent_child_chunks E parents =
     (let total_children = sum_list (map (\<lambda>p. length (pch_children p)) parents) in
      if max_chunks < total_children then
        Inl (Validation (lit ''Document produced too many chunks ('' @ show_nat total_children @
          lit ''), maximum is '' @ show_nat max_chunks))
      else Inr (flatten_loop E parents))"

definition enrich_chunk :: "rstr \<Rightarrow> chunk_with_context \<Rightarrow> chunk_with_context" where
  "enrich_chunk vid c =
     (let (ts_start, ts_end) = extract_timestamp_range (cw_content c); m = cw_metadata c in
      c\<lparr>cw_metadata := m\<lparr>video_id := Some vid, timestamp_start := ts_start, timestamp_end := ts_end,
          citation_url := (case ts_start of None \<Rightarrow> citation_url m
            | Some start \<Rightarrow> Some (lit ''https://youtube.com/watch?v='' @ vid @ lit ''&t='' @
                show_nat (f_to_uint u64_max start)))\<rparr>\<rparr>)"

definition no_content_message :: rstr where "no_content_message = lit ''No content to process''"

definition chunk_and_enrich :: "ingest_env \<Rightarrow> extracted \<Rightarrow> pipeline_failure + chunk_with_context list" where
  "chunk_and_enrich E ex =
     (case chunk_source (ie_splitter E) (ex_text ex) (ex_chunking_type ex) of
        Inl e \<Rightarrow> Inl (failure_new (lit ''Failed to chunk content: '' @ app_error_text (Rag e)) (Rag e))
      | Inr parents \<Rightarrow>
          if parents = [] then Inl (failure_new no_content_message (Validation no_content_message))
          else
            (case flatten_parent_child_chunks E parents of
               Inl e \<Rightarrow> Inl (failure_from e)
             | Inr chunks \<Rightarrow>
                 Inr (case ex_video_id ex of
                        None \<Rightarrow> chunks
                      | Some vid \<Rightarrow> map (enrich_chunk vid) chunks)))"

subsection \<open>Reuse\<close>

type_synonym reuse = "nat \<Rightarrow> rfloat list option"

definition reuse_of :: "(rstr \<times> rfloat list) list \<Rightarrow> chunk_with_context list \<Rightarrow> reuse" where
  "reuse_of pairs chunks i =
     (let by_hash = map_of (rev (filter (\<lambda>(h, v). h \<noteq> [] \<and> v \<noteq> []) pairs)) in
      if i < length chunks then by_hash (cw_content_hash (chunks ! i)) else None)"

definition compute_embedding_reuse ::
  "ingest_env \<Rightarrow> uuid \<Rightarrow> rstr \<Rightarrow> chunk_with_context list \<Rightarrow> (app_error + reuse) run" where
  "compute_embedding_reuse E source fp chunks =
     and_then (statement E (\<lambda>w. (Inr (get_reusable_embeddings source fp (iw_db w)), w)))
       (\<lambda>r. ret (case r of Inl e \<Rightarrow> Inl e | Inr pairs \<Rightarrow> Inr (reuse_of pairs chunks)))"

definition contextualized_text :: "rstr \<Rightarrow> rstr option \<Rightarrow> rstr" where
  "contextualized_text content prefix =
     (case prefix of
        Some p \<Rightarrow> if p \<noteq> [] then p @ [10, 10] @ content else content
      | None \<Rightarrow> content)"

definition embedded_text :: "chunk_with_context \<Rightarrow> rstr" where
  "embedded_text c = contextualized_text (cw_content c) (cw_context_prefix c)"

primrec split_from ::
  "nat \<Rightarrow> chunk_with_context list \<Rightarrow> nat \<Rightarrow> reuse \<Rightarrow> rfloat list list \<times> nat list \<times> rstr list" where
  "split_from off [] base reused = ([], [], [])"
| "split_from off (c # cs) base reused =
     (let (embeddings, offsets, texts) = split_from (Suc off) cs base reused in
      case reused (base + off) of
        Some cached \<Rightarrow> (cached # embeddings, offsets, texts)
      | None \<Rightarrow> ([] # embeddings, off # offsets, embedded_text c # texts))"

definition split_reused ::
  "chunk_with_context list \<Rightarrow> nat \<Rightarrow> reuse \<Rightarrow> rfloat list list \<times> nat list \<times> rstr list" where
  "split_reused chunks base reused = split_from 0 chunks base reused"

definition fill_in :: "nat list \<Rightarrow> rfloat list list \<Rightarrow> rfloat list list \<Rightarrow> rfloat list list" where
  "fill_in offsets new embeddings = fold (\<lambda>(off, v) es. es[off := v]) (zip offsets new) embeddings"

primrec widths_from :: "nat \<Rightarrow> embedder \<Rightarrow> rfloat list list \<Rightarrow> app_error + unit" where
  "widths_from index e [] = Inr ()"
| "widths_from index e (v # vs) =
     (if length v \<noteq> em_dimension e then
        Inl (Rag (RagEmbeddingFailed (lit ''provider `'' @ em_name e @ lit ''` returned a '' @
          show_nat (length v) @ lit ''-dimension vector at batch index '' @ show_nat index @
          lit '', expected '' @ show_nat (em_dimension e))))
      else widths_from (Suc index) e vs)"

definition check_batch_widths :: "embedder \<Rightarrow> rfloat list list \<Rightarrow> app_error + unit" where
  "check_batch_widths e vectors = widths_from 0 e vectors"

subsection \<open>The pipeline\<close>

record embedded_batch =
  eb_base :: nat
  eb_chunks :: "chunk_with_context list"
  eb_embeddings :: "rfloat list list"

text \<open>
  A batch in flight waits for the provider, has its embeddings, or waits for a place in the channel.
\<close>

datatype flight_stage = Asking nat "nat list" "rstr list" | Answered | Sending

type_synonym flight = "embedded_batch \<times> flight_stage"

datatype consumer_state = Receiving | Gone "app_error option"

record pipe =
  pi_waiting :: "(nat \<times> chunk_with_context list) list"
  pi_flying :: "flight list"
  pi_channel :: "embedded_batch list"
  pi_progress :: nat
  pi_calls :: nat
  pi_cancelled :: bool
  pi_producer :: "(app_error + unit) option"
  pi_consumer :: consumer_state
  pi_world :: ingest_world

record pipe_task =
  pt_env :: ingest_env
  pt_embedder :: embedder
  pt_generation :: uuid
  pt_source :: uuid
  pt_notebook :: uuid
  pt_chunks :: "chunk_with_context list"
  pt_reused :: reuse

text \<open>
  The schedule names the batch that moves, and the faults of the three statements of a
  transaction.
\<close>

datatype pipe_move =
    Start nat | Answer nat | Report nat | Send nat | Finish
  | Receive "db_err option" "db_err option" "db_err option" | Cancel

definition channel_capacity :: nat where "channel_capacity = 2"

definition producer_fails :: "app_error \<Rightarrow> pipe \<Rightarrow> pipe" where
  "producer_fails e p =
     p\<lparr>pi_waiting := [], pi_flying := [], pi_producer := Some (Inl e), pi_cancelled := True\<rparr>"

definition start_batch :: "pipe_task \<Rightarrow> nat \<Rightarrow> pipe \<Rightarrow> pipe" where
  "start_batch T i p =
     (if pi_producer p \<noteq> None \<or> length (pi_waiting p) \<le> i \<or>
         em_concurrency (pt_embedder T) \<le> length (pi_flying p) + i then p
      else if pi_cancelled p then
        producer_fails (Internal (lit ''Ingestion cancelled before this batch started'')) p
      else
        let (base, cs) = pi_waiting p ! i;
            (embeddings, offsets, texts) = split_reused cs base (pt_reused T);
            b = \<lparr>eb_base = base, eb_chunks = cs, eb_embeddings = embeddings\<rparr>;
            rest = take i (pi_waiting p) @ drop (Suc i) (pi_waiting p)
        in if texts = [] then
             p\<lparr>pi_waiting := rest, pi_flying := pi_flying p @ [(b, Answered)]\<rparr>
           else
             p\<lparr>pi_waiting := rest, pi_flying := pi_flying p @ [(b, Asking (pi_calls p) offsets texts)],
               pi_calls := Suc (pi_calls p)\<rparr>)"

definition take_answer :: "pipe_task \<Rightarrow> nat \<Rightarrow> embedded_batch \<Rightarrow> nat \<Rightarrow> nat list \<Rightarrow> rstr list \<Rightarrow> pipe \<Rightarrow> pipe" where
  "take_answer T i b n offsets texts p =
     (if pi_cancelled p then producer_fails (Internal (lit ''Ingestion cancelled while embedding'')) p
      else case em_embed_batch (pt_embedder T) n texts of
        Inl e \<Rightarrow> producer_fails e p
      | Inr new \<Rightarrow>
          (case check_batch_widths (pt_embedder T) new of
             Inl e \<Rightarrow> producer_fails e p
           | Inr _ \<Rightarrow>
               p\<lparr>pi_flying := (pi_flying p)[i :=
                   (b\<lparr>eb_embeddings := fill_in offsets new (eb_embeddings b)\<rparr>, Answered)]\<rparr>))"

definition report_progress :: "pipe_task \<Rightarrow> nat \<Rightarrow> embedded_batch \<Rightarrow> pipe \<Rightarrow> pipe" where
  "report_progress T i b p =
     (let n = (pi_progress p + clamp_u32 (length (eb_chunks b))) mod 2 ^ 32;
          w = pi_world p
      in p\<lparr>pi_progress := n, pi_flying := (pi_flying p)[i := (b, Sending)],
           pi_world := w\<lparr>iw_sent := iw_sent w @ [(pt_notebook T,
             status_with_progress (pt_source T) (lit ''embedding'') n (clamp_u32 (length (pt_chunks T))))]\<rparr>\<rparr>)"

definition send_batch :: "nat \<Rightarrow> embedded_batch \<Rightarrow> pipe \<Rightarrow> pipe" where
  "send_batch i b p =
     (if pi_consumer p \<noteq> Receiving then
        producer_fails (Internal (lit ''Pipeline consumer stopped unexpectedly'')) p
      else if channel_capacity \<le> length (pi_channel p) then p
      else p\<lparr>pi_channel := pi_channel p @ [b],
             pi_flying := take i (pi_flying p) @ drop (Suc i) (pi_flying p)\<rparr>)"

text \<open>One batch, one transaction: any of its three statements can fail, and then nothing of it stays.\<close>

definition store_in_transaction ::
  "pipe_task \<Rightarrow> db_err option \<Rightarrow> db_err option \<Rightarrow> db_err option \<Rightarrow> embedded_batch \<Rightarrow> ingest_world \<Rightarrow>
   app_error option \<times> ingest_world" where
  "store_in_transaction T begin_fault store_fault commit_fault b w =
     (case begin_fault of
        Some e \<Rightarrow> (Some (Internal (lit ''Failed to begin batch transaction: '' @ e)), w)
      | None \<Rightarrow>
          (case (case store_fault of
               Some e \<Rightarrow> (Inl (Database e), iw_db w)
             | None \<Rightarrow> store_chunk_batch (ie_column_rejects (pt_env T))
                 (\<lambda>k. ie_fresh (pt_env T) (eb_base b + k)) (pt_generation T) (pt_source T) (eb_chunks b)
                 (eb_embeddings b) (eb_base b) (iw_db w)) of
             (Inl e, _) \<Rightarrow> (Some e, w)
           | (Inr _, db) \<Rightarrow>
               (case commit_fault of
                  Some e \<Rightarrow> (Some (Internal (lit ''Failed to commit batch: '' @ e)), w)
                | None \<Rightarrow> (None, w\<lparr>iw_db := db\<rparr>))))"

definition store_batches ::
  "pipe_task \<Rightarrow> db_err option \<Rightarrow> db_err option \<Rightarrow> db_err option \<Rightarrow> pipe \<Rightarrow> pipe" where
  "store_batches T begin_fault store_fault commit_fault p =
     (if pi_consumer p \<noteq> Receiving then p
      else if pi_cancelled p then p\<lparr>pi_consumer := Gone None\<rparr>
      else case pi_channel p of
        b # rest \<Rightarrow>
          (case store_in_transaction T begin_fault store_fault commit_fault b (pi_world p) of
             (None, w) \<Rightarrow> p\<lparr>pi_channel := rest, pi_world := w\<rparr>
           | (Some e, w) \<Rightarrow>
               p\<lparr>pi_channel := rest, pi_world := w, pi_consumer := Gone (Some e), pi_cancelled := True\<rparr>)
      | [] \<Rightarrow> if pi_producer p = None then p else p\<lparr>pi_consumer := Gone None\<rparr>)"

fun pipe_step :: "pipe_task \<Rightarrow> pipe_move \<Rightarrow> pipe \<Rightarrow> pipe" where
  "pipe_step T (Start i) p = start_batch T i p"
| "pipe_step T (Answer i) p =
     (if i < length (pi_flying p) then
        (case pi_flying p ! i of (b, Asking n os ts) \<Rightarrow> take_answer T i b n os ts p | _ \<Rightarrow> p) else p)"
| "pipe_step T (Report i) p =
     (if i < length (pi_flying p) then
        (case pi_flying p ! i of (b, Answered) \<Rightarrow> report_progress T i b p | _ \<Rightarrow> p) else p)"
| "pipe_step T (Send i) p =
     (if i < length (pi_flying p) then
        (case pi_flying p ! i of (b, Sending) \<Rightarrow> send_batch i b p | _ \<Rightarrow> p) else p)"
| "pipe_step T Finish p =
     (if pi_producer p = None \<and> pi_waiting p = [] \<and> pi_flying p = [] then p\<lparr>pi_producer := Some (Inr ())\<rparr> else p)"
| "pipe_step T (Receive a s c) p = store_batches T a s c p"
| "pipe_step T Cancel p = p\<lparr>pi_cancelled := True\<rparr>"

text \<open>\<open>slice::chunks\<close>, which panics on a size of zero; the panic is what the producer's handle then yields.\<close>

function slices :: "nat \<Rightarrow> 'a list \<Rightarrow> 'a list list" where
  "slices n xs = (if xs = [] \<or> n = 0 then [] else take n xs # slices n (drop n xs))"
  by pat_completeness auto
termination by (relation "measure (\<lambda>(n, xs). length xs)") auto

declare slices.simps [simp del]

definition batch_work :: "nat \<Rightarrow> 'a list \<Rightarrow> (nat \<times> 'a list) list" where
  "batch_work n xs = map (\<lambda>(i, s). (i * n, s)) (enumerate 0 (slices n xs))"

definition pipe_start :: "pipe_task \<Rightarrow> rstr \<Rightarrow> ingest_world \<Rightarrow> pipe" where
  "pipe_start T panic w =
     \<lparr>pi_waiting = batch_work (em_batch_size (pt_embedder T)) (pt_chunks T), pi_flying = [],
      pi_channel = [], pi_progress = 0, pi_calls = 0, pi_cancelled = False,
      pi_producer = (if em_batch_size (pt_embedder T) = 0
        then Some (Inl (Internal (lit ''Pipeline producer task panicked: '' @ panic))) else None),
      pi_consumer = Receiving, pi_world = w\<rparr>"

definition pipe_outcome :: "pipe \<Rightarrow> (pipeline_failure + unit) option" where
  "pipe_outcome p =
     (case (pi_consumer p, pi_producer p) of
        (Gone (Some e), Some _) \<Rightarrow>
          Some (Inl (failure_new (lit ''Failed to store chunks: '' @ app_error_text e) e))
      | (Gone None, Some (Inl e)) \<Rightarrow>
          Some (Inl (failure_new (lit ''Failed to generate embeddings: '' @ app_error_text e) e))
      | (Gone None, Some (Inr _)) \<Rightarrow> Some (Inr ())
      | _ \<Rightarrow> None)"

record schedule =
  sc_moves :: "pipe_move list"
  sc_panic :: rstr

definition run_pipe :: "pipe_task \<Rightarrow> schedule \<Rightarrow> ingest_world \<Rightarrow> pipe" where
  "run_pipe T S w = fold (pipe_step T) (sc_moves S) (pipe_start T (sc_panic S) w)"

definition no_embedder :: app_error where
  "no_embedder = Internal (lit ''No embedding provider configured '' @ [8212] @
     lit '' cannot generate embeddings'')"

definition embed_and_store ::
  "ingest_env \<Rightarrow> schedule \<Rightarrow> uuid \<Rightarrow> uuid \<Rightarrow> uuid \<Rightarrow> chunk_with_context list \<Rightarrow> reuse \<Rightarrow> unit run" where
  "embed_and_store E S gen source nb chunks reused =
     (case ie_embedder E of
        None \<Rightarrow> stop (failure_from no_embedder)
      | Some e \<Rightarrow>
          (\<lambda>w. let p = run_pipe \<lparr>pt_env = E, pt_embedder = e, pt_generation = gen, pt_source = source,
                  pt_notebook = nb, pt_chunks = chunks, pt_reused = reused\<rparr> S w
               in (case pipe_outcome p of
                     None \<Rightarrow> Dropped
                   | Some (Inl f) \<Rightarrow> Stopped f
                   | Some (Inr _) \<Rightarrow> Done (), pi_world p)))"

subsection \<open>The stage\<close>

record index_ownership =
  io_generation :: uuid
  io_provenance :: generation_provenance

definition from_failure :: "pipeline_failure + 'a \<Rightarrow> 'a run" where
  "from_failure r = (case r of Inl f \<Rightarrow> stop f | Inr x \<Rightarrow> ret x)"

definition store_chunks_of ::
  "ingest_env \<Rightarrow> schedule \<Rightarrow> index_ownership \<Rightarrow> extracted \<Rightarrow> uuid \<Rightarrow> uuid \<Rightarrow> chunk_with_context list \<Rightarrow> nat run" where
  "store_chunks_of E S own ex source nb chunks =
     (let total_chunks = length chunks in
      and_then (statement E (on_index (\<lambda>db. (Inr (), record_build_plan (io_generation own)
         (i32_or_max total_chunks) (current_chunking (parent_chunk_size (ex_chunking_type ex))) db)))) (\<lambda>planned.
      and_then (stage (lit ''Failed to record the build plan'') planned) (\<lambda>_.
      and_then (compute_embedding_reuse E source
         (embedding_fingerprint (gp_embedding (io_provenance own))) chunks) (\<lambda>r.
      and_then (stage (lit ''Failed to query reusable embeddings'') r) (\<lambda>reused.
      and_then (update_source_status E source StEmbedding None) (\<lambda>u.
      and_then (stage (lit ''Failed to record embedding status'') u) (\<lambda>_.
      and_then (broadcast_to nb (status_event source (lit ''embedding'') None)) (\<lambda>_.
      and_then (embed_and_store E S (io_generation own) source nb chunks reused) (\<lambda>_.
      ret total_chunks)))))))))"

definition build_chunks ::
  "ingest_env \<Rightarrow> schedule \<Rightarrow> index_ownership \<Rightarrow> extracted \<Rightarrow> uuid \<Rightarrow> uuid \<Rightarrow> nat run" where
  "build_chunks E S own ex source nb =
     and_then (from_failure (chunk_and_enrich E ex)) (store_chunks_of E S own ex source nb)"

subsection \<open>What a batch holds\<close>

text \<open>
  The embedding at a place is one that is reused, one the provider gave for the text of the chunk
  at this place, or still a placeholder.
\<close>

definition slot_ok :: "pipe_task \<Rightarrow> nat \<Rightarrow> rfloat list \<Rightarrow> bool" where
  "slot_ok T i v \<longleftrightarrow> pt_reused T i = Some v \<or> v = [] \<or>
     (\<exists>n texts new j. em_embed_batch (pt_embedder T) n texts = Inr new \<and> j < length new \<and>
        j < length texts \<and> texts ! j = embedded_text (pt_chunks T ! i) \<and> new ! j = v)"

definition slice_ok :: "pipe_task \<Rightarrow> nat \<times> chunk_with_context list \<Rightarrow> bool" where
  "slice_ok T s \<longleftrightarrow>
     (\<forall>k<length (snd s). fst s + k < length (pt_chunks T) \<and> snd s ! k = pt_chunks T ! (fst s + k))"

definition batch_ok :: "pipe_task \<Rightarrow> embedded_batch \<Rightarrow> bool" where
  "batch_ok T b \<longleftrightarrow>
     slice_ok T (eb_base b, eb_chunks b) \<and> length (eb_embeddings b) = length (eb_chunks b) \<and>
     (\<forall>k<length (eb_embeddings b). slot_ok T (eb_base b + k) (eb_embeddings b ! k))"

definition asks_for :: "embedded_batch \<Rightarrow> nat list \<Rightarrow> rstr list \<Rightarrow> bool" where
  "asks_for b offsets texts \<longleftrightarrow>
     length offsets = length texts \<and>
     (\<forall>j<length offsets. offsets ! j < length (eb_chunks b) \<and>
        texts ! j = embedded_text (eb_chunks b ! (offsets ! j)))"

fun flight_ok :: "pipe_task \<Rightarrow> flight \<Rightarrow> bool" where
  "flight_ok T (b, Asking n offsets texts) \<longleftrightarrow> batch_ok T b \<and> asks_for b offsets texts"
| "flight_ok T (b, _) \<longleftrightarrow> batch_ok T b"

lemma flight_batch: "flight_ok T (b, st) \<Longrightarrow> batch_ok T b"
  by (cases st) simp_all

lemma split_from_ok:
  "split_from off cs base reused = (es, os, ts) \<Longrightarrow>
     length es = length cs \<and> length os = length ts \<and>
     (\<forall>k<length cs. reused (base + (off + k)) = Some (es ! k) \<or> es ! k = []) \<and>
     (\<forall>j<length os. off \<le> os ! j \<and> os ! j < off + length cs \<and>
        ts ! j = embedded_text (cs ! (os ! j - off)))"
proof (induction cs arbitrary: off es os ts)
  case (Cons c cs)
  obtain es' os' ts' where r: "split_from (Suc off) cs base reused = (es', os', ts')"
    by (cases "split_from (Suc off) cs base reused")
  note ih = Cons.IH [OF r]
  have eqs: "es = (case reused (base + off) of Some v \<Rightarrow> v | None \<Rightarrow> []) # es'"
      "os = (if reused (base + off) = None then off # os' else os')"
      "ts = (if reused (base + off) = None then embedded_text c # ts' else ts')"
    using Cons.prems by (simp_all add: r split: option.splits)
  have slots: "\<forall>k<length (c # cs). reused (base + (off + k)) = Some (es ! k) \<or> es ! k = []"
  proof (intro allI impI)
    fix k assume "k < length (c # cs)"
    then show "reused (base + (off + k)) = Some (es ! k) \<or> es ! k = []"
      using ih by (cases k) (auto simp: eqs split: option.split)
  qed
  have tail: "off \<le> os' ! i \<and> os' ! i < off + length (c # cs) \<and>
      ts' ! i = embedded_text ((c # cs) ! (os' ! i - off))" if "i < length os'" for i
  proof -
    have "Suc off \<le> os' ! i" "os' ! i < Suc off + length cs"
        "ts' ! i = embedded_text (cs ! (os' ! i - Suc off))" using ih that by simp_all
    then show ?thesis by (simp add: nth_Cons')
  qed
  have "off \<le> os ! j \<and> os ! j < off + length (c # cs) \<and> ts ! j = embedded_text ((c # cs) ! (os ! j - off))"
    if "j < length os" for j
    using that tail [of j] tail [of "j - 1"] by (cases j) (simp_all add: eqs split: if_splits)
  then show ?case using ih slots by (simp add: eqs)
qed simp

lemma fill_in_keeps:
  assumes "\<forall>k<length es. P k (es ! k)"
    and "\<forall>j<length os. j < length new \<longrightarrow> P (os ! j) (new ! j)"
  shows "length (fill_in os new es) = length es"
    and "\<forall>k<length es. P k (fill_in os new es ! k)"
proof -
  have "length (fill_in os new es) = length es \<and> (\<forall>k<length es. P k (fill_in os new es ! k))"
    unfolding fill_in_def
  proof (rule fold_invariant [where Q = "\<lambda>x. x \<in> set (zip os new)"
        and P = "\<lambda>fs. length fs = length es \<and> (\<forall>k<length es. P k (fs ! k))"])
    fix x fs
    assume "x \<in> set (zip os new)" and fs: "length fs = length es \<and> (\<forall>k<length es. P k (fs ! k))"
    then obtain i where i: "i < length os" "i < length new" "x = (os ! i, new ! i)"
      by (auto simp: set_zip)
    have "P k (fs[os ! i := new ! i] ! k)" if "k < length es" for k
      using assms(2) fs i that by (cases "os ! i = k") auto
    with fs i(3) show "length ((\<lambda>(off, v) es. es[off := v]) x fs) = length es \<and>
        (\<forall>k<length es. P k ((\<lambda>(off, v) es. es[off := v]) x fs ! k))"
      by simp
  qed (use assms(1) in simp_all)
  then show "length (fill_in os new es) = length es"
    and "\<forall>k<length es. P k (fill_in os new es ! k)" by simp_all
qed

lemma split_batch_ok:
  assumes "slice_ok T (base, cs)" and "split_reused cs base (pt_reused T) = (es, os, ts)"
  shows "batch_ok T \<lparr>eb_base = base, eb_chunks = cs, eb_embeddings = es\<rparr>"
    and "asks_for \<lparr>eb_base = base, eb_chunks = cs, eb_embeddings = es\<rparr> os ts"
  using assms split_from_ok [OF assms(2) [unfolded split_reused_def]]
  by (auto simp: batch_ok_def asks_for_def slot_ok_def)

lemma filled_batch_ok:
  assumes ok: "batch_ok T b" and asks: "asks_for b os ts"
    and reply: "em_embed_batch (pt_embedder T) n ts = Inr new"
  shows "batch_ok T (b\<lparr>eb_embeddings := fill_in os new (eb_embeddings b)\<rparr>)"
proof -
  have "slot_ok T (eb_base b + os ! j) (new ! j)" if "j < length os" "j < length new" for j
  proof -
    have "ts ! j = embedded_text (pt_chunks T ! (eb_base b + os ! j))" "j < length ts"
      using asks ok that by (auto simp: asks_for_def batch_ok_def slice_ok_def)
    then show ?thesis using reply that unfolding slot_ok_def by blast
  qed
  with fill_in_keeps [of "eb_embeddings b" "\<lambda>k. slot_ok T (eb_base b + k)" os new] ok
  show ?thesis by (simp add: batch_ok_def)
qed

subsection \<open>What is stored\<close>

definition carries_chunk :: "stored_chunk \<Rightarrow> chunk_with_context \<Rightarrow> bool" where
  "carries_chunk c d \<longleftrightarrow>
     sk_content c = cw_content d \<and> sk_context_prefix c = cw_context_prefix d \<and>
     sk_parent_content c = cw_parent_content d \<and> sk_metadata c = cw_metadata d \<and>
     sk_content_hash c = cw_content_hash d"

definition row_ok :: "pipe_task \<Rightarrow> stored_chunk \<Rightarrow> bool" where
  "row_ok T c \<longleftrightarrow>
     (\<exists>i<length (pt_chunks T). sk_index c = int i \<and> carries_chunk c (pt_chunks T ! i) \<and>
        (\<exists>v. sk_embedding c = Some v \<and> slot_ok T i v))"

definition stored_ok :: "pipe_task \<Rightarrow> index_db \<Rightarrow> bool" where
  "stored_ok T db \<longleftrightarrow> (\<forall>c\<in>set (db_chunks db). sk_generation c = pt_generation T \<longrightarrow> row_ok T c)"

lemma upsert_row_ok:
  assumes "\<forall>c\<in>set cs. sk_generation c = g \<longrightarrow> row_ok T c" and "row_ok T row"
    and "c \<in> set (upsert_chunk row cs)" and "sk_generation c = g"
  shows "row_ok T c"
proof -
  consider "c = row" | "c \<in> set cs"
    | d where "d \<in> set cs" "sk_index d = sk_index row"
        "c = d\<lparr>sk_content := sk_content row, sk_context_prefix := sk_context_prefix row,
           sk_parent_content := sk_parent_content row, sk_metadata := sk_metadata row,
           sk_embedding := sk_embedding row, sk_content_hash := sk_content_hash row\<rparr>"
    using assms(3) by (auto simp: upsert_chunk_def split: if_splits)
  then show ?thesis
    using assms(1,2,4) by cases (auto simp: row_ok_def carries_chunk_def)
qed

lemma fold_upsert_row_ok:
  "\<forall>r\<in>set rows. row_ok T r \<Longrightarrow> \<forall>c\<in>set cs. sk_generation c = g \<longrightarrow> row_ok T c \<Longrightarrow>
   \<forall>c\<in>set (fold upsert_chunk rows cs). sk_generation c = g \<longrightarrow> row_ok T c"
  by (rule fold_invariant [where Q = "row_ok T" and P = "\<lambda>cs. \<forall>c\<in>set cs. sk_generation c = g \<longrightarrow> row_ok T c"])
     (auto intro: upsert_row_ok)

lemma batch_rows_ok:
  assumes "batch_ok T b" and "length (pt_chunks T) \<le> i32_max"
    and "r \<in> set (zip [0..<length (eb_chunks b)] (zip (eb_chunks b) (eb_embeddings b)))"
  shows "row_ok T (chunk_values fresh gen source (eb_base b) r)"
proof -
  from assms(3) obtain k where k: "k < length (eb_chunks b)" "k < length (eb_embeddings b)"
      "r = (k, eb_chunks b ! k, eb_embeddings b ! k)"
    by (auto simp: set_zip)
  then have i: "eb_base b + k < length (pt_chunks T)" "eb_chunks b ! k = pt_chunks T ! (eb_base b + k)"
      "slot_ok T (eb_base b + k) (eb_embeddings b ! k)"
    using assms(1) by (auto simp: batch_ok_def slice_ok_def)
  then have "i32_or_max (eb_base b + k) = int (eb_base b + k)"
    using assms(2) by (simp add: i32_or_max_def)
  then show ?thesis
    using i k(3) unfolding row_ok_def
    by (intro exI [of _ "eb_base b + k"]) (simp add: chunk_values_def carries_chunk_def)
qed

lemma store_batch_rows:
  assumes "batch_ok T b" and "length (pt_chunks T) \<le> i32_max" and "stored_ok T db"
  shows "stored_ok T (snd (store_chunk_batch cr fresh gen source (eb_chunks b) (eb_embeddings b) (eb_base b) db))"
proof -
  let ?rows = "map (chunk_values fresh gen source (eb_base b))
      (zip [0..<length (eb_chunks b)] (zip (eb_chunks b) (eb_embeddings b)))"
  have "\<forall>r\<in>set ?rows. row_ok T r"
    using batch_rows_ok [OF assms(1,2)] by auto
  from fold_upsert_row_ok [OF this] assms(3)
  have "stored_ok T (db\<lparr>db_chunks := fold upsert_chunk ?rows (db_chunks db)\<rparr>)"
    by (simp add: stored_ok_def)
  then show ?thesis
    using assms(3) unfolding store_chunk_batch_def
    by (simp split: sum.split list.split)
qed

subsection \<open>Every schedule\<close>

definition pipe_ok :: "pipe_task \<Rightarrow> pipe \<Rightarrow> bool" where
  "pipe_ok T p \<longleftrightarrow>
     (\<forall>s\<in>set (pi_waiting p). slice_ok T s) \<and> (\<forall>f\<in>set (pi_flying p). flight_ok T f) \<and>
     (\<forall>b\<in>set (pi_channel p). batch_ok T b) \<and> stored_ok T (iw_db (pi_world p))"

lemma set_without: "set (take i xs @ drop (Suc i) xs) \<subseteq> set xs"
  by (auto dest: in_set_takeD in_set_dropD)

lemma producer_fails_ok: "pipe_ok T p \<Longrightarrow> pipe_ok T (producer_fails e p)"
  by (simp add: pipe_ok_def producer_fails_def)

lemma start_batch_ok:
  assumes "pipe_ok T p"
  shows "pipe_ok T (start_batch T i p)"
proof (cases "pi_producer p \<noteq> None \<or> length (pi_waiting p) \<le> i \<or>
    em_concurrency (pt_embedder T) \<le> length (pi_flying p) + i \<or> pi_cancelled p")
  case True
  then show ?thesis using assms producer_fails_ok by (auto simp: start_batch_def)
next
  case False
  obtain base cs es os ts where w: "pi_waiting p ! i = (base, cs)"
      "split_reused cs base (pt_reused T) = (es, os, ts)"
    by (metis prod_cases3 surj_pair)
  have "slice_ok T (base, cs)"
    using assms False w(1) nth_mem [of i "pi_waiting p"] unfolding pipe_ok_def by fastforce
  from split_batch_ok [OF this w(2)] assms False w set_without [of i "pi_waiting p"]
  show ?thesis by (simp add: start_batch_def pipe_ok_def Let_def) blast
qed

lemma take_answer_ok:
  assumes "pipe_ok T p" and "batch_ok T b" and "asks_for b os ts"
  shows "pipe_ok T (take_answer T i b n os ts p)"
proof -
  have "pipe_ok T (p\<lparr>pi_flying := (pi_flying p)[i :=
        (b\<lparr>eb_embeddings := fill_in os new (eb_embeddings b)\<rparr>, Answered)]\<rparr>)"
    if "em_embed_batch (pt_embedder T) n ts = Inr new" for new
    using assms(1) filled_batch_ok [OF assms(2,3) that]
    by (auto simp: pipe_ok_def dest!: set_update_subset_insert [THEN subsetD])
  then show ?thesis
    using producer_fails_ok [OF assms(1)] by (auto simp: take_answer_def split: sum.split)
qed

lemma report_progress_ok: "pipe_ok T p \<Longrightarrow> batch_ok T b \<Longrightarrow> pipe_ok T (report_progress T i b p)"
  by (auto simp: pipe_ok_def report_progress_def Let_def dest!: set_update_subset_insert [THEN subsetD])

lemma send_batch_ok: "pipe_ok T p \<Longrightarrow> batch_ok T b \<Longrightarrow> pipe_ok T (send_batch i b p)"
  using set_without [of i "pi_flying p"]
  by (auto simp: send_batch_def intro: producer_fails_ok) (auto simp: pipe_ok_def)

lemma store_in_transaction_cases:
  "iw_db (snd (store_in_transaction T a s c b w)) = iw_db w \<or>
   iw_db (snd (store_in_transaction T a s c b w)) = snd (store_chunk_batch (ie_column_rejects (pt_env T))
     (\<lambda>k. ie_fresh (pt_env T) (eb_base b + k)) (pt_generation T) (pt_source T) (eb_chunks b)
     (eb_embeddings b) (eb_base b) (iw_db w))"
  unfolding store_in_transaction_def
  by (auto split: option.split prod.split sum.split)

lemma store_batches_ok:
  assumes "pipe_ok T p" and "length (pt_chunks T) \<le> i32_max"
  shows "pipe_ok T (store_batches T a s c p)"
proof (cases "pi_consumer p = Receiving \<and> \<not> pi_cancelled p \<and> pi_channel p \<noteq> []")
  case True
  then obtain b rest where ch: "pi_channel p = b # rest" by (cases "pi_channel p") auto
  obtain r w where st: "store_in_transaction T a s c b (pi_world p) = (r, w)" by fastforce
  have "batch_ok T b" "stored_ok T (iw_db (pi_world p))" using assms(1) ch by (simp_all add: pipe_ok_def)
  from store_batch_rows [OF this(1) assms(2) this(2)] this(2)
  have "stored_ok T (iw_db w)"
    using store_in_transaction_cases [of T a s c b "pi_world p"] unfolding st snd_conv by metis
  then show ?thesis
    using True assms(1) ch st by (cases r) (simp_all add: store_batches_def pipe_ok_def)
next
  case False
  then show ?thesis
    using assms(1) by (auto simp: store_batches_def pipe_ok_def split: list.split)
qed

lemma pipe_step_ok:
  assumes "pipe_ok T p" and "length (pt_chunks T) \<le> i32_max"
  shows "pipe_ok T (pipe_step T m p)"
proof -
  have fl: "flight_ok T (pi_flying p ! i)" if "i < length (pi_flying p)" for i
    using assms(1) that by (simp add: pipe_ok_def)
  show ?thesis
  proof (cases m)
    case (Answer i)
    with assms fl [of i] show ?thesis
      by (auto split: prod.split flight_stage.split intro: take_answer_ok)
  next
    case (Report i)
    with assms fl [of i] show ?thesis
      by (auto split: prod.split flight_stage.split intro: report_progress_ok)
  next
    case (Send i)
    with assms fl [of i] show ?thesis
      by (auto split: prod.split flight_stage.split intro: send_batch_ok)
  next
    case (Receive a s c)
    then show ?thesis using store_batches_ok [OF assms] by simp
  qed (use assms in \<open>simp_all add: start_batch_ok\<close>, simp_all add: pipe_ok_def)
qed

lemma nth_slices:
  "i < length (slices n xs) \<Longrightarrow> slices n xs ! i = take n (drop (i * n) xs)"
proof (induction n xs arbitrary: i rule: slices.induct)
  case (1 n xs)
  then show ?case
    by (cases i) (simp_all add: slices.simps [of n xs] drop_drop add.commute split: if_splits)
qed

lemma batch_work_slices:
  "(base, cs) \<in> set (batch_work n xs) \<Longrightarrow> k < length cs \<Longrightarrow> base + k < length xs \<and> cs ! k = xs ! (base + k)"
  by (auto simp: batch_work_def set_conv_nth nth_enumerate_eq nth_slices)

lemma pipe_start_ok: "stored_ok T (iw_db w) \<Longrightarrow> pipe_ok T (pipe_start T panic w)"
  unfolding pipe_ok_def pipe_start_def
proof (intro conjI ballI, goal_cases)
  case (1 s)
  then show ?case using batch_work_slices [of "fst s" "snd s"] by (simp add: slice_ok_def)
qed simp_all

definition within_bounds :: "pipe_task \<Rightarrow> pipe \<Rightarrow> bool" where
  "within_bounds T p \<longleftrightarrow>
     length (pi_flying p) \<le> em_concurrency (pt_embedder T) \<and> length (pi_channel p) \<le> channel_capacity"

lemma pipe_step_bounds: "within_bounds T p \<Longrightarrow> within_bounds T (pipe_step T m p)"
  by (cases m)
     (auto simp: within_bounds_def start_batch_def take_answer_def report_progress_def send_batch_def
        store_batches_def producer_fails_def Let_def split: prod.split flight_stage.split sum.split
        list.split option.split)

lemma no_call_when_cancelled:
  "pi_cancelled p \<Longrightarrow> pi_cancelled (pipe_step T m p) \<and> pi_calls (pipe_step T m p) = pi_calls p"
  by (cases m)
     (auto simp: start_batch_def take_answer_def report_progress_def send_batch_def store_batches_def
        producer_fails_def Let_def split: prod.split flight_stage.split list.split option.split)

lemma pipe_step_world:
  obtains "pi_world (pipe_step T m p) = pi_world p"
  | ev where "\<not> is_terminal_source_event ev"
      and "pi_world (pipe_step T m p) = (pi_world p)\<lparr>iw_sent := iw_sent (pi_world p) @ [(pt_notebook T, ev)]\<rparr>"
  | a s c b where "pi_world (pipe_step T m p) = snd (store_in_transaction T a s c b (pi_world p))"
proof (cases m)
  case (Start i)
  have "pi_world (pipe_step T m p) = pi_world p"
    unfolding Start by (simp add: start_batch_def producer_fails_def Let_def split: prod.split)
  then show ?thesis by (rule that(1))
next
  case (Answer i)
  have "pi_world (pipe_step T m p) = pi_world p"
    unfolding Answer
    by (simp add: take_answer_def producer_fails_def split: prod.split flight_stage.split sum.split)
  then show ?thesis by (rule that(1))
next
  case (Report i)
  show ?thesis
  proof (cases "i < length (pi_flying p) \<and> snd (pi_flying p ! i) = Answered")
    case True
    then obtain b where "pi_flying p ! i = (b, Answered)" by (metis prod.collapse)
    with True have "pi_world (pipe_step T m p) = (pi_world p)\<lparr>iw_sent := iw_sent (pi_world p) @
        [(pt_notebook T, status_with_progress (pt_source T) (lit ''embedding'')
          ((pi_progress p + clamp_u32 (length (eb_chunks b))) mod 2 ^ 32) (clamp_u32 (length (pt_chunks T))))]\<rparr>"
      unfolding Report by (simp add: report_progress_def Let_def)
    from that(2) [OF _ this] show ?thesis by (simp add: status_with_progress_def)
  next
    case False
    then have "pi_world (pipe_step T m p) = pi_world p"
      unfolding Report by (auto split: prod.split flight_stage.split)
    then show ?thesis by (rule that(1))
  qed
next
  case (Send i)
  have "pi_world (pipe_step T m p) = pi_world p"
    unfolding Send
    by (simp add: send_batch_def producer_fails_def split: prod.split flight_stage.split)
  then show ?thesis by (rule that(1))
next
  case (Receive a s c)
  show ?thesis
  proof (cases "pi_consumer p = Receiving \<and> \<not> pi_cancelled p \<and> pi_channel p \<noteq> []")
    case True
    then obtain b rest where "pi_channel p = b # rest" by (cases "pi_channel p") auto
    with True have "pi_world (pipe_step T m p) = snd (store_in_transaction T a s c b (pi_world p))"
      unfolding Receive by (auto simp: store_batches_def split: prod.split option.split)
    then show ?thesis by (rule that(3))
  next
    case False
    then have "pi_world (pipe_step T m p) = pi_world p"
      unfolding Receive by (auto simp: store_batches_def split: list.split)
    then show ?thesis by (rule that(1))
  qed
qed (use that(1) in simp_all)

subsection \<open>What building leaves alone\<close>

text \<open>
  While a generation is built, the index stays sound, the generation stays a building one of its
  source, the readers of every source see what they saw, and nothing but progress is reported.
\<close>

definition owns_build :: "uuid \<Rightarrow> uuid \<Rightarrow> index_db \<Rightarrow> bool" where
  "owns_build gen source db \<longleftrightarrow>
     index_ok db \<and> list_ex (is_owned_building gen source) (db_generations db) \<and> db_sources db source \<noteq> None"

definition keeps_index :: "uuid \<Rightarrow> uuid \<Rightarrow> index_db \<Rightarrow> index_db \<Rightarrow> bool" where
  "keeps_index gen source db db' \<longleftrightarrow>
     (owns_build gen source db \<longrightarrow> owns_build gen source db' \<and> (\<forall>s. visible_chunks s db' = visible_chunks s db))"

definition builds :: "uuid \<Rightarrow> uuid \<Rightarrow> ingest_world \<Rightarrow> ingest_world \<Rightarrow> bool" where
  "builds gen source w w' \<longleftrightarrow> sends_progress w w' \<and> keeps_index gen source (iw_db w) (iw_db w')"

interpretation bd: step_relation "builds gen source" for gen source
  by unfold_locales
    (auto simp: builds_def keeps_index_def sends_progress_refl intro: sends_progress_trans,
     simp add: sends_progress_def)

lemma quiet_builds: "quiet w w' \<Longrightarrow> builds gen source w w'"
  by (simp add: quiet_def builds_def keeps_index_def)

lemma builds_quiet: "run_keeps quiet m \<Longrightarrow> run_keeps (builds gen source) m"
  by (simp add: run_keeps_def quiet_builds)

lemma keeps_index_store:
  "keeps_index gen source db (snd (store_chunk_batch cr fresh gen source cs vs base db))"
  using store_chunk_batch_cases [of cr fresh gen source cs vs base db]
  by (auto simp: keeps_index_def owns_build_def visible_stored store_chunk_batch_ok)

lemma builds_transaction:
  assumes "pt_generation T = gen" and "pt_source T = source"
  shows "builds gen source w (snd (store_in_transaction T a s c b w))"
proof -
  have "sends_progress w (snd (store_in_transaction T a s c b w))"
    unfolding store_in_transaction_def sends_progress_def
    by (auto split: option.split prod.split sum.split)
  moreover have "keeps_index gen source (iw_db w) (iw_db (snd (store_in_transaction T a s c b w)))"
    using store_in_transaction_cases [of T a s c b w] keeps_index_store
    unfolding assms by (metis keeps_index_def)
  ultimately show ?thesis by (simp add: builds_def)
qed

lemma builds_step:
  assumes "pt_generation T = gen" and "pt_source T = source"
  shows "builds gen source (pi_world p) (pi_world (pipe_step T m p))"
proof (rule pipe_step_world [of T m p])
  assume "pi_world (pipe_step T m p) = pi_world p"
  then show ?thesis by (simp add: bd.refl)
next
  fix ev assume "\<not> is_terminal_source_event ev"
    "pi_world (pipe_step T m p) = (pi_world p)\<lparr>iw_sent := iw_sent (pi_world p) @ [(pt_notebook T, ev)]\<rparr>"
  then show ?thesis by (simp add: builds_def keeps_index_def sends_progress_def)
next
  fix a s c b assume "pi_world (pipe_step T m p) = snd (store_in_transaction T a s c b (pi_world p))"
  then show ?thesis using builds_transaction [OF assms] by simp
qed

lemma builds_run_pipe:
  assumes "pt_generation T = gen" and "pt_source T = source"
  shows "builds gen source w (pi_world (run_pipe T S w))"
  unfolding run_pipe_def
  by (rule fold_keeps [where P = "\<lambda>p. builds gen source w (pi_world p)"])
     (auto intro: bd.trans builds_step [OF assms] simp: pipe_start_def bd.refl)

lemma builds_embed: "run_keeps (builds gen source) (embed_and_store E S gen source nb chunks reused)"
  by (auto simp: embed_and_store_def run_keeps_def Let_def bd.keeps_stop [unfolded run_keeps_def]
      builds_run_pipe split: option.split)

lemma set_status_index:
  "db_generations (set_status i st m db) = db_generations db"
  "db_chunks (set_status i st m db) = db_chunks db"
  "active_of s (set_status i st m db) = active_of s db"
  "db_sources (set_status i st m db) s = None \<longleftrightarrow> db_sources db s = None"
  by (auto simp: set_status_def active_of_def split: option.split)

lemma set_status_ok: "index_ok db \<Longrightarrow> index_ok (set_status i st m db)"
  by (simp add: index_ok_def set_status_index chunks_of_def)

lemma keeps_index_status: "keeps_index gen source db (set_status i st m db)"
proof -
  have "visible_chunks s (set_status i st m db) = visible_chunks s db" for s
    by (rule visible_same) (simp_all add: set_status_index)
  then show ?thesis by (simp add: keeps_index_def owns_build_def set_status_ok set_status_index)
qed

lemma builds_index_statement:
  "(\<And>db. keeps_index gen source db (snd (f db))) \<Longrightarrow> run_keeps (builds gen source) (statement E (on_index f))"
  by (rule bd.keeps_statement)
     (auto simp: on_index_def builds_def sends_progress_def split_beta)

lemma builds_status: "run_keeps (builds gen source) (update_source_status E i st m)"
  unfolding update_source_status_def fetch_or_not_found_def
proof (rule bd.keeps_and_then)
  show "run_keeps (builds gen source) (statement E (\<lambda>w. (case iw_sources w i of
      None \<Rightarrow> Inl (source_missing i) | Some s \<Rightarrow> Inr s, w)))"
    by (rule bd.keeps_statement) (simp add: bd.refl)
next
  fix r :: "app_error + source_model"
  have "run_keeps (builds gen source) (statement E (on_index (\<lambda>db. (Inr (), set_status i st m db))))"
    by (rule builds_index_statement) (simp add: keeps_index_status)
  then show "run_keeps (builds gen source) (case r of Inl e \<Rightarrow> ret (Inl e)
      | Inr _ \<Rightarrow> statement E (on_index (\<lambda>db. (Inr (), set_status i st m db))))"
    by (cases r) (simp_all add: bd.keeps_ret)
qed

lemma list_ex_map_same: "(\<And>x. Q (h x) = Q x) \<Longrightarrow> list_ex Q (map h xs) = list_ex Q xs"
  by (induction xs) simp_all

lemma owned_record_build_plan:
  "list_ex (is_owned_building gen source) (db_generations (record_build_plan g n c db)) =
     list_ex (is_owned_building gen source) (db_generations db)"
  unfolding record_build_plan_def generations_update
  by (rule list_ex_map_same) (simp add: is_owned_building_def)

lemma keeps_index_plan: "keeps_index gen source db (record_build_plan g n c db)"
proof -
  have "visible_chunks s (record_build_plan g n c db) = visible_chunks s db" for s
    by (rule visible_same) (simp_all add: record_build_plan_def)
  then show ?thesis
    by (simp add: keeps_index_def owns_build_def record_build_plan_ok owned_record_build_plan
        record_build_plan_def [THEN arg_cong, of db_sources])
qed

lemma builds_reuse: "run_keeps (builds gen source) (compute_embedding_reuse E i fp chunks)"
  unfolding compute_embedding_reuse_def
  by (auto intro!: bd.keeps_intros bd.keeps_statement simp: bd.refl)

lemma builds_broadcast: "\<not> is_terminal_source_event ev \<Longrightarrow> run_keeps (builds gen source) (broadcast_to nb ev)"
  by (rule builds_quiet [OF quiet_broadcast])

lemma builds_from_failure: "run_keeps (builds gen source) (from_failure r)"
  by (auto simp: from_failure_def bd.keeps_intros split: sum.split)

lemma building_is_unseen:
  "run_keeps (builds (io_generation own) source) (build_chunks E S own ex source nb)"
  unfolding build_chunks_def store_chunks_of_def Let_def
  by (intro bd.keeps_intros builds_from_failure builds_index_statement builds_reuse builds_status
      builds_broadcast builds_embed) (simp_all add: keeps_index_plan status_event_def)

subsection \<open>What a finished stage has stored\<close>

lemma and_then_Done:
  "and_then m f w = (Done y, w'') \<longleftrightarrow> (\<exists>x w'. m w = (Done x, w') \<and> f x w' = (Done y, w''))"
  by (auto simp: and_then_def split: prod.splits ran.splits)

lemma stage_Done: "stage name r w = (Done x, w') \<longleftrightarrow> r = Inr x \<and> w' = w"
  by (auto simp: stage_def ret_def stop_def split: sum.split)

lemma ret_Done: "ret x w = (Done y, w') \<longleftrightarrow> y = x \<and> w' = w"
  by (auto simp: ret_def)

lemma or_fail_Done: "or_fail r w = (Done x, w') \<longleftrightarrow> r = Inr x \<and> w' = w"
  by (auto simp: or_fail_def ret_def stop_def split: sum.split)

lemma from_failure_Done: "from_failure r w = (Done x, w') \<longleftrightarrow> r = Inr x \<and> w' = w"
  by (auto simp: from_failure_def ret_def stop_def split: sum.split)

lemma statement_Done:
  "statement E f w = (Done (Inr x), w') \<Longrightarrow> \<exists>n. f (w\<lparr>iw_fuel := n\<rparr>) = (Inr x, w')"
  by (auto simp: statement_def await_def split: nat.splits option.splits prod.splits)

lemma index_statement_Done:
  assumes "statement E (on_index f) w = (Done (Inr x), w')"
  shows "f (iw_db w) = (Inr x, iw_db w')"
proof -
  from statement_Done [OF assms] obtain n where n: "on_index f (w\<lparr>iw_fuel := n\<rparr>) = (Inr x, w')" by blast
  obtain r db where "f (iw_db w) = (r, db)" by fastforce
  with n show ?thesis by (auto simp: on_index_def)
qed

lemmas run_Done = and_then_Done stage_Done ret_Done or_fail_Done from_failure_Done

definition planned :: "uuid \<Rightarrow> nat \<Rightarrow> index_db \<Rightarrow> bool" where
  "planned gen n db \<longleftrightarrow> (\<exists>g\<in>set (db_generations db). gn_id g = gen \<and> gn_expected g = Some (int n))"

lemma planned_record:
  assumes "list_ex (is_owned_building gen source) (db_generations db)" and "n \<le> i32_max"
  shows "planned gen n (record_build_plan gen (i32_or_max n) c db)"
proof -
  obtain g where g: "g \<in> set (db_generations db)" "gn_id g = gen" "gn_state g = GenBuilding"
    using assms(1) by (auto simp: list_ex_iff is_owned_building_def)
  let ?f = "\<lambda>g. g\<lparr>gn_expected := Some (i32_or_max n), gn_chunking_fp := chunking_fingerprint c,
              gn_schema_version := cp_schema_version c, gn_size_unit := cp_size_unit c,
              gn_sizer := cp_sizer_identity c\<rparr>"
  have "?f g \<in> set (db_generations (record_build_plan gen (i32_or_max n) c db))"
    unfolding record_build_plan_def generations_update set_map
    by (rule image_eqI [OF _ g(1)]) (simp add: g)
  then show ?thesis
    using g assms(2) unfolding planned_def by (intro bexI [of _ "?f g"]) (simp_all add: i32_or_max_def)
qed

lemma flatten_length: "flatten_parent_child_chunks E parents = Inr chunks \<Longrightarrow> length chunks \<le> max_chunks"
proof -
  have inner: "length (fold (\<lambda>c chunks. chunks @ [chunk_of_child E t (length chunks) c]) cs acc) =
      length acc + length cs" for t cs acc
    by (induction cs arbitrary: acc) simp_all
  have "length (fold (\<lambda>p. fold (\<lambda>c chunks. chunks @ [chunk_of_child E (pch_text p) (length chunks) c])
      (pch_children p)) ps acc) = length acc + sum_list (map (\<lambda>p. length (pch_children p)) ps)" for ps acc
    by (induction ps arbitrary: acc) (simp_all add: inner)
  from this [of parents "[]"]
  have "length (flatten_loop E parents) = sum_list (map (\<lambda>p. length (pch_children p)) parents)"
    by (simp add: flatten_loop_def)
  then show "flatten_parent_child_chunks E parents = Inr chunks \<Longrightarrow> length chunks \<le> max_chunks"
    by (auto simp: flatten_parent_child_chunks_def Let_def split: if_splits)
qed

lemma chunked_length: "chunk_and_enrich E ex = Inr chunks \<Longrightarrow> length chunks \<le> max_chunks"
  by (auto simp: chunk_and_enrich_def dest: flatten_length split: sum.splits if_splits option.splits)

lemma run_pipe_ok:
  assumes "length (pt_chunks T) \<le> i32_max" and "stored_ok T (iw_db w)"
  shows "pipe_ok T (run_pipe T S w)"
  unfolding run_pipe_def
  by (rule fold_keeps [where P = "pipe_ok T"]) (simp_all add: pipe_step_ok assms pipe_start_ok)

lemma run_pipe_generations:
  "db_generations (iw_db (pi_world (run_pipe T S w))) = db_generations (iw_db w)"
proof -
  have store: "db_generations (iw_db (snd (store_in_transaction T a s c b w))) = db_generations (iw_db w)" for a s c b w
    using store_in_transaction_cases [of T a s c b w]
      store_chunk_batch_cases [of "ie_column_rejects (pt_env T)" "\<lambda>k. ie_fresh (pt_env T) (eb_base b + k)"
        "pt_generation T" "pt_source T" "eb_chunks b" "eb_embeddings b" "eb_base b" "iw_db w"]
    by auto
  have "db_generations (iw_db (pi_world (pipe_step T m p))) = db_generations (iw_db (pi_world p))" for m p
    by (rule pipe_step_world [of T m p]) (simp_all add: store)
  then have "db_generations (iw_db (pi_world (fold (pipe_step T) ms p))) = db_generations (iw_db (pi_world p))" for ms p
    by (induction ms arbitrary: p) simp_all
  then show ?thesis by (simp add: run_pipe_def pipe_start_def)
qed

definition task_of ::
  "ingest_env \<Rightarrow> embedder \<Rightarrow> uuid \<Rightarrow> uuid \<Rightarrow> uuid \<Rightarrow> chunk_with_context list \<Rightarrow> reuse \<Rightarrow> pipe_task" where
  "task_of E e gen source nb chunks reused =
     \<lparr>pt_env = E, pt_embedder = e, pt_generation = gen, pt_source = source, pt_notebook = nb,
      pt_chunks = chunks, pt_reused = reused\<rparr>"

lemma embed_and_store_Done:
  assumes "embed_and_store E S gen source nb chunks reused w = (Done u, w')"
    and "length chunks \<le> i32_max" and "\<forall>c\<in>set (db_chunks (iw_db w)). sk_generation c \<noteq> gen"
  shows "\<exists>e. ie_embedder E = Some e \<and> stored_ok (task_of E e gen source nb chunks reused) (iw_db w') \<and>
    db_generations (iw_db w') = db_generations (iw_db w)"
proof -
  from assms(1) obtain e where e: "ie_embedder E = Some e"
    by (auto simp: embed_and_store_def stop_def split: option.splits)
  let ?T = "task_of E e gen source nb chunks reused"
  have w': "w' = pi_world (run_pipe ?T S w)"
    using assms(1) by (auto simp: embed_and_store_def e task_of_def Let_def)
  have "stored_ok ?T (iw_db w)" using assms(3) by (simp add: stored_ok_def task_of_def)
  from run_pipe_ok [OF _ this] assms(2) have "pipe_ok ?T (run_pipe ?T S w)" by (simp add: task_of_def)
  then show ?thesis using e by (simp add: w' pipe_ok_def run_pipe_generations)
qed

lemma update_status_Done:
  assumes "update_source_status E i st m w = (Done (Inr u), w')"
  shows "iw_db w' = set_status i st m (iw_db w) \<and> iw_sources w' = iw_sources w"
proof -
  from assms obtain r w1 where r: "fetch_or_not_found E i w = (Done r, w1)"
      "(case r of Inl e \<Rightarrow> ret (Inl e) | Inr _ \<Rightarrow> statement E (on_index (\<lambda>db. (Inr (), set_status i st m db)))) w1 =
        (Done (Inr u), w')"
    by (auto simp: update_source_status_def and_then_Done)
  then obtain s where s: "r = Inr s" by (cases r) (auto simp: ret_def)
  with r(2) have run: "statement E (on_index (\<lambda>db. (Inr (), set_status i st m db))) w1 = (Done (Inr u), w')"
    by simp
  have "iw_db w' = set_status i st m (iw_db w1)"
    using index_statement_Done [OF run] by simp
  moreover have "iw_sources w' = iw_sources w1"
    using statement_Done [OF run] by (auto simp: on_index_def)
  moreover have "iw_db w1 = iw_db w \<and> iw_sources w1 = iw_sources w"
    using statement_Done [OF r(1) [unfolded fetch_or_not_found_def s]] by auto
  ultimately show ?thesis by simp
qed

lemma reuse_Done:
  assumes "compute_embedding_reuse E source fp chunks w = (Done (Inr reused), w')"
  shows "iw_db w' = iw_db w \<and> reused = reuse_of (get_reusable_embeddings source fp (iw_db w)) chunks"
proof -
  from assms obtain r where r: "statement E (\<lambda>w. (Inr (get_reusable_embeddings source fp (iw_db w)), w)) w = (Done r, w')"
      "Inr reused = (case r of Inl e \<Rightarrow> Inl e | Inr pairs \<Rightarrow> Inr (reuse_of pairs chunks))"
    by (auto simp: compute_embedding_reuse_def run_Done)
  from r(2) obtain pairs where p: "r = Inr pairs" "reused = reuse_of pairs chunks" by (cases r) auto
  from statement_Done [OF r(1) [unfolded p(1)]] p(2) show ?thesis by auto
qed

lemma built_chunks:
  assumes "build_chunks E S own ex source nb w = (Done n, w')"
    and "owns_build (io_generation own) source (iw_db w)"
    and "\<forall>c\<in>set (db_chunks (iw_db w)). sk_generation c \<noteq> io_generation own"
  shows "\<exists>e chunks. chunk_and_enrich E ex = Inr chunks \<and> n = length chunks \<and> ie_embedder E = Some e \<and>
     planned (io_generation own) n (iw_db w') \<and>
     stored_ok (task_of E e (io_generation own) source nb chunks
       (reuse_of (get_reusable_embeddings source (embedding_fingerprint (gp_embedding (io_provenance own)))
          (record_build_plan (io_generation own) (i32_or_max n)
             (current_chunking (parent_chunk_size (ex_chunking_type ex))) (iw_db w))) chunks)) (iw_db w')"
proof -
  let ?plan = "\<lambda>n. record_build_plan (io_generation own) (i32_or_max n)
     (current_chunking (parent_chunk_size (ex_chunking_type ex)))"
  from assms(1) obtain chunks where ch: "chunk_and_enrich E ex = Inr chunks"
    and st: "store_chunks_of E S own ex source nb chunks w = (Done n, w')"
    unfolding build_chunks_def run_Done by blast
  from st obtain w1 w2 w3 w4 reused where
      plan: "statement E (on_index (\<lambda>db. (Inr (), ?plan (length chunks) db))) w = (Done (Inr ()), w1)"
    and reuse: "compute_embedding_reuse E source (embedding_fingerprint (gp_embedding (io_provenance own)))
        chunks w1 = (Done (Inr reused), w2)"
    and status: "update_source_status E source StEmbedding None w2 = (Done (Inr ()), w3)"
    and said: "broadcast_to nb (status_event source (lit ''embedding'') None) w3 = (Done (), w4)"
    and run: "embed_and_store E S (io_generation own) source nb chunks reused w4 = (Done (), w')"
    and n: "n = length chunks"
    by (auto simp: store_chunks_of_def Let_def run_Done)
  have small: "length chunks \<le> i32_max"
    using chunked_length [OF ch] by (simp add: max_chunks_def i32_max_def)
  have db1: "iw_db w1 = ?plan n (iw_db w)" using index_statement_Done [OF plan] by (simp add: n)
  have db2: "iw_db w2 = iw_db w1" "reused = reuse_of (get_reusable_embeddings source
      (embedding_fingerprint (gp_embedding (io_provenance own))) (iw_db w1)) chunks"
    using reuse_Done [OF reuse] by simp_all
  have db4: "iw_db w4 = set_status source StEmbedding None (iw_db w2)"
    using update_status_Done [OF status] said by (auto simp: broadcast_to_def)
  have "\<forall>c\<in>set (db_chunks (iw_db w4)). sk_generation c \<noteq> io_generation own"
    using assms(3) by (simp add: db4 db2 db1 set_status_index record_build_plan_def)
  from embed_and_store_Done [OF run small this] obtain e where
      e: "ie_embedder E = Some e" "stored_ok (task_of E e (io_generation own) source nb chunks reused) (iw_db w')"
        "db_generations (iw_db w') = db_generations (iw_db w4)" by blast
  have "planned (io_generation own) n (iw_db w')"
    using planned_record [of _ source "iw_db w"] assms(2) small n
    by (simp add: planned_def e(3) db4 db2 db1 set_status_index owns_build_def)
  then show ?thesis using ch e(1,2) n by (simp add: db2 db1)
qed

lemma reuse_is_copied:
  assumes "reuse_of (get_reusable_embeddings source fp db) chunks i = Some v"
  shows "v \<noteq> [] \<and> (\<exists>d\<in>set (visible_chunks source db).
    sk_content_hash d = cw_content_hash (chunks ! i) \<and> sk_embedding d = Some v)"
proof -
  from assms have "(cw_content_hash (chunks ! i), v) \<in>
      set (rev (filter (\<lambda>(h, v). h \<noteq> [] \<and> v \<noteq> []) (get_reusable_embeddings source fp db)))"
    unfolding reuse_of_def Let_def by (metis map_of_SomeD option.distinct(1))
  then have v: "v \<noteq> []" and p: "(cw_content_hash (chunks ! i), v) \<in> set (get_reusable_embeddings source fp db)"
    by auto
  from p obtain d where "d \<in> set (visible_chunks source db)"
      "sk_content_hash d = cw_content_hash (chunks ! i)" "sk_embedding d = Some v"
    by (auto simp: get_reusable_embeddings_def List.map_filter_def split: option.splits if_splits)
  with v show ?thesis by blast
qed

end
