(* ===== verification/Ingestion.thy ===== *)
theory Ingestion
  imports Indexing
begin

text \<open>
  \<open>services/source_processing/mod.rs\<close> and \<open>services/ingestion_tasks.rs\<close>: claiming the right to
  build, the run under its deadline, publication, and the one failure path. What is not up to the
  code is the environment and the schedule: where the run is dropped and why, and which of the
  statements after it fail. The theorems say what a finished run has done to the index and what
  it has reported, whatever these are. The report of the drain is only logged; progress that a
  batch in flight still sends while the failure is recorded is left out of the events of a
  dropped run.
\<close>

subsection \<open>Owned tasks\<close>

record drain_report =
  dr_drained :: nat
  dr_abandoned :: nat
  dr_blocking_in_flight :: nat
  dr_within_deadline :: bool

definition is_clean :: "drain_report \<Rightarrow> bool" where
  "is_clean r \<longleftrightarrow> dr_abandoned r = 0 \<and> dr_blocking_in_flight r = 0 \<and> dr_within_deadline r"

text \<open>
  The tasks of a run: how many were spawned, how many the tracker still holds when the deadline
  passes, and how many blocking closures run on; the tracker's wait ends in time exactly when it
  holds none.
\<close>

record ingestion_tasks =
  ig_cancelled :: bool
  ig_closed :: bool
  ig_spawned :: nat
  ig_aborted :: nat

definition tasks_new :: ingestion_tasks where
  "tasks_new = \<lparr>ig_cancelled = False, ig_closed = False, ig_spawned = 0, ig_aborted = 0\<rparr>"

definition cancel_tasks :: "ingestion_tasks \<Rightarrow> ingestion_tasks" where
  "cancel_tasks t = t\<lparr>ig_cancelled := True\<rparr>"

definition spawn_task :: "ingestion_tasks \<Rightarrow> ingestion_tasks" where
  "spawn_task t = t\<lparr>ig_spawned := Suc (ig_spawned t)\<rparr>"

definition shutdown_tasks :: "nat \<Rightarrow> nat \<Rightarrow> ingestion_tasks \<Rightarrow> drain_report \<times> ingestion_tasks" where
  "shutdown_tasks still_owned pool t =
     (let t = (cancel_tasks t)\<lparr>ig_closed := True\<rparr> in
      if still_owned = 0 then
        (\<lparr>dr_drained = ig_spawned t, dr_abandoned = 0, dr_blocking_in_flight = pool,
          dr_within_deadline = True\<rparr>, t)
      else
        (\<lparr>dr_drained = ig_spawned t - still_owned, dr_abandoned = still_owned,
          dr_blocking_in_flight = pool, dr_within_deadline = False\<rparr>,
         t\<lparr>ig_aborted := ig_spawned t\<rparr>))"

lemma drain_accounts_for_every_task:
  assumes "still_owned \<le> ig_spawned t"
  shows "dr_drained (fst (shutdown_tasks still_owned pool t)) +
    dr_abandoned (fst (shutdown_tasks still_owned pool t)) = ig_spawned t"
  using assms by (simp add: shutdown_tasks_def cancel_tasks_def Let_def)

lemma drain_clean_iff:
  "is_clean (fst (shutdown_tasks still_owned pool t)) \<longleftrightarrow> still_owned = 0 \<and> pool = 0"
  by (simp add: shutdown_tasks_def is_clean_def Let_def)

subsection \<open>Ownership\<close>

definition processing_timeout_secs :: nat where "processing_timeout_secs = 600"

definition generation_retention_hours :: int where "generation_retention_hours = 24"

definition stale_build_multiplier :: nat where "stale_build_multiplier = 2"

definition stale_build_reason :: rstr where
  "stale_build_reason = lit ''Indexing was interrupted (process restart or crash) and did not finish''"

definition current_provenance ::
  "(rstr \<Rightarrow> rstr) \<Rightarrow> embedder \<Rightarrow> source_type \<Rightarrow> app_error + generation_provenance" where
  "current_provenance debug e ty =
     (let p = \<lparr>gp_embedding = from_provider (em_name e) (em_model e) (em_dimension e),
               gp_chunking = current_chunking (parent_chunk_size ty)\<rparr>
      in case validate_provenance debug p of Inl err \<Rightarrow> Inl err | Inr _ \<Rightarrow> Inr p)"

definition stale_after_secs :: "nat \<Rightarrow> int" where
  "stale_after_secs timeout_secs = int (min (min (stale_build_multiplier * timeout_secs) u64_max) (2 ^ 63 - 1))"

definition claim_index_ownership ::
  "ingest_env \<Rightarrow> uuid \<Rightarrow> source_type \<Rightarrow> nat \<Rightarrow> (app_error + index_ownership option) run" where
  "claim_index_ownership E source ty timeout_secs =
     (case ie_embedder E of
        None \<Rightarrow> ret (Inl no_embedder)
      | Some e \<Rightarrow>
          (case current_provenance (ie_debug E) e ty of
             Inl err \<Rightarrow> ret (Inl err)
           | Inr p \<Rightarrow>
               and_then (statement E (\<lambda>w. on_index (\<lambda>db. case fail_stale_builds (ie_now E (iw_fuel w))
                   (stale_after_secs timeout_secs) stale_build_reason db of (n, db') \<Rightarrow> (Inr n, db')) w))
               (\<lambda>recovered. case recovered of
                  Inl err \<Rightarrow> ret (Inl err)
                | Inr _ \<Rightarrow>
                    and_then (statement E (\<lambda>w. on_index (claim (ie_fresh E (iw_fuel w)) (ie_now E (iw_fuel w))
                        (ie_fk_error E) source p) w))
                    (\<lambda>claimed. ret (case claimed of
                       Inl err \<Rightarrow> Inl err
                     | Inr None \<Rightarrow> Inr None
                     | Inr (Some gen) \<Rightarrow> Inr (Some \<lparr>io_generation = gen, io_provenance = p\<rparr>))))))"

subsection \<open>The build\<close>

record build_outcome =
  bo_degraded :: "rstr list"
  bo_total_chunks :: nat

definition source_not_found :: app_error where
  "source_not_found = NotFound (lit ''Source not found'')"

definition run_build ::
  "ingest_env \<Rightarrow> schedule \<Rightarrow> index_ownership \<Rightarrow> uuid \<Rightarrow> uuid \<Rightarrow> source_type \<Rightarrow> build_outcome run" where
  "run_build E S own source nb ty =
     and_then (update_source_status E source StProcessing None) (\<lambda>u.
     and_then (stage (lit ''Failed to record processing status'') u) (\<lambda>_.
     and_then (broadcast_to nb (status_event source (lit ''processing'') None)) (\<lambda>_.
     and_then (get_source E source) (\<lambda>r.
     and_then (or_fail (case r of Inl e \<Rightarrow> Inl e | Inr None \<Rightarrow> Inl source_not_found | Inr (Some s) \<Rightarrow> Inr s)) (\<lambda>model.
     and_then (extract_content E source nb ty model) (\<lambda>ex.
     and_then (or_fail (validate_content_limits (ie_config E) (ex_text ex))) (\<lambda>_.
     and_then (build_chunks E S own ex source nb) (\<lambda>n.
     ret \<lparr>bo_degraded = ex_degraded ex, bo_total_chunks = n\<rparr>))))))))"

subsection \<open>The endings\<close>

text \<open>
  After the build nothing drops the run any more; each of its statements may still fail, and the
  times are what the clocks say then.
\<close>

record ending =
  en_shutdown :: bool
  en_timeout_secs :: nat
  en_publish_fault :: "db_err option"
  en_reclaim_fault :: "db_err option"
  en_fail_fault :: "db_err option"
  en_now :: int
  en_elapsed_ms :: nat

definition reclaim_obsolete_generations :: "ending \<Rightarrow> uuid \<Rightarrow> ingest_world \<Rightarrow> ingest_world" where
  "reclaim_obsolete_generations N source w =
     (case en_reclaim_fault N of
        Some _ \<Rightarrow> w
      | None \<Rightarrow> w\<lparr>iw_db := snd (reclaim (en_now N) generation_retention_hours source (iw_db w))\<rparr>)"

definition publish_failure :: "app_error \<Rightarrow> pipeline_failure" where
  "publish_failure e = failure_new (lit ''Failed to publish the rebuilt index: '' @ app_error_text e) e"

definition publish_generation ::
  "ingest_env \<Rightarrow> ending \<Rightarrow> index_ownership \<Rightarrow> uuid \<Rightarrow> uuid \<Rightarrow> source_type \<Rightarrow> build_outcome \<Rightarrow> ingest_world \<Rightarrow>
   (pipeline_failure + unit) \<times> ingest_world" where
  "publish_generation E N own source nb ty out w =
     (case en_publish_fault N of
        Some e \<Rightarrow> (Inl (publish_failure (Database e)), w)
      | None \<Rightarrow>
          (case publish (en_now N) (io_generation own) source
              (ep_dimension (gp_embedding (io_provenance own))) (iw_db w) of
             (Inl e, _) \<Rightarrow> (Inl (publish_failure e), w)
           | (Inr published, db) \<Rightarrow>
               let degraded = bo_degraded out; n = po_chunk_count published in
               (Inr (), reclaim_obsolete_generations N source
                  (w\<lparr>iw_db := db, iw_sent := iw_sent w @ [(nb, SrcReady source n degraded)],
                     iw_events := iw_events w @
                       (if degraded = [] then [] else [SourceProcessingDegraded (ie_account E) nb source degraded]) @
                       [SourceProcessingCompleted (ie_account E) nb source ty (en_elapsed_ms N) n]\<rparr>))))"

definition fail_run ::
  "ingest_env \<Rightarrow> ending \<Rightarrow> index_ownership \<Rightarrow> uuid \<Rightarrow> uuid \<Rightarrow> source_type \<Rightarrow> pipeline_failure \<Rightarrow> ingest_world \<Rightarrow>
   (app_error + unit) \<times> ingest_world" where
  "fail_run E N own source nb ty f w =
     (let db = (case en_fail_fault N of
            Some _ \<Rightarrow> iw_db w
          | None \<Rightarrow> mark_failed (en_now N) (io_generation own) source (pf_message f) (iw_db w))
      in (Inl (pf_error f),
          w\<lparr>iw_db := db, iw_sent := iw_sent w @ [(nb, SrcError source (pf_message f))],
            iw_events := iw_events w @ [SourceProcessingFailed (ie_account E) nb source ty
              (failure_error_type (ie_unicode E) f) (en_elapsed_ms N)]\<rparr>))"

definition deadline_failure :: "nat \<Rightarrow> pipeline_failure" where
  "deadline_failure secs = failure_new timeout_message
     (Internal (lit ''source processing exceeded its '' @ show_nat secs @ lit ''s deadline''))"

definition process_source ::
  "ingest_env \<Rightarrow> schedule \<Rightarrow> ending \<Rightarrow> index_ownership \<Rightarrow> uuid \<Rightarrow> uuid \<Rightarrow> source_type \<Rightarrow> ingest_world \<Rightarrow>
   (app_error + unit) \<times> ingest_world" where
  "process_source E S N own source nb ty w =
     (case run_build E S own source nb ty w of
        (Done out, w) \<Rightarrow>
          (case publish_generation E N own source nb ty out w of
             (Inr _, w) \<Rightarrow> (Inr (), w)
           | (Inl f, w) \<Rightarrow> fail_run E N own source nb ty f w)
      | (Stopped f, w) \<Rightarrow> fail_run E N own source nb ty f w
      | (Dropped, w) \<Rightarrow>
          fail_run E N own source nb ty
            (if en_shutdown N then failure_shutdown else deadline_failure (en_timeout_secs N)) w)"

subsection \<open>A build is unseen\<close>

lemma quiet_get_source: "run_keeps quiet (get_source E i)"
  unfolding get_source_def by (rule qt.keeps_statement) (simp add: qt.refl)

lemma run_build_is_unseen: "run_keeps (builds (io_generation own) source) (run_build E S own source nb ty)"
  unfolding run_build_def
  by (intro bd.keeps_intros builds_status builds_broadcast builds_quiet [OF quiet_get_source]
      builds_quiet [OF extraction_is_quiet] building_is_unseen) (simp add: status_event_def)

lemma run_build_cases:
  obtains (finished) out w1 where "run_build E S own source nb ty w = (Done out, w1)"
      and "builds (io_generation own) source w w1"
  | (ended) r w1 where "run_build E S own source nb ty w = (r, w1)" and "\<not> (\<exists>out. r = Done out)"
      and "builds (io_generation own) source w w1"
proof -
  obtain r w1 where r: "run_build E S own source nb ty w = (r, w1)" by fastforce
  from run_keepsD [OF run_build_is_unseen r] r show thesis
    using finished ended by (cases "\<exists>out. r = Done out") blast+
qed

lemma publish_generation_cases:
  obtains (refused) f where "publish_generation E N own source nb ty out w = (Inl f, w)"
  | (published) n where "fst (publish_generation E N own source nb ty out w) = Inr ()"
      and "fst (publish (en_now N) (io_generation own) source (ep_dimension (gp_embedding (io_provenance own))) (iw_db w)) =
        Inr \<lparr>po_generation_id = io_generation own, po_chunk_count = n\<rparr>"
      and "iw_db (snd (publish_generation E N own source nb ty out w)) =
        (let db = snd (publish (en_now N) (io_generation own) source
             (ep_dimension (gp_embedding (io_provenance own))) (iw_db w))
         in case en_reclaim_fault N of Some _ \<Rightarrow> db
            | None \<Rightarrow> snd (reclaim (en_now N) generation_retention_hours source db))"
      and "iw_sent (snd (publish_generation E N own source nb ty out w)) =
        iw_sent w @ [(nb, SrcReady source n (bo_degraded out))]"
proof (cases "en_publish_fault N")
  case (Some e)
  then show ?thesis using refused by (simp add: publish_generation_def)
next
  case None
  let ?pub = "publish (en_now N) (io_generation own) source (ep_dimension (gp_embedding (io_provenance own))) (iw_db w)"
  show ?thesis
  proof (cases rule: publish_cases [of "en_now N" "io_generation own" source
        "ep_dimension (gp_embedding (io_provenance own))" "iw_db w"])
    case (refused e)
    then show ?thesis using that(1) None by (simp add: publish_generation_def)
  next
    case (moved g)
    then obtain db where p: "?pub = (Inr \<lparr>po_generation_id = io_generation own, po_chunk_count = gn_stored g\<rparr>, db)"
      by blast
    show ?thesis
      by (rule that(2) [of "gn_stored g"])
         (simp_all add: publish_generation_def None p Let_def reclaim_obsolete_generations_def split: option.split)
  qed
qed

subsection \<open>What a run has done\<close>

lemma fail_run_visible:
  "visible_chunks s (iw_db (snd (fail_run E N own source nb ty f w))) = visible_chunks s (iw_db w)"
  by (simp add: fail_run_def Let_def visible_mark_failed split: option.split)

lemma fail_run_sent:
  "fst (fail_run E N own source nb ty f w) = Inl (pf_error f)"
  "iw_sent (snd (fail_run E N own source nb ty f w)) = iw_sent w @ [(nb, SrcError source (pf_message f))]"
  by (simp_all add: fail_run_def Let_def)

lemma process_source_cases:
  obtains (ok) out w1 n where "run_build E S own source nb ty w = (Done out, w1)"
      and "builds (io_generation own) source w w1"
      and "process_source E S N own source nb ty w = (Inr (), snd (publish_generation E N own source nb ty out w1))"
      and "fst (publish (en_now N) (io_generation own) source (ep_dimension (gp_embedding (io_provenance own))) (iw_db w1)) =
        Inr \<lparr>po_generation_id = io_generation own, po_chunk_count = n\<rparr>"
      and "iw_db (snd (publish_generation E N own source nb ty out w1)) =
        (let db = snd (publish (en_now N) (io_generation own) source
             (ep_dimension (gp_embedding (io_provenance own))) (iw_db w1))
         in case en_reclaim_fault N of Some _ \<Rightarrow> db
            | None \<Rightarrow> snd (reclaim (en_now N) generation_retention_hours source db))"
      and "iw_sent (snd (publish_generation E N own source nb ty out w1)) =
        iw_sent w1 @ [(nb, SrcReady source n (bo_degraded out))]"
  | (failed) f w1 where "builds (io_generation own) source w w1"
      and "process_source E S N own source nb ty w = fail_run E N own source nb ty f w1"
proof (cases rule: run_build_cases [where E = E and S = S and own = own and source = source and nb = nb and ty = ty and w = w])
  case (finished out w1)
  show thesis
  proof (cases rule: publish_generation_cases [where E = E and N = N and own = own and source = source and nb = nb and ty = ty and out = out and w = w1])
    case (refused f)
    then show thesis using failed finished by (simp add: process_source_def)
  next
    case (published n)
    then obtain w2 where "publish_generation E N own source nb ty out w1 = (Inr (), w2)"
      by (metis prod.collapse)
    then have "process_source E S N own source nb ty w = (Inr (), snd (publish_generation E N own source nb ty out w1))"
      using finished(1) by (simp add: process_source_def)
    from ok [OF finished(1,2) this published(2-4)] show thesis .
  qed
next
  case (ended r w1)
  then show thesis using failed by (cases r) (auto simp: process_source_def)
qed

definition terminal_events :: "(uuid \<times> source_event) list \<Rightarrow> (uuid \<times> source_event) list" where
  "terminal_events evs = filter (\<lambda>(nb, ev). is_terminal_source_event ev) evs"

lemma terminal_events_progress:
  "sends_progress w w' \<Longrightarrow> terminal_events (iw_sent w') = terminal_events (iw_sent w)"
  by (auto simp: sends_progress_def terminal_events_def list_all_iff filter_empty_conv)

text \<open>
  C4. A failed ingestion leaves every reader where they were, wherever it stopped.
\<close>

theorem failed_ingestion_keeps_the_index:
  assumes "process_source E S N own source nb ty w = (Inl e, w')"
    and "owns_build (io_generation own) source (iw_db w)"
  shows "visible_chunks s (iw_db w') = visible_chunks s (iw_db w)"
proof (cases rule: process_source_cases [where E = E and S = S and N = N and own = own and source = source and nb = nb and ty = ty and w = w])
  case (failed f w1)
  have "w' = snd (fail_run E N own source nb ty f w1)" using assms(1) failed(2) by simp
  then show ?thesis
    using failed(1) assms(2) by (simp add: fail_run_visible builds_def keeps_index_def)
qed (use assms(1) in simp)

text \<open>
  C5. Whatever happens, a run reports exactly one terminal event: ready when it succeeded, error
  when it failed.
\<close>

theorem one_terminal_event:
  "\<exists>ev. terminal_events (iw_sent (snd (process_source E S N own source nb ty w))) =
     terminal_events (iw_sent w) @ [(nb, ev)] \<and>
     (case fst (process_source E S N own source nb ty w) of
        Inr _ \<Rightarrow> (\<exists>n degraded. ev = SrcReady source n degraded)
      | Inl _ \<Rightarrow> (\<exists>message. ev = SrcError source message))"
proof (cases rule: process_source_cases [where E = E and S = S and N = N and own = own and source = source and nb = nb and ty = ty and w = w])
  case (ok out w1 n)
  have "terminal_events (iw_sent w1) = terminal_events (iw_sent w)"
    using ok(2) terminal_events_progress by (simp add: builds_def)
  then show ?thesis by (simp add: ok(3,6)) (simp add: terminal_events_def)
next
  case (failed f w1)
  have "terminal_events (iw_sent w1) = terminal_events (iw_sent w)"
    using failed(1) terminal_events_progress by (simp add: builds_def)
  then show ?thesis by (simp add: failed(2) fail_run_sent) (simp add: terminal_events_def)
qed

text \<open>A generation that failed no longer keeps its source from being claimed.\<close>

lemma mark_failed_frees:
  assumes "owns_build gen source db"
  shows "\<not> list_ex (is_building_of source) (db_generations (mark_failed now gen source reason db))"
proof
  assume "list_ex (is_building_of source) (db_generations (mark_failed now gen source reason db))"
  moreover have "db_generations (mark_failed now gen source reason db) =
      db_generations (Generation.fail_generation now gen reason db)"
    by (simp add: mark_failed_def restore_source_status_def split: option.split)
  ultimately obtain g where g: "g \<in> set (db_generations db)" "is_building_of source g" "gn_id g \<noteq> gen"
    by (auto simp: list_ex_iff Generation.fail_generation_def generations_update is_building_of_def split: if_splits)
  obtain h where h: "h \<in> set (db_generations db)" "is_building_of source h" "gn_id h = gen"
    using assms by (auto simp: owns_build_def list_ex_iff is_owned_building_def is_building_of_def)
  have "{g, h} \<subseteq> set (filter (is_building_of source) (db_generations db))" using g h by simp
  then have "card {g, h} \<le> length (filter (is_building_of source) (db_generations db))"
    by (meson card_length card_mono List.finite_set le_trans)
  moreover have "g \<noteq> h" using g(3) h(3) by auto
  ultimately show False
    using assms index_okD(2) [of db source] by (simp add: owns_build_def)
qed

text \<open>
  C6. When the failure could be recorded, the source is free again: nothing builds it any more.
\<close>

theorem failed_ingestion_frees_the_source:
  assumes "process_source E S N own source nb ty w = (Inl e, w')"
    and "owns_build (io_generation own) source (iw_db w)" and "en_fail_fault N = None"
  shows "find_building source (iw_db w') = None"
proof (cases rule: process_source_cases [where E = E and S = S and N = N and own = own and source = source and nb = nb and ty = ty and w = w])
  case (failed f w1)
  then have "owns_build (io_generation own) source (iw_db w1)"
    using assms(2) by (simp add: builds_def keeps_index_def)
  from mark_failed_frees [OF this] show ?thesis
    using assms(1,3) failed(2)
    by (auto simp: fail_run_def Let_def find_building_def find_None_iff list_ex_iff)
qed (use assms(1) in simp)

subsection \<open>What is published\<close>

definition answered :: "embedder \<Rightarrow> chunk_with_context \<Rightarrow> rfloat list \<Rightarrow> bool" where
  "answered e d v \<longleftrightarrow>
     (\<exists>n texts new j. em_embed_batch e n texts = Inr new \<and> j < length new \<and> j < length texts \<and>
        texts ! j = embedded_text d \<and> new ! j = v)"

definition copied :: "stored_chunk list \<Rightarrow> chunk_with_context \<Rightarrow> rfloat list \<Rightarrow> bool" where
  "copied before d v \<longleftrightarrow>
     (\<exists>c\<in>set before. sk_content_hash c = cw_content_hash d \<and> sk_embedding c = Some v)"

definition indexed_as ::
  "embedder \<Rightarrow> stored_chunk list \<Rightarrow> chunk_with_context list \<Rightarrow> stored_chunk list \<Rightarrow> bool" where
  "indexed_as e before chunks rows \<longleftrightarrow>
     length rows = length chunks \<and>
     (\<forall>i<length chunks. \<exists>c\<in>set rows. sk_index c = int i \<and> carries_chunk c (chunks ! i) \<and>
        (\<exists>v. sk_embedding c = Some v \<and> (copied before (chunks ! i) v \<or> answered e (chunks ! i) v)))"

lemma distinct_indices:
  assumes "index_ok db"
  shows "distinct (map sk_index (chunks_of db gen))"
proof -
  have "distinct (map chunk_key (chunks_of db gen))"
    using index_okD(3) [OF assms] unfolding chunks_of_def by (rule distinct_map_filter)
  then show ?thesis
    by (auto simp: distinct_map inj_on_def chunk_key_def chunks_of_def)
qed

lemma published_rows:
  assumes ok: "owns_build gen source db" and rows: "stored_ok T db" and plan: "planned gen n db"
    and T: "pt_generation T = gen" "length (pt_chunks T) = n" and width: "0 < width"
    and pub: "fst (publish now gen source width db) = Inr out"
  shows "length (chunks_of db gen) = n"
    and "\<forall>i<n. \<exists>c\<in>set (chunks_of db gen). sk_index c = int i \<and> carries_chunk c (pt_chunks T ! i) \<and>
      (\<exists>v. sk_embedding c = Some v \<and> v \<noteq> [] \<and> slot_ok T i v)"
proof -
  let ?cs = "chunks_of db gen"
  have row: "\<exists>i<n. sk_index c = int i \<and> carries_chunk c (pt_chunks T ! i) \<and>
      (\<exists>v. sk_embedding c = Some v \<and> slot_ok T i v)" if "c \<in> set ?cs" for c
    using rows that T by (auto simp: stored_ok_def row_ok_def chunks_of_def)
  have iok: "index_ok db" using ok by (simp add: owns_build_def)
  have counted: "length ?cs = n \<and> sound_vectors (i32_or_max width) ?cs"
  proof (cases rule: publish_cases [of now gen source width db])
    case (moved g)
    obtain x where x: "x \<in> set (db_generations db)" "gn_id x = gen" "gn_expected x = Some (int n)"
      using plan by (auto simp: planned_def)
    have g: "gn_id g = gen" "gn_expected g = Some (gn_stored g)"
      using moved(4) by (simp_all add: is_publishable_def)
    from moved(3) obtain y where y: "y \<in> set (db_generations db)"
        "g = (if gn_id y = gen then y\<lparr>gn_stored := int (length ?cs)\<rparr> else y)"
      unfolding sync_stored_count_def generations_update set_map by blast
    have "gn_id y = gen" using y(2) g(1) by (cases "gn_id y = gen") simp_all
    then have "y = x" using same_generation [OF iok y(1) x(1)] x(2) by simp
    then have "int n = int (length ?cs)" using y(2) g(2) x by simp
    then show ?thesis using moved(2) by simp
  qed (use pub in simp)
  then show "length ?cs = n" by simp
  have "sk_index ` set ?cs \<subseteq> int ` {..<n}" using row by auto
  moreover have "card (sk_index ` set ?cs) = card (int ` {..<n})"
    using distinct_card [OF distinct_indices [OF iok, of gen]] counted by (simp add: card_image)
  ultimately have all: "sk_index ` set ?cs = int ` {..<n}" by (simp add: card_subset_eq)
  show "\<forall>i<n. \<exists>c\<in>set ?cs. sk_index c = int i \<and> carries_chunk c (pt_chunks T ! i) \<and>
      (\<exists>v. sk_embedding c = Some v \<and> v \<noteq> [] \<and> slot_ok T i v)"
  proof (intro allI impI)
    fix i assume "i < n"
    then have "int i \<in> sk_index ` set ?cs" unfolding all by simp
    then obtain c where c: "c \<in> set ?cs" "sk_index c = int i" by auto
    from row [OF c(1)] c(2) obtain v where v: "carries_chunk c (pt_chunks T ! i)"
        "sk_embedding c = Some v" "slot_ok T i v" by auto
    have "int (length v) = i32_or_max width"
      using counted c(1) v(2) by (auto simp: sound_vectors_def)
    then have "v \<noteq> []" using width by (auto simp: i32_or_max_def i32_max_def)
    with c v show "\<exists>c\<in>set ?cs. sk_index c = int i \<and> carries_chunk c (pt_chunks T ! i) \<and>
      (\<exists>v. sk_embedding c = Some v \<and> v \<noteq> [] \<and> slot_ok T i v)" by blast
  qed
qed

lemma run_build_Done:
  assumes "run_build E S own source nb ty w = (Done out, w1)"
    and "owns_build (io_generation own) source (iw_db w)"
    and "\<forall>c\<in>set (db_chunks (iw_db w)). sk_generation c \<noteq> io_generation own"
  shows "\<exists>model w2 ex w3 e chunks db. iw_sources w source = Some model \<and>
     extract_content E source nb ty model w2 = (Done ex, w3) \<and> chunk_and_enrich E ex = Inr chunks \<and>
     ie_embedder E = Some e \<and> planned (io_generation own) (length chunks) (iw_db w1) \<and>
     stored_ok (task_of E e (io_generation own) source nb chunks (reuse_of (get_reusable_embeddings source
       (embedding_fingerprint (gp_embedding (io_provenance own))) db) chunks)) (iw_db w1) \<and>
     visible_chunks source db = visible_chunks source (iw_db w) \<and>
     ex_degraded ex = bo_degraded out \<and> length chunks = bo_total_chunks out"
proof -
  from assms(1) obtain v1 v2 v3 v4 r model ex n where
      status: "update_source_status E source StProcessing None w = (Done (Inr ()), v1)"
    and said: "broadcast_to nb (status_event source (lit ''processing'') None) v1 = (Done (), v2)"
    and got: "get_source E source v2 = (Done r, v3)"
    and model: "(case r of Inl e \<Rightarrow> Inl e | Inr None \<Rightarrow> Inl source_not_found | Inr (Some s) \<Rightarrow> Inr s) = Inr model"
    and ex: "extract_content E source nb ty model v3 = (Done ex, v4)"
    and built: "build_chunks E S own ex source nb v4 = (Done n, w1)"
    and out: "out = \<lparr>bo_degraded = ex_degraded ex, bo_total_chunks = n\<rparr>"
    by (auto simp: run_build_def run_Done)
  have r: "r = Inr (Some model)" using model by (auto split: sum.splits option.splits)
  have v2: "iw_db v2 = set_status source StProcessing None (iw_db w)" "iw_sources v2 = iw_sources w"
    using update_status_Done [OF status] said by (auto simp: broadcast_to_def)
  have v3: "iw_db v3 = iw_db v2" "iw_sources v2 source = Some model"
    using statement_Done [OF got [unfolded get_source_def r]] by auto
  have v4: "iw_db v4 = iw_db v3"
    using run_keepsD [OF extraction_is_quiet ex] by (simp add: quiet_def)
  have db4: "iw_db v4 = set_status source StProcessing None (iw_db w)" by (simp add: v4 v3 v2)
  have owned: "owns_build (io_generation own) source (iw_db v4)"
      "visible_chunks source (iw_db v4) = visible_chunks source (iw_db w)"
    using keeps_index_status [of "io_generation own" source "iw_db w"] assms(2)
    by (simp_all add: db4 keeps_index_def)
  have none: "\<forall>c\<in>set (db_chunks (iw_db v4)). sk_generation c \<noteq> io_generation own"
    using assms(3) by (simp add: db4 set_status_index)
  let ?db = "record_build_plan (io_generation own) (i32_or_max n)
     (current_chunking (parent_chunk_size (ex_chunking_type ex))) (iw_db v4)"
  have "visible_chunks source ?db = visible_chunks source (iw_db v4)"
    using keeps_index_plan owned(1) by (simp add: keeps_index_def)
  with built_chunks [OF built owned(1) none] ex v2(2) v3(2) owned(2) out show ?thesis by fastforce
qed

text \<open>
  C3. A successful ingestion has made the document of its source what readers see, chunk for
  chunk, each under an embedding of its own text.
\<close>

theorem successful_ingestion_indexes_the_document:
  assumes "process_source E S N own source nb ty w = (Inr (), w')"
    and "owns_build (io_generation own) source (iw_db w)"
    and "\<forall>c\<in>set (db_chunks (iw_db w)). sk_generation c \<noteq> io_generation own"
    and "0 < ep_dimension (gp_embedding (io_provenance own))"
  shows "\<exists>model w2 ex w3 e chunks. iw_sources w source = Some model \<and>
     extract_content E source nb ty model w2 = (Done ex, w3) \<and> chunk_and_enrich E ex = Inr chunks \<and>
     ie_embedder E = Some e \<and>
     indexed_as e (visible_chunks source (iw_db w)) chunks (visible_chunks source (iw_db w'))"
proof (cases rule: process_source_cases [where E = E and S = S and N = N and own = own and source = source and nb = nb and ty = ty and w = w])
  case (failed f w1)
  then show ?thesis using assms(1) by (simp add: fail_run_def Let_def)
next
  case (ok out w1 n)
  let ?gen = "io_generation own"
  let ?width = "ep_dimension (gp_embedding (io_provenance own))"
  let ?pub = "publish (en_now N) ?gen source ?width (iw_db w1)"
  from run_build_Done [OF ok(1) assms(2,3)] obtain model w2 ex w3 e chunks db where
      first: "iw_sources w source = Some model" "extract_content E source nb ty model w2 = (Done ex, w3)"
        "chunk_and_enrich E ex = Inr chunks" "ie_embedder E = Some e"
    and plan: "planned ?gen (length chunks) (iw_db w1)"
    and rows: "stored_ok (task_of E e ?gen source nb chunks (reuse_of (get_reusable_embeddings source
       (embedding_fingerprint (gp_embedding (io_provenance own))) db) chunks)) (iw_db w1)"
    and seen: "visible_chunks source db = visible_chunks source (iw_db w)" by blast
  have owned: "owns_build ?gen source (iw_db w1)"
    using ok(2) assms(2) by (simp add: builds_def keeps_index_def)
  have w': "w' = snd (publish_generation E N own source nb ty out w1)" using ok(3) assms(1) by simp
  have iok: "index_ok (iw_db w1)" "index_ok (snd ?pub)"
    using owned publish_ok by (auto simp: owns_build_def)
  have "visible_chunks source (iw_db w') = visible_chunks source (snd ?pub)"
    unfolding w' ok(5) Let_def using visible_reclaim [OF iok(2)] by (simp split: option.split)
  also have "\<dots> = chunks_of (iw_db w1) ?gen"
    using visible_publish [OF iok(1)] ok(4) owned by (simp add: owns_build_def)
  finally have vis: "visible_chunks source (iw_db w') = chunks_of (iw_db w1) ?gen" .
  have slot: "copied (visible_chunks source (iw_db w)) (chunks ! i) v \<or> answered e (chunks ! i) v"
    if "slot_ok (task_of E e ?gen source nb chunks (reuse_of (get_reusable_embeddings source
       (embedding_fingerprint (gp_embedding (io_provenance own))) db) chunks)) i v" "v \<noteq> []" for i v
    using that reuse_is_copied [of source _ db chunks i v] seen
    unfolding slot_ok_def task_of_def copied_def answered_def by fastforce
  have "indexed_as e (visible_chunks source (iw_db w)) chunks (chunks_of (iw_db w1) ?gen)"
    using published_rows [OF owned rows plan _ _ assms(4) ok(4)] slot
    unfolding indexed_as_def by (simp add: task_of_def) blast
  with first show ?thesis unfolding vis by blast
qed

subsection \<open>Claims\<close>

lemma fail_stale_ids:
  "map gn_id (db_generations (snd (fail_stale_builds now t reason db))) = map gn_id (db_generations db)"
  "db_chunks (snd (fail_stale_builds now t reason db)) = db_chunks db"
proof -
  let ?P = "\<lambda>p. map gn_id (db_generations (snd p)) = map gn_id (db_generations db) \<and> db_chunks (snd p) = db_chunks db"
  have "?P (n, restore_source_status s r (Generation.fail_generation now g reason d))"
    if "?P (m, d)" for n m s r g d
  proof -
    have "db_generations (restore_source_status s r x) = db_generations x" for x
      by (simp add: restore_source_status_def split: option.split)
    moreover have "map gn_id (db_generations (Generation.fail_generation now g reason d)) = map gn_id (db_generations d)"
      by (simp add: Generation.fail_generation_def generations_update)
    ultimately show ?thesis using that by (simp add: Generation.fail_generation_def)
  qed
  then have "?P (fail_stale_builds now t reason db)"
    unfolding fail_stale_builds_def
    by (intro fold_keeps [where P = ?P]) (auto simp: fail_one_stale_def)
  then show "map gn_id (db_generations (snd (fail_stale_builds now t reason db))) = map gn_id (db_generations db)"
    "db_chunks (snd (fail_stale_builds now t reason db)) = db_chunks db" by simp_all
qed

lemma claim_owns:
  assumes "claim new_id now e source p db = (Inr (Some gen), db')" and "index_ok db"
    and "new_id \<notin> gn_id ` set (db_generations db)"
  shows "owns_build gen source db' \<and> (\<forall>c\<in>set (db_chunks db'). sk_generation c \<noteq> gen)"
proof -
  from assms(1) have gen: "gen = new_id" "db_sources db source \<noteq> None" "db_chunks db' = db_chunks db"
      "db_sources db' = db_sources db" "list_ex (is_owned_building new_id source) (db_generations db')"
    by (auto simp: claim_def Let_def is_owned_building_def split: if_splits)
  have "index_ok db'" using claim_ok [OF assms(2,3)] assms(1) by (metis snd_conv)
  moreover have "sk_generation c \<noteq> new_id" if "c \<in> set (db_chunks db)" for c
    using index_okD(4) [OF assms(2) that] assms(3) by (metis imageI)
  ultimately show ?thesis using gen by (simp add: owns_build_def)
qed

lemma on_index_result: "on_index f w = (r, w') \<Longrightarrow> f (iw_db w) = (r, iw_db w')"
  by (cases "f (iw_db w)") (auto simp: on_index_def)

text \<open>The two statements of a claim that was answered.\<close>

lemma claim_statements:
  assumes "claim_index_ownership E source ty secs w = (Done (Inr c), w')"
  obtains e p before now k where
    "ie_embedder E = Some e" "current_provenance (ie_debug E) e ty = Inr p"
    "claim (ie_fresh E k) now (ie_fk_error E) source p
       (snd (fail_stale_builds before (stale_after_secs secs) stale_build_reason (iw_db w))) =
     (Inr (map_option io_generation c), iw_db w')"
    "\<And>own. c = Some own \<Longrightarrow> io_provenance own = p"
proof -
  from assms obtain e p where e: "ie_embedder E = Some e" "current_provenance (ie_debug E) e ty = Inr p"
    by (auto simp: claim_index_ownership_def ret_def split: option.splits sum.splits)
  let ?failing = "\<lambda>w. on_index (\<lambda>db. case fail_stale_builds (ie_now E (iw_fuel w)) (stale_after_secs secs)
      stale_build_reason db of (n, db') \<Rightarrow> (Inr n, db')) w"
  let ?claiming = "\<lambda>w. on_index (claim (ie_fresh E (iw_fuel w)) (ie_now E (iw_fuel w)) (ie_fk_error E) source p) w"
  let ?answer = "\<lambda>claimed. case claimed of Inl err \<Rightarrow> Inl err | Inr None \<Rightarrow> Inr None
      | Inr (Some gen) \<Rightarrow> Inr (Some \<lparr>io_generation = gen, io_provenance = p\<rparr>)"
  have "and_then (statement E ?failing) (\<lambda>recovered. case recovered of Inl err \<Rightarrow> ret (Inl err)
      | Inr _ \<Rightarrow> and_then (statement E ?claiming) (\<lambda>claimed. ret (?answer claimed))) w = (Done (Inr c), w')"
    using assms by (simp add: claim_index_ownership_def e)
  then obtain r w1 where first: "statement E ?failing w = (Done r, w1)"
    and rest: "(case r of Inl err \<Rightarrow> ret (Inl err)
      | Inr _ \<Rightarrow> and_then (statement E ?claiming) (\<lambda>claimed. ret (?answer claimed))) w1 = (Done (Inr c), w')"
    unfolding and_then_Done by blast
  obtain n where r: "r = Inr n" using rest by (cases r) (auto simp: ret_def)
  from statement_Done [OF first [unfolded r]] obtain before where
      "fail_stale_builds before (stale_after_secs secs) stale_build_reason (iw_db w) = (n, iw_db w1)"
    by (auto simp: on_index_def split: prod.splits)
  then have "iw_db w1 = snd (fail_stale_builds before (stale_after_secs secs) stale_build_reason (iw_db w))" by simp
  moreover from rest r obtain claimed where claimed: "statement E ?claiming w1 = (Done claimed, w')" "?answer claimed = Inr c"
    by (auto simp: and_then_Done ret_Done)
  then have gen: "claimed = Inr (map_option io_generation c)" "\<And>own. c = Some own \<Longrightarrow> io_provenance own = p"
    by (auto split: sum.splits option.splits)
  moreover from statement_Done [OF claimed(1) [unfolded gen(1)]] obtain k where
      "claim (ie_fresh E k) (ie_now E k) (ie_fk_error E) source p (iw_db w1) = (Inr (map_option io_generation c), iw_db w')"
    by (auto dest: on_index_result)
  ultimately show thesis using that e by metis
qed

lemma granted_claim:
  assumes "claim_index_ownership E source ty secs w = (Done (Inr (Some own)), w')"
    and "index_ok (iw_db w)" and "\<forall>k. ie_fresh E k \<notin> gn_id ` set (db_generations (iw_db w))"
  shows "owns_build (io_generation own) source (iw_db w') \<and>
    (\<forall>c\<in>set (db_chunks (iw_db w')). sk_generation c \<noteq> io_generation own)"
proof -
  obtain before now k p where "claim (ie_fresh E k) now (ie_fk_error E) source p
       (snd (fail_stale_builds before (stale_after_secs secs) stale_build_reason (iw_db w))) =
     (Inr (map_option io_generation (Some own)), iw_db w')"
    using claim_statements [OF assms(1)] by metis
  then have claimed: "claim (ie_fresh E k) now (ie_fk_error E) source p
       (snd (fail_stale_builds before (stale_after_secs secs) stale_build_reason (iw_db w))) =
     (Inr (Some (io_generation own)), iw_db w')" by simp
  have "ie_fresh E k \<notin> gn_id ` set (db_generations (snd (fail_stale_builds before (stale_after_secs secs)
      stale_build_reason (iw_db w))))"
    using assms(3) fail_stale_ids(1) by (metis list.set_map)
  from claim_owns [OF claimed fail_stale_builds_ok [OF assms(2)] this] show ?thesis .
qed

text \<open>
  A claim that is granted is the exclusive right that a run relies on: the new generation is
  the one building generation of its source, it holds no chunk yet, and its vectors have the width
  of the schema.
\<close>

lemma granted_claim_owns_the_build:
  assumes "claim_index_ownership E source ty secs w = (Done (Inr (Some own)), w')"
    and "index_ok (iw_db w)" and "\<forall>k. ie_fresh E k \<notin> gn_id ` set (db_generations (iw_db w))"
  shows "owns_build (io_generation own) source (iw_db w') \<and>
    (\<forall>c\<in>set (db_chunks (iw_db w')). sk_generation c \<noteq> io_generation own) \<and>
    ep_dimension (gp_embedding (io_provenance own)) = embedding_dim"
proof -
  obtain e p where "current_provenance (ie_debug E) e ty = Inr p" "io_provenance own = p"
    using claim_statements [OF assms(1)] by metis
  then have "ep_dimension (gp_embedding (io_provenance own)) = embedding_dim"
    by (auto simp: current_provenance_def validate_provenance_def Let_def split: sum.splits if_splits)
  then show ?thesis using granted_claim [OF assms] by blast
qed

subsection \<open>A run on a concrete document\<close>

definition demo_embedder :: embedder where
  "demo_embedder = \<lparr>em_name = [], em_model = [], em_dimension = 1, em_batch_size = 2, em_concurrency = 1,
     em_embed_batch = (\<lambda>n texts. Inr (map (\<lambda>t. [Fin 1]) texts))\<rparr>"

definition demo_env :: ingest_env where
  "demo_env =
     \<lparr>ie_config = \<lparr>ic_ocr_min_text_threshold = 0, ic_ocr_max_pages_per_request = 1, ic_ocr_model = [],
        ic_max_source_size_bytes = 10, ic_max_source_words = 10, ic_default_locale = None\<rparr>,
      ie_unicode = ascii_tables, ie_decode64 = (\<lambda>_. Inl []), ie_hash = (\<lambda>bytes. bytes),
      ie_pdf_pages = (\<lambda>_. Inl []), ie_pdf_count = (\<lambda>_. Inl []), ie_open_zip = (\<lambda>_. None),
      ie_readers = \<lparr>dr_xml = (\<lambda>_. []), dr_bodies = (\<lambda>_. [])\<rparr>, ie_panic = (\<lambda>_. None),
      ie_patterns = \<lparr>cp_image = id, cp_image_url = id, cp_empty_link = id, cp_breadcrumb = id,
        cp_episode_nav = id, cp_episode_card = id, cp_timestamp = id, cp_nav_arrow = id, cp_pi_tags = id,
        cp_episodes_count = id, cp_read_time = id, cp_standalone_link = id, cp_link_to_text = id,
        cp_empty_link_whitespace = id, cp_empty_heading = id, cp_lone_punct = id, cp_multi_newline = id,
        cp_whitespace_line = id, cp_related_titles = []\<rparr>,
      ie_parse_url = (\<lambda>_. None), ie_scrape = None, ie_youtube = None, ie_ocr = None,
      ie_authorize = (\<lambda>_. Inl (Internal [])), ie_record_usage = (\<lambda>_ _. Inr ()),
      ie_splitter = whole_splitter, ie_embedder = Some demo_embedder, ie_debug = id,
      ie_statement_fault = (\<lambda>_. None), ie_now = (\<lambda>_. 0), ie_column_rejects = (\<lambda>_. None),
      ie_fresh = (\<lambda>k. 100 + k), ie_fk_error = [], ie_account = 9\<rparr>"

definition demo_own :: index_ownership where
  "demo_own = \<lparr>io_generation = 10, io_provenance = \<lparr>gp_embedding = \<lparr>ep_provider = [], ep_model = [],
     ep_dimension = 1, ep_normalization = Unit\<rparr>, gp_chunking = current_chunking 1\<rparr>\<rparr>"

definition demo_world :: "nat \<Rightarrow> ingest_world" where
  "demo_world fuel =
     \<lparr>iw_db = snd (claim 10 0 [] 1 (io_provenance demo_own) unindexed_db),
      iw_sources = [1 \<mapsto> \<lparr>sm_notebook = 5, sm_title = [], sm_type = [], sm_text = [97, 98], sm_metadata = JNull\<rparr>],
      iw_ocr_cache = [], iw_usage = [], iw_sent = [], iw_events = [], iw_fuel = fuel\<rparr>"

definition demo_schedule :: schedule where
  "demo_schedule =
     \<lparr>sc_moves = [Start 0, Answer 0, Report 0, Send 0, Receive None None None, Finish, Receive None None None],
      sc_panic = []\<rparr>"

definition demo_ending :: ending where
  "demo_ending = \<lparr>en_shutdown = False, en_timeout_secs = 600, en_publish_fault = None, en_reclaim_fault = None,
     en_fail_fault = None, en_now = 5, en_elapsed_ms = 7\<rparr>"

lemma demo_owns:
  "owns_build (io_generation demo_own) 1 (iw_db (demo_world n))"
  "\<forall>c\<in>set (db_chunks (iw_db (demo_world n))). sk_generation c \<noteq> io_generation demo_own"
  using claim_ok [OF fresh_db_ok [OF built_reachable(1)], of 10 0 "[]" 1 "io_provenance demo_own"]
  by (simp_all add: owns_build_def demo_world_def)
     (simp_all add: unindexed_db_def claim_def is_owned_building_def demo_own_def Let_def)

lemma demo_chunk:
  "\<exists>c. chunk_and_enrich demo_env (plain_extract [97, 98] Text) = Inr [c] \<and> cw_content_hash c = [97, 98]"
proof -
  have lay: "build_layout (single_page [97, 98]) Text = \<lparr>sl_text = [97, 98], sl_page_starts = [0],
      sl_paginated = False\<rparr>"
    by (simp add: build_layout_def single_page_def clean_content_def normalize_content_def lines_def
        trim_def trim_start_def trim_end_def is_whitespace_def page_separator_def len_utf8_def Let_def lit_def)
  show ?thesis
    by (simp add: chunk_and_enrich_def chunk_source_def lay plain_extract_def split_indices_def
        whole_splitter_def parent_overlap_def child_chunk_size_def child_overlap_def demo_env_def split_def
        Let_def flatten_parent_child_chunks_def max_chunks_def flatten_loop_def chunk_of_child_def
        child_of_def compute_content_hash_def utf8_bytes_def utf8_char_def)
qed


lemmas demo_defs = demo_env_def demo_own_def demo_world_def demo_schedule_def demo_ending_def demo_embedder_def

lemma demo_pipe:
  assumes "iw_db w = db"
    and "list_ex (is_owned_building 10 1) (db_generations db)" and "db_chunks db = []"
    and "cw_context_prefix c = p"
  shows "\<exists>w'. embed_and_store demo_env demo_schedule 10 1 5 [c] (\<lambda>i. None) w = (Done (), w') \<and>
     iw_db w' = db\<lparr>db_chunks := [chunk_values (\<lambda>k. 100 + k) 10 1 0 (0, c, [Fin 1])]\<rparr> \<and> iw_fuel w' = iw_fuel w"
  using assms
  by (simp add: embed_and_store_def demo_defs run_pipe_def pipe_start_def batch_work_def
      slices.simps [of "Suc (Suc 0)"] slices.simps [of 2] start_batch_def split_reused_def take_answer_def check_batch_widths_def
      fill_in_def report_progress_def send_batch_def store_batches_def channel_capacity_def
      store_in_transaction_def store_chunk_batch_def check_pairing_def lock_building_generation_def
      map_filter_def upsert_chunk_def chunk_values_def pipe_outcome_def Let_def)


lemma demo_statement:
  "statement demo_env f w = (case iw_fuel w of 0 \<Rightarrow> (Dropped, w)
     | Suc n \<Rightarrow> (case f (w\<lparr>iw_fuel := n\<rparr>) of (r, w') \<Rightarrow> (Done r, w')))"
  by (simp add: statement_def await_def demo_env_def split: nat.split)

lemma demo_build:
  "\<exists>c w'. run_build demo_env demo_schedule demo_own 1 5 Text (demo_world 20) =
      (Done \<lparr>bo_degraded = [], bo_total_chunks = 1\<rparr>, w') \<and>
     iw_db w' = set_status 1 StEmbedding None (record_build_plan 10 1 (current_chunking 1024)
        (set_status 1 StProcessing None (iw_db (demo_world 20))))
          \<lparr>db_chunks := [chunk_values (\<lambda>k. 100 + k) 10 1 0 (0, c, [Fin 1])]\<rparr>"
proof -
  obtain c where c: "chunk_and_enrich demo_env (plain_extract [97, 98] Text) = Inr [c]" using demo_chunk by blast
  let ?w = "\<lambda>n db. demo_world n\<lparr>iw_db := db\<rparr>"
  let ?db1 = "set_status 1 StProcessing None (iw_db (demo_world 20))"
  let ?db2 = "record_build_plan 10 1 (current_chunking 1024) ?db1"
  let ?db3 = "set_status 1 StEmbedding None ?db2"
  have owned: "list_ex (is_owned_building 10 1) (db_generations ?db3)"
    by (simp add: set_status_index owned_record_build_plan)
       (simp add: demo_world_def claim_def unindexed_db_def is_owned_building_def Let_def)
  have empty: "db_chunks ?db3 = []"
    by (simp add: set_status_index record_build_plan_def demo_world_def claim_def unindexed_db_def Let_def)
  have pipe: "\<exists>w'. embed_and_store demo_env demo_schedule 10 1 5 [c] (\<lambda>i. None) w = (Done (), w') \<and>
     iw_db w' = ?db3\<lparr>db_chunks := [chunk_values (\<lambda>k. 100 + k) 10 1 0 (0, c, [Fin 1])]\<rparr> \<and> iw_fuel w' = iw_fuel w"
    if "iw_db w = ?db3" for w
    by (rule demo_pipe [OF that owned empty refl])
  have none: "reuse_of (get_reusable_embeddings 1 fp ?db2) [c] = (\<lambda>i. None)" for fp
  proof -
    have "visible_chunks 1 ?db2 = []"
      by (simp add: visible_chunks_def set_status_def record_build_plan_def demo_world_def claim_def
          unindexed_db_def update_generation_def Let_def)
    then show ?thesis by (simp add: reuse_of_def get_reusable_embeddings_def map_filter_def fun_eq_iff)
  qed
  have lim: "validate_content_limits (ie_config demo_env) (single_page [97, 98]) = Inr ()"
    by (simp add: validate_content_limits_def single_page_def joined_text_def demo_env_def len_utf8_def
        split_whitespace_def is_whitespace_def Let_def)
  have parts: "ie_embedder demo_env = Some demo_embedder" "io_generation demo_own = 10" by (simp_all add: demo_defs)
  have ex: "plain_extract [97, 98] Text = \<lparr>ex_text = single_page [97, 98], ex_chunking_type = Text,
      ex_degraded = [], ex_video_id = None\<rparr>" by (simp add: plain_extract_def)
  have w: "iw_fuel (demo_world 20) = 20" "iw_sources (demo_world 20) (Suc 0) = Some \<lparr>sm_notebook = 5, sm_title = [],
      sm_type = [], sm_text = [97, 98], sm_metadata = JNull\<rparr>" by (simp_all add: demo_world_def)
  have n: "i32_or_max 1 = 1" "i32_or_max (Suc 0) = 1" by (simp_all add: i32_or_max_def i32_max_def)
  obtain w1 where w1: "iw_db w1 = ?db1" "iw_sources w1 = iw_sources (demo_world 20)" "iw_fuel w1 = 18"
     "update_source_status demo_env 1 StProcessing None (demo_world 20) = (Done (Inr ()), w1)"
    by (rule that [of "demo_world 20\<lparr>iw_fuel := 18, iw_db := ?db1\<rparr>"])
       (simp_all add: update_source_status_def fetch_or_not_found_def and_then_def demo_statement w on_index_def)
  have built: "\<exists>w2. build_chunks demo_env demo_schedule demo_own (plain_extract [97, 98] Text) 1 5 w = (Done 1, w2) \<and>
      iw_db w2 = ?db3\<lparr>db_chunks := [chunk_values (\<lambda>k. 100 + k) 10 1 0 (0, c, [Fin 1])]\<rparr>"
    if w: "iw_db w = ?db1" "iw_sources w = iw_sources (demo_world 20)" "iw_fuel w = 17" for w
  proof -
    let ?w2 = "w\<lparr>iw_fuel := 13, iw_db := ?db3,
        iw_sent := iw_sent w @ [(5, status_event 1 (lit ''embedding'') None)]\<rparr>"
    have w2: "iw_db ?w2 = ?db3" "store_chunks_of demo_env demo_schedule demo_own (plain_extract [97, 98] Text) 1 5 [c] w =
       (and_then (embed_and_store demo_env demo_schedule 10 1 5 [c] (\<lambda>i. None)) (\<lambda>_. ret 1)) ?w2"
      using w none \<open>iw_sources (demo_world 20) (Suc 0) = _\<close>
      by (simp_all add: store_chunks_of_def and_then_def demo_statement on_index_def parts stage_def ret_def
          compute_embedding_reuse_def update_source_status_def fetch_or_not_found_def broadcast_to_def n ex
          Let_def)
    from pipe [OF w2(1)] w2(2) show ?thesis
      by (auto simp: build_chunks_def from_failure_def c and_then_def ret_def)
  qed
  from built [of "w1\<lparr>iw_sent := iw_sent w1 @ [(5, status_event 1 (lit ''processing'') None)], iw_fuel := 17\<rparr>"] w1
  obtain w2 where w2: "build_chunks demo_env demo_schedule demo_own (plain_extract [97, 98] Text) 1 5
        (w1\<lparr>iw_sent := iw_sent w1 @ [(5, status_event 1 (lit ''processing'') None)], iw_fuel := 17\<rparr>) = (Done 1, w2)"
      "iw_db w2 = ?db3\<lparr>db_chunks := [chunk_values (\<lambda>k. 100 + k) 10 1 0 (0, c, [Fin 1])]\<rparr>" by auto
  have "run_build demo_env demo_schedule demo_own 1 5 Text (demo_world 20) =
      (Done \<lparr>bo_degraded = [], bo_total_chunks = 1\<rparr>, w2)"
    using w1 w w2(1) by (simp add: run_build_def and_then_def stage_def ret_def or_fail_def broadcast_to_def
      get_source_def demo_statement extract_content_def lim ex)
  with w2(2) show ?thesis by blast
qed

lemma demo_published:
  "fst (process_source demo_env demo_schedule demo_ending demo_own 1 5 Text (demo_world 20)) = Inr ()"
proof -
  obtain c w' where run: "run_build demo_env demo_schedule demo_own 1 5 Text (demo_world 20) =
      (Done \<lparr>bo_degraded = [], bo_total_chunks = 1\<rparr>, w')"
    and db: "iw_db w' = set_status 1 StEmbedding None (record_build_plan 10 1 (current_chunking 1024)
        (set_status 1 StProcessing None (iw_db (demo_world 20))))
          \<lparr>db_chunks := [chunk_values (\<lambda>k. 100 + k) 10 1 0 (0, c, [Fin 1])]\<rparr>"
    using demo_build by blast
  obtain g where g: "db_generations (iw_db w') = [g]" "gn_id g = 10" "gn_source g = 1"
      "gn_state g = GenBuilding" "gn_expected g = Some 1"
    by (simp add: db set_status_index record_build_plan_def generations_update demo_world_def claim_def
        unindexed_db_def Let_def)
  have row: "db_chunks (iw_db w') = [chunk_values (\<lambda>k. 100 + k) 10 1 0 (0, c, [Fin 1])]" by (simp add: db)
  have "\<exists>r db. publish 5 10 1 1 (iw_db w') = (Inr r, db)"
    by (simp add: publish_def g is_owned_building_def vector_defect_def count_where_def chunks_of_def row
        chunk_values_def null_vector_def wrong_width_def non_finite_vector_def is_finite_def i32_or_max_def
        i32_max_def sync_stored_count_def generations_update is_publishable_def Let_def)
  then obtain r db where pub: "publish 5 10 1 1 (iw_db w') = (Inr r, db)" by blast
  have parts: "io_generation demo_own = 10" "ep_dimension (gp_embedding (io_provenance demo_own)) = 1"
      "en_publish_fault demo_ending = None" "en_now demo_ending = 5"
    by (simp_all add: demo_own_def demo_ending_def)
  have "fst (publish_generation demo_env demo_ending demo_own 1 5 Text \<lparr>bo_degraded = [], bo_total_chunks = 1\<rparr> w') = Inr ()"
    by (simp add: publish_generation_def parts pub [simplified] Let_def)
  then show ?thesis
    unfolding process_source_def run by (auto split: prod.split sum.split)
qed

theorem successful_ingestion_indexes_the_document_witness:
  "\<exists>w'. process_source demo_env demo_schedule demo_ending demo_own 1 5 Text (demo_world 20) = (Inr (), w') \<and>
     (\<exists>e chunks. indexed_as e [] chunks (visible_chunks 1 (iw_db w')))"
proof -
  obtain w' where w': "process_source demo_env demo_schedule demo_ending demo_own 1 5 Text (demo_world 20) = (Inr (), w')"
    using demo_published by (metis prod.collapse)
  have "visible_chunks 1 (iw_db (demo_world 20)) = []"
    by (simp add: visible_chunks_def demo_world_def claim_def unindexed_db_def Let_def)
  then show ?thesis
    using successful_ingestion_indexes_the_document [OF w' demo_owns] w' by (auto simp: demo_own_def)
qed

lemma demo_dropped: "\<exists>e w'. process_source demo_env demo_schedule demo_ending demo_own 1 5 Text (demo_world 0) = (Inl e, w')"
  by (simp add: process_source_def run_build_def update_source_status_def fetch_or_not_found_def and_then_def
      demo_statement demo_world_def demo_ending_def fail_run_def Let_def)

theorem failed_ingestion_keeps_the_index_witness:
  "\<exists>e w'. process_source demo_env demo_schedule demo_ending demo_own 1 5 Text (demo_world 0) = (Inl e, w') \<and>
     visible_chunks 1 (iw_db w') = visible_chunks 1 (iw_db (demo_world 0))"
  using demo_dropped failed_ingestion_keeps_the_index [OF _ demo_owns(1)] by blast

theorem failed_ingestion_frees_the_source_witness:
  "\<exists>e w'. process_source demo_env demo_schedule demo_ending demo_own 1 5 Text (demo_world 0) = (Inl e, w') \<and>
     find_building 1 (iw_db w') = None"
  using demo_dropped failed_ingestion_frees_the_source [OF _ demo_owns(1)] by (fastforce simp: demo_ending_def)

definition wide_env :: ingest_env where
  "wide_env = demo_env\<lparr>ie_embedder :=
     Some (demo_embedder\<lparr>em_name := [97], em_model := [98], em_dimension := 1024\<rparr>)\<rparr>"

lemma granted_claim_owns_the_build_witness:
  "\<exists>own w'. claim_index_ownership wide_env 1 Text 600 ((demo_world 5)\<lparr>iw_db := unindexed_db\<rparr>) =
      (Done (Inr (Some own)), w') \<and> owns_build (io_generation own) 1 (iw_db w')"
proof -
  let ?w = "(demo_world 5)\<lparr>iw_db := unindexed_db\<rparr>"
  have emb: "ie_embedder wide_env = Some (demo_embedder\<lparr>em_name := [97], em_model := [98], em_dimension := 1024\<rparr>)"
      "ie_statement_fault wide_env n = None" for n by (simp_all add: wide_env_def demo_env_def)
  obtain p where p: "current_provenance (ie_debug wide_env)
      (demo_embedder\<lparr>em_name := [97], em_model := [98], em_dimension := 1024\<rparr>) Text = Inr p"
    by (simp add: current_provenance_def validate_provenance_def from_provider_def embedding_dim_def Let_def
        trim_def trim_start_def trim_end_def is_whitespace_def not_legacy)
  have stale: "db_generations db = [] \<Longrightarrow> fail_stale_builds now t reason db = (0, db)" for now t reason db
    by (simp add: fail_stale_builds_def)
  have "\<exists>w'. claim_index_ownership wide_env 1 Text 600 ?w =
      (Done (Inr (Some \<lparr>io_generation = ie_fresh wide_env 3, io_provenance = p\<rparr>)), w')"
    using p by (simp add: claim_index_ownership_def emb and_then_def statement_def await_def on_index_def stale
        claim_def demo_world_def ret_def unindexed_db_def Let_def)
  then obtain own w' where run: "claim_index_ownership wide_env 1 Text 600 ?w = (Done (Inr (Some own)), w')" by blast
  have "index_ok (iw_db ?w)" "\<forall>k. ie_fresh wide_env k \<notin> gn_id ` set (db_generations (iw_db ?w))"
    using fresh_db_ok [OF built_reachable(1)] by simp_all (simp add: unindexed_db_def)
  from granted_claim_owns_the_build [OF run this] run show ?thesis by blast
qed

text \<open>
  C7. Whatever order the moves of the embedding pipeline come in, and whatever the provider, the
  database and a cancellation do, its state is well formed: every batch waiting, in flight or in
  the channel is a slice of the document with one embedding place for each of its chunks, every
  row of the generation is a chunk of the document, no more batches are in flight than the provider
  allows, and no more than two wait in the channel.
\<close>

theorem pipeline_state_is_well_formed:
  assumes "length (pt_chunks T) \<le> i32_max" and "stored_ok T (iw_db w)"
  shows "pipe_ok T (run_pipe T S w) \<and> within_bounds T (run_pipe T S w)"
proof
  show "pipe_ok T (run_pipe T S w)" by (rule run_pipe_ok [OF assms])
  show "within_bounds T (run_pipe T S w)"
    unfolding run_pipe_def
    by (rule fold_keeps [where P = "within_bounds T", OF pipe_step_bounds])
       (simp_all add: within_bounds_def pipe_start_def)
qed

theorem pipeline_state_is_well_formed_witness:
  "\<exists>c. pipe_ok (task_of demo_env demo_embedder 10 1 5 [c] (\<lambda>i. None))
      (run_pipe (task_of demo_env demo_embedder 10 1 5 [c] (\<lambda>i. None)) demo_schedule (demo_world 0))"
proof -
  obtain c where "chunk_and_enrich demo_env (plain_extract [97, 98] Text) = Inr [c]" using demo_chunk by blast
  let ?T = "task_of demo_env demo_embedder 10 1 5 [c] (\<lambda>i. None)"
  have "length (pt_chunks ?T) \<le> i32_max" by (simp add: task_of_def i32_max_def)
  moreover have "stored_ok ?T (iw_db (demo_world 0))"
    using demo_owns(2) by (simp add: stored_ok_def task_of_def demo_own_def)
  ultimately show ?thesis using pipeline_state_is_well_formed [of ?T] by blast
qed

text \<open>
  Once the token is cancelled no provider call starts any more, however the schedule goes on; but
  a batch that was answered before still reports its progress, so that this event can follow the
  one that ended the run.
\<close>

lemma nothing_is_asked_after_cancellation:
  "pi_cancelled p \<Longrightarrow> pi_calls (fold (pipe_step T) ms p) = pi_calls p"
proof -
  assume "pi_cancelled p"
  then have "pi_cancelled (fold (pipe_step T) ms p) \<and> pi_calls (fold (pipe_step T) ms p) = pi_calls p"
    by (intro fold_keeps [where P = "\<lambda>q. pi_cancelled q \<and> pi_calls q = pi_calls p"])
       (simp_all add: no_call_when_cancelled)
  then show ?thesis ..
qed

lemma progress_outlives_cancellation:
  assumes "pi_flying p = [(b, Answered)]"
  shows "\<exists>ev. iw_sent (pi_world (fold (pipe_step T) [Cancel, Report 0] p)) = iw_sent (pi_world p) @ [(pt_notebook T, ev)]"
  using assms by (simp add: report_progress_def Let_def)

end
