(* ===== verification/Core_Config.thy ===== *)
theory Core_Config
  imports Errors Rust_Float Input_Validation Documents
begin

text \<open>
  \<open>core/config.rs\<close>: the configuration read from the environment and its validation, which
  collects every error. The environment is what \<open>env::var\<close> returns for a name, and the parser of
  floating-point numbers is a parameter. The lemmas characterise the configurations that start,
  show that the report is complete, and find the one input on which the validation panics.
\<close>

subsection \<open>The environment\<close>

record environment =
  en_var :: "rstr \<Rightarrow> rstr option"
  en_lowercase :: "rstr \<Rightarrow> rstr"
  en_parse_f32 :: "rstr \<Rightarrow> rfloat option"

text \<open>\<open>env_or\<close> for each type that is parsed: what does not parse is the default, silently.\<close>

definition env_or :: "environment \<Rightarrow> (rstr \<Rightarrow> 'a option) \<Rightarrow> string \<Rightarrow> 'a \<Rightarrow> 'a" where
  "env_or V parse key def =
     (case Option.bind (en_var V (lit key)) parse of Some v \<Rightarrow> v | None \<Rightarrow> def)"

definition parse_i32 :: "rstr \<Rightarrow> int option" where
  "parse_i32 s =
     (case s of
        [] \<Rightarrow> None
      | c # cs \<Rightarrow>
          if c = 45 then
            (case cs of
               [] \<Rightarrow> None
             | d # ds \<Rightarrow> if d = 43 then None else map_option (\<lambda>n. - int n) (parse_uint 2147483648 cs))
          else map_option int (parse_uint 2147483647 s))"

definition env_or_else :: "environment \<Rightarrow> string \<Rightarrow> rstr \<Rightarrow> rstr" where
  "env_or_else V key def = (case en_var V (lit key) of Some v \<Rightarrow> v | None \<Rightarrow> def)"

definition env_bool :: "environment \<Rightarrow> string \<Rightarrow> bool \<Rightarrow> bool" where
  "env_bool V key def =
     (case en_var V (lit key) of
        Some v \<Rightarrow> en_lowercase V v \<notin> {lit ''false'', lit ''0'', lit ''no''}
      | None \<Rightarrow> def)"

definition env_list :: "environment \<Rightarrow> string \<Rightarrow> rstr list \<Rightarrow> rstr list" where
  "env_list V key def =
     (case en_var V (lit key) of
        Some s \<Rightarrow> map trim (split_on (\<lambda>c. c = 44) s)
      | None \<Rightarrow> def)"

subsection \<open>The configuration\<close>

record database_pool_config =
  dp_min_connections :: nat
  dp_max_connections :: nat
  dp_connect_timeout_secs :: nat
  dp_acquire_timeout_secs :: nat
  dp_idle_timeout_secs :: nat
  dp_max_lifetime_secs :: nat

definition database_pool_from_env :: "environment \<Rightarrow> database_pool_config" where
  "database_pool_from_env V =
     \<lparr>dp_min_connections = env_or V (parse_uint u32_max) ''DB_POOL_MIN'' 0,
      dp_max_connections = env_or V (parse_uint u32_max) ''DB_POOL_MAX'' 10,
      dp_connect_timeout_secs = env_or V (parse_uint u64_max) ''DB_CONNECT_TIMEOUT'' 15,
      dp_acquire_timeout_secs = env_or V (parse_uint u64_max) ''DB_ACQUIRE_TIMEOUT'' 15,
      dp_idle_timeout_secs = env_or V (parse_uint u64_max) ''DB_IDLE_TIMEOUT'' 270,
      dp_max_lifetime_secs = env_or V (parse_uint u64_max) ''DB_MAX_LIFETIME'' 1800\<rparr>"

record security_config =
  se_allowed_origins :: "rstr list"
  se_max_search_query_length :: nat
  se_max_source_size_bytes :: nat
  se_max_source_words :: nat
  se_rate_limit_rpm :: nat
  se_body_limit_bytes :: nat
  se_upload_limit_bytes :: nat
  se_trusted_proxy_mode :: bool

definition security_from_env :: "environment \<Rightarrow> rstr \<Rightarrow> security_config" where
  "security_from_env V frontend_url =
     \<lparr>se_allowed_origins = env_list V ''CORS_ALLOWED_ORIGINS'' [frontend_url],
      se_max_search_query_length = env_or V (parse_uint usize_max) ''MAX_SEARCH_QUERY_LENGTH'' 500,
      se_max_source_size_bytes = env_or V (parse_uint usize_max) ''MAX_SOURCE_SIZE_BYTES'' (200 * 1024 * 1024),
      se_max_source_words = env_or V (parse_uint usize_max) ''MAX_SOURCE_WORDS'' 500000,
      se_rate_limit_rpm = env_or V (parse_uint u32_max) ''RATE_LIMIT_RPM'' 300,
      se_body_limit_bytes = env_or V (parse_uint usize_max) ''BODY_LIMIT_BYTES'' (1024 * 1024),
      se_upload_limit_bytes = env_or V (parse_uint usize_max) ''UPLOAD_LIMIT_BYTES'' (200 * 1024 * 1024),
      se_trusted_proxy_mode = env_bool V ''TRUSTED_PROXY_MODE'' True\<rparr>"

record async_config =
  as_llm_timeout_secs :: nat
  as_embedding_timeout_secs :: nat
  as_shutdown_timeout_secs :: nat
  as_request_timeout_secs :: nat

definition async_from_env :: "environment \<Rightarrow> async_config" where
  "async_from_env V =
     \<lparr>as_llm_timeout_secs = env_or V (parse_uint u64_max) ''LLM_TIMEOUT_SECS'' 60,
      as_embedding_timeout_secs = env_or V (parse_uint u64_max) ''EMBEDDING_TIMEOUT_SECS'' 120,
      as_shutdown_timeout_secs = env_or V (parse_uint u64_max) ''SHUTDOWN_TIMEOUT_SECS'' 30,
      as_request_timeout_secs = env_or V (parse_uint u64_max) ''REQUEST_TIMEOUT_SECS'' 30\<rparr>"

record hybrid_settings =
  hy_enabled :: bool
  hy_rrf_k :: rfloat
  hy_dense_weight :: rfloat
  hy_sparse_weight :: rfloat

definition hybrid_from_env :: "environment \<Rightarrow> hybrid_settings" where
  "hybrid_from_env V =
     \<lparr>hy_enabled = env_bool V ''HYBRID_SEARCH_ENABLED'' True,
      hy_rrf_k = env_or V (en_parse_f32 V) ''HYBRID_SEARCH_RRF_K'' (Fin 60),
      hy_dense_weight = env_or V (en_parse_f32 V) ''HYBRID_SEARCH_DENSE_WEIGHT'' (Fin 1),
      hy_sparse_weight = env_or V (en_parse_f32 V) ''HYBRID_SEARCH_SPARSE_WEIGHT'' (Fin (1 / 4))\<rparr>"

record voyage_limits =
  vl_max_rpm :: nat
  vl_max_tpm :: nat
  vl_batch_size :: nat
  vl_concurrent_batches :: nat
  vl_max_wait_secs :: nat

definition voyage_limits_from_env :: "environment \<Rightarrow> voyage_limits" where
  "voyage_limits_from_env V =
     \<lparr>vl_max_rpm = env_or V (parse_uint u32_max) ''VOYAGE_MAX_RPM'' 300,
      vl_max_tpm = env_or V (parse_uint u32_max) ''VOYAGE_MAX_TPM'' 2000000,
      vl_batch_size = env_or V (parse_uint usize_max) ''VOYAGE_BATCH_SIZE'' 128,
      vl_concurrent_batches = env_or V (parse_uint usize_max) ''VOYAGE_CONCURRENT_BATCHES'' 4,
      vl_max_wait_secs = env_or V (parse_uint u64_max) ''VOYAGE_MAX_WAIT_SECS'' 60\<rparr>"

record ocr_settings =
  os_enabled :: bool
  os_model :: rstr
  os_timeout_secs :: nat
  os_min_text_threshold :: nat
  os_max_pages_per_request :: nat
  os_max_file_size_bytes :: nat

definition mistral_ocr_max_file_size :: nat where
  "mistral_ocr_max_file_size = 50 * 1024 * 1024"

definition ocr_from_env :: "environment \<Rightarrow> ocr_settings" where
  "ocr_from_env V =
     \<lparr>os_enabled = env_bool V ''OCR_ENABLED'' False,
      os_model = trim (env_or_else V ''OCR_MODEL'' (lit ''mistral-ocr-latest'')),
      os_timeout_secs = env_or V (parse_uint u64_max) ''OCR_TIMEOUT_SECS'' 120,
      os_min_text_threshold = env_or V (parse_uint usize_max) ''OCR_MIN_TEXT_THRESHOLD'' 50,
      os_max_pages_per_request = env_or V (parse_uint usize_max) ''OCR_MAX_PAGES_PER_REQUEST'' 1000,
      os_max_file_size_bytes =
        env_or V (parse_uint usize_max) ''OCR_MAX_FILE_SIZE_BYTES'' mistral_ocr_max_file_size\<rparr>"

text \<open>The optional keys and secrets are told apart by their variable's name.\<close>

record server_config =
  co_database_url :: rstr
  co_database_pool :: database_pool_config
  co_server_port :: nat
  co_frontend_url :: rstr
  co_security :: security_config
  co_async :: async_config
  co_hybrid_search :: hybrid_settings
  co_voyage_rate_limit :: voyage_limits
  co_ocr :: ocr_settings
  co_voyage_embedding_model :: rstr
  co_retrieval_pool_size :: int
  co_hyde_enabled :: bool
  co_rerank_min_chunks :: int
  co_context_stuffing_max_chunks :: int
  co_optional :: "rstr \<Rightarrow> rstr option"

definition optional_names :: "rstr list" where
  "optional_names = map lit
     [''FIRECRAWL_API_KEY'', ''VOYAGE_API_KEY'', ''ANTHROPIC_API_KEY'', ''OPENAI_API_KEY'',
      ''MISTRAL_API_KEY'', ''UPSTASH_REDIS_URL'', ''UPSTASH_REDIS_TOKEN'', ''HEALTH_TOKEN'',
      ''YOUTUBE_PROXY_URL'', ''YOUTUBE_INNERTUBE_API_KEY'', ''DEFAULT_LOCALE'']"

definition config_from_env :: "environment \<Rightarrow> server_config" where
  "config_from_env V =
     (let frontend_url = env_or_else V ''FRONTEND_URL'' (lit ''http://localhost:3000'') in
      \<lparr>co_database_url = env_or_else V ''DATABASE_URL'' [],
       co_database_pool = database_pool_from_env V,
       co_server_port = env_or V (parse_uint 65535) ''PORT'' 3001,
       co_frontend_url = frontend_url,
       co_security = security_from_env V frontend_url,
       co_async = async_from_env V,
       co_hybrid_search = hybrid_from_env V,
       co_voyage_rate_limit = voyage_limits_from_env V,
       co_ocr = ocr_from_env V,
       co_voyage_embedding_model = env_or_else V ''VOYAGE_EMBEDDING_MODEL'' (lit ''voyage-4''),
       co_retrieval_pool_size = env_or V parse_i32 ''RETRIEVAL_POOL_SIZE'' 50,
       co_hyde_enabled = env_bool V ''HYDE_ENABLED'' False,
       co_rerank_min_chunks = env_or V parse_i32 ''RERANK_MIN_CHUNKS'' 200,
       co_context_stuffing_max_chunks = env_or V parse_i32 ''CONTEXT_STUFFING_MAX_CHUNKS'' 150,
       co_optional = (\<lambda>name. if name \<in> set optional_names then en_var V name else None)\<rparr>)"

subsection \<open>Validation\<close>

text \<open>Each check gives the errors it pushes.\<close>

definition unless :: "bool \<Rightarrow> rstr \<Rightarrow> rstr list" where
  "unless ok message = (if ok then [] else [message])"

definition min_timeout_secs :: nat where "min_timeout_secs = 1"
definition max_timeout_secs :: nat where "max_timeout_secs = 600"
definition max_pool_connections :: nat where "max_pool_connections = 100"

definition validate_timeout :: "string \<Rightarrow> nat \<Rightarrow> rstr list" where
  "validate_timeout name v =
     unless (min_timeout_secs \<le> v \<and> v \<le> max_timeout_secs)
       (lit name @ lit '' must be between '' @ show_nat min_timeout_secs @ lit '' and '' @
        show_nat max_timeout_secs @ lit '' seconds, got '' @ show_nat v)"

definition check_required :: "string \<Rightarrow> rstr \<Rightarrow> rstr list" where
  "check_required name v = unless (trim v \<noteq> []) (lit name @ lit '' is required but not set or empty'')"

text \<open>The message quotes the first thirty bytes of the URL: a slice that panics inside a character.\<close>

definition is_postgres_url :: "rstr \<Rightarrow> bool" where
  "is_postgres_url s \<longleftrightarrow> starts_with s (lit ''postgres://'') \<or> starts_with s (lit ''postgresql://'')"

definition database_url_errors :: "rstr \<Rightarrow> rstr list option" where
  "database_url_errors s =
     (if s \<noteq> [] \<and> \<not> is_postgres_url s then
        map_option (\<lambda>shown. [lit ''DATABASE_URL must start with postgres:// or postgresql://, got: '' @ shown])
          (get_prefix s (min (str_len s) 30))
      else Some [])"

definition validate_pool :: "database_pool_config \<Rightarrow> rstr list" where
  "validate_pool p =
     unless (dp_min_connections p \<le> dp_max_connections p)
       (lit ''DB_POOL_MIN ('' @ show_nat (dp_min_connections p) @ lit '') must be <= DB_POOL_MAX ('' @
        show_nat (dp_max_connections p) @ lit '')'') @
     unless (dp_max_connections p \<le> max_pool_connections)
       (lit ''DB_POOL_MAX ('' @ show_nat (dp_max_connections p) @ lit '') must be <= '' @
        show_nat max_pool_connections)"

definition validate_database :: "server_config \<Rightarrow> rstr list option" where
  "validate_database c =
     map_option (\<lambda>es. es @ validate_pool (co_database_pool c)) (database_url_errors (co_database_url c))"

definition validate_timeouts :: "server_config \<Rightarrow> rstr list" where
  "validate_timeouts c =
     validate_timeout ''DB_CONNECT_TIMEOUT'' (dp_connect_timeout_secs (co_database_pool c)) @
     validate_timeout ''DB_ACQUIRE_TIMEOUT'' (dp_acquire_timeout_secs (co_database_pool c)) @
     validate_timeout ''LLM_TIMEOUT_SECS'' (as_llm_timeout_secs (co_async c)) @
     validate_timeout ''EMBEDDING_TIMEOUT_SECS'' (as_embedding_timeout_secs (co_async c)) @
     validate_timeout ''REQUEST_TIMEOUT_SECS'' (as_request_timeout_secs (co_async c)) @
     validate_timeout ''SHUTDOWN_TIMEOUT_SECS'' (as_shutdown_timeout_secs (co_async c))"

definition validate_urls :: "server_config \<Rightarrow> rstr list" where
  "validate_urls c =
     unless (starts_with (co_frontend_url c) (lit ''http://'') \<or> starts_with (co_frontend_url c) (lit ''https://''))
       (lit ''FRONTEND_URL must start with http:// or https://, got: '' @ co_frontend_url c)"

definition validate_rag_pipeline :: "server_config \<Rightarrow> rstr list" where
  "validate_rag_pipeline c =
     (let pool = co_retrieval_pool_size c; rerank = co_rerank_min_chunks c;
          stuffing = co_context_stuffing_max_chunks c in
      unless (20 \<le> pool)
        (lit ''RETRIEVAL_POOL_SIZE must be >= 20, the maximum requestable context count, got '' @ show_int pool) @
      unless (pool \<le> 500) (lit ''RETRIEVAL_POOL_SIZE must be <= 500, got '' @ show_int pool) @
      unless (0 \<le> rerank) (lit ''RERANK_MIN_CHUNKS must be >= 0, got '' @ show_int rerank) @
      unless (rerank \<le> 10000) (lit ''RERANK_MIN_CHUNKS must be <= 10000, got '' @ show_int rerank) @
      unless (0 \<le> stuffing) (lit ''CONTEXT_STUFFING_MAX_CHUNKS must be >= 0, got '' @ show_int stuffing) @
      unless (stuffing \<le> 500) (lit ''CONTEXT_STUFFING_MAX_CHUNKS must be <= 500, got '' @ show_int stuffing))"

definition validate_voyage :: "server_config \<Rightarrow> rstr list" where
  "validate_voyage c =
     (let v = co_voyage_rate_limit c in
      unless (1 \<le> vl_max_rpm v \<and> vl_max_rpm v \<le> 10000)
        (lit ''VOYAGE_MAX_RPM must be between 1 and 10,000, got '' @ show_nat (vl_max_rpm v)) @
      unless (1000 \<le> vl_max_tpm v \<and> vl_max_tpm v \<le> 50000000)
        (lit ''VOYAGE_MAX_TPM must be between 1,000 and 50,000,000, got '' @ show_nat (vl_max_tpm v)) @
      unless (1 \<le> vl_batch_size v \<and> vl_batch_size v \<le> 1000)
        (lit ''VOYAGE_BATCH_SIZE must be between 1 and 1,000, got '' @ show_nat (vl_batch_size v)) @
      unless (1 \<le> vl_concurrent_batches v \<and> vl_concurrent_batches v \<le> 16)
        (lit ''VOYAGE_CONCURRENT_BATCHES must be between 1 and 16, got '' @ show_nat (vl_concurrent_batches v)) @
      unless (trim (co_voyage_embedding_model c) \<noteq> []) (lit ''VOYAGE_EMBEDDING_MODEL must not be empty''))"

definition validate_enabled_ocr :: "server_config \<Rightarrow> rstr list" where
  "validate_enabled_ocr c =
     (let o' = co_ocr c in
      unless (co_optional c (lit ''MISTRAL_API_KEY'') \<noteq> None)
        (lit ''OCR_ENABLED is true but MISTRAL_API_KEY is not set. OCR requires a Mistral API key.'') @
      validate_timeout ''OCR_TIMEOUT_SECS'' (os_timeout_secs o') @
      unless (trim (os_model o') \<noteq> []) (lit ''OCR_MODEL must not be empty when OCR is enabled'') @
      unless (os_min_text_threshold o' \<noteq> 0)
        (lit ''OCR_MIN_TEXT_THRESHOLD must be >= 1 (0 would send all pages to OCR unconditionally)'') @
      unless (1 \<le> os_max_pages_per_request o' \<and> os_max_pages_per_request o' \<le> 1000)
        (lit ''OCR_MAX_PAGES_PER_REQUEST must be between 1 and 1,000, got '' @
         show_nat (os_max_pages_per_request o')) @
      unless (os_max_file_size_bytes o' \<noteq> 0) (lit ''OCR_MAX_FILE_SIZE_BYTES must be >= 1 when OCR is enabled''))"

definition validate_ocr :: "server_config \<Rightarrow> rstr list" where
  "validate_ocr c =
     unless (str_len (os_model (co_ocr c)) \<le> 64 \<and> \<not> list_ex is_control (os_model (co_ocr c)))
       (lit ''OCR_MODEL contains control characters or exceeds 64 characters'') @
     unless (os_max_file_size_bytes (co_ocr c) \<le> mistral_ocr_max_file_size)
       (lit ''OCR_MAX_FILE_SIZE_BYTES must be <= '' @ show_nat mistral_ocr_max_file_size @
        lit '' (50 MB Mistral limit), got '' @ show_nat (os_max_file_size_bytes (co_ocr c))) @
     (if os_enabled (co_ocr c) then validate_enabled_ocr c else [])"

definition collect_errors :: "server_config \<Rightarrow> rstr list option" where
  "collect_errors c =
     map_option (\<lambda>database.
       check_required ''DATABASE_URL'' (co_database_url c) @ database @ validate_timeouts c @ validate_urls c @
       validate_rag_pipeline c @ validate_voyage c @ validate_ocr c)
     (validate_database c)"

text \<open>\<open>None\<close> is the panic of the slice.\<close>

definition validate_config :: "server_config \<Rightarrow> (rstr list + unit) option" where
  "validate_config c = map_option (\<lambda>errors. if errors = [] then Inr () else Inl errors) (collect_errors c)"

definition load_config :: "environment \<Rightarrow> (rstr list + server_config) option" where
  "load_config V =
     (let c = config_from_env V in
      map_option (\<lambda>r. case r of Inl errors \<Rightarrow> Inl errors | Inr _ \<Rightarrow> Inr c) (validate_config c))"

definition display_errors :: "rstr list \<Rightarrow> rstr" where
  "display_errors errors =
     lit ''Configuration validation failed ('' @ show_nat (length errors) @ lit '' error(s)):'' @
     concat (map (\<lambda>(i, e). 10 # lit ''  '' @ show_nat (i + 1) @ lit ''. '' @ e) (enumerate 0 errors))"


subsection \<open>Defaults\<close>

definition database_pool_default :: database_pool_config where
  "database_pool_default =
     \<lparr>dp_min_connections = 0, dp_max_connections = 10, dp_connect_timeout_secs = 15,
      dp_acquire_timeout_secs = 15, dp_idle_timeout_secs = 270, dp_max_lifetime_secs = 1800\<rparr>"

definition security_default :: security_config where
  "security_default =
     \<lparr>se_allowed_origins = [lit ''http://localhost:3000''], se_max_search_query_length = 500,
      se_max_source_size_bytes = 200 * 1024 * 1024, se_max_source_words = 500000,
      se_rate_limit_rpm = 300, se_body_limit_bytes = 1024 * 1024,
      se_upload_limit_bytes = 200 * 1024 * 1024, se_trusted_proxy_mode = True\<rparr>"

definition async_default :: async_config where
  "async_default =
     \<lparr>as_llm_timeout_secs = 60, as_embedding_timeout_secs = 120, as_shutdown_timeout_secs = 30,
      as_request_timeout_secs = 30\<rparr>"

definition hybrid_default :: hybrid_settings where
  "hybrid_default =
     \<lparr>hy_enabled = True, hy_rrf_k = Fin 60, hy_dense_weight = Fin 1, hy_sparse_weight = Fin (1 / 4)\<rparr>"

definition voyage_limits_default :: voyage_limits where
  "voyage_limits_default =
     \<lparr>vl_max_rpm = 300, vl_max_tpm = 2000000, vl_batch_size = 128, vl_concurrent_batches = 4,
      vl_max_wait_secs = 60\<rparr>"

definition ocr_default :: ocr_settings where
  "ocr_default =
     \<lparr>os_enabled = False, os_model = lit ''mistral-ocr-latest'', os_timeout_secs = 120,
      os_min_text_threshold = 50, os_max_pages_per_request = 1000,
      os_max_file_size_bytes = mistral_ocr_max_file_size\<rparr>"

text \<open>An environment that sets nothing gives the documented defaults.\<close>

lemma env_unset:
  assumes "en_var V = (\<lambda>_. None)"
  shows "env_or V parse key def = def" "env_or_else V key s = s" "env_bool V key b = b" "env_list V key l = l"
  using assms by (simp_all add: env_or_def env_or_else_def env_bool_def env_list_def)

lemma trim_model: "trim (lit ''mistral-ocr-latest'') = lit ''mistral-ocr-latest''"
  by (simp add: trim_def trim_start_def trim_end_def is_whitespace_def lit_def)

lemma unset_gives_defaults:
  assumes "en_var V = (\<lambda>_. None)"
  shows "database_pool_from_env V = database_pool_default"
    and "security_from_env V (lit ''http://localhost:3000'') = security_default"
    and "async_from_env V = async_default" and "hybrid_from_env V = hybrid_default"
    and "voyage_limits_from_env V = voyage_limits_default" and "ocr_from_env V = ocr_default"
  by (simp_all add: env_unset [OF assms] database_pool_from_env_def database_pool_default_def security_from_env_def security_default_def
      async_from_env_def async_default_def hybrid_from_env_def hybrid_default_def voyage_limits_from_env_def
      voyage_limits_default_def ocr_from_env_def ocr_default_def trim_model)

subsection \<open>Which configurations start\<close>

lemma unless_Nil [simp]: "unless ok m = [] \<longleftrightarrow> ok"
  by (simp add: unless_def)

lemma validate_timeout_Nil [simp]: "validate_timeout name v = [] \<longleftrightarrow> v \<in> {1..600}"
  by (simp add: validate_timeout_def min_timeout_secs_def max_timeout_secs_def)

lemma get_prefix_all: "get_prefix s (str_len s) = Some s"
  using get_prefix_append [of s "[]"] by simp

lemma database_url_errors_cases:
  "database_url_errors s = None \<longleftrightarrow>
     s \<noteq> [] \<and> \<not> is_postgres_url s \<and> 30 < str_len s \<and> get_prefix s 30 = None"
  "database_url_errors s = Some [] \<longleftrightarrow> s = [] \<or> is_postgres_url s"
  using get_prefix_all [of s] by (auto simp: database_url_errors_def min_def)

definition ocr_config_ok :: "server_config \<Rightarrow> bool" where
  "ocr_config_ok c \<longleftrightarrow>
     (let o' = co_ocr c in
      str_len (os_model o') \<le> 64 \<and> \<not> list_ex is_control (os_model o') \<and>
      os_max_file_size_bytes o' \<le> 52428800 \<and>
      (os_enabled o' \<longrightarrow>
        co_optional c (lit ''MISTRAL_API_KEY'') \<noteq> None \<and> os_timeout_secs o' \<in> {1..600} \<and>
        trim (os_model o') \<noteq> [] \<and> os_min_text_threshold o' \<noteq> 0 \<and>
        os_max_pages_per_request o' \<in> {1..1000} \<and> os_max_file_size_bytes o' \<noteq> 0))"

definition config_ok :: "server_config \<Rightarrow> bool" where
  "config_ok c \<longleftrightarrow>
     trim (co_database_url c) \<noteq> [] \<and> is_postgres_url (co_database_url c) \<and>
     dp_min_connections (co_database_pool c) \<le> dp_max_connections (co_database_pool c) \<and>
     dp_max_connections (co_database_pool c) \<le> 100 \<and>
     {dp_connect_timeout_secs (co_database_pool c), dp_acquire_timeout_secs (co_database_pool c),
      as_llm_timeout_secs (co_async c), as_embedding_timeout_secs (co_async c),
      as_request_timeout_secs (co_async c), as_shutdown_timeout_secs (co_async c)} \<subseteq> {1..600} \<and>
     (starts_with (co_frontend_url c) (lit ''http://'') \<or> starts_with (co_frontend_url c) (lit ''https://'')) \<and>
     co_retrieval_pool_size c \<in> {max_context_chunks..500} \<and> co_rerank_min_chunks c \<in> {0..10000} \<and>
     co_context_stuffing_max_chunks c \<in> {0..500} \<and>
     vl_max_rpm (co_voyage_rate_limit c) \<in> {1..10000} \<and> vl_max_tpm (co_voyage_rate_limit c) \<in> {1000..50000000} \<and>
     vl_batch_size (co_voyage_rate_limit c) \<in> {1..1000} \<and>
     vl_concurrent_batches (co_voyage_rate_limit c) \<in> {1..16} \<and>
     trim (co_voyage_embedding_model c) \<noteq> [] \<and> ocr_config_ok c"

lemma validate_ocr_Nil: "validate_ocr c = [] \<longleftrightarrow> ocr_config_ok c"
  by (auto simp: validate_ocr_def ocr_config_ok_def validate_enabled_ocr_def Let_def mistral_ocr_max_file_size_def)

lemma collect_errors_None: "collect_errors c = None \<longleftrightarrow> database_url_errors (co_database_url c) = None"
  by (simp add: collect_errors_def validate_database_def)

lemma collect_errors_Nil: "collect_errors c = Some [] \<longleftrightarrow> config_ok c"
proof -
  have "collect_errors c = Some [] \<longleftrightarrow>
     check_required ''DATABASE_URL'' (co_database_url c) = [] \<and> database_url_errors (co_database_url c) = Some [] \<and>
     validate_pool (co_database_pool c) = [] \<and> validate_timeouts c = [] \<and> validate_urls c = [] \<and>
     validate_rag_pipeline c = [] \<and> validate_voyage c = [] \<and> validate_ocr c = []"
    by (cases "database_url_errors (co_database_url c)") (auto simp: collect_errors_def validate_database_def)
  also have "\<dots> \<longleftrightarrow> config_ok c"
    unfolding database_url_errors_cases validate_ocr_Nil
    by (auto simp: check_required_def validate_pool_def max_pool_connections_def validate_timeouts_def
        validate_urls_def validate_rag_pipeline_def validate_voyage_def config_ok_def Let_def max_context_chunks_def
        trim_def trim_start_def trim_end_def)
  finally show ?thesis .
qed

lemma load_accepts: "load_config V = Some (Inr c) \<longleftrightarrow> c = config_from_env V \<and> config_ok c"
  using collect_errors_Nil [of "config_from_env V"]
  by (cases "collect_errors (config_from_env V)")
     (auto simp: load_config_def validate_config_def Let_def split: if_splits)

lemma load_panics:
  "load_config V = None \<longleftrightarrow>
     (let s = co_database_url (config_from_env V)
      in s \<noteq> [] \<and> \<not> is_postgres_url s \<and> 30 < str_len s \<and> get_prefix s 30 = None)"
  by (simp add: load_config_def validate_config_def collect_errors_None database_url_errors_cases Let_def)

text \<open>
  The server starts on exactly the configurations in which every bound holds, and a load that
  gives no result is a panic: the URL of the database has another scheme and its thirtieth byte is
  inside a character, so that the message that should report it cannot be built.
\<close>

lemma accepted_configuration:
  "(load_config V = Some (Inr c) \<longleftrightarrow> c = config_from_env V \<and> config_ok c) \<and>
   (load_config V = None \<longleftrightarrow>
     (let s = co_database_url (config_from_env V)
      in s \<noteq> [] \<and> \<not> is_postgres_url s \<and> 30 < str_len s \<and> get_prefix s 30 = None))"
  by (intro conjI load_accepts load_panics)

text \<open>
  What the bounds do not cover: the weights of the fusion, which may be any floating-point number,
  and the waiting time of the embedding window, whose zero refuses every call.
\<close>

lemma unchecked_settings:
  assumes "config_ok c"
  shows "config_ok (c\<lparr>co_hybrid_search := h\<rparr>)" and "config_ok (c\<lparr>co_security := s\<rparr>)"
    and "config_ok (c\<lparr>co_voyage_rate_limit := (co_voyage_rate_limit c)\<lparr>vl_max_wait_secs := n\<rparr>\<rparr>)"
  using assms by (simp_all add: config_ok_def ocr_config_ok_def)

lemma lit_inject: "lit s = lit t \<longleftrightarrow> s = t"
  unfolding lit_def by (rule inj_map_eq_map) (simp add: inj_def)

lemma inside_a_character:
  "get_prefix (replicate n 97 @ [233, 97]) (Suc n) = None" "str_len (replicate n 97) = n"
  by (induction n) (simp_all add: len_utf8_def str_len_def)

text \<open>Twenty-nine letters and an accented one, as the URL of the database.\<close>

definition awkward_url :: rstr where "awkward_url = 97 # replicate 28 97 @ [233, 97]"

lemma awkward_url_panics:
  assumes "en_var V (lit ''DATABASE_URL'') = Some awkward_url"
  shows "load_config V = None"
proof -
  have url: "co_database_url (config_from_env V) = awkward_url"
    using assms by (simp add: config_from_env_def Let_def env_or_else_def)
  have eq: "awkward_url = replicate 29 97 @ [233, 97]" by (simp add: awkward_url_def eval_nat_numeral)
  have "get_prefix awkward_url 30 = None" unfolding eq using inside_a_character(1) [of 29] by simp
  moreover have "str_len awkward_url = str_len (replicate 29 97) + str_len [233, 97]"
    unfolding eq str_len_def map_append sum_list_append ..
  then have "30 < str_len awkward_url"
    unfolding inside_a_character(2) by (simp add: str_len_def [of "[233, 97]"] len_utf8_def)
  moreover have "\<not> is_postgres_url awkward_url"
    by (simp add: is_postgres_url_def starts_with_def awkward_url_def lit_def)
  ultimately show ?thesis by (simp add: load_panics url Let_def) (simp add: awkward_url_def)
qed

end
