(* ===== verification/Voyage.thy ===== *)
theory Voyage
  imports Indexing Resilience Rate_Limit Core_Config
begin

text \<open>
  \<open>clients/voyage.rs\<close>: the hosted embedding and reranking client, above the executor of
  \<open>Resilience\<close> and the sliding window of \<open>Rate_Limit\<close>. What an attempt is answered with is a
  parameter, and so is the order in which concurrent batches finish. The lemmas say that a text
  gets the vector of its own position whatever that order and the order of the reply, which error
  a failed call reports, and what the progress callback is told.
\<close>

subsection \<open>The client\<close>

record voyage_client =
  vy_model :: rstr
  vy_timeout_secs :: nat
  vy_executor :: executor
  vy_limiter :: "voyage_config option"
  vy_batch_size :: nat
  vy_concurrent_batches :: nat

definition voyage_batch_limit :: nat where "voyage_batch_limit = 128"

definition voyage_retry :: retry_config where
  "voyage_retry =
     with_max_delay (30 * nanos_per_sec) (with_initial_delay (500 * nanos_per_milli) (retry_config_new 3))"

definition voyage_breaker :: breaker where
  "voyage_breaker = breaker_new (lit ''voyage'')
     (with_success_threshold 2 (with_open_duration (30 * nanos_per_sec) (breaker_config_new 5)))"

text \<open>\<open>http\<close> is whether the HTTP client could be built.\<close>

definition voyage_client_new :: "rstr + unit \<Rightarrow> nat \<Rightarrow> app_error + voyage_client" where
  "voyage_client_new http timeout_secs =
     (case http of
        Inl reason \<Rightarrow> Inl (Rag (RagEmbeddingFailed reason))
      | Inr _ \<Rightarrow> Inr \<lparr>vy_model = lit ''voyage-4'', vy_timeout_secs = timeout_secs,
          vy_executor = \<lparr>ex_retry = voyage_retry, ex_service = lit ''voyage'', ex_timeout_secs = Some timeout_secs\<rparr>,
          vy_limiter = None, vy_batch_size = voyage_batch_limit, vy_concurrent_batches = 4\<rparr>)"

definition voyage_from_config :: "rstr option \<Rightarrow> rstr + unit \<Rightarrow> nat \<Rightarrow> app_error + voyage_client" where
  "voyage_from_config api_key http timeout_secs =
     (case api_key of
        None \<Rightarrow> Inl (Rag (RagEmbeddingFailed (lit ''Voyage AI API key not configured'')))
      | Some _ \<Rightarrow> voyage_client_new http timeout_secs)"

definition with_rate_limiter :: "voyage_config \<Rightarrow> voyage_client \<Rightarrow> voyage_client" where
  "with_rate_limiter rl C = C\<lparr>vy_limiter := Some rl\<rparr>"

definition with_batch_size :: "nat \<Rightarrow> voyage_client \<Rightarrow> voyage_client" where
  "with_batch_size n C = C\<lparr>vy_batch_size := n\<rparr>"

definition with_concurrent_batches :: "nat \<Rightarrow> voyage_client \<Rightarrow> voyage_client" where
  "with_concurrent_batches n C = C\<lparr>vy_concurrent_batches := n\<rparr>"

definition with_model :: "rstr \<Rightarrow> voyage_client \<Rightarrow> voyage_client" where
  "with_model m C = C\<lparr>vy_model := m\<rparr>"

subsection \<open>One attempt\<close>

record usage_data =
  ud_total_tokens :: "int option"

record embedding_data =
  ed_embedding :: "rfloat list"
  ed_index :: nat

record embedding_response =
  er_data :: "embedding_data list"
  er_usage :: "usage_data option"

record rerank_data =
  rd_index :: nat
  rd_relevance_score :: rfloat

text \<open>An attempt is not sent, or replied to with a status and a body that is read as JSON.\<close>

datatype 'r http_attempt = NotSent request_error | Replied http_response "rstr + 'r"

definition map_voyage_error :: "voyage_client \<Rightarrow> request_error_kind \<Rightarrow> rstr \<Rightarrow> app_error" where
  "map_voyage_error C kind description =
     (case kind of
        TimeoutKind \<Rightarrow> Rag (RagEmbeddingTimeout (vy_timeout_secs C))
      | _ \<Rightarrow> Rag (RagEmbeddingFailed description))"

definition status_failure :: "rstr \<Rightarrow> nat \<Rightarrow> rstr \<Rightarrow> nat option \<Rightarrow> app_error" where
  "status_failure what code body retry_after =
     Rag (RagEmbeddingFailed (lit ''Voyage AI '' @ what @ lit '' returned '' @ show_nat code @ lit '': '' @ body))"

definition parse_json_response :: "rstr \<Rightarrow> rstr + 'r \<Rightarrow> 'r http_result" where
  "parse_json_response what body =
     (case body of
        Inl e \<Rightarrow> Inl (Rag (RagEmbeddingFailed (lit ''Failed to parse '' @ what @ lit '' response: '' @ e)), None, False)
      | Inr x \<Rightarrow> Inr x)"

definition read_attempt :: "voyage_client \<Rightarrow> rstr \<Rightarrow> 'r http_attempt \<Rightarrow> 'r http_result" where
  "read_attempt C what a =
     (case a of
        NotSent e \<Rightarrow> Inl (handle_request_error e (map_voyage_error C))
      | Replied r body \<Rightarrow>
          (case check_response_status r (status_failure what) of
             Inl e \<Rightarrow> Inl e
           | Inr _ \<Rightarrow> parse_json_response what body))"

definition by_index :: "embedding_data list \<Rightarrow> embedding_data list" where
  "by_index data = sort_by (\<lambda>a b. cmp_ord (ed_index a) (ed_index b)) data"

definition execute_embedding_request ::
  "voyage_client \<Rightarrow> embedding_response http_attempt \<Rightarrow> (rfloat list list \<times> int option) http_result" where
  "execute_embedding_request C a =
     (case read_attempt C (lit ''embedding'') a of
        Inl e \<Rightarrow> Inl e
      | Inr r \<Rightarrow> Inr (map ed_embedding (by_index (er_data r)), Option.bind (er_usage r) ud_total_tokens))"

definition execute_rerank_request ::
  "voyage_client \<Rightarrow> rerank_data list http_attempt \<Rightarrow> (nat \<times> rfloat) list http_result" where
  "execute_rerank_request C a =
     (case read_attempt C (lit ''rerank'') a of
        Inl e \<Rightarrow> Inl e
      | Inr ds \<Rightarrow> Inr (map (\<lambda>d. (rd_index d, rd_relevance_score d)) ds))"

subsection \<open>One call\<close>

text \<open>
  A call is admitted by the window at the instants it wakes, with what other tasks do to it in
  between; it then tries, and settles its usage at the end.
\<close>

record 'r voyage_call =
  vk_start :: int
  vk_wakes :: "(int \<times> (voyage_state \<Rightarrow> voyage_state)) list"
  vk_begin :: nat
  vk_retry :: retry_env
  vk_attempt :: "nat \<Rightarrow> 'r http_attempt \<times> nat"
  vk_end :: int

record voyage_world =
  vw_window :: voyage_state
  vw_exec :: exec_state

definition voyage_unavailable :: "nat \<Rightarrow> app_error" where
  "voyage_unavailable retry_secs = Rag (RagEmbeddingFailed
     (lit ''Voyage AI service unavailable. Retry after '' @ show_nat retry_secs @ lit '' seconds.''))"

definition acquire_budget ::
  "voyage_client \<Rightarrow> 'r voyage_call \<Rightarrow> rstr list \<Rightarrow> voyage_world \<Rightarrow> (app_error + unit) option \<times> voyage_world" where
  "acquire_budget C K texts W =
     (case vy_limiter C of
        None \<Rightarrow> (Some (Inr ()), W)
      | Some cfg \<Rightarrow>
          (case acquire cfg (word_of_nat (voyage_estimate_tokens texts)) (vk_start K) (vk_wakes K) (vw_window W) of
             (None, v) \<Rightarrow> (None, W\<lparr>vw_window := v\<rparr>)
           | (Some (Inl e), v) \<Rightarrow> (Some (Inl e), W\<lparr>vw_window := v\<rparr>)
           | (Some (Inr _), v) \<Rightarrow> (Some (Inr ()), W\<lparr>vw_window := v\<rparr>)))"

definition charged_tokens :: "int \<Rightarrow> 32 word" where
  "charged_tokens tokens = (if 0 \<le> tokens then word_of_int tokens else 0)"

definition settle_usage :: "voyage_client \<Rightarrow> 'r voyage_call \<Rightarrow> int option \<Rightarrow> voyage_world \<Rightarrow> voyage_world" where
  "settle_usage C K tokens_used W =
     (case (vy_limiter C, tokens_used) of
        (Some _, Some tokens) \<Rightarrow>
          W\<lparr>vw_window := record_usage (charged_tokens tokens) (vk_end K) (vw_window W)\<rparr>
      | _ \<Rightarrow> W)"

text \<open>Through the executor; \<open>None\<close> is a call that has not returned.\<close>

definition through_executor ::
  "voyage_client \<Rightarrow> ('r http_attempt \<Rightarrow> 'a http_result) \<Rightarrow> 'r voyage_call \<Rightarrow> voyage_world \<Rightarrow>
   (app_error + 'a) option \<times> voyage_world" where
  "through_executor C send K W =
     (case execute (vy_executor C) (vk_retry K) voyage_unavailable
         (\<lambda>n. (send (fst (vk_attempt K n)), snd (vk_attempt K n))) (vk_begin K) (vw_exec W) of
        None \<Rightarrow> (None, W)
      | Some (r, s) \<Rightarrow> (Some r, W\<lparr>vw_exec := s\<rparr>))"

definition embed_batch_with_usage ::
  "voyage_client \<Rightarrow> embedding_response voyage_call \<Rightarrow> voyage_world \<Rightarrow>
   (app_error + rfloat list list \<times> int option) option \<times> voyage_world" where
  "embed_batch_with_usage C = through_executor C (execute_embedding_request C)"

definition embed_batch_rate_limited ::
  "voyage_client \<Rightarrow> embedding_response voyage_call \<Rightarrow> rstr list \<Rightarrow> voyage_world \<Rightarrow>
   (app_error + rfloat list list) option \<times> voyage_world" where
  "embed_batch_rate_limited C K texts W =
     (case acquire_budget C K texts W of
        (None, W) \<Rightarrow> (None, W)
      | (Some (Inl e), W) \<Rightarrow> (Some (Inl e), W)
      | (Some (Inr _), W) \<Rightarrow>
          (case embed_batch_with_usage C K W of
             (None, W) \<Rightarrow> (None, W)
           | (Some (Inl e), W) \<Rightarrow> (Some (Inl e), W)
           | (Some (Inr (vectors, tokens_used)), W) \<Rightarrow>
               (Some (Inr vectors), settle_usage C K tokens_used W)))"

text \<open>\<open>pop\<close> takes the last vector.\<close>

definition voyage_embed_query ::
  "voyage_client \<Rightarrow> embedding_response voyage_call \<Rightarrow> rstr \<Rightarrow> voyage_world \<Rightarrow>
   (app_error + rfloat list) option \<times> voyage_world" where
  "voyage_embed_query C K q W =
     (case embed_batch_rate_limited C K [q] W of
        (None, W) \<Rightarrow> (None, W)
      | (Some (Inl e), W) \<Rightarrow> (Some (Inl e), W)
      | (Some (Inr vectors), W) \<Rightarrow>
          (Some (if vectors = [] then Inl (Rag (RagEmbeddingFailed (lit ''No embedding returned from Voyage AI'')))
                 else Inr (last vectors)), W))"

text \<open>Usage is not reported for reranking, so the estimate is recorded.\<close>

definition voyage_rerank ::
  "voyage_client \<Rightarrow> rerank_data list voyage_call \<Rightarrow> rstr \<Rightarrow> rstr list \<Rightarrow> voyage_world \<Rightarrow>
   (app_error + (nat \<times> rfloat) list) option \<times> voyage_world" where
  "voyage_rerank C K q documents W =
     (if documents = [] then (Some (Inr []), W)
      else
        (case acquire_budget C K (documents @ [q]) W of
           (None, W) \<Rightarrow> (None, W)
         | (Some (Inl e), W) \<Rightarrow> (Some (Inl e), W)
         | (Some (Inr _), W) \<Rightarrow>
             (case through_executor C (execute_rerank_request C) K W of
                (None, W) \<Rightarrow> (None, W)
              | (Some (Inl e), W) \<Rightarrow> (Some (Inl e), W)
              | (Some (Inr reranked), W) \<Rightarrow>
                  (Some (Inr reranked),
                   case vy_limiter C of
                     None \<Rightarrow> W
                   | Some _ \<Rightarrow> W\<lparr>vw_window := record_usage (word_of_nat (voyage_estimate_tokens (documents @ [q])))
                       (vk_end K) (vw_window W)\<rparr>))))"

subsection \<open>Many batches\<close>

text \<open>
  The batches run at once, at most so many, and each yields its number and its vectors; \<open>order\<close>
  is the order they finish in. A batch size of zero panics, and with no place for a batch in
  flight the stream is never ready: both are \<open>None\<close>.
\<close>

type_synonym outcomes = "nat \<Rightarrow> app_error + rfloat list list"

definition can_finish :: "nat \<Rightarrow> nat \<Rightarrow> nat list \<Rightarrow> bool" where
  "can_finish places n order \<longleftrightarrow>
     distinct order \<and> set order = {..<n} \<and> (\<forall>k<length order. order ! k < k + places)"

definition batch_results :: "outcomes \<Rightarrow> nat list \<Rightarrow> (app_error + nat \<times> rfloat list list) list" where
  "batch_results outcome order =
     map (\<lambda>k. case outcome k of Inl e \<Rightarrow> Inl e | Inr vectors \<Rightarrow> Inr (k, vectors)) order"

text \<open>The loop over the results, with \<open>?\<close>, and what the callback is told on the way.\<close>

primrec consume_results ::
  "32 word \<times> 32 word \<Rightarrow> (app_error + 'a) list \<Rightarrow> (app_error + 'a list) \<times> (32 word \<times> 32 word) list" where
  "consume_results told [] = (Inr [], [])"
| "consume_results told (r # rs) =
     (case r of
        Inl e \<Rightarrow> (Inl e, [])
      | Inr x \<Rightarrow>
          (case consume_results told rs of
             (Inl e, calls) \<Rightarrow> (Inl e, told # calls)
           | (Inr xs, calls) \<Rightarrow> (Inr (x # xs), told # calls)))"

definition reorder :: "(nat \<times> rfloat list list) list \<Rightarrow> rfloat list list" where
  "reorder indexed = concat (map snd (sort_by (\<lambda>a b. cmp_ord (fst a) (fst b)) indexed))"

text \<open>Every batch that succeeded has added its size to the counter when the results are consumed.\<close>

definition progress_count :: "outcomes \<Rightarrow> rstr list list \<Rightarrow> nat list \<Rightarrow> 32 word" where
  "progress_count outcome batches order =
     fold (\<lambda>k n. case outcome k of Inl _ \<Rightarrow> n | Inr _ \<Rightarrow> n + word_of_nat (clamp_u32 (length (batches ! k)))) order 0"

definition embed_documents_with_progress ::
  "voyage_client \<Rightarrow> outcomes \<Rightarrow> nat list \<Rightarrow> rstr list \<Rightarrow>
   ((app_error + rfloat list list) \<times> (32 word \<times> 32 word) list) option" where
  "embed_documents_with_progress C outcome order texts =
     (if texts = [] then Some (Inr [], [])
      else if vy_batch_size C = 0 \<or> vy_concurrent_batches C = 0 then None
      else
        let batches = slices (vy_batch_size C) texts;
            told = (progress_count outcome batches order, word_of_nat (clamp_u32 (length texts)))
        in Some (case consume_results told (batch_results outcome order) of
             (Inl e, calls) \<Rightarrow> (Inl e, calls)
           | (Inr indexed, calls) \<Rightarrow> (Inr (reorder indexed), calls)))"

definition embed_documents ::
  "voyage_client \<Rightarrow> outcomes \<Rightarrow> nat list \<Rightarrow> rstr list \<Rightarrow> (app_error + rfloat list list) option" where
  "embed_documents C outcome order texts =
     (if texts = [] then Some (Inr [])
      else if vy_batch_size C = 0 \<or> vy_concurrent_batches C = 0 then None
      else
        Some (case fst (consume_results (0, 0) (batch_results outcome order)) of
          Inl e \<Rightarrow> Inl e
        | Inr indexed \<Rightarrow> Inr (reorder indexed)))"


subsection \<open>Order\<close>

text \<open>A sort by a key that tells the elements apart finds the one increasing arrangement.\<close>

lemma sort_by_key_unique:
  assumes "mset xs = mset ys" and "sorted_wrt (\<lambda>x y. f x < (f y :: nat)) ys"
  shows "sort_by (\<lambda>a b. cmp_ord (f a) (f b)) xs = ys"
proof -
  have inj: "x = y" if "x \<in> set ys" "y \<in> set ys" "f x = f y" for x y
    using that assms(2) by (induction ys) fastforce+
  have "sorted_wrt (\<lambda>x y. cmp_ord (f x) (f y) \<noteq> Greater) ys"
    using assms(2) by (rule sorted_wrt_mono_rel [rotated]) auto
  then have "sort_by (\<lambda>a b. cmp_ord (f a) (f b)) ys = ys"
    by (rule total_cmp.sort_by_id [OF total_cmp_key [of f "\<lambda>_. True"]])
  moreover have "sort_by (\<lambda>a b. cmp_ord (f a) (f b)) xs = sort_by (\<lambda>a b. cmp_ord (f a) (f b)) ys"
    using mset_eq_setD [OF assms(1)] inj
    by (intro total_cmp.sort_by_canonical [OF total_cmp_key [of f "\<lambda>_. True"] assms(1)]) auto
  ultimately show ?thesis by simp
qed

text \<open>A reply that numbers its vectors from zero is put in that order.\<close>

lemma by_index_numbers:
  assumes "mset (map ed_index data) = mset [0..<n]"
  shows "map ed_index (by_index data) = [0..<n]"
proof -
  have "sorted_wrt (\<lambda>x y. cmp_ord (ed_index x) (ed_index y) \<noteq> Greater) (by_index data)"
    unfolding by_index_def
    by (rule total_cmp.sort_by_in_order [OF total_cmp_key [of ed_index "\<lambda>_. True"]]) simp
  then have "sorted (map ed_index (by_index data))"
    by (simp add: sorted_map) (erule sorted_wrt_mono_rel [rotated], auto)
  moreover have "mset (map ed_index (by_index data)) = mset [0..<n]"
    using assms by (simp add: by_index_def)
  ultimately show ?thesis by (metis properties_for_sort sorted_upt)
qed

lemma by_index_nth:
  assumes "mset (map ed_index data) = mset [0..<n]" and "k < n"
  shows "by_index data ! k \<in> set data \<and> ed_index (by_index data ! k) = k \<and> length (by_index data) = n"
proof -
  note numbers = by_index_numbers [OF assms(1)]
  have len: "length (by_index data) = n" using arg_cong [OF numbers, of length] by simp
  have "ed_index (by_index data ! k) = map ed_index (by_index data) ! k" using assms(2) len by simp
  then have "ed_index (by_index data ! k) = k" using numbers assms(2) by simp
  moreover have "by_index data ! k \<in> set (by_index data)" using assms(2) len by simp
  ultimately show ?thesis using len by (simp add: by_index_def)
qed

lemma reorder_finished:
  assumes "can_finish places n order"
  shows "reorder (map (\<lambda>k. (k, v k)) order) = concat (map v [0..<n])"
proof -
  have "mset order = mset [0..<n]"
    using assms set_eq_iff_mset_eq_distinct [of order "[0..<n]"]
    by (simp add: can_finish_def atLeast0LessThan)
  then have "mset (map (\<lambda>k. (k, v k)) order) = mset (map (\<lambda>k. (k, v k)) [0..<n])" by (simp only: mset_map)
  moreover have "sorted_wrt (\<lambda>x y. fst x < fst y) (map (\<lambda>k. (k, v k)) [0..<n])"
    by (simp add: sorted_wrt_map)
  ultimately have "sort_by (\<lambda>a b. cmp_ord (fst a) (fst b)) (map (\<lambda>k. (k, v k)) order) = map (\<lambda>k. (k, v k)) [0..<n]"
    by (rule sort_by_key_unique)
  then show ?thesis by (simp add: reorder_def comp_def)
qed

subsection \<open>Results and progress\<close>

lemma consume_results_first_error:
  "fst (consume_results t rs) =
     (case List.find isl rs of Some r \<Rightarrow> Inl (projl r) | None \<Rightarrow> Inr (map projr rs))"
  by (induction rs) (auto split: sum.split option.splits prod.splits)

lemma consume_results_calls:
  "snd (consume_results t rs) = replicate (length (takeWhile (\<lambda>r. \<not> isl r) rs)) t"
  by (induction rs) (auto split: sum.split prod.splits)

lemma consume_results_all: "consume_results t (map (\<lambda>k. Inr (f k)) ks) = (Inr (map f ks), replicate (length ks) t)"
  by (induction ks) auto

lemma same_embeddings: "map_option fst (embed_documents_with_progress C outcome order texts) = embed_documents C outcome order texts"
proof -
  have "fst (consume_results t rs) = fst (consume_results u rs)" for t u :: "32 word \<times> 32 word"
      and rs :: "(app_error + nat \<times> rfloat list list) list"
    by (simp add: consume_results_first_error)
  then show ?thesis
    by (auto simp: embed_documents_with_progress_def embed_documents_def Let_def split: prod.split sum.split)
       (metis fst_conv sum.distinct(1) sum.inject)+
qed

lemma slices_blocks:
  assumes "n \<noteq> 0" and "\<And>k. k < length (slices n xs) \<Longrightarrow> length (f k) = length (slices n xs ! k)"
  shows "length (concat (map f [0..<length (slices n xs)])) = length xs \<and>
    (\<forall>j<length xs. j div n < length (slices n xs) \<and> j mod n < length (slices n xs ! (j div n)) \<and>
       concat (map f [0..<length (slices n xs)]) ! j = f (j div n) ! (j mod n))"
  using assms(2)
proof (induction "length xs" arbitrary: xs f rule: less_induct)
  case less
  show ?case
  proof (cases "xs = []")
    case True
    then show ?thesis by (simp add: slices.simps [of n])
  next
    case False
    let ?rest = "slices n (drop n xs)"
    have sl: "slices n xs = take n xs # ?rest" using False assms(1) by (simp add: slices.simps [of n xs])
    have first: "length (f 0) = min n (length xs)" using less.prems [of 0] by (simp add: sl)
    have up: "map f [0..<length (slices n xs)] = f 0 # map (\<lambda>k. f (Suc k)) [0..<length ?rest]"
      by (simp add: sl upt_conv_Cons map_Suc_upt [symmetric] comp_def del: upt_Suc)
    have ih: "length (concat (map (\<lambda>k. f (Suc k)) [0..<length ?rest])) = length (drop n xs) \<and>
      (\<forall>j<length (drop n xs). j div n < length ?rest \<and> j mod n < length (?rest ! (j div n)) \<and>
         concat (map (\<lambda>k. f (Suc k)) [0..<length ?rest]) ! j = f (Suc (j div n)) ! (j mod n))"
    proof (rule less.hyps)
      show "length (drop n xs) < length xs" using False assms(1) by simp
      show "length (f (Suc k)) = length (?rest ! k)" if "k < length ?rest" for k
        using less.prems [of "Suc k"] that by (simp add: sl)
    qed
    show ?thesis
    proof (intro conjI allI impI)
      show "length (concat (map f [0..<length (slices n xs)])) = length xs"
        unfolding up using ih first by simp
      fix j assume j: "j < length xs"
      have step: "j div n = Suc ((j - n) div n)" "j mod n = (j - n) mod n" if "n \<le> j"
        using that assms(1) by (simp_all add: le_div_geq le_mod_geq)
      note far = ih [THEN conjunct2, rule_format, of "j - n"]
      show "j div n < length (slices n xs)" "j mod n < length (slices n xs ! (j div n))"
        unfolding sl using j step far by (cases "j < n"; force)+
      show "concat (map f [0..<length (slices n xs)]) ! j = f (j div n) ! (j mod n)"
        unfolding up using j step far first by (cases "j < n"; force simp: nth_append)
    qed
  qed
qed


text \<open>
  The client that \<open>CoreState\<close> builds from a validated configuration.
\<close>

definition configured_client :: "server_config \<Rightarrow> voyage_client \<Rightarrow> voyage_client" where
  "configured_client c C =
     (let v = co_voyage_rate_limit c in
      with_model (co_voyage_embedding_model c)
        (with_concurrent_batches (vl_concurrent_batches v)
          (with_batch_size (vl_batch_size v)
            (with_rate_limiter \<lparr>vc_max_rpm = vl_max_rpm v, vc_max_tpm = word_of_nat (vl_max_tpm v),
               vc_max_wait_secs = vl_max_wait_secs v\<rparr> C))))"

lemma configured_places:
  assumes "config_ok c"
  shows "vy_batch_size (configured_client c C) = vl_batch_size (co_voyage_rate_limit c)"
    and "vy_batch_size (configured_client c C) \<noteq> 0" and "vy_concurrent_batches (configured_client c C) \<noteq> 0"
  using assms by (simp_all add: configured_client_def with_model_def with_concurrent_batches_def
      with_batch_size_def with_rate_limiter_def config_ok_def Let_def)

text \<open>An execution that succeeds has read some reply, so the vectors are those of one reply.\<close>

lemma vectors_of_a_reply:
  assumes "fst (embed_batch_rate_limited C K texts W) = Some (Inr vs)" "rc_max_retries (ex_retry (vy_executor C)) \<noteq> - 1"
  shows "\<exists>k r reply. fst (vk_attempt K k) = Replied r (Inr reply) \<and> vs = map ed_embedding (by_index (er_data reply))"
proof -
  let ?op = "\<lambda>k. (execute_embedding_request C (fst (vk_attempt K k)), snd (vk_attempt K k))"
  have "\<exists>(W1 :: voyage_world) tokens s'.
      execute (vy_executor C) (vk_retry K) voyage_unavailable ?op (vk_begin K) (vw_exec W1) = Some (Inr (vs, tokens), s')"
    using assms(1)
    by (auto simp: embed_batch_rate_limited_def embed_batch_with_usage_def through_executor_def
        split: prod.splits option.splits sum.splits)
  then obtain W1 :: voyage_world and tokens s' where ex:
      "execute (vy_executor C) (vk_retry K) voyage_unavailable ?op (vk_begin K) (vw_exec W1) = Some (Inr (vs, tokens), s')"
    by blast
  then have "fst (allow_request (vk_begin K) (x_breaker (vw_exec W1))) = Inr ()"
    by (auto simp: execute_def split: prod.splits sum.splits)
  from execute_outcome [OF assms(2) this, of "vk_retry K" voyage_unavailable ?op] ex obtain k where
      "map_sum fst (\<lambda>x. x) (fst (?op k)) = Inr (vs, tokens)" by auto
  then have "execute_embedding_request C (fst (vk_attempt K k)) = Inr (vs, tokens)"
    by (cases "execute_embedding_request C (fst (vk_attempt K k))") auto
  then show ?thesis
    by (intro exI [of _ k])
       (auto simp: execute_embedding_request_def read_attempt_def parse_json_response_def
         split: sum.splits http_attempt.splits)
qed

lemma configured_retries:
  assumes "voyage_from_config api_key http timeout_secs = Inr C0"
  shows "rc_max_retries (ex_retry (vy_executor (configured_client c C0))) = 3"
  using assms
  by (auto simp: voyage_from_config_def voyage_client_new_def configured_client_def with_model_def
      with_concurrent_batches_def with_batch_size_def with_rate_limiter_def voyage_retry_def with_max_delay_def
      with_initial_delay_def retry_config_new_def Let_def split: option.splits sum.splits)

text \<open>A batch that succeeded has its vectors from one reply, in the order of their numbers.\<close>

lemma numbered_batch:
  assumes "fst (embed_batch_rate_limited C K texts W) = Some result" "\<not> isl result" "vs = projr result"
    and "rc_max_retries (ex_retry (vy_executor C)) \<noteq> - 1"
    and "\<forall>n r reply. fst (vk_attempt K n) = Replied r (Inr reply) \<longrightarrow>
      mset (map ed_index (er_data reply)) = mset [0..<length texts]"
  shows "length vs = length texts \<and> (\<exists>n r reply. fst (vk_attempt K n) = Replied r (Inr reply) \<and>
    (\<forall>i<length texts. \<exists>d\<in>set (er_data reply). ed_index d = i \<and> vs ! i = ed_embedding d))"
proof -
  have "fst (embed_batch_rate_limited C K texts W) = Some (Inr vs)" using assms(1-3) by (cases result) auto
  from vectors_of_a_reply [OF this assms(4)] obtain n r reply where
    a: "fst (vk_attempt K n) = Replied r (Inr reply)" "vs = map ed_embedding (by_index (er_data reply))" by blast
  with assms(5) have m: "mset (map ed_index (er_data reply)) = mset [0..<length texts]" by blast
  have "length vs = length texts"
    using arg_cong [OF by_index_numbers [OF m], of length] by (simp add: a(2))
  moreover have "\<exists>d\<in>set (er_data reply). ed_index d = i \<and> vs ! i = ed_embedding d" if "i < length texts" for i
    using by_index_nth [OF m that] that unfolding a(2) by auto
  ultimately show ?thesis using a(1) by blast
qed

lemma no_failure_consumed:
  assumes "\<forall>k\<in>set order. \<not> isl (outcome k)"
  shows "batch_results outcome order = map (\<lambda>k. Inr (k, projr (outcome k))) order"
  using assms by (auto simp: batch_results_def split: sum.split)

lemma first_failure_consumed:
  assumes "k \<in> set order" "isl (outcome k)"
  shows "\<exists>k\<in>set order. \<exists>e. outcome k = Inl e \<and> fst (consume_results told (batch_results outcome order)) = Inl e"
  using assms by (induction order arbitrary: k) (auto simp: batch_results_def split: sum.splits prod.splits)

text \<open>
  C19. With a client built from a configuration that the server starts on, whose batches all
  return: either some batch failed, and its error is the result, or every text gets the vector
  that a reply of its batch numbered with the text's place in the batch, whatever the order in
  which the batches finish and the order in which a reply lists its vectors. This relies on the
  documented numbering of the service: each reply to a batch numbers its vectors from zero, one
  for each text.
\<close>

theorem one_vector_per_text:
  assumes "load_config V = Some (Inr c)" "voyage_from_config api_key http timeout_secs = Inr C0"
    and "C = configured_client c C0" "texts \<noteq> []" "batches = slices (vy_batch_size C) texts"
    and "can_finish (vy_concurrent_batches C) (length batches) order"
    and "\<forall>k<length batches. \<exists>W. fst (embed_batch_rate_limited C (K k) (batches ! k) W) = Some (outcome k)"
    and "\<forall>k<length batches. \<forall>n r reply. fst (vk_attempt (K k) n) = Replied r (Inr reply) \<longrightarrow>
      mset (map ed_index (er_data reply)) = mset [0..<length (batches ! k)]"
  shows "case embed_documents C outcome order texts of
      None \<Rightarrow> False
    | Some (Inl e) \<Rightarrow> \<exists>k<length batches. outcome k = Inl e
    | Some (Inr vs) \<Rightarrow> (\<forall>k<length batches. \<not> isl (outcome k)) \<and> length vs = length texts \<and>
        (\<forall>j<length texts. \<exists>n r reply. fst (vk_attempt (K (j div vy_batch_size C)) n) = Replied r (Inr reply) \<and>
           (\<exists>d\<in>set (er_data reply). ed_index d = j mod vy_batch_size C \<and> vs ! j = ed_embedding d))"
proof -
  let ?n = "vy_batch_size C" and ?v = "\<lambda>k. projr (outcome k)"
  have c: "config_ok c" using assms(1) unfolding load_accepts by blast
  note places = configured_places [OF c, of C0, folded assms(3)]
  have retries: "rc_max_retries (ex_retry (vy_executor C)) \<noteq> - 1"
    using configured_retries [OF assms(2), of c] unfolding assms(3) by simp
  have order: "set order = {..<length batches}" using assms(6) by (simp add: can_finish_def)
  have run: "embed_documents C outcome order texts =
      Some (case fst (consume_results (0, 0) (batch_results outcome order)) of
        Inl e \<Rightarrow> Inl e | Inr indexed \<Rightarrow> Inr (reorder indexed))"
    using assms(4) places(2,3) by (simp add: embed_documents_def)
  show ?thesis
  proof (cases "\<forall>k\<in>set order. \<not> isl (outcome k)")
    case True
    have batch: "length (?v k) = length (batches ! k) \<and> (\<exists>n r reply. fst (vk_attempt (K k) n) = Replied r (Inr reply) \<and>
        (\<forall>i<length (batches ! k). \<exists>d\<in>set (er_data reply). ed_index d = i \<and> ?v k ! i = ed_embedding d))"
      if k: "k < length batches" for k
    proof -
      obtain W where "fst (embed_batch_rate_limited C (K k) (batches ! k) W) = Some (outcome k)" using assms(7) k by blast
      from numbered_batch [OF this _ refl retries] True order k assms(8) show ?thesis by simp
    qed
    then have len: "length (?v k) = length (batches ! k)" if "k < length batches" for k using that by blast
    note blocks = slices_blocks [OF places(2), of texts ?v, folded assms(5), OF len]
    have "embed_documents C outcome order texts = Some (Inr (concat (map ?v [0..<length batches])))"
      using reorder_finished [OF assms(6), of ?v] no_failure_consumed [OF True]
      by (simp add: run consume_results_all)
    moreover have "\<exists>n r reply. fst (vk_attempt (K (j div ?n)) n) = Replied r (Inr reply) \<and>
        (\<exists>d\<in>set (er_data reply). ed_index d = j mod ?n \<and> concat (map ?v [0..<length batches]) ! j = ed_embedding d)"
      if "j < length texts" for j
    proof -
      from blocks that have j: "j div ?n < length batches" "j mod ?n < length (batches ! (j div ?n))"
          "concat (map ?v [0..<length batches]) ! j = ?v (j div ?n) ! (j mod ?n)" by blast+
      with batch [OF j(1)] show ?thesis unfolding j(3) by blast
    qed
    ultimately show ?thesis using blocks True order by auto
  next
    case False
    then obtain k e where "k \<in> set order" "outcome k = Inl e"
      "fst (consume_results (0, 0) (batch_results outcome order)) = Inl e"
      using first_failure_consumed by metis
    then show ?thesis using order by (auto simp: run)
  qed
qed

text \<open>
  Nothing checks the numbers of a reply: one that leaves a text out, or numbers two vectors alike,
  is accepted, and the vectors shift.
\<close>

lemma unnumbered_reply_is_accepted:
  "execute_embedding_request C (Replied \<lparr>hr_status = 200, hr_retry_after = None, hr_body = None\<rparr>
     (Inr \<lparr>er_data = [\<lparr>ed_embedding = v, ed_index = 7\<rparr>], er_usage = None\<rparr>)) = Inr ([v], None)"
  by (simp add: execute_embedding_request_def read_attempt_def check_response_status_def
      parse_json_response_def by_index_def)

text \<open>
  The progress callback is told the same on every call: it runs over the results when all of
  them are there, so the first call already counts every batch that succeeded.
\<close>

lemma progress_is_told_at_the_end:
  assumes "embed_documents_with_progress C outcome order texts = Some (result, calls)" "texts \<noteq> []"
  shows "calls = replicate (length (takeWhile (\<lambda>k. \<not> isl (outcome k)) order))
      (progress_count outcome (slices (vy_batch_size C) texts) order, word_of_nat (clamp_u32 (length texts))) \<and>
    Some result = embed_documents C outcome order texts"
proof -
  have told: "length (takeWhile (\<lambda>r. \<not> isl r) (batch_results outcome order)) =
      length (takeWhile (\<lambda>k. \<not> isl (outcome k)) order)"
    by (induction order) (auto simp: batch_results_def split: sum.split)
  have "Some result = embed_documents C outcome order texts"
    using same_embeddings [of C outcome order texts] assms(1) by simp
  moreover have "calls = snd (consume_results (progress_count outcome (slices (vy_batch_size C) texts) order,
      word_of_nat (clamp_u32 (length texts))) (batch_results outcome order))"
    using assms by (auto simp: embed_documents_with_progress_def Let_def split: if_splits prod.splits sum.splits)
  ultimately show ?thesis by (simp add: consume_results_calls told)
qed


subsection \<open>Two batches that finish the other way round\<close>

definition sample_environment :: environment where
  "sample_environment =
     \<lparr>en_var = (\<lambda>k. if k = lit ''DATABASE_URL'' then Some (lit ''postgres://db'')
        else if k = lit ''VOYAGE_BATCH_SIZE'' then Some (lit ''2'') else None),
      en_lowercase = id, en_parse_f32 = (\<lambda>_. None)\<rparr>"

definition sample_base :: voyage_client where
  "sample_base = \<lparr>vy_model = lit ''voyage-4'', vy_timeout_secs = 30,
     vy_executor = \<lparr>ex_retry = voyage_retry, ex_service = lit ''voyage'', ex_timeout_secs = Some 30\<rparr>,
     vy_limiter = None, vy_batch_size = voyage_batch_limit, vy_concurrent_batches = 4\<rparr>"

lemma sample_base: "voyage_from_config (Some (lit ''key'')) (Inr ()) 30 = Inr sample_base"
  by (simp add: voyage_from_config_def voyage_client_new_def sample_base_def)

definition sample_client :: voyage_client where
  "sample_client = configured_client (config_from_env sample_environment) sample_base"

definition sample_texts :: "rstr list" where "sample_texts = [[97], [98], [99]]"

definition sample_reply :: "nat \<Rightarrow> embedding_data list" where
  "sample_reply k =
     (if k = 0 then [\<lparr>ed_embedding = [Fin 1], ed_index = 1\<rparr>, \<lparr>ed_embedding = [Fin 0], ed_index = 0\<rparr>]
      else [\<lparr>ed_embedding = [Fin 2], ed_index = 0\<rparr>])"

definition sample_outcome :: outcomes where
  "sample_outcome k = Inr (map ed_embedding (by_index (sample_reply k)))"

definition sample_call :: "nat \<Rightarrow> embedding_response voyage_call" where
  "sample_call k =
     \<lparr>vk_start = 0, vk_wakes = [(0, id)], vk_begin = 0, vk_retry = sample_env,
      vk_attempt = (\<lambda>n. (Replied \<lparr>hr_status = 200, hr_retry_after = None, hr_body = None\<rparr>
        (Inr \<lparr>er_data = sample_reply k, er_usage = None\<rparr>), 5)), vk_end = 0\<rparr>"

definition sample_world :: voyage_world where
  "sample_world = \<lparr>vw_window = voyage_new, vw_exec = fresh_state\<rparr>"

lemma sample_env_or:
  "key \<noteq> ''VOYAGE_BATCH_SIZE'' \<Longrightarrow> key \<noteq> ''DATABASE_URL'' \<Longrightarrow> env_or sample_environment parse key def = def"
  "key \<noteq> ''VOYAGE_BATCH_SIZE'' \<Longrightarrow> key \<noteq> ''DATABASE_URL'' \<Longrightarrow> env_bool sample_environment key b = b"
  "key \<noteq> ''VOYAGE_BATCH_SIZE'' \<Longrightarrow> key \<noteq> ''DATABASE_URL'' \<Longrightarrow> env_or_else sample_environment key s = s"
  "env_or sample_environment (parse_uint usize_max) ''VOYAGE_BATCH_SIZE'' n = 2"
  "env_or_else sample_environment ''DATABASE_URL'' s = lit ''postgres://db''"
proof -
  have two: "lit ''2'' = show_nat 2" by (simp add: lit_def show_nat.simps)
  show "env_or sample_environment (parse_uint usize_max) ''VOYAGE_BATCH_SIZE'' n = 2"
    using parse_show_nat [of 2 usize_max] by (simp add: env_or_def sample_environment_def lit_inject two usize_max_def)
qed (simp_all add: env_or_def env_bool_def env_or_else_def sample_environment_def lit_inject)

lemma sample_configuration:
  "load_config sample_environment = Some (Inr (config_from_env sample_environment))"
  "vl_batch_size (co_voyage_rate_limit (config_from_env sample_environment)) = 2"
  "vl_concurrent_batches (co_voyage_rate_limit (config_from_env sample_environment)) = 4"
proof -
  have trims: "trim (lit ''postgres://db'') \<noteq> []" "trim (lit ''voyage-4'') \<noteq> []"
    by (simp_all add: trim_def trim_start_def trim_end_def is_whitespace_def lit_def)
  have ocr: "str_len (lit ''mistral-ocr-latest'') \<le> 64" "\<not> list_ex is_control (lit ''mistral-ocr-latest'')"
    by (simp_all add: str_len_def len_utf8_def is_control_def lit_def)
  have starts: "is_postgres_url (lit ''postgres://db'')" "starts_with (lit ''http://localhost:3000'') (lit ''http://'')"
    by (simp_all add: is_postgres_url_def starts_with_def lit_def)
  have "config_ok (config_from_env sample_environment)"
    by (simp add: config_ok_def ocr_config_ok_def config_from_env_def sample_env_or database_pool_from_env_def
        async_from_env_def voyage_limits_from_env_def ocr_from_env_def trim_model mistral_ocr_max_file_size_def
        max_context_chunks_def trims ocr starts Let_def)
  then show "load_config sample_environment = Some (Inr (config_from_env sample_environment))"
    by (simp add: load_accepts)
  show "vl_batch_size (co_voyage_rate_limit (config_from_env sample_environment)) = 2"
    "vl_concurrent_batches (co_voyage_rate_limit (config_from_env sample_environment)) = 4"
    by (simp_all add: config_from_env_def voyage_limits_from_env_def sample_env_or Let_def)
qed

lemma sample_places:
  "vy_batch_size sample_client = 2" "vy_concurrent_batches sample_client = 4"
  "slices 2 sample_texts = [[[97], [98]], [[99]]]" "sample_texts \<noteq> []" "length sample_texts = 3"
  by (simp_all add: sample_client_def configured_client_def with_model_def with_concurrent_batches_def
      with_batch_size_def with_rate_limiter_def sample_configuration sample_texts_def slices.simps [of 2] Let_def)

text \<open>Each of the two batches is admitted by the window and answered at the first attempt.\<close>

lemma sample_limiter:
  "vy_limiter sample_client = Some \<lparr>vc_max_rpm = 300, vc_max_tpm = 2000000, vc_max_wait_secs = 60\<rparr>"
  by (simp add: sample_client_def configured_client_def with_model_def with_concurrent_batches_def
      with_batch_size_def with_rate_limiter_def config_from_env_def voyage_limits_from_env_def sample_env_or Let_def)

lemma sample_batches:
  assumes "k < length (slices 2 sample_texts)"
  shows "slices 2 sample_texts ! k \<in> {[[97], [98]], [[99]]}"
  using assms unfolding sample_places(3) by (auto simp: less_Suc_eq)

lemma sample_rounded:
  "rnd64 1 = Fin 1" "rnd64 2 = Fin 2" "rnd64 4 = Fin 4" "rnd64 (1 / 4) = Fin (1 / 4)" "rnd64 (1 / 2) = Fin (1 / 2)"
proof -
  show "rnd64 1 = Fin 1" by code_simp
  show "rnd64 2 = Fin 2" by code_simp
  show "rnd64 4 = Fin 4" by code_simp
  show "rnd64 (1 / 4) = Fin (1 / 4)" by code_simp
  show "rnd64 (1 / 2) = Fin (1 / 2)" by code_simp
qed

lemma sample_overhead:
  assumes "0 \<le> a" "a \<le> 1 / 2"
  shows "f_to_uint u32_max (f_ceil (f_mul rnd64 (Fin a) (rnd64 (11 / 10)))) \<le> 1"
proof -
  have "f_le (rnd64 1) (rnd64 (11 / 10))" "f_le (rnd64 (11 / 10)) (rnd64 2)"
    by (rule f64.rnd_mono, simp)+
  then have "f_le (Fin 1) (rnd64 (11 / 10))" "f_le (rnd64 (11 / 10)) (Fin 2)" unfolding sample_rounded .
  moreover have "f_le (Fin 1) x \<Longrightarrow> f_le x (Fin 2) \<Longrightarrow> \<exists>q. x = Fin q \<and> q \<le> 2 \<and> 1 \<le> q" for x
    by (cases x) simp_all
  ultimately obtain q where q: "rnd64 (11 / 10) = Fin q" "q \<le> 2" "1 \<le> q" by blast
  have "0 \<le> a * q" using assms(1) q(3) by simp
  have "a * q \<le> 1 / 2 * 2" using assms q by (intro mult_mono) simp_all
  then have "a * q \<le> 1" by simp
  with f64.rnd_mono [of "a * q" 1] f64.rnd_nonneg [of "a * q"] obtain x
    where x: "rnd64 (a * q) = Fin x" "x \<le> 1" "0 \<le> x"
    unfolding sample_rounded using \<open>0 \<le> a * q\<close> \<open>a * q \<le> 1\<close> by (cases "rnd64 (a * q)") simp_all
  then have "\<lceil>x\<rceil> \<le> 1" by (simp add: ceiling_le_iff)
  then show ?thesis by (simp add: f_to_uint_def f_ceil_def q(1) x(1) nat_le_iff min.coboundedI2)
qed

lemma sample_estimate:
  assumes "batch \<in> {[[97], [98]], [[99 :: uchar]]}"
  shows "voyage_estimate_tokens batch \<le> 2"
proof -
  obtain n where n: "sum_list (map str_len batch) = n" "n = 1 \<or> n = 2" and len: "length batch \<le> 2"
    using assms by (auto simp: len_utf8_def)
  have "f_div rnd64 (f_of_nat rnd64 n) (Fin 4) = Fin (of_nat n / 4)"
    using n(2) by (elim disjE) (simp_all add: f_of_nat_def sample_rounded)
  moreover have "(of_nat n / 4 :: rat) \<le> 1 / 2" using n(2) by auto
  ultimately obtain a where a: "f_div rnd64 (f_of_nat rnd64 n) (Fin 4) = Fin a" "0 \<le> a" "a \<le> 1 / 2"
    using that [of "of_nat n / 4"] by simp
  have "clamp_u32 (length batch) \<le> 2"
    using len by (simp add: clamp_u32_min)
  then show ?thesis
    using sample_overhead [OF a(2,3)] by (simp add: voyage_estimate_tokens_def n(1) a(1) Let_def)
qed

lemma sample_acquired:
  assumes "batch \<in> {[[97], [98]], [[99 :: uchar]]}"
  shows "\<exists>v. acquire_budget sample_client (sample_call k) batch sample_world =
    (Some (Inr ()), sample_world\<lparr>vw_window := v\<rparr>)"
proof -
  have "word_of_nat (voyage_estimate_tokens batch) \<le> (2000000 :: 32 word)"
  proof -
    consider "voyage_estimate_tokens batch = 0" | "voyage_estimate_tokens batch = 1" | "voyage_estimate_tokens batch = 2"
      using sample_estimate [OF assms] by linarith
    then show ?thesis by cases simp_all
  qed
  then show ?thesis
    by (auto simp: acquire_budget_def sample_limiter sample_call_def sample_world_def acquire_turn_def rpm_check_def
        tpm_check_def voyage_new_def nanos_per_sec_def Let_def)
qed

lemma sample_batch:
  assumes "batch \<in> {[[97], [98]], [[99 :: uchar]]}"
  shows "fst (embed_batch_rate_limited sample_client (sample_call k) batch sample_world) = Some (sample_outcome k)"
proof -
  let ?op = "\<lambda>n. (execute_embedding_request sample_client (fst (vk_attempt (sample_call k) n)), snd (vk_attempt (sample_call k) n))"
  have op: "fst (?op n) = Inr (map ed_embedding (by_index (sample_reply k)), None)" for n
    by (simp add: sample_call_def execute_embedding_request_def read_attempt_def check_response_status_def
        parse_json_response_def)
  have retries: "rc_max_retries (ex_retry (vy_executor sample_client)) \<noteq> - 1"
    using configured_retries [OF sample_base] unfolding sample_client_def by simp
  have "fst (allow_request 0 (x_breaker fresh_state)) = Inr ()" by (simp add: fresh_admits)
  from execute_outcome [OF retries this, of sample_env voyage_unavailable ?op] obtain s' where
    ex: "execute (vy_executor sample_client) sample_env voyage_unavailable ?op 0 fresh_state =
      Some (Inr (map ed_embedding (by_index (sample_reply k)), None), s')"
    unfolding op by auto
  have call: "vk_retry (sample_call k) = sample_env" "vk_begin (sample_call k) = 0" by (simp_all add: sample_call_def)
  from sample_acquired [OF assms, of k] obtain v where
    "acquire_budget sample_client (sample_call k) batch sample_world = (Some (Inr ()), sample_world\<lparr>vw_window := v\<rparr>)" by blast
  then show ?thesis
    using ex by (simp add: embed_batch_rate_limited_def embed_batch_with_usage_def through_executor_def call
        sample_outcome_def) (simp add: sample_world_def)
qed

theorem one_vector_per_text_witness:
  "\<exists>vs. embed_documents sample_client sample_outcome [1, 0] sample_texts = Some (Inr vs) \<and> vs ! 1 = [Fin 1]"
proof -
  have places: "vy_batch_size sample_client = 2" "vy_concurrent_batches sample_client = 4" by (rule sample_places)+
  have order: "can_finish 4 (length (slices 2 sample_texts)) [1, 0]"
    by (auto simp: sample_places can_finish_def less_Suc_eq nth_Cons split: nat.split)
  have returns: "\<forall>k<length (slices 2 sample_texts). \<exists>W.
      fst (embed_batch_rate_limited sample_client (sample_call k) (slices 2 sample_texts ! k) W) = Some (sample_outcome k)"
    using sample_batch sample_batches by blast
  have reply: "mset (map ed_index (sample_reply k)) = mset [0..<length (slices 2 sample_texts ! k)]"
    if "k < length (slices 2 sample_texts)" for k
    using that by (auto simp: sample_places sample_reply_def less_Suc_eq simp del: mset_upt)
  have numbered: "\<forall>k<length (slices 2 sample_texts). \<forall>n r reply.
      fst (vk_attempt (sample_call k) n) = Replied r (Inr reply) \<longrightarrow>
      mset (map ed_index (er_data reply)) = mset [0..<length (slices 2 sample_texts ! k)]"
    using reply by (auto simp: sample_call_def simp del: mset_map mset_upt)
  have ok: "\<not> isl (sample_outcome k)" "sample_outcome k \<noteq> Inl e" for k e by (simp_all add: sample_outcome_def)
  from one_vector_per_text [OF sample_configuration(1) sample_base sample_client_def sample_places(4),
      of "slices 2 sample_texts" "[1, 0]" sample_call sample_outcome, unfolded places, OF refl order returns numbered]
  obtain vs where "embed_documents sample_client sample_outcome [1, 0] sample_texts = Some (Inr vs)"
    and "\<forall>j<3. \<exists>n r reply. fst (vk_attempt (sample_call (j div 2)) n) = Replied r (Inr reply) \<and>
      (\<exists>d\<in>set (er_data reply). ed_index d = j mod 2 \<and> vs ! j = ed_embedding d)"
    by (auto simp: ok sample_places(5) split: option.splits sum.splits)
  then have "embed_documents sample_client sample_outcome [1, 0] sample_texts = Some (Inr vs) \<and> vs ! 1 = [Fin 1]"
    by (auto dest!: spec [of _ 1] simp: sample_call_def sample_reply_def)
  then show ?thesis by blast
qed

lemma progress_is_told_at_the_end_witness:
  "\<exists>result calls. embed_documents_with_progress sample_client sample_outcome [1, 0] sample_texts = Some (result, calls) \<and>
     calls = [(3, 3), (3, 3)]"
proof -
  obtain result calls where run: "embed_documents_with_progress sample_client sample_outcome [1, 0] sample_texts =
      Some (result, calls)"
    by (cases "embed_documents_with_progress sample_client sample_outcome [1, 0] sample_texts")
       (auto simp: embed_documents_with_progress_def sample_places Let_def split: if_splits)
  have "calls = replicate 2 (progress_count sample_outcome [[[97], [98]], [[99]]] [1, 0], word_of_nat (clamp_u32 3))"
    using progress_is_told_at_the_end [OF run sample_places(4)]
    by (simp add: sample_places sample_outcome_def) (simp add: numeral_2_eq_2)
  moreover have "progress_count sample_outcome [[[97], [98]], [[99]]] [1, 0] = 3"
    by (simp add: progress_count_def sample_outcome_def clamp_u32_def try_u32_def u32_max_def)
  ultimately show ?thesis using run by (simp add: clamp_u32_def try_u32_def u32_max_def numeral_2_eq_2 [symmetric])
       (simp add: numeral_2_eq_2)
qed

end
