(* ===== verification/Source_Api.thy ===== *)
theory Source_Api
  imports Ingestion Input_Validation Shutdown
begin

text \<open>
  \<open>api/sources.rs\<close> with \<open>api/common.rs\<close>, \<open>services/sources.rs\<close> and the rows of
  \<open>repositories/source.rs\<close> that its handlers reach: what a client may store, who may see it, and
  how a request starts a build. A request is a run that is dropped where its client goes away. The
  owner of a notebook, the URL parser and the database's unique violation are parameters; the time
  of creation is left out of the rows, and with it the listing, which is ordered by it. The
  suggested questions after a run touch the notebook only and are left out too.
\<close>

subsection \<open>Requests\<close>

record api_env =
  ap_ingest :: ingest_env
  ap_owner :: "uuid \<Rightarrow> uuid option"
  ap_parse_url :: "rstr \<Rightarrow> rstr + url"
  ap_duplicate_error :: db_err

record create_source_request =
  cq_title :: rstr
  cq_type :: rstr
  cq_text :: "rstr option"
  cq_url :: "rstr option"

record source_response =
  sr_id :: uuid
  sr_notebook :: uuid
  sr_title :: rstr
  sr_type :: rstr
  sr_status :: rstr
  sr_error :: "rstr option"
  sr_chunk_count :: int
  sr_metadata :: json

definition response_of :: "uuid \<Rightarrow> source_model \<Rightarrow> source_row \<Rightarrow> source_response" where
  "response_of i m r =
     \<lparr>sr_id = i, sr_notebook = sm_notebook m, sr_title = sm_title m, sr_type = sm_type m,
      sr_status = sw_status r, sr_error = sw_error r, sr_chunk_count = sw_chunk_count r,
      sr_metadata = sm_metadata m\<rparr>"

subsection \<open>What may be stored\<close>

definition zip_magic :: "nat list" where "zip_magic = [80, 75, 3, 4]"

definition validate_zip_magic_bytes :: "nat list \<Rightarrow> app_error + unit" where
  "validate_zip_magic_bytes bytes =
     (if length bytes < length zip_magic \<or> take (length zip_magic) bytes \<noteq> zip_magic then
        Inl (Validation (lit ''Invalid file: does not start with ZIP (PK) header''))
      else Inr ())"

type_synonym accepted = "rstr \<times> json option"

definition extract_web_content :: "api_env \<Rightarrow> create_source_request \<Rightarrow> app_error + accepted" where
  "extract_web_content A p =
     (case cq_url p of
        None \<Rightarrow> Inl (Validation (lit ''URL required for web sources''))
      | Some u \<Rightarrow>
          (case validate_url_for_ssrf (ap_parse_url A) u of
             Inl e \<Rightarrow> Inl e
           | Inr _ \<Rightarrow> Inr ([], Some (JObj [(lit ''url'', JStr u)]))))"

definition extract_youtube_content :: "api_env \<Rightarrow> create_source_request \<Rightarrow> app_error + accepted" where
  "extract_youtube_content A p =
     (case cq_url p of
        None \<Rightarrow> Inl (Validation (lit ''URL required for YouTube sources''))
      | Some u \<Rightarrow>
          (case validate_url_for_ssrf (ap_parse_url A) u of
             Inl e \<Rightarrow> Inl e
           | Inr _ \<Rightarrow>
               (case extract_youtube_video_id (ie_parse_url (ap_ingest A)) u of
                  Inl e \<Rightarrow> Inl e
                | Inr vid \<Rightarrow> Inr ([], Some (JObj [(lit ''url'', JStr u), (lit ''video_id'', JStr vid)])))))"

text \<open>
  The sizes are \<open>usize\<close>, and the product wraps. The last case of the match on the type, which
  the code calls unreachable, is the one for a ZIP here: the caller passes the three file types.
\<close>

definition base64_limit :: "nat \<Rightarrow> nat" where
  "base64_limit max_size = max_size * 4 mod 2 ^ 64 div 3 + 4"

definition check_magic_bytes :: "source_type \<Rightarrow> nat list \<Rightarrow> app_error + unit" where
  "check_magic_bytes ty bytes =
     (if ty = Pdf then validate_pdf_magic_bytes bytes else validate_zip_magic_bytes bytes)"

definition extract_file_content ::
  "api_env \<Rightarrow> source_type \<Rightarrow> create_source_request \<Rightarrow> nat \<Rightarrow> app_error + accepted" where
  "extract_file_content A ty p max_size =
     (case cq_text p of
        None \<Rightarrow> Inl (Validation (lit ''File content (base64) required for file sources''))
      | Some content \<Rightarrow>
          if base64_limit max_size < str_len content then Inl (Validation (lit ''File too large''))
          else
            (case ie_decode64 (ap_ingest A) content of
               Inl _ \<Rightarrow> Inl (Validation (lit ''Invalid base64 content''))
             | Inr decoded \<Rightarrow>
                 (case check_magic_bytes ty decoded of Inl e \<Rightarrow> Inl e | Inr _ \<Rightarrow> Inr (content, None))))"

definition extract_text_content :: "create_source_request \<Rightarrow> nat \<Rightarrow> app_error + accepted" where
  "extract_text_content p max_size =
     (case cq_text p of
        None \<Rightarrow> Inl (Validation (lit ''Content required for text/markdown sources''))
      | Some content \<Rightarrow>
          (case validate_string content max_size (lit ''Content'') of
             Inl e \<Rightarrow> Inl e
           | Inr _ \<Rightarrow> Inr (content, None)))"

definition extract_and_validate_content ::
  "api_env \<Rightarrow> source_type \<Rightarrow> create_source_request \<Rightarrow> nat \<Rightarrow> app_error + accepted" where
  "extract_and_validate_content A ty p max_size =
     (case ty of
        Web \<Rightarrow> extract_web_content A p
      | Youtube \<Rightarrow> extract_youtube_content A p
      | Pdf \<Rightarrow> extract_file_content A ty p max_size
      | Docx \<Rightarrow> extract_file_content A ty p max_size
      | Epub \<Rightarrow> extract_file_content A ty p max_size
      | Text \<Rightarrow> extract_text_content p max_size
      | Markdown \<Rightarrow> extract_text_content p max_size)"

subsection \<open>Rows\<close>

text \<open>A fallible step inside a request, with \<open>?\<close>.\<close>

definition attempt :: "(app_error + 'a) run \<Rightarrow> ('a \<Rightarrow> (app_error + 'b) run) \<Rightarrow> (app_error + 'b) run" where
  "attempt m f = and_then m (\<lambda>r. case r of Inl e \<Rightarrow> ret (Inl e) | Inr x \<Rightarrow> f x)"

definition notebook_missing :: "uuid \<Rightarrow> app_error" where
  "notebook_missing nb = app_error.Notebook (NotebookNotFound (uuid_hyphenated nb))"

definition owned :: "api_env \<Rightarrow> uuid \<Rightarrow> bool" where
  "owned A nb \<longleftrightarrow> ap_owner A nb = Some (ie_account (ap_ingest A))"

definition verify_notebook_access :: "api_env \<Rightarrow> uuid \<Rightarrow> (app_error + unit) run" where
  "verify_notebook_access A nb =
     statement (ap_ingest A) (\<lambda>w. (if owned A nb then Inr () else Inl (notebook_missing nb), w))"

definition verify_source_access :: "api_env \<Rightarrow> uuid \<Rightarrow> (app_error + source_model) run" where
  "verify_source_access A i =
     attempt (fetch_or_not_found (ap_ingest A) i) (\<lambda>m.
     statement (ap_ingest A) (\<lambda>w. (if owned A (sm_notebook m) then Inr m else Inl (source_missing i), w)))"

text \<open>The row that a step has read or returned, with the columns of both tables.\<close>

definition read_row :: "uuid \<Rightarrow> source_model \<Rightarrow> source_response option run" where
  "read_row i m w = (Done (map_option (response_of i m) (db_sources (iw_db w) i)), w)"

definition new_row :: source_row where
  "new_row = \<lparr>sw_active = None, sw_chunk_count = 0, sw_status = source_status_str StPending, sw_error = None\<rparr>"

definition insert_source :: "uuid \<Rightarrow> source_model \<Rightarrow> ingest_world \<Rightarrow> ingest_world" where
  "insert_source i m w =
     w\<lparr>iw_sources := (iw_sources w)(i \<mapsto> m),
       iw_db := (iw_db w)\<lparr>db_sources := (db_sources (iw_db w))(i \<mapsto> new_row)\<rparr>\<rparr>"

definition create_source ::
  "api_env \<Rightarrow> uuid \<Rightarrow> rstr \<Rightarrow> source_type \<Rightarrow> rstr \<Rightarrow> json option \<Rightarrow> (app_error + uuid \<times> source_model) run" where
  "create_source A nb title ty content metadata =
     statement (ap_ingest A) (\<lambda>w.
       let i = ie_fresh (ap_ingest A) (iw_fuel w);
           m = \<lparr>sm_notebook = nb, sm_title = title, sm_type = source_type_as_str ty, sm_text = content,
                sm_metadata = (case metadata of Some j \<Rightarrow> j | None \<Rightarrow> JObj [])\<rparr>
       in if db_sources (iw_db w) i \<noteq> None then (Inl (Database (ap_duplicate_error A)), w)
          else if ap_owner A nb = None then (Inl (Database (ie_fk_error (ap_ingest A))), w)
          else (Inr (i, m), insert_source i m w))"

text \<open>
  Deleting a source is one transaction: its chunks, its row, and by the foreign keys its
  generations and its entries of the OCR cache.
\<close>

definition remove_source :: "uuid \<Rightarrow> index_db \<Rightarrow> index_db" where
  "remove_source i db =
     db\<lparr>db_chunks := filter (\<lambda>c. sk_source c \<noteq> i) (db_chunks db),
        db_generations := filter (\<lambda>g. gn_source g \<noteq> i) (db_generations db),
        db_sources := (db_sources db)(i := None)\<rparr>"

definition purge_source :: "uuid \<Rightarrow> ingest_world \<Rightarrow> ingest_world" where
  "purge_source i w =
     w\<lparr>iw_db := remove_source i (iw_db w), iw_sources := (iw_sources w)(i := None),
       iw_ocr_cache := filter (\<lambda>r. ow_source r \<noteq> Some i) (iw_ocr_cache w)\<rparr>"

definition delete_source :: "api_env \<Rightarrow> uuid \<Rightarrow> (app_error + unit) run" where
  "delete_source A i =
     attempt (fetch_or_not_found (ap_ingest A) i) (\<lambda>m.
     attempt (statement (ap_ingest A)
         (\<lambda>w. (if owned A (sm_notebook m) then Inr () else Inl (source_missing i), w))) (\<lambda>_.
     statement (ap_ingest A) (\<lambda>w. (Inr (), purge_source i w))))"

subsection \<open>Handlers\<close>

definition get_source_handler :: "api_env \<Rightarrow> uuid \<Rightarrow> (app_error + source_response option) run" where
  "get_source_handler A i =
     attempt (verify_source_access A i) (\<lambda>m. and_then (read_row i m) (\<lambda>r. ret (Inr r)))"

definition get_source_chunks_handler :: "api_env \<Rightarrow> uuid \<Rightarrow> (app_error + (uuid \<times> int \<times> rstr) list) run" where
  "get_source_chunks_handler A i =
     attempt (verify_source_access A i) (\<lambda>_.
     statement (ap_ingest A) (\<lambda>w. (Inr (get_for_source i (iw_db w)), w)))"

definition delete_source_handler :: "api_env \<Rightarrow> uuid \<Rightarrow> (app_error + unit) run" where
  "delete_source_handler A i = attempt (verify_source_access A i) (\<lambda>_. delete_source A i)"

text \<open>\<open>claim_or_report\<close>: whatever is refused is told on the source, not to the caller.\<close>

definition claim_or_report ::
  "api_env \<Rightarrow> uuid \<Rightarrow> uuid \<Rightarrow> source_type \<Rightarrow> index_ownership option run" where
  "claim_or_report A i nb ty =
     and_then (claim_index_ownership (ap_ingest A) i ty processing_timeout_secs)
       (\<lambda>r. case r of
          Inr ownership \<Rightarrow> ret ownership
        | Inl e \<Rightarrow>
            and_then (update_source_status (ap_ingest A) i StError (Some (app_error_text e))) (\<lambda>_.
            and_then (broadcast_to nb (SrcError i (app_error_text e))) (\<lambda>_.
            ret None)))"

record processing_job =
  jb_ownership :: index_ownership
  jb_source :: uuid
  jb_notebook :: uuid
  jb_type :: source_type

definition job_for :: "uuid \<Rightarrow> uuid \<Rightarrow> source_type \<Rightarrow> index_ownership \<Rightarrow> processing_job" where
  "job_for i nb ty own = \<lparr>jb_ownership = own, jb_source = i, jb_notebook = nb, jb_type = ty\<rparr>"

definition creation_request :: "api_env \<Rightarrow> uuid \<Rightarrow> source_type \<Rightarrow> uuid \<Rightarrow> authorization_request" where
  "creation_request A nb ty op =
     \<lparr>ar_account = ie_account (ap_ingest A), ar_operation = operation.CreateSource nb ty, ar_operation_id = op\<rparr>"

definition authorize_creation :: "api_env \<Rightarrow> uuid \<Rightarrow> source_type \<Rightarrow> (app_error + permit) run" where
  "authorize_creation A nb ty =
     await (\<lambda>w. (Done (ie_authorize (ap_ingest A)
       (creation_request A nb ty (ie_fresh (ap_ingest A) (iw_fuel w)))), w))"

text \<open>What is checked before anything is stored, and what it yields for the row.\<close>

definition check_creation ::
  "api_env \<Rightarrow> uuid \<Rightarrow> create_source_request \<Rightarrow> (app_error + source_type \<times> accepted) run" where
  "check_creation A nb p =
     attempt (verify_notebook_access A nb) (\<lambda>_.
     attempt (ret (source_type_try_from (ie_unicode (ap_ingest A)) (cq_type p))) (\<lambda>ty.
     attempt (authorize_creation A nb ty) (\<lambda>_.
     attempt (ret (validate_title (cq_title p))) (\<lambda>_.
     attempt (ret (extract_and_validate_content A ty p (ic_max_source_size_bytes (ie_config (ap_ingest A))))) (\<lambda>x.
     ret (Inr (ty, x)))))))"

definition prepare_source_creation ::
  "api_env \<Rightarrow> uuid \<Rightarrow> create_source_request \<Rightarrow>
   (app_error + source_response \<times> processing_job option) run" where
  "prepare_source_creation A nb p =
     attempt (check_creation A nb p) (\<lambda>(ty, content, metadata).
     attempt (create_source A nb (trim (cq_title p)) ty content metadata) (\<lambda>(i, m).
     and_then (claim_or_report A i nb ty) (\<lambda>ownership.
     ret (Inr (response_of i m new_row, map_option (job_for i nb ty) ownership)))))"

text \<open>
  A duplicate request loses the claim and is answered with the state of the winner; a granted one
  sets the status first.
\<close>

definition after_reprocess_claim ::
  "api_env \<Rightarrow> uuid \<Rightarrow> source_model \<Rightarrow> source_response option \<Rightarrow> source_type \<Rightarrow> index_ownership option \<Rightarrow>
   (app_error + source_response option \<times> processing_job option) run" where
  "after_reprocess_claim A i m seen ty ownership =
     (case ownership of
        None \<Rightarrow>
          attempt (get_source (ap_ingest A) i) (\<lambda>current.
          and_then (case current of Some c \<Rightarrow> read_row i c | None \<Rightarrow> ret seen) (\<lambda>r.
          ret (Inr (r, None))))
      | Some own \<Rightarrow>
          attempt (update_source_status (ap_ingest A) i StPending None) (\<lambda>_.
          and_then (read_row i m) (\<lambda>r.
          and_then (broadcast_to (sm_notebook m) (status_event i (lit ''pending'') None)) (\<lambda>_.
          ret (Inr (r, Some (job_for i (sm_notebook m) ty own)))))))"

definition prepare_source_reprocess ::
  "api_env \<Rightarrow> uuid \<Rightarrow> (app_error + source_response option \<times> processing_job option) run" where
  "prepare_source_reprocess A i =
     attempt (verify_source_access A i) (\<lambda>m.
     and_then (read_row i m) (\<lambda>seen.
     attempt (ret (source_type_try_from (ie_unicode (ap_ingest A)) (sm_type m))) (\<lambda>ty.
     and_then (claim_or_report A i (sm_notebook m) ty) (after_reprocess_claim A i m seen ty))))"

subsection \<open>Admitted requests\<close>

definition source_shutdown_unavailable :: app_error where
  "source_shutdown_unavailable = ServiceUnavailable (lit ''Server is shutting down; retry this request'')"

definition run_job :: "api_env \<Rightarrow> schedule \<Rightarrow> ending \<Rightarrow> processing_job \<Rightarrow> ingest_world \<Rightarrow> ingest_world" where
  "run_job A S N j w =
     snd (process_source (ap_ingest A) S (N\<lparr>en_timeout_secs := processing_timeout_secs\<rparr>) (jb_ownership j)
       (jb_source j) (jb_notebook j) (jb_type j) w)"

text \<open>
  The task answers the request as soon as it is prepared, and then runs the job. A preparation
  that is dropped answers nothing: its client is gone, unless the shutdown aborted the task.
  \<open>fuel\<close> is how many more awaits the job reaches.
\<close>

definition run_admitted_source_request ::
  "api_env \<Rightarrow> schedule \<Rightarrow> ending \<Rightarrow> nat \<Rightarrow> (app_error + 'r \<times> processing_job option) run \<Rightarrow>
   coordinator \<Rightarrow> ingest_world \<Rightarrow> (app_error + 'r) option \<times> coordinator \<times> ingest_world" where
  "run_admitted_source_request A S N fuel prepared c w =
     (case admission_spawn c of
        (Inl _, c) \<Rightarrow> (Some (Inl source_shutdown_unavailable), c, w)
      | (Inr task, c) \<Rightarrow>
          (case prepared w of
             (Done (Inl e), w) \<Rightarrow> (Some (Inl e), registration_drop task c, w)
           | (Done (Inr (response, None)), w) \<Rightarrow> (Some (Inr response), registration_drop task c, w)
           | (Done (Inr (response, Some job)), w) \<Rightarrow>
               (Some (Inr response), registration_drop task c, run_job A S N job (w\<lparr>iw_fuel := fuel\<rparr>))
           | (_, w) \<Rightarrow>
               (if en_shutdown N then Some (Inl source_shutdown_unavailable) else None, registration_drop task c, w)))"

definition source_request ::
  "api_env \<Rightarrow> schedule \<Rightarrow> ending \<Rightarrow> nat \<Rightarrow> (app_error + 'r \<times> processing_job option) run \<Rightarrow>
   coordinator \<Rightarrow> ingest_world \<Rightarrow> (app_error + 'r) option \<times> coordinator \<times> ingest_world" where
  "source_request A S N fuel prepared c w =
     (case try_admit c of
        (Inl _, c) \<Rightarrow> (Some (Inl source_shutdown_unavailable), c, w)
      | (Inr _, c) \<Rightarrow> run_admitted_source_request A S N fuel prepared c w)"

definition create_source_handler ::
  "api_env \<Rightarrow> schedule \<Rightarrow> ending \<Rightarrow> nat \<Rightarrow> uuid \<Rightarrow> create_source_request \<Rightarrow>
   coordinator \<Rightarrow> ingest_world \<Rightarrow> (app_error + source_response) option \<times> coordinator \<times> ingest_world" where
  "create_source_handler A S N fuel nb p = source_request A S N fuel (prepare_source_creation A nb p)"

definition reprocess_source_handler ::
  "api_env \<Rightarrow> schedule \<Rightarrow> ending \<Rightarrow> nat \<Rightarrow> uuid \<Rightarrow>
   coordinator \<Rightarrow> ingest_world \<Rightarrow> (app_error + source_response option) option \<times> coordinator \<times> ingest_world" where
  "reprocess_source_handler A S N fuel i = source_request A S N fuel (prepare_source_reprocess A i)"


subsection \<open>What a request may change\<close>

lemma attempt_Inr:
  "attempt m f w = (Done (Inr y), w'') \<longleftrightarrow> (\<exists>x w'. m w = (Done (Inr x), w') \<and> f x w' = (Done (Inr y), w''))"
  by (auto simp: attempt_def and_then_Done ret_Done split_sum_ex)

lemma attempt_Inl:
  "attempt m f w = (Done (Inl e), w'') \<longleftrightarrow>
   m w = (Done (Inl e), w'') \<or> (\<exists>x w'. m w = (Done (Inr x), w') \<and> f x w' = (Done (Inl e), w''))"
  by (auto simp: attempt_def and_then_Done ret_Done split_sum_ex)

text \<open>A step that leaves everything as it was, and one that does so when it is refused.\<close>

definition untouched :: "ingest_world \<Rightarrow> ingest_world \<Rightarrow> bool" where
  "untouched w w' \<longleftrightarrow> w' = w\<lparr>iw_fuel := iw_fuel w'\<rparr>"

interpretation un: step_relation untouched
proof
  fix a b c :: ingest_world
  assume "untouched a b" "untouched b c"
  then show "untouched a c" unfolding untouched_def by (metis ingest_world.ext_inject ingest_world.surjective ingest_world.update_convs(7))
qed (simp_all add: untouched_def)

lemma untouched_same:
  "untouched w w' \<Longrightarrow> iw_db w' = iw_db w" "untouched w w' \<Longrightarrow> iw_sources w' = iw_sources w"
  "untouched w w' \<Longrightarrow> iw_sent w' = iw_sent w" "untouched w w' \<Longrightarrow> iw_ocr_cache w' = iw_ocr_cache w"
  by (metis (no_types) untouched_def ingest_world.select_convs(1-7) ingest_world.surjective ingest_world.update_convs(7))+

lemma untouched_attempt:
  "run_keeps untouched m \<Longrightarrow> (\<And>x. run_keeps untouched (f x)) \<Longrightarrow> run_keeps untouched (attempt m f)"
  unfolding attempt_def by (intro un.keeps_and_then) (auto simp: un.keeps_ret split: sum.split)

lemma untouched_read: "(\<And>w. f w = (g w, w)) \<Longrightarrow> run_keeps untouched (statement E f)"
  by (rule un.keeps_statement) (simp add: un.refl)

lemma untouched_fetch: "run_keeps untouched (fetch_or_not_found E i)"
  unfolding fetch_or_not_found_def by (rule untouched_read) (rule refl)

lemma untouched_notebook: "run_keeps untouched (verify_notebook_access A nb)"
  unfolding verify_notebook_access_def by (rule untouched_read) (rule refl)

lemma untouched_source: "run_keeps untouched (verify_source_access A i)"
  unfolding verify_source_access_def
  by (intro untouched_attempt untouched_fetch untouched_read) (rule refl)

lemma untouched_authorize: "run_keeps untouched (authorize_creation A nb ty)"
  unfolding authorize_creation_def by (rule un.keeps_await) (simp add: run_keeps_def un.refl)

lemma untouched_check: "run_keeps untouched (check_creation A nb p)"
  unfolding check_creation_def
  by (intro untouched_attempt untouched_notebook untouched_authorize un.keeps_ret)


subsection \<open>A refused creation\<close>

text \<open>
  Nothing after the insertion refuses, and the insertion itself stores nothing when it fails.
\<close>

lemma untouched_statement_Inl:
  assumes "statement E f w = (Done (Inl e), w')" and "\<And>v e v'. f v = (Inl e, v') \<Longrightarrow> v' = v"
  shows "untouched w w'"
  using assms(1) by (auto simp: statement_def await_def untouched_def dest: assms(2)
      split: nat.splits option.splits prod.splits)

lemma create_source_Inl: "create_source A nb t ty c m w = (Done (Inl e), w') \<Longrightarrow> untouched w w'"
  unfolding create_source_def
  by (erule untouched_statement_Inl) (auto simp: Let_def split: if_splits)

lemma check_creation_same:
  assumes "check_creation A nb p w = (r, w')"
  shows "untouched w w'"
  by (rule run_keepsD [OF untouched_check assms])

text \<open>
  A creation that is refused, whatever refused it, has stored and said nothing: a source that
  is not allowed, not valid or too large leaves no row and starts no run.
\<close>

lemma refused_creation_stores_nothing:
  assumes "prepare_source_creation A nb p w = (Done (Inl e), w')"
  shows "w' = w\<lparr>iw_fuel := iw_fuel w'\<rparr>"
proof -
  from assms consider (check) "check_creation A nb p w = (Done (Inl e), w')"
    | (store) ty c m w1 where "check_creation A nb p w = (Done (Inr (ty, c, m)), w1)"
        "create_source A nb (trim (cq_title p)) ty c m w1 = (Done (Inl e), w')"
    unfolding prepare_source_creation_def by (auto simp: attempt_Inl and_then_Done ret_Done split_def)
  then have "untouched w w'"
  proof cases
    case check
    then show ?thesis by (rule check_creation_same)
  next
    case store
    then show ?thesis using un.trans check_creation_same create_source_Inl by blast
  qed
  then show ?thesis by (simp only: untouched_def)
qed

subsection \<open>What an accepted source holds\<close>

text \<open>What the checks promise of the text and the metadata that are stored, per type.\<close>

definition reachable_url :: "api_env \<Rightarrow> rstr \<Rightarrow> bool" where
  "reachable_url A u \<longleftrightarrow> validate_url_for_ssrf (ap_parse_url A) u = Inr ()"

definition storable :: "api_env \<Rightarrow> source_type \<Rightarrow> accepted \<Rightarrow> bool" where
  "storable A ty x \<longleftrightarrow>
     (let limit = ic_max_source_size_bytes (ie_config (ap_ingest A)); decoded = ie_decode64 (ap_ingest A) (fst x) in
      case ty of
        Web \<Rightarrow> fst x = [] \<and> (\<exists>u. snd x = Some (JObj [(lit ''url'', JStr u)]) \<and> reachable_url A u)
      | Youtube \<Rightarrow> fst x = [] \<and> (\<exists>u v. snd x = Some (JObj [(lit ''url'', JStr u), (lit ''video_id'', JStr v)]) \<and>
          reachable_url A u \<and> extract_youtube_video_id (ie_parse_url (ap_ingest A)) u = Inr v)
      | Text \<Rightarrow> snd x = None \<and> trim (fst x) \<noteq> [] \<and> str_len (fst x) \<le> limit
      | Markdown \<Rightarrow> snd x = None \<and> trim (fst x) \<noteq> [] \<and> str_len (fst x) \<le> limit
      | Pdf \<Rightarrow> snd x = None \<and> str_len (fst x) \<le> base64_limit limit \<and>
          (\<exists>bytes. decoded = Inr bytes \<and> take 5 bytes = pdf_magic)
      | _ \<Rightarrow> snd x = None \<and> str_len (fst x) \<le> base64_limit limit \<and>
          (\<exists>bytes. decoded = Inr bytes \<and> take 4 bytes = zip_magic))"

lemma validate_string_ok: "validate_string s n f = Inr u \<longleftrightarrow> trim s \<noteq> [] \<and> str_len s \<le> n"
  by (simp add: validate_string_def)

lemma magic_ok:
  "validate_pdf_magic_bytes b = Inr u \<longleftrightarrow> take 5 b = pdf_magic"
  "validate_zip_magic_bytes b = Inr u \<longleftrightarrow> take 4 b = zip_magic"
  by (auto simp: validate_pdf_magic_bytes_def validate_zip_magic_bytes_def pdf_magic_def zip_magic_def eval_nat_numeral
      dest: arg_cong [of _ _ length])

lemma accepted_content:
  assumes "extract_and_validate_content A ty p (ic_max_source_size_bytes (ie_config (ap_ingest A))) = Inr x"
  shows "storable A ty x"
proof (cases ty)
  case Web
  with assms show ?thesis
    by (auto simp: storable_def extract_and_validate_content_def extract_web_content_def reachable_url_def Let_def
        split: option.splits sum.splits)
next
  case Youtube
  with assms show ?thesis
    by (auto simp: storable_def extract_and_validate_content_def extract_youtube_content_def reachable_url_def Let_def
        split: option.splits sum.splits)
qed (use assms in \<open>auto simp: storable_def extract_and_validate_content_def extract_file_content_def
      extract_text_content_def check_magic_bytes_def magic_ok validate_string_ok Let_def
      split: option.splits sum.splits if_splits\<close>)


subsection \<open>A claim for a new source\<close>

text \<open>What a claim and a change of status leave alone.\<close>

definition unread :: "ingest_world \<Rightarrow> ingest_world \<Rightarrow> bool" where
  "unread w w' \<longleftrightarrow>
     iw_sources w' = iw_sources w \<and> iw_ocr_cache w' = iw_ocr_cache w \<and> iw_sent w' = iw_sent w \<and>
     (\<forall>s. visible_chunks s (iw_db w') = visible_chunks s (iw_db w))"

interpretation ur: step_relation unread
  by unfold_locales (simp_all add: unread_def)

lemma untouched_unread: "untouched w w' \<Longrightarrow> unread w w'"
  by (simp add: unread_def untouched_same)

lemma unread_index_statement:
  assumes "\<And>n db s. visible_chunks s (snd (f n db)) = visible_chunks s db"
  shows "run_keeps unread (statement E (\<lambda>w. on_index (f (iw_fuel w)) w))"
  by (rule ur.keeps_statement) (simp add: on_index_def unread_def split_beta assms)

lemma visible_claim: "visible_chunks s (snd (claim i now e source p db)) = visible_chunks s db"
  by (rule visible_same) (simp_all add: claim_def active_of_def Let_def)

lemma visible_status: "visible_chunks s (set_status i st m db) = visible_chunks s db"
  by (rule visible_same) (simp_all add: set_status_def active_of_def split: option.split)

lemma unread_status: "run_keeps unread (update_source_status E i st m)"
  unfolding update_source_status_def
proof (rule ur.keeps_and_then)
  show "run_keeps unread (fetch_or_not_found E i)"
    using untouched_fetch untouched_unread by (auto simp: run_keeps_def)
  show "run_keeps unread (case r of Inl e \<Rightarrow> ret (Inl e)
      | Inr _ \<Rightarrow> statement E (on_index (\<lambda>db. (Inr (), set_status i st m db))))" for r :: "app_error + source_model"
    using unread_index_statement [of "\<lambda>_ db. (Inr (), set_status i st m db)" E]
    by (simp add: ur.keeps_ret visible_status split: sum.split)
qed

lemma unread_claim: "run_keeps unread (claim_index_ownership E source ty secs)"
proof -
  have stale: "run_keeps unread (statement E (\<lambda>w. on_index (\<lambda>db. case fail_stale_builds (ie_now E (iw_fuel w)) t r db
      of (n, db') \<Rightarrow> (Inr n :: app_error + nat, db')) w))" for t r
    by (rule unread_index_statement [of "\<lambda>n db. case fail_stale_builds (ie_now E n) t r db of (n, db') \<Rightarrow> (Inr n, db')"])
       (use visible_fail_stale in \<open>simp add: split_beta\<close>)
  have claimed: "run_keeps unread (statement E (\<lambda>w. on_index (claim (ie_fresh E (iw_fuel w)) (ie_now E (iw_fuel w))
      (ie_fk_error E) source p) w))" for p
    by (rule unread_index_statement [of "\<lambda>n. claim (ie_fresh E n) (ie_now E n) (ie_fk_error E) source p"])
       (rule visible_claim)
  show ?thesis
    unfolding claim_index_ownership_def
    by (auto intro!: ur.keeps_and_then ur.keeps_ret stale claimed split: option.split sum.split)
qed

text \<open>Giving up stale builds adds none, so a source without a generation cannot lose its claim.\<close>

lemma fail_stale_building:
  assumes "list_ex (is_building_of s) (db_generations (snd (fail_stale_builds now t reason db)))"
  shows "list_ex (is_building_of s) (db_generations db)"
proof -
  let ?P = "\<lambda>p. list_ex (is_building_of s) (db_generations (snd p)) \<longrightarrow> list_ex (is_building_of s) (db_generations db)"
  have "?P (fail_one_stale now reason g q)" if "?P q" for g q
  proof -
    have same: "db_generations (restore_source_status x r d) = db_generations d" for x r d
      by (simp add: restore_source_status_def split: option.split)
    have "list_ex (is_building_of s) (db_generations (Generation.fail_generation now i reason d)) \<Longrightarrow>
        list_ex (is_building_of s) (db_generations d)" for i d
      by (auto simp: Generation.fail_generation_def update_generation_def list_ex_iff is_building_of_def split: if_splits)
    then show ?thesis using that by (auto simp: fail_one_stale_def same)
  qed
  then have "?P (fail_stale_builds now t reason db)"
    unfolding fail_stale_builds_def by (intro fold_keeps [where P = ?P]) simp_all
  then show ?thesis using assms by blast
qed

lemma claim_of_new_source:
  assumes "claim_index_ownership E source ty secs w = (Done (Inr c), w')"
    and "\<forall>g\<in>set (db_generations (iw_db w)). gn_source g \<noteq> source"
  shows "c \<noteq> None"
proof
  assume "c = None"
  obtain before now k p where "claim (ie_fresh E k) now (ie_fk_error E) source p
      (snd (fail_stale_builds before (stale_after_secs secs) stale_build_reason (iw_db w))) =
    (Inr (map_option io_generation c), iw_db w')"
    using claim_statements [OF assms(1)] by metis
  with \<open>c = None\<close> have "list_ex (is_building_of source) (db_generations (snd (fail_stale_builds before
      (stale_after_secs secs) stale_build_reason (iw_db w))))"
    by (auto simp: claim_def Let_def split: if_splits)
  then have "list_ex (is_building_of source) (db_generations (iw_db w))" by (rule fail_stale_building)
  then show False using assms(2) by (auto simp: list_ex_iff is_building_of_def)
qed

lemma claim_or_report_cases:
  assumes "claim_or_report A i nb ty w = (Done ownership, w')"
  obtains (claimed) "claim_index_ownership (ap_ingest A) i ty processing_timeout_secs w = (Done (Inr ownership), w')"
      "unread w w'"
  | (reported) e w1 where "ownership = None" "unread w w1"
      "w' = w1\<lparr>iw_sent := iw_sent w1 @ [(nb, SrcError i (app_error_text e))]\<rparr>"
proof -
  from assms obtain r w1 where claim: "claim_index_ownership (ap_ingest A) i ty processing_timeout_secs w = (Done r, w1)"
    and rest: "(case r of Inr ownership \<Rightarrow> ret ownership
      | Inl e \<Rightarrow> and_then (update_source_status (ap_ingest A) i StError (Some (app_error_text e))) (\<lambda>_.
          and_then (broadcast_to nb (SrcError i (app_error_text e))) (\<lambda>_. ret None))) w1 = (Done ownership, w')"
    unfolding claim_or_report_def and_then_Done by blast
  note before = run_keepsD [OF unread_claim claim]
  show thesis
  proof (cases r)
    case (Inr own)
    then have "r = Inr ownership" "w1 = w'" using rest by (simp_all add: ret_def)
    then show thesis using claimed claim before by simp
  next
    case (Inl e)
    with rest obtain u w2 where "update_source_status (ap_ingest A) i StError (Some (app_error_text e)) w1 = (Done u, w2)"
      and "ownership = None" "w' = w2\<lparr>iw_sent := iw_sent w2 @ [(nb, SrcError i (app_error_text e))]\<rparr>"
      by (auto simp: and_then_Done ret_Done broadcast_to_def)
    then show thesis using reported ur.trans [OF before run_keepsD [OF unread_status]] by blast
  qed
qed


subsection \<open>An accepted creation\<close>

lemma check_creation_Inr:
  assumes "check_creation A nb p w = (Done (Inr (ty, x)), w')"
  shows "owned A nb" and "source_type_try_from (ie_unicode (ap_ingest A)) (cq_type p) = Inr ty"
    and "\<exists>op permit. ie_authorize (ap_ingest A) (creation_request A nb ty op) = Inr permit"
    and "trim (cq_title p) \<noteq> []" and "str_len (cq_title p) \<le> 255" and "storable A ty x"
proof -
  from assms obtain u w1 ty' w2 permit v x' where 1: "verify_notebook_access A nb w = (Done (Inr u), w1)"
    and "Inr ty' = source_type_try_from (ie_unicode (ap_ingest A)) (cq_type p)"
    and "authorize_creation A nb ty' w1 = (Done (Inr permit), w2)"
    and "Inr v = validate_title (cq_title p)"
    and "Inr x' = extract_and_validate_content A ty' p (ic_max_source_size_bytes (ie_config (ap_ingest A)))"
    and "Inr (ty, x) = Inr (ty', x')"
    unfolding check_creation_def attempt_Inr ret_Done by blast
  then have 2: "source_type_try_from (ie_unicode (ap_ingest A)) (cq_type p) = Inr ty"
    and 3: "authorize_creation A nb ty w1 = (Done (Inr permit), w2)"
    and 4: "validate_title (cq_title p) = Inr v"
    and 5: "extract_and_validate_content A ty p (ic_max_source_size_bytes (ie_config (ap_ingest A))) = Inr x"
    by simp_all
  from statement_Done [OF 1 [unfolded verify_notebook_access_def]] show "owned A nb"
    by (auto split: if_splits)
  show "source_type_try_from (ie_unicode (ap_ingest A)) (cq_type p) = Inr ty" using 2 .
  show "\<exists>op permit. ie_authorize (ap_ingest A) (creation_request A nb ty op) = Inr permit"
    using 3 by (auto simp: authorize_creation_def await_def split: nat.splits)
  show "trim (cq_title p) \<noteq> []" "str_len (cq_title p) \<le> 255"
    using 4 by (simp_all add: validate_title_def validate_string_ok max_title_length_def)
  show "storable A ty x" using accepted_content [OF 5] .
qed

definition stored_as :: "uuid \<Rightarrow> rstr \<Rightarrow> source_type \<Rightarrow> accepted \<Rightarrow> source_model" where
  "stored_as nb title ty x =
     \<lparr>sm_notebook = nb, sm_title = title, sm_type = source_type_as_str ty, sm_text = fst x,
      sm_metadata = (case snd x of Some j \<Rightarrow> j | None \<Rightarrow> JObj [])\<rparr>"

lemma create_source_Inr:
  assumes "create_source A nb title ty c m w = (Done (Inr (i, row)), w')"
  obtains n where "w' = insert_source i row (w\<lparr>iw_fuel := n\<rparr>)" "row = stored_as nb title ty (c, m)"
    "db_sources (iw_db w) i = None"
  using statement_Done [OF assms [unfolded create_source_def]]
  by (auto simp: Let_def stored_as_def split: if_splits)

lemma index_ok_insert:
  assumes "index_ok (iw_db w)" "db_sources (iw_db w) i = None"
  shows "index_ok (iw_db (insert_source i m w))"
proof -
  have "active_of s (iw_db (insert_source i m w)) = active_of s (iw_db w)" for s
    using assms(2) by (simp add: active_of_def insert_source_def new_row_def)
  then show ?thesis using assms(1) unfolding index_ok_def
    by (simp add: insert_source_def chunks_of_def)
qed

lemma visible_insert:
  "db_sources (iw_db w) i = None \<Longrightarrow>
   visible_chunks s (iw_db (insert_source i m w)) = visible_chunks s (iw_db w)"
  by (simp add: visible_chunks_def insert_source_def new_row_def split: option.split)

text \<open>
  C16. An accepted creation adds one row, which the account may add to a notebook it owns, whose
  content its type allows, under a title that is not blank; a URL in it has passed the address
  filter. Readers of every source see what they saw. Then either a build is owned, exclusively, by
  the job that starts, or the reason why none could be claimed is reported on the new source: the
  claim of a new source is never lost to another worker.
\<close>

theorem accepted_creation:
  assumes "prepare_source_creation A nb p w = (Done (Inr (response, job)), w')"
    and "index_ok (iw_db w)" and "\<forall>k. ie_fresh (ap_ingest A) k \<notin> gn_id ` set (db_generations (iw_db w))"
    and "\<forall>g\<in>set (db_generations (iw_db w)). db_sources (iw_db w) (gn_source g) \<noteq> None"
  shows "\<exists>i ty x. owned A nb \<and> source_type_try_from (ie_unicode (ap_ingest A)) (cq_type p) = Inr ty \<and>
    (\<exists>op permit. ie_authorize (ap_ingest A) (creation_request A nb ty op) = Inr permit) \<and>
    trim (cq_title p) \<noteq> [] \<and> str_len (cq_title p) \<le> 255 \<and> storable A ty x \<and>
    sr_id response = i \<and> db_sources (iw_db w) i = None \<and>
    iw_sources w' = (iw_sources w)(i \<mapsto> stored_as nb (trim (cq_title p)) ty x) \<and>
    (\<forall>s. visible_chunks s (iw_db w') = visible_chunks s (iw_db w)) \<and>
    (case job of
       Some j \<Rightarrow> jb_source j = i \<and> jb_notebook j = nb \<and> jb_type j = ty \<and> iw_sent w' = iw_sent w \<and>
         owns_build (io_generation (jb_ownership j)) i (iw_db w')
     | None \<Rightarrow> \<exists>e. iw_sent w' = iw_sent w @ [(nb, SrcError i (app_error_text e))])"
proof -
  from assms(1) obtain ty c m w1 i row w2 ownership where
    check: "check_creation A nb p w = (Done (Inr (ty, c, m)), w1)"
    and create: "create_source A nb (trim (cq_title p)) ty c m w1 = (Done (Inr (i, row)), w2)"
    and report: "claim_or_report A i nb ty w2 = (Done ownership, w')"
    and result: "response = response_of i row new_row" "job = map_option (job_for i nb ty) ownership"
    by (auto simp: prepare_source_creation_def attempt_Inr and_then_Done ret_Done)
  note same = untouched_same [OF check_creation_same [OF check]]
  from create obtain n where w2: "w2 = insert_source i row (w1\<lparr>iw_fuel := n\<rparr>)"
    and row: "row = stored_as nb (trim (cq_title p)) ty (c, m)" and fresh: "db_sources (iw_db w) i = None"
    by (rule create_source_Inr) (simp add: same)
  have w2_same: "iw_sources w2 = (iw_sources w)(i \<mapsto> row)" "iw_sent w2 = iw_sent w"
      "visible_chunks s (iw_db w2) = visible_chunks s (iw_db w)" "index_ok (iw_db w2)"
      "db_generations (iw_db w2) = db_generations (iw_db w)" for s
    using visible_insert [of "w1\<lparr>iw_fuel := n\<rparr>" i s row] index_ok_insert [of "w1\<lparr>iw_fuel := n\<rparr>" i row] fresh assms(2)
    by (simp_all add: w2 same) (simp_all add: insert_source_def same)
  note checked = check_creation_Inr [OF check]
  have id: "sr_id response = i" by (simp add: result response_of_def)
  have done_same: "iw_sources w' = (iw_sources w)(i \<mapsto> row) \<and>
      (\<forall>s. visible_chunks s (iw_db w') = visible_chunks s (iw_db w)) \<and>
      (case job of
         Some j \<Rightarrow> jb_source j = i \<and> jb_notebook j = nb \<and> jb_type j = ty \<and> iw_sent w' = iw_sent w \<and>
           owns_build (io_generation (jb_ownership j)) i (iw_db w')
       | None \<Rightarrow> \<exists>e. iw_sent w' = iw_sent w @ [(nb, SrcError i (app_error_text e))])"
    using report
  proof (cases rule: claim_or_report_cases)
    case claimed
    have "\<forall>g\<in>set (db_generations (iw_db w2)). gn_source g \<noteq> i" using assms(4) fresh w2_same(5) by auto
    from claim_of_new_source [OF claimed(1) this] obtain own where own: "ownership = Some own" by blast
    from granted_claim [OF claimed(1) [unfolded own] w2_same(4)] assms(3)
    have "owns_build (io_generation own) i (iw_db w')" by (simp add: w2_same(5))
    then show ?thesis using claimed(2) w2_same by (simp add: own result job_for_def unread_def)
  next
    case (reported e w3)
    then show ?thesis using w2_same by (auto simp: result unread_def)
  qed
  then show ?thesis using checked id fresh row by blast
qed


subsection \<open>Sources of other accounts\<close>

text \<open>What a request for a source answers when there is none, changing nothing.\<close>

definition answers_missing :: "uuid \<Rightarrow> ingest_world \<Rightarrow> (app_error + 'a) ran \<times> ingest_world \<Rightarrow> bool" where
  "answers_missing i w out \<longleftrightarrow>
     untouched w (snd out) \<and>
     (fst out = Dropped \<or> fst out = Done (Inl (source_missing i)) \<or> (\<exists>e. fst out = Done (Inl (Database e))))"

lemma statement_refused:
  assumes "\<And>v. f v = (Inl (source_missing i), v)"
  shows "answers_missing i w (statement E f w)"
  by (auto simp: statement_def await_def answers_missing_def untouched_def assms split: nat.split option.split)

lemma answers_missing_trans:
  "untouched w v \<Longrightarrow> answers_missing i v out \<Longrightarrow> answers_missing i w out"
  by (auto simp: answers_missing_def intro: un.trans)

lemma attempt_missing:
  assumes "answers_missing i w (m w)"
  shows "answers_missing i w (attempt m f w)"
proof -
  obtain r w' where "m w = (r, w')" by fastforce
  with assms show ?thesis
    by (auto simp: answers_missing_def attempt_def and_then_def ret_def)
qed

lemma unavailable_source:
  assumes "case iw_sources w i of None \<Rightarrow> True | Some m \<Rightarrow> \<not> owned A (sm_notebook m)"
  shows "answers_missing i w (verify_source_access A i w)"
proof (cases "\<exists>m v. fetch_or_not_found (ap_ingest A) i w = (Done (Inr m), v)")
  case True
  then obtain m v where fetch: "fetch_or_not_found (ap_ingest A) i w = (Done (Inr m), v)" by blast
  from statement_Done [OF fetch [unfolded fetch_or_not_found_def]] have "iw_sources w i = Some m"
    by (auto split: option.splits)
  with assms have "\<not> owned A (sm_notebook m)" by simp
  then have "answers_missing i v (statement (ap_ingest A)
      (\<lambda>w. (if owned A (sm_notebook m) then Inr m else Inl (source_missing i), w)) v)"
    by (intro statement_refused) simp
  moreover have "untouched w v" by (rule run_keepsD [OF untouched_fetch fetch])
  ultimately show ?thesis
    unfolding verify_source_access_def attempt_def and_then_def fetch by (simp add: answers_missing_trans)
next
  case False
  have "answers_missing i w (fetch_or_not_found (ap_ingest A) i w)"
    using False
    by (auto simp: fetch_or_not_found_def statement_def await_def answers_missing_def untouched_def
        split: nat.split option.split)
  then show ?thesis unfolding verify_source_access_def by (rule attempt_missing)
qed

text \<open>
  C18. A source of another account cannot be read, deleted or reprocessed, and every handler
  answers for it exactly what it answers for one that does not exist.
\<close>

theorem foreign_sources_are_hidden:
  assumes "case iw_sources w i of None \<Rightarrow> True | Some m \<Rightarrow> \<not> owned A (sm_notebook m)"
  shows "answers_missing i w (get_source_handler A i w) \<and> answers_missing i w (get_source_chunks_handler A i w) \<and>
    answers_missing i w (delete_source_handler A i w) \<and> answers_missing i w (prepare_source_reprocess A i w)"
  unfolding get_source_handler_def get_source_chunks_handler_def delete_source_handler_def
    prepare_source_reprocess_def
  by (intro conjI attempt_missing unavailable_source [OF assms])

subsection \<open>Deletion\<close>

definition commits :: "uuid \<Rightarrow> (app_error + unit) run \<Rightarrow> bool" where
  "commits i m \<longleftrightarrow>
     (\<forall>w. (fst (m w) = Done (Inr ()) \<and> (\<exists>v. untouched w v \<and> snd (m w) = purge_source i v)) \<or>
          (fst (m w) \<noteq> Done (Inr ()) \<and> untouched w (snd (m w))))"

lemma commits_attempt:
  assumes "run_keeps untouched m" "\<And>x. commits i (f x)"
  shows "commits i (attempt m f)"
  unfolding commits_def
proof
  fix w
  obtain r w' where m: "m w = (r, w')" by fastforce
  have w': "untouched w w'" by (rule run_keepsD [OF assms(1) m])
  show "(fst (attempt m f w) = Done (Inr ()) \<and> (\<exists>v. untouched w v \<and> snd (attempt m f w) = purge_source i v)) \<or>
     (fst (attempt m f w) \<noteq> Done (Inr ()) \<and> untouched w (snd (attempt m f w)))"
  proof (cases "\<exists>x. r = Done (Inr x)")
    case True
    then obtain x where "attempt m f w = f x w'" using m by (auto simp: attempt_def and_then_def)
    with assms(2) [of x, unfolded commits_def, rule_format, of w'] w' show ?thesis
      using un.trans by auto
  next
    case False
    then show ?thesis using m w'
      by (cases r) (auto simp: attempt_def and_then_def ret_def split: sum.split)
  qed
qed

lemma commits_purge: "commits i (statement E (\<lambda>w. (Inr (), purge_source i w)))"
  unfolding commits_def
proof
  fix w
  have "untouched w (w\<lparr>iw_fuel := n\<rparr>)" for n by (simp add: untouched_def)
  then show "(fst (statement E (\<lambda>w. (Inr (), purge_source i w)) w) = Done (Inr ()) \<and>
      (\<exists>v. untouched w v \<and> snd (statement E (\<lambda>w. (Inr (), purge_source i w)) w) = purge_source i v)) \<or>
    (fst (statement E (\<lambda>w. (Inr (), purge_source i w)) w) \<noteq> Done (Inr ()) \<and>
      untouched w (snd (statement E (\<lambda>w. (Inr (), purge_source i w)) w)))"
    using un.refl [of w] by (auto simp: statement_def await_def split: nat.split option.split)
qed

lemma delete_commits: "commits i (delete_source_handler A i)"
  unfolding delete_source_handler_def delete_source_def
  by (intro commits_attempt commits_purge untouched_source untouched_fetch untouched_read) (rule refl)

lemma remove_source_ok:
  assumes "index_ok db"
  shows "index_ok (remove_source i db)"
proof -
  have kept: "chunks_of (remove_source i db) (gn_id g) = chunks_of db (gn_id g)"
    if g: "g \<in> set (db_generations db)" "gn_source g \<noteq> i" for g
  proof -
    have "sk_source c \<noteq> i" if c: "c \<in> set (db_chunks db)" "sk_generation c = gn_id g" for c
    proof -
      from index_okD(4) [OF assms c(1)] obtain h where
          "h \<in> set (db_generations db)" "gn_id h = gn_id g" "gn_source h = sk_source c" using c(2) by metis
      then have "h = g" using index_okD(1) [OF assms] g(1) by (metis distinct_map inj_onD)
      then show ?thesis using \<open>gn_source h = sk_source c\<close> g(2) by simp
    qed
    then show ?thesis by (auto simp: chunks_of_def remove_source_def intro: filter_cong)
  qed
  have building: "length (filter (is_building_of s) (filter (\<lambda>g. gn_source g \<noteq> i) (db_generations db))) \<le> 1" for s
    using index_okD(2) [OF assms, of s] length_filter_le [of "\<lambda>g. gn_source g \<noteq> i" "filter (is_building_of s) (db_generations db)"]
    by (simp add: conj_commute)
  have active: "active_of s (remove_source i db) = (if s = i then None else active_of s db)" for s
    by (simp add: active_of_def remove_source_def)
  have whole: "whole (chunks_of (remove_source i db) (gn_id g)) g"
    if "g \<in> set (db_generations db)" "gn_source g \<noteq> i" "gn_state g = GenPublished" for g
    using index_okD(5) [OF assms that(1,3)] kept [OF that(1,2)] by simp
  have rows: "\<exists>g\<in>set (db_generations (remove_source i db)). gn_id g = sk_generation c \<and> gn_source g = sk_source c"
    if "c \<in> set (db_chunks db)" "sk_source c \<noteq> i" for c
    using index_okD(4) [OF assms that(1)] that(2) by (auto simp: remove_source_def)
  have published: "\<exists>g\<in>set (db_generations (remove_source i db)). gn_id g = a \<and> gn_source g = s \<and> gn_state g = GenPublished"
    if "active_of s db = Some a" "s \<noteq> i" for s a
    using index_okD(6) [OF assms that(1)] that(2) by (auto simp: remove_source_def)
  show ?thesis
    unfolding index_ok_def
  proof (intro conjI allI ballI impI)
    show "distinct (map gn_id (db_generations (remove_source i db)))"
        "distinct (map chunk_key (db_chunks (remove_source i db)))"
      using index_okD(1,3) [OF assms] by (simp_all add: remove_source_def distinct_map_filter)
    show "length (filter (is_building_of s) (db_generations (remove_source i db))) \<le> 1" for s
      using building by (simp add: remove_source_def)
    show "whole (chunks_of (remove_source i db) (gn_id g)) g"
      if "g \<in> set (db_generations (remove_source i db))" "gn_state g = GenPublished" for g
      using that whole by (simp add: remove_source_def)
    show "\<exists>g\<in>set (db_generations (remove_source i db)). gn_id g = sk_generation c \<and> gn_source g = sk_source c"
      if "c \<in> set (db_chunks (remove_source i db))" for c
    proof -
      have "c \<in> set (db_chunks db)" "sk_source c \<noteq> i" using that by (simp_all add: remove_source_def)
      then show ?thesis by (rule rows)
    qed
    show "\<exists>g\<in>set (db_generations (remove_source i db)). gn_id g = a \<and> gn_source g = s \<and> gn_state g = GenPublished"
      if "active_of s (remove_source i db) = Some a" for s a
      using published [of s a] that by (cases "s = i") (simp_all add: active)
  qed
qed

lemma visible_remove: "s \<noteq> i \<Longrightarrow> visible_chunks s (remove_source i db) = visible_chunks s db"
  by (auto simp: visible_chunks_def remove_source_def split: option.split intro: filter_cong)




subsection \<open>The index through whole requests\<close>

text \<open>The identifiers that the database will hand out are new.\<close>

definition fresh_ids :: "ingest_env \<Rightarrow> index_db \<Rightarrow> bool" where
  "fresh_ids E db \<longleftrightarrow> (\<forall>k. ie_fresh E k \<notin> gn_id ` set (db_generations db))"

definition sound :: "ingest_world \<Rightarrow> ingest_world \<Rightarrow> bool" where
  "sound w w' \<longleftrightarrow> (index_ok (iw_db w) \<longrightarrow> index_ok (iw_db w'))"

interpretation sd: step_relation sound
  by unfold_locales (simp_all add: sound_def)

lemma untouched_sound: "run_keeps untouched m \<Longrightarrow> run_keeps sound m"
  by (simp add: run_keeps_def sound_def) (metis untouched_same(1))

lemma sound_status: "run_keeps sound (update_source_status E i st m)"
proof -
  have "run_keeps sound (statement E (on_index (\<lambda>db. (Inr () :: app_error + unit, set_status i st m db))))"
    by (rule sd.keeps_statement) (simp add: sound_def on_index_def set_status_ok)
  then show ?thesis
    unfolding update_source_status_def
    by (auto intro!: sd.keeps_and_then sd.keeps_ret untouched_sound [OF untouched_fetch] split: sum.split)
qed

lemma statement_world:
  "statement E f w = (r, w') \<Longrightarrow> (\<exists>n. w' = w\<lparr>iw_fuel := n\<rparr>) \<or> (\<exists>n. w' = snd (f (w\<lparr>iw_fuel := n\<rparr>)))"
  by (auto simp: statement_def await_def split: nat.splits option.splits prod.splits)
     (metis snd_conv ingest_world.surjective ingest_world.update_convs(7))+

lemma fail_stale_fresh:
  "fresh_ids E (snd (fail_stale_builds now t r db)) \<longleftrightarrow> fresh_ids E db"
proof -
  have "gn_id ` set (db_generations (snd (fail_stale_builds now t r db))) = gn_id ` set (db_generations db)"
    by (metis list.set_map fail_stale_ids(1))
  then show ?thesis by (simp add: fresh_ids_def)
qed

lemma on_index_db: "iw_db (snd (on_index f w)) = snd (f (iw_db w))"
  by (simp add: on_index_def split_beta)

lemma index_statement_db:
  assumes "statement E (\<lambda>w. on_index (f (iw_fuel w)) w) w = (r, w')"
  shows "iw_db w' = iw_db w \<or> (\<exists>n. iw_db w' = snd (f n (iw_db w)))"
  using statement_world [OF assms] on_index_db [of _ "w\<lparr>iw_fuel := n\<rparr>" for n]
  by (auto simp: on_index_db)

lemma claim_keeps_sound:
  assumes "index_ok (iw_db w)" "fresh_ids E (iw_db w)"
  shows "index_ok (iw_db (snd (claim_index_ownership E source ty secs w)))"
proof (cases "\<exists>e p. ie_embedder E = Some e \<and> current_provenance (ie_debug E) e ty = Inr p")
  case True
  then obtain e p where e: "ie_embedder E = Some e" "current_provenance (ie_debug E) e ty = Inr p" by blast
  let ?fail = "\<lambda>n db. case fail_stale_builds (ie_now E n) (stale_after_secs secs) stale_build_reason db
      of (m, db') \<Rightarrow> (Inr m :: app_error + nat, db')"
  let ?claim = "\<lambda>n. claim (ie_fresh E n) (ie_now E n) (ie_fk_error E) source p"
  obtain r w1 where first: "statement E (\<lambda>w. on_index (?fail (iw_fuel w)) w) w = (r, w1)" by fastforce
  obtain q w2 where second: "statement E (\<lambda>w. on_index (?claim (iw_fuel w)) w) w1 = (q, w2)" by fastforce
  have one: "index_ok (iw_db w1)" "fresh_ids E (iw_db w1)"
    using index_statement_db [OF first] assms by (auto simp: split_beta fail_stale_builds_ok fail_stale_fresh)
  have two: "index_ok (iw_db w2)"
    using index_statement_db [OF second] one claim_ok [OF one(1)] by (auto simp: fresh_ids_def)
  have "snd (claim_index_ownership E source ty secs w) \<in> {w1, w2}"
    unfolding claim_index_ownership_def e option.case sum.case and_then_def first
    by (simp add: second ret_def split: ran.split sum.split)
  then show ?thesis using one two by auto
next
  case False
  then show ?thesis using assms(1)
    by (auto simp: claim_index_ownership_def ret_def split: option.split sum.split)
qed

text \<open>Readers of every source see what they saw, and the index is sound.\<close>

definition intact :: "ingest_world \<Rightarrow> ingest_world \<Rightarrow> bool" where
  "intact w w' \<longleftrightarrow>
     (\<forall>s. visible_chunks s (iw_db w') = visible_chunks s (iw_db w)) \<and> sound w w'"

interpretation it: step_relation intact
  by unfold_locales (simp_all add: intact_def sound_def)

lemma intact_untouched: "run_keeps untouched m \<Longrightarrow> run_keeps intact m"
  by (simp add: run_keeps_def intact_def sound_def) (metis untouched_same(1))

lemma intact_status: "run_keeps intact (update_source_status E i st m)"
  using sound_status [of E i st m] unread_status [of E i st m]
  by (simp add: run_keeps_def intact_def unread_def)

lemma intact_broadcast: "run_keeps intact (broadcast_to nb ev)"
  by (simp add: run_keeps_def broadcast_to_def intact_def sound_def)

lemma intact_claim:
  assumes "index_ok (iw_db w)" "fresh_ids E (iw_db w)"
  shows "intact w (snd (claim_index_ownership E source ty secs w))"
  using claim_keeps_sound [OF assms] unread_claim [of E source ty secs]
  by (auto simp: run_keeps_def intact_def sound_def unread_def)

text \<open>A run whose first part needs the fresh identifiers, and whose rest does not.\<close>

lemma intact_and_then:
  assumes "intact w (snd (m w))" "\<And>x. run_keeps intact (f x)"
  shows "intact w (snd (and_then m f w))"
proof -
  obtain r w1 where m: "m w = (r, w1)" by fastforce
  show ?thesis
  proof (cases r)
    case (Done x)
    have "intact w1 (snd (f x w1))" using assms(2) by (simp add: run_keeps_def)
    then show ?thesis using it.trans assms(1) Done m by (simp add: and_then_def)
  qed (use assms(1) m in \<open>simp_all add: and_then_def\<close>)
qed

lemma intact_report:
  assumes "index_ok (iw_db w)" "fresh_ids (ap_ingest A) (iw_db w)"
  shows "intact w (snd (claim_or_report A i nb ty w))"
  unfolding claim_or_report_def
  by (rule intact_and_then [where m = "claim_index_ownership (ap_ingest A) i ty processing_timeout_secs", OF intact_claim [OF assms]])
     (auto intro!: it.keeps_and_then it.keeps_ret intact_status intact_broadcast split: sum.split)


lemma intact_refl: "intact w w"
  by (simp add: intact_def sound_def)

lemma intact_insert:
  assumes "index_ok (iw_db w)" "db_sources (iw_db w) i = None"
  shows "intact w (insert_source i m w)"
  using assms by (simp add: intact_def sound_def visible_insert index_ok_insert)

lemma create_source_world:
  assumes "create_source A nb t ty c m w = (r, w')" "index_ok (iw_db w)"
  shows "intact w w' \<and> db_generations (iw_db w') = db_generations (iw_db w)"
proof -
  note cases = statement_world [OF assms(1) [unfolded create_source_def]]
  have "intact w (w\<lparr>iw_fuel := n\<rparr>)" for n by (rule it.fuel)
  moreover have "intact w (insert_source i row (w\<lparr>iw_fuel := n\<rparr>))" if "db_sources (iw_db w) i = None" for i row n
    using it.trans [OF it.fuel intact_insert [of "w\<lparr>iw_fuel := n\<rparr>" i row]] that assms(2) by simp
  moreover have "db_generations (iw_db (insert_source i row v)) = db_generations (iw_db v)" for i row v
    by (simp add: insert_source_def)
  ultimately show ?thesis using cases by (auto simp: Let_def split: if_splits)
qed

text \<open>
  A request is guarded when it keeps a sound index intact as long as the identifiers are fresh; a
  step before the claim is settled when it adds no generation.
\<close>

definition guarded :: "ingest_env \<Rightarrow> 'a run \<Rightarrow> bool" where
  "guarded E m \<longleftrightarrow> (\<forall>w. index_ok (iw_db w) \<and> fresh_ids E (iw_db w) \<longrightarrow> intact w (snd (m w)))"

definition settled :: "'a run \<Rightarrow> bool" where
  "settled m \<longleftrightarrow>
     (\<forall>w. index_ok (iw_db w) \<longrightarrow> intact w (snd (m w)) \<and> db_generations (iw_db (snd (m w))) = db_generations (iw_db w))"

lemma settled_untouched: "run_keeps untouched m \<Longrightarrow> settled m"
  using intact_untouched [of m] untouched_same(1) by (simp add: settled_def run_keeps_def) (metis (no_types))

lemma settled_create: "settled (create_source A nb t ty c m)"
  unfolding settled_def using create_source_world by (metis prod.collapse)

lemma guarded_ret: "guarded E (ret x)"
  by (simp add: guarded_def ret_def intact_refl)

lemma guarded_and_then:
  assumes "settled m" "\<And>x. guarded E (f x)"
  shows "guarded E (and_then m f)"
  unfolding guarded_def
proof (intro allI impI)
  fix w :: ingest_world
  assume w: "index_ok (iw_db w) \<and> fresh_ids E (iw_db w)"
  obtain r w1 where m: "m w = (r, w1)" by fastforce
  with assms(1) w have one: "intact w w1" "db_generations (iw_db w1) = db_generations (iw_db w)"
    unfolding settled_def by (metis snd_conv)+
  then have "index_ok (iw_db w1) \<and> fresh_ids E (iw_db w1)" using w by (simp add: intact_def sound_def fresh_ids_def)
  then have "intact w1 (snd (f x w1))" for x using assms(2) by (simp add: guarded_def)
  then show "intact w (snd (and_then m f w))"
    using one(1) it.trans m by (auto simp: and_then_def split: ran.split)
qed

lemma guarded_attempt: "settled m \<Longrightarrow> (\<And>x. guarded E (f x)) \<Longrightarrow> guarded E (attempt m f)"
  unfolding attempt_def by (intro guarded_and_then) (auto simp: guarded_ret split: sum.split)

lemma guarded_claim:
  "(\<And>x. run_keeps intact (f x)) \<Longrightarrow> guarded (ap_ingest A) (and_then (claim_or_report A i nb ty) f)"
  unfolding guarded_def
  using intact_and_then [where m = "claim_or_report A i nb ty", OF intact_report [of _ A i nb ty]] by blast

lemma intact_attempt:
  "run_keeps intact m \<Longrightarrow> (\<And>x. run_keeps intact (f x)) \<Longrightarrow> run_keeps intact (attempt m f)"
  unfolding attempt_def by (intro it.keeps_and_then) (auto simp: it.keeps_ret split: sum.split)

lemma untouched_read_row: "run_keeps untouched (read_row i m)"
  by (simp add: run_keeps_def read_row_def un.refl)

lemma guarded_creation: "guarded (ap_ingest A) (prepare_source_creation A nb p)"
  unfolding prepare_source_creation_def split_def
  by (intro guarded_attempt settled_untouched untouched_check settled_create guarded_claim it.keeps_ret)

lemma intact_after_claim: "run_keeps intact (after_reprocess_claim A i m seen ty ownership)"
  unfolding after_reprocess_claim_def
  by (auto intro!: intact_attempt it.keeps_and_then it.keeps_ret intact_untouched [OF untouched_read_row]
      intact_status intact_broadcast intact_untouched [OF untouched_read] simp: get_source_def split: option.split)

lemma guarded_reprocess: "guarded (ap_ingest A) (prepare_source_reprocess A i)"
  unfolding prepare_source_reprocess_def
  by (intro guarded_attempt guarded_and_then settled_untouched untouched_source untouched_read_row un.keeps_ret
      guarded_claim intact_after_claim)

subsection \<open>The job of a request\<close>

lemma accepted_job:
  assumes "prepare_source_creation A nb p w = (Done (Inr (response, Some j)), w')"
    and "index_ok (iw_db w)" "fresh_ids (ap_ingest A) (iw_db w)"
  shows "owns_build (io_generation (jb_ownership j)) (jb_source j) (iw_db w') \<and> db_sources (iw_db w) (jb_source j) = None"
proof -
  from assms(1) obtain ty c m w1 i row w2 ownership where
    check: "check_creation A nb p w = (Done (Inr (ty, c, m)), w1)"
    and create: "create_source A nb (trim (cq_title p)) ty c m w1 = (Done (Inr (i, row)), w2)"
    and claim: "claim_or_report A i nb ty w2 = (Done ownership, w')" and job: "Some j = map_option (job_for i nb ty) ownership"
    by (auto simp: prepare_source_creation_def attempt_Inr and_then_Done ret_Done)
  from job obtain own where report: "claim_or_report A i nb ty w2 = (Done (Some own), w')" and j: "j = job_for i nb ty own"
    using claim by (cases ownership) auto
  have w1: "iw_db w1 = iw_db w" by (rule untouched_same(1) [OF check_creation_same [OF check]])
  have w2: "index_ok (iw_db w2)" "fresh_ids (ap_ingest A) (iw_db w2)"
    using create_source_world [OF create] assms(2,3) w1 by (auto simp: intact_def sound_def fresh_ids_def)
  have new: "db_sources (iw_db w) i = None" using create_source_Inr [OF create] w1 by metis
  from report show ?thesis
  proof (cases rule: claim_or_report_cases)
    case claimed
    from granted_claim [OF claimed(1) w2(1)] w2(2) new show ?thesis by (simp add: fresh_ids_def j job_for_def)
  qed simp
qed

lemma verified_source:
  assumes "verify_source_access A i w = (Done (Inr m), w')"
  shows "iw_sources w i = Some m \<and> owned A (sm_notebook m)"
proof -
  from assms obtain m' w1 where fetch: "fetch_or_not_found (ap_ingest A) i w = (Done (Inr m'), w1)"
    and check: "statement (ap_ingest A)
      (\<lambda>w. (if owned A (sm_notebook m') then Inr m' else Inl (source_missing i), w)) w1 = (Done (Inr m), w')"
    by (auto simp: verify_source_access_def attempt_Inr)
  from statement_Done [OF check] have "m' = m \<and> owned A (sm_notebook m)" by (auto split: if_splits)
  with statement_Done [OF fetch [unfolded fetch_or_not_found_def]] show ?thesis by (auto split: option.splits)
qed

lemma status_keeps_build:
  "update_source_status E i st m w = (r, w') \<Longrightarrow> owns_build gen source (iw_db w) \<Longrightarrow> owns_build gen source (iw_db w')"
  using run_keepsD [OF builds_status [of gen source E i st m]] by (auto simp: builds_def keeps_index_def)

lemma reprocess_job:
  assumes "prepare_source_reprocess A i w = (Done (Inr (response, Some j)), w')"
    and "index_ok (iw_db w)" "fresh_ids (ap_ingest A) (iw_db w)"
  shows "owns_build (io_generation (jb_ownership j)) i (iw_db w') \<and> jb_source j = i \<and>
    (\<exists>m. iw_sources w i = Some m \<and> owned A (sm_notebook m))"
proof -
  from assms(1) obtain m w1 ty w2 ownership seen where
    access: "verify_source_access A i w = (Done (Inr m), w1)"
    and claim: "claim_or_report A i (sm_notebook m) ty w1 = (Done ownership, w2)"
    and after: "after_reprocess_claim A i m seen ty ownership w2 = (Done (Inr (response, Some j)), w')"
    by (auto simp: prepare_source_reprocess_def attempt_Inr and_then_Done ret_Done read_row_def)
  have w1: "iw_db w1 = iw_db w" by (rule untouched_same(1) [OF run_keepsD [OF untouched_source access]])
  from after obtain own where own: "ownership = Some own"
    by (cases ownership) (auto simp: after_reprocess_claim_def attempt_Inr and_then_Done ret_Done)
  with after obtain u w3 where status: "update_source_status (ap_ingest A) i StPending None w2 = (Done (Inr u), w3)"
    and rest: "iw_db w' = iw_db w3" "j = job_for i (sm_notebook m) ty own"
    by (auto simp: after_reprocess_claim_def attempt_Inr and_then_Done ret_Done read_row_def broadcast_to_def)
  from claim show ?thesis
  proof (cases rule: claim_or_report_cases)
    case claimed
    from granted_claim [OF claimed(1) [unfolded own]] w1 assms(2,3)
    have "owns_build (io_generation own) i (iw_db w2)" by (simp add: fresh_ids_def)
    from status_keeps_build [OF status this] verified_source [OF access] rest show ?thesis
      by (simp add: job_for_def)
  qed (simp add: own)
qed

lemma run_of_the_owner:
  assumes "owns_build (io_generation own) source (iw_db w)"
  shows "index_ok (iw_db (snd (process_source E S N own source nb ty w))) \<and>
    (\<forall>s. s \<noteq> source \<longrightarrow>
       visible_chunks s (iw_db (snd (process_source E S N own source nb ty w))) = visible_chunks s (iw_db w))"
proof (cases rule: process_source_cases [where E = E and S = S and N = N and own = own and source = source
      and nb = nb and ty = ty and w = w])
  case (failed f w1)
  have "owns_build (io_generation own) source (iw_db w1) \<and> (\<forall>s. visible_chunks s (iw_db w1) = visible_chunks s (iw_db w))"
    using failed(1) assms by (simp add: builds_def keeps_index_def)
  then show ?thesis
    by (simp add: failed(2) fail_run_visible owns_build_def) (simp add: fail_run_def Let_def mark_failed_ok split: option.split)
next
  case (ok out w1 n)
  have kept: "index_ok (iw_db w1)" "\<forall>s. visible_chunks s (iw_db w1) = visible_chunks s (iw_db w)"
    using ok(2) assms by (simp_all add: builds_def keeps_index_def owns_build_def)
  let ?db = "snd (publish (en_now N) (io_generation own) source (ep_dimension (gp_embedding (io_provenance own))) (iw_db w1))"
  have "index_ok ?db" by (rule publish_ok [OF kept(1)])
  moreover have "visible_chunks s ?db = visible_chunks s (iw_db w)" if "s \<noteq> source" for s
    using visible_publish [OF kept(1), of s] that kept(2) by simp
  ultimately show ?thesis
    by (simp add: ok(3,5) Let_def reclaim_ok visible_reclaim split: option.split)
qed


subsection \<open>Isolation\<close>

text \<open>The requests that write, one after the other: what one leaves is what the next one finds.\<close>

datatype source_write = CreateRequest uuid create_source_request | ReprocessRequest uuid | DeleteRequest uuid

fun handle_write ::
  "api_env \<Rightarrow> schedule \<Rightarrow> ending \<Rightarrow> nat \<Rightarrow> source_write \<Rightarrow> coordinator \<Rightarrow> ingest_world \<Rightarrow> coordinator \<times> ingest_world" where
  "handle_write A S N fuel (CreateRequest nb p) c w = snd (create_source_handler A S N fuel nb p c w)"
| "handle_write A S N fuel (ReprocessRequest i) c w = snd (reprocess_source_handler A S N fuel i c w)"
| "handle_write A S N fuel (DeleteRequest i) c w = (c, snd (delete_source_handler A i w))"

lemma source_request_world:
  assumes "snd (source_request A S N fuel prepared c w) = (c', w')"
  obtains (refused) "w' = w"
  | (prepared_only) r where "prepared w = (r, w')"
  | (with_job) response j w1 where "prepared w = (Done (Inr (response, Some j)), w1)"
      "w' = run_job A S N j (w1\<lparr>iw_fuel := fuel\<rparr>)"
  using assms
  by (auto simp: source_request_def run_admitted_source_request_def split: prod.splits sum.splits ran.splits option.splits)

lemma job_of_the_owner:
  assumes "owns_build (io_generation (jb_ownership j)) (jb_source j) (iw_db w)"
  shows "index_ok (iw_db (run_job A S N j (w\<lparr>iw_fuel := n\<rparr>)))"
    and "s \<noteq> jb_source j \<Longrightarrow>
      visible_chunks s (iw_db (run_job A S N j (w\<lparr>iw_fuel := n\<rparr>))) = visible_chunks s (iw_db w)"
  using run_of_the_owner [of "jb_ownership j" "jb_source j" "w\<lparr>iw_fuel := n\<rparr>"] assms
  by (simp_all add: run_job_def)

lemma guarded_write:
  assumes "snd (source_request A S N fuel prepared c w) = (c', w')" "guarded (ap_ingest A) prepared"
    and "index_ok (iw_db w)" "fresh_ids (ap_ingest A) (iw_db w)"
    and "\<And>response j w1. prepared w = (Done (Inr (response, Some j)), w1) \<Longrightarrow>
      owns_build (io_generation (jb_ownership j)) (jb_source j) (iw_db w1) \<and> jb_source j \<noteq> s"
  shows "index_ok (iw_db w') \<and> visible_chunks s (iw_db w') = visible_chunks s (iw_db w)"
proof -
  have kept: "intact w (snd (prepared w))" using assms(2-4) by (simp add: guarded_def)
  from assms(1) show ?thesis
  proof (cases rule: source_request_world)
    case (with_job response j w1)
    from assms(5) [OF with_job(1)] kept with_job show ?thesis
      using job_of_the_owner [of j w1] by (auto simp: intact_def)
  qed (use kept assms(3) in \<open>simp_all add: intact_def sound_def\<close>)
qed

text \<open>
  C2. Requests of one account never change what the readers of another account's source see, and
  leave the index sound: whichever request it is, wherever it is dropped, whatever the documents,
  the provider and the database do, and however the run it starts ends.
\<close>

theorem requests_are_isolated:
  assumes "handle_write A S N fuel rq c w = (c', w')"
    and "index_ok (iw_db w)" and "fresh_ids (ap_ingest A) (iw_db w)" and "db_sources (iw_db w) s \<noteq> None"
    and "case iw_sources w s of None \<Rightarrow> True | Some m \<Rightarrow> \<not> owned A (sm_notebook m)"
  shows "index_ok (iw_db w') \<and> visible_chunks s (iw_db w') = visible_chunks s (iw_db w)"
proof (cases rq)
  case (CreateRequest nb p)
  then show ?thesis
    using assms(1,4) accepted_job [OF _ assms(2,3)]
    by (intro guarded_write [OF _ guarded_creation assms(2,3)]) (auto simp: create_source_handler_def)
next
  case (ReprocessRequest i)
  then show ?thesis
    using assms(1,5) reprocess_job [OF _ assms(2,3)]
    by (intro guarded_write [OF _ guarded_reprocess assms(2,3)]) (fastforce simp: reprocess_source_handler_def)+
next
  case (DeleteRequest i)
  then have w': "w' = snd (delete_source_handler A i w)" using assms(1) by simp
  have "answers_missing s w (delete_source_handler A s w)"
    unfolding delete_source_handler_def
    by (rule attempt_missing [where m = "verify_source_access A s"]) (rule unavailable_source [OF assms(5)])
  then have denied: "fst (delete_source_handler A i w) \<noteq> Done (Inr ())" if "i = s"
    using that by (auto simp: answers_missing_def)
  from delete_commits [of i A, unfolded commits_def, rule_format, of w] w' consider
      (gone) v where "i \<noteq> s" "untouched w v" "w' = purge_source i v" | (kept) "untouched w w'"
    using denied by auto
  then show ?thesis
  proof cases
    case gone
    note same = untouched_same [OF gone(2)]
    show ?thesis
      using remove_source_ok [OF assms(2)] visible_remove [OF gone(1) [symmetric]]
      by (simp add: gone(3) purge_source_def same)
  next
    case kept
    then show ?thesis using assms(2) by (simp add: untouched_same)
  qed
qed

text \<open>
  Once the shutdown has begun, no request starts anything, and a request gives back its place.
\<close>

lemma closed_admission:
  "\<not> sc_accepting c \<Longrightarrow> source_request A S N fuel prepared c w = (Some (Inl source_shutdown_unavailable), c, w)"
  by (simp add: source_request_def try_admit_def)

lemma request_gives_back:
  assumes "source_request A S N fuel prepared c w = (response, c', w')" "sc_next_id c \<notin> set (sc_tasks c)"
  shows "sc_tasks c' = sc_tasks c \<and> sc_reservations c' = sc_reservations c"
  using assms
  by (auto simp: source_request_def run_admitted_source_request_def try_admit_def admission_spawn_def
      spawn_admitted_def release_reservation_def registration_drop_def remove1_append Let_def
      split: prod.splits sum.splits ran.splits option.splits if_splits)


text \<open>
  A claim whose next statement fails is abandoned: the request fails, no job starts, and the
  generation goes on building until it is stale, so that every further request is coalesced.
\<close>

lemma abandoned_claim:
  assumes "verify_source_access A i w = (Done (Inr m), w1)"
    and "source_type_try_from (ie_unicode (ap_ingest A)) (sm_type m) = Inr ty"
    and "claim_index_ownership (ap_ingest A) i ty processing_timeout_secs w1 = (Done (Inr (Some own)), w2)"
    and "update_source_status (ap_ingest A) i StPending None w2 = (Done (Inl e), w3)"
    and "index_ok (iw_db w)" "fresh_ids (ap_ingest A) (iw_db w)"
  shows "prepare_source_reprocess A i w = (Done (Inl e), w3) \<and> owns_build (io_generation own) i (iw_db w3)"
proof -
  have w1: "iw_db w1 = iw_db w" by (rule untouched_same(1) [OF run_keepsD [OF untouched_source assms(1)]])
  have "owns_build (io_generation own) i (iw_db w2)"
    using granted_claim [OF assms(3)] assms(5,6) w1 by (simp add: fresh_ids_def)
  then have "owns_build (io_generation own) i (iw_db w3)" by (rule status_keeps_build [OF assms(4)])
  moreover have "prepare_source_reprocess A i w = (Done (Inl e), w3)"
    using assms(1-4)
    by (simp add: prepare_source_reprocess_def attempt_def and_then_def ret_def read_row_def claim_or_report_def
        after_reprocess_claim_def)
  ultimately show ?thesis by blast
qed

subsection \<open>Concrete requests\<close>

definition sample_api :: "uuid option \<Rightarrow> api_env" where
  "sample_api account =
     \<lparr>ap_ingest = wide_env\<lparr>ie_authorize := unrestricted_authorize\<rparr>, ap_owner = (\<lambda>nb. account),
      ap_parse_url = (\<lambda>s. Inl []), ap_duplicate_error = []\<rparr>"

definition sample_request :: create_source_request where
  "sample_request = \<lparr>cq_title = [116], cq_type = lit ''text'', cq_text = Some [97, 98], cq_url = None\<rparr>"

definition empty_world :: "nat \<Rightarrow> ingest_world" where
  "empty_world n = (demo_world n)\<lparr>iw_db := \<lparr>db_generations = [], db_sources = (\<lambda>i. None), db_chunks = []\<rparr>,
     iw_sources := (\<lambda>i. None)\<rparr>"

lemma sample_env_fields:
  "ie_statement_fault (ap_ingest (sample_api a)) n = None" "ie_account (ap_ingest (sample_api a)) = 9"
  "ap_owner (sample_api a) nb = a" "ie_fresh (ap_ingest (sample_api a)) k = 100 + k"
  "ie_unicode (ap_ingest (sample_api a)) = ascii_tables"
  by (simp_all add: sample_api_def wide_env_def demo_env_def)

lemma sample_statement:
  "statement (ap_ingest (sample_api a)) f w = (case iw_fuel w of 0 \<Rightarrow> (Dropped, w)
     | Suc n \<Rightarrow> (case f (w\<lparr>iw_fuel := n\<rparr>) of (r, w') \<Rightarrow> (Done r, w')))"
  by (simp add: statement_def await_def sample_env_fields split: nat.split)

lemma refused_creation_stores_nothing_witness:
  "\<exists>e w'. prepare_source_creation (sample_api None) 5 sample_request (empty_world 3) = (Done (Inl e), w') \<and>
     w' = (empty_world 3)\<lparr>iw_fuel := iw_fuel w'\<rparr>"
proof -
  have "\<exists>e w'. prepare_source_creation (sample_api None) 5 sample_request (empty_world 3) = (Done (Inl e), w')"
    by (simp add: prepare_source_creation_def check_creation_def verify_notebook_access_def attempt_def and_then_def
        ret_def sample_statement owned_def sample_env_fields empty_world_def demo_world_def)
  then show ?thesis using refused_creation_stores_nothing by blast
qed

theorem foreign_sources_are_hidden_witness:
  "answers_missing 1 (demo_world 5) (get_source_handler (sample_api None) 1 (demo_world 5))"
  using foreign_sources_are_hidden [where w = "demo_world 5" and i = 1 and A = "sample_api None"]
  by (simp add: demo_world_def owned_def sample_env_fields)


theorem requests_are_isolated_witness:
  "\<exists>c' w'. handle_write (sample_api None) demo_schedule demo_ending 0 (DeleteRequest 1) coordinator_new (demo_world 5) = (c', w') \<and>
     index_ok (iw_db w')"
proof -
  obtain c' w' where run: "handle_write (sample_api None) demo_schedule demo_ending 0 (DeleteRequest 1)
      coordinator_new (demo_world 5) = (c', w')" by fastforce
  have "index_ok (iw_db (demo_world 5))" "db_sources (iw_db (demo_world 5)) 1 \<noteq> None"
    using demo_owns(1) [of 5] by (simp_all add: owns_build_def)
  moreover have "fresh_ids (ap_ingest (sample_api None)) (iw_db (demo_world 5))"
    by (simp add: fresh_ids_def sample_env_fields demo_world_def claim_def unindexed_db_def Let_def)
  moreover have "case iw_sources (demo_world 5) 1 of None \<Rightarrow> True | Some m \<Rightarrow> \<not> owned (sample_api None) (sm_notebook m)"
    by (simp add: demo_world_def owned_def sample_env_fields)
  ultimately show ?thesis using requests_are_isolated [OF run] run by blast
qed

theorem accepted_creation_witness:
  "\<exists>response j w'. prepare_source_creation (sample_api (Some 9)) 5 sample_request (empty_world 9) =
      (Done (Inr (response, Some j)), w') \<and>
     iw_sources w' (jb_source j) = Some (stored_as 5 [116] Text ([97, 98], None)) \<and>
     owns_build (io_generation (jb_ownership j)) (jb_source j) (iw_db w')"
proof -
  have title: "trim [116] = [116]" "trim [97, 98] = [97, 98]"
    by (simp_all add: trim_def trim_start_def trim_end_def is_whitespace_def)
  have type: "source_type_try_from ascii_tables (lit ''text'') = Inr Text"
    by (simp add: source_type_try_from_def ascii_tables_def ascii_lower_char_def lit_def Let_def)
  have check: "check_creation (sample_api (Some 9)) 5 sample_request (empty_world 9) =
      (Done (Inr (Text, [97, 98], None)), empty_world 7)"
    by (simp add: check_creation_def verify_notebook_access_def attempt_def and_then_def ret_def sample_statement
        owned_def sample_env_fields authorize_creation_def await_def sample_request_def title type
        validate_title_def validate_string_def extract_and_validate_content_def extract_text_content_def
        max_title_length_def str_len_def len_utf8_def empty_world_def demo_world_def)
       (simp add: sample_api_def wide_env_def demo_env_def unrestricted_authorize_def and_then_def ret_def)
  let ?m = "stored_as 5 [116] Text ([97, 98], None)" and ?E = "ap_ingest (sample_api (Some 9))"
  let ?w = "insert_source 106 ?m (empty_world 6)"
  have create: "create_source (sample_api (Some 9)) 5 [116] Text [97, 98] None (empty_world 7) = (Done (Inr (106, ?m)), ?w)"
    by (simp add: create_source_def sample_statement sample_env_fields empty_world_def demo_world_def stored_as_def Let_def)
  let ?emb = "demo_embedder\<lparr>em_name := [97], em_model := [98], em_dimension := 1024\<rparr>"
  have emb: "ie_embedder ?E = Some ?emb" by (simp add: sample_api_def wide_env_def)
  obtain p where p: "current_provenance (ie_debug ?E) ?emb Text = Inr p"
    by (simp add: current_provenance_def validate_provenance_def from_provider_def embedding_dim_def Let_def
        trim_def trim_start_def trim_end_def is_whitespace_def not_legacy)
  have stale: "db_generations db = [] \<Longrightarrow> fail_stale_builds now t reason db = (0, db)" for now t reason db
    by (simp add: fail_stale_builds_def)
  have w: "db_generations (iw_db ?w) = []" "db_sources (iw_db ?w) 106 = Some new_row" "iw_fuel ?w = 6"
      "iw_sources ?w 106 = Some ?m"
    by (simp_all add: insert_source_def empty_world_def demo_world_def)
  let ?own = "\<lparr>io_generation = 104, io_provenance = p\<rparr>"
  obtain w' where claim: "claim_or_report (sample_api (Some 9)) 106 5 Text ?w = (Done (Some ?own), w')"
    using w p by (simp add: claim_or_report_def claim_index_ownership_def emb and_then_def sample_statement on_index_def
        stale claim_def ret_def sample_env_fields Let_def)
  then have "iw_sources w' 106 = Some ?m"
    using w(4) by (cases rule: claim_or_report_cases) (auto simp: unread_def)
  moreover have run: "prepare_source_creation (sample_api (Some 9)) 5 sample_request (empty_world 9) =
      (Done (Inr (response_of 106 ?m new_row, Some (job_for 106 5 Text ?own))), w')"
    using check create claim title
    by (simp add: prepare_source_creation_def attempt_def and_then_def ret_def sample_request_def)
  moreover have "jb_source (job_for 106 5 Text ?own) = 106" by (simp add: job_for_def)
  moreover have "index_ok (iw_db (empty_world 9))" "db_generations (iw_db (empty_world 9)) = []"
    by (simp_all add: empty_world_def index_ok_def active_of_def)
  then have "owns_build (io_generation (jb_ownership (job_for 106 5 Text ?own)))
      (jb_source (job_for 106 5 Text ?own)) (iw_db w')"
    using accepted_creation [OF run] by auto
  ultimately show ?thesis by metis
qed

text \<open>
  A client that leaves after its source was inserted and before the build was claimed leaves a
  pending source behind that no job works on.
\<close>

lemma orphaned_source:
  "\<exists>w'. prepare_source_creation (sample_api (Some 9)) 5 sample_request (empty_world 3) = (Dropped, w') \<and>
     db_sources (iw_db w') 100 = Some new_row \<and> db_generations (iw_db w') = [] \<and> iw_sent w' = []"
proof -
  have title: "trim [116] = [116]" "trim [97, 98] = [97, 98]"
    by (simp_all add: trim_def trim_start_def trim_end_def is_whitespace_def)
  have type: "source_type_try_from ascii_tables (lit ''text'') = Inr Text"
    by (simp add: source_type_try_from_def ascii_tables_def ascii_lower_char_def lit_def Let_def)
  have check: "check_creation (sample_api (Some 9)) 5 sample_request (empty_world 3) =
      (Done (Inr (Text, [97, 98], None)), empty_world 1)"
    by (simp add: check_creation_def verify_notebook_access_def attempt_def and_then_def ret_def sample_statement
        owned_def sample_env_fields authorize_creation_def await_def sample_request_def title type
        validate_title_def validate_string_def extract_and_validate_content_def extract_text_content_def
        max_title_length_def str_len_def len_utf8_def empty_world_def demo_world_def)
       (simp add: sample_api_def wide_env_def demo_env_def unrestricted_authorize_def and_then_def ret_def)
  let ?m = "stored_as 5 [116] Text ([97, 98], None)"
  have create: "create_source (sample_api (Some 9)) 5 [116] Text [97, 98] None (empty_world 1) =
      (Done (Inr (100, ?m)), insert_source 100 ?m (empty_world 0))"
    by (simp add: create_source_def sample_statement sample_env_fields empty_world_def demo_world_def stored_as_def Let_def)
  have "\<exists>e p. ie_embedder (ap_ingest (sample_api (Some 9))) = Some e \<and>
      current_provenance (ie_debug (ap_ingest (sample_api (Some 9)))) e Text = Inr p"
    by (simp add: sample_api_def wide_env_def current_provenance_def validate_provenance_def from_provider_def
        embedding_dim_def Let_def trim_def trim_start_def trim_end_def is_whitespace_def not_legacy)
  then have "claim_or_report (sample_api (Some 9)) 100 5 Text (insert_source 100 ?m (empty_world 0)) =
      (Dropped, insert_source 100 ?m (empty_world 0))"
    by (auto simp: claim_or_report_def claim_index_ownership_def and_then_def sample_statement insert_source_def
        empty_world_def demo_world_def)
  then have "prepare_source_creation (sample_api (Some 9)) 5 sample_request (empty_world 3) =
      (Dropped, insert_source 100 ?m (empty_world 0))"
    using check create title
    by (simp add: prepare_source_creation_def attempt_def and_then_def sample_request_def)
  then show ?thesis by (simp add: insert_source_def empty_world_def demo_world_def)
qed

end
