(* ===== verification/Eval_Corpus.thy ===== *)
theory Eval_Corpus
  imports Formatting
begin

text \<open>
  \<open>services/rag/eval/corpus.rs\<close>: the labelled corpus the release gate measures on, its lookups, and
  the validation that says whether it is fit for that. The fixtures are read by serde, whose result
  is the value here. The digest and the regular expressions are parameters. The lemmas show that a
  corpus passes the validation exactly when it is consistent, and what the evaluators rely on then:
  a slug names one chunk, a span is the place of its chunk in the source.
\<close>

subsection \<open>Fixtures\<close>

datatype query_category =
  ExactIdentifier | SemanticParaphrase | MultiHop | ConflictingSources | UnanswerableQuery
| TablesAndCode | LongDocument | HostileInstructions

definition all_categories :: "query_category list" where
  "all_categories =
     [ExactIdentifier, SemanticParaphrase, MultiHop, ConflictingSources, UnanswerableQuery,
      TablesAndCode, LongDocument, HostileInstructions]"

fun category_as_str :: "query_category \<Rightarrow> rstr" where
  "category_as_str ExactIdentifier = lit ''exact_identifier''"
| "category_as_str SemanticParaphrase = lit ''semantic_paraphrase''"
| "category_as_str MultiHop = lit ''multi_hop''"
| "category_as_str ConflictingSources = lit ''conflicting_sources''"
| "category_as_str UnanswerableQuery = lit ''unanswerable''"
| "category_as_str TablesAndCode = lit ''tables_and_code''"
| "category_as_str LongDocument = lit ''long_document''"
| "category_as_str HostileInstructions = lit ''hostile_instructions''"

datatype eval_split = Train | Holdout

fun split_as_str :: "eval_split \<Rightarrow> rstr" where
  "split_as_str Train = lit ''train''"
| "split_as_str Holdout = lit ''holdout''"

record changelog_entry =
  ce_version :: rstr
  ce_date :: rstr
  ce_summary :: rstr

record corpus_manifest =
  mf_corpus_version :: rstr
  mf_rationale :: rstr
  mf_changelog :: "changelog_entry list"
  mf_min_cases_per_category :: nat
  mf_min_total_queries :: nat

record source_span =
  sp_start :: nat
  sp_end :: nat

record corpus_chunk =
  ck_id :: rstr
  ck_index :: int
  ck_content :: rstr
  ck_parent_group :: "rstr option"
  ck_page :: "nat option"
  ck_span :: source_span
  ck_section_header :: "rstr option"

record corpus_source =
  so_id :: rstr
  so_title :: rstr
  so_type :: rstr
  so_chunks :: "corpus_chunk list"

record corpus_notebook =
  nb_id :: rstr
  nb_title :: rstr
  nb_sources :: "corpus_source list"

record expected_claim =
  cl_id :: rstr
  cl_text :: rstr
  cl_supported_by :: "rstr list"
  cl_answer_markers :: "rstr list"

record eval_query =
  qu_id :: rstr
  qu_notebook :: rstr
  qu_category :: query_category
  qu_split :: eval_split
  qu_answerable :: bool
  qu_query :: rstr
  qu_relevant_chunks :: "rstr list"
  qu_relevant_sources :: "rstr list"
  qu_expected_claims :: "expected_claim list"
  qu_forbidden_sources :: "rstr list"
  qu_rationale :: rstr

record eval_corpus =
  co_manifest :: corpus_manifest
  co_generation :: rstr
  co_chunking_version :: rstr
  co_notebooks :: "corpus_notebook list"
  co_queries :: "eval_query list"

text \<open>
  A slug becomes a UUID through the first sixteen bytes of its digest, with the bits of version and
  variant forced.
\<close>

definition from_bytes :: "nat list \<Rightarrow> uuid" where
  "from_bytes bs = fold (\<lambda>b acc. 256 * acc + b) bs 0"

definition synthetic_uuid :: "(nat list \<Rightarrow> nat list) \<Rightarrow> rstr \<Rightarrow> uuid" where
  "synthetic_uuid sha slug =
     (let bs = take 16 (sha (as_bytes slug)) in
      from_bytes (bs[6 := bs ! 6 mod 16 + 64, 8 := bs ! 8 mod 64 + 128]))"

subsection \<open>Lookups\<close>

definition queries_of :: "eval_corpus \<Rightarrow> eval_split \<Rightarrow> eval_query list" where
  "queries_of C s = filter (\<lambda>q. qu_split q = s) (co_queries C)"

definition tuning_queries :: "eval_corpus \<Rightarrow> eval_query list" where
  "tuning_queries C = queries_of C Train"

primrec find_map :: "('a \<Rightarrow> 'b option) \<Rightarrow> 'a list \<Rightarrow> 'b option" where
  "find_map f [] = None"
| "find_map f (x # xs) = (case f x of Some y \<Rightarrow> Some y | None \<Rightarrow> find_map f xs)"

definition corpus_chunk_of :: "eval_corpus \<Rightarrow> rstr \<Rightarrow> (corpus_notebook \<times> corpus_source \<times> corpus_chunk) option" where
  "corpus_chunk_of C slug =
     find_map (\<lambda>nb. find_map (\<lambda>src. map_option (\<lambda>c. (nb, src, c))
       (find (\<lambda>c. ck_id c = slug) (so_chunks src))) (nb_sources nb)) (co_notebooks C)"

definition corpus_source_of :: "eval_corpus \<Rightarrow> rstr \<Rightarrow> (corpus_notebook \<times> corpus_source) option" where
  "corpus_source_of C slug =
     find_map (\<lambda>nb. map_option (\<lambda>s. (nb, s)) (find (\<lambda>s. so_id s = slug) (nb_sources nb))) (co_notebooks C)"

definition corpus_notebook_of :: "eval_corpus \<Rightarrow> rstr \<Rightarrow> corpus_notebook option" where
  "corpus_notebook_of C slug = find (\<lambda>nb. nb_id nb = slug) (co_notebooks C)"

definition chunk_count_of :: "eval_corpus \<Rightarrow> nat" where
  "chunk_count_of C = sum_list (map (\<lambda>s. length (so_chunks s)) (concat (map nb_sources (co_notebooks C))))"

definition cases_per_category :: "eval_corpus \<Rightarrow> (query_category \<times> nat) list" where
  "cases_per_category C =
     map (\<lambda>c. (c, length (filter (\<lambda>q. qu_category q = c) (co_queries C)))) all_categories"

definition is_isolation_case :: "eval_query \<Rightarrow> bool" where
  "is_isolation_case q \<longleftrightarrow> qu_forbidden_sources q \<noteq> []"

subsection \<open>Validation\<close>

record corpus_violation =
  cv_location :: rstr
  cv_field :: rstr
  cv_reason :: rstr

definition quoted :: "rstr \<Rightarrow> rstr" where
  "quoted s = lit ''`'' @ s @ lit ''`''"

text \<open>One \<open>if\<close> of the validation: a violation is pushed when the condition holds.\<close>

definition report_if :: "bool \<Rightarrow> rstr \<Rightarrow> string \<Rightarrow> rstr \<Rightarrow> corpus_violation list" where
  "report_if b location field reason =
     (if b then [\<lparr>cv_location = location, cv_field = lit field, cv_reason = reason\<rparr>] else [])"

definition range_text :: "source_span \<Rightarrow> rstr" where
  "range_text s = show_nat (sp_start s) @ lit ''..'' @ show_nat (sp_end s)"

text \<open>The sets of slugs seen so far are threaded through the nested loops.\<close>

primrec chunk_violations ::
  "rstr \<Rightarrow> corpus_chunk list \<Rightarrow> int set \<Rightarrow> rstr set \<Rightarrow> corpus_violation list \<times> rstr set" where
  "chunk_violations src [] indices slugs = ([], slugs)"
| "chunk_violations src (c # cs) indices slugs =
     (let here =
        report_if (ck_id c \<in> slugs) (ck_id c) ''id'' (lit ''duplicate chunk slug'') @
        report_if (ck_index c \<in> indices) (ck_id c) ''index''
          (lit ''chunk index '' @ show_int (ck_index c) @ lit '' appears twice in source '' @ quoted src) @
        report_if (trim (ck_content c) = []) (ck_id c) ''content'' (lit ''empty content'') @
        report_if (sp_end (ck_span c) \<le> sp_start (ck_span c)) (ck_id c) ''span''
          (lit ''span '' @ range_text (ck_span c) @ lit '' is empty or inverted'');
          (rest, slugs) = chunk_violations src cs (insert (ck_index c) indices) (insert (ck_id c) slugs)
      in (here @ rest, slugs))"

primrec source_violations ::
  "unicode \<Rightarrow> corpus_source list \<Rightarrow> rstr set \<Rightarrow> rstr set \<Rightarrow> corpus_violation list \<times> rstr set \<times> rstr set" where
  "source_violations u [] sources chunks = ([], sources, chunks)"
| "source_violations u (s # ss) sources chunks =
     (let here =
        report_if (so_id s \<in> sources) (so_id s) ''id'' (lit ''duplicate source slug'') @
        report_if (isl (source_type_try_from u (so_type s))) (so_id s) ''source_type''
          (quoted (so_type s) @ lit '' is not a supported source type'');
          (inner, chunks) = chunk_violations (so_id s) (so_chunks s) {} chunks;
          (rest, sets) = source_violations u ss (insert (so_id s) sources) chunks
      in (here @ inner @ rest, sets))"

primrec notebook_violations ::
  "unicode \<Rightarrow> corpus_notebook list \<Rightarrow> rstr set \<Rightarrow> rstr set \<Rightarrow> rstr set \<Rightarrow> corpus_violation list" where
  "notebook_violations u [] notebooks sources chunks = []"
| "notebook_violations u (nb # nbs) notebooks sources chunks =
     (let here = report_if (nb_id nb \<in> notebooks) (nb_id nb) ''id'' (lit ''duplicate notebook slug'');
          (inner, sources, chunks) = source_violations u (nb_sources nb) sources chunks
      in here @ inner @ notebook_violations u nbs (insert (nb_id nb) notebooks) sources chunks)"

definition group_violations :: "corpus_source \<Rightarrow> corpus_violation list" where
  "group_violations s = concat (map (\<lambda>c.
     report_if (case ck_parent_group c of None \<Rightarrow> False | Some g \<Rightarrow> trim g = []) (ck_id c)
       ''parent_group'' (lit ''parent group is present but empty'')) (so_chunks s))"

primrec span_violations :: "rstr \<Rightarrow> nat \<Rightarrow> corpus_chunk list \<Rightarrow> corpus_violation list" where
  "span_violations src cursor [] = []"
| "span_violations src cursor (c # cs) =
     (let expected_end = cursor + str_len (ck_content c) in
      if sp_start (ck_span c) \<noteq> cursor \<or> sp_end (ck_span c) \<noteq> expected_end
      then report_if True (ck_id c) ''span''
        (lit ''span '' @ range_text (ck_span c) @
         lit '' does not match this chunk'' @ [39] @ lit ''s position in source '' @ quoted src @ lit ''; expected '' @
         range_text \<lparr>sp_start = cursor, sp_end = expected_end\<rparr>)
      else span_violations src (if cs = [] then expected_end else expected_end + 2) cs)"

definition validate_spans :: "corpus_source \<Rightarrow> corpus_violation list" where
  "validate_spans s =
     span_violations (so_id s) 0 (sort_by (\<lambda>a b. cmp_ord (ck_index a) (ck_index b)) (so_chunks s))"

definition validate_structure :: "unicode \<Rightarrow> eval_corpus \<Rightarrow> corpus_violation list" where
  "validate_structure u C =
     notebook_violations u (co_notebooks C) {} {} {} @
     concat (map (\<lambda>nb. concat (map (\<lambda>s. group_violations s @ validate_spans s) (nb_sources nb)))
       (co_notebooks C))"

text \<open>
  The shapes of secrets, in the order they are tried. \<open>R\<close> says for a label whether its pattern
  matches, and is None when the pattern cannot be built.
\<close>

definition forbidden_labels :: "rstr list" where
  "forbidden_labels =
     map lit [''email address'', ''OpenAI-style secret key'', ''Stripe live key'', ''AWS access key id'',
       ''GitHub token'', ''Slack token'', ''PEM private key'', ''JSON Web Token'', ''bearer credential'',
       ''Clerk user id'', ''Stripe customer id'', ''Stripe subscription id'', ''Stripe account id'',
       ''raw UUID literal'']"

type_synonym secret_patterns = "rstr \<Rightarrow> (rstr \<Rightarrow> bool) option"

definition forbidden_value_matches :: "secret_patterns \<Rightarrow> rstr \<Rightarrow> rstr option" where
  "forbidden_value_matches R text =
     find_map (\<lambda>label. case R label of
       None \<Rightarrow> Some (lit ''unbuildable secret pattern'')
     | Some is_match \<Rightarrow> if is_match text then Some label else None) forbidden_labels"

definition check_synthetic :: "secret_patterns \<Rightarrow> rstr \<Rightarrow> string \<Rightarrow> rstr \<Rightarrow> corpus_violation list" where
  "check_synthetic R location field text =
     (case forbidden_value_matches R text of
        None \<Rightarrow> []
      | Some label \<Rightarrow> report_if True location field (lit ''contains something shaped like a '' @ label))"

definition validate_synthetic :: "secret_patterns \<Rightarrow> eval_corpus \<Rightarrow> corpus_violation list" where
  "validate_synthetic R C =
     concat (map (\<lambda>nb.
       check_synthetic R (nb_id nb) ''title'' (nb_title nb) @
       concat (map (\<lambda>s.
         check_synthetic R (so_id s) ''title'' (so_title s) @
         concat (map (\<lambda>c.
           check_synthetic R (ck_id c) ''content'' (ck_content c) @
           (case ck_section_header c of
              None \<Rightarrow> [] | Some h \<Rightarrow> check_synthetic R (ck_id c) ''section_header'' h)) (so_chunks s)))
         (nb_sources nb))) (co_notebooks C)) @
     concat (map (\<lambda>q.
       check_synthetic R (qu_id q) ''query'' (qu_query q) @
       check_synthetic R (qu_id q) ''rationale'' (qu_rationale q) @
       concat (map (\<lambda>c. check_synthetic R (qu_id q) ''expected_claims.text'' (cl_text c))
         (qu_expected_claims q))) (co_queries C))"

text \<open>The labels of one query, in the order of the checks.\<close>

definition relevant_chunk_violations :: "eval_corpus \<Rightarrow> eval_query \<Rightarrow> corpus_notebook \<Rightarrow> corpus_violation list" where
  "relevant_chunk_violations C q nb =
     concat (map (\<lambda>slug. case corpus_chunk_of C slug of
         None \<Rightarrow> report_if True (qu_id q) ''relevant_chunks'' (quoted slug @ lit '' is not a chunk in this corpus'')
       | Some (owner, src, _) \<Rightarrow>
           report_if (nb_id owner \<noteq> nb_id nb) (qu_id q) ''relevant_chunks''
             (quoted slug @ lit '' belongs to notebook '' @ quoted (nb_id owner) @ lit '', not '' @ quoted (nb_id nb)) @
           report_if (so_id src \<notin> set (qu_relevant_sources q)) (qu_id q) ''relevant_sources''
             (quoted slug @ lit '' is relevant but its source '' @ quoted (so_id src) @ lit '' is not listed''))
       (qu_relevant_chunks q))"

definition relevant_source_violations :: "eval_corpus \<Rightarrow> eval_query \<Rightarrow> corpus_violation list" where
  "relevant_source_violations C q =
     concat (map (\<lambda>slug.
       report_if (corpus_source_of C slug = None) (qu_id q) ''relevant_sources''
         (quoted slug @ lit '' is not a source in this corpus'')) (qu_relevant_sources q))"

definition forbidden_source_violations :: "eval_corpus \<Rightarrow> eval_query \<Rightarrow> corpus_notebook \<Rightarrow> corpus_violation list" where
  "forbidden_source_violations C q nb =
     concat (map (\<lambda>slug. case corpus_source_of C slug of
         None \<Rightarrow> report_if True (qu_id q) ''forbidden_sources'' (quoted slug @ lit '' is not a source in this corpus'')
       | Some (owner, _) \<Rightarrow>
           report_if (slug \<in> set (qu_relevant_sources q)) (qu_id q) ''forbidden_sources''
             (quoted slug @ lit '' is listed as both relevant and forbidden'') @
           report_if (nb_id owner = nb_id nb) (qu_id q) ''forbidden_sources''
             (quoted slug @ lit '' is in the query'' @ [39] @ lit ''s own notebook '' @ quoted (nb_id nb) @
              lit ''; forbidden sources record cross-notebook isolation, not relevance''))
       (qu_forbidden_sources q))"

definition answerability_violations :: "eval_query \<Rightarrow> corpus_violation list" where
  "answerability_violations q =
     report_if (qu_answerable q \<and> qu_relevant_chunks q = []) (qu_id q) ''relevant_chunks''
       (lit ''an answerable query needs at least one relevant chunk'') @
     report_if (\<not> qu_answerable q \<and> qu_relevant_chunks q \<noteq> []) (qu_id q) ''relevant_chunks''
       (lit ''an unanswerable query must have no relevant chunk'') @
     report_if (\<not> qu_answerable q \<and> qu_expected_claims q \<noteq> []) (qu_id q) ''expected_claims''
       (lit ''an unanswerable query must expect no claim'') @
     report_if (qu_answerable q \<and> qu_expected_claims q = []) (qu_id q) ''expected_claims''
       (lit ''an answerable query needs at least one expected claim'')"

definition category_violations :: "eval_query \<Rightarrow> corpus_violation list" where
  "category_violations q =
     report_if (qu_category q = UnanswerableQuery \<and> qu_answerable q) (qu_id q) ''answerable''
       (lit ''category `unanswerable` requires answerable = false'') @
     report_if (qu_category q = MultiHop \<and> length (qu_relevant_chunks q) < 2) (qu_id q) ''relevant_chunks''
       (lit ''a multi-hop case needs evidence in at least two chunks'') @
     report_if (qu_category q = ConflictingSources \<and> length (qu_relevant_sources q) < 2) (qu_id q)
       ''relevant_sources'' (lit ''a conflicting-sources case needs at least two sources'')"

definition support_violations :: "eval_corpus \<Rightarrow> eval_query \<Rightarrow> expected_claim \<Rightarrow> corpus_violation list" where
  "support_violations C q c =
     report_if (cl_answer_markers c = []) (qu_id q) ''expected_claims.answer_markers''
       (lit ''claim '' @ quoted (cl_id c) @ lit '' has no deterministic marker, so no offline evaluator can decide whether an answer made it'') @
     report_if (cl_supported_by c = []) (qu_id q) ''expected_claims.supported_by''
       (lit ''claim '' @ quoted (cl_id c) @ lit '' cites no supporting chunk'') @
     concat (map (\<lambda>slug. case corpus_chunk_of C slug of
         None \<Rightarrow> report_if True (qu_id q) ''expected_claims.supported_by''
           (lit ''claim '' @ quoted (cl_id c) @ lit '' cites '' @ quoted slug @ lit '', which is not a chunk in this corpus'')
       | Some _ \<Rightarrow> report_if (slug \<notin> set (qu_relevant_chunks q)) (qu_id q) ''expected_claims.supported_by''
           (lit ''claim '' @ quoted (cl_id c) @ lit '' cites '' @ quoted slug @ lit '', which is not labeled relevant''))
       (cl_supported_by c))"

primrec claim_violations :: "eval_corpus \<Rightarrow> eval_query \<Rightarrow> rstr set \<Rightarrow> expected_claim list \<Rightarrow> corpus_violation list" where
  "claim_violations C q seen [] = []"
| "claim_violations C q seen (c # cs) =
     report_if (cl_id c \<in> seen) (qu_id q) ''expected_claims.id'' (lit ''duplicate claim id '' @ quoted (cl_id c)) @
     support_violations C q c @
     claim_violations C q (insert (cl_id c) seen) cs"

definition label_violations :: "eval_corpus \<Rightarrow> eval_query \<Rightarrow> corpus_violation list" where
  "label_violations C q =
     (case corpus_notebook_of C (qu_notebook q) of
        None \<Rightarrow> report_if True (qu_id q) ''notebook'' (quoted (qu_notebook q) @ lit '' is not a corpus notebook'')
      | Some nb \<Rightarrow>
          relevant_chunk_violations C q nb @ relevant_source_violations C q @
          forbidden_source_violations C q nb @ answerability_violations q @ category_violations q @
          claim_violations C q {} (qu_expected_claims q))"

primrec query_violations :: "eval_corpus \<Rightarrow> rstr set \<Rightarrow> eval_query list \<Rightarrow> corpus_violation list" where
  "query_violations C seen [] = []"
| "query_violations C seen (q # qs) =
     report_if (qu_id q \<in> seen) (qu_id q) ''id'' (lit ''duplicate query id'') @
     report_if (trim (qu_query q) = []) (qu_id q) ''query'' (lit ''empty query text'') @
     label_violations C q @
     query_violations C (insert (qu_id q) seen) qs"

definition validate_queries :: "eval_corpus \<Rightarrow> corpus_violation list" where
  "validate_queries C = query_violations C {} (co_queries C)"

definition validate_coverage :: "eval_corpus \<Rightarrow> corpus_violation list" where
  "validate_coverage C =
     (let m = co_manifest C; whole = lit ''<corpus>'' in
      report_if (length (co_queries C) < mf_min_total_queries m) whole ''queries''
        (show_nat (length (co_queries C)) @ lit '' labeled queries, manifest requires at least '' @
         show_nat (mf_min_total_queries m)) @
      concat (map (\<lambda>(category, count).
        report_if (count < mf_min_cases_per_category m) whole ''category''
          (lit ''category '' @ quoted (category_as_str category) @ lit '' has '' @ show_nat count @
           lit '' cases, manifest requires at least '' @ show_nat (mf_min_cases_per_category m)))
        (cases_per_category C)) @
      concat (map (\<lambda>s. report_if (queries_of C s = []) whole ''split''
        (lit ''split '' @ quoted (split_as_str s) @ lit '' is empty, so the split is not locked'')) [Train, Holdout]) @
      report_if (\<not> list_ex is_isolation_case (co_queries C)) whole ''forbidden_sources''
        (lit ''no tenant-isolation case, so the release gate has nothing to enforce'') @
      (if mf_changelog m = []
       then report_if True whole ''changelog'' (lit ''corpus version has no recorded rationale'')
       else report_if (\<not> list_ex (\<lambda>e. ce_version e = mf_corpus_version m) (mf_changelog m)) whole ''changelog''
         (lit ''no changelog entry for corpus version '' @ quoted (mf_corpus_version m))))"

definition validate_corpus :: "unicode \<Rightarrow> secret_patterns \<Rightarrow> eval_corpus \<Rightarrow> corpus_violation list" where
  "validate_corpus u R C =
     validate_structure u C @ validate_synthetic R C @ validate_queries C @ validate_coverage C"

subsection \<open>What a valid corpus is\<close>

definition sources_of :: "eval_corpus \<Rightarrow> corpus_source list" where
  "sources_of C = concat (map nb_sources (co_notebooks C))"

definition chunks_of :: "eval_corpus \<Rightarrow> corpus_chunk list" where
  "chunks_of C = concat (map so_chunks (sources_of C))"

definition in_corpus :: "eval_corpus \<Rightarrow> corpus_notebook \<Rightarrow> corpus_source \<Rightarrow> corpus_chunk \<Rightarrow> bool" where
  "in_corpus C nb src c \<longleftrightarrow>
     nb \<in> set (co_notebooks C) \<and> src \<in> set (nb_sources nb) \<and> c \<in> set (so_chunks src)"

text \<open>The text of a source is its chunks in the order of their indices, separated by blank lines.\<close>

definition in_order :: "corpus_source \<Rightarrow> corpus_chunk list" where
  "in_order s = sort_by (\<lambda>a b. cmp_ord (ck_index a) (ck_index b)) (so_chunks s)"

definition text_before :: "corpus_chunk list \<Rightarrow> rstr" where
  "text_before cs = concat (map (\<lambda>c. ck_content c @ [10, 10]) cs)"

definition corpus_source_text :: "corpus_source \<Rightarrow> rstr" where
  "corpus_source_text s = join [10, 10] (map ck_content (in_order s))"

definition tiles :: "corpus_source \<Rightarrow> bool" where
  "tiles s \<longleftrightarrow> (\<forall>before c after. in_order s = before @ c # after \<longrightarrow>
     ck_span c = \<lparr>sp_start = str_len (text_before before),
                  sp_end = str_len (text_before before) + str_len (ck_content c)\<rparr>)"

definition well_structured :: "unicode \<Rightarrow> eval_corpus \<Rightarrow> bool" where
  "well_structured u C \<longleftrightarrow>
     distinct (map nb_id (co_notebooks C)) \<and> distinct (map so_id (sources_of C)) \<and>
     distinct (map ck_id (chunks_of C)) \<and>
     (\<forall>s\<in>set (sources_of C).
        (\<exists>ty. source_type_try_from u (so_type s) = Inr ty) \<and> distinct (map ck_index (so_chunks s)) \<and> tiles s \<and>
        (\<forall>c\<in>set (so_chunks s). trim (ck_content c) \<noteq> [] \<and> (\<forall>g. ck_parent_group c = Some g \<longrightarrow> trim g \<noteq> [])))"

definition corpus_texts :: "eval_corpus \<Rightarrow> rstr set" where
  "corpus_texts C =
     nb_title ` set (co_notebooks C) \<union> so_title ` set (sources_of C) \<union> ck_content ` set (chunks_of C) \<union>
     {h. \<exists>c\<in>set (chunks_of C). ck_section_header c = Some h} \<union>
     (\<Union>q\<in>set (co_queries C). {qu_query q, qu_rationale q} \<union> cl_text ` set (qu_expected_claims q))"

definition no_secrets :: "secret_patterns \<Rightarrow> eval_corpus \<Rightarrow> bool" where
  "no_secrets R C \<longleftrightarrow>
     (\<forall>t\<in>corpus_texts C. \<forall>label\<in>set forbidden_labels. \<exists>m. R label = Some m \<and> \<not> m t)"

definition claim_ok :: "eval_query \<Rightarrow> expected_claim \<Rightarrow> bool" where
  "claim_ok q c \<longleftrightarrow>
     cl_answer_markers c \<noteq> [] \<and> cl_supported_by c \<noteq> [] \<and> set (cl_supported_by c) \<subseteq> set (qu_relevant_chunks q)"

definition labels_ok :: "eval_corpus \<Rightarrow> eval_query \<Rightarrow> corpus_notebook \<Rightarrow> bool" where
  "labels_ok C q nb \<longleftrightarrow>
     (\<forall>slug\<in>set (qu_relevant_chunks q).
        \<exists>src c. in_corpus C nb src c \<and> ck_id c = slug \<and> so_id src \<in> set (qu_relevant_sources q)) \<and>
     (\<forall>slug\<in>set (qu_relevant_sources q). \<exists>s\<in>set (sources_of C). so_id s = slug) \<and>
     (\<forall>slug\<in>set (qu_forbidden_sources q). slug \<notin> set (qu_relevant_sources q) \<and>
        (\<exists>other\<in>set (co_notebooks C). other \<noteq> nb \<and> (\<exists>s\<in>set (nb_sources other). so_id s = slug)))"

definition well_labelled :: "eval_corpus \<Rightarrow> eval_query \<Rightarrow> bool" where
  "well_labelled C q \<longleftrightarrow>
     trim (qu_query q) \<noteq> [] \<and>
     (\<exists>nb\<in>set (co_notebooks C). nb_id nb = qu_notebook q \<and> labels_ok C q nb) \<and>
     (if qu_answerable q
      then qu_relevant_chunks q \<noteq> [] \<and> qu_expected_claims q \<noteq> [] \<and> qu_category q \<noteq> UnanswerableQuery
      else qu_relevant_chunks q = [] \<and> qu_expected_claims q = []) \<and>
     (qu_category q = MultiHop \<longrightarrow> 2 \<le> length (qu_relevant_chunks q)) \<and>
     (qu_category q = ConflictingSources \<longrightarrow> 2 \<le> length (qu_relevant_sources q)) \<and>
     distinct (map cl_id (qu_expected_claims q)) \<and> (\<forall>c\<in>set (qu_expected_claims q). claim_ok q c)"

definition covered :: "eval_corpus \<Rightarrow> bool" where
  "covered C \<longleftrightarrow>
     mf_min_total_queries (co_manifest C) \<le> length (co_queries C) \<and>
     (\<forall>k. mf_min_cases_per_category (co_manifest C) \<le> length (filter (\<lambda>q. qu_category q = k) (co_queries C))) \<and>
     (\<forall>s. \<exists>q\<in>set (co_queries C). qu_split q = s) \<and>
     (\<exists>q\<in>set (co_queries C). qu_forbidden_sources q \<noteq> []) \<and>
     (\<exists>e\<in>set (mf_changelog (co_manifest C)). ce_version e = mf_corpus_version (co_manifest C))"

subsection \<open>Laws\<close>

lemma report_if_Nil [simp]: "report_if b l f r = [] \<longleftrightarrow> \<not> b"
  by (simp add: report_if_def)

text \<open>Keys that a \<open>BTreeSet\<close> with the keys of \<open>S\<close> in it takes without finding a duplicate.\<close>

primrec new_keys :: "'a list \<Rightarrow> 'a set \<Rightarrow> bool" where
  "new_keys [] S \<longleftrightarrow> True"
| "new_keys (k # ks) S \<longleftrightarrow> k \<notin> S \<and> new_keys ks (insert k S)"

lemma new_keys_append: "new_keys (ks @ ls) S \<longleftrightarrow> new_keys ks S \<and> new_keys ls (set ks \<union> S)"
  by (induction ks arbitrary: S) simp_all

lemma new_keys_iff: "new_keys ks S \<longleftrightarrow> distinct ks \<and> set ks \<inter> S = {}"
  by (induction ks arbitrary: S) auto

lemma snd_chunk_violations: "snd (chunk_violations src cs I S) = set (map ck_id cs) \<union> S"
  by (induction cs arbitrary: I S) (simp_all add: case_prod_beta Let_def)

lemma fst_chunk_violations:
  "fst (chunk_violations src cs I S) = [] \<longleftrightarrow>
     new_keys (map ck_index cs) I \<and> new_keys (map ck_id cs) S \<and>
     (\<forall>c\<in>set cs. trim (ck_content c) \<noteq> [] \<and> sp_start (ck_span c) < sp_end (ck_span c))"
  by (induction cs arbitrary: I S) (simp_all add: case_prod_beta Let_def not_le conj_ac)

definition source_shape :: "unicode \<Rightarrow> corpus_source \<Rightarrow> bool" where
  "source_shape u s \<longleftrightarrow>
     (\<exists>ty. source_type_try_from u (so_type s) = Inr ty) \<and> distinct (map ck_index (so_chunks s)) \<and>
     (\<forall>c\<in>set (so_chunks s). trim (ck_content c) \<noteq> [] \<and> sp_start (ck_span c) < sp_end (ck_span c))"

abbreviation chunk_keys :: "corpus_source list \<Rightarrow> rstr list" where
  "chunk_keys ss \<equiv> map ck_id (concat (map so_chunks ss))"

lemma source_violations_Cons:
  "source_violations u (s # ss) A B =
     (let rest = source_violations u ss (insert (so_id s) A) (set (map ck_id (so_chunks s)) \<union> B) in
      (report_if (so_id s \<in> A) (so_id s) ''id'' (lit ''duplicate source slug'') @
       report_if (isl (source_type_try_from u (so_type s))) (so_id s) ''source_type''
         (quoted (so_type s) @ lit '' is not a supported source type'') @
       fst (chunk_violations (so_id s) (so_chunks s) {} B) @ fst rest, snd rest))"
  by (simp add: case_prod_beta Let_def snd_chunk_violations)

lemma snd_source_violations:
  "snd (source_violations u ss A B) = (set (map so_id ss) \<union> A, set (chunk_keys ss) \<union> B)"
  by (induction ss arbitrary: A B)
     (simp_all add: source_violations_Cons Let_def image_Un Un_ac del: source_violations.simps(2))

lemma fst_source_violations:
  "fst (source_violations u ss A B) = [] \<longleftrightarrow>
     new_keys (map so_id ss) A \<and> new_keys (chunk_keys ss) B \<and> (\<forall>s\<in>set ss. source_shape u s)"
proof (induction ss arbitrary: A B)
  case (Cons s ss)
  have ty: "\<not> isl r \<longleftrightarrow> (\<exists>t. r = Inr t)" for r :: "app_error + source_type" by (cases r) simp_all
  have "fst (source_violations u (s # ss) A B) = [] \<longleftrightarrow>
      so_id s \<notin> A \<and> source_shape u s \<and> new_keys (map ck_id (so_chunks s)) B \<and>
      fst (source_violations u ss (insert (so_id s) A) (set (map ck_id (so_chunks s)) \<union> B)) = []"
    by (simp add: source_violations_Cons Let_def fst_chunk_violations source_shape_def ty new_keys_iff conj_ac
        del: source_violations.simps(2))
  then show ?case unfolding Cons by (simp add: new_keys_append conj_ac)
qed simp

lemma notebook_violations_Nil:
  "notebook_violations u nbs N A B = [] \<longleftrightarrow>
     new_keys (map nb_id nbs) N \<and> fst (source_violations u (concat (map nb_sources nbs)) A B) = []"
proof (induction nbs arbitrary: N A B)
  case (Cons nb nbs)
  let ?A = "set (map so_id (nb_sources nb)) \<union> A" and ?B = "set (chunk_keys (nb_sources nb)) \<union> B"
  have "notebook_violations u (nb # nbs) N A B = [] \<longleftrightarrow>
      nb_id nb \<notin> N \<and> fst (source_violations u (nb_sources nb) A B) = [] \<and>
      notebook_violations u nbs (insert (nb_id nb) N) ?A ?B = []"
    by (simp add: case_prod_beta Let_def snd_source_violations del: set_map)
  moreover have "fst (source_violations u (concat (map nb_sources (nb # nbs))) A B) = [] \<longleftrightarrow>
      fst (source_violations u (nb_sources nb) A B) = [] \<and>
      fst (source_violations u (concat (map nb_sources nbs)) ?A ?B) = []"
    unfolding fst_source_violations by (simp add: new_keys_append ball_Un conj_ac del: set_map)
  ultimately show ?case unfolding Cons by (simp add: conj_ac del: set_map)
qed simp

lemma text_before_Cons: "str_len (text_before (c # cs)) = str_len (ck_content c) + 2 + str_len (text_before cs)"
  by (simp add: text_before_def len_utf8_def)

lemma span_violations_Nil:
  "span_violations src k cs = [] \<longleftrightarrow>
     (\<forall>before c after. cs = before @ c # after \<longrightarrow>
        ck_span c = \<lparr>sp_start = k + str_len (text_before before),
                     sp_end = k + str_len (text_before before) + str_len (ck_content c)\<rparr>)"
proof (induction cs arbitrary: k)
  case (Cons d cs)
  define k' where "k' = (if cs = [] then k + str_len (ck_content d) else k + str_len (ck_content d) + 2)"
  let ?at = "\<lambda>k c before. ck_span c = \<lparr>sp_start = k + str_len (text_before before),
                     sp_end = k + str_len (text_before before) + str_len (ck_content c)\<rparr>"
  have "span_violations src k (d # cs) = [] \<longleftrightarrow> ?at k d [] \<and> span_violations src k' cs = []"
    by (cases "ck_span d") (auto simp: k'_def Let_def text_before_def)
  also have "span_violations src k' cs = [] \<longleftrightarrow>
      (\<forall>before c after. cs = before @ c # after \<longrightarrow> ?at k c (d # before))"
  proof (cases "cs = []")
    case False
    then show ?thesis unfolding Cons by (simp add: text_before_Cons k'_def add.assoc)
  qed simp
  also have "?at k d [] \<and> (\<forall>before c after. cs = before @ c # after \<longrightarrow> ?at k c (d # before)) \<longleftrightarrow>
      (\<forall>before c after. d # cs = before @ c # after \<longrightarrow> ?at k c before)"
    by (simp add: Cons_eq_append_conv all_conj_distrib imp_conjL disj_imp) blast
  finally show ?case .
qed simp

lemma validate_spans_Nil: "validate_spans s = [] \<longleftrightarrow> tiles s"
  by (simp add: validate_spans_def span_violations_Nil tiles_def in_order_def)

lemma find_map_None: "find_map f xs = None \<longleftrightarrow> (\<forall>x\<in>set xs. f x = None)"
  by (induction xs) (auto split: option.split)

lemma find_map_Some: "find_map f xs = Some y \<Longrightarrow> \<exists>x\<in>set xs. f x = Some y"
  by (induction xs) (auto split: option.splits)

lemma find_some: "find P xs = Some x \<Longrightarrow> x \<in> set xs \<and> P x"
  by (induction xs) (auto split: if_splits)

lemma chunk_lookup_sound: "corpus_chunk_of C slug = Some (nb, src, c) \<Longrightarrow> in_corpus C nb src c \<and> ck_id c = slug"
  unfolding corpus_chunk_of_def in_corpus_def by (auto dest!: find_map_Some find_some)

lemma chunk_lookup_None: "corpus_chunk_of C slug = None \<longleftrightarrow> (\<forall>nb src c. in_corpus C nb src c \<longrightarrow> ck_id c \<noteq> slug)"
  by (auto simp: corpus_chunk_of_def in_corpus_def find_map_None find_None_iff)

lemma source_lookup_sound:
  "corpus_source_of C slug = Some (nb, s) \<Longrightarrow> nb \<in> set (co_notebooks C) \<and> s \<in> set (nb_sources nb) \<and> so_id s = slug"
  unfolding corpus_source_of_def by (auto dest!: find_map_Some find_some)

lemma source_lookup_None: "corpus_source_of C slug = None \<longleftrightarrow> (\<forall>s\<in>set (sources_of C). so_id s \<noteq> slug)"
  by (auto simp: corpus_source_of_def sources_of_def find_map_None find_None_iff)

lemma distinct_owner:
  "distinct (concat (map f ss)) \<Longrightarrow> s \<in> set ss \<Longrightarrow> t \<in> set ss \<Longrightarrow> x \<in> set (f s) \<Longrightarrow> x \<in> set (f t) \<Longrightarrow> s = t"
  by (induction ss) auto

lemma distinct_map_inj: "distinct (map f xs) \<Longrightarrow> x \<in> set xs \<Longrightarrow> y \<in> set xs \<Longrightarrow> f x = f y \<Longrightarrow> x = y"
  by (auto simp: distinct_map dest: inj_onD)

text \<open>In a corpus whose slugs are distinct, a slug names one chunk, in one source of one notebook.\<close>

definition slugs_distinct :: "eval_corpus \<Rightarrow> bool" where
  "slugs_distinct C \<longleftrightarrow>
     distinct (map nb_id (co_notebooks C)) \<and> distinct (map so_id (sources_of C)) \<and>
     distinct (map ck_id (chunks_of C))"

lemma source_has_one_notebook:
  assumes "slugs_distinct C" "nb \<in> set (co_notebooks C)" "nb' \<in> set (co_notebooks C)"
    and "s \<in> set (nb_sources nb)" "s' \<in> set (nb_sources nb')" "so_id s = so_id s'"
  shows "nb = nb' \<and> s = s'"
proof
  have d: "distinct (concat (map (\<lambda>n. map so_id (nb_sources n)) (co_notebooks C)))"
    using assms(1) by (simp add: slugs_distinct_def sources_of_def map_concat comp_def)
  show "nb = nb'"
    using assms(4-6) by (intro distinct_owner [OF d assms(2,3), of "so_id s"]) (auto intro: rev_image_eqI)
  show "s = s'"
    using assms by (intro distinct_map_inj [of so_id "sources_of C"]) (auto simp: slugs_distinct_def sources_of_def)
qed

lemma chunk_has_one_source:
  assumes "slugs_distinct C" "in_corpus C nb src c" "in_corpus C nb' src' c'" "ck_id c = ck_id c'"
  shows "nb = nb' \<and> src = src' \<and> c = c'"
proof -
  have d: "distinct (concat (map (\<lambda>s. map ck_id (so_chunks s)) (sources_of C)))"
    using assms(1) by (simp add: slugs_distinct_def chunks_of_def map_concat comp_def)
  have "src = src'"
    using assms(2-4)
    by (intro distinct_owner [OF d, of _ _ "ck_id c"]) (auto simp: in_corpus_def sources_of_def intro: rev_image_eqI)
  moreover have "c = c'"
    using assms by (intro distinct_map_inj [of ck_id "chunks_of C"])
      (auto simp: slugs_distinct_def chunks_of_def sources_of_def in_corpus_def)
  ultimately show ?thesis
    using assms(2,3) source_has_one_notebook [OF assms(1), of nb nb' src src'] by (auto simp: in_corpus_def)
qed

lemma chunk_lookup:
  assumes "slugs_distinct C"
  shows "corpus_chunk_of C slug = Some (nb, src, c) \<longleftrightarrow> in_corpus C nb src c \<and> ck_id c = slug"
proof
  assume a: "in_corpus C nb src c \<and> ck_id c = slug"
  then obtain nb' src' c' where l: "corpus_chunk_of C slug = Some (nb', src', c')"
    using chunk_lookup_None [of C slug] by (cases "corpus_chunk_of C slug") auto
  with a chunk_has_one_source [OF assms, of nb src c nb' src' c'] chunk_lookup_sound [OF l]
  show "corpus_chunk_of C slug = Some (nb, src, c)" by simp
qed (rule chunk_lookup_sound)

lemma source_lookup:
  assumes "slugs_distinct C"
  shows "corpus_source_of C slug = Some (nb, s) \<longleftrightarrow>
    nb \<in> set (co_notebooks C) \<and> s \<in> set (nb_sources nb) \<and> so_id s = slug"
proof
  assume a: "nb \<in> set (co_notebooks C) \<and> s \<in> set (nb_sources nb) \<and> so_id s = slug"
  then obtain nb' s' where l: "corpus_source_of C slug = Some (nb', s')"
    using source_lookup_None [of C slug] by (cases "corpus_source_of C slug") (auto simp: sources_of_def)
  with a source_has_one_notebook [OF assms, of nb nb' s s'] source_lookup_sound [OF l]
  show "corpus_source_of C slug = Some (nb, s)" by simp
qed (rule source_lookup_sound)

lemma notebook_lookup:
  assumes "slugs_distinct C"
  shows "corpus_notebook_of C slug = Some nb \<longleftrightarrow> nb \<in> set (co_notebooks C) \<and> nb_id nb = slug"
proof
  assume a: "nb \<in> set (co_notebooks C) \<and> nb_id nb = slug"
  then obtain nb' where l: "corpus_notebook_of C slug = Some nb'"
    by (cases "corpus_notebook_of C slug") (auto simp: corpus_notebook_of_def find_None_iff)
  with a distinct_map_inj [of nb_id "co_notebooks C" nb nb'] find_some [OF l [unfolded corpus_notebook_of_def]]
  show "corpus_notebook_of C slug = Some nb" using assms by (simp add: slugs_distinct_def)
qed (auto simp: corpus_notebook_of_def dest: find_some)

text \<open>Each group of checks, on a corpus whose slugs are distinct.\<close>

lemma notebook_by_id:
  "slugs_distinct C \<Longrightarrow> nb \<in> set (co_notebooks C) \<Longrightarrow> nb' \<in> set (co_notebooks C) \<Longrightarrow> nb_id nb = nb_id nb' \<longleftrightarrow> nb = nb'"
  unfolding slugs_distinct_def using distinct_map_inj [of nb_id "co_notebooks C" nb nb'] by blast

lemma relevant_chunks_Nil:
  assumes "slugs_distinct C" "nb \<in> set (co_notebooks C)"
  shows "relevant_chunk_violations C q nb = [] \<longleftrightarrow>
    (\<forall>slug\<in>set (qu_relevant_chunks q).
       \<exists>src c. in_corpus C nb src c \<and> ck_id c = slug \<and> so_id src \<in> set (qu_relevant_sources q))"
proof -
  have one: "(case corpus_chunk_of C slug of None \<Rightarrow> False
      | Some (owner, src, c) \<Rightarrow> nb_id owner = nb_id nb \<and> so_id src \<in> set (qu_relevant_sources q)) \<longleftrightarrow>
    (\<exists>src c. in_corpus C nb src c \<and> ck_id c = slug \<and> so_id src \<in> set (qu_relevant_sources q))" for slug
  proof (cases "corpus_chunk_of C slug")
    case None
    then have "ck_id c \<noteq> slug" if "in_corpus C nb src c" for src c
      using that chunk_lookup_None [of C slug] by blast
    then show ?thesis using None by auto
  next
    case (Some t)
    then obtain owner src c where l: "corpus_chunk_of C slug = Some (owner, src, c)" by (cases t) auto
    from chunk_lookup_sound [OF l] have o: "in_corpus C owner src c" "ck_id c = slug" by auto
    have "nb_id owner = nb_id nb \<longleftrightarrow> owner = nb" using o
      by (intro notebook_by_id [OF assms(1) _ assms(2)]) (simp add: in_corpus_def)
    moreover have "owner = nb \<and> src' = src" if "in_corpus C nb src' c'" "ck_id c' = slug" for src' c'
      using chunk_has_one_source [OF assms(1) o(1) that(1)] o(2) that(2) by simp
    ultimately show ?thesis using o by (simp add: l) blast
  qed
  show ?thesis
    unfolding relevant_chunk_violations_def one [symmetric]
    by (simp split: option.split prod.split)
qed

lemma relevant_sources_Nil:
  "relevant_source_violations C q = [] \<longleftrightarrow> (\<forall>slug\<in>set (qu_relevant_sources q). \<exists>s\<in>set (sources_of C). so_id s = slug)"
  by (simp add: relevant_source_violations_def source_lookup_None)

lemma forbidden_sources_Nil:
  assumes "slugs_distinct C" "nb \<in> set (co_notebooks C)"
  shows "forbidden_source_violations C q nb = [] \<longleftrightarrow>
    (\<forall>slug\<in>set (qu_forbidden_sources q). slug \<notin> set (qu_relevant_sources q) \<and>
       (\<exists>other\<in>set (co_notebooks C). other \<noteq> nb \<and> (\<exists>s\<in>set (nb_sources other). so_id s = slug)))"
proof -
  have one: "(case corpus_source_of C slug of None \<Rightarrow> False
      | Some (owner, _) \<Rightarrow> slug \<notin> set (qu_relevant_sources q) \<and> nb_id owner \<noteq> nb_id nb) \<longleftrightarrow>
    slug \<notin> set (qu_relevant_sources q) \<and>
    (\<exists>other\<in>set (co_notebooks C). other \<noteq> nb \<and> (\<exists>s\<in>set (nb_sources other). so_id s = slug))" for slug
  proof (cases "corpus_source_of C slug")
    case None
    then have "so_id s \<noteq> slug" if "s \<in> set (nb_sources other)" "other \<in> set (co_notebooks C)" for s other
      using that source_lookup_None [of C slug] by (auto simp: sources_of_def)
    then show ?thesis using None by auto
  next
    case (Some t)
    then obtain owner s where l: "corpus_source_of C slug = Some (owner, s)" by (cases t) auto
    from source_lookup_sound [OF l] have o: "owner \<in> set (co_notebooks C)" "s \<in> set (nb_sources owner)" "so_id s = slug"
      by auto
    have "owner = other" if "other \<in> set (co_notebooks C)" "s' \<in> set (nb_sources other)" "so_id s' = slug" for other s'
      using source_has_one_notebook [OF assms(1) o(1) that(1) o(2) that(2)] o(3) that(3) by simp
    then have "(\<exists>other\<in>set (co_notebooks C). other \<noteq> nb \<and> (\<exists>s\<in>set (nb_sources other). so_id s = slug)) \<longleftrightarrow> owner \<noteq> nb"
      using o by blast
    then show ?thesis by (simp add: l notebook_by_id [OF assms(1) o(1) assms(2)])
  qed
  show ?thesis
    unfolding forbidden_source_violations_def one [symmetric]
    by (simp split: option.split prod.split)
qed

lemma support_Nil:
  assumes "\<And>slug. slug \<in> set (qu_relevant_chunks q) \<Longrightarrow> corpus_chunk_of C slug \<noteq> None"
  shows "support_violations C q c = [] \<longleftrightarrow> claim_ok q c"
  unfolding support_violations_def claim_ok_def using assms by (auto split: option.splits)

lemma claims_Nil:
  assumes "\<And>slug. slug \<in> set (qu_relevant_chunks q) \<Longrightarrow> corpus_chunk_of C slug \<noteq> None"
  shows "claim_violations C q seen cs = [] \<longleftrightarrow> new_keys (map cl_id cs) seen \<and> (\<forall>c\<in>set cs. claim_ok q c)"
  by (induction cs arbitrary: seen) (simp_all add: support_Nil [OF assms] conj_ac)

lemma labels_Nil:
  assumes "slugs_distinct C"
  shows "trim (qu_query q) \<noteq> [] \<and> label_violations C q = [] \<longleftrightarrow> well_labelled C q"
proof (cases "corpus_notebook_of C (qu_notebook q)")
  case None
  then have "\<not> (\<exists>nb\<in>set (co_notebooks C). nb_id nb = qu_notebook q)"
    by (simp add: corpus_notebook_of_def find_None_iff)
  with None show ?thesis by (auto simp: label_violations_def well_labelled_def)
next
  case (Some nb)
  then have nb: "nb \<in> set (co_notebooks C)" "nb_id nb = qu_notebook q" by (simp_all add: notebook_lookup [OF assms])
  then have the: "(\<exists>nb\<in>set (co_notebooks C). nb_id nb = qu_notebook q \<and> labels_ok C q nb) \<longleftrightarrow> labels_ok C q nb"
    using notebook_by_id [OF assms nb(1)] by metis
  have labels: "relevant_chunk_violations C q nb = [] \<and> relevant_source_violations C q = [] \<and>
      forbidden_source_violations C q nb = [] \<longleftrightarrow> labels_ok C q nb"
    by (simp add: labels_ok_def relevant_chunks_Nil [OF assms nb(1)] relevant_sources_Nil
        forbidden_sources_Nil [OF assms nb(1)])
  have claims: "claim_violations C q {} (qu_expected_claims q) = [] \<longleftrightarrow>
      distinct (map cl_id (qu_expected_claims q)) \<and> (\<forall>c\<in>set (qu_expected_claims q). claim_ok q c)"
    if "labels_ok C q nb"
  proof -
    have "corpus_chunk_of C slug \<noteq> None" if "slug \<in> set (qu_relevant_chunks q)" for slug
      unfolding chunk_lookup_None using that \<open>labels_ok C q nb\<close> unfolding labels_ok_def by blast
    then show ?thesis by (simp add: claims_Nil new_keys_iff)
  qed
  show ?thesis
  proof (cases "labels_ok C q nb")
    case True
    with labels claims show ?thesis
      by (auto simp: label_violations_def Some well_labelled_def the answerability_violations_def
          category_violations_def not_less)
  next
    case False
    with labels show ?thesis by (auto simp: label_violations_def Some well_labelled_def the)
  qed
qed

lemma queries_Nil:
  assumes "slugs_distinct C"
  shows "query_violations C seen qs = [] \<longleftrightarrow> new_keys (map qu_id qs) seen \<and> (\<forall>q\<in>set qs. well_labelled C q)"
  by (induction qs arbitrary: seen) (auto simp: labels_Nil [OF assms, symmetric])

lemma synthetic_Nil: "validate_synthetic R C = [] \<longleftrightarrow> no_secrets R C"
proof -
  have one: "check_synthetic R l f t = [] \<longleftrightarrow> (\<forall>label\<in>set forbidden_labels. \<exists>m. R label = Some m \<and> \<not> m t)" for l f t
  proof -
    have "forbidden_value_matches R t = None \<longleftrightarrow>
        (\<forall>label\<in>set forbidden_labels. \<exists>m. R label = Some m \<and> \<not> m t)"
      unfolding forbidden_value_matches_def find_map_None by (auto split: option.splits if_splits)
    then show ?thesis by (cases "forbidden_value_matches R t") (auto simp: check_synthetic_def)
  qed
  show ?thesis
    unfolding validate_synthetic_def no_secrets_def corpus_texts_def
    by (simp add: one chunks_of_def sources_of_def ball_Un split: option.split) blast
qed

lemma coverage_Nil: "validate_coverage C = [] \<longleftrightarrow> covered C"
proof -
  have cats: "(\<forall>k\<in>set all_categories. P k) \<longleftrightarrow> (\<forall>k. P k)" for P
    by (simp add: all_categories_def) (metis query_category.exhaust)
  have splits: "(\<forall>s\<in>set [Train, Holdout]. P s) \<longleftrightarrow> (\<forall>s. P s)" for P
    by simp (metis eval_split.exhaust)
  have "(\<forall>s\<in>set [Train, Holdout]. queries_of C s \<noteq> []) \<longleftrightarrow> (\<forall>s. \<exists>q\<in>set (co_queries C). qu_split q = s)"
    unfolding splits by (simp add: queries_of_def filter_empty_conv)
  moreover have "(\<forall>k\<in>set all_categories. mf_min_cases_per_category (co_manifest C) \<le>
      length (filter (\<lambda>q. qu_category q = k) (co_queries C))) \<longleftrightarrow>
    (\<forall>k. mf_min_cases_per_category (co_manifest C) \<le> length (filter (\<lambda>q. qu_category q = k) (co_queries C)))"
    by (rule cats)
  ultimately show ?thesis
    by (auto simp: validate_coverage_def covered_def Let_def cases_per_category_def not_less list_ex_iff
        is_isolation_case_def)
qed

lemma tile_place:
  assumes "tiles s" "c \<in> set (so_chunks s)"
  shows "\<exists>before after. in_order s = before @ c # after \<and>
    ck_span c = \<lparr>sp_start = str_len (text_before before),
                 sp_end = str_len (text_before before) + str_len (ck_content c)\<rparr>"
proof -
  from assms(2) have "c \<in> set (in_order s)" by (simp add: in_order_def)
  with assms(1) show ?thesis unfolding tiles_def by (meson split_list)
qed

lemma structure_Nil: "validate_structure u C = [] \<longleftrightarrow> well_structured u C"
proof -
  have groups: "group_violations s = [] \<longleftrightarrow> (\<forall>c\<in>set (so_chunks s). \<forall>g. ck_parent_group c = Some g \<longrightarrow> trim g \<noteq> [])" for s
    by (auto simp: group_violations_def split: option.splits)
  have nonempty: "sp_start (ck_span c) < sp_end (ck_span c)"
    if "tiles s" "c \<in> set (so_chunks s)" "trim (ck_content c) \<noteq> []" for s c
  proof -
    have "ck_content c \<noteq> []" using that(3) by (auto simp: trim_def trim_start_def trim_end_def)
    then show ?thesis using tile_place [OF that(1,2)] by (auto simp: neq0_conv [symmetric] simp del: neq0_conv)
  qed
  have "validate_structure u C = [] \<longleftrightarrow>
      new_keys (map nb_id (co_notebooks C)) {} \<and> new_keys (map so_id (sources_of C)) {} \<and>
      new_keys (chunk_keys (sources_of C)) {} \<and>
      (\<forall>s\<in>set (sources_of C). source_shape u s \<and> group_violations s = [] \<and> tiles s)"
    by (auto simp: validate_structure_def notebook_violations_Nil fst_source_violations validate_spans_Nil
        sources_of_def)
  then show ?thesis
    unfolding well_structured_def chunks_of_def
    by (auto simp: new_keys_iff source_shape_def groups nonempty)
qed

text \<open>The contract of a query: its labels are well formed, and its name is its own.\<close>

definition all_labelled :: "eval_corpus \<Rightarrow> bool" where
  "all_labelled C \<longleftrightarrow> distinct (map qu_id (co_queries C)) \<and> (\<forall>q\<in>set (co_queries C). well_labelled C q)"

text \<open>
  C37. The validation reports nothing exactly when the corpus is consistent: slugs are distinct, the
  spans of every source tile its text, no title, content of a chunk, section header, query, rationale
  or text of a claim is shaped like a secret, every label resolves in the notebook of its query and
  agrees with its answerability, every category, both splits and the isolation of tenants are
  covered in the numbers the manifest asks for, and its changelog has the version. Identifiers,
  answer markers and the manifest are not looked at for secrets.
\<close>

theorem validation_is_exact:
  "validate_corpus u R C = [] \<longleftrightarrow>
     well_structured u C \<and> no_secrets R C \<and> all_labelled C \<and> covered C"
proof (cases "well_structured u C")
  case True
  then have "slugs_distinct C" by (simp add: well_structured_def slugs_distinct_def)
  then have "validate_queries C = [] \<longleftrightarrow> all_labelled C"
    by (simp add: validate_queries_def queries_Nil new_keys_iff all_labelled_def)
  then show ?thesis
    by (simp add: validate_corpus_def structure_Nil synthetic_Nil coverage_Nil)
qed (simp add: validate_corpus_def structure_Nil)

text \<open>In a valid corpus the span of a chunk is where its text stands in the text of its source.\<close>

lemma join_around:
  "join [10, 10] (map ck_content (before @ c # after)) =
     text_before before @ ck_content c @ (if after = [] then [] else [10, 10] @ join [10, 10] (map ck_content after))"
proof (induction before)
  case Nil
  then show ?case by (cases after) (simp_all add: text_before_def)
next
  case (Cons b bs)
  then show ?case by (cases bs) (simp_all add: text_before_def)
qed

lemma span_is_the_place:
  assumes "well_structured u C" "s \<in> set (sources_of C)" "c \<in> set (so_chunks s)"
  shows "slice_checked (corpus_source_text s) (sp_start (ck_span c)) (sp_end (ck_span c)) = Some (ck_content c)"
proof -
  have "tiles s" using assms by (simp add: well_structured_def)
  from tile_place [OF this assms(3)] obtain before after where
    at: "in_order s = before @ c # after" "ck_span c = \<lparr>sp_start = str_len (text_before before),
      sp_end = str_len (text_before before) + str_len (ck_content c)\<rparr>"
    by blast
  show ?thesis unfolding corpus_source_text_def at join_around slice_checked_def by simp
qed

end
