(* ===== verification/Eval_Grounding.thy ===== *)
theory Eval_Grounding
  imports Eval_Corpus Citations Prompts "HOL-Library.List_Lexorder"
begin

text \<open>
  \<open>services/rag/eval/grounding.rs\<close>: how answers are graded against the corpus. A claim counts as
  asserted when the answer contains its markers, a citation is correct when it resolves into the
  notebook of the question, was read from the current generation, quotes its chunk, and supports the
  one claim asserted where it stands. The answers are a parameter, as is the judge, whose remarks no
  metric reads. The lemmas show what a correct citation and the counts of a case amount to on a valid
  corpus, and what the metrics of a population count.
\<close>

subsection \<open>Cases\<close>

datatype answer_outcome =
  Answered rstr "located_citation list" nat
| Abstained rstr
| ProviderFailed rstr

record answer_case =
  an_query_id :: rstr
  an_generation_ids :: "uuid list"
  an_evidence_sufficient :: bool
  an_outcome :: answer_outcome

type_synonym claim_judge = "rstr \<times> (eval_query \<Rightarrow> rstr \<Rightarrow> rstr list)"

datatype citation_verdict =
  CorrectCitation | UnknownChunk | StaleGeneration | CrossNotebook | SpanMismatch | UnrelatedToClaim
| MalformedMarker

fun verdict_as_str :: "citation_verdict \<Rightarrow> rstr" where
  "verdict_as_str CorrectCitation = lit ''correct''"
| "verdict_as_str UnknownChunk = lit ''unknown_chunk''"
| "verdict_as_str StaleGeneration = lit ''stale_generation''"
| "verdict_as_str CrossNotebook = lit ''cross_notebook''"
| "verdict_as_str SpanMismatch = lit ''span_mismatch''"
| "verdict_as_str UnrelatedToClaim = lit ''unrelated_to_claim''"
| "verdict_as_str MalformedMarker = lit ''malformed_marker''"

datatype case_classification =
  CaseOk | CaseProviderError | MissingAbstention | SpuriousAbstention | Uncited | MalformedCitation
| UnknownQuery

fun classification_as_str :: "case_classification \<Rightarrow> rstr" where
  "classification_as_str CaseOk = lit ''ok''"
| "classification_as_str CaseProviderError = lit ''provider_error''"
| "classification_as_str MissingAbstention = lit ''missing_abstention''"
| "classification_as_str SpuriousAbstention = lit ''spurious_abstention''"
| "classification_as_str Uncited = lit ''uncited''"
| "classification_as_str MalformedCitation = lit ''malformed_citation''"
| "classification_as_str UnknownQuery = lit ''unknown_query''"

record case_outcome =
  oc_query_id :: rstr
  oc_category :: rstr
  oc_split :: rstr
  oc_classification :: case_classification
  oc_expected_claims :: nat
  oc_asserted_claims :: nat
  oc_supported_claims :: nat
  oc_unsupported_claims :: nat
  oc_citations_emitted :: nat
  oc_citations_correct :: nat
  oc_verdicts :: "citation_verdict list"
  oc_abstained :: bool
  oc_abstention_expected :: bool
  oc_abstention_correct :: bool
  oc_diagnostics :: "rstr list"

subsection \<open>Claims\<close>

definition abstention_markers :: "rstr list" where
  "abstention_markers = [lit ''no source was retrieved'']"

definition reads_as_abstention :: "unicode \<Rightarrow> rstr \<Rightarrow> bool" where
  "reads_as_abstention u text =
     (let normalized = uc_lowercase u (trim text) in
      list_ex (\<lambda>s. str_contains normalized (uc_lowercase u s)) fallback_texts \<or>
      list_ex (\<lambda>m. str_contains normalized m) abstention_markers)"

definition asserts_claim :: "unicode \<Rightarrow> rstr \<Rightarrow> expected_claim \<Rightarrow> bool" where
  "asserts_claim u answer c \<longleftrightarrow>
     cl_answer_markers c \<noteq> [] \<and>
     list_all (\<lambda>m. str_contains (uc_lowercase u answer) (uc_lowercase u m)) (cl_answer_markers c)"

text \<open>What follows the first closing bracket, with its offset; None when there is none.\<close>

definition after_bracket :: "rstr \<Rightarrow> (nat \<times> rstr) option" where
  "after_bracket s =
     (case dropWhile (\<lambda>c. c \<noteq> 93) s of
        [] \<Rightarrow> None
      | _ # rest \<Rightarrow> Some (str_len (takeWhile (\<lambda>c. c \<noteq> 93) s) + 1, rest))"

definition associated_claim ::
  "unicode \<Rightarrow> rstr \<Rightarrow> nat \<Rightarrow> nat option \<Rightarrow> expected_claim list \<Rightarrow> expected_claim option" where
  "associated_claim u answer marker_start previous asserted =
     (let local_start = (case previous of
            None \<Rightarrow> 0
          | Some p \<Rightarrow> (case Option.bind (slice_checked answer p marker_start) after_bracket of
              None \<Rightarrow> p | Some (k, _) \<Rightarrow> p + k)) in
      case slice_checked answer local_start marker_start of
        None \<Rightarrow> None
      | Some near \<Rightarrow>
          (case filter (asserts_claim u near) asserted of [c] \<Rightarrow> Some c | _ \<Rightarrow> None))"

definition is_ascii_punctuation :: "uchar \<Rightarrow> bool" where
  "is_ascii_punctuation c \<longleftrightarrow>
     33 \<le> c \<and> c \<le> 47 \<or> 58 \<le> c \<and> c \<le> 64 \<or> 91 \<le> c \<and> c \<le> 96 \<or> 123 \<le> c \<and> c \<le> 126"

definition continues_citation_run :: "rstr \<Rightarrow> nat \<Rightarrow> nat \<Rightarrow> bool" where
  "continues_citation_run answer previous marker_start =
     (case Option.bind (slice_checked answer previous marker_start) after_bracket of
        None \<Rightarrow> False
      | Some (_, between) \<Rightarrow> list_all (\<lambda>c. is_whitespace c \<or> is_ascii_punctuation c) between)"

text \<open>The claim of every citation; \<open>previous\<close> is the marker before, with the claim it got.\<close>

primrec associate_claims ::
  "unicode \<Rightarrow> rstr \<Rightarrow> expected_claim list \<Rightarrow> (nat \<times> expected_claim option) option \<Rightarrow>
   located_citation list \<Rightarrow> expected_claim option list" where
  "associate_claims u answer asserted previous [] = []"
| "associate_claims u answer asserted previous (l # ls) =
     (let direct = associated_claim u answer (snd l) (map_option fst previous) asserted;
          inherited = (case previous of
              None \<Rightarrow> None
            | Some (p, claim) \<Rightarrow> if continues_citation_run answer p (snd l) then claim else None);
          here = (case direct of Some c \<Rightarrow> Some c | None \<Rightarrow> inherited)
      in here # associate_claims u answer asserted (Some (snd l, here)) ls)"

subsection \<open>Citations\<close>

definition resolve_chunk_slug :: "(nat list \<Rightarrow> nat list) \<Rightarrow> eval_corpus \<Rightarrow> citation \<Rightarrow> rstr option" where
  "resolve_chunk_slug sha C ct =
     find_map (\<lambda>nb. find_map (\<lambda>src.
       if synthetic_uuid sha (so_id src) \<noteq> ct_source_id ct then None
       else map_option ck_id (find (\<lambda>c. ck_index c = ct_chunk_index ct) (so_chunks src)))
       (nb_sources nb)) (co_notebooks C)"

definition quoted_text :: "citation \<Rightarrow> rstr" where
  "quoted_text ct = trim (rev (dropWhile (\<lambda>c. c = 46) (rev (ct_text ct))))"

definition judge_citation ::
  "(nat list \<Rightarrow> nat list) \<Rightarrow> eval_corpus \<Rightarrow> eval_query \<Rightarrow> answer_case \<Rightarrow> expected_claim option \<Rightarrow> citation \<Rightarrow>
   citation_verdict" where
  "judge_citation sha C q a claim ct =
     (case resolve_chunk_slug sha C ct of
        None \<Rightarrow> UnknownChunk
      | Some slug \<Rightarrow>
          (case corpus_chunk_of C slug of
             None \<Rightarrow> UnknownChunk
           | Some (nb, _, c) \<Rightarrow>
               if synthetic_uuid sha (co_generation C) \<notin> set (an_generation_ids a) then StaleGeneration
               else if nb_id nb \<noteq> qu_notebook q then CrossNotebook
               else if quoted_text ct \<noteq> [] \<and> \<not> str_contains (ck_content c) (quoted_text ct) then SpanMismatch
               else if \<not> (case claim of None \<Rightarrow> False | Some cl \<Rightarrow> slug \<in> set (cl_supported_by cl))
               then UnrelatedToClaim
               else CorrectCitation))"

subsection \<open>Grading a case\<close>

definition unknown_case :: "rstr \<Rightarrow> case_outcome" where
  "unknown_case i =
     \<lparr>oc_query_id = i, oc_category = lit ''unknown'', oc_split = lit ''unknown'',
      oc_classification = UnknownQuery, oc_expected_claims = 0, oc_asserted_claims = 0,
      oc_supported_claims = 0, oc_unsupported_claims = 0, oc_citations_emitted = 0,
      oc_citations_correct = 0, oc_verdicts = [], oc_abstained = False, oc_abstention_expected = False,
      oc_abstention_correct = False, oc_diagnostics = []\<rparr>"

text \<open>The answer, its citations, the markers it lost, whether it abstained, and a first kind.\<close>

definition read_outcome ::
  "unicode \<Rightarrow> answer_outcome \<Rightarrow> rstr \<times> located_citation list \<times> nat \<times> bool \<times> case_classification" where
  "read_outcome u r =
     (case r of
        ProviderFailed _ \<Rightarrow> ([], [], 0, False, CaseProviderError)
      | Abstained text \<Rightarrow> (text, [], 0, True, CaseOk)
      | Answered text citations rejected \<Rightarrow>
          (let abstained = reads_as_abstention u text in
           (text, if abstained then [] else citations, rejected, abstained,
            if 0 < rejected then MalformedCitation else CaseOk)))"

definition classify :: "case_classification \<Rightarrow> bool \<Rightarrow> bool \<Rightarrow> located_citation list \<Rightarrow> case_classification" where
  "classify kind abstained abstention_expected citations =
     (if kind = CaseOk then
        (if abstained \<and> \<not> abstention_expected then SpuriousAbstention
         else if \<not> abstained \<and> abstention_expected then MissingAbstention
         else if \<not> abstained \<and> citations = [] then Uncited
         else kind)
      else kind)"

text \<open>The identifiers of the claims that a correct citation stands for.\<close>

definition cited_claims :: "expected_claim option list \<Rightarrow> citation_verdict list \<Rightarrow> rstr list" where
  "cited_claims claims verdicts =
     List.map_filter (\<lambda>(claim, v). if v = CorrectCitation then map_option cl_id claim else None)
       (zip claims verdicts)"

definition grade ::
  "unicode \<Rightarrow> (nat list \<Rightarrow> nat list) \<Rightarrow> eval_corpus \<Rightarrow> eval_query \<Rightarrow> answer_case \<Rightarrow> claim_judge option \<Rightarrow> case_outcome" where
  "grade u sha C q a jd =
     (let expected = (\<not> qu_answerable q \<or> \<not> an_evidence_sufficient a);
          (answer, citations, rejected, abstained, kind) = read_outcome u (an_outcome a);
          failed = (kind = CaseProviderError);
          asserted = (if failed \<or> abstained then []
                      else filter (asserts_claim u answer) (qu_expected_claims q));
          claims = associate_claims u answer asserted None citations;
          judged = map (\<lambda>(l, claim). judge_citation sha C q a claim (fst l)) (zip citations claims);
          verdicts = judged @ replicate rejected MalformedMarker;
          supported = length (filter (\<lambda>c. cl_id c \<in> set (cited_claims claims verdicts)) asserted)
      in \<lparr>oc_query_id = qu_id q, oc_category = category_as_str (qu_category q),
          oc_split = split_as_str (qu_split q),
          oc_classification = classify kind abstained expected citations,
          oc_expected_claims = length (qu_expected_claims q), oc_asserted_claims = length asserted,
          oc_supported_claims = supported, oc_unsupported_claims = length asserted - supported,
          oc_citations_emitted = length citations + rejected,
          oc_citations_correct = length (filter (\<lambda>v. v = CorrectCitation) verdicts),
          oc_verdicts = verdicts, oc_abstained = abstained, oc_abstention_expected = expected,
          oc_abstention_correct = (\<not> failed \<and> abstained = expected),
          oc_diagnostics = (case jd of None \<Rightarrow> [] | Some j \<Rightarrow> snd j q answer)\<rparr>)"

definition score_case ::
  "unicode \<Rightarrow> (nat list \<Rightarrow> nat list) \<Rightarrow> eval_corpus \<Rightarrow> claim_judge option \<Rightarrow> answer_case \<Rightarrow> case_outcome" where
  "score_case u sha C jd a =
     (case find (\<lambda>q. qu_id q = an_query_id a) (co_queries C) of
        None \<Rightarrow> unknown_case (an_query_id a)
      | Some q \<Rightarrow> grade u sha C q a jd)"

subsection \<open>Populations\<close>

record grounding_metrics =
  gm_cases :: nat
  gm_expected_claim_coverage :: rfloat
  gm_citation_precision :: rfloat
  gm_citation_coverage :: rfloat
  gm_abstention_accuracy :: rfloat
  gm_unsupported_claims :: nat
  gm_citations_emitted :: nat
  gm_citations_correct :: nat
  gm_citation_verdicts :: "rstr \<rightharpoonup> nat"
  gm_classifications :: "rstr \<rightharpoonup> nat"

text \<open>\<open>f64::round\<close>, half away from zero, and the six decimals a metric is rounded to.\<close>

definition f_round :: "rfloat \<Rightarrow> rfloat" where
  "f_round x = (case x of
       Fin q \<Rightarrow> Fin (of_int (if 0 \<le> q then \<lfloor>q + 1 / 2\<rfloor> else \<lceil>q - 1 / 2\<rceil>))
     | _ \<Rightarrow> x)"

definition round_metric :: "rfloat \<Rightarrow> rfloat" where
  "round_metric v =
     (if is_finite v then f_div rnd64 (f_round (f_mul rnd64 v (Fin 1000000))) (Fin 1000000) else Fin 0)"

definition ratio :: "nat \<Rightarrow> nat \<Rightarrow> rfloat" where
  "ratio n d = (if d = 0 then Fin 0 else round_metric (f_div rnd64 (f_of_nat rnd64 n) (f_of_nat rnd64 d)))"

definition count_key :: "rstr \<Rightarrow> (rstr \<rightharpoonup> nat) \<Rightarrow> (rstr \<rightharpoonup> nat)" where
  "count_key k m = m(k \<mapsto> (case m k of None \<Rightarrow> 0 | Some n \<Rightarrow> n) + 1)"

definition tally :: "rstr list \<Rightarrow> (rstr \<rightharpoonup> nat)" where
  "tally ks = fold count_key ks Map.empty"

definition aggregate :: "case_outcome list \<Rightarrow> (case_outcome \<Rightarrow> bool) \<Rightarrow> grounding_metrics" where
  "aggregate outcomes select =
     (let population = filter select outcomes;
          total = (\<lambda>f. sum_list (map f population));
          asserted = total oc_asserted_claims
      in \<lparr>gm_cases = length population,
          gm_expected_claim_coverage = ratio asserted (total oc_expected_claims),
          gm_citation_precision = ratio (total oc_citations_correct) (total oc_citations_emitted),
          gm_citation_coverage = ratio (total oc_supported_claims) asserted,
          gm_abstention_accuracy = ratio (length (filter oc_abstention_correct population)) (length population),
          gm_unsupported_claims = total oc_unsupported_claims,
          gm_citations_emitted = total oc_citations_emitted,
          gm_citations_correct = total oc_citations_correct,
          gm_citation_verdicts = tally (map verdict_as_str (concat (map oc_verdicts population))),
          gm_classifications = tally (map (\<lambda>x. classification_as_str (oc_classification x)) population)\<rparr>)"

record grounding_report =
  gr_schema :: rstr
  gr_generated_at :: rstr
  gr_corpus_version :: rstr
  gr_corpus_generation :: rstr
  gr_code_revision :: rstr
  gr_split :: rstr
  gr_judge :: rstr
  gr_notes :: "rstr list"
  gr_overall :: grounding_metrics
  gr_by_category :: "(rstr \<times> grounding_metrics) list"
  gr_cases :: "case_outcome list"

record grounding_run_config =
  gc_split :: eval_split
  gc_code_revision :: rstr

text \<open>A \<open>BTreeMap\<close> made of distinct keys is iterated in their order.\<close>

definition btree_of :: "(rstr \<times> 'a) list \<Rightarrow> (rstr \<times> 'a) list" where
  "btree_of xs = sort_by (\<lambda>a b. cmp_ord (fst a) (fst b)) xs"

definition grounding_report_schema :: rstr where "grounding_report_schema = lit ''rag-grounding-eval/1''"

definition grounding_notes :: "rstr list" where
  "grounding_notes =
     [lit ''Claim assertion is decided by the corpus'' @ [39] @
        lit ''s literal answer markers, never by a model. A judge, when configured, only adds diagnostics.'',
      lit ''A citation counts only when its chunk resolves, belongs to the active generation and the query'' @ [39] @
        lit ''s notebook, and its quoted span supports an asserted claim.'']"

definition run_grounding_eval ::
  "unicode \<Rightarrow> (nat list \<Rightarrow> nat list) \<Rightarrow> eval_corpus \<Rightarrow> answer_case list \<Rightarrow> grounding_run_config \<Rightarrow>
   claim_judge option \<Rightarrow> rstr \<Rightarrow> grounding_report" where
  "run_grounding_eval u sha C cases config jd now =
     (let outcomes = map (score_case u sha C jd) cases
      in \<lparr>gr_schema = grounding_report_schema, gr_generated_at = now,
          gr_corpus_version = mf_corpus_version (co_manifest C), gr_corpus_generation = co_generation C,
          gr_code_revision = gc_code_revision config, gr_split = split_as_str (gc_split config),
          gr_judge = (case jd of None \<Rightarrow> lit ''none'' | Some j \<Rightarrow> fst j), gr_notes = grounding_notes,
          gr_overall = aggregate outcomes (\<lambda>_. True),
          gr_by_category = btree_of (map (\<lambda>c. (category_as_str c,
            aggregate outcomes (\<lambda>x. oc_category x = category_as_str c))) all_categories),
          gr_cases = outcomes\<rparr>)"

subsection \<open>Laws\<close>

lemma length_associate [simp]: "length (associate_claims u t asserted p ls) = length ls"
  by (induction ls arbitrary: p) (simp_all add: Let_def)

lemma associated_claim_asserted: "associated_claim u t s p asserted = Some c \<Longrightarrow> c \<in> set asserted"
proof -
  assume "associated_claim u t s p asserted = Some c"
  then obtain near where "filter (asserts_claim u near) asserted = [c]"
    by (auto simp: associated_claim_def Let_def split: option.splits list.splits)
  then show ?thesis by (metis filter_is_subset list.set_intros(1) subsetD)
qed

lemma associate_asserted:
  assumes "Some c \<in> set (associate_claims u t asserted p ls)" "\<And>s d. p = Some (s, Some d) \<Longrightarrow> d \<in> set asserted"
  shows "c \<in> set asserted"
  using assms
proof (induction ls arbitrary: p)
  case (Cons l ls)
  define here where "here = (case associated_claim u t (snd l) (map_option fst p) asserted of
      Some c \<Rightarrow> Some c
    | None \<Rightarrow> (case p of None \<Rightarrow> None | Some (q, claim) \<Rightarrow> if continues_citation_run t q (snd l) then claim else None))"
  have here: "d \<in> set asserted" if "here = Some d" for d
    using that Cons.prems(2)
    by (auto simp: here_def dest: associated_claim_asserted split: option.splits if_splits)
  have "associate_claims u t asserted p (l # ls) = here # associate_claims u t asserted (Some (snd l, here)) ls"
    by (simp add: here_def Let_def)
  with Cons.prems(1) consider "here = Some c" | "Some c \<in> set (associate_claims u t asserted (Some (snd l, here)) ls)"
    by auto
  then show ?case
    using here Cons.IH [of "Some (snd l, here)"] by cases auto
qed simp

lemma resolve_sound:
  assumes "resolve_chunk_slug sha C ct = Some slug"
  shows "\<exists>nb src c. in_corpus C nb src c \<and> ck_id c = slug \<and> synthetic_uuid sha (so_id src) = ct_source_id ct \<and>
    ck_index c = ct_chunk_index ct"
  using assms unfolding resolve_chunk_slug_def in_corpus_def
  by (auto dest!: find_map_Some find_some split: if_splits) blast

text \<open>What a correct verdict says of a citation.\<close>

definition justified ::
  "unicode \<Rightarrow> (nat list \<Rightarrow> nat list) \<Rightarrow> eval_corpus \<Rightarrow> answer_case \<Rightarrow> rstr \<Rightarrow> citation \<Rightarrow> bool" where
  "justified u sha C a answer ct \<longleftrightarrow>
     (\<exists>q\<in>set (co_queries C). \<exists>nb src c cl. qu_id q = an_query_id a \<and> qu_answerable q \<and>
        in_corpus C nb src c \<and> nb_id nb = qu_notebook q \<and>
        synthetic_uuid sha (so_id src) = ct_source_id ct \<and> ck_index c = ct_chunk_index ct \<and>
        synthetic_uuid sha (co_generation C) \<in> set (an_generation_ids a) \<and>
        (quoted_text ct = [] \<or> str_contains (ck_content c) (quoted_text ct)) \<and>
        cl \<in> set (qu_expected_claims q) \<and> asserts_claim u answer cl \<and>
        ck_id c \<in> set (cl_supported_by cl) \<and> ck_id c \<in> set (qu_relevant_chunks q))"

lemma judged_correct:
  assumes "judge_citation sha C q a claim ct = CorrectCitation" "slugs_distinct C"
  shows "\<exists>nb src c cl. claim = Some cl \<and> in_corpus C nb src c \<and> nb_id nb = qu_notebook q \<and>
        synthetic_uuid sha (so_id src) = ct_source_id ct \<and> ck_index c = ct_chunk_index ct \<and>
        synthetic_uuid sha (co_generation C) \<in> set (an_generation_ids a) \<and>
        (quoted_text ct = [] \<or> str_contains (ck_content c) (quoted_text ct)) \<and> ck_id c \<in> set (cl_supported_by cl)"
proof -
  from assms(1) obtain slug nb src c where s: "resolve_chunk_slug sha C ct = Some slug"
      "corpus_chunk_of C slug = Some (nb, src, c)"
    by (auto simp: judge_citation_def split: option.splits)
  from resolve_sound [OF s(1)] obtain nb' src' c' where r: "in_corpus C nb' src' c'" "ck_id c' = slug"
      "synthetic_uuid sha (so_id src') = ct_source_id ct" "ck_index c' = ct_chunk_index ct"
    by blast
  from chunk_lookup_sound [OF s(2)] have l: "in_corpus C nb src c" "ck_id c = slug" by auto
  with chunk_has_one_source [OF assms(2) l(1) r(1)] r(2) have same: "src' = src" "c' = c" by auto
  show ?thesis
    using assms(1) l r unfolding same
    by (auto simp: judge_citation_def s split: if_splits option.splits)
qed

lemma length_cited: "length (cited_claims claims verdicts) \<le> length (filter (\<lambda>v. v = CorrectCitation) verdicts)"
proof (induction claims arbitrary: verdicts)
  case (Cons c claims)
  then show ?case
  proof (cases verdicts)
    case (Cons v vs)
    with Cons.IH [of vs] show ?thesis by (cases c) (auto simp: cited_claims_def map_filter_simps le_SucI)
  qed (simp add: cited_claims_def map_filter_simps)
qed (simp add: cited_claims_def map_filter_simps)

lemma supported_at_most:
  assumes "distinct (map f xs)"
  shows "length (filter (\<lambda>x. f x \<in> set ks) xs) \<le> length ks"
proof -
  have "length (filter (\<lambda>x. f x \<in> set ks) xs) = card (f ` set (filter (\<lambda>x. f x \<in> set ks) xs))"
    using assms by (metis distinct_card distinct_map_filter length_map set_map)
  also have "\<dots> \<le> card (set ks)" by (rule card_mono) auto
  also have "\<dots> \<le> length ks" by (rule card_length)
  finally show ?thesis .
qed

text \<open>A valid corpus, as the lemmas about grading use it.\<close>

lemma valid_slugs: "validate_corpus u R C = [] \<Longrightarrow> slugs_distinct C"
  by (simp add: validate_corpus_def structure_Nil well_structured_def slugs_distinct_def)

lemma valid_labels: "validate_corpus u R C = [] \<Longrightarrow> q \<in> set (co_queries C) \<Longrightarrow> well_labelled C q"
  using valid_slugs [of u R C]
  by (simp add: validate_corpus_def validate_queries_def queries_Nil)

lemma grade_counts:
  assumes "o1 = grade u sha C q a jd" "distinct (map cl_id (qu_expected_claims q))"
  shows "oc_supported_claims o1 + oc_unsupported_claims o1 = oc_asserted_claims o1 \<and>
    oc_asserted_claims o1 \<le> oc_expected_claims o1 \<and> oc_supported_claims o1 \<le> oc_citations_correct o1 \<and>
    oc_citations_correct o1 = count_list (oc_verdicts o1) CorrectCitation \<and>
    oc_citations_emitted o1 = length (oc_verdicts o1)"
proof -
  obtain answer citations rejected abstained kind where
    read: "read_outcome u (an_outcome a) = (answer, citations, rejected, abstained, kind)"
    by (cases "read_outcome u (an_outcome a)") auto
  define asserted where "asserted = (if kind = CaseProviderError \<or> abstained then []
      else filter (asserts_claim u answer) (qu_expected_claims q))"
  define claims where "claims = associate_claims u answer asserted None citations"
  define verdicts where "verdicts = map (\<lambda>(l, claim). judge_citation sha C q a claim (fst l)) (zip citations claims) @
      replicate rejected MalformedMarker"
  define supported where "supported = length (filter (\<lambda>c. cl_id c \<in> set (cited_claims claims verdicts)) asserted)"
  have o1: "oc_supported_claims o1 = supported" "oc_unsupported_claims o1 = length asserted - supported"
    "oc_asserted_claims o1 = length asserted" "oc_expected_claims o1 = length (qu_expected_claims q)"
    "oc_citations_correct o1 = length (filter (\<lambda>v. v = CorrectCitation) verdicts)"
    "oc_citations_emitted o1 = length citations + rejected" "oc_verdicts o1 = verdicts"
    unfolding assms(1) grade_def read
    by (simp_all add: Let_def asserted_def claims_def verdicts_def supported_def)
  have "distinct (map cl_id asserted)" using assms(2) by (simp add: asserted_def distinct_map_filter)
  then have "supported \<le> length (cited_claims claims verdicts)" unfolding supported_def by (rule supported_at_most)
  also have "\<dots> \<le> length (filter (\<lambda>v. v = CorrectCitation) verdicts)" by (rule length_cited)
  finally have "supported \<le> length (filter (\<lambda>v. v = CorrectCitation) verdicts)" .
  moreover have "supported \<le> length asserted" by (simp add: supported_def)
  moreover have "length asserted \<le> length (qu_expected_claims q)" by (simp add: asserted_def)
  moreover have "length verdicts = length citations + rejected" by (simp add: verdicts_def claims_def)
  moreover have "length (filter (\<lambda>v. v = CorrectCitation) verdicts) = count_list verdicts CorrectCitation"
    by (induction verdicts) auto
  ultimately show ?thesis by (simp add: o1)
qed

lemma grade_correct:
  assumes "i < length (oc_verdicts (grade u sha C q a jd))"
    and "oc_verdicts (grade u sha C q a jd) ! i = CorrectCitation"
    and "slugs_distinct C" "well_labelled C q" "q \<in> set (co_queries C)" "qu_id q = an_query_id a"
  shows "\<exists>answer citations rejected. an_outcome a = Answered answer citations rejected \<and>
    i < length citations \<and> justified u sha C a answer (fst (citations ! i))"
proof -
  obtain answer citations rejected abstained kind where
    read: "read_outcome u (an_outcome a) = (answer, citations, rejected, abstained, kind)"
    by (cases "read_outcome u (an_outcome a)") auto
  define asserted where "asserted = (if kind = CaseProviderError \<or> abstained then []
      else filter (asserts_claim u answer) (qu_expected_claims q))"
  define claims where "claims = associate_claims u answer asserted None citations"
  have v: "oc_verdicts (grade u sha C q a jd) =
      map (\<lambda>(l, claim). judge_citation sha C q a claim (fst l)) (zip citations claims) @ replicate rejected MalformedMarker"
    unfolding grade_def read by (simp add: Let_def asserted_def claims_def)
  have n: "length claims = length citations" by (simp add: claims_def)
  have i: "i < length citations"
    using assms(1,2) unfolding v by (auto simp: nth_append n split: if_splits)
  then have "judge_citation sha C q a (claims ! i) (fst (citations ! i)) = CorrectCitation"
    using assms(2) unfolding v by (simp add: nth_append n)
  from judged_correct [OF this assms(3)] obtain nb src c cl where j: "claims ! i = Some cl" "in_corpus C nb src c"
      "nb_id nb = qu_notebook q" "synthetic_uuid sha (so_id src) = ct_source_id (fst (citations ! i))"
      "ck_index c = ct_chunk_index (fst (citations ! i))" "synthetic_uuid sha (co_generation C) \<in> set (an_generation_ids a)"
      "quoted_text (fst (citations ! i)) = [] \<or> str_contains (ck_content c) (quoted_text (fst (citations ! i)))"
      "ck_id c \<in> set (cl_supported_by cl)"
    by blast
  have "Some cl \<in> set claims" using i n j(1) by (metis nth_mem)
  then have cl: "cl \<in> set asserted" unfolding claims_def by (rule associate_asserted) simp
  then have e: "cl \<in> set (qu_expected_claims q)" "asserts_claim u answer cl" by (auto simp: asserted_def split: if_splits)
  have "qu_answerable q" "claim_ok q cl" using assms(4) e(1) by (auto simp: well_labelled_def split: if_splits)
  then have "ck_id c \<in> set (qu_relevant_chunks q)" using j(8) by (auto simp: claim_ok_def)
  then have "justified u sha C a answer (fst (citations ! i))"
    unfolding justified_def using j(2-8) e \<open>qu_answerable q\<close> assms(5,6) by blast
  moreover have "an_outcome a = Answered answer citations rejected"
    using read i by (auto simp: read_outcome_def Let_def split: answer_outcome.splits if_splits)
  ultimately show ?thesis using i by blast
qed

text \<open>
  C36. On a valid corpus the grade of a case adds up, whatever the answer and the judge: every
  citation and every rejected marker has one verdict, supported and unsupported claims are the
  asserted ones, which are among the expected, and no more claims are supported than citations are
  correct. A correct citation points, by source and index, to a chunk of the notebook of an
  answerable question, read from the current generation, that contains the quote, is labelled
  relevant, and supports a claim the answer asserts.
\<close>

theorem correct_citations_are_justified:
  assumes "validate_corpus u R C = []" and "score_case u sha C jd a = o1"
  shows "oc_supported_claims o1 + oc_unsupported_claims o1 = oc_asserted_claims o1 \<and>
    oc_asserted_claims o1 \<le> oc_expected_claims o1 \<and> oc_supported_claims o1 \<le> oc_citations_correct o1 \<and>
    oc_citations_correct o1 = count_list (oc_verdicts o1) CorrectCitation \<and>
    oc_citations_emitted o1 = length (oc_verdicts o1) \<and>
    (\<forall>i<length (oc_verdicts o1). oc_verdicts o1 ! i = CorrectCitation \<longrightarrow>
       (\<exists>answer citations rejected. an_outcome a = Answered answer citations rejected \<and>
          i < length citations \<and> justified u sha C a answer (fst (citations ! i))))"
proof (cases "find (\<lambda>q. qu_id q = an_query_id a) (co_queries C)")
  case None
  then show ?thesis using assms(2) by (auto simp: score_case_def unknown_case_def)
next
  case (Some q)
  from find_some [OF Some] have q: "q \<in> set (co_queries C)" "qu_id q = an_query_id a" by auto
  have o1: "o1 = grade u sha C q a jd" using assms(2) Some by (simp add: score_case_def)
  have labels: "well_labelled C q" by (rule valid_labels [OF assms(1) q(1)])
  then have "distinct (map cl_id (qu_expected_claims q))" by (simp add: well_labelled_def)
  from grade_counts [OF o1 this] grade_correct [OF _ _ valid_slugs [OF assms(1)] labels q, of _ u sha jd]
  show ?thesis unfolding o1 by blast
qed

text \<open>The judge moves no number.\<close>

lemma judge_is_advisory:
  "(score_case u sha C jd a)\<lparr>oc_diagnostics := ds\<rparr> = (score_case u sha C None a)\<lparr>oc_diagnostics := ds\<rparr>"
proof -
  have "(grade u sha C q a jd)\<lparr>oc_diagnostics := ds\<rparr> = (grade u sha C q a None)\<lparr>oc_diagnostics := ds\<rparr>" for q
    by (cases "read_outcome u (an_outcome a)") (simp add: grade_def Let_def)
  then show ?thesis by (simp add: score_case_def split: option.split)
qed

subsection \<open>A corpus with two notebooks\<close>

definition sample_chunk :: "rstr \<Rightarrow> rstr \<Rightarrow> corpus_chunk" where
  "sample_chunk i content =
     \<lparr>ck_id = i, ck_index = 0, ck_content = content, ck_parent_group = None, ck_page = None,
      ck_span = \<lparr>sp_start = 0, sp_end = str_len content\<rparr>, ck_section_header = None\<rparr>"

definition sample_notebook :: "rstr \<Rightarrow> rstr \<Rightarrow> rstr \<Rightarrow> rstr \<Rightarrow> corpus_notebook" where
  "sample_notebook n s c content =
     \<lparr>nb_id = n, nb_title = n, nb_sources =
        [\<lparr>so_id = s, so_title = s, so_type = lit ''text'', so_chunks = [sample_chunk c content]\<rparr>]\<rparr>"

definition sample_queries :: "eval_query list" where
  "sample_queries =
     [\<lparr>qu_id = [1], qu_notebook = [97], qu_category = ExactIdentifier, qu_split = Train, qu_answerable = True,
       qu_query = [63], qu_relevant_chunks = [[101]], qu_relevant_sources = [[99]],
       qu_expected_claims = [\<lparr>cl_id = [107], cl_text = [53], cl_supported_by = [[101]], cl_answer_markers = [[53]]\<rparr>],
       qu_forbidden_sources = [[100]], qu_rationale = []\<rparr>,
      \<lparr>qu_id = [2], qu_notebook = [97], qu_category = UnanswerableQuery, qu_split = Holdout, qu_answerable = False,
       qu_query = [63], qu_relevant_chunks = [], qu_relevant_sources = [], qu_expected_claims = [],
       qu_forbidden_sources = [], qu_rationale = []\<rparr>]"

definition sample_corpus :: eval_corpus where
  "sample_corpus =
     \<lparr>co_manifest = \<lparr>mf_corpus_version = [49], mf_rationale = [],
        mf_changelog = [\<lparr>ce_version = [49], ce_date = [], ce_summary = []\<rparr>],
        mf_min_cases_per_category = 0, mf_min_total_queries = 2\<rparr>,
      co_generation = [103], co_chunking_version = [49],
      co_notebooks = [sample_notebook [97] [99] [101] [53, 33], sample_notebook [98] [100] [102] [54, 33]],
      co_queries = sample_queries\<rparr>"

definition sample_sha :: "nat list \<Rightarrow> nat list" where
  "sample_sha bs = take 32 (bs @ replicate 32 0)"

definition sample_answer :: answer_case where
  "sample_answer =
     \<lparr>an_query_id = [1], an_generation_ids = [synthetic_uuid sample_sha [103]], an_evidence_sufficient = True,
      an_outcome = Answered [53, 32, 91, 49, 93]
        [(citation_new (synthetic_uuid sample_sha [99]) 0 [53, 33] (Fin 1) default_provenance, 2)] 0\<rparr>"

definition no_pattern :: secret_patterns where "no_pattern label = Some (\<lambda>_. False)"

lemma trim_sample: "trim [53, 33] = [53, 33]" "trim [54, 33] = [54, 33]" "trim [63] = [63]"
    "trim [53, 32, 91, 49, 93] = [53, 32, 91, 49, 93]"
  by (simp_all add: trim_def trim_start_def trim_end_def is_whitespace_def)

lemma sample_corpus_valid: "validate_corpus ascii_tables no_pattern sample_corpus = []"
proof -
  have text_type: "source_type_try_from ascii_tables (lit ''text'') = Inr Text"
    by (simp add: source_type_try_from_def ascii_tables_def ascii_lower_char_def lit_def Let_def)
  have labels: "find_map (\<lambda>label. case no_pattern label of None \<Rightarrow> Some (lit ''unbuildable secret pattern'')
      | Some is_match \<Rightarrow> if is_match t then Some label else None) ls = None" for t ls
    by (simp add: find_map_None no_pattern_def)
  have "validate_structure ascii_tables sample_corpus = []"
    by (simp add: validate_structure_def sample_corpus_def sample_notebook_def sample_chunk_def trim_sample text_type
        group_violations_def validate_spans_def str_len_def len_utf8_def)
  moreover have "validate_synthetic no_pattern sample_corpus = []"
    by (simp add: validate_synthetic_def check_synthetic_def forbidden_value_matches_def labels split: option.split)
  moreover have "validate_queries sample_corpus = []"
    by (simp add: validate_queries_def sample_corpus_def sample_notebook_def sample_chunk_def sample_queries_def
        trim_sample label_violations_def corpus_notebook_of_def relevant_chunk_violations_def corpus_chunk_of_def
        relevant_source_violations_def corpus_source_of_def forbidden_source_violations_def
        answerability_violations_def category_violations_def support_violations_def)
  moreover have "validate_coverage sample_corpus = []"
    by (simp add: validate_coverage_def sample_corpus_def sample_queries_def cases_per_category_def
        all_categories_def queries_of_def is_isolation_case_def Let_def)
  ultimately show ?thesis by (simp add: validate_corpus_def)
qed

text \<open>
  The validation looks for secrets in the texts of a corpus only: with a pattern that the identifier
  of a chunk matches, the corpus is as valid as before.
\<close>

lemma secret_identifier_is_accepted:
  "validate_corpus ascii_tables (\<lambda>label. Some (\<lambda>t. t = [101])) sample_corpus = []"
  "\<exists>c\<in>set (chunks_of sample_corpus). ck_id c = [101]"
proof -
  have "validate_structure ascii_tables sample_corpus = []" "validate_queries sample_corpus = []"
      "validate_coverage sample_corpus = []"
    using sample_corpus_valid by (simp_all add: validate_corpus_def)
  moreover have "no_secrets (\<lambda>label. Some (\<lambda>t. t = [101])) sample_corpus"
    by (auto simp: no_secrets_def corpus_texts_def chunks_of_def sources_of_def sample_corpus_def sample_notebook_def
        sample_chunk_def sample_queries_def)
  ultimately show "validate_corpus ascii_tables (\<lambda>label. Some (\<lambda>t. t = [101])) sample_corpus = []"
    by (simp add: validate_corpus_def synthetic_Nil)
  show "\<exists>c\<in>set (chunks_of sample_corpus). ck_id c = [101]"
    by (simp add: chunks_of_def sources_of_def sample_corpus_def sample_notebook_def sample_chunk_def)
qed

lemma short_texts: "str_contains s n \<Longrightarrow> length n \<le> length s"
  by (auto simp: str_contains_iff)

lemma sample_not_abstained: "\<not> reads_as_abstention ascii_tables [53, 32, 91, 49, 93]"
proof -
  have "5 < length n" if "n \<in> set fallback_texts \<union> set abstention_markers" for n
    using that by (auto simp: fallback_texts_def fallbacks_fr_def fallbacks_en_def fallbacks_de_def fallbacks_es_def
        abstention_markers_def lit_def)
  moreover have lower: "length (uc_lowercase ascii_tables t) = length t" for t by (simp add: ascii_tables_def)
  have "\<not> str_contains (uc_lowercase ascii_tables [53, 32, 91, 49, 93]) n" if "5 < length n" for n
    using short_texts [of "uc_lowercase ascii_tables [53, 32, 91, 49, 93]" n] that by (auto simp: lower)
  ultimately show ?thesis
    unfolding reads_as_abstention_def Let_def list_ex_iff trim_sample by (simp add: lower)
qed

lemma sample_score:
  "oc_verdicts (score_case ascii_tables sample_sha sample_corpus None sample_answer) = [CorrectCitation]"
proof -
  have near: "slice_checked [53, 32, 91, 49, 93] 0 2 = Some [53, 32]"
    by (simp add: slice_checked_def len_utf8_def)
  have claim: "asserts_claim ascii_tables t \<lparr>cl_id = [107], cl_text = [53], cl_supported_by = [[101]],
      cl_answer_markers = [[53]]\<rparr> \<longleftrightarrow> 53 \<in> set t" if "\<forall>c\<in>set t. c < 65 \<or> 90 < c" for t
  proof -
    have "map ascii_lower_char t = t" using that by (intro map_idI) (auto simp: ascii_lower_char_def)
    then show ?thesis
      by (simp add: asserts_claim_def ascii_tables_def str_contains_iff in_set_conv_decomp ascii_lower_char_def)
  qed
  show ?thesis
    by (simp add: score_case_def sample_answer_def sample_corpus_def sample_queries_def grade_def read_outcome_def
        sample_not_abstained Let_def associated_claim_def near claim judge_citation_def resolve_chunk_slug_def
        sample_notebook_def sample_chunk_def corpus_chunk_of_def citation_new_def quoted_text_def trim_sample
        starts_with_def)
qed

theorem correct_citations_are_justified_witness:
  "let o1 = score_case ascii_tables sample_sha sample_corpus None sample_answer in
   oc_verdicts o1 = [CorrectCitation] \<and> oc_citations_correct o1 = 1 \<and> oc_citations_emitted o1 = 1 \<and>
   justified ascii_tables sample_sha sample_corpus sample_answer [53, 32, 91, 49, 93]
     (citation_new (synthetic_uuid sample_sha [99]) 0 [53, 33] (Fin 1) default_provenance)"
proof -
  have "an_outcome sample_answer = Answered [53, 32, 91, 49, 93]
      [(citation_new (synthetic_uuid sample_sha [99]) 0 [53, 33] (Fin 1) default_provenance, 2)] 0"
    by (simp add: sample_answer_def)
  then show ?thesis
    using correct_citations_are_justified [OF sample_corpus_valid refl, of sample_sha None sample_answer]
    by (auto simp: sample_score Let_def)
qed

end
