(* ===== verification/Eval_Gate.thy ===== *)
theory Eval_Gate
  imports Eval_Grounding Memory_Store
begin

text \<open>
  \<open>services/rag/eval/baseline.rs\<close>: a baseline made of one retrieval and one grounding report, its
  comparison with an approved one, and whether the comparison blocks a release. The retrieval report
  is a value; its outcomes per query are a type parameter, since the baseline does not read them.
  The lemmas show that a release is blocked exactly for the documented reasons, and what is known of
  a candidate that is let through, down to the citations of its cases.
\<close>

subsection \<open>Reports\<close>

record fusion_report =
  fu_enabled :: bool
  fu_rrf_k :: rfloat
  fu_dense_weight :: rfloat
  fu_sparse_weight :: rfloat

record retrieval_metrics =
  rm_queries :: nat
  rm_judged_queries :: nat
  rm_recall_at_5 :: rfloat
  rm_recall_at_10 :: rfloat
  rm_recall_at_20 :: rfloat
  rm_mrr :: rfloat
  rm_ndcg_at_10 :: rfloat
  rm_source_recall :: rfloat
  rm_duplicate_parent_rate :: rfloat
  rm_top_k_fill_rate :: rfloat
  rm_isolation_failures :: nat
  rm_reasons :: "rstr \<rightharpoonup> nat"

record 'q retrieval_report =
  rr_schema :: rstr
  rr_generated_at :: rstr
  rr_corpus_version :: rstr
  rr_corpus_generation :: rstr
  rr_chunking_version :: rstr
  rr_code_revision :: rstr
  rr_embedding_fingerprint :: rstr
  rr_reranker_fingerprint :: rstr
  rr_mode :: rstr
  rr_split :: rstr
  rr_requested_limit :: int
  rr_fusion :: fusion_report
  rr_notes :: "rstr list"
  rr_overall :: retrieval_metrics
  rr_by_category :: "(rstr \<times> retrieval_metrics) list"
  rr_queries :: "'q list"

subsection \<open>Baselines\<close>

definition baseline_schema :: rstr where "baseline_schema = lit ''rag-eval-baseline/1''"

definition regression_tolerance :: rfloat where "regression_tolerance = rnd64 (2 / 100)"

record targets =
  tg_recall_at_10 :: rfloat
  tg_ndcg_at_10 :: rfloat
  tg_citation_precision :: rfloat
  tg_citation_coverage :: rfloat
  tg_abstention_accuracy :: rfloat

definition default_targets :: targets where
  "default_targets =
     \<lparr>tg_recall_at_10 = rnd64 (9 / 10), tg_ndcg_at_10 = rnd64 (3 / 4), tg_citation_precision = rnd64 (95 / 100),
      tg_citation_coverage = rnd64 (9 / 10), tg_abstention_accuracy = rnd64 (9 / 10)\<rparr>"

datatype enforcement = RegressionOnly | RegressionAndTargets

fun enforcement_as_str :: "enforcement \<Rightarrow> rstr" where
  "enforcement_as_str RegressionOnly = lit ''regression_only''"
| "enforcement_as_str RegressionAndTargets = lit ''regression_and_targets''"

definition enforcement_parse :: "rstr \<Rightarrow> enforcement option" where
  "enforcement_parse v =
     (if v = lit ''regression_only'' then Some RegressionOnly
      else if v = lit ''regression_and_targets'' then Some RegressionAndTargets
      else None)"

record retrieval_section =
  rs_mode :: rstr
  rs_split :: rstr
  rs_requested_limit :: int
  rs_fusion :: fusion_report
  rs_overall :: retrieval_metrics
  rs_by_category :: "(rstr \<times> retrieval_metrics) list"

record grounding_section =
  gs_split :: rstr
  gs_overall :: grounding_metrics
  gs_by_category :: "(rstr \<times> grounding_metrics) list"

record baseline =
  bl_schema :: rstr
  bl_generated_at :: rstr
  bl_corpus_version :: rstr
  bl_corpus_generation :: rstr
  bl_chunking_version :: rstr
  bl_code_revision :: rstr
  bl_embedding_fingerprint :: rstr
  bl_reranker_fingerprint :: rstr
  bl_retrieval :: retrieval_section
  bl_grounding :: grounding_section
  bl_notes :: "rstr list"

definition capture :: "'q retrieval_report \<Rightarrow> grounding_report \<Rightarrow> rstr + baseline" where
  "capture r g =
     (if rr_corpus_version r \<noteq> gr_corpus_version g then
        Inl (lit ''retrieval measured corpus '' @ rr_corpus_version r @ lit '' and grounding measured '' @ gr_corpus_version g)
      else if rr_corpus_generation r \<noteq> gr_corpus_generation g then
        Inl (lit ''retrieval read generation '' @ rr_corpus_generation r @ lit '' and grounding read '' @ gr_corpus_generation g)
      else if rr_code_revision r \<noteq> gr_code_revision g then
        Inl (lit ''retrieval measured revision '' @ rr_code_revision r @ lit '' and grounding measured '' @ gr_code_revision g)
      else Inr
        \<lparr>bl_schema = baseline_schema, bl_generated_at = rr_generated_at r, bl_corpus_version = rr_corpus_version r,
         bl_corpus_generation = rr_corpus_generation r, bl_chunking_version = rr_chunking_version r,
         bl_code_revision = rr_code_revision r, bl_embedding_fingerprint = rr_embedding_fingerprint r,
         bl_reranker_fingerprint = rr_reranker_fingerprint r,
         bl_retrieval = \<lparr>rs_mode = rr_mode r, rs_split = rr_split r, rs_requested_limit = rr_requested_limit r,
           rs_fusion = rr_fusion r, rs_overall = rr_overall r, rs_by_category = rr_by_category r\<rparr>,
         bl_grounding = \<lparr>gs_split = gr_split g, gs_overall = gr_overall g, gs_by_category = gr_by_category g\<rparr>,
         bl_notes = rr_notes r @ gr_notes g\<rparr>)"

text \<open>
  The pointers a document must carry, and \<open>Value::pointer\<close> on them: none of their tokens is a
  number, so an array never holds one.
\<close>

definition required_pointers :: "string list list" where
  "required_pointers =
     [[''schema''], [''corpus_version''], [''code_revision''], [''embedding_fingerprint''], [''chunking_version''],
      [''retrieval'', ''mode''], [''retrieval'', ''split''], [''retrieval'', ''requested_limit''], [''retrieval'', ''fusion''],
      [''retrieval'', ''overall'', ''recall_at_10''], [''retrieval'', ''overall'', ''ndcg_at_10''],
      [''retrieval'', ''overall'', ''isolation_failures''], [''grounding'', ''overall'', ''citation_precision''],
      [''grounding'', ''overall'', ''citation_coverage''], [''grounding'', ''overall'', ''abstention_accuracy'']]"

fun at_pointer :: "json \<Rightarrow> string list \<Rightarrow> json option" where
  "at_pointer j [] = Some j"
| "at_pointer (JObj members) (t # ts) = Option.bind (map_of members (lit t)) (\<lambda>j. at_pointer j ts)"
| "at_pointer _ (t # ts) = None"

definition missing_metrics :: "json \<Rightarrow> rstr list" where
  "missing_metrics document =
     map (\<lambda>p. concat (map (\<lambda>t. lit ''/'' @ lit t) p))
       (filter (\<lambda>p. at_pointer document p = None) required_pointers)"

subsection \<open>Comparison\<close>

record delta =
  dl_metric :: rstr
  dl_previous :: rfloat
  dl_current :: rfloat
  dl_delta :: rfloat

record target_miss =
  tm_metric :: rstr
  tm_value :: rfloat
  tm_target :: rfloat

record comparison_report =
  cr_schema :: rstr
  cr_enforcement :: enforcement
  cr_tolerance :: rfloat
  cr_previous_revision :: rstr
  cr_current_revision :: rstr
  cr_incomparable :: "rstr list"
  cr_missing_metrics :: "rstr list"
  cr_regressions :: "delta list"
  cr_improvements :: "delta list"
  cr_isolation_failures :: "rstr list"
  cr_unmet_targets :: "target_miss list"

definition blocks_release :: "comparison_report \<Rightarrow> bool" where
  "blocks_release r \<longleftrightarrow>
     cr_incomparable r \<noteq> [] \<or> cr_missing_metrics r \<noteq> [] \<or> cr_regressions r \<noteq> [] \<or>
     cr_isolation_failures r \<noteq> [] \<or>
     (cr_enforcement r = RegressionAndTargets \<and> cr_unmet_targets r \<noteq> [])"

definition retrieval_pairs :: "retrieval_metrics \<Rightarrow> (rstr \<times> rfloat) list" where
  "retrieval_pairs m = [(lit ''recall_at_10'', rm_recall_at_10 m), (lit ''ndcg_at_10'', rm_ndcg_at_10 m)]"

definition grounding_pairs :: "grounding_metrics \<Rightarrow> (rstr \<times> rfloat) list" where
  "grounding_pairs m =
     [(lit ''citation_precision'', gm_citation_precision m), (lit ''citation_coverage'', gm_citation_coverage m)]"

definition round6 :: "rfloat \<Rightarrow> rfloat" where "round6 v = round_metric v"

definition require_same :: "string \<Rightarrow> rstr \<Rightarrow> rstr \<Rightarrow> rstr list" where
  "require_same field a b =
     (if a \<noteq> b then [lit field @ lit '': baseline '' @ quoted a @ lit '', candidate '' @ quoted b] else [])"

definition fusion_eq :: "fusion_report \<Rightarrow> fusion_report \<Rightarrow> bool" where
  "fusion_eq a b \<longleftrightarrow>
     fu_enabled a = fu_enabled b \<and>
     (\<forall>(x, y)\<in>set [(fu_rrf_k a, fu_rrf_k b), (fu_dense_weight a, fu_dense_weight b),
        (fu_sparse_weight a, fu_sparse_weight b)]. x = y \<and> x \<noteq> NaN)"

definition incomparable :: "baseline \<Rightarrow> baseline \<Rightarrow> rstr list" where
  "incomparable p c =
     (let rp = bl_retrieval p; rc = bl_retrieval c in
      require_same ''schema'' (bl_schema p) (bl_schema c) @
      require_same ''corpus_version'' (bl_corpus_version p) (bl_corpus_version c) @
      require_same ''chunking_version'' (bl_chunking_version p) (bl_chunking_version c) @
      require_same ''embedding_fingerprint'' (bl_embedding_fingerprint p) (bl_embedding_fingerprint c) @
      require_same ''reranker_fingerprint'' (bl_reranker_fingerprint p) (bl_reranker_fingerprint c) @
      require_same ''retrieval.mode'' (rs_mode rp) (rs_mode rc) @
      require_same ''retrieval.split'' (rs_split rp) (rs_split rc) @
      require_same ''grounding.split'' (gs_split (bl_grounding p)) (gs_split (bl_grounding c)) @
      (if rs_requested_limit rp \<noteq> rs_requested_limit rc
       then [lit ''retrieval.requested_limit: baseline '' @ show_int (rs_requested_limit rp) @ lit '', candidate '' @
             show_int (rs_requested_limit rc)] else []) @
      (if \<not> fusion_eq (rs_fusion rp) (rs_fusion rc)
       then [lit ''retrieval.fusion: fusion parameters differ''] else []))"

text \<open>What the calls of \<open>record\<close> compute, in their order; it keeps those beyond the tolerance.\<close>

definition movement :: "rstr \<Rightarrow> rfloat \<Rightarrow> rfloat \<Rightarrow> delta" where
  "movement metric before after =
     \<lparr>dl_metric = metric, dl_previous = before, dl_current = after,
      dl_delta = round6 (f_add rnd64 after (f_neg before))\<rparr>"

definition overall_movements :: "string \<Rightarrow> (rstr \<times> rfloat) list \<Rightarrow> (rstr \<times> rfloat) list \<Rightarrow> delta list" where
  "overall_movements prefix before after =
     map (\<lambda>(name, b). movement (lit prefix @ lit ''.overall.'' @ name) b
       (case map_of after name of None \<Rightarrow> Fin 0 | Some v \<Rightarrow> v)) before"

definition category_movements ::
  "string \<Rightarrow> ('m \<Rightarrow> (rstr \<times> rfloat) list) \<Rightarrow> ('m \<Rightarrow> nat) \<Rightarrow> (rstr \<times> 'm) list \<Rightarrow> (rstr \<times> 'm) list \<Rightarrow> delta list" where
  "category_movements prefix pairs observed before after =
     concat (map (\<lambda>(category, b).
       case map_of after category of
         None \<Rightarrow> []
       | Some a \<Rightarrow>
           if observed b = 0 \<and> observed a = 0 then []
           else map (\<lambda>((name, x), (_, y)). movement (lit prefix @ lit ''.'' @ category @ lit ''.'' @ name) x y)
             (zip (pairs b) (pairs a))) before)"

definition category_missing :: "string \<Rightarrow> (rstr \<times> 'm) list \<Rightarrow> (rstr \<times> 'm) list \<Rightarrow> rstr list" where
  "category_missing prefix before after =
     concat (map (\<lambda>(category, _).
       if map_of after category = None then [lit prefix @ lit ''.by_category.'' @ category] else []) before)"

definition movements :: "baseline \<Rightarrow> baseline \<Rightarrow> delta list" where
  "movements p c =
     (let rp = bl_retrieval p; rc = bl_retrieval c; gp = bl_grounding p; gc = bl_grounding c in
      overall_movements ''retrieval'' (retrieval_pairs (rs_overall rp)) (retrieval_pairs (rs_overall rc)) @
      overall_movements ''grounding'' (grounding_pairs (gs_overall gp)) (grounding_pairs (gs_overall gc)) @
      category_movements ''retrieval'' retrieval_pairs rm_judged_queries (rs_by_category rp) (rs_by_category rc) @
      category_movements ''grounding'' grounding_pairs gm_cases (gs_by_category gp) (gs_by_category gc))"

definition is_regression :: "delta \<Rightarrow> bool" where
  "is_regression d \<longleftrightarrow> f_lt (dl_delta d) (f_neg regression_tolerance)"

definition is_improvement :: "delta \<Rightarrow> bool" where
  "is_improvement d \<longleftrightarrow> \<not> is_regression d \<and> f_lt regression_tolerance (dl_delta d)"

definition foreign_citations :: "grounding_metrics \<Rightarrow> nat" where
  "foreign_citations m = (case gm_citation_verdicts m (lit ''cross_notebook'') of None \<Rightarrow> 0 | Some n \<Rightarrow> n)"

definition isolation_failures :: "baseline \<Rightarrow> rstr list" where
  "isolation_failures c =
     (let n = rm_isolation_failures (rs_overall (bl_retrieval c)) in
      if 0 < n then [lit ''retrieval.overall: '' @ show_nat n @ lit '' case(s) retrieved a forbidden source''] else []) @
     concat (map (\<lambda>(category, m).
       if 0 < rm_isolation_failures m
       then [lit ''retrieval.'' @ category @ lit '': '' @ show_nat (rm_isolation_failures m) @
             lit '' case(s) retrieved a forbidden source''] else []) (rs_by_category (bl_retrieval c))) @
     concat (map (\<lambda>(category, m).
       if 0 < foreign_citations m
       then [lit ''grounding.'' @ category @ lit '': '' @ show_nat (foreign_citations m) @
             lit '' citation(s) into another notebook''] else []) (gs_by_category (bl_grounding c)))"

definition f64_epsilon :: rfloat where "f64_epsilon = Fin (1 / 2 ^ 52)"

definition check_target :: "string \<Rightarrow> rfloat \<Rightarrow> rfloat \<Rightarrow> target_miss list" where
  "check_target metric v target =
     (if f_lt (f_add rnd64 v f64_epsilon) target
      then [\<lparr>tm_metric = lit metric, tm_value = v, tm_target = target\<rparr>] else [])"

definition unmet :: "baseline \<Rightarrow> targets \<Rightarrow> target_miss list" where
  "unmet b t =
     (let r = rs_overall (bl_retrieval b); g = gs_overall (bl_grounding b) in
      check_target ''retrieval.overall.recall_at_10'' (rm_recall_at_10 r) (tg_recall_at_10 t) @
      check_target ''retrieval.overall.ndcg_at_10'' (rm_ndcg_at_10 r) (tg_ndcg_at_10 t) @
      check_target ''grounding.overall.citation_precision'' (gm_citation_precision g) (tg_citation_precision t) @
      check_target ''grounding.overall.citation_coverage'' (gm_citation_coverage g) (tg_citation_coverage t) @
      check_target ''grounding.overall.abstention_accuracy'' (gm_abstention_accuracy g) (tg_abstention_accuracy t))"

definition sorted_texts :: "rstr list \<Rightarrow> rstr list" where
  "sorted_texts xs = sort_by cmp_ord xs"

definition by_metric :: "delta list \<Rightarrow> delta list" where
  "by_metric ds = sort_by (\<lambda>a b. cmp_ord (dl_metric a) (dl_metric b)) ds"

definition compare_baselines :: "baseline \<Rightarrow> baseline \<Rightarrow> enforcement \<Rightarrow> targets \<Rightarrow> comparison_report" where
  "compare_baselines p c e t =
     \<lparr>cr_schema = baseline_schema, cr_enforcement = e, cr_tolerance = regression_tolerance,
      cr_previous_revision = bl_code_revision p, cr_current_revision = bl_code_revision c,
      cr_incomparable = sorted_texts (incomparable p c),
      cr_missing_metrics = sorted_texts
        (category_missing ''retrieval'' (rs_by_category (bl_retrieval p)) (rs_by_category (bl_retrieval c)) @
         category_missing ''grounding'' (gs_by_category (bl_grounding p)) (gs_by_category (bl_grounding c))),
      cr_regressions = by_metric (filter is_regression (movements p c)),
      cr_improvements = by_metric (filter is_improvement (movements p c)),
      cr_isolation_failures = sorted_texts (isolation_failures c),
      cr_unmet_targets = unmet c t\<rparr>"

subsection \<open>What blocks a release\<close>

definition comparable :: "baseline \<Rightarrow> baseline \<Rightarrow> bool" where
  "comparable p c \<longleftrightarrow>
     bl_schema p = bl_schema c \<and> bl_corpus_version p = bl_corpus_version c \<and>
     bl_chunking_version p = bl_chunking_version c \<and>
     bl_embedding_fingerprint p = bl_embedding_fingerprint c \<and>
     bl_reranker_fingerprint p = bl_reranker_fingerprint c \<and>
     rs_mode (bl_retrieval p) = rs_mode (bl_retrieval c) \<and> rs_split (bl_retrieval p) = rs_split (bl_retrieval c) \<and>
     gs_split (bl_grounding p) = gs_split (bl_grounding c) \<and>
     rs_requested_limit (bl_retrieval p) = rs_requested_limit (bl_retrieval c) \<and>
     fusion_eq (rs_fusion (bl_retrieval p)) (rs_fusion (bl_retrieval c))"

definition held :: "rfloat \<Rightarrow> rfloat \<Rightarrow> bool" where
  "held before after \<longleftrightarrow> \<not> f_lt (round6 (f_add rnd64 after (f_neg before))) (f_neg regression_tolerance)"

definition retrieval_held :: "retrieval_metrics \<Rightarrow> retrieval_metrics \<Rightarrow> bool" where
  "retrieval_held b a \<longleftrightarrow>
     held (rm_recall_at_10 b) (rm_recall_at_10 a) \<and> held (rm_ndcg_at_10 b) (rm_ndcg_at_10 a)"

definition grounding_held :: "grounding_metrics \<Rightarrow> grounding_metrics \<Rightarrow> bool" where
  "grounding_held b a \<longleftrightarrow>
     held (gm_citation_precision b) (gm_citation_precision a) \<and> held (gm_citation_coverage b) (gm_citation_coverage a)"

definition categories_held ::
  "('m \<Rightarrow> 'm \<Rightarrow> bool) \<Rightarrow> ('m \<Rightarrow> nat) \<Rightarrow> (rstr \<times> 'm) list \<Rightarrow> (rstr \<times> 'm) list \<Rightarrow> bool" where
  "categories_held ok observed before after \<longleftrightarrow>
     (\<forall>(k, b)\<in>set before. \<exists>a. map_of after k = Some a \<and> (observed b = 0 \<and> observed a = 0 \<or> ok b a))"

definition not_worse :: "baseline \<Rightarrow> baseline \<Rightarrow> bool" where
  "not_worse p c \<longleftrightarrow>
     retrieval_held (rs_overall (bl_retrieval p)) (rs_overall (bl_retrieval c)) \<and>
     grounding_held (gs_overall (bl_grounding p)) (gs_overall (bl_grounding c)) \<and>
     categories_held retrieval_held rm_judged_queries (rs_by_category (bl_retrieval p)) (rs_by_category (bl_retrieval c)) \<and>
     categories_held grounding_held gm_cases (gs_by_category (bl_grounding p)) (gs_by_category (bl_grounding c))"

definition isolated :: "baseline \<Rightarrow> bool" where
  "isolated c \<longleftrightarrow>
     rm_isolation_failures (rs_overall (bl_retrieval c)) = 0 \<and>
     (\<forall>(k, m)\<in>set (rs_by_category (bl_retrieval c)). rm_isolation_failures m = 0) \<and>
     (\<forall>(k, m)\<in>set (gs_by_category (bl_grounding c)). foreign_citations m = 0)"

lemma sorted_Nil [simp]: "sorted_texts xs = [] \<longleftrightarrow> xs = []" "by_metric ds = [] \<longleftrightarrow> ds = []"
  unfolding sorted_texts_def by_metric_def by (metis length_0_conv length_sort_by)+

lemma incomparable_Nil: "incomparable p c = [] \<longleftrightarrow> comparable p c"
  by (auto simp: incomparable_def comparable_def Let_def require_same_def)

lemma isolation_Nil: "isolation_failures c = [] \<longleftrightarrow> isolated c"
  by (auto simp: isolation_failures_def isolated_def Let_def split: if_splits)

lemma is_regression_movement: "is_regression (movement k x y) \<longleftrightarrow> \<not> held x y"
  by (simp add: is_regression_def movement_def held_def)

lemma no_regression_in: "filter is_regression ds = [] \<longleftrightarrow> (\<forall>d\<in>set ds. \<not> is_regression d)"
  by (simp add: filter_empty_conv)

lemma names_differ: "lit ''recall_at_10'' \<noteq> lit ''ndcg_at_10''" "lit ''citation_precision'' \<noteq> lit ''citation_coverage''"
  by (simp_all add: lit_def)

lemma overall_regressions:
  "filter is_regression (overall_movements s (retrieval_pairs b) (retrieval_pairs a)) = [] \<longleftrightarrow> retrieval_held b a"
  "filter is_regression (overall_movements s (grounding_pairs x) (grounding_pairs y)) = [] \<longleftrightarrow> grounding_held x y"
  using names_differ
  by (simp_all add: overall_movements_def retrieval_pairs_def grounding_pairs_def retrieval_held_def
      grounding_held_def is_regression_movement)

lemma category_regressions:
  assumes "\<And>b a. list_all2 (\<lambda>x y. held (snd x) (snd y)) (pairs b) (pairs a) \<longleftrightarrow> ok b a"
    and "\<And>b a. length (pairs b) = length (pairs a)"
  shows "category_missing s before after = [] \<and>
      filter is_regression (category_movements s pairs observed before after) = [] \<longleftrightarrow>
    categories_held ok observed before after"
proof -
  have ok: "filter is_regression (map (\<lambda>((name, x), (_, y)). movement (lit s @ lit ''.'' @ k @ lit ''.'' @ name) x y)
      (zip (pairs b) (pairs a))) = [] \<longleftrightarrow> ok b a" for b a k
    unfolding assms(1) [symmetric] list_all2_iff no_regression_in
    by (auto simp: assms(2) [of b a] is_regression_movement split: prod.splits)
  show ?thesis
  proof (induction before)
    case Nil
    then show ?case by (simp add: categories_held_def category_missing_def category_movements_def)
  next
    case (Cons x xs)
    obtain k b where x: "x = (k, b)" by (cases x)
    show ?case
    proof (cases "map_of after k")
      case None
      then show ?thesis by (simp add: x categories_held_def category_missing_def)
    next
      case (Some a)
      have "category_missing s (x # xs) after = [] \<and>
          filter is_regression (category_movements s pairs observed (x # xs) after) = [] \<longleftrightarrow>
        (observed b = 0 \<and> observed a = 0 \<or> ok b a) \<and> category_missing s xs after = [] \<and>
          filter is_regression (category_movements s pairs observed xs after) = []"
        using ok [of k b a] Some by (auto simp: x category_missing_def category_movements_def)
      also have "\<dots> \<longleftrightarrow> categories_held ok observed (x # xs) after"
        unfolding Cons by (auto simp: x Some categories_held_def)
      finally show ?thesis .
    qed
  qed
qed

lemma blocking_iff:
  "\<not> blocks_release (compare_baselines p c e t) \<longleftrightarrow>
     comparable p c \<and> not_worse p c \<and> isolated c \<and> (e = RegressionAndTargets \<longrightarrow> unmet c t = [])"
proof -
  have r: "list_all2 (\<lambda>x y. held (snd x) (snd y)) (retrieval_pairs b) (retrieval_pairs a) \<longleftrightarrow> retrieval_held b a" for b a
    by (simp add: retrieval_pairs_def retrieval_held_def)
  have g: "list_all2 (\<lambda>x y. held (snd x) (snd y)) (grounding_pairs b) (grounding_pairs a) \<longleftrightarrow> grounding_held b a" for b a
    by (simp add: grounding_pairs_def grounding_held_def)
  have rc: "category_missing ''retrieval'' before after = [] \<and>
      filter is_regression (category_movements ''retrieval'' retrieval_pairs rm_judged_queries before after) = [] \<longleftrightarrow>
    categories_held retrieval_held rm_judged_queries before after" for before after
    by (rule category_regressions [OF r]) (simp add: retrieval_pairs_def)
  have gc: "category_missing ''grounding'' before after = [] \<and>
      filter is_regression (category_movements ''grounding'' grounding_pairs gm_cases before after) = [] \<longleftrightarrow>
    categories_held grounding_held gm_cases before after" for before after
    by (rule category_regressions [OF g]) (simp add: grounding_pairs_def)
  have "not_worse p c \<longleftrightarrow>
      cr_missing_metrics (compare_baselines p c e t) = [] \<and> cr_regressions (compare_baselines p c e t) = []"
    unfolding not_worse_def rc [symmetric] gc [symmetric] compare_baselines_def movements_def Let_def
    by (simp add: overall_regressions conj_ac)
  then show ?thesis
    by (auto simp: blocks_release_def) (simp_all add: compare_baselines_def incomparable_Nil isolation_Nil)
qed

subsection \<open>From the cases to the gate\<close>

lemma count_key_get: "(case count_key k m j of None \<Rightarrow> 0 | Some n \<Rightarrow> n) =
    (case m j of None \<Rightarrow> 0 | Some n \<Rightarrow> n) + (if j = k then 1 else 0)"
  by (simp add: count_key_def)

lemma tally_get: "(case tally ks j of None \<Rightarrow> 0 | Some n \<Rightarrow> n) = count_list ks j"
proof -
  have "(case fold count_key ks m j of None \<Rightarrow> 0 | Some n \<Rightarrow> n) =
      (case m j of None \<Rightarrow> 0 | Some n \<Rightarrow> n) + count_list ks j" for m
    by (induction ks arbitrary: m) (auto simp: count_key_get)
  then show ?thesis by (simp add: tally_def)
qed

lemma foreign_citations_of:
  "foreign_citations (aggregate outcomes select) = 0 \<longleftrightarrow>
     (\<forall>x\<in>set outcomes. select x \<longrightarrow> CrossNotebook \<notin> set (oc_verdicts x))"
proof -
  have "verdict_as_str v = lit ''cross_notebook'' \<longleftrightarrow> v = CrossNotebook" for v
    by (cases v) (simp_all add: lit_def)
  then have "lit ''cross_notebook'' \<in> set (map verdict_as_str vs) \<longleftrightarrow> CrossNotebook \<in> set vs" for vs
    by (metis (no_types, lifting) image_iff list.set_map)
  then show ?thesis
    by (auto simp: foreign_citations_def aggregate_def Let_def tally_get count_list_0_iff)
qed

lemma case_category:
  "oc_verdicts (score_case u sha C jd a) \<noteq> [] \<Longrightarrow> \<exists>k. oc_category (score_case u sha C jd a) = category_as_str k"
proof -
  have "oc_category (grade u sha C q a jd) = category_as_str (qu_category q)" for q
    by (cases "read_outcome u (an_outcome a)") (simp add: grade_def Let_def)
  then show "oc_verdicts (score_case u sha C jd a) \<noteq> [] \<Longrightarrow> ?thesis"
    by (auto simp: score_case_def unknown_case_def split: option.splits)
qed

lemma all_categories_complete: "k \<in> set all_categories"
  by (cases k) (simp_all add: all_categories_def)

lemma no_foreign_citation:
  assumes "\<forall>(k, m)\<in>set (gr_by_category (run_grounding_eval u sha C cases config jd now)). foreign_citations m = 0"
    and "a \<in> set cases"
  shows "CrossNotebook \<notin> set (oc_verdicts (score_case u sha C jd a))"
proof
  assume foreign: "CrossNotebook \<in> set (oc_verdicts (score_case u sha C jd a))"
  then obtain k where k: "oc_category (score_case u sha C jd a) = category_as_str k"
    using case_category [of u sha C jd a] by fastforce
  have "(category_as_str k, aggregate (map (score_case u sha C jd) cases) (\<lambda>x. oc_category x = category_as_str k))
      \<in> set (gr_by_category (run_grounding_eval u sha C cases config jd now))"
    using all_categories_complete [of k] by (auto simp: run_grounding_eval_def btree_of_def Let_def)
  with assms(1) have "foreign_citations
      (aggregate (map (score_case u sha C jd) cases) (\<lambda>x. oc_category x = category_as_str k)) = 0"
    by auto
  with assms(2) k foreign show False by (auto simp: foreign_citations_of)
qed

text \<open>
  What the gate lets one conclude about the citations of a case: those that were graded, of an
  answer to a known query that was read from the generation of the corpus, lead to chunks of the
  notebook of the query, where they lead to a chunk at all.
\<close>

definition cites_own_notebook :: "unicode \<Rightarrow> (nat list \<Rightarrow> nat list) \<Rightarrow> eval_corpus \<Rightarrow> answer_case \<Rightarrow> bool" where
  "cites_own_notebook u sha C a \<longleftrightarrow>
     (\<forall>q. find (\<lambda>q. qu_id q = an_query_id a) (co_queries C) = Some q \<longrightarrow>
        synthetic_uuid sha (co_generation C) \<in> set (an_generation_ids a) \<longrightarrow>
        (\<forall>(ct, _)\<in>set (fst (snd (read_outcome u (an_outcome a)))). \<forall>slug nb src c.
           resolve_chunk_slug sha C ct = Some slug \<and> corpus_chunk_of C slug = Some (nb, src, c) \<longrightarrow>
           nb_id nb = qu_notebook q))"

lemma graded_citation:
  assumes "(ct, n) \<in> set (fst (snd (read_outcome u (an_outcome a))))"
  shows "\<exists>claim. judge_citation sha C q a claim ct \<in> set (oc_verdicts (grade u sha C q a jd))"
proof -
  obtain answer citations rejected abstained kind where
    o: "read_outcome u (an_outcome a) = (answer, citations, rejected, abstained, kind)" by (metis prod_cases5)
  let ?asserted = "if kind = CaseProviderError \<or> abstained then [] else filter (asserts_claim u answer) (qu_expected_claims q)"
  let ?claims = "associate_claims u answer ?asserted None citations"
  from assms o have "(ct, n) \<in> set citations" by simp
  then have "(ct, n) \<in> fst ` set (zip citations ?claims)"
    by (metis length_associate list.set_map map_fst_zip)
  then obtain claim where "((ct, n), claim) \<in> set (zip citations ?claims)" by auto
  then have "judge_citation sha C q a claim ct \<in>
      (\<lambda>(l, claim). judge_citation sha C q a claim (fst l)) ` set (zip citations ?claims)" by force
  moreover have "set (oc_verdicts (grade u sha C q a jd)) \<supseteq>
      (\<lambda>(l, claim). judge_citation sha C q a claim (fst l)) ` set (zip citations ?claims)"
    by (simp add: grade_def o Let_def)
  ultimately show ?thesis by blast
qed

lemma no_cross_verdict_stays_home:
  assumes "CrossNotebook \<notin> set (oc_verdicts (score_case u sha C jd a))"
  shows "cites_own_notebook u sha C a"
  unfolding cites_own_notebook_def
proof (clarify, rule ccontr)
  fix q ct n slug nb src c
  assume q: "find (\<lambda>q. qu_id q = an_query_id a) (co_queries C) = Some q"
    and current: "synthetic_uuid sha (co_generation C) \<in> set (an_generation_ids a)"
    and ct: "(ct, n) \<in> set (fst (snd (read_outcome u (an_outcome a))))"
    and chunk: "resolve_chunk_slug sha C ct = Some slug" "corpus_chunk_of C slug = Some (nb, src, c)"
    and foreign: "nb_id nb \<noteq> qu_notebook q"
  from graded_citation [OF ct] obtain claim where
    "judge_citation sha C q a claim ct \<in> set (oc_verdicts (grade u sha C q a jd))" by blast
  moreover have "judge_citation sha C q a claim ct = CrossNotebook"
    using chunk current foreign by (simp add: judge_citation_def)
  ultimately show False using assms q by (simp add: score_case_def)
qed

text \<open>
  C35. A candidate that passes the gate was measured as the approved baseline was, on the same corpus,
  split and parameters; none of the four gated metrics fell by more than the tolerance, overall or
  in a category, and no category is missing; the retrieval report counts no
  forbidden source; no citation was graded as leading into another notebook; and so every graded citation of an answer that was
  read from the generation of the corpus leads into the notebook of its question, when it leads to
  a chunk at all. (An answer read from a superseded generation is not covered: its citations are
  graded stale wherever they lead.) When targets are enforced they are met.
\<close>

theorem passed_release:
  assumes "capture r (run_grounding_eval u sha C cases config jd now) = Inr c"
    and "\<not> blocks_release (compare_baselines p c e t)"
  shows "comparable p c \<and> not_worse p c \<and> rm_isolation_failures (rr_overall r) = 0 \<and>
    (\<forall>(k, m)\<in>set (rr_by_category r). rm_isolation_failures m = 0) \<and>
    (\<forall>a\<in>set cases. CrossNotebook \<notin> set (oc_verdicts (score_case u sha C jd a)) \<and> cites_own_notebook u sha C a) \<and>
    (e = RegressionAndTargets \<longrightarrow> unmet c t = [])"
proof -
  from assms(1) have c: "rs_overall (bl_retrieval c) = rr_overall r" "rs_by_category (bl_retrieval c) = rr_by_category r"
      "gs_by_category (bl_grounding c) = gr_by_category (run_grounding_eval u sha C cases config jd now)"
    by (auto simp: capture_def split: if_splits)
  from assms(2) have gate: "comparable p c" "not_worse p c" "isolated c" "e = RegressionAndTargets \<longrightarrow> unmet c t = []"
    unfolding blocking_iff by auto
  from gate(3) have "\<forall>(k, m)\<in>set (gr_by_category (run_grounding_eval u sha C cases config jd now)). foreign_citations m = 0"
    by (simp add: isolated_def c)
  note foreign = no_foreign_citation [OF this]
  have home: "\<forall>a\<in>set cases. CrossNotebook \<notin> set (oc_verdicts (score_case u sha C jd a)) \<and> cites_own_notebook u sha C a"
    using foreign no_cross_verdict_stays_home by blast
  have "rm_isolation_failures (rr_overall r) = 0 \<and> (\<forall>(k, m)\<in>set (rr_by_category r). rm_isolation_failures m = 0)"
    using gate(3) by (simp add: isolated_def c)
  with gate home show ?thesis by blast
qed

text \<open>
  A citation into another notebook is not counted when the answer was read from a superseded
  generation: the generation is checked first.
\<close>

lemma stale_hides_foreign:
  assumes "synthetic_uuid sha (co_generation C) \<notin> set (an_generation_ids a)"
  shows "judge_citation sha C q a claim ct \<in> {UnknownChunk, StaleGeneration}"
  using assms by (simp add: judge_citation_def split: option.split)

text \<open>A candidate measured twice is not worse than itself, and a fall beyond the tolerance is seen.\<close>

lemma held_refl: "held x x"
proof -
  have floor_half: "\<lfloor>1 / 2 :: rat\<rfloor> = 0" by (simp add: floor_eq_iff)
  have z: "rnd64 0 = Fin 0" by (simp add: rnd64_def round_to_def round_mag_def pow2_def)
  have "round6 (f_add rnd64 x (f_neg x)) = Fin 0"
    by (cases x) (simp_all add: round6_def round_metric_def is_finite_def z f_round_def floor_half)
  moreover have "f_le (Fin 0) regression_tolerance"
    unfolding regression_tolerance_def rnd64_def by (rule round_to_nonneg) simp
  moreover have "\<not> f_lt (Fin 0) (f_neg y)" if "f_le (Fin 0) y" for y
    using that by (cases y) simp_all
  ultimately show ?thesis by (simp add: held_def)
qed

lemma tolerance_small: "f_lt (Fin (- 1 / 2)) (f_neg regression_tolerance)"
proof -
  have quarter: "rnd64 (1 / 4) = Fin (1 / 4)" by code_simp
  have below: "f_lt (Fin (- 1 / 2)) (f_neg y)" if "f_le y (Fin (1 / 4))" for y
    using that by (cases y) (simp_all add: f_le_def, linarith)
  show ?thesis
    by (rule below) (unfold regression_tolerance_def quarter [symmetric], rule f64.rnd_mono, simp)
qed

lemma fall_is_seen: "\<not> held (Fin 1) (Fin (1 / 2))"
proof -
  have half: "rnd64 (- 1 / 2) = Fin (- 1 / 2)" by code_simp
  have scaled: "rnd64 (- 500000) = Fin (- 500000)" by code_simp
  have whole: "f_round (Fin (- 500000)) = Fin (- 500000)" by code_simp
  have "round6 (f_add rnd64 (Fin (1 / 2)) (f_neg (Fin 1))) = Fin (- 1 / 2)"
    using half scaled whole by (simp add: round6_def round_metric_def is_finite_def)
  then show ?thesis using tolerance_small by (simp only: held_def not_not)
qed

lemma not_worse_refl:
  assumes "distinct (map fst (rs_by_category (bl_retrieval c)))" "distinct (map fst (gs_by_category (bl_grounding c)))"
  shows "not_worse c c"
  using assms
  by (auto simp: not_worse_def retrieval_held_def grounding_held_def categories_held_def held_refl)

definition sample_metrics :: retrieval_metrics where
  "sample_metrics =
     \<lparr>rm_queries = 0, rm_judged_queries = 0, rm_recall_at_5 = Fin 0, rm_recall_at_10 = Fin 0, rm_recall_at_20 = Fin 0,
      rm_mrr = Fin 0, rm_ndcg_at_10 = Fin 0, rm_source_recall = Fin 0, rm_duplicate_parent_rate = Fin 0,
      rm_top_k_fill_rate = Fin 0, rm_isolation_failures = 0, rm_reasons = Map.empty\<rparr>"

definition sample_report :: "unit retrieval_report" where
  "sample_report =
     \<lparr>rr_schema = [], rr_generated_at = [], rr_corpus_version = [49], rr_corpus_generation = [103],
      rr_chunking_version = [49], rr_code_revision = [50], rr_embedding_fingerprint = [], rr_reranker_fingerprint = [],
      rr_mode = [], rr_split = [], rr_requested_limit = 10,
      rr_fusion = \<lparr>fu_enabled = True, fu_rrf_k = Fin 60, fu_dense_weight = Fin 1, fu_sparse_weight = Fin 1\<rparr>,
      rr_notes = [], rr_overall = sample_metrics, rr_by_category = [([120], sample_metrics)], rr_queries = []\<rparr>"

definition sample_grounding :: grounding_report where
  "sample_grounding = run_grounding_eval ascii_tables sample_sha sample_corpus [sample_answer]
     \<lparr>gc_split = Train, gc_code_revision = [50]\<rparr> None []"

lemma categories_distinct: "distinct (map fst (gr_by_category (run_grounding_eval u sha C cases config jd now)))"
proof -
  have "distinct (map category_as_str all_categories)" by (simp add: all_categories_def lit_def)
  moreover have "mset (map fst (gr_by_category (run_grounding_eval u sha C cases config jd now))) =
      mset (map category_as_str all_categories)"
    by (simp add: run_grounding_eval_def Let_def btree_of_def image_mset.compositionality comp_def)
  ultimately show ?thesis by (metis mset_eq_imp_distinct_iff)
qed

theorem passed_release_witness:
  "\<exists>c. capture sample_report sample_grounding = Inr c \<and> comparable c c \<and> not_worse c c \<and>
     CrossNotebook \<notin> set (oc_verdicts (score_case ascii_tables sample_sha sample_corpus None sample_answer)) \<and>
     cites_own_notebook ascii_tables sample_sha sample_corpus sample_answer"
proof -
  have "rr_corpus_version sample_report = gr_corpus_version sample_grounding"
    "rr_corpus_generation sample_report = gr_corpus_generation sample_grounding"
    "rr_code_revision sample_report = gr_code_revision sample_grounding"
    by (simp_all add: sample_report_def sample_grounding_def run_grounding_eval_def Let_def sample_corpus_def)
  then obtain c where c: "capture sample_report sample_grounding = Inr c" by (simp add: capture_def)
  then have parts: "bl_retrieval c = \<lparr>rs_mode = rr_mode sample_report, rs_split = rr_split sample_report,
        rs_requested_limit = rr_requested_limit sample_report, rs_fusion = rr_fusion sample_report,
        rs_overall = rr_overall sample_report, rs_by_category = rr_by_category sample_report\<rparr>"
      "gs_by_category (bl_grounding c) = gr_by_category sample_grounding"
    by (auto simp: capture_def split: if_splits)
  have "comparable c c" by (simp add: comparable_def fusion_eq_def parts sample_report_def)
  moreover have "not_worse c c"
    by (rule not_worse_refl) (simp_all add: parts sample_grounding_def categories_distinct, simp add: sample_report_def)
  moreover have "isolated c"
    by (auto simp: isolated_def parts sample_report_def sample_metrics_def sample_grounding_def run_grounding_eval_def
        Let_def btree_of_def foreign_citations_of sample_score)
  ultimately have "\<not> blocks_release (compare_baselines c c RegressionOnly default_targets)" unfolding blocking_iff by simp
  from passed_release [OF c [unfolded sample_grounding_def] this] c show ?thesis by auto
qed

end
