(* ===== verification/Spec2Isabelle.thy ===== *)
theory Spec2Isabelle
  imports Pipeline_Contract Resilience Rate_Limit Source_Events Chunking Generation Turn Ingestion
    Voyage Source_Api Eval_Gate
begin

text \<open>
  A model of the notebook server in \<open>src/backend\<close>: sources are ingested into an index of chunks,
  a question is answered from the chunks that are retrieved for it, and the answer is streamed
  with citations that point back into the sources.

  \<^bold>\<open>Foundations.\<close> \<open>Prelude\<close> holds the types and lemmas the components share, the collections and the
  locale of transition systems with an invariant. \<open>Rust_Str\<close> models strings as lists of Unicode
  code points with their length in UTF-8, \<open>Rust_Float\<close> models \<open>f32\<close> and \<open>f64\<close> as rationals with
  explicit rounding, infinities and NaN. \<open>Scores\<close> has the domain types of \<open>types.rs\<close>, \<open>Errors\<close> the
  errors of \<open>error.rs\<close> with the problem response of each.

  \<^bold>\<open>Ingestion.\<close> \<open>Documents\<close> (\<open>services/processor.rs\<close>, \<open>xml.rs\<close>), \<open>Web_Cleaning\<close>
  (\<open>services/content_cleaning.rs\<close>), \<open>Youtube\<close> (\<open>clients/youtube.rs\<close>) and \<open>Ingestion_Clients\<close>
  (\<open>clients/firecrawl.rs\<close>, \<open>clients/mistral_ocr.rs\<close>) turn a source into text. \<open>Ingest_Run\<close> has the
  world a run changes and the steps it is made of, \<open>Source_Extraction\<close> the first stage
  (\<open>source_processing/extraction.rs\<close>), \<open>Chunking\<close> the two passes of \<open>services/rag/chunking.rs\<close>,
  \<open>Indexing\<close> the embedding pipeline (\<open>source_processing/indexing.rs\<close>) as a machine driven by a
  schedule, and \<open>Ingestion\<close> the run as a whole (\<open>source_processing/mod.rs\<close>). \<open>Generation\<close> is the
  database of index generations (\<open>repositories/generation.rs\<close>, the writes of
  \<open>repositories/chunk.rs\<close>), \<open>Provenance\<close> the fingerprints and the embedding cache, \<open>Voyage\<close> the
  client of the embedding provider (\<open>clients/voyage.rs\<close>). The theorems: a failed run changes nothing
  readers see and frees its source, a successful one shows exactly the chunks of the document under embeddings of their texts,
  every run reports one terminal event, every text gets its own vector in whatever order the
  batches finish, as long as a reply numbers its vectors as documented, and the XML events of a Word
  document give the lines of its paragraphs.

  \<^bold>\<open>Source requests.\<close> \<open>Source_Api\<close> (\<open>api/sources.rs\<close>, \<open>api/common.rs\<close>, \<open>services/sources.rs\<close>,
  the rows of \<open>repositories/source.rs\<close>) has creation, reading, reprocessing and deletion over the
  world of \<open>Ingest_Run\<close> and the task scope of \<open>Shutdown\<close>. The theorems: requests of one account
  change nothing that readers of another account's source see and are answered as if it did not
  exist, an accepted creation is one validated row whose build is owned or whose failed claim is
  reported, and a deletion is all or nothing. Requests run one after the other.

  \<^bold>\<open>Retrieval.\<close> \<open>Search\<close>, \<open>Fusion\<close>, \<open>Ranking\<close>, \<open>Formatting\<close>, \<open>Reformulation\<close> and \<open>Pipeline\<close> model
  \<open>services/rag/search\<close>, \<open>services/rag/hyde.rs\<close> and \<open>query_reformulation.rs\<close>;
  \<open>Pipeline_Contract\<close> states what every branch of a retrieval keeps, with hybrid search on or off. \<open>Reasons\<close> and \<open>Trace\<close> are the
  reason codes and the trace payload of \<open>services/rag/eval/trace.rs\<close>.

  \<^bold>\<open>Prompts.\<close> \<open>Budget\<close> (\<open>llm/budget.rs\<close>, \<open>clients/models.rs\<close>), \<open>Context_Budget\<close>
  (\<open>services/chat/context_budget.rs\<close>), \<open>Prompts\<close> and \<open>Prompt_Texts\<close> (\<open>llm/prompts.rs\<close>): what is
  kept of evidence, memory and history. \<open>Turn\<close> proves when the request assembled from it passes the
  last check, and by how much a memory block can make it fail.

  \<^bold>\<open>Chat.\<close> \<open>Chat_Store\<close> (\<open>repositories/chat.rs\<close>, \<open>repositories/rag_log.rs\<close>), \<open>Orchestration\<close>
  (\<open>services/chat/orchestration.rs\<close>), \<open>Streaming\<close> (\<open>api/chat/streaming.rs\<close>), \<open>Turn\<close>
  (\<open>api/chat/turn.rs\<close>, \<open>api/chat/fallback.rs\<close>), \<open>Citations\<close> (\<open>llm/citations.rs\<close>) and
  \<open>Citation_Resolution\<close> (\<open>api/chat/citation_resolution.rs\<close>), \<open>Memory\<close> and \<open>Memory_Store\<close>
  (\<open>services/memory\<close>, \<open>repositories/memory.rs\<close>), \<open>Router\<close> (\<open>clients/llm_router.rs\<close>,
  \<open>core/entitlements.rs\<close>). A turn is a sequence of steps its task can be dropped between; the
  theorems account for its events, its charge and what it stores at every such place.

  \<^bold>\<open>Serving.\<close> \<open>Protocol\<close> (\<open>core/protocol\<close>), \<open>Sse_Frames\<close> (\<open>api/chat/streaming.rs\<close>) and \<open>Source_Events\<close>
  (\<open>services/source_events.rs\<close>) model the event streams; \<open>Circuit_Breaker\<close>, \<open>Resilience\<close>
  (\<open>clients/retry.rs\<close>, \<open>clients/metrics.rs\<close>, \<open>clients/resilience.rs\<close>), \<open>Rate_Limit\<close>
  (\<open>middleware/rate_limit.rs\<close>, \<open>clients/voyage_rate_limiter.rs\<close>), \<open>Shutdown\<close>
  (\<open>middleware/shutdown.rs\<close>) and \<open>Input_Validation\<close> (\<open>validation.rs\<close>) what protects them.
  \<open>Core_Config\<close> (\<open>core/config.rs\<close>) reads the settings and says which the server starts on.

  \<^bold>\<open>Evaluation.\<close> \<open>Eval_Corpus\<close> (\<open>services/rag/eval/corpus.rs\<close>), \<open>Eval_Grounding\<close> (\<open>grounding.rs\<close>) and
  \<open>Eval_Gate\<close> (\<open>baseline.rs\<close>) are the labelled corpus with its validation, the grading of answers and
  the comparison that blocks a release. The theorems: the validation accepts exactly the consistent
  corpora, a citation graded correct is one, and in a candidate that passes the gate no graded
  citation read from the present generation leads into another notebook.

  \<^bold>\<open>How the code is read.\<close> A struct is a record, an enum a datatype, a fallible function returns a
  sum with the error on the left. State is passed explicitly; an SQL statement is a function on
  the tables with the conditions of its text, a transaction one step. Machine integers are words
  where they wrap and naturals with their saturation written out where the code saturates. Time
  is an argument. What an \<open>await\<close> can be dropped at is a fuel: \<open>run\<close> in \<open>Ingest_Run\<close> and the steps
  of \<open>Streaming\<close> and \<open>Turn\<close> stop when it is used up, and their theorems hold for every fuel, so for
  every place. Concurrency is a list of moves that a schedule chooses (\<open>Indexing\<close>, \<open>Shutdown\<close>,
  \<open>Protocol\<close>), and the theorems hold for every schedule; a retry loop is bounded by the retries of
  its configuration, which is its recursion measure.

  \<^bold>\<open>What is one step.\<close> A statement either fails and changes nothing, or applies and is answered: a
  commit whose reply is lost, so that the caller takes a stored change for a failure, is not
  represented. Dropping a registration removes its handle and releases its token in one step of
  \<open>Shutdown\<close>, where the code has two. An emission of one task is one step of \<open>Protocol\<close>; its decision
  and its sending are two in the relation \<open>overlap_step\<close>, under which at most one terminal event is
  still sent. Applying what was learnt from a turn has the memories to itself; that two
  applications which overlap can pass the cap is a lemma of \<open>Memory\<close>.

  \<^bold>\<open>Interfaces.\<close> Locales state what one part relies on in another and are interpreted on the
  model: \<open>step_invariant\<close> (an invariant of a step relation, for the circuit breaker, the index,
  the task scope and others) and \<open>step_relation\<close> (a relation every step of an ingestion keeps, for
  quiet steps, for usage, for building unseen).

  \<^bold>\<open>Parameters.\<close> Libraries and services are arguments: the tokenizer and the splitter, regular
  expressions, the parsers of PDF, XML, HTML and archives, hashes, language models, embedding
  providers and rerankers, the Unicode tables, the entitlement policy. Theorems that rely on one
  name what they assume of it, and a witness instantiates it.

  \<^bold>\<open>Not modelled.\<close> The HTTP clients of the language models around the one call they make, the REST
  handlers that only pass parameters on, the listing of sources and the suggested questions after a
  run, the searches in SQL, the migrations, the wiring of the parts, the runners of the offline
  evaluation, logs and metrics output. Progress that a batch in flight still reports while the failure of its
  dropped run is recorded is shown by a lemma of \<open>Ingestion\<close> but is not among the events of that
  run.
\<close>

end
